(* ===== verification/Prelude.thy ===== *)
theory Prelude imports Main "HOL-Library.Word" begin

text \<open>
  Shared ground of the development: the machine integer types of the C sources
  (ARMv7, so \<open>unsigned long\<close> and \<open>phys_addr_t\<close> have 32 bits), the fact collections
  used by every component, and generic lemmas on words and lists.
\<close>

unbundle bit_operations_syntax

type_synonym u8 = "8 word"
type_synonym u16 = "16 word"
type_synonym u32 = "32 word"
type_synonym u64 = "64 word"

named_theorems reg_defs "register addresses, masks and build-time constants"
named_theorems io_simps "equations of the machine monad"
named_theorems wp_rules "weakest-precondition rules of the machine monad"
named_theorems runs_rules "total-correctness rules of the machine monad"

section \<open>Words\<close>

text \<open>The shifts of C on \<open>unsigned long\<close>; the sources shift by less than 32.\<close>

definition shl :: "u32 \<Rightarrow> u32 \<Rightarrow> u32" where [reg_defs]:
  "shl x n = push_bit (unat n) x"

definition shr :: "u32 \<Rightarrow> u32 \<Rightarrow> u32" where [reg_defs]:
  "shr x n = drop_bit (unat n) x"

lemma bit_and_not_mask:
  fixes x m :: "'a::len word"
  shows "bit (x AND NOT m) n \<longleftrightarrow> bit x n \<and> \<not> bit m n"
  by (auto simp: bit_simps dest: bit_imp_le_length)

lemma and_not_and [simp]:
  fixes x m :: "'a::len word"
  shows "(x AND NOT m) AND m = 0"
  by (rule bit_word_eqI) (auto simp: bit_simps)

lemma or_and_absorb [simp]:
  fixes x m :: "'a::len word"
  shows "(x OR m) AND m = m"
  by (rule bit_word_eqI) (auto simp: bit_simps)

lemma or_and_not [simp]:
  fixes x m :: "'a::len word"
  shows "(x OR m) AND NOT m = x AND NOT m"
  by (rule bit_word_eqI) (auto simp: bit_simps)

text \<open>Setting and clearing disjoint masks do not interfere.\<close>

lemma or_and_disjoint:
  fixes x m k :: "'a::len word"
  assumes "m AND k = 0"
  shows "(x OR m) AND k = x AND k"
proof (rule bit_word_eqI)
  fix n assume "n < LENGTH('a)"
  have "\<not> (bit m n \<and> bit k n)"
    using assms by (metis bit_and_iff bit_0_eq bot_apply bot_bool_def)
  then show "bit ((x OR m) AND k) n = bit (x AND k) n"
    by (auto simp: bit_simps)
qed

lemma and_not_and_disjoint:
  fixes x m k :: "'a::len word"
  assumes "m AND k = 0"
  shows "(x AND NOT m) AND k = x AND k"
proof (rule bit_word_eqI)
  fix n assume n: "n < LENGTH('a)"
  have "\<not> (bit m n \<and> bit k n)"
    using assms by (metis bit_and_iff bit_0_eq bot_apply bot_bool_def)
  with n show "bit ((x AND NOT m) AND k) n = bit (x AND k) n"
    by (auto simp: bit_simps)
qed

text \<open>Read-modify-write sequences with constant masks reduce to one \<open>(x AND a) OR b\<close>.\<close>

lemma and_or_cong:
  fixes x a b :: "'a::len word"
  assumes "a AND NOT b = a' AND NOT b" and "b = b'"
  shows "(x AND a) OR b = (x AND a') OR b'"
proof -
  have norm: "(x AND c) OR b = (x AND (c AND NOT b)) OR b" for c
    by (rule bit_word_eqI) (auto simp: bit_simps)
  show ?thesis using norm [of a] norm [of a'] assms by simp
qed

lemma or_eq_and_or:
  fixes x b :: "'a::len word"
  shows "x OR b = (x AND NOT 0) OR b"
  by simp

lemmas rmw_simps = and.assoc or.assoc bit.conj_disj_distrib2

text \<open>Fields of a register value as numbers.\<close>

lemma unat_shr: "unat (shr x n) = unat x div 2 ^ unat n"
proof -
  have "drop_bit k m = m div 2 ^ k" for k m :: nat by (rule drop_bit_eq_div)
  then show ?thesis by (simp only: shr_def unat_drop_bit_eq)
qed

lemma unat_and_mask: "unat (x AND mask n) = unat x mod 2 ^ n" for x :: u32
proof -
  have "take_bit n m = m mod 2 ^ n" for m :: nat by (rule take_bit_eq_mod)
  then show ?thesis by (simp only: take_bit_eq_mask [symmetric] unsigned_take_bit_eq)
qed

text \<open>Byte offsets of words.\<close>

lemma word_index:
  assumes "4 * k < 2 ^ 32"
  shows "(of_nat (4 * k) :: u32) div 4 = of_nat k" and "unat (of_nat (4 * k) :: u32) = 4 * k"
proof -
  show *: "unat (of_nat (4 * k) :: u32) = 4 * k"
    by (simp only: unat_of_nat) (use assms in simp)
  show "(of_nat (4 * k) :: u32) div 4 = of_nat k"
    using assms by (simp only: word_unat_eq_iff unat_div * ) (simp add: unat_of_nat)
qed

end
