(* ===== verification/Machine.thy ===== *)
theory Machine imports Prelude begin

text \<open>
  The machine the HPS software runs on: memory-mapped registers seen through
  \<open>readl\<close>/\<open>writel\<close> (arch/arm/include/asm/io.h) and the global variables of the
  preloader. The hardware is not in the repository, so it is a parameter: the
  field \<open>env\<close> gives the value a read of an address returns after a history of
  accesses. Every deterministic device, and every timing of one, is such a
  function; a theorem without a hypothesis on \<open>env\<close> holds for all hardware.
\<close>

section \<open>State\<close>

text \<open>\<open>Msg\<close> is console output: the format string and its integer arguments.\<close>

datatype event =
    Rd u32 u32
  | Wr u32 u32
  | Msg string "u32 list"

text \<open>
  An entry of the interrupt table \<open>interrupt_vectors\<close> (interrupts.c): the function
  pointer and its argument. \<open>Inverse_Null\<close> is the value \<open>INVERSE_NULL\<close> of entry 0
  before any registration, \<open>Null_Fxn\<close> the zero the rest of the array starts with.
\<close>

datatype handler =
    Null_Fxn
  | Inverse_Null
  | Ecc_Ocram_Corrected
  | Ecc_Ocram_Uncorrected
  | Ecc_Sdram
  | Other_Handler nat

text \<open>
  \<open>struct spl_image_info\<close> of spl.h. The name is a string constant or points into memory.
\<close>

datatype image_name = Constant string | At u32

record spl_image_info =
  name :: image_name
  os :: u8
  load_addr :: u32
  entry_point :: u32
  image_size :: u32
  image_flags :: u32
  image_crc :: u32
  crc_size :: u32

text \<open>
  The variables of the calibration sequencer: \<open>param_t\<close> and \<open>gbl_t\<close> of sequencer.h. Their
  arrays are indexed below \<open>MAX_RANKS\<close> and \<open>NUM_SHADOW_REGS\<close> only, by the loops over ranks.
\<close>

record param_t =
  dm_correct_mask :: u32
  read_correct_mask :: u32
  read_correct_mask_vg :: u32
  write_correct_mask :: u32
  write_correct_mask_vg :: u32
  skip_ranks :: "nat \<Rightarrow> u32"
  skip_groups :: u32
  skip_shadow_regs :: "nat \<Rightarrow> u32"

record gbl_t =
  phy_debug_mode_flags :: u32
  curr_read_lat :: u32
  curr_write_lat :: u32
  error_substage :: u32
  error_stage :: u32
  error_group :: u32
  fom_in :: u32
  fom_out :: u32
  rw_wl_nop_cycles :: u32

text \<open>
  Global state: the history of accesses (newest first), \<open>frzctrl_channel_freeze\<close> of
  freeze_controller.c, \<open>gd->tbl\<close> and \<open>gd->lastinc\<close> of timer.c, \<open>rst_mgr_status\<close> of
  and \<open>boot_params_ptr\<close> of spl.c, the interrupt table and the three ECC counters; the memory, \<open>spl_image\<close> of common/spl/spl.c,
  where the preloader jumped to with which argument when it handed over, if it did; and the
  variables \<open>*param\<close>, \<open>*gbl\<close>, \<open>dyn_calib_steps\<close> and \<open>skip_delay_mask\<close> of sequencer.c.
\<close>

record mach =
  env :: "event list \<Rightarrow> u32 \<Rightarrow> u32"
  trace :: "event list"
  frz :: "u32 list"
  tbl :: u32
  lastinc :: u32
  rst_mgr_status :: u32
  vectors :: "(handler \<times> u32) list"
  cnt_ocram_corrected :: u32
  cnt_ocram_uncorrected :: u32
  cnt_sdram :: u32
  boot_params_ptr :: u32
  ram :: "u32 \<Rightarrow> u8"
  spl_image :: spl_image_info
  entered :: "(u32 \<times> u32) option"
  param :: param_t
  gbl :: gbl_t
  dyn_calib_steps :: u16
  skip_delay_mask :: u16

section \<open>Operations\<close>

text \<open>
  A piece of code maps a state to \<open>None\<close> (it polls a register for ever), to
  \<open>Val x s\<close> (it returns \<open>x\<close>), to \<open>Halt s\<close> (it entered one of its own endless loops,
  \<open>hang()\<close> or \<open>for (;;);\<close>, in state \<open>s\<close>) or to \<open>Fault\<close> (an array access out of range,
  whose effect C leaves undefined).
\<close>

datatype 'a res = Val 'a mach | Halt mach | Fault

type_synonym 'a io = "mach \<Rightarrow> 'a res option"

definition ret :: "'a \<Rightarrow> 'a io" where
  "ret x s = Some (Val x s)"

definition bind_io :: "'a io \<Rightarrow> ('a \<Rightarrow> 'b io) \<Rightarrow> 'b io" where
  "bind_io m f s = (case m s of
      None \<Rightarrow> None
    | Some (Halt t) \<Rightarrow> Some (Halt t)
    | Some Fault \<Rightarrow> Some Fault
    | Some (Val x t) \<Rightarrow> f x t)"

definition seq_io :: "'a io \<Rightarrow> 'b io \<Rightarrow> 'b io" where
  "seq_io m n = bind_io m (\<lambda>_. n)"

fun seqs :: "unit io list \<Rightarrow> unit io" where
  "seqs [] = ret ()"
| "seqs (m # ms) = seq_io m (seqs ms)"

definition halt_io :: "'a io" where
  "halt_io s = Some (Halt s)"

definition fault_io :: "'a io" where
  "fault_io s = Some Fault"

definition when_io :: "bool \<Rightarrow> unit io \<Rightarrow> unit io" where
  "when_io b m = (if b then m else ret ())"

definition get_io :: "(mach \<Rightarrow> 'a) \<Rightarrow> 'a io" where
  "get_io f s = Some (Val (f s) s)"

definition modify_io :: "(mach \<Rightarrow> mach) \<Rightarrow> unit io" where
  "modify_io f s = Some (Val () (f s))"

definition readl :: "u32 \<Rightarrow> u32 io" where
  "readl a s = (let v = env s (trace s) a in Some (Val v (s\<lparr>trace := Rd a v # trace s\<rparr>)))"

definition writel :: "u32 \<Rightarrow> u32 \<Rightarrow> unit io" where
  "writel v a s = Some (Val () (s\<lparr>trace := Wr a v # trace s\<rparr>))"

definition msg :: "string \<Rightarrow> u32 list \<Rightarrow> unit io" where
  "msg f args s = Some (Val () (s\<lparr>trace := Msg f args # trace s\<rparr>))"

text \<open>\<open>hang\<close> of the preloader says so and stops.\<close>

definition hang :: "'a io" where
  "hang = seq_io (msg ''### ERROR ### Please RESET the board ###'' []) halt_io"

definition setbits_le32 :: "u32 \<Rightarrow> u32 \<Rightarrow> unit io" where
  "setbits_le32 a m = bind_io (readl a) (\<lambda>v. writel (v OR m) a)"

definition clrbits_le32 :: "u32 \<Rightarrow> u32 \<Rightarrow> unit io" where
  "clrbits_le32 a m = bind_io (readl a) (\<lambda>v. writel (v AND NOT m) a)"

text \<open>\<open>for (i = lo; i < hi; i++) body(i)\<close>\<close>

function for_io :: "nat \<Rightarrow> nat \<Rightarrow> (nat \<Rightarrow> unit io) \<Rightarrow> unit io" where
  "for_io lo hi f = (if lo < hi then seq_io (f lo) (for_io (Suc lo) hi f) else ret ())"
  by pat_completeness auto
termination
  by (relation "measure (\<lambda>(lo, hi, f). hi - lo)") auto

declare for_io.simps [simp del]

text \<open>\<open>do v = readl(a); while (!ok(v))\<close>: \<open>None\<close> if the register never satisfies \<open>ok\<close>.\<close>

partial_function (option) poll_until :: "u32 \<Rightarrow> (u32 \<Rightarrow> bool) \<Rightarrow> mach \<Rightarrow> unit res option" where
  "poll_until a ok s =
     (let v = env s (trace s) a; t = s\<lparr>trace := Rd a v # trace s\<rparr>
      in if ok v then Some (Val () t) else poll_until a ok t)"

text \<open>
  \<open>for (i = 0; i < n; i++) { ... break ...}\<close>: the body returns \<open>Some x\<close> to leave the loop
  with \<open>x\<close>; \<open>None\<close> is the exhausted counter, \<open>i == n\<close>.
\<close>

primrec attempt :: "nat \<Rightarrow> 'a option io \<Rightarrow> 'a option io" where
  "attempt 0 body = ret None"
| "attempt (Suc n) body = bind_io body (\<lambda>r. case r of None \<Rightarrow> attempt n body | Some x \<Rightarrow> ret (Some x))"

section \<open>Equations\<close>

lemma bind_ret [io_simps, simp]: "bind_io (ret x) f = f x"
  by (simp add: fun_eq_iff bind_io_def ret_def)

lemma bind_ret_right [simp]: "bind_io m ret = m"
  by (auto simp: fun_eq_iff bind_io_def ret_def split: option.splits res.splits)

lemma bind_assoc [io_simps]: "bind_io (bind_io m f) g = bind_io m (\<lambda>x. bind_io (f x) g)"
  by (auto simp: fun_eq_iff bind_io_def split: option.splits res.splits)

lemma bind_halt [io_simps, simp]: "bind_io halt_io f = halt_io"
  by (simp add: fun_eq_iff bind_io_def halt_io_def)

lemma bind_fault [io_simps, simp]: "bind_io fault_io f = fault_io"
  by (simp add: fun_eq_iff bind_io_def fault_io_def)

lemma seq_ret [io_simps, simp]: "seq_io (ret x) n = n"
  by (simp add: seq_io_def)

lemma seqs_append: "seqs (ms @ ns) = seq_io (seqs ms) (seqs ns)"
  by (induction ms) (simp_all add: seq_io_def bind_assoc)

text \<open>Loops that may run for ever are fixpoints; a sequence is monotone in its parts.\<close>

lemma bind_io_mono [partial_function_mono]:
  assumes "\<And>s. mono_option (\<lambda>g. m g s)" and "\<And>x s. mono_option (\<lambda>g. f g x s)"
  shows "mono_option (\<lambda>g. bind_io (m g) (f g) s)"
proof (rule monotoneI)
  fix g h :: "'a \<Rightarrow> 'b option"
  assume "fun_ord option_ord g h"
  then have m: "option_ord (m g s) (m h s)" and f: "\<And>x t. option_ord (f g x t) (f h x t)" for s
    using assms by (simp_all add: monotone_def)
  show "option_ord (bind_io (m g) (f g) s) (bind_io (m h) (f h) s)"
  proof (cases "m g s")
    case None
    then show ?thesis by (simp add: bind_io_def flat_ord_def)
  next
    case (Some r)
    then have "m h s = Some r" using m [of s] by (simp add: flat_ord_def)
    with Some f show ?thesis by (cases r) (simp_all add: bind_io_def flat_ord_def)
  qed
qed

section \<open>Weakest preconditions\<close>

text \<open>
  \<open>wp m Q H s\<close>: if \<open>m\<close> returns from \<open>s\<close> its result satisfies \<open>Q\<close>, if it halts the
  state satisfies \<open>H\<close>, and it never runs into \<open>Fault\<close>. Termination is stated separately
  (\<open>returns\<close>, \<open>ends\<close>).
\<close>

definition wp :: "'a io \<Rightarrow> ('a \<Rightarrow> mach \<Rightarrow> bool) \<Rightarrow> (mach \<Rightarrow> bool) \<Rightarrow> mach \<Rightarrow> bool" where
  "wp m Q H s = (case m s of None \<Rightarrow> True | Some (Val x t) \<Rightarrow> Q x t | Some (Halt t) \<Rightarrow> H t
    | Some Fault \<Rightarrow> False)"

definition returns :: "'a io \<Rightarrow> mach \<Rightarrow> bool" where
  "returns m s = (\<exists>x t. m s = Some (Val x t))"

lemma wpD: "wp m Q H s \<Longrightarrow> m s = Some (Val x t) \<Longrightarrow> Q x t"
  by (simp add: wp_def)

lemma wp_haltD: "wp m Q H s \<Longrightarrow> m s = Some (Halt t) \<Longrightarrow> H t"
  by (simp add: wp_def)

lemma wp_no_fault: "wp m Q H s \<Longrightarrow> m s \<noteq> Some Fault"
  by (auto simp: wp_def)

lemma wpI:
  "m s \<noteq> Some Fault \<Longrightarrow> (\<And>x t. m s = Some (Val x t) \<Longrightarrow> Q x t) \<Longrightarrow> (\<And>t. m s = Some (Halt t) \<Longrightarrow> H t) \<Longrightarrow> wp m Q H s"
  by (simp add: wp_def split: option.splits res.splits)

lemma wp_mono:
  "wp m Q H s \<Longrightarrow> (\<And>x t. Q x t \<Longrightarrow> Q' x t) \<Longrightarrow> (\<And>t. H t \<Longrightarrow> H' t) \<Longrightarrow> wp m Q' H' s"
  by (auto simp: wp_def split: option.splits res.splits)

lemma wp_ret [wp_rules]: "wp (ret x) Q H = Q x"
  by (simp add: fun_eq_iff wp_def ret_def)

lemma wp_bind [wp_rules]: "wp (bind_io m f) Q H s = wp m (\<lambda>x. wp (f x) Q H) H s"
  by (auto simp: wp_def bind_io_def split: option.splits res.splits)

lemma wp_seq [wp_rules]: "wp (seq_io m n) Q H s = wp m (\<lambda>_. wp n Q H) H s"
  by (simp add: seq_io_def wp_bind)

lemma wp_seqs_Nil [wp_rules]: "wp (seqs []) Q H s = Q () s"
  by (simp add: wp_ret)

lemma wp_seqs_Cons [wp_rules]: "wp (seqs (m # ms)) Q H s = wp m (\<lambda>_. wp (seqs ms) Q H) H s"
  by (simp add: wp_seq)

lemma wp_halt [wp_rules]: "wp halt_io Q H s = H s"
  by (simp add: wp_def halt_io_def)

lemma wp_fault [wp_rules]: "wp fault_io Q H s = False"
  by (simp add: wp_def fault_io_def)

lemma wp_when [wp_rules]: "wp (when_io b m) Q H s = (if b then wp m Q H s else Q () s)"
  by (simp add: when_io_def wp_ret)

lemma wp_if [wp_rules]: "wp (if b then m else n) Q H s = (if b then wp m Q H s else wp n Q H s)"
  by simp

lemma wp_get [wp_rules]: "wp (get_io f) Q H s = Q (f s) s"
  by (simp add: wp_def get_io_def)

lemma wp_modify [wp_rules]: "wp (modify_io f) Q H s = Q () (f s)"
  by (simp add: wp_def modify_io_def)

lemma wp_writel [wp_rules]: "wp (writel v a) Q H s = Q () (s\<lparr>trace := Wr a v # trace s\<rparr>)"
  by (simp add: wp_def writel_def)

lemma wp_msg [wp_rules]: "wp (msg f xs) Q H s = Q () (s\<lparr>trace := Msg f xs # trace s\<rparr>)"
  by (simp add: wp_def msg_def)

lemma wp_readl:
  "wp (readl a) Q H s = Q (env s (trace s) a) (s\<lparr>trace := Rd a (env s (trace s) a) # trace s\<rparr>)"
  by (simp add: wp_def readl_def Let_def)

lemma wp_setbits:
  "wp (setbits_le32 a m) Q H s =
     Q () (s\<lparr>trace := Wr a (env s (trace s) a OR m) # Rd a (env s (trace s) a) # trace s\<rparr>)"
  by (simp add: setbits_le32_def wp_bind wp_readl wp_writel)

lemma wp_clrbits:
  "wp (clrbits_le32 a m) Q H s =
     Q () (s\<lparr>trace := Wr a (env s (trace s) a AND NOT m) # Rd a (env s (trace s) a) # trace s\<rparr>)"
  by (simp add: clrbits_le32_def wp_bind wp_readl wp_writel)

text \<open>
  For properties of all hardware the value read is generalised: the history then stays
  linear in the number of accesses.
\<close>

lemma wp_readl_all:
  "(\<And>v. Q v (s\<lparr>trace := Rd a v # trace s\<rparr>)) \<Longrightarrow> wp (readl a) Q H s"
  by (simp add: wp_readl)

lemma wp_setbits_all:
  "(\<And>v. Q () (s\<lparr>trace := Wr a (v OR m) # Rd a v # trace s\<rparr>)) \<Longrightarrow> wp (setbits_le32 a m) Q H s"
  by (simp add: wp_setbits)

lemma wp_clrbits_all:
  "(\<And>v. Q () (s\<lparr>trace := Wr a (v AND NOT m) # Rd a v # trace s\<rparr>)) \<Longrightarrow> wp (clrbits_le32 a m) Q H s"
  by (simp add: wp_clrbits)

definition polls :: "u32 \<Rightarrow> (u32 \<Rightarrow> bool) \<Rightarrow> mach \<Rightarrow> unit res \<Rightarrow> bool" where
  "polls a ok s r \<longleftrightarrow> (\<exists>vs v. (\<forall>w \<in> set vs. \<not> ok w) \<and> ok v \<and>
     r = Val () (s\<lparr>trace := Rd a v # map (Rd a) vs @ trace s\<rparr>))"

lemma polls_now: "ok v \<Longrightarrow> polls a ok s (Val () (s\<lparr>trace := Rd a v # trace s\<rparr>))"
  unfolding polls_def by (intro exI [of _ "[]"] exI [of _ v]) simp

lemma polls_later:
  assumes "\<not> ok w" and "polls a ok (s\<lparr>trace := Rd a w # trace s\<rparr>) r"
  shows "polls a ok s r"
proof -
  from assms(2) obtain vs v where "\<forall>w \<in> set vs. \<not> ok w" and "ok v"
    and "r = Val () (s\<lparr>trace := Rd a v # map (Rd a) vs @ Rd a w # trace s\<rparr>)"
    unfolding polls_def by auto
  with assms(1) show ?thesis
    unfolding polls_def by (intro exI [of _ "vs @ [w]"] exI [of _ v]) auto
qed

lemma poll_until_trace:
  assumes "poll_until a ok s = Some r"
  shows "polls a ok s r"
proof (rule poll_until.raw_induct [where P = polls, OF _ assms])
  fix poll a ok s r
  assume IH: "\<And>a ok s r. poll a ok s = Some r \<Longrightarrow> polls a ok s r"
    and eq: "(let v = env s (trace s) a; t = s\<lparr>trace := Rd a v # trace s\<rparr>
      in if ok v then Some (Val () t) else poll a ok t) = Some r"
  show "polls a ok s r"
    by (cases "ok (env s (trace s) a)")
      (use eq in \<open>auto simp: Let_def intro: polls_now polls_later dest: IH\<close>)
qed

lemma wp_poll_all:
  assumes "\<And>vs v. \<forall>w \<in> set vs. \<not> ok w \<Longrightarrow> ok v \<Longrightarrow> Q () (s\<lparr>trace := Rd a v # map (Rd a) vs @ trace s\<rparr>)"
  shows "wp (poll_until a ok) Q H s"
  by (rule wpI) (use assms in \<open>auto dest!: poll_until_trace simp: polls_def\<close>)

text \<open>A bounded loop keeps an invariant indexed by its counter.\<close>

lemma wp_for:
  assumes "I lo s" and "lo \<le> hi"
    and "\<And>i t. lo \<le> i \<Longrightarrow> i < hi \<Longrightarrow> I i t \<Longrightarrow> wp (f i) (\<lambda>_. I (Suc i)) H t"
    and "\<And>t. I hi t \<Longrightarrow> Q () t"
  shows "wp (for_io lo hi f) Q H s"
  using assms
proof (induction lo hi f arbitrary: s rule: for_io.induct)
  case (1 lo hi f)
  show ?case
  proof (cases "lo < hi")
    case True
    have "wp (f lo) (\<lambda>_. I (Suc lo)) H s" using 1 True by simp
    then have "wp (f lo) (\<lambda>_ t. wp (for_io (Suc lo) hi f) Q H t) H s"
      by (rule wp_mono) (use 1 True in auto)
    with True show ?thesis by (simp add: for_io.simps [of lo hi] wp_seq)
  next
    case False
    with 1 have "lo = hi" by simp
    with 1 show ?thesis by (simp add: for_io.simps [of hi hi] wp_ret)
  qed
qed

text \<open>So does a loop with \<open>break\<close>.\<close>

lemma wp_attempt:
  assumes "I s"
    and "\<And>t. I t \<Longrightarrow> wp body (\<lambda>r u. case r of None \<Rightarrow> I u | Some x \<Rightarrow> Q (Some x) u) H t"
    and "\<And>t. I t \<Longrightarrow> Q None t"
  shows "wp (attempt n body) Q H s"
  using assms(1)
proof (induction n arbitrary: s)
  case 0
  then show ?case by (simp add: wp_ret assms(3))
next
  case (Suc n)
  have "wp body (\<lambda>r. wp (case r of None \<Rightarrow> attempt n body | Some x \<Rightarrow> ret (Some x)) Q H) H s"
    by (rule wp_mono [OF assms(2) [OF Suc.prems]]) (auto split: option.splits simp: wp_ret Suc.IH)
  then show ?case by (simp add: wp_bind)
qed

section \<open>Total correctness\<close>

text \<open>\<open>runs m Q s\<close>: from \<open>s\<close> the code returns, and its result satisfies \<open>Q\<close>.\<close>

definition runs :: "'a io \<Rightarrow> ('a \<Rightarrow> mach \<Rightarrow> bool) \<Rightarrow> mach \<Rightarrow> bool" where
  "runs m Q s = (case m s of Some (Val x t) \<Rightarrow> Q x t | _ \<Rightarrow> False)"

lemma runs_iff: "runs m Q s \<longleftrightarrow> (\<exists>x t. m s = Some (Val x t) \<and> Q x t)"
  by (auto simp: runs_def split: option.splits res.splits)

lemma runs_wp: "m s = Some (Val x t) \<Longrightarrow> wp m Q H s \<Longrightarrow> runs m Q s"
  by (simp add: runs_def wp_def)

lemma runs_mono: "runs m Q s \<Longrightarrow> (\<And>x t. Q x t \<Longrightarrow> Q' x t) \<Longrightarrow> runs m Q' s"
  by (auto simp: runs_iff)

lemma runs_ret [runs_rules]: "runs (ret x) Q = Q x"
  by (simp add: fun_eq_iff runs_def ret_def)

lemma runs_bind [runs_rules]: "runs (bind_io m f) Q s = runs m (\<lambda>x. runs (f x) Q) s"
  by (auto simp: runs_def bind_io_def split: option.splits res.splits)

lemma runs_seq [runs_rules]: "runs (seq_io m n) Q s = runs m (\<lambda>_. runs n Q) s"
  by (simp add: seq_io_def runs_bind)

lemma runs_seqs_Nil [runs_rules]: "runs (seqs []) Q s = Q () s"
  by (simp add: runs_ret)

lemma runs_seqs_Cons [runs_rules]: "runs (seqs (m # ms)) Q s = runs m (\<lambda>_. runs (seqs ms) Q) s"
  by (simp add: runs_seq)

lemma runs_when [runs_rules]: "runs (when_io b m) Q s = (if b then runs m Q s else Q () s)"
  by (simp add: when_io_def runs_ret)

lemma runs_if [runs_rules]: "runs (if b then m else n) Q s = (if b then runs m Q s else runs n Q s)"
  by simp

lemma runs_get [runs_rules]: "runs (get_io f) Q s = Q (f s) s"
  by (simp add: runs_def get_io_def)

lemma runs_modify [runs_rules]: "runs (modify_io f) Q s = Q () (f s)"
  by (simp add: runs_def modify_io_def)

lemma runs_writel [runs_rules]: "runs (writel v a) Q s = Q () (s\<lparr>trace := Wr a v # trace s\<rparr>)"
  by (simp add: runs_def writel_def)

lemma runs_msg [runs_rules]: "runs (msg f xs) Q s = Q () (s\<lparr>trace := Msg f xs # trace s\<rparr>)"
  by (simp add: runs_def msg_def)

lemma runs_readl:
  "runs (readl a) Q s = Q (env s (trace s) a) (s\<lparr>trace := Rd a (env s (trace s) a) # trace s\<rparr>)"
  by (simp add: runs_def readl_def Let_def)

lemma runs_setbits:
  "runs (setbits_le32 a m) Q s =
     Q () (s\<lparr>trace := Wr a (env s (trace s) a OR m) # Rd a (env s (trace s) a) # trace s\<rparr>)"
  by (simp add: setbits_le32_def runs_bind runs_readl runs_writel)

lemma runs_clrbits:
  "runs (clrbits_le32 a m) Q s =
     Q () (s\<lparr>trace := Wr a (env s (trace s) a AND NOT m) # Rd a (env s (trace s) a) # trace s\<rparr>)"
  by (simp add: clrbits_le32_def runs_bind runs_readl runs_writel)

text \<open>\<open>gives m Q s\<close>: what \<open>m\<close> returns satisfies \<open>Q\<close>, whatever else it may do.\<close>

definition gives :: "'a io \<Rightarrow> ('a \<Rightarrow> mach \<Rightarrow> bool) \<Rightarrow> mach \<Rightarrow> bool" where
  "gives m Q s = (case m s of Some (Val x t) \<Rightarrow> Q x t | _ \<Rightarrow> True)"

lemma gives_any: "gives m (\<lambda>_ _. True) s"
  by (simp add: gives_def split: option.splits res.splits)

lemma gives_ret: "Q x s \<Longrightarrow> gives (ret x) Q s"
  by (simp add: gives_def ret_def)

lemma gives_bind:
  assumes "gives m P s" and "\<And>x t. P x t \<Longrightarrow> gives (f x) Q t"
  shows "gives (bind_io m f) Q s"
proof (cases "\<exists>x t. m s = Some (Val x t)")
  case True
  with assms show ?thesis by (auto simp: gives_def [of m] gives_def [of "bind_io m f"] bind_io_def
    gives_def [of "f _", symmetric])
next
  case False
  then show ?thesis by (auto simp: gives_def bind_io_def split: option.splits res.splits)
qed

lemma gives_seq:
  "gives m (\<lambda>_. P) s \<Longrightarrow> (\<And>t. P t \<Longrightarrow> gives n Q t) \<Longrightarrow> gives (seq_io m n) Q s"
  unfolding seq_io_def by (rule gives_bind)

lemma gives_seqs:
  "(\<And>m u. m \<in> set ms \<Longrightarrow> P u \<Longrightarrow> gives m (\<lambda>_. P) u) \<Longrightarrow> P s \<Longrightarrow> gives (seqs ms) (\<lambda>_. P) s"
  by (induction ms arbitrary: s) (auto intro: gives_ret gives_seq)

lemma gives_for:
  "(\<And>i u. P u \<Longrightarrow> gives (f i) (\<lambda>_. P) u) \<Longrightarrow> P s \<Longrightarrow> gives (for_io lo hi f) (\<lambda>_. P) s"
proof (induction lo hi f arbitrary: s rule: for_io.induct)
  case (1 lo hi f)
  then show ?case by (subst for_io.simps) (auto intro: gives_ret gives_seq)
qed

lemma runs_gives:
  "runs m P s \<Longrightarrow> gives m Q s \<Longrightarrow> runs m (\<lambda>x t. P x t \<and> Q x t) s"
  by (auto simp: gives_def runs_iff)

section \<open>Code that returns on every hardware\<close>

definition ends :: "'a io \<Rightarrow> bool" where
  "ends m \<longleftrightarrow> (\<forall>s. m s \<noteq> None)"

lemma total_ret [simp]: "ends (ret x)"
  by (simp add: ends_def ret_def)

lemma total_halt [simp]: "ends halt_io"
  by (simp add: ends_def halt_io_def)

lemma total_fault [simp]: "ends fault_io"
  by (simp add: ends_def fault_io_def)

lemma total_readl [simp]: "ends (readl a)"
  by (simp add: ends_def readl_def Let_def)

lemma total_writel [simp]: "ends (writel v a)"
  by (simp add: ends_def writel_def)

lemma total_msg [simp]: "ends (msg f xs)"
  by (simp add: ends_def msg_def)

lemma total_get [simp]: "ends (get_io f)"
  by (simp add: ends_def get_io_def)

lemma total_modify [simp]: "ends (modify_io f)"
  by (simp add: ends_def modify_io_def)

lemma total_bind: "ends m \<Longrightarrow> (\<And>x. ends (f x)) \<Longrightarrow> ends (bind_io m f)"
  by (auto simp: ends_def bind_io_def split: option.splits res.splits)

lemma total_seq: "ends m \<Longrightarrow> ends n \<Longrightarrow> ends (seq_io m n)"
  by (simp add: seq_io_def total_bind)

lemma total_seqs: "(\<And>m. m \<in> set ms \<Longrightarrow> ends m) \<Longrightarrow> ends (seqs ms)"
  by (induction ms) (simp_all add: total_seq)

lemma total_when: "ends m \<Longrightarrow> ends (when_io b m)"
  by (simp add: when_io_def)

lemma total_setbits [simp]: "ends (setbits_le32 a m)"
  by (simp add: setbits_le32_def total_bind)

lemma total_clrbits [simp]: "ends (clrbits_le32 a m)"
  by (simp add: clrbits_le32_def total_bind)

lemma total_for: "(\<And>i. ends (f i)) \<Longrightarrow> ends (for_io lo hi f)"
  by (induction lo hi f rule: for_io.induct) (simp add: for_io.simps [of _ _ f for f] total_seq)

lemma total_attempt: "ends body \<Longrightarrow> ends (attempt n body)"
  by (induction n) (auto intro!: total_bind split: option.splits)

text \<open>Total correctness from the two halves.\<close>

lemma wp_returns:
  assumes "ends m" and "wp m Q (\<lambda>_. False) s"
  shows "\<exists>x t. m s = Some (Val x t) \<and> Q x t"
proof -
  from assms(1) obtain r where "m s = Some r"
    unfolding ends_def by (meson option.exhaust_sel)
  with assms(2) show ?thesis by (cases r) (simp_all add: wp_def)
qed

lemma runs_ends: "ends m \<Longrightarrow> wp m Q (\<lambda>_. False) s \<Longrightarrow> runs m Q s"
  using wp_returns by (simp add: runs_iff)

lemmas total_intros = total_bind total_seq total_seqs total_when total_for total_attempt

section \<open>Reading a history\<close>

primrec last_wr :: "u32 \<Rightarrow> event list \<Rightarrow> u32 option" where
  "last_wr a [] = None"
| "last_wr a (e # h) = (case e of
      Wr b v \<Rightarrow> if b = a then Some v else last_wr a h
    | Rd b v \<Rightarrow> last_wr a h
    | Msg f xs \<Rightarrow> last_wr a h)"

primrec last_rd :: "u32 \<Rightarrow> event list \<Rightarrow> u32 option" where
  "last_rd a [] = None"
| "last_rd a (e # h) = (case e of
      Rd b v \<Rightarrow> if b = a then Some v else last_rd a h
    | Wr b v \<Rightarrow> last_rd a h
    | Msg f xs \<Rightarrow> last_rd a h)"

text \<open>The values written to an address, newest first.\<close>

primrec writes_to :: "u32 \<Rightarrow> event list \<Rightarrow> u32 list" where
  "writes_to a [] = []"
| "writes_to a (e # h) = (case e of
      Wr b v \<Rightarrow> if b = a then v # writes_to a h else writes_to a h
    | Rd b v \<Rightarrow> writes_to a h
    | Msg f xs \<Rightarrow> writes_to a h)"

lemma last_wr_reads [simp]: "last_wr a (map (Rd b) vs @ h) = last_wr a h"
  by (induction vs) simp_all

lemma writes_to_reads [simp]: "writes_to a (map (Rd b) vs @ h) = writes_to a h"
  by (induction vs) simp_all

section \<open>Registers that store what is written\<close>

text \<open>
  What the bring-up code relies on for its configuration registers: a read returns the
  last value written. \<open>reg_val r0\<close> is the device all of whose registers do so, with
  reset values \<open>r0\<close>.
\<close>

fun hits :: "event \<Rightarrow> u32 \<Rightarrow> bool" where
  "hits (Wr b v) a = (a = b)"
| "hits (Rd b v) a = False"
| "hits (Msg f xs) a = False"

fun reg_val :: "(u32 \<Rightarrow> u32) \<Rightarrow> event list \<Rightarrow> u32 \<Rightarrow> u32" where
  "reg_val r0 [] a = r0 a"
| "reg_val r0 (Wr b v # h) a = (if a = b then v else reg_val r0 h a)"
| "reg_val r0 (Rd b v # h) a = reg_val r0 h a"
| "reg_val r0 (Msg f xs # h) a = reg_val r0 h a"

locale rw_registers =
  fixes hw :: "event list \<Rightarrow> u32 \<Rightarrow> u32" and R :: "u32 set"
  assumes read_written: "a \<in> R \<Longrightarrow> hw (Wr a v # h) a = v"
    and read_frame: "a \<in> R \<Longrightarrow> \<not> hits e a \<Longrightarrow> hw (e # h) a = hw h a"
begin

lemma hw_Wr: "a \<in> R \<Longrightarrow> hw (Wr b v # h) a = (if a = b then v else hw h a)"
  using read_written read_frame [of a "Wr b v" h] by auto

lemma hw_Rd: "a \<in> R \<Longrightarrow> hw (Rd b v # h) a = hw h a"
  by (simp add: read_frame)

lemma hw_Msg: "a \<in> R \<Longrightarrow> hw (Msg f xs # h) a = hw h a"
  by (simp add: read_frame)

lemma hw_reads: "a \<in> R \<Longrightarrow> hw (map (Rd b) vs @ h) a = hw h a"
  by (induction vs) (simp_all add: hw_Rd)

lemmas hw_simps = hw_Wr hw_Rd hw_Msg hw_reads

lemma hw_reg_val: "a \<in> R \<Longrightarrow> hw h a = reg_val (hw []) h a"
proof (induction h)
  case (Cons e h)
  then show ?case by (cases e) (simp_all add: hw_simps)
qed simp

lemma setbits_value:
  assumes "a \<in> R" and "env s = hw" and "setbits_le32 a m s = Some (Val () t)"
  shows "hw (trace t) a = hw (trace s) a OR m"
  using assms(3) unfolding assms(2) [symmetric]
  by (auto simp: setbits_le32_def bind_io_def readl_def writel_def Let_def hw_Wr [OF assms(1), unfolded assms(2) [symmetric]])

end

interpretation storage: rw_registers "reg_val r0" UNIV
proof unfold_locales
  show "reg_val r0 (Wr a v # h) a = v" for a v h by simp
  show "\<not> hits e a \<Longrightarrow> reg_val r0 (e # h) a = reg_val r0 h a" for e a h
    by (cases e) simp_all
qed

lemma storage_on: "rw_registers (reg_val r0) R"
  using storage.read_written storage.read_frame by unfold_locales simp_all

text \<open>A machine with that hardware, before its first access.\<close>

definition no_image :: spl_image_info where
  "no_image = \<lparr>name = At 0, os = 0, load_addr = 0, entry_point = 0, image_size = 0, image_flags = 0,
     image_crc = 0, crc_size = 0\<rparr>"

definition no_param :: param_t where
  "no_param = \<lparr>dm_correct_mask = 0, read_correct_mask = 0, read_correct_mask_vg = 0, write_correct_mask = 0,
     write_correct_mask_vg = 0, skip_ranks = (\<lambda>_. 0), skip_groups = 0, skip_shadow_regs = (\<lambda>_. 0)\<rparr>"

definition no_gbl :: gbl_t where
  "no_gbl = \<lparr>phy_debug_mode_flags = 0, curr_read_lat = 0, curr_write_lat = 0, error_substage = 0, error_stage = 0,
     error_group = 0, fom_in = 0, fom_out = 0, rw_wl_nop_cycles = 0\<rparr>"

definition storage_machine :: "(u32 \<Rightarrow> u32) \<Rightarrow> mach" where
  "storage_machine r0 = \<lparr>env = reg_val r0, trace = [], frz = [0, 0, 0, 0], tbl = 0, lastinc = 0,
     rst_mgr_status = 0, vectors = (Inverse_Null, 0) # replicate 211 (Null_Fxn, 0),
     cnt_ocram_corrected = 0, cnt_ocram_uncorrected = 0, cnt_sdram = 0, boot_params_ptr = 0, ram = (\<lambda>_. 0),
     spl_image = no_image, entered = None, param = no_param, gbl = no_gbl, dyn_calib_steps = 0,
     skip_delay_mask = 0\<rparr>"

lemma storage_machine_simps [simp]:
  "env (storage_machine r0) = reg_val r0"
  "trace (storage_machine r0) = []"
  "frz (storage_machine r0) = [0, 0, 0, 0]"
  "vectors (storage_machine r0) = (Inverse_Null, 0) # replicate 211 (Null_Fxn, 0)"
  "tbl (storage_machine r0) = 0"
  "lastinc (storage_machine r0) = 0"
  by (simp_all add: storage_machine_def)

section \<open>Hardware that answers\<close>

text \<open>\<open>a\<close> reads a value that satisfies \<open>good\<close> at one of the next \<open>n\<close> polls.\<close>

primrec answers :: "nat \<Rightarrow> u32 \<Rightarrow> (u32 \<Rightarrow> bool) \<Rightarrow> (event list \<Rightarrow> u32 \<Rightarrow> u32) \<Rightarrow> event list \<Rightarrow> bool" where
  "answers 0 a good hw h = False"
| "answers (Suc n) a good hw h = (good (hw h a) \<or> answers n a good hw (Rd a (hw h a) # h))"

end
