(* ===== verification/SocRegs.thy ===== *)
theory SocRegs imports Prelude begin

text \<open>
  The constants of the headers under arch/arm/include/asm/arch-socfpga and of the board
  configuration (board/altera/socfpga, include/configs/socfpga_common.h) that the
  modelled code uses: register addresses, field masks, field setters and the values of
  the hardware handoff. The names are those of the sources; the members of the register
  structures (\<open>struct socfpga_reset_manager\<close> and others) are named after structure and
  member. \<open>CONFIG_SOCFPGA_VIRTUAL_TARGET\<close> is not defined.
\<close>

section \<open>arch/arm/include/asm/arch-socfpga/socfpga_base_addrs.h\<close>

definition SOCFPGA_L3REGS_ADDRESS :: u32 where [reg_defs]:
  "SOCFPGA_L3REGS_ADDRESS = 0xff800000"

definition SOCFPGA_FPGAMGRREGS_ADDRESS :: u32 where [reg_defs]:
  "SOCFPGA_FPGAMGRREGS_ADDRESS = 0xff706000"

definition SOCFPGA_FPGAMGRDATA_ADDRESS :: u32 where [reg_defs]:
  "SOCFPGA_FPGAMGRDATA_ADDRESS = 0xffb90000"

definition SOCFPGA_SDR_ADDRESS :: u32 where [reg_defs]:
  "SOCFPGA_SDR_ADDRESS = 0xffc20000"

definition SOCFPGA_OSC1TIMER0_ADDRESS :: u32 where [reg_defs]:
  "SOCFPGA_OSC1TIMER0_ADDRESS = 0xffd00000"

definition SOCFPGA_CLKMGR_ADDRESS :: u32 where [reg_defs]:
  "SOCFPGA_CLKMGR_ADDRESS = 0xffd04000"

definition SOCFPGA_RSTMGR_ADDRESS :: u32 where [reg_defs]:
  "SOCFPGA_RSTMGR_ADDRESS = 0xffd05000"

definition SOCFPGA_SYSMGR_ADDRESS :: u32 where [reg_defs]:
  "SOCFPGA_SYSMGR_ADDRESS = 0xffd08000"

definition SOCFPGA_SCANMGR_ADDRESS :: u32 where [reg_defs]:
  "SOCFPGA_SCANMGR_ADDRESS = 0xfff02000"

definition SOCFPGA_MPUSCU_ADDRESS :: u32 where [reg_defs]:
  "SOCFPGA_MPUSCU_ADDRESS = 0xfffec000"

section \<open>include/configs/socfpga_common.h\<close>

definition CONFIG_SYS_TEXT_BASE :: u32 where [reg_defs]:
  "CONFIG_SYS_TEXT_BASE = 0x01000040"

definition SOCFPGA_GIC_CPU_IF :: u32 where [reg_defs]:
  "SOCFPGA_GIC_CPU_IF = SOCFPGA_MPUSCU_ADDRESS + 0x100"

definition SOCFPGA_GIC_DIC :: u32 where [reg_defs]:
  "SOCFPGA_GIC_DIC = SOCFPGA_MPUSCU_ADDRESS + 0x1000"

definition CONFIG_SYS_TIMERBASE :: u32 where [reg_defs]:
  "CONFIG_SYS_TIMERBASE = SOCFPGA_OSC1TIMER0_ADDRESS"

definition TIMER_LOAD_VAL :: u32 where [reg_defs]:
  "TIMER_LOAD_VAL = 0xffffffff"

definition CONFIG_SYS_HZ :: u32 where [reg_defs]:
  "CONFIG_SYS_HZ = 1000"

section \<open>board/altera/socfpga/pll_config.h\<close>

definition CONFIG_HPS_CLK_OSC1_HZ :: u32 where [reg_defs]:
  "CONFIG_HPS_CLK_OSC1_HZ = 25000000"

section \<open>include/configs/socfpga_common.h\<close>

definition CONFIG_TIMER_CLOCK_KHZ :: u32 where [reg_defs]:
  "CONFIG_TIMER_CLOCK_KHZ = CONFIG_HPS_CLK_OSC1_HZ div 1000"

section \<open>board/altera/socfpga/build.h\<close>

definition CONFIG_PRELOADER_SDMMC_NEXT_BOOT_IMAGE :: u32 where [reg_defs]:
  "CONFIG_PRELOADER_SDMMC_NEXT_BOOT_IMAGE = 0x40000"

section \<open>include/configs/socfpga_common.h\<close>

definition CONFIG_PRELOADER_STATE_REG :: u32 where [reg_defs]:
  "CONFIG_PRELOADER_STATE_REG = 0xffd080c8"

definition CONFIG_PRELOADER_STATE_VALID :: u32 where [reg_defs]:
  "CONFIG_PRELOADER_STATE_VALID = 0x49535756"

section \<open>board/altera/socfpga/reset_config.h\<close>

definition CONFIG_HPS_RESET_ASSERT_EMAC0 :: u32 where [reg_defs]:
  "CONFIG_HPS_RESET_ASSERT_EMAC0 = 1"

definition CONFIG_HPS_RESET_ASSERT_EMAC1 :: u32 where [reg_defs]:
  "CONFIG_HPS_RESET_ASSERT_EMAC1 = 0"

definition CONFIG_HPS_RESET_ASSERT_USB0 :: u32 where [reg_defs]:
  "CONFIG_HPS_RESET_ASSERT_USB0 = 1"

definition CONFIG_HPS_RESET_ASSERT_USB1 :: u32 where [reg_defs]:
  "CONFIG_HPS_RESET_ASSERT_USB1 = 0"

definition CONFIG_HPS_RESET_ASSERT_NAND :: u32 where [reg_defs]:
  "CONFIG_HPS_RESET_ASSERT_NAND = 1"

definition CONFIG_HPS_RESET_ASSERT_SDMMC :: u32 where [reg_defs]:
  "CONFIG_HPS_RESET_ASSERT_SDMMC = 0"

definition CONFIG_HPS_RESET_ASSERT_QSPI :: u32 where [reg_defs]:
  "CONFIG_HPS_RESET_ASSERT_QSPI = 0"

definition CONFIG_HPS_RESET_ASSERT_UART0 :: u32 where [reg_defs]:
  "CONFIG_HPS_RESET_ASSERT_UART0 = 0"

definition CONFIG_HPS_RESET_ASSERT_UART1 :: u32 where [reg_defs]:
  "CONFIG_HPS_RESET_ASSERT_UART1 = 1"

definition CONFIG_HPS_RESET_ASSERT_I2C0 :: u32 where [reg_defs]:
  "CONFIG_HPS_RESET_ASSERT_I2C0 = 0"

definition CONFIG_HPS_RESET_ASSERT_I2C1 :: u32 where [reg_defs]:
  "CONFIG_HPS_RESET_ASSERT_I2C1 = 0"

definition CONFIG_HPS_RESET_ASSERT_I2C2 :: u32 where [reg_defs]:
  "CONFIG_HPS_RESET_ASSERT_I2C2 = 1"

definition CONFIG_HPS_RESET_ASSERT_I2C3 :: u32 where [reg_defs]:
  "CONFIG_HPS_RESET_ASSERT_I2C3 = 1"

definition CONFIG_HPS_RESET_ASSERT_SPIM0 :: u32 where [reg_defs]:
  "CONFIG_HPS_RESET_ASSERT_SPIM0 = 1"

definition CONFIG_HPS_RESET_ASSERT_SPIM1 :: u32 where [reg_defs]:
  "CONFIG_HPS_RESET_ASSERT_SPIM1 = 0"

definition CONFIG_HPS_RESET_ASSERT_SPIS0 :: u32 where [reg_defs]:
  "CONFIG_HPS_RESET_ASSERT_SPIS0 = 1"

definition CONFIG_HPS_RESET_ASSERT_SPIS1 :: u32 where [reg_defs]:
  "CONFIG_HPS_RESET_ASSERT_SPIS1 = 1"

definition CONFIG_HPS_RESET_ASSERT_CAN0 :: u32 where [reg_defs]:
  "CONFIG_HPS_RESET_ASSERT_CAN0 = 1"

definition CONFIG_HPS_RESET_ASSERT_CAN1 :: u32 where [reg_defs]:
  "CONFIG_HPS_RESET_ASSERT_CAN1 = 1"

definition CONFIG_HPS_RESET_ASSERT_L4WD1 :: u32 where [reg_defs]:
  "CONFIG_HPS_RESET_ASSERT_L4WD1 = 0"

definition CONFIG_HPS_RESET_ASSERT_OSC1TIMER1 :: u32 where [reg_defs]:
  "CONFIG_HPS_RESET_ASSERT_OSC1TIMER1 = 0"

definition CONFIG_HPS_RESET_ASSERT_SPTIMER0 :: u32 where [reg_defs]:
  "CONFIG_HPS_RESET_ASSERT_SPTIMER0 = 0"

definition CONFIG_HPS_RESET_ASSERT_SPTIMER1 :: u32 where [reg_defs]:
  "CONFIG_HPS_RESET_ASSERT_SPTIMER1 = 0"

definition CONFIG_HPS_RESET_ASSERT_GPIO0 :: u32 where [reg_defs]:
  "CONFIG_HPS_RESET_ASSERT_GPIO0 = 0"

definition CONFIG_HPS_RESET_ASSERT_GPIO1 :: u32 where [reg_defs]:
  "CONFIG_HPS_RESET_ASSERT_GPIO1 = 0"

definition CONFIG_HPS_RESET_ASSERT_GPIO2 :: u32 where [reg_defs]:
  "CONFIG_HPS_RESET_ASSERT_GPIO2 = 0"

definition CONFIG_HPS_RESET_ASSERT_DMA :: u32 where [reg_defs]:
  "CONFIG_HPS_RESET_ASSERT_DMA = 0"

definition CONFIG_HPS_RESET_ASSERT_SDR :: u32 where [reg_defs]:
  "CONFIG_HPS_RESET_ASSERT_SDR = 0"

definition CONFIG_HPS_RESET_ASSERT_FPGA_DMA0 :: u32 where [reg_defs]:
  "CONFIG_HPS_RESET_ASSERT_FPGA_DMA0 = 1"

definition CONFIG_HPS_RESET_ASSERT_FPGA_DMA1 :: u32 where [reg_defs]:
  "CONFIG_HPS_RESET_ASSERT_FPGA_DMA1 = 1"

definition CONFIG_HPS_RESET_ASSERT_FPGA_DMA2 :: u32 where [reg_defs]:
  "CONFIG_HPS_RESET_ASSERT_FPGA_DMA2 = 1"

definition CONFIG_HPS_RESET_ASSERT_FPGA_DMA3 :: u32 where [reg_defs]:
  "CONFIG_HPS_RESET_ASSERT_FPGA_DMA3 = 1"

definition CONFIG_HPS_RESET_ASSERT_FPGA_DMA4 :: u32 where [reg_defs]:
  "CONFIG_HPS_RESET_ASSERT_FPGA_DMA4 = 1"

definition CONFIG_HPS_RESET_ASSERT_FPGA_DMA5 :: u32 where [reg_defs]:
  "CONFIG_HPS_RESET_ASSERT_FPGA_DMA5 = 1"

definition CONFIG_HPS_RESET_ASSERT_FPGA_DMA6 :: u32 where [reg_defs]:
  "CONFIG_HPS_RESET_ASSERT_FPGA_DMA6 = 1"

definition CONFIG_HPS_RESET_ASSERT_FPGA_DMA7 :: u32 where [reg_defs]:
  "CONFIG_HPS_RESET_ASSERT_FPGA_DMA7 = 1"

definition CONFIG_HPS_RESET_ASSERT_HPS2FPGA :: u32 where [reg_defs]:
  "CONFIG_HPS_RESET_ASSERT_HPS2FPGA = 0"

definition CONFIG_HPS_RESET_ASSERT_LWHPS2FPGA :: u32 where [reg_defs]:
  "CONFIG_HPS_RESET_ASSERT_LWHPS2FPGA = 0"

definition CONFIG_HPS_RESET_ASSERT_FPGA2HPS :: u32 where [reg_defs]:
  "CONFIG_HPS_RESET_ASSERT_FPGA2HPS = 0"

definition CONFIG_HPS_RESET_WARMRST_HANDSHAKE_FPGA :: u32 where [reg_defs]:
  "CONFIG_HPS_RESET_WARMRST_HANDSHAKE_FPGA = 1"

definition CONFIG_HPS_RESET_WARMRST_HANDSHAKE_ETR :: u32 where [reg_defs]:
  "CONFIG_HPS_RESET_WARMRST_HANDSHAKE_ETR = 1"

definition CONFIG_HPS_RESET_WARMRST_HANDSHAKE_SDRAM :: u32 where [reg_defs]:
  "CONFIG_HPS_RESET_WARMRST_HANDSHAKE_SDRAM = 0"

section \<open>board/altera/socfpga/pll_config.h\<close>

definition CONFIG_HPS_MAINPLLGRP_VCO_DENOM :: u32 where [reg_defs]:
  "CONFIG_HPS_MAINPLLGRP_VCO_DENOM = 0"

definition CONFIG_HPS_MAINPLLGRP_VCO_NUMER :: u32 where [reg_defs]:
  "CONFIG_HPS_MAINPLLGRP_VCO_NUMER = 63"

definition CONFIG_HPS_MAINPLLGRP_MPUCLK_CNT :: u32 where [reg_defs]:
  "CONFIG_HPS_MAINPLLGRP_MPUCLK_CNT = 0"

definition CONFIG_HPS_MAINPLLGRP_MAINCLK_CNT :: u32 where [reg_defs]:
  "CONFIG_HPS_MAINPLLGRP_MAINCLK_CNT = 0"

definition CONFIG_HPS_MAINPLLGRP_DBGATCLK_CNT :: u32 where [reg_defs]:
  "CONFIG_HPS_MAINPLLGRP_DBGATCLK_CNT = 0"

definition CONFIG_HPS_MAINPLLGRP_MAINQSPICLK_CNT :: u32 where [reg_defs]:
  "CONFIG_HPS_MAINPLLGRP_MAINQSPICLK_CNT = 3"

definition CONFIG_HPS_MAINPLLGRP_MAINNANDSDMMCCLK_CNT :: u32 where [reg_defs]:
  "CONFIG_HPS_MAINPLLGRP_MAINNANDSDMMCCLK_CNT = 3"

definition CONFIG_HPS_MAINPLLGRP_CFGS2FUSER0CLK_CNT :: u32 where [reg_defs]:
  "CONFIG_HPS_MAINPLLGRP_CFGS2FUSER0CLK_CNT = 15"

definition CONFIG_HPS_MAINPLLGRP_MAINDIV_L3MPCLK :: u32 where [reg_defs]:
  "CONFIG_HPS_MAINPLLGRP_MAINDIV_L3MPCLK = 1"

definition CONFIG_HPS_MAINPLLGRP_MAINDIV_L3SPCLK :: u32 where [reg_defs]:
  "CONFIG_HPS_MAINPLLGRP_MAINDIV_L3SPCLK = 1"

definition CONFIG_HPS_MAINPLLGRP_MAINDIV_L4MPCLK :: u32 where [reg_defs]:
  "CONFIG_HPS_MAINPLLGRP_MAINDIV_L4MPCLK = 1"

definition CONFIG_HPS_MAINPLLGRP_MAINDIV_L4SPCLK :: u32 where [reg_defs]:
  "CONFIG_HPS_MAINPLLGRP_MAINDIV_L4SPCLK = 1"

definition CONFIG_HPS_MAINPLLGRP_DBGDIV_DBGATCLK :: u32 where [reg_defs]:
  "CONFIG_HPS_MAINPLLGRP_DBGDIV_DBGATCLK = 0"

definition CONFIG_HPS_MAINPLLGRP_DBGDIV_DBGCLK :: u32 where [reg_defs]:
  "CONFIG_HPS_MAINPLLGRP_DBGDIV_DBGCLK = 1"

definition CONFIG_HPS_MAINPLLGRP_TRACEDIV_TRACECLK :: u32 where [reg_defs]:
  "CONFIG_HPS_MAINPLLGRP_TRACEDIV_TRACECLK = 0"

definition CONFIG_HPS_MAINPLLGRP_L4SRC_L4MP :: u32 where [reg_defs]:
  "CONFIG_HPS_MAINPLLGRP_L4SRC_L4MP = 1"

definition CONFIG_HPS_MAINPLLGRP_L4SRC_L4SP :: u32 where [reg_defs]:
  "CONFIG_HPS_MAINPLLGRP_L4SRC_L4SP = 1"

definition CONFIG_HPS_PERPLLGRP_VCO_DENOM :: u32 where [reg_defs]:
  "CONFIG_HPS_PERPLLGRP_VCO_DENOM = 1"

definition CONFIG_HPS_PERPLLGRP_VCO_NUMER :: u32 where [reg_defs]:
  "CONFIG_HPS_PERPLLGRP_VCO_NUMER = 79"

definition CONFIG_HPS_PERPLLGRP_VCO_PSRC :: u32 where [reg_defs]:
  "CONFIG_HPS_PERPLLGRP_VCO_PSRC = 0"

definition CONFIG_HPS_PERPLLGRP_EMAC0CLK_CNT :: u32 where [reg_defs]:
  "CONFIG_HPS_PERPLLGRP_EMAC0CLK_CNT = 3"

definition CONFIG_HPS_PERPLLGRP_EMAC1CLK_CNT :: u32 where [reg_defs]:
  "CONFIG_HPS_PERPLLGRP_EMAC1CLK_CNT = 3"

definition CONFIG_HPS_PERPLLGRP_PERQSPICLK_CNT :: u32 where [reg_defs]:
  "CONFIG_HPS_PERPLLGRP_PERQSPICLK_CNT = 1"

definition CONFIG_HPS_PERPLLGRP_PERNANDSDMMCCLK_CNT :: u32 where [reg_defs]:
  "CONFIG_HPS_PERPLLGRP_PERNANDSDMMCCLK_CNT = 19"

definition CONFIG_HPS_PERPLLGRP_PERBASECLK_CNT :: u32 where [reg_defs]:
  "CONFIG_HPS_PERPLLGRP_PERBASECLK_CNT = 4"

definition CONFIG_HPS_PERPLLGRP_S2FUSER1CLK_CNT :: u32 where [reg_defs]:
  "CONFIG_HPS_PERPLLGRP_S2FUSER1CLK_CNT = 9"

definition CONFIG_HPS_PERPLLGRP_DIV_USBCLK :: u32 where [reg_defs]:
  "CONFIG_HPS_PERPLLGRP_DIV_USBCLK = 0"

definition CONFIG_HPS_PERPLLGRP_DIV_SPIMCLK :: u32 where [reg_defs]:
  "CONFIG_HPS_PERPLLGRP_DIV_SPIMCLK = 0"

definition CONFIG_HPS_PERPLLGRP_DIV_CAN0CLK :: u32 where [reg_defs]:
  "CONFIG_HPS_PERPLLGRP_DIV_CAN0CLK = 1"

definition CONFIG_HPS_PERPLLGRP_DIV_CAN1CLK :: u32 where [reg_defs]:
  "CONFIG_HPS_PERPLLGRP_DIV_CAN1CLK = 1"

definition CONFIG_HPS_PERPLLGRP_GPIODIV_GPIODBCLK :: u32 where [reg_defs]:
  "CONFIG_HPS_PERPLLGRP_GPIODIV_GPIODBCLK = 6249"

definition CONFIG_HPS_PERPLLGRP_SRC_SDMMC :: u32 where [reg_defs]:
  "CONFIG_HPS_PERPLLGRP_SRC_SDMMC = 2"

definition CONFIG_HPS_PERPLLGRP_SRC_NAND :: u32 where [reg_defs]:
  "CONFIG_HPS_PERPLLGRP_SRC_NAND = 2"

definition CONFIG_HPS_PERPLLGRP_SRC_QSPI :: u32 where [reg_defs]:
  "CONFIG_HPS_PERPLLGRP_SRC_QSPI = 1"

definition CONFIG_HPS_SDRPLLGRP_VCO_DENOM :: u32 where [reg_defs]:
  "CONFIG_HPS_SDRPLLGRP_VCO_DENOM = 0"

definition CONFIG_HPS_SDRPLLGRP_VCO_NUMER :: u32 where [reg_defs]:
  "CONFIG_HPS_SDRPLLGRP_VCO_NUMER = 15"

definition CONFIG_HPS_SDRPLLGRP_VCO_SSRC :: u32 where [reg_defs]:
  "CONFIG_HPS_SDRPLLGRP_VCO_SSRC = 0"

definition CONFIG_HPS_SDRPLLGRP_DDRDQSCLK_CNT :: u32 where [reg_defs]:
  "CONFIG_HPS_SDRPLLGRP_DDRDQSCLK_CNT = 1"

definition CONFIG_HPS_SDRPLLGRP_DDRDQSCLK_PHASE :: u32 where [reg_defs]:
  "CONFIG_HPS_SDRPLLGRP_DDRDQSCLK_PHASE = 0"

definition CONFIG_HPS_SDRPLLGRP_DDR2XDQSCLK_CNT :: u32 where [reg_defs]:
  "CONFIG_HPS_SDRPLLGRP_DDR2XDQSCLK_CNT = 0"

definition CONFIG_HPS_SDRPLLGRP_DDR2XDQSCLK_PHASE :: u32 where [reg_defs]:
  "CONFIG_HPS_SDRPLLGRP_DDR2XDQSCLK_PHASE = 0"

definition CONFIG_HPS_SDRPLLGRP_DDRDQCLK_CNT :: u32 where [reg_defs]:
  "CONFIG_HPS_SDRPLLGRP_DDRDQCLK_CNT = 1"

definition CONFIG_HPS_SDRPLLGRP_DDRDQCLK_PHASE :: u32 where [reg_defs]:
  "CONFIG_HPS_SDRPLLGRP_DDRDQCLK_PHASE = 4"

definition CONFIG_HPS_SDRPLLGRP_S2FUSER2CLK_CNT :: u32 where [reg_defs]:
  "CONFIG_HPS_SDRPLLGRP_S2FUSER2CLK_CNT = 5"

definition CONFIG_HPS_SDRPLLGRP_S2FUSER2CLK_PHASE :: u32 where [reg_defs]:
  "CONFIG_HPS_SDRPLLGRP_S2FUSER2CLK_PHASE = 0"

definition CONFIG_HPS_CLK_MAINVCO_HZ :: u32 where [reg_defs]:
  "CONFIG_HPS_CLK_MAINVCO_HZ = 1600000000"

definition CONFIG_HPS_CLK_PERVCO_HZ :: u32 where [reg_defs]:
  "CONFIG_HPS_CLK_PERVCO_HZ = 1000000000"

definition CONFIG_HPS_CLK_SDRVCO_HZ :: u32 where [reg_defs]:
  "CONFIG_HPS_CLK_SDRVCO_HZ = 600000000"

definition CONFIG_HPS_CLK_EMAC0_HZ :: u32 where [reg_defs]:
  "CONFIG_HPS_CLK_EMAC0_HZ = 50000000"

definition CONFIG_HPS_CLK_USBCLK_HZ :: u32 where [reg_defs]:
  "CONFIG_HPS_CLK_USBCLK_HZ = 200000000"

definition CONFIG_HPS_CLK_SDMMC_HZ :: u32 where [reg_defs]:
  "CONFIG_HPS_CLK_SDMMC_HZ = 50000000"

definition CONFIG_HPS_CLK_QSPI_HZ :: u32 where [reg_defs]:
  "CONFIG_HPS_CLK_QSPI_HZ = 400000000"

section \<open>board/altera/socfpga/iocsr_config_cyclone5.h\<close>

definition CONFIG_HPS_IOCSR_SCANCHAIN0_LENGTH :: u32 where [reg_defs]:
  "CONFIG_HPS_IOCSR_SCANCHAIN0_LENGTH = 764"

definition CONFIG_HPS_IOCSR_SCANCHAIN1_LENGTH :: u32 where [reg_defs]:
  "CONFIG_HPS_IOCSR_SCANCHAIN1_LENGTH = 1719"

definition CONFIG_HPS_IOCSR_SCANCHAIN2_LENGTH :: u32 where [reg_defs]:
  "CONFIG_HPS_IOCSR_SCANCHAIN2_LENGTH = 955"

definition CONFIG_HPS_IOCSR_SCANCHAIN3_LENGTH :: u32 where [reg_defs]:
  "CONFIG_HPS_IOCSR_SCANCHAIN3_LENGTH = 16766"

section \<open>arch/arm/include/asm/arch-socfpga/reset_manager.h\<close>

definition rstmgr_ctrl :: u32 where [reg_defs]:
  "rstmgr_ctrl = SOCFPGA_RSTMGR_ADDRESS + 0x4"

definition rstmgr_mpu_mod_reset :: u32 where [reg_defs]:
  "rstmgr_mpu_mod_reset = SOCFPGA_RSTMGR_ADDRESS + 0x10"

definition rstmgr_per_mod_reset :: u32 where [reg_defs]:
  "rstmgr_per_mod_reset = SOCFPGA_RSTMGR_ADDRESS + 0x14"

definition rstmgr_per2_mod_reset :: u32 where [reg_defs]:
  "rstmgr_per2_mod_reset = SOCFPGA_RSTMGR_ADDRESS + 0x18"

definition rstmgr_brg_mod_reset :: u32 where [reg_defs]:
  "rstmgr_brg_mod_reset = SOCFPGA_RSTMGR_ADDRESS + 0x1c"

definition RSTMGR_CTRL_SWWARMRSTREQ_LSB :: u32 where [reg_defs]:
  "RSTMGR_CTRL_SWWARMRSTREQ_LSB = 1"

definition RSTMGR_PERMODRST_OSC1TIMER0_LSB :: u32 where [reg_defs]:
  "RSTMGR_PERMODRST_OSC1TIMER0_LSB = 8"

definition RSTMGR_PERMODRST_EMAC0_LSB :: u32 where [reg_defs]:
  "RSTMGR_PERMODRST_EMAC0_LSB = 0"

definition RSTMGR_PERMODRST_EMAC1_LSB :: u32 where [reg_defs]:
  "RSTMGR_PERMODRST_EMAC1_LSB = 1"

definition RSTMGR_PERMODRST_L4WD0_LSB :: u32 where [reg_defs]:
  "RSTMGR_PERMODRST_L4WD0_LSB = 6"

definition RSTMGR_BRGMODRST_HPS2FPGA_MASK :: u32 where [reg_defs]:
  "RSTMGR_BRGMODRST_HPS2FPGA_MASK = 0x00000001"

definition RSTMGR_BRGMODRST_LWHPS2FPGA_MASK :: u32 where [reg_defs]:
  "RSTMGR_BRGMODRST_LWHPS2FPGA_MASK = 0x00000002"

definition RSTMGR_BRGMODRST_FPGA2HPS_MASK :: u32 where [reg_defs]:
  "RSTMGR_BRGMODRST_FPGA2HPS_MASK = 0x00000004"

definition RSTMGR_STAT_L4WD1RST_MASK :: u32 where [reg_defs]:
  "RSTMGR_STAT_L4WD1RST_MASK = 0x00008000"

definition RSTMGR_STAT_L4WD0RST_MASK :: u32 where [reg_defs]:
  "RSTMGR_STAT_L4WD0RST_MASK = 0x00004000"

definition RSTMGR_STAT_MPUWD1RST_MASK :: u32 where [reg_defs]:
  "RSTMGR_STAT_MPUWD1RST_MASK = 0x00002000"

definition RSTMGR_STAT_MPUWD0RST_MASK :: u32 where [reg_defs]:
  "RSTMGR_STAT_MPUWD0RST_MASK = 0x00001000"

definition RSTMGR_STAT_SWWARMRST_MASK :: u32 where [reg_defs]:
  "RSTMGR_STAT_SWWARMRST_MASK = 0x00000400"

definition RSTMGR_STAT_FPGAWARMRST_MASK :: u32 where [reg_defs]:
  "RSTMGR_STAT_FPGAWARMRST_MASK = 0x00000200"

definition RSTMGR_STAT_NRSTPINRST_MASK :: u32 where [reg_defs]:
  "RSTMGR_STAT_NRSTPINRST_MASK = 0x00000100"

definition RSTMGR_WARMRST_MASK :: u32 where [reg_defs]:
  "RSTMGR_WARMRST_MASK = (((((RSTMGR_STAT_L4WD1RST_MASK OR RSTMGR_STAT_L4WD0RST_MASK) OR
     RSTMGR_STAT_MPUWD1RST_MASK) OR RSTMGR_STAT_MPUWD0RST_MASK) OR RSTMGR_STAT_SWWARMRST_MASK) OR RSTMGR_STAT_FPGAWARMRST_MASK) OR RSTMGR_STAT_NRSTPINRST_MASK"

definition RSTMGR_CTRL_SDRSELFREFEN_MASK :: u32 where [reg_defs]:
  "RSTMGR_CTRL_SDRSELFREFEN_MASK = 0x00000010"

definition RSTMGR_CTRL_FPGAHSEN_MASK :: u32 where [reg_defs]:
  "RSTMGR_CTRL_FPGAHSEN_MASK = 0x00010000"

definition RSTMGR_CTRL_ETRSTALLEN_MASK :: u32 where [reg_defs]:
  "RSTMGR_CTRL_ETRSTALLEN_MASK = 0x00100000"

definition RSTMGR_PERMODRST_EMAC0_SET :: "u32 \<Rightarrow> u32" where [reg_defs]:
  "RSTMGR_PERMODRST_EMAC0_SET x = (shl x 0) AND 0x00000001"

definition RSTMGR_PERMODRST_EMAC1_SET :: "u32 \<Rightarrow> u32" where [reg_defs]:
  "RSTMGR_PERMODRST_EMAC1_SET x = (shl x 1) AND 0x00000002"

definition RSTMGR_PERMODRST_USB0_SET :: "u32 \<Rightarrow> u32" where [reg_defs]:
  "RSTMGR_PERMODRST_USB0_SET x = (shl x 2) AND 0x00000004"

definition RSTMGR_PERMODRST_USB1_SET :: "u32 \<Rightarrow> u32" where [reg_defs]:
  "RSTMGR_PERMODRST_USB1_SET x = (shl x 3) AND 0x00000008"

definition RSTMGR_PERMODRST_NAND_SET :: "u32 \<Rightarrow> u32" where [reg_defs]:
  "RSTMGR_PERMODRST_NAND_SET x = (shl x 4) AND 0x00000010"

definition RSTMGR_PERMODRST_QSPI_SET :: "u32 \<Rightarrow> u32" where [reg_defs]:
  "RSTMGR_PERMODRST_QSPI_SET x = (shl x 5) AND 0x00000020"

definition RSTMGR_PERMODRST_L4WD1_SET :: "u32 \<Rightarrow> u32" where [reg_defs]:
  "RSTMGR_PERMODRST_L4WD1_SET x = (shl x 7) AND 0x00000080"

definition RSTMGR_PERMODRST_OSC1TIMER1_SET :: "u32 \<Rightarrow> u32" where [reg_defs]:
  "RSTMGR_PERMODRST_OSC1TIMER1_SET x = (shl x 9) AND 0x00000200"

definition RSTMGR_PERMODRST_SPTIMER0_SET :: "u32 \<Rightarrow> u32" where [reg_defs]:
  "RSTMGR_PERMODRST_SPTIMER0_SET x = (shl x 10) AND 0x00000400"

definition RSTMGR_PERMODRST_SPTIMER1_SET :: "u32 \<Rightarrow> u32" where [reg_defs]:
  "RSTMGR_PERMODRST_SPTIMER1_SET x = (shl x 11) AND 0x00000800"

definition RSTMGR_PERMODRST_I2C0_SET :: "u32 \<Rightarrow> u32" where [reg_defs]:
  "RSTMGR_PERMODRST_I2C0_SET x = (shl x 12) AND 0x00001000"

definition RSTMGR_PERMODRST_I2C1_SET :: "u32 \<Rightarrow> u32" where [reg_defs]:
  "RSTMGR_PERMODRST_I2C1_SET x = (shl x 13) AND 0x00002000"

definition RSTMGR_PERMODRST_I2C2_SET :: "u32 \<Rightarrow> u32" where [reg_defs]:
  "RSTMGR_PERMODRST_I2C2_SET x = (shl x 14) AND 0x00004000"

definition RSTMGR_PERMODRST_I2C3_SET :: "u32 \<Rightarrow> u32" where [reg_defs]:
  "RSTMGR_PERMODRST_I2C3_SET x = (shl x 15) AND 0x00008000"

definition RSTMGR_PERMODRST_UART0_SET :: "u32 \<Rightarrow> u32" where [reg_defs]:
  "RSTMGR_PERMODRST_UART0_SET x = (shl x 16) AND 0x00010000"

definition RSTMGR_PERMODRST_UART1_SET :: "u32 \<Rightarrow> u32" where [reg_defs]:
  "RSTMGR_PERMODRST_UART1_SET x = (shl x 17) AND 0x00020000"

definition RSTMGR_PERMODRST_SPIM0_SET :: "u32 \<Rightarrow> u32" where [reg_defs]:
  "RSTMGR_PERMODRST_SPIM0_SET x = (shl x 18) AND 0x00040000"

definition RSTMGR_PERMODRST_SPIM1_SET :: "u32 \<Rightarrow> u32" where [reg_defs]:
  "RSTMGR_PERMODRST_SPIM1_SET x = (shl x 19) AND 0x00080000"

definition RSTMGR_PERMODRST_SPIS0_SET :: "u32 \<Rightarrow> u32" where [reg_defs]:
  "RSTMGR_PERMODRST_SPIS0_SET x = (shl x 20) AND 0x00100000"

definition RSTMGR_PERMODRST_SPIS1_SET :: "u32 \<Rightarrow> u32" where [reg_defs]:
  "RSTMGR_PERMODRST_SPIS1_SET x = (shl x 21) AND 0x00200000"

definition RSTMGR_PERMODRST_SDMMC_SET :: "u32 \<Rightarrow> u32" where [reg_defs]:
  "RSTMGR_PERMODRST_SDMMC_SET x = (shl x 22) AND 0x00400000"

definition RSTMGR_PERMODRST_CAN0_SET :: "u32 \<Rightarrow> u32" where [reg_defs]:
  "RSTMGR_PERMODRST_CAN0_SET x = (shl x 23) AND 0x00800000"

definition RSTMGR_PERMODRST_CAN1_SET :: "u32 \<Rightarrow> u32" where [reg_defs]:
  "RSTMGR_PERMODRST_CAN1_SET x = (shl x 24) AND 0x01000000"

definition RSTMGR_PERMODRST_GPIO0_SET :: "u32 \<Rightarrow> u32" where [reg_defs]:
  "RSTMGR_PERMODRST_GPIO0_SET x = (shl x 25) AND 0x02000000"

definition RSTMGR_PERMODRST_GPIO1_SET :: "u32 \<Rightarrow> u32" where [reg_defs]:
  "RSTMGR_PERMODRST_GPIO1_SET x = (shl x 26) AND 0x04000000"

definition RSTMGR_PERMODRST_GPIO2_SET :: "u32 \<Rightarrow> u32" where [reg_defs]:
  "RSTMGR_PERMODRST_GPIO2_SET x = (shl x 27) AND 0x08000000"

definition RSTMGR_PERMODRST_DMA_SET :: "u32 \<Rightarrow> u32" where [reg_defs]:
  "RSTMGR_PERMODRST_DMA_SET x = (shl x 28) AND 0x10000000"

definition RSTMGR_PERMODRST_SDR_SET :: "u32 \<Rightarrow> u32" where [reg_defs]:
  "RSTMGR_PERMODRST_SDR_SET x = (shl x 29) AND 0x20000000"

definition RSTMGR_PER2MODRST_DMAIF0_SET :: "u32 \<Rightarrow> u32" where [reg_defs]:
  "RSTMGR_PER2MODRST_DMAIF0_SET x = (shl x 0) AND 0x00000001"

definition RSTMGR_PER2MODRST_DMAIF1_SET :: "u32 \<Rightarrow> u32" where [reg_defs]:
  "RSTMGR_PER2MODRST_DMAIF1_SET x = (shl x 1) AND 0x00000002"

definition RSTMGR_PER2MODRST_DMAIF2_SET :: "u32 \<Rightarrow> u32" where [reg_defs]:
  "RSTMGR_PER2MODRST_DMAIF2_SET x = (shl x 2) AND 0x00000004"

definition RSTMGR_PER2MODRST_DMAIF3_SET :: "u32 \<Rightarrow> u32" where [reg_defs]:
  "RSTMGR_PER2MODRST_DMAIF3_SET x = (shl x 3) AND 0x00000008"

definition RSTMGR_PER2MODRST_DMAIF4_SET :: "u32 \<Rightarrow> u32" where [reg_defs]:
  "RSTMGR_PER2MODRST_DMAIF4_SET x = (shl x 4) AND 0x00000010"

definition RSTMGR_PER2MODRST_DMAIF5_SET :: "u32 \<Rightarrow> u32" where [reg_defs]:
  "RSTMGR_PER2MODRST_DMAIF5_SET x = (shl x 5) AND 0x00000020"

definition RSTMGR_PER2MODRST_DMAIF6_SET :: "u32 \<Rightarrow> u32" where [reg_defs]:
  "RSTMGR_PER2MODRST_DMAIF6_SET x = (shl x 6) AND 0x00000040"

definition RSTMGR_PER2MODRST_DMAIF7_SET :: "u32 \<Rightarrow> u32" where [reg_defs]:
  "RSTMGR_PER2MODRST_DMAIF7_SET x = (shl x 7) AND 0x00000080"

section \<open>arch/arm/include/asm/arch-socfpga/system_manager.h\<close>

definition CONFIG_SYSMGR_ROMCODEGRP_CTRL :: u32 where [reg_defs]:
  "CONFIG_SYSMGR_ROMCODEGRP_CTRL = SOCFPGA_SYSMGR_ADDRESS + 0xc0"

definition CONFIG_SYSMGR_ECCGRP :: u32 where [reg_defs]:
  "CONFIG_SYSMGR_ECCGRP = SOCFPGA_SYSMGR_ADDRESS + 0x140"

definition CONFIG_SYSMGR_ECC_OCRAM :: u32 where [reg_defs]:
  "CONFIG_SYSMGR_ECC_OCRAM = CONFIG_SYSMGR_ECCGRP + 0x4"

definition SYSMGR_FPGAINTF_MODULE :: u32 where [reg_defs]:
  "SYSMGR_FPGAINTF_MODULE = SOCFPGA_SYSMGR_ADDRESS + 0x28"

definition SYSMGR_ISWGRP_HANDOFF0 :: u32 where [reg_defs]:
  "SYSMGR_ISWGRP_HANDOFF0 = SOCFPGA_SYSMGR_ADDRESS + 0x80"

definition SYSMGR_ISWGRP_HANDOFF1 :: u32 where [reg_defs]:
  "SYSMGR_ISWGRP_HANDOFF1 = SOCFPGA_SYSMGR_ADDRESS + 0x84"

definition SYSMGR_ISWGRP_HANDOFF2 :: u32 where [reg_defs]:
  "SYSMGR_ISWGRP_HANDOFF2 = SOCFPGA_SYSMGR_ADDRESS + 0x88"

definition SYSMGR_ISWGRP_HANDOFF3 :: u32 where [reg_defs]:
  "SYSMGR_ISWGRP_HANDOFF3 = SOCFPGA_SYSMGR_ADDRESS + 0x8c"

definition ISWGRP_HANDOFF_AXIBRIDGE :: u32 where [reg_defs]:
  "ISWGRP_HANDOFF_AXIBRIDGE = SYSMGR_ISWGRP_HANDOFF0"

definition ISWGRP_HANDOFF_L3REMAP :: u32 where [reg_defs]:
  "ISWGRP_HANDOFF_L3REMAP = SYSMGR_ISWGRP_HANDOFF1"

definition ISWGRP_HANDOFF_FPGAINTF :: u32 where [reg_defs]:
  "ISWGRP_HANDOFF_FPGAINTF = SYSMGR_ISWGRP_HANDOFF2"

definition ISWGRP_HANDOFF_FPGA2SDR :: u32 where [reg_defs]:
  "ISWGRP_HANDOFF_FPGA2SDR = SYSMGR_ISWGRP_HANDOFF3"

definition SYSMGR_PINMUXGRP :: u32 where [reg_defs]:
  "SYSMGR_PINMUXGRP = SOCFPGA_SYSMGR_ADDRESS + 0x400"

definition SYSMGR_PINMUXGRP_NANDUSEFPGA :: u32 where [reg_defs]:
  "SYSMGR_PINMUXGRP_NANDUSEFPGA = SYSMGR_PINMUXGRP + 0x2f0"

definition SYSMGR_PINMUXGRP_EMAC1USEFPGA :: u32 where [reg_defs]:
  "SYSMGR_PINMUXGRP_EMAC1USEFPGA = SYSMGR_PINMUXGRP + 0x2f8"

definition SYSMGR_PINMUXGRP_SDMMCUSEFPGA :: u32 where [reg_defs]:
  "SYSMGR_PINMUXGRP_SDMMCUSEFPGA = SYSMGR_PINMUXGRP + 0x308"

definition SYSMGR_PINMUXGRP_EMAC0USEFPGA :: u32 where [reg_defs]:
  "SYSMGR_PINMUXGRP_EMAC0USEFPGA = SYSMGR_PINMUXGRP + 0x314"

definition SYSMGR_PINMUXGRP_SPIM1USEFPGA :: u32 where [reg_defs]:
  "SYSMGR_PINMUXGRP_SPIM1USEFPGA = SYSMGR_PINMUXGRP + 0x330"

definition SYSMGR_PINMUXGRP_SPIM0USEFPGA :: u32 where [reg_defs]:
  "SYSMGR_PINMUXGRP_SPIM0USEFPGA = SYSMGR_PINMUXGRP + 0x338"

definition CONFIG_SYSMGR_PINMUXGRP_OFFSET :: u32 where [reg_defs]:
  "CONFIG_SYSMGR_PINMUXGRP_OFFSET = 0x400"

definition SYSMGR_ROMCODEGRP_CTRL_WARMRSTCFGPINMUX :: u32 where [reg_defs]:
  "SYSMGR_ROMCODEGRP_CTRL_WARMRSTCFGPINMUX = shl 1 0"

definition SYSMGR_ROMCODEGRP_CTRL_WARMRSTCFGIO :: u32 where [reg_defs]:
  "SYSMGR_ROMCODEGRP_CTRL_WARMRSTCFGIO = shl 1 1"

definition SYSMGR_ECC_OCRAM_EN :: u32 where [reg_defs]:
  "SYSMGR_ECC_OCRAM_EN = shl 1 0"

definition SYSMGR_ECC_OCRAM_SERR :: u32 where [reg_defs]:
  "SYSMGR_ECC_OCRAM_SERR = shl 1 3"

definition SYSMGR_ECC_OCRAM_DERR :: u32 where [reg_defs]:
  "SYSMGR_ECC_OCRAM_DERR = shl 1 4"

definition SYSMGR_FPGAINTF_USEFPGA :: u32 where [reg_defs]:
  "SYSMGR_FPGAINTF_USEFPGA = 0x1"

definition SYSMGR_FPGAINTF_SPIM0 :: u32 where [reg_defs]:
  "SYSMGR_FPGAINTF_SPIM0 = shl 1 0"

definition SYSMGR_FPGAINTF_SPIM1 :: u32 where [reg_defs]:
  "SYSMGR_FPGAINTF_SPIM1 = shl 1 1"

definition SYSMGR_FPGAINTF_EMAC0 :: u32 where [reg_defs]:
  "SYSMGR_FPGAINTF_EMAC0 = shl 1 2"

definition SYSMGR_FPGAINTF_EMAC1 :: u32 where [reg_defs]:
  "SYSMGR_FPGAINTF_EMAC1 = shl 1 3"

definition SYSMGR_FPGAINTF_NAND :: u32 where [reg_defs]:
  "SYSMGR_FPGAINTF_NAND = shl 1 4"

definition SYSMGR_FPGAINTF_SDMMC :: u32 where [reg_defs]:
  "SYSMGR_FPGAINTF_SDMMC = shl 1 5"

section \<open>arch/arm/include/asm/arch-socfpga/nic301.h\<close>

definition L3REGS_SECGRP_LWHPS2FPGAREGS_ADDRESS :: u32 where [reg_defs]:
  "L3REGS_SECGRP_LWHPS2FPGAREGS_ADDRESS = 0x20"

definition L3REGS_SECGRP_HPS2FPGAREGS_ADDRESS :: u32 where [reg_defs]:
  "L3REGS_SECGRP_HPS2FPGAREGS_ADDRESS = 0x90"

definition L3REGS_SECGRP_ACP_ADDRESS :: u32 where [reg_defs]:
  "L3REGS_SECGRP_ACP_ADDRESS = 0x94"

definition L3REGS_SECGRP_ROM_ADDRESS :: u32 where [reg_defs]:
  "L3REGS_SECGRP_ROM_ADDRESS = 0x98"

definition L3REGS_SECGRP_OCRAM_ADDRESS :: u32 where [reg_defs]:
  "L3REGS_SECGRP_OCRAM_ADDRESS = 0x9c"

definition L3REGS_SECGRP_SDRDATA_ADDRESS :: u32 where [reg_defs]:
  "L3REGS_SECGRP_SDRDATA_ADDRESS = 0xa0"

definition L3REGS_REMAP_LWHPS2FPGA_MASK :: u32 where [reg_defs]:
  "L3REGS_REMAP_LWHPS2FPGA_MASK = 0x00000010"

definition L3REGS_REMAP_HPS2FPGA_MASK :: u32 where [reg_defs]:
  "L3REGS_REMAP_HPS2FPGA_MASK = 0x00000008"

definition L3REGS_REMAP_OCRAM_MASK :: u32 where [reg_defs]:
  "L3REGS_REMAP_OCRAM_MASK = 0x00000001"

section \<open>arch/arm/include/asm/arch-socfpga/fpga_manager.h\<close>

definition fpgamgr_stat :: u32 where [reg_defs]:
  "fpgamgr_stat = SOCFPGA_FPGAMGRREGS_ADDRESS + 0x0"

definition fpgamgr_ctrl :: u32 where [reg_defs]:
  "fpgamgr_ctrl = SOCFPGA_FPGAMGRREGS_ADDRESS + 0x4"

definition fpgamgr_dclkcnt :: u32 where [reg_defs]:
  "fpgamgr_dclkcnt = SOCFPGA_FPGAMGRREGS_ADDRESS + 0x8"

definition fpgamgr_dclkstat :: u32 where [reg_defs]:
  "fpgamgr_dclkstat = SOCFPGA_FPGAMGRREGS_ADDRESS + 0xc"

definition FPGAMGRREGS_MON_GPIO_PORTA_EOI_ADDRESS :: u32 where [reg_defs]:
  "FPGAMGRREGS_MON_GPIO_PORTA_EOI_ADDRESS = 0x84c"

definition FPGAMGRREGS_MON_GPIO_EXT_PORTA_ADDRESS :: u32 where [reg_defs]:
  "FPGAMGRREGS_MON_GPIO_EXT_PORTA_ADDRESS = 0x850"

definition FPGAMGRREGS_CTRL_CFGWDTH_MASK :: u32 where [reg_defs]:
  "FPGAMGRREGS_CTRL_CFGWDTH_MASK = 0x200"

definition FPGAMGRREGS_CTRL_AXICFGEN_MASK :: u32 where [reg_defs]:
  "FPGAMGRREGS_CTRL_AXICFGEN_MASK = 0x100"

definition FPGAMGRREGS_CTRL_NCONFIGPULL_MASK :: u32 where [reg_defs]:
  "FPGAMGRREGS_CTRL_NCONFIGPULL_MASK = 0x4"

definition FPGAMGRREGS_CTRL_NCE_MASK :: u32 where [reg_defs]:
  "FPGAMGRREGS_CTRL_NCE_MASK = 0x2"

definition FPGAMGRREGS_CTRL_EN_MASK :: u32 where [reg_defs]:
  "FPGAMGRREGS_CTRL_EN_MASK = 0x1"

definition FPGAMGRREGS_CTRL_CDRATIO_LSB :: u32 where [reg_defs]:
  "FPGAMGRREGS_CTRL_CDRATIO_LSB = 6"

definition FPGAMGRREGS_STAT_MODE_MASK :: u32 where [reg_defs]:
  "FPGAMGRREGS_STAT_MODE_MASK = 0x7"

definition FPGAMGRREGS_STAT_MSEL_MASK :: u32 where [reg_defs]:
  "FPGAMGRREGS_STAT_MSEL_MASK = 0xf8"

definition FPGAMGRREGS_STAT_MSEL_LSB :: u32 where [reg_defs]:
  "FPGAMGRREGS_STAT_MSEL_LSB = 3"

definition FPGAMGRREGS_MON_GPIO_EXT_PORTA_ID_MASK :: u32 where [reg_defs]:
  "FPGAMGRREGS_MON_GPIO_EXT_PORTA_ID_MASK = 0x4"

definition FPGAMGRREGS_MON_GPIO_EXT_PORTA_CD_MASK :: u32 where [reg_defs]:
  "FPGAMGRREGS_MON_GPIO_EXT_PORTA_CD_MASK = 0x2"

definition FPGAMGRREGS_MON_GPIO_EXT_PORTA_NS_MASK :: u32 where [reg_defs]:
  "FPGAMGRREGS_MON_GPIO_EXT_PORTA_NS_MASK = 0x1"

definition FPGA_TIMEOUT_CNT :: u32 where [reg_defs]:
  "FPGA_TIMEOUT_CNT = 0x1000000"

definition FPGAMGRREGS_MODE_RESETPHASE :: u32 where [reg_defs]:
  "FPGAMGRREGS_MODE_RESETPHASE = 0x1"

definition FPGAMGRREGS_MODE_CFGPHASE :: u32 where [reg_defs]:
  "FPGAMGRREGS_MODE_CFGPHASE = 0x2"

definition FPGAMGRREGS_MODE_INITPHASE :: u32 where [reg_defs]:
  "FPGAMGRREGS_MODE_INITPHASE = 0x3"

definition FPGAMGRREGS_MODE_USERMODE :: u32 where [reg_defs]:
  "FPGAMGRREGS_MODE_USERMODE = 0x4"

definition CDRATIO_x1 :: u32 where [reg_defs]:
  "CDRATIO_x1 = 0x0"

definition CDRATIO_x2 :: u32 where [reg_defs]:
  "CDRATIO_x2 = 0x1"

definition CDRATIO_x4 :: u32 where [reg_defs]:
  "CDRATIO_x4 = 0x2"

definition CDRATIO_x8 :: u32 where [reg_defs]:
  "CDRATIO_x8 = 0x3"

section \<open>arch/arm/include/asm/arch-socfpga/freeze_controller.h\<close>

definition SYSMGR_FRZCTRL_VIOCTRL_ADDRESS :: u32 where [reg_defs]:
  "SYSMGR_FRZCTRL_VIOCTRL_ADDRESS = 0x40"

definition SYSMGR_FRZCTRL_HIOCTRL_ADDRESS :: u32 where [reg_defs]:
  "SYSMGR_FRZCTRL_HIOCTRL_ADDRESS = 0x50"

definition SYSMGR_FRZCTRL_SRC_ADDRESS :: u32 where [reg_defs]:
  "SYSMGR_FRZCTRL_SRC_ADDRESS = 0x54"

definition SYSMGR_FRZCTRL_HWCTRL_ADDRESS :: u32 where [reg_defs]:
  "SYSMGR_FRZCTRL_HWCTRL_ADDRESS = 0x58"

definition SYSMGR_FRZCTRL_SRC_VIO1_ENUM_SW :: u32 where [reg_defs]:
  "SYSMGR_FRZCTRL_SRC_VIO1_ENUM_SW = 0x0"

definition SYSMGR_FRZCTRL_SRC_VIO1_ENUM_HW :: u32 where [reg_defs]:
  "SYSMGR_FRZCTRL_SRC_VIO1_ENUM_HW = 0x1"

definition SYSMGR_FRZCTRL_VIOCTRL_SLEW_MASK :: u32 where [reg_defs]:
  "SYSMGR_FRZCTRL_VIOCTRL_SLEW_MASK = 0x00000010"

definition SYSMGR_FRZCTRL_VIOCTRL_WKPULLUP_MASK :: u32 where [reg_defs]:
  "SYSMGR_FRZCTRL_VIOCTRL_WKPULLUP_MASK = 0x00000008"

definition SYSMGR_FRZCTRL_VIOCTRL_TRISTATE_MASK :: u32 where [reg_defs]:
  "SYSMGR_FRZCTRL_VIOCTRL_TRISTATE_MASK = 0x00000004"

definition SYSMGR_FRZCTRL_VIOCTRL_BUSHOLD_MASK :: u32 where [reg_defs]:
  "SYSMGR_FRZCTRL_VIOCTRL_BUSHOLD_MASK = 0x00000002"

definition SYSMGR_FRZCTRL_VIOCTRL_CFG_MASK :: u32 where [reg_defs]:
  "SYSMGR_FRZCTRL_VIOCTRL_CFG_MASK = 0x00000001"

definition SYSMGR_FRZCTRL_HIOCTRL_SLEW_MASK :: u32 where [reg_defs]:
  "SYSMGR_FRZCTRL_HIOCTRL_SLEW_MASK = 0x00000010"

definition SYSMGR_FRZCTRL_HIOCTRL_WKPULLUP_MASK :: u32 where [reg_defs]:
  "SYSMGR_FRZCTRL_HIOCTRL_WKPULLUP_MASK = 0x00000008"

definition SYSMGR_FRZCTRL_HIOCTRL_TRISTATE_MASK :: u32 where [reg_defs]:
  "SYSMGR_FRZCTRL_HIOCTRL_TRISTATE_MASK = 0x00000004"

definition SYSMGR_FRZCTRL_HIOCTRL_BUSHOLD_MASK :: u32 where [reg_defs]:
  "SYSMGR_FRZCTRL_HIOCTRL_BUSHOLD_MASK = 0x00000002"

definition SYSMGR_FRZCTRL_HIOCTRL_CFG_MASK :: u32 where [reg_defs]:
  "SYSMGR_FRZCTRL_HIOCTRL_CFG_MASK = 0x00000001"

definition SYSMGR_FRZCTRL_HIOCTRL_REGRST_MASK :: u32 where [reg_defs]:
  "SYSMGR_FRZCTRL_HIOCTRL_REGRST_MASK = 0x00000080"

definition SYSMGR_FRZCTRL_HIOCTRL_OCTRST_MASK :: u32 where [reg_defs]:
  "SYSMGR_FRZCTRL_HIOCTRL_OCTRST_MASK = 0x00000040"

definition SYSMGR_FRZCTRL_HIOCTRL_OCT_CFGEN_CALSTART_MASK :: u32 where [reg_defs]:
  "SYSMGR_FRZCTRL_HIOCTRL_OCT_CFGEN_CALSTART_MASK = 0x00000100"

definition SYSMGR_FRZCTRL_HIOCTRL_DLLRST_MASK :: u32 where [reg_defs]:
  "SYSMGR_FRZCTRL_HIOCTRL_DLLRST_MASK = 0x00000020"

definition SYSMGR_FRZCTRL_HWCTRL_VIO1REQ_MASK :: u32 where [reg_defs]:
  "SYSMGR_FRZCTRL_HWCTRL_VIO1REQ_MASK = 0x00000001"

definition SYSMGR_FRZCTRL_HWCTRL_VIO1STATE_ENUM_FROZEN :: u32 where [reg_defs]:
  "SYSMGR_FRZCTRL_HWCTRL_VIO1STATE_ENUM_FROZEN = 0x2"

definition SYSMGR_FRZCTRL_HWCTRL_VIO1STATE_ENUM_THAWED :: u32 where [reg_defs]:
  "SYSMGR_FRZCTRL_HWCTRL_VIO1STATE_ENUM_THAWED = 0x1"

definition SYSMGR_FRZCTRL_HWCTRL_VIO1STATE_GET :: "u32 \<Rightarrow> u32" where [reg_defs]:
  "SYSMGR_FRZCTRL_HWCTRL_VIO1STATE_GET x = shr (x AND 0x00000006) 1"

definition SYSMGR_FRZCTRL_VIOCTRL_SHIFT :: u32 where [reg_defs]:
  "SYSMGR_FRZCTRL_VIOCTRL_SHIFT = 2"

section \<open>arch/arm/include/asm/arch-socfpga/scan_manager.h\<close>

definition SHIFT_COUNT_32BIT :: u32 where [reg_defs]:
  "SHIFT_COUNT_32BIT = 5"

definition MASK_COUNT_32BIT :: u32 where [reg_defs]:
  "MASK_COUNT_32BIT = 0x1f"

definition SCANMGR_STAT_ADDRESS :: u32 where [reg_defs]:
  "SCANMGR_STAT_ADDRESS = 0x0"

definition SCANMGR_EN_ADDRESS :: u32 where [reg_defs]:
  "SCANMGR_EN_ADDRESS = 0x4"

definition SCANMGR_FIFOSINGLEBYTE_ADDRESS :: u32 where [reg_defs]:
  "SCANMGR_FIFOSINGLEBYTE_ADDRESS = 0x10"

definition SCANMGR_FIFODOUBLEBYTE_ADDRESS :: u32 where [reg_defs]:
  "SCANMGR_FIFODOUBLEBYTE_ADDRESS = 0x14"

definition SCANMGR_FIFOQUADBYTE_ADDRESS :: u32 where [reg_defs]:
  "SCANMGR_FIFOQUADBYTE_ADDRESS = 0x1c"

definition SCANMGR_STAT_ACTIVE_GET :: "u32 \<Rightarrow> u32" where [reg_defs]:
  "SCANMGR_STAT_ACTIVE_GET x = shr (x AND 0x80000000) 31"

definition SCANMGR_STAT_WFIFOCNT_GET :: "u32 \<Rightarrow> u32" where [reg_defs]:
  "SCANMGR_STAT_WFIFOCNT_GET x = shr (x AND 0x70000000) 28"

definition IO_SCAN_CHAIN_128BIT_SHIFT :: u32 where [reg_defs]:
  "IO_SCAN_CHAIN_128BIT_SHIFT = 7"

definition IO_SCAN_CHAIN_128BIT_MASK :: u32 where [reg_defs]:
  "IO_SCAN_CHAIN_128BIT_MASK = 0x7f"

definition IO_SCAN_CHAIN_32BIT_SHIFT :: u32 where [reg_defs]:
  "IO_SCAN_CHAIN_32BIT_SHIFT = SHIFT_COUNT_32BIT"

definition IO_SCAN_CHAIN_32BIT_MASK :: u32 where [reg_defs]:
  "IO_SCAN_CHAIN_32BIT_MASK = MASK_COUNT_32BIT"

definition IO_SCAN_CHAIN_BYTE_MASK :: u32 where [reg_defs]:
  "IO_SCAN_CHAIN_BYTE_MASK = 0xff"

definition IO_SCAN_CHAIN_PAYLOAD_24BIT :: u32 where [reg_defs]:
  "IO_SCAN_CHAIN_PAYLOAD_24BIT = 24"

definition TDI_TDO_MAX_PAYLOAD :: u32 where [reg_defs]:
  "TDI_TDO_MAX_PAYLOAD = 127"

definition TDI_TDO_HEADER_FIRST_BYTE :: u32 where [reg_defs]:
  "TDI_TDO_HEADER_FIRST_BYTE = 0x80"

definition TDI_TDO_HEADER_SECOND_BYTE_SHIFT :: u32 where [reg_defs]:
  "TDI_TDO_HEADER_SECOND_BYTE_SHIFT = 8"

definition SCAN_MGR_IO_SCAN_ENGINE_STATUS_IDLE :: u32 where [reg_defs]:
  "SCAN_MGR_IO_SCAN_ENGINE_STATUS_IDLE = 0"

definition SCAN_MGR_IO_SCAN_ENGINE_STATUS_ACTIVE :: u32 where [reg_defs]:
  "SCAN_MGR_IO_SCAN_ENGINE_STATUS_ACTIVE = 1"

definition MAX_WAITING_DELAY_IO_SCAN_ENGINE :: u32 where [reg_defs]:
  "MAX_WAITING_DELAY_IO_SCAN_ENGINE = 100"

section \<open>arch/arm/include/asm/arch-socfpga/clock_manager.h\<close>

definition CLKMGR_CTRL_ADDRESS :: u32 where [reg_defs]:
  "CLKMGR_CTRL_ADDRESS = 0x0"

definition CLKMGR_BYPASS_ADDRESS :: u32 where [reg_defs]:
  "CLKMGR_BYPASS_ADDRESS = 0x4"

definition CLKMGR_INTER_ADDRESS :: u32 where [reg_defs]:
  "CLKMGR_INTER_ADDRESS = 0x8"

definition CLKMGR_STAT_ADDRESS :: u32 where [reg_defs]:
  "CLKMGR_STAT_ADDRESS = 0x14"

definition CLKMGR_MAINPLLGRP_VCO_ADDRESS :: u32 where [reg_defs]:
  "CLKMGR_MAINPLLGRP_VCO_ADDRESS = 0x40"

definition CLKMGR_MAINPLLGRP_MPUCLK_ADDRESS :: u32 where [reg_defs]:
  "CLKMGR_MAINPLLGRP_MPUCLK_ADDRESS = 0x48"

definition CLKMGR_MAINPLLGRP_MAINCLK_ADDRESS :: u32 where [reg_defs]:
  "CLKMGR_MAINPLLGRP_MAINCLK_ADDRESS = 0x4c"

definition CLKMGR_MAINPLLGRP_DBGATCLK_ADDRESS :: u32 where [reg_defs]:
  "CLKMGR_MAINPLLGRP_DBGATCLK_ADDRESS = 0x50"

definition CLKMGR_MAINPLLGRP_MAINQSPICLK_ADDRESS :: u32 where [reg_defs]:
  "CLKMGR_MAINPLLGRP_MAINQSPICLK_ADDRESS = 0x54"

definition CLKMGR_MAINPLLGRP_MAINNANDSDMMCCLK_ADDRESS :: u32 where [reg_defs]:
  "CLKMGR_MAINPLLGRP_MAINNANDSDMMCCLK_ADDRESS = 0x58"

definition CLKMGR_MAINPLLGRP_CFGS2FUSER0CLK_ADDRESS :: u32 where [reg_defs]:
  "CLKMGR_MAINPLLGRP_CFGS2FUSER0CLK_ADDRESS = 0x5c"

definition CLKMGR_MAINPLLGRP_EN_ADDRESS :: u32 where [reg_defs]:
  "CLKMGR_MAINPLLGRP_EN_ADDRESS = 0x60"

definition CLKMGR_MAINPLLGRP_MAINDIV_ADDRESS :: u32 where [reg_defs]:
  "CLKMGR_MAINPLLGRP_MAINDIV_ADDRESS = 0x64"

definition CLKMGR_MAINPLLGRP_DBGDIV_ADDRESS :: u32 where [reg_defs]:
  "CLKMGR_MAINPLLGRP_DBGDIV_ADDRESS = 0x68"

definition CLKMGR_MAINPLLGRP_TRACEDIV_ADDRESS :: u32 where [reg_defs]:
  "CLKMGR_MAINPLLGRP_TRACEDIV_ADDRESS = 0x6c"

definition CLKMGR_MAINPLLGRP_L4SRC_ADDRESS :: u32 where [reg_defs]:
  "CLKMGR_MAINPLLGRP_L4SRC_ADDRESS = 0x70"

definition CLKMGR_PERPLLGRP_VCO_ADDRESS :: u32 where [reg_defs]:
  "CLKMGR_PERPLLGRP_VCO_ADDRESS = 0x80"

definition CLKMGR_PERPLLGRP_EMAC0CLK_ADDRESS :: u32 where [reg_defs]:
  "CLKMGR_PERPLLGRP_EMAC0CLK_ADDRESS = 0x88"

definition CLKMGR_PERPLLGRP_EMAC1CLK_ADDRESS :: u32 where [reg_defs]:
  "CLKMGR_PERPLLGRP_EMAC1CLK_ADDRESS = 0x8c"

definition CLKMGR_PERPLLGRP_PERQSPICLK_ADDRESS :: u32 where [reg_defs]:
  "CLKMGR_PERPLLGRP_PERQSPICLK_ADDRESS = 0x90"

definition CLKMGR_PERPLLGRP_PERNANDSDMMCCLK_ADDRESS :: u32 where [reg_defs]:
  "CLKMGR_PERPLLGRP_PERNANDSDMMCCLK_ADDRESS = 0x94"

definition CLKMGR_PERPLLGRP_PERBASECLK_ADDRESS :: u32 where [reg_defs]:
  "CLKMGR_PERPLLGRP_PERBASECLK_ADDRESS = 0x98"

definition CLKMGR_PERPLLGRP_S2FUSER1CLK_ADDRESS :: u32 where [reg_defs]:
  "CLKMGR_PERPLLGRP_S2FUSER1CLK_ADDRESS = 0x9c"

definition CLKMGR_PERPLLGRP_EN_ADDRESS :: u32 where [reg_defs]:
  "CLKMGR_PERPLLGRP_EN_ADDRESS = 0xa0"

definition CLKMGR_PERPLLGRP_DIV_ADDRESS :: u32 where [reg_defs]:
  "CLKMGR_PERPLLGRP_DIV_ADDRESS = 0xa4"

definition CLKMGR_PERPLLGRP_GPIODIV_ADDRESS :: u32 where [reg_defs]:
  "CLKMGR_PERPLLGRP_GPIODIV_ADDRESS = 0xa8"

definition CLKMGR_PERPLLGRP_SRC_ADDRESS :: u32 where [reg_defs]:
  "CLKMGR_PERPLLGRP_SRC_ADDRESS = 0xac"

definition CLKMGR_SDRPLLGRP_VCO_ADDRESS :: u32 where [reg_defs]:
  "CLKMGR_SDRPLLGRP_VCO_ADDRESS = 0xc0"

definition CLKMGR_SDRPLLGRP_DDRDQSCLK_ADDRESS :: u32 where [reg_defs]:
  "CLKMGR_SDRPLLGRP_DDRDQSCLK_ADDRESS = 0xc8"

definition CLKMGR_SDRPLLGRP_DDR2XDQSCLK_ADDRESS :: u32 where [reg_defs]:
  "CLKMGR_SDRPLLGRP_DDR2XDQSCLK_ADDRESS = 0xcc"

definition CLKMGR_SDRPLLGRP_DDRDQCLK_ADDRESS :: u32 where [reg_defs]:
  "CLKMGR_SDRPLLGRP_DDRDQCLK_ADDRESS = 0xd0"

definition CLKMGR_SDRPLLGRP_S2FUSER2CLK_ADDRESS :: u32 where [reg_defs]:
  "CLKMGR_SDRPLLGRP_S2FUSER2CLK_ADDRESS = 0xd4"

definition CLKMGR_SDRPLLGRP_EN_ADDRESS :: u32 where [reg_defs]:
  "CLKMGR_SDRPLLGRP_EN_ADDRESS = 0xd8"

definition CLKMGR_MAINPLLGRP_EN_S2FUSER0CLK_MASK :: u32 where [reg_defs]:
  "CLKMGR_MAINPLLGRP_EN_S2FUSER0CLK_MASK = 0x00000200"

definition CLKMGR_MAINPLLGRP_EN_DBGTIMERCLK_MASK :: u32 where [reg_defs]:
  "CLKMGR_MAINPLLGRP_EN_DBGTIMERCLK_MASK = 0x00000080"

definition CLKMGR_MAINPLLGRP_EN_DBGTRACECLK_MASK :: u32 where [reg_defs]:
  "CLKMGR_MAINPLLGRP_EN_DBGTRACECLK_MASK = 0x00000040"

definition CLKMGR_MAINPLLGRP_EN_DBGCLK_MASK :: u32 where [reg_defs]:
  "CLKMGR_MAINPLLGRP_EN_DBGCLK_MASK = 0x00000020"

definition CLKMGR_MAINPLLGRP_EN_DBGATCLK_MASK :: u32 where [reg_defs]:
  "CLKMGR_MAINPLLGRP_EN_DBGATCLK_MASK = 0x00000010"

definition CLKMGR_MAINPLLGRP_EN_L4MPCLK_MASK :: u32 where [reg_defs]:
  "CLKMGR_MAINPLLGRP_EN_L4MPCLK_MASK = 0x00000004"

definition CLKMGR_MAINPLLGRP_VCO_RESET_VALUE :: u32 where [reg_defs]:
  "CLKMGR_MAINPLLGRP_VCO_RESET_VALUE = 0x8001000d"

definition CLKMGR_PERPLLGRP_VCO_RESET_VALUE :: u32 where [reg_defs]:
  "CLKMGR_PERPLLGRP_VCO_RESET_VALUE = 0x8001000d"

definition CLKMGR_SDRPLLGRP_VCO_RESET_VALUE :: u32 where [reg_defs]:
  "CLKMGR_SDRPLLGRP_VCO_RESET_VALUE = 0x8001000d"

definition CLKMGR_MAINPLLGRP_MAINDIV_L4MPCLK_SET :: "u32 \<Rightarrow> u32" where [reg_defs]:
  "CLKMGR_MAINPLLGRP_MAINDIV_L4MPCLK_SET x = (shl x 4) AND 0x00000070"

definition CLKMGR_MAINPLLGRP_MAINDIV_L4SPCLK_SET :: "u32 \<Rightarrow> u32" where [reg_defs]:
  "CLKMGR_MAINPLLGRP_MAINDIV_L4SPCLK_SET x = (shl x 7) AND 0x00000380"

definition CLKMGR_MAINPLLGRP_L4SRC_L4MP_SET :: "u32 \<Rightarrow> u32" where [reg_defs]:
  "CLKMGR_MAINPLLGRP_L4SRC_L4MP_SET x = (shl x 0) AND 0x00000001"

definition CLKMGR_MAINPLLGRP_L4SRC_L4SP_SET :: "u32 \<Rightarrow> u32" where [reg_defs]:
  "CLKMGR_MAINPLLGRP_L4SRC_L4SP_SET x = (shl x 1) AND 0x00000002"

definition CLKMGR_PERPLLGRP_SRC_QSPI_SET :: "u32 \<Rightarrow> u32" where [reg_defs]:
  "CLKMGR_PERPLLGRP_SRC_QSPI_SET x = (shl x 4) AND 0x00000030"

definition CLKMGR_PERPLLGRP_SRC_NAND_SET :: "u32 \<Rightarrow> u32" where [reg_defs]:
  "CLKMGR_PERPLLGRP_SRC_NAND_SET x = (shl x 2) AND 0x0000000c"

definition CLKMGR_PERPLLGRP_SRC_SDMMC_SET :: "u32 \<Rightarrow> u32" where [reg_defs]:
  "CLKMGR_PERPLLGRP_SRC_SDMMC_SET x = (shl x 0) AND 0x00000003"

definition CLKMGR_MAINPLLGRP_VCO_DENOM_SET :: "u32 \<Rightarrow> u32" where [reg_defs]:
  "CLKMGR_MAINPLLGRP_VCO_DENOM_SET x = (shl x 16) AND 0x003f0000"

definition CLKMGR_MAINPLLGRP_VCO_NUMER_SET :: "u32 \<Rightarrow> u32" where [reg_defs]:
  "CLKMGR_MAINPLLGRP_VCO_NUMER_SET x = (shl x 3) AND 0x0000fff8"

definition CLKMGR_MAINPLLGRP_VCO_PWRDN_SET :: "u32 \<Rightarrow> u32" where [reg_defs]:
  "CLKMGR_MAINPLLGRP_VCO_PWRDN_SET x = (shl x 2) AND 0x00000004"

definition CLKMGR_MAINPLLGRP_VCO_EN_SET :: "u32 \<Rightarrow> u32" where [reg_defs]:
  "CLKMGR_MAINPLLGRP_VCO_EN_SET x = (shl x 1) AND 0x00000002"

definition CLKMGR_MAINPLLGRP_VCO_BGPWRDN_SET :: "u32 \<Rightarrow> u32" where [reg_defs]:
  "CLKMGR_MAINPLLGRP_VCO_BGPWRDN_SET x = (shl x 0) AND 0x00000001"

definition CLKMGR_PERPLLGRP_VCO_PSRC_SET :: "u32 \<Rightarrow> u32" where [reg_defs]:
  "CLKMGR_PERPLLGRP_VCO_PSRC_SET x = (shl x 22) AND 0x00c00000"

definition CLKMGR_PERPLLGRP_VCO_DENOM_SET :: "u32 \<Rightarrow> u32" where [reg_defs]:
  "CLKMGR_PERPLLGRP_VCO_DENOM_SET x = (shl x 16) AND 0x003f0000"

definition CLKMGR_PERPLLGRP_VCO_NUMER_SET :: "u32 \<Rightarrow> u32" where [reg_defs]:
  "CLKMGR_PERPLLGRP_VCO_NUMER_SET x = (shl x 3) AND 0x0000fff8"

definition CLKMGR_SDRPLLGRP_VCO_OUTRESET_SET :: "u32 \<Rightarrow> u32" where [reg_defs]:
  "CLKMGR_SDRPLLGRP_VCO_OUTRESET_SET x = (shl x 25) AND 0x7e000000"

definition CLKMGR_SDRPLLGRP_VCO_SSRC_SET :: "u32 \<Rightarrow> u32" where [reg_defs]:
  "CLKMGR_SDRPLLGRP_VCO_SSRC_SET x = (shl x 22) AND 0x00c00000"

definition CLKMGR_SDRPLLGRP_VCO_DENOM_SET :: "u32 \<Rightarrow> u32" where [reg_defs]:
  "CLKMGR_SDRPLLGRP_VCO_DENOM_SET x = (shl x 16) AND 0x003f0000"

definition CLKMGR_SDRPLLGRP_VCO_NUMER_SET :: "u32 \<Rightarrow> u32" where [reg_defs]:
  "CLKMGR_SDRPLLGRP_VCO_NUMER_SET x = (shl x 3) AND 0x0000fff8"

definition CLKMGR_MAINPLLGRP_MPUCLK_CNT_SET :: "u32 \<Rightarrow> u32" where [reg_defs]:
  "CLKMGR_MAINPLLGRP_MPUCLK_CNT_SET x = (shl x 0) AND 0x000001ff"

definition CLKMGR_MAINPLLGRP_MAINCLK_CNT_SET :: "u32 \<Rightarrow> u32" where [reg_defs]:
  "CLKMGR_MAINPLLGRP_MAINCLK_CNT_SET x = (shl x 0) AND 0x000001ff"

definition CLKMGR_MAINPLLGRP_DBGATCLK_CNT_SET :: "u32 \<Rightarrow> u32" where [reg_defs]:
  "CLKMGR_MAINPLLGRP_DBGATCLK_CNT_SET x = (shl x 0) AND 0x000001ff"

definition CLKMGR_MAINPLLGRP_CFGS2FUSER0CLK_CNT_SET :: "u32 \<Rightarrow> u32" where [reg_defs]:
  "CLKMGR_MAINPLLGRP_CFGS2FUSER0CLK_CNT_SET x = (shl x 0) AND 0x000001ff"

definition CLKMGR_PERPLLGRP_EMAC0CLK_CNT_SET :: "u32 \<Rightarrow> u32" where [reg_defs]:
  "CLKMGR_PERPLLGRP_EMAC0CLK_CNT_SET x = (shl x 0) AND 0x000001ff"

definition CLKMGR_PERPLLGRP_EMAC1CLK_CNT_SET :: "u32 \<Rightarrow> u32" where [reg_defs]:
  "CLKMGR_PERPLLGRP_EMAC1CLK_CNT_SET x = (shl x 0) AND 0x000001ff"

definition CLKMGR_MAINPLLGRP_MAINQSPICLK_CNT_SET :: "u32 \<Rightarrow> u32" where [reg_defs]:
  "CLKMGR_MAINPLLGRP_MAINQSPICLK_CNT_SET x = (shl x 0) AND 0x000001ff"

definition CLKMGR_PERPLLGRP_PERBASECLK_CNT_SET :: "u32 \<Rightarrow> u32" where [reg_defs]:
  "CLKMGR_PERPLLGRP_PERBASECLK_CNT_SET x = (shl x 0) AND 0x000001ff"

definition CLKMGR_PERPLLGRP_S2FUSER1CLK_CNT_SET :: "u32 \<Rightarrow> u32" where [reg_defs]:
  "CLKMGR_PERPLLGRP_S2FUSER1CLK_CNT_SET x = (shl x 0) AND 0x000001ff"

definition CLKMGR_PERPLLGRP_PERNANDSDMMCCLK_CNT_SET :: "u32 \<Rightarrow> u32" where [reg_defs]:
  "CLKMGR_PERPLLGRP_PERNANDSDMMCCLK_CNT_SET x = (shl x 0) AND 0x000001ff"

definition CLKMGR_SDRPLLGRP_DDRDQSCLK_PHASE_SET :: "u32 \<Rightarrow> u32" where [reg_defs]:
  "CLKMGR_SDRPLLGRP_DDRDQSCLK_PHASE_SET x = (shl x 9) AND 0x00000e00"

definition CLKMGR_SDRPLLGRP_DDRDQSCLK_CNT_SET :: "u32 \<Rightarrow> u32" where [reg_defs]:
  "CLKMGR_SDRPLLGRP_DDRDQSCLK_CNT_SET x = (shl x 0) AND 0x000001ff"

definition CLKMGR_SDRPLLGRP_DDR2XDQSCLK_PHASE_SET :: "u32 \<Rightarrow> u32" where [reg_defs]:
  "CLKMGR_SDRPLLGRP_DDR2XDQSCLK_PHASE_SET x = (shl x 9) AND 0x00000e00"

definition CLKMGR_SDRPLLGRP_DDR2XDQSCLK_CNT_SET :: "u32 \<Rightarrow> u32" where [reg_defs]:
  "CLKMGR_SDRPLLGRP_DDR2XDQSCLK_CNT_SET x = (shl x 0) AND 0x000001ff"

definition CLKMGR_SDRPLLGRP_DDRDQCLK_PHASE_SET :: "u32 \<Rightarrow> u32" where [reg_defs]:
  "CLKMGR_SDRPLLGRP_DDRDQCLK_PHASE_SET x = (shl x 9) AND 0x00000e00"

definition CLKMGR_SDRPLLGRP_DDRDQCLK_CNT_SET :: "u32 \<Rightarrow> u32" where [reg_defs]:
  "CLKMGR_SDRPLLGRP_DDRDQCLK_CNT_SET x = (shl x 0) AND 0x000001ff"

definition CLKMGR_SDRPLLGRP_S2FUSER2CLK_PHASE_SET :: "u32 \<Rightarrow> u32" where [reg_defs]:
  "CLKMGR_SDRPLLGRP_S2FUSER2CLK_PHASE_SET x = (shl x 9) AND 0x00000e00"

definition CLKMGR_SDRPLLGRP_S2FUSER2CLK_CNT_SET :: "u32 \<Rightarrow> u32" where [reg_defs]:
  "CLKMGR_SDRPLLGRP_S2FUSER2CLK_CNT_SET x = (shl x 0) AND 0x000001ff"

definition CLKMGR_MAINPLLGRP_DBGDIV_DBGCLK_SET :: "u32 \<Rightarrow> u32" where [reg_defs]:
  "CLKMGR_MAINPLLGRP_DBGDIV_DBGCLK_SET x = (shl x 2) AND 0x0000000c"

definition CLKMGR_MAINPLLGRP_DBGDIV_DBGATCLK_SET :: "u32 \<Rightarrow> u32" where [reg_defs]:
  "CLKMGR_MAINPLLGRP_DBGDIV_DBGATCLK_SET x = (shl x 0) AND 0x00000003"

definition CLKMGR_MAINPLLGRP_TRACEDIV_TRACECLK_SET :: "u32 \<Rightarrow> u32" where [reg_defs]:
  "CLKMGR_MAINPLLGRP_TRACEDIV_TRACECLK_SET x = (shl x 0) AND 0x00000007"

definition CLKMGR_MAINPLLGRP_MAINDIV_L3MPCLK_SET :: "u32 \<Rightarrow> u32" where [reg_defs]:
  "CLKMGR_MAINPLLGRP_MAINDIV_L3MPCLK_SET x = (shl x 0) AND 0x00000003"

definition CLKMGR_MAINPLLGRP_MAINDIV_L3SPCLK_SET :: "u32 \<Rightarrow> u32" where [reg_defs]:
  "CLKMGR_MAINPLLGRP_MAINDIV_L3SPCLK_SET x = (shl x 2) AND 0x0000000c"

definition CLKMGR_BYPASS_PERPLL_SET :: "u32 \<Rightarrow> u32" where [reg_defs]:
  "CLKMGR_BYPASS_PERPLL_SET x = (shl x 3) AND 0x00000008"

definition CLKMGR_BYPASS_SDRPLL_SET :: "u32 \<Rightarrow> u32" where [reg_defs]:
  "CLKMGR_BYPASS_SDRPLL_SET x = (shl x 1) AND 0x00000002"

definition CLKMGR_BYPASS_MAINPLL_SET :: "u32 \<Rightarrow> u32" where [reg_defs]:
  "CLKMGR_BYPASS_MAINPLL_SET x = (shl x 0) AND 0x00000001"

definition CLKMGR_PERPLLGRP_DIV_USBCLK_SET :: "u32 \<Rightarrow> u32" where [reg_defs]:
  "CLKMGR_PERPLLGRP_DIV_USBCLK_SET x = (shl x 0) AND 0x00000007"

definition CLKMGR_PERPLLGRP_DIV_CAN0CLK_SET :: "u32 \<Rightarrow> u32" where [reg_defs]:
  "CLKMGR_PERPLLGRP_DIV_CAN0CLK_SET x = (shl x 6) AND 0x000001c0"

definition CLKMGR_PERPLLGRP_DIV_CAN1CLK_SET :: "u32 \<Rightarrow> u32" where [reg_defs]:
  "CLKMGR_PERPLLGRP_DIV_CAN1CLK_SET x = (shl x 9) AND 0x00000e00"

definition CLKMGR_INTER_SDRPLLLOCKED_MASK :: u32 where [reg_defs]:
  "CLKMGR_INTER_SDRPLLLOCKED_MASK = 0x00000100"

definition CLKMGR_INTER_PERPLLLOCKED_MASK :: u32 where [reg_defs]:
  "CLKMGR_INTER_PERPLLLOCKED_MASK = 0x00000080"

definition CLKMGR_INTER_MAINPLLLOCKED_MASK :: u32 where [reg_defs]:
  "CLKMGR_INTER_MAINPLLLOCKED_MASK = 0x00000040"

definition CLKMGR_CTRL_SAFEMODE_MASK :: u32 where [reg_defs]:
  "CLKMGR_CTRL_SAFEMODE_MASK = 0x00000001"

definition CLKMGR_CTRL_SAFEMODE_SET :: "u32 \<Rightarrow> u32" where [reg_defs]:
  "CLKMGR_CTRL_SAFEMODE_SET x = (shl x 0) AND 0x00000001"

definition CLKMGR_SDRPLLGRP_VCO_OUTRESETALL_SET :: "u32 \<Rightarrow> u32" where [reg_defs]:
  "CLKMGR_SDRPLLGRP_VCO_OUTRESETALL_SET x = (shl x 24) AND 0x01000000"

definition CLKMGR_PERPLLGRP_PERQSPICLK_CNT_SET :: "u32 \<Rightarrow> u32" where [reg_defs]:
  "CLKMGR_PERPLLGRP_PERQSPICLK_CNT_SET x = (shl x 0) AND 0x000001ff"

definition CLKMGR_PERPLLGRP_DIV_SPIMCLK_SET :: "u32 \<Rightarrow> u32" where [reg_defs]:
  "CLKMGR_PERPLLGRP_DIV_SPIMCLK_SET x = (shl x 3) AND 0x00000038"

definition CLKMGR_PERPLLGRP_GPIODIV_GPIODBCLK_SET :: "u32 \<Rightarrow> u32" where [reg_defs]:
  "CLKMGR_PERPLLGRP_GPIODIV_GPIODBCLK_SET x = (shl x 0) AND 0x00ffffff"

definition CLKMGR_BYPASS_PERPLLSRC_SET :: "u32 \<Rightarrow> u32" where [reg_defs]:
  "CLKMGR_BYPASS_PERPLLSRC_SET x = (shl x 4) AND 0x00000010"

definition CLKMGR_BYPASS_SDRPLLSRC_SET :: "u32 \<Rightarrow> u32" where [reg_defs]:
  "CLKMGR_BYPASS_SDRPLLSRC_SET x = (shl x 2) AND 0x00000004"

definition CLKMGR_PERPLLGRP_SRC_RESET_VALUE :: u32 where [reg_defs]:
  "CLKMGR_PERPLLGRP_SRC_RESET_VALUE = 0x00000015"

definition CLKMGR_MAINPLLGRP_L4SRC_RESET_VALUE :: u32 where [reg_defs]:
  "CLKMGR_MAINPLLGRP_L4SRC_RESET_VALUE = 0x00000000"

definition CLKMGR_MAINPLLGRP_VCO_REGEXTSEL_MASK :: u32 where [reg_defs]:
  "CLKMGR_MAINPLLGRP_VCO_REGEXTSEL_MASK = 0x80000000"

definition CLKMGR_PERPLLGRP_VCO_REGEXTSEL_MASK :: u32 where [reg_defs]:
  "CLKMGR_PERPLLGRP_VCO_REGEXTSEL_MASK = 0x80000000"

definition CLKMGR_SDRPLLGRP_VCO_REGEXTSEL_MASK :: u32 where [reg_defs]:
  "CLKMGR_SDRPLLGRP_VCO_REGEXTSEL_MASK = 0x80000000"

definition CLKMGR_SDRPLLGRP_DDRDQSCLK_PHASE_MASK :: u32 where [reg_defs]:
  "CLKMGR_SDRPLLGRP_DDRDQSCLK_PHASE_MASK = 0x001ffe00"

definition CLKMGR_SDRPLLGRP_DDR2XDQSCLK_PHASE_MASK :: u32 where [reg_defs]:
  "CLKMGR_SDRPLLGRP_DDR2XDQSCLK_PHASE_MASK = 0x001ffe00"

definition CLKMGR_SDRPLLGRP_DDRDQCLK_PHASE_MASK :: u32 where [reg_defs]:
  "CLKMGR_SDRPLLGRP_DDRDQCLK_PHASE_MASK = 0x001ffe00"

definition CLKMGR_SDRPLLGRP_S2FUSER2CLK_PHASE_MASK :: u32 where [reg_defs]:
  "CLKMGR_SDRPLLGRP_S2FUSER2CLK_PHASE_MASK = 0x001ffe00"

definition CLKMGR_MAINPLLGRP_VCO_OUTRESETALL_MASK :: u32 where [reg_defs]:
  "CLKMGR_MAINPLLGRP_VCO_OUTRESETALL_MASK = 0x01000000"

definition CLKMGR_PERPLLGRP_VCO_OUTRESETALL_MASK :: u32 where [reg_defs]:
  "CLKMGR_PERPLLGRP_VCO_OUTRESETALL_MASK = 0x01000000"

definition CLKMGR_PERPLLGRP_EN_NANDCLK_MASK :: u32 where [reg_defs]:
  "CLKMGR_PERPLLGRP_EN_NANDCLK_MASK = 0x00000400"

definition CLKMGR_SDRPLLGRP_DDRDQSCLK_CNT_MASK :: u32 where [reg_defs]:
  "CLKMGR_SDRPLLGRP_DDRDQSCLK_CNT_MASK = 0x000001ff"

definition CLKMGR_SDRPLLGRP_DDR2XDQSCLK_CNT_MASK :: u32 where [reg_defs]:
  "CLKMGR_SDRPLLGRP_DDR2XDQSCLK_CNT_MASK = 0x000001ff"

definition CLKMGR_SDRPLLGRP_DDRDQCLK_CNT_MASK :: u32 where [reg_defs]:
  "CLKMGR_SDRPLLGRP_DDRDQCLK_CNT_MASK = 0x000001ff"

definition CLKMGR_SDRPLLGRP_S2FUSER2CLK_CNT_MASK :: u32 where [reg_defs]:
  "CLKMGR_SDRPLLGRP_S2FUSER2CLK_CNT_MASK = 0x000001ff"

definition MAIN_VCO_BASE :: u32 where [reg_defs]:
  "MAIN_VCO_BASE = (CLKMGR_MAINPLLGRP_VCO_DENOM_SET CONFIG_HPS_MAINPLLGRP_VCO_DENOM) OR
     (CLKMGR_MAINPLLGRP_VCO_NUMER_SET CONFIG_HPS_MAINPLLGRP_VCO_NUMER)"

definition PERI_VCO_BASE :: u32 where [reg_defs]:
  "PERI_VCO_BASE = ((CLKMGR_PERPLLGRP_VCO_PSRC_SET CONFIG_HPS_PERPLLGRP_VCO_PSRC) OR
     (CLKMGR_PERPLLGRP_VCO_DENOM_SET CONFIG_HPS_PERPLLGRP_VCO_DENOM)) OR (CLKMGR_PERPLLGRP_VCO_NUMER_SET CONFIG_HPS_PERPLLGRP_VCO_NUMER)"

definition SDR_VCO_BASE :: u32 where [reg_defs]:
  "SDR_VCO_BASE = ((CLKMGR_SDRPLLGRP_VCO_SSRC_SET CONFIG_HPS_SDRPLLGRP_VCO_SSRC) OR
     (CLKMGR_SDRPLLGRP_VCO_DENOM_SET CONFIG_HPS_SDRPLLGRP_VCO_DENOM)) OR (CLKMGR_SDRPLLGRP_VCO_NUMER_SET CONFIG_HPS_SDRPLLGRP_VCO_NUMER)"

section \<open>arch/arm/cpu/armv7/socfpga/clock_manager.c\<close>

definition CLKMGR_BYPASS_ENUM_ENABLE :: u32 where [reg_defs]:
  "CLKMGR_BYPASS_ENUM_ENABLE = 1"

definition CLKMGR_BYPASS_ENUM_DISABLE :: u32 where [reg_defs]:
  "CLKMGR_BYPASS_ENUM_DISABLE = 0"

definition CLKMGR_STAT_BUSY_ENUM_BUSY :: u32 where [reg_defs]:
  "CLKMGR_STAT_BUSY_ENUM_BUSY = 0x1"

definition CLKMGR_BYPASS_PERPLLSRC_ENUM_SELECT_EOSC1 :: u32 where [reg_defs]:
  "CLKMGR_BYPASS_PERPLLSRC_ENUM_SELECT_EOSC1 = 0x0"

definition CLKMGR_BYPASS_SDRPLLSRC_ENUM_SELECT_EOSC1 :: u32 where [reg_defs]:
  "CLKMGR_BYPASS_SDRPLLSRC_ENUM_SELECT_EOSC1 = 0x0"

definition CLEAR_BGP_EN_PWRDN :: u32 where [reg_defs]:
  "CLEAR_BGP_EN_PWRDN = ((CLKMGR_MAINPLLGRP_VCO_PWRDN_SET 0) OR (CLKMGR_MAINPLLGRP_VCO_EN_SET
     0)) OR (CLKMGR_MAINPLLGRP_VCO_BGPWRDN_SET 0)"

definition VCO_EN_BASE :: u32 where [reg_defs]:
  "VCO_EN_BASE = ((CLKMGR_MAINPLLGRP_VCO_PWRDN_SET 0) OR (CLKMGR_MAINPLLGRP_VCO_EN_SET 1)) OR
     (CLKMGR_MAINPLLGRP_VCO_BGPWRDN_SET 0)"

definition LOCKED_MASK :: u32 where [reg_defs]:
  "LOCKED_MASK = (CLKMGR_INTER_SDRPLLLOCKED_MASK OR CLKMGR_INTER_PERPLLLOCKED_MASK) OR
     CLKMGR_INTER_MAINPLLLOCKED_MASK"

section \<open>arch/arm/include/asm/arch-socfpga/timer.h\<close>

definition timer_load_val :: u32 where [reg_defs]:
  "timer_load_val = CONFIG_SYS_TIMERBASE + 0x0"

definition timer_curr_val :: u32 where [reg_defs]:
  "timer_curr_val = CONFIG_SYS_TIMERBASE + 0x4"

definition timer_ctrl :: u32 where [reg_defs]:
  "timer_ctrl = CONFIG_SYS_TIMERBASE + 0x8"

section \<open>arch/arm/include/asm/arch-socfpga/gic.h\<close>

definition gic_cpu_if_ICCICR :: u32 where [reg_defs]:
  "gic_cpu_if_ICCICR = SOCFPGA_GIC_CPU_IF + 0x0"

definition gic_cpu_if_ICCPMR :: u32 where [reg_defs]:
  "gic_cpu_if_ICCPMR = SOCFPGA_GIC_CPU_IF + 0x4"

definition gic_cpu_if_ICCEOIR :: u32 where [reg_defs]:
  "gic_cpu_if_ICCEOIR = SOCFPGA_GIC_CPU_IF + 0x10"

definition gic_cpu_if_ICCHPIR :: u32 where [reg_defs]:
  "gic_cpu_if_ICCHPIR = SOCFPGA_GIC_CPU_IF + 0x18"

definition CONFIG_GIC_DIC_CONTROL :: u32 where [reg_defs]:
  "CONFIG_GIC_DIC_CONTROL = SOCFPGA_GIC_DIC + 0"

definition CONFIG_GIC_DIC_SET_ENABLE :: u32 where [reg_defs]:
  "CONFIG_GIC_DIC_SET_ENABLE = SOCFPGA_GIC_DIC + 0x100"

definition CONFIG_GIC_DIC_CLR_ENABLE :: u32 where [reg_defs]:
  "CONFIG_GIC_DIC_CLR_ENABLE = SOCFPGA_GIC_DIC + 0x180"

definition CONFIG_GIC_DIC_SET_PENDING :: u32 where [reg_defs]:
  "CONFIG_GIC_DIC_SET_PENDING = SOCFPGA_GIC_DIC + 0x200"

definition CONFIG_GIC_DIC_CLR_PENDING :: u32 where [reg_defs]:
  "CONFIG_GIC_DIC_CLR_PENDING = SOCFPGA_GIC_DIC + 0x280"

definition CONFIG_GIC_DIC_TARGET :: u32 where [reg_defs]:
  "CONFIG_GIC_DIC_TARGET = SOCFPGA_GIC_DIC + 0x800"

definition CONFIG_GIC_DIC_CONFIG :: u32 where [reg_defs]:
  "CONFIG_GIC_DIC_CONFIG = SOCFPGA_GIC_DIC + 0xc00"

section \<open>arch/arm/include/asm/arch-socfpga/interrupts.h\<close>

definition MAX_INT_VECTORS :: u32 where [reg_defs]:
  "MAX_INT_VECTORS = 212"

section \<open>arch/arm/include/asm/arch-socfpga/ecc_ram.h\<close>

definition IRQ_ECC_OCRAM_CORRECTED :: u32 where [reg_defs]:
  "IRQ_ECC_OCRAM_CORRECTED = 210"

definition IRQ_ECC_OCRAM_UNCORRECTED :: u32 where [reg_defs]:
  "IRQ_ECC_OCRAM_UNCORRECTED = 211"

section \<open>arch/arm/include/asm/arch-socfpga/sdram.h\<close>

definition CONFIG_SDRAM_CONTROLLER :: u32 where [reg_defs]:
  "CONFIG_SDRAM_CONTROLLER = SOCFPGA_SDR_ADDRESS"

definition SDR_PHYGRP_SCCGRP_ADDRESS :: u32 where [reg_defs]:
  "SDR_PHYGRP_SCCGRP_ADDRESS = 0x0"

definition SDR_PHYGRP_PHYMGRGRP_ADDRESS :: u32 where [reg_defs]:
  "SDR_PHYGRP_PHYMGRGRP_ADDRESS = 0x1000"

definition SDR_PHYGRP_RWMGRGRP_ADDRESS :: u32 where [reg_defs]:
  "SDR_PHYGRP_RWMGRGRP_ADDRESS = 0x2000"

definition SDR_PHYGRP_DATAMGRGRP_ADDRESS :: u32 where [reg_defs]:
  "SDR_PHYGRP_DATAMGRGRP_ADDRESS = 0x4000"

definition SDR_PHYGRP_REGFILEGRP_ADDRESS :: u32 where [reg_defs]:
  "SDR_PHYGRP_REGFILEGRP_ADDRESS = 0x4800"

definition SDR_CTRLGRP_ADDRESS :: u32 where [reg_defs]:
  "SDR_CTRLGRP_ADDRESS = 0x5000"

definition SDR_CTRLGRP_CTRLCFG_ADDRESS :: u32 where [reg_defs]:
  "SDR_CTRLGRP_CTRLCFG_ADDRESS = 0x5000"

definition SDR_CTRLGRP_DRAMTIMING1_ADDRESS :: u32 where [reg_defs]:
  "SDR_CTRLGRP_DRAMTIMING1_ADDRESS = 0x5004"

definition SDR_CTRLGRP_DRAMTIMING2_ADDRESS :: u32 where [reg_defs]:
  "SDR_CTRLGRP_DRAMTIMING2_ADDRESS = 0x5008"

definition SDR_CTRLGRP_DRAMTIMING3_ADDRESS :: u32 where [reg_defs]:
  "SDR_CTRLGRP_DRAMTIMING3_ADDRESS = 0x500c"

definition SDR_CTRLGRP_DRAMTIMING4_ADDRESS :: u32 where [reg_defs]:
  "SDR_CTRLGRP_DRAMTIMING4_ADDRESS = 0x5010"

definition SDR_CTRLGRP_LOWPWRTIMING_ADDRESS :: u32 where [reg_defs]:
  "SDR_CTRLGRP_LOWPWRTIMING_ADDRESS = 0x5014"

definition SDR_CTRLGRP_DRAMODT_ADDRESS :: u32 where [reg_defs]:
  "SDR_CTRLGRP_DRAMODT_ADDRESS = 0x5018"

definition SDR_CTRLGRP_DRAMADDRW_ADDRESS :: u32 where [reg_defs]:
  "SDR_CTRLGRP_DRAMADDRW_ADDRESS = 0x502c"

definition SDR_CTRLGRP_DRAMIFWIDTH_ADDRESS :: u32 where [reg_defs]:
  "SDR_CTRLGRP_DRAMIFWIDTH_ADDRESS = 0x5030"

definition SDR_CTRLGRP_DRAMDEVWIDTH_ADDRESS :: u32 where [reg_defs]:
  "SDR_CTRLGRP_DRAMDEVWIDTH_ADDRESS = 0x5034"

definition SDR_CTRLGRP_DRAMSTS_ADDRESS :: u32 where [reg_defs]:
  "SDR_CTRLGRP_DRAMSTS_ADDRESS = 0x5038"

definition SDR_CTRLGRP_DRAMINTR_ADDRESS :: u32 where [reg_defs]:
  "SDR_CTRLGRP_DRAMINTR_ADDRESS = 0x503c"

definition SDR_CTRLGRP_SBECOUNT_ADDRESS :: u32 where [reg_defs]:
  "SDR_CTRLGRP_SBECOUNT_ADDRESS = 0x5040"

definition SDR_CTRLGRP_ERRADDR_ADDRESS :: u32 where [reg_defs]:
  "SDR_CTRLGRP_ERRADDR_ADDRESS = 0x5048"

definition SDR_CTRLGRP_DROPCOUNT_ADDRESS :: u32 where [reg_defs]:
  "SDR_CTRLGRP_DROPCOUNT_ADDRESS = 0x504c"

definition SDR_CTRLGRP_DROPADDR_ADDRESS :: u32 where [reg_defs]:
  "SDR_CTRLGRP_DROPADDR_ADDRESS = 0x5050"

definition SDR_CTRLGRP_STATICCFG_ADDRESS :: u32 where [reg_defs]:
  "SDR_CTRLGRP_STATICCFG_ADDRESS = 0x505c"

definition SDR_CTRLGRP_CTRLWIDTH_ADDRESS :: u32 where [reg_defs]:
  "SDR_CTRLGRP_CTRLWIDTH_ADDRESS = 0x5060"

definition SDR_CTRLGRP_CPORTWIDTH_ADDRESS :: u32 where [reg_defs]:
  "SDR_CTRLGRP_CPORTWIDTH_ADDRESS = 0x5064"

definition SDR_CTRLGRP_CPORTWMAP_ADDRESS :: u32 where [reg_defs]:
  "SDR_CTRLGRP_CPORTWMAP_ADDRESS = 0x5068"

definition SDR_CTRLGRP_CPORTRMAP_ADDRESS :: u32 where [reg_defs]:
  "SDR_CTRLGRP_CPORTRMAP_ADDRESS = 0x506c"

definition SDR_CTRLGRP_RFIFOCMAP_ADDRESS :: u32 where [reg_defs]:
  "SDR_CTRLGRP_RFIFOCMAP_ADDRESS = 0x5070"

definition SDR_CTRLGRP_WFIFOCMAP_ADDRESS :: u32 where [reg_defs]:
  "SDR_CTRLGRP_WFIFOCMAP_ADDRESS = 0x5074"

definition SDR_CTRLGRP_CPORTRDWR_ADDRESS :: u32 where [reg_defs]:
  "SDR_CTRLGRP_CPORTRDWR_ADDRESS = 0x5078"

definition SDR_CTRLGRP_PORTCFG_ADDRESS :: u32 where [reg_defs]:
  "SDR_CTRLGRP_PORTCFG_ADDRESS = 0x507c"

definition SDR_CTRLGRP_FPGAPORTRST_ADDRESS :: u32 where [reg_defs]:
  "SDR_CTRLGRP_FPGAPORTRST_ADDRESS = 0x5080"

definition SDR_CTRLGRP_FIFOCFG_ADDRESS :: u32 where [reg_defs]:
  "SDR_CTRLGRP_FIFOCFG_ADDRESS = 0x5088"

definition SDR_CTRLGRP_MPPRIORITY_ADDRESS :: u32 where [reg_defs]:
  "SDR_CTRLGRP_MPPRIORITY_ADDRESS = 0x50ac"

definition SDR_CTRLGRP_MPWEIGHT_MPWEIGHT_0_ADDRESS :: u32 where [reg_defs]:
  "SDR_CTRLGRP_MPWEIGHT_MPWEIGHT_0_ADDRESS = 0x50b0"

definition SDR_CTRLGRP_MPWEIGHT_MPWEIGHT_1_ADDRESS :: u32 where [reg_defs]:
  "SDR_CTRLGRP_MPWEIGHT_MPWEIGHT_1_ADDRESS = 0x50b4"

definition SDR_CTRLGRP_MPWEIGHT_MPWEIGHT_2_ADDRESS :: u32 where [reg_defs]:
  "SDR_CTRLGRP_MPWEIGHT_MPWEIGHT_2_ADDRESS = 0x50b8"

definition SDR_CTRLGRP_MPWEIGHT_MPWEIGHT_3_ADDRESS :: u32 where [reg_defs]:
  "SDR_CTRLGRP_MPWEIGHT_MPWEIGHT_3_ADDRESS = 0x50bc"

definition SDR_CTRLGRP_MPPACING_MPPACING_0_ADDRESS :: u32 where [reg_defs]:
  "SDR_CTRLGRP_MPPACING_MPPACING_0_ADDRESS = 0x50c0"

definition SDR_CTRLGRP_MPPACING_MPPACING_1_ADDRESS :: u32 where [reg_defs]:
  "SDR_CTRLGRP_MPPACING_MPPACING_1_ADDRESS = 0x50c4"

definition SDR_CTRLGRP_MPPACING_MPPACING_2_ADDRESS :: u32 where [reg_defs]:
  "SDR_CTRLGRP_MPPACING_MPPACING_2_ADDRESS = 0x50c8"

definition SDR_CTRLGRP_MPPACING_MPPACING_3_ADDRESS :: u32 where [reg_defs]:
  "SDR_CTRLGRP_MPPACING_MPPACING_3_ADDRESS = 0x50cc"

definition SDR_CTRLGRP_MPTHRESHOLDRST_MPTHRESHOLDRST_0_ADDRESS :: u32 where [reg_defs]:
  "SDR_CTRLGRP_MPTHRESHOLDRST_MPTHRESHOLDRST_0_ADDRESS = 0x50d0"

definition SDR_CTRLGRP_MPTHRESHOLDRST_MPTHRESHOLDRST_1_ADDRESS :: u32 where [reg_defs]:
  "SDR_CTRLGRP_MPTHRESHOLDRST_MPTHRESHOLDRST_1_ADDRESS = 0x50d4"

definition SDR_CTRLGRP_MPTHRESHOLDRST_MPTHRESHOLDRST_2_ADDRESS :: u32 where [reg_defs]:
  "SDR_CTRLGRP_MPTHRESHOLDRST_MPTHRESHOLDRST_2_ADDRESS = 0x50d8"

definition SDR_CTRLGRP_PHYCTRL_PHYCTRL_0_ADDRESS :: u32 where [reg_defs]:
  "SDR_CTRLGRP_PHYCTRL_PHYCTRL_0_ADDRESS = 0x5150"

definition SDR_CTRLGRP_PHYCTRL_PHYCTRL_0_OFFSET :: u32 where [reg_defs]:
  "SDR_CTRLGRP_PHYCTRL_PHYCTRL_0_OFFSET = 0x150"

definition SDR_CTRLGRP_PHYCTRL_PHYCTRL_1_OFFSET :: u32 where [reg_defs]:
  "SDR_CTRLGRP_PHYCTRL_PHYCTRL_1_OFFSET = 0x154"

definition SDR_CTRLGRP_PHYCTRL_PHYCTRL_2_OFFSET :: u32 where [reg_defs]:
  "SDR_CTRLGRP_PHYCTRL_PHYCTRL_2_OFFSET = 0x158"

definition SDR_CTRLGRP_CTRLCFG_NODMPINS_LSB :: u32 where [reg_defs]:
  "SDR_CTRLGRP_CTRLCFG_NODMPINS_LSB = 23"

definition SDR_CTRLGRP_CTRLCFG_NODMPINS_MASK :: u32 where [reg_defs]:
  "SDR_CTRLGRP_CTRLCFG_NODMPINS_MASK = 0x00800000"

definition SDR_CTRLGRP_CTRLCFG_DQSTRKEN_LSB :: u32 where [reg_defs]:
  "SDR_CTRLGRP_CTRLCFG_DQSTRKEN_LSB = 22"

definition SDR_CTRLGRP_CTRLCFG_DQSTRKEN_MASK :: u32 where [reg_defs]:
  "SDR_CTRLGRP_CTRLCFG_DQSTRKEN_MASK = 0x00400000"

definition SDR_CTRLGRP_CTRLCFG_STARVELIMIT_LSB :: u32 where [reg_defs]:
  "SDR_CTRLGRP_CTRLCFG_STARVELIMIT_LSB = 16"

definition SDR_CTRLGRP_CTRLCFG_STARVELIMIT_MASK :: u32 where [reg_defs]:
  "SDR_CTRLGRP_CTRLCFG_STARVELIMIT_MASK = 0x003f0000"

definition SDR_CTRLGRP_CTRLCFG_REORDEREN_LSB :: u32 where [reg_defs]:
  "SDR_CTRLGRP_CTRLCFG_REORDEREN_LSB = 15"

definition SDR_CTRLGRP_CTRLCFG_REORDEREN_MASK :: u32 where [reg_defs]:
  "SDR_CTRLGRP_CTRLCFG_REORDEREN_MASK = 0x00008000"

definition SDR_CTRLGRP_CTRLCFG_ECCCORREN_LSB :: u32 where [reg_defs]:
  "SDR_CTRLGRP_CTRLCFG_ECCCORREN_LSB = 11"

definition SDR_CTRLGRP_CTRLCFG_ECCCORREN_MASK :: u32 where [reg_defs]:
  "SDR_CTRLGRP_CTRLCFG_ECCCORREN_MASK = 0x00000800"

definition SDR_CTRLGRP_CTRLCFG_ECCEN_LSB :: u32 where [reg_defs]:
  "SDR_CTRLGRP_CTRLCFG_ECCEN_LSB = 10"

definition SDR_CTRLGRP_CTRLCFG_ECCEN_MASK :: u32 where [reg_defs]:
  "SDR_CTRLGRP_CTRLCFG_ECCEN_MASK = 0x00000400"

definition SDR_CTRLGRP_CTRLCFG_ADDRORDER_LSB :: u32 where [reg_defs]:
  "SDR_CTRLGRP_CTRLCFG_ADDRORDER_LSB = 8"

definition SDR_CTRLGRP_CTRLCFG_ADDRORDER_MASK :: u32 where [reg_defs]:
  "SDR_CTRLGRP_CTRLCFG_ADDRORDER_MASK = 0x00000300"

definition SDR_CTRLGRP_CTRLCFG_MEMBL_LSB :: u32 where [reg_defs]:
  "SDR_CTRLGRP_CTRLCFG_MEMBL_LSB = 3"

definition SDR_CTRLGRP_CTRLCFG_MEMBL_MASK :: u32 where [reg_defs]:
  "SDR_CTRLGRP_CTRLCFG_MEMBL_MASK = 0x000000f8"

definition SDR_CTRLGRP_CTRLCFG_MEMTYPE_LSB :: u32 where [reg_defs]:
  "SDR_CTRLGRP_CTRLCFG_MEMTYPE_LSB = 0"

definition SDR_CTRLGRP_CTRLCFG_MEMTYPE_MASK :: u32 where [reg_defs]:
  "SDR_CTRLGRP_CTRLCFG_MEMTYPE_MASK = 0x00000007"

definition SDR_CTRLGRP_DRAMTIMING1_TRFC_LSB :: u32 where [reg_defs]:
  "SDR_CTRLGRP_DRAMTIMING1_TRFC_LSB = 24"

definition SDR_CTRLGRP_DRAMTIMING1_TRFC_MASK :: u32 where [reg_defs]:
  "SDR_CTRLGRP_DRAMTIMING1_TRFC_MASK = 0xff000000"

definition SDR_CTRLGRP_DRAMTIMING1_TFAW_LSB :: u32 where [reg_defs]:
  "SDR_CTRLGRP_DRAMTIMING1_TFAW_LSB = 18"

definition SDR_CTRLGRP_DRAMTIMING1_TFAW_MASK :: u32 where [reg_defs]:
  "SDR_CTRLGRP_DRAMTIMING1_TFAW_MASK = 0x00fc0000"

definition SDR_CTRLGRP_DRAMTIMING1_TRRD_LSB :: u32 where [reg_defs]:
  "SDR_CTRLGRP_DRAMTIMING1_TRRD_LSB = 14"

definition SDR_CTRLGRP_DRAMTIMING1_TRRD_MASK :: u32 where [reg_defs]:
  "SDR_CTRLGRP_DRAMTIMING1_TRRD_MASK = 0x0003c000"

definition SDR_CTRLGRP_DRAMTIMING1_TCL_LSB :: u32 where [reg_defs]:
  "SDR_CTRLGRP_DRAMTIMING1_TCL_LSB = 9"

definition SDR_CTRLGRP_DRAMTIMING1_TCL_MASK :: u32 where [reg_defs]:
  "SDR_CTRLGRP_DRAMTIMING1_TCL_MASK = 0x00003e00"

definition SDR_CTRLGRP_DRAMTIMING1_TAL_LSB :: u32 where [reg_defs]:
  "SDR_CTRLGRP_DRAMTIMING1_TAL_LSB = 4"

definition SDR_CTRLGRP_DRAMTIMING1_TAL_MASK :: u32 where [reg_defs]:
  "SDR_CTRLGRP_DRAMTIMING1_TAL_MASK = 0x000001f0"

definition SDR_CTRLGRP_DRAMTIMING1_TCWL_LSB :: u32 where [reg_defs]:
  "SDR_CTRLGRP_DRAMTIMING1_TCWL_LSB = 0"

definition SDR_CTRLGRP_DRAMTIMING1_TCWL_MASK :: u32 where [reg_defs]:
  "SDR_CTRLGRP_DRAMTIMING1_TCWL_MASK = 0x0000000f"

definition SDR_CTRLGRP_DRAMTIMING2_TWTR_LSB :: u32 where [reg_defs]:
  "SDR_CTRLGRP_DRAMTIMING2_TWTR_LSB = 25"

definition SDR_CTRLGRP_DRAMTIMING2_TWTR_MASK :: u32 where [reg_defs]:
  "SDR_CTRLGRP_DRAMTIMING2_TWTR_MASK = 0x1e000000"

definition SDR_CTRLGRP_DRAMTIMING2_TWR_LSB :: u32 where [reg_defs]:
  "SDR_CTRLGRP_DRAMTIMING2_TWR_LSB = 21"

definition SDR_CTRLGRP_DRAMTIMING2_TWR_MASK :: u32 where [reg_defs]:
  "SDR_CTRLGRP_DRAMTIMING2_TWR_MASK = 0x01e00000"

definition SDR_CTRLGRP_DRAMTIMING2_TRP_LSB :: u32 where [reg_defs]:
  "SDR_CTRLGRP_DRAMTIMING2_TRP_LSB = 17"

definition SDR_CTRLGRP_DRAMTIMING2_TRP_MASK :: u32 where [reg_defs]:
  "SDR_CTRLGRP_DRAMTIMING2_TRP_MASK = 0x001e0000"

definition SDR_CTRLGRP_DRAMTIMING2_TRCD_LSB :: u32 where [reg_defs]:
  "SDR_CTRLGRP_DRAMTIMING2_TRCD_LSB = 13"

definition SDR_CTRLGRP_DRAMTIMING2_TRCD_MASK :: u32 where [reg_defs]:
  "SDR_CTRLGRP_DRAMTIMING2_TRCD_MASK = 0x0001e000"

definition SDR_CTRLGRP_DRAMTIMING2_TREFI_LSB :: u32 where [reg_defs]:
  "SDR_CTRLGRP_DRAMTIMING2_TREFI_LSB = 0"

definition SDR_CTRLGRP_DRAMTIMING2_TREFI_MASK :: u32 where [reg_defs]:
  "SDR_CTRLGRP_DRAMTIMING2_TREFI_MASK = 0x00001fff"

definition SDR_CTRLGRP_DRAMTIMING3_TCCD_LSB :: u32 where [reg_defs]:
  "SDR_CTRLGRP_DRAMTIMING3_TCCD_LSB = 19"

definition SDR_CTRLGRP_DRAMTIMING3_TCCD_MASK :: u32 where [reg_defs]:
  "SDR_CTRLGRP_DRAMTIMING3_TCCD_MASK = 0x00780000"

definition SDR_CTRLGRP_DRAMTIMING3_TMRD_LSB :: u32 where [reg_defs]:
  "SDR_CTRLGRP_DRAMTIMING3_TMRD_LSB = 15"

definition SDR_CTRLGRP_DRAMTIMING3_TMRD_MASK :: u32 where [reg_defs]:
  "SDR_CTRLGRP_DRAMTIMING3_TMRD_MASK = 0x00078000"

definition SDR_CTRLGRP_DRAMTIMING3_TRC_LSB :: u32 where [reg_defs]:
  "SDR_CTRLGRP_DRAMTIMING3_TRC_LSB = 9"

definition SDR_CTRLGRP_DRAMTIMING3_TRC_MASK :: u32 where [reg_defs]:
  "SDR_CTRLGRP_DRAMTIMING3_TRC_MASK = 0x00007e00"

definition SDR_CTRLGRP_DRAMTIMING3_TRAS_LSB :: u32 where [reg_defs]:
  "SDR_CTRLGRP_DRAMTIMING3_TRAS_LSB = 4"

definition SDR_CTRLGRP_DRAMTIMING3_TRAS_MASK :: u32 where [reg_defs]:
  "SDR_CTRLGRP_DRAMTIMING3_TRAS_MASK = 0x000001f0"

definition SDR_CTRLGRP_DRAMTIMING3_TRTP_LSB :: u32 where [reg_defs]:
  "SDR_CTRLGRP_DRAMTIMING3_TRTP_LSB = 0"

definition SDR_CTRLGRP_DRAMTIMING3_TRTP_MASK :: u32 where [reg_defs]:
  "SDR_CTRLGRP_DRAMTIMING3_TRTP_MASK = 0x0000000f"

definition SDR_CTRLGRP_DRAMTIMING4_PWRDOWNEXIT_LSB :: u32 where [reg_defs]:
  "SDR_CTRLGRP_DRAMTIMING4_PWRDOWNEXIT_LSB = 10"

definition SDR_CTRLGRP_DRAMTIMING4_PWRDOWNEXIT_MASK :: u32 where [reg_defs]:
  "SDR_CTRLGRP_DRAMTIMING4_PWRDOWNEXIT_MASK = 0x000ffc00"

definition SDR_CTRLGRP_DRAMTIMING4_SELFRFSHEXIT_LSB :: u32 where [reg_defs]:
  "SDR_CTRLGRP_DRAMTIMING4_SELFRFSHEXIT_LSB = 0"

definition SDR_CTRLGRP_DRAMTIMING4_SELFRFSHEXIT_MASK :: u32 where [reg_defs]:
  "SDR_CTRLGRP_DRAMTIMING4_SELFRFSHEXIT_MASK = 0x000003ff"

definition SDR_CTRLGRP_LOWPWRTIMING_AUTOPDCYCLES_LSB :: u32 where [reg_defs]:
  "SDR_CTRLGRP_LOWPWRTIMING_AUTOPDCYCLES_LSB = 0"

definition SDR_CTRLGRP_LOWPWRTIMING_AUTOPDCYCLES_MASK :: u32 where [reg_defs]:
  "SDR_CTRLGRP_LOWPWRTIMING_AUTOPDCYCLES_MASK = 0x0000ffff"

definition SDR_CTRLGRP_DRAMADDRW_CSBITS_LSB :: u32 where [reg_defs]:
  "SDR_CTRLGRP_DRAMADDRW_CSBITS_LSB = 13"

definition SDR_CTRLGRP_DRAMADDRW_CSBITS_MASK :: u32 where [reg_defs]:
  "SDR_CTRLGRP_DRAMADDRW_CSBITS_MASK = 0x0000e000"

definition SDR_CTRLGRP_DRAMADDRW_BANKBITS_LSB :: u32 where [reg_defs]:
  "SDR_CTRLGRP_DRAMADDRW_BANKBITS_LSB = 10"

definition SDR_CTRLGRP_DRAMADDRW_BANKBITS_MASK :: u32 where [reg_defs]:
  "SDR_CTRLGRP_DRAMADDRW_BANKBITS_MASK = 0x00001c00"

definition SDR_CTRLGRP_DRAMADDRW_ROWBITS_LSB :: u32 where [reg_defs]:
  "SDR_CTRLGRP_DRAMADDRW_ROWBITS_LSB = 5"

definition SDR_CTRLGRP_DRAMADDRW_ROWBITS_MASK :: u32 where [reg_defs]:
  "SDR_CTRLGRP_DRAMADDRW_ROWBITS_MASK = 0x000003e0"

definition SDR_CTRLGRP_DRAMADDRW_COLBITS_LSB :: u32 where [reg_defs]:
  "SDR_CTRLGRP_DRAMADDRW_COLBITS_LSB = 0"

definition SDR_CTRLGRP_DRAMADDRW_COLBITS_MASK :: u32 where [reg_defs]:
  "SDR_CTRLGRP_DRAMADDRW_COLBITS_MASK = 0x0000001f"

definition SDR_CTRLGRP_DRAMIFWIDTH_IFWIDTH_LSB :: u32 where [reg_defs]:
  "SDR_CTRLGRP_DRAMIFWIDTH_IFWIDTH_LSB = 0"

definition SDR_CTRLGRP_DRAMIFWIDTH_IFWIDTH_MASK :: u32 where [reg_defs]:
  "SDR_CTRLGRP_DRAMIFWIDTH_IFWIDTH_MASK = 0x000000ff"

definition SDR_CTRLGRP_DRAMDEVWIDTH_DEVWIDTH_LSB :: u32 where [reg_defs]:
  "SDR_CTRLGRP_DRAMDEVWIDTH_DEVWIDTH_LSB = 0"

definition SDR_CTRLGRP_DRAMDEVWIDTH_DEVWIDTH_MASK :: u32 where [reg_defs]:
  "SDR_CTRLGRP_DRAMDEVWIDTH_DEVWIDTH_MASK = 0x0000000f"

definition SDR_CTRLGRP_DRAMINTR_INTRCLR_MASK :: u32 where [reg_defs]:
  "SDR_CTRLGRP_DRAMINTR_INTRCLR_MASK = 0x00000010"

definition SDR_CTRLGRP_DRAMINTR_INTREN_LSB :: u32 where [reg_defs]:
  "SDR_CTRLGRP_DRAMINTR_INTREN_LSB = 0"

definition SDR_CTRLGRP_DRAMINTR_INTREN_MASK :: u32 where [reg_defs]:
  "SDR_CTRLGRP_DRAMINTR_INTREN_MASK = 0x00000001"

definition SDR_CTRLGRP_STATICCFG_APPLYCFG_LSB :: u32 where [reg_defs]:
  "SDR_CTRLGRP_STATICCFG_APPLYCFG_LSB = 3"

definition SDR_CTRLGRP_STATICCFG_APPLYCFG_MASK :: u32 where [reg_defs]:
  "SDR_CTRLGRP_STATICCFG_APPLYCFG_MASK = 0x00000008"

definition SDR_CTRLGRP_STATICCFG_USEECCASDATA_LSB :: u32 where [reg_defs]:
  "SDR_CTRLGRP_STATICCFG_USEECCASDATA_LSB = 2"

definition SDR_CTRLGRP_STATICCFG_USEECCASDATA_MASK :: u32 where [reg_defs]:
  "SDR_CTRLGRP_STATICCFG_USEECCASDATA_MASK = 0x00000004"

definition SDR_CTRLGRP_STATICCFG_MEMBL_LSB :: u32 where [reg_defs]:
  "SDR_CTRLGRP_STATICCFG_MEMBL_LSB = 0"

definition SDR_CTRLGRP_STATICCFG_MEMBL_MASK :: u32 where [reg_defs]:
  "SDR_CTRLGRP_STATICCFG_MEMBL_MASK = 0x00000003"

definition SDR_CTRLGRP_CTRLWIDTH_CTRLWIDTH_LSB :: u32 where [reg_defs]:
  "SDR_CTRLGRP_CTRLWIDTH_CTRLWIDTH_LSB = 0"

definition SDR_CTRLGRP_CTRLWIDTH_CTRLWIDTH_MASK :: u32 where [reg_defs]:
  "SDR_CTRLGRP_CTRLWIDTH_CTRLWIDTH_MASK = 0x00000003"

definition SDR_CTRLGRP_CPORTWIDTH_CMDPORTWIDTH_LSB :: u32 where [reg_defs]:
  "SDR_CTRLGRP_CPORTWIDTH_CMDPORTWIDTH_LSB = 0"

definition SDR_CTRLGRP_CPORTWIDTH_CMDPORTWIDTH_MASK :: u32 where [reg_defs]:
  "SDR_CTRLGRP_CPORTWIDTH_CMDPORTWIDTH_MASK = 0x000fffff"

definition SDR_CTRLGRP_CPORTWMAP_CPORTWFIFOMAP_LSB :: u32 where [reg_defs]:
  "SDR_CTRLGRP_CPORTWMAP_CPORTWFIFOMAP_LSB = 0"

definition SDR_CTRLGRP_CPORTWMAP_CPORTWFIFOMAP_MASK :: u32 where [reg_defs]:
  "SDR_CTRLGRP_CPORTWMAP_CPORTWFIFOMAP_MASK = 0x3fffffff"

definition SDR_CTRLGRP_CPORTRMAP_CPORTRFIFOMAP_LSB :: u32 where [reg_defs]:
  "SDR_CTRLGRP_CPORTRMAP_CPORTRFIFOMAP_LSB = 0"

definition SDR_CTRLGRP_CPORTRMAP_CPORTRFIFOMAP_MASK :: u32 where [reg_defs]:
  "SDR_CTRLGRP_CPORTRMAP_CPORTRFIFOMAP_MASK = 0x3fffffff"

definition SDR_CTRLGRP_RFIFOCMAP_RFIFOCPORTMAP_LSB :: u32 where [reg_defs]:
  "SDR_CTRLGRP_RFIFOCMAP_RFIFOCPORTMAP_LSB = 0"

definition SDR_CTRLGRP_RFIFOCMAP_RFIFOCPORTMAP_MASK :: u32 where [reg_defs]:
  "SDR_CTRLGRP_RFIFOCMAP_RFIFOCPORTMAP_MASK = 0x00ffffff"

definition SDR_CTRLGRP_WFIFOCMAP_WFIFOCPORTMAP_LSB :: u32 where [reg_defs]:
  "SDR_CTRLGRP_WFIFOCMAP_WFIFOCPORTMAP_LSB = 0"

definition SDR_CTRLGRP_WFIFOCMAP_WFIFOCPORTMAP_MASK :: u32 where [reg_defs]:
  "SDR_CTRLGRP_WFIFOCMAP_WFIFOCPORTMAP_MASK = 0x00ffffff"

definition SDR_CTRLGRP_CPORTRDWR_CPORTRDWR_LSB :: u32 where [reg_defs]:
  "SDR_CTRLGRP_CPORTRDWR_CPORTRDWR_LSB = 0"

definition SDR_CTRLGRP_CPORTRDWR_CPORTRDWR_MASK :: u32 where [reg_defs]:
  "SDR_CTRLGRP_CPORTRDWR_CPORTRDWR_MASK = 0x000fffff"

definition SDR_CTRLGRP_PORTCFG_AUTOPCHEN_LSB :: u32 where [reg_defs]:
  "SDR_CTRLGRP_PORTCFG_AUTOPCHEN_LSB = 10"

definition SDR_CTRLGRP_PORTCFG_AUTOPCHEN_MASK :: u32 where [reg_defs]:
  "SDR_CTRLGRP_PORTCFG_AUTOPCHEN_MASK = 0x000ffc00"

definition SDR_CTRLGRP_FIFOCFG_INCSYNC_LSB :: u32 where [reg_defs]:
  "SDR_CTRLGRP_FIFOCFG_INCSYNC_LSB = 10"

definition SDR_CTRLGRP_FIFOCFG_INCSYNC_MASK :: u32 where [reg_defs]:
  "SDR_CTRLGRP_FIFOCFG_INCSYNC_MASK = 0x00000400"

definition SDR_CTRLGRP_FIFOCFG_SYNCMODE_LSB :: u32 where [reg_defs]:
  "SDR_CTRLGRP_FIFOCFG_SYNCMODE_LSB = 0"

definition SDR_CTRLGRP_FIFOCFG_SYNCMODE_MASK :: u32 where [reg_defs]:
  "SDR_CTRLGRP_FIFOCFG_SYNCMODE_MASK = 0x000003ff"

definition SDR_CTRLGRP_MPPRIORITY_USERPRIORITY_LSB :: u32 where [reg_defs]:
  "SDR_CTRLGRP_MPPRIORITY_USERPRIORITY_LSB = 0"

definition SDR_CTRLGRP_MPPRIORITY_USERPRIORITY_MASK :: u32 where [reg_defs]:
  "SDR_CTRLGRP_MPPRIORITY_USERPRIORITY_MASK = 0x3fffffff"

definition SDR_CTRLGRP_MPWEIGHT_MPWEIGHT_0_STATICWEIGHT_31_0_LSB :: u32 where [reg_defs]:
  "SDR_CTRLGRP_MPWEIGHT_MPWEIGHT_0_STATICWEIGHT_31_0_LSB = 0"

definition SDR_CTRLGRP_MPWEIGHT_MPWEIGHT_0_STATICWEIGHT_31_0_MASK :: u32 where [reg_defs]:
  "SDR_CTRLGRP_MPWEIGHT_MPWEIGHT_0_STATICWEIGHT_31_0_MASK = 0xffffffff"

definition SDR_CTRLGRP_MPWEIGHT_MPWEIGHT_1_SUMOFWEIGHTS_13_0_LSB :: u32 where [reg_defs]:
  "SDR_CTRLGRP_MPWEIGHT_MPWEIGHT_1_SUMOFWEIGHTS_13_0_LSB = 18"

definition SDR_CTRLGRP_MPWEIGHT_MPWEIGHT_1_SUMOFWEIGHTS_13_0_MASK :: u32 where [reg_defs]:
  "SDR_CTRLGRP_MPWEIGHT_MPWEIGHT_1_SUMOFWEIGHTS_13_0_MASK = 0xfffc0000"

definition SDR_CTRLGRP_MPWEIGHT_MPWEIGHT_1_STATICWEIGHT_49_32_LSB :: u32 where [reg_defs]:
  "SDR_CTRLGRP_MPWEIGHT_MPWEIGHT_1_STATICWEIGHT_49_32_LSB = 0"

definition SDR_CTRLGRP_MPWEIGHT_MPWEIGHT_1_STATICWEIGHT_49_32_MASK :: u32 where [reg_defs]:
  "SDR_CTRLGRP_MPWEIGHT_MPWEIGHT_1_STATICWEIGHT_49_32_MASK = 0x0003ffff"

definition SDR_CTRLGRP_MPWEIGHT_MPWEIGHT_2_SUMOFWEIGHTS_45_14_LSB :: u32 where [reg_defs]:
  "SDR_CTRLGRP_MPWEIGHT_MPWEIGHT_2_SUMOFWEIGHTS_45_14_LSB = 0"

definition SDR_CTRLGRP_MPWEIGHT_MPWEIGHT_2_SUMOFWEIGHTS_45_14_MASK :: u32 where [reg_defs]:
  "SDR_CTRLGRP_MPWEIGHT_MPWEIGHT_2_SUMOFWEIGHTS_45_14_MASK = 0xffffffff"

definition SDR_CTRLGRP_MPWEIGHT_MPWEIGHT_3_SUMOFWEIGHTS_63_46_LSB :: u32 where [reg_defs]:
  "SDR_CTRLGRP_MPWEIGHT_MPWEIGHT_3_SUMOFWEIGHTS_63_46_LSB = 0"

definition SDR_CTRLGRP_MPWEIGHT_MPWEIGHT_3_SUMOFWEIGHTS_63_46_MASK :: u32 where [reg_defs]:
  "SDR_CTRLGRP_MPWEIGHT_MPWEIGHT_3_SUMOFWEIGHTS_63_46_MASK = 0x0003ffff"

definition SDR_CTRLGRP_MPPACING_MPPACING_0_THRESHOLD1_31_0_LSB :: u32 where [reg_defs]:
  "SDR_CTRLGRP_MPPACING_MPPACING_0_THRESHOLD1_31_0_LSB = 0"

definition SDR_CTRLGRP_MPPACING_MPPACING_0_THRESHOLD1_31_0_MASK :: u32 where [reg_defs]:
  "SDR_CTRLGRP_MPPACING_MPPACING_0_THRESHOLD1_31_0_MASK = 0xffffffff"

definition SDR_CTRLGRP_MPPACING_MPPACING_1_THRESHOLD2_3_0_LSB :: u32 where [reg_defs]:
  "SDR_CTRLGRP_MPPACING_MPPACING_1_THRESHOLD2_3_0_LSB = 28"

definition SDR_CTRLGRP_MPPACING_MPPACING_1_THRESHOLD2_3_0_MASK :: u32 where [reg_defs]:
  "SDR_CTRLGRP_MPPACING_MPPACING_1_THRESHOLD2_3_0_MASK = 0xf0000000"

definition SDR_CTRLGRP_MPPACING_MPPACING_1_THRESHOLD1_59_32_LSB :: u32 where [reg_defs]:
  "SDR_CTRLGRP_MPPACING_MPPACING_1_THRESHOLD1_59_32_LSB = 0"

definition SDR_CTRLGRP_MPPACING_MPPACING_1_THRESHOLD1_59_32_MASK :: u32 where [reg_defs]:
  "SDR_CTRLGRP_MPPACING_MPPACING_1_THRESHOLD1_59_32_MASK = 0x0fffffff"

definition SDR_CTRLGRP_MPPACING_MPPACING_2_THRESHOLD2_35_4_LSB :: u32 where [reg_defs]:
  "SDR_CTRLGRP_MPPACING_MPPACING_2_THRESHOLD2_35_4_LSB = 0"

definition SDR_CTRLGRP_MPPACING_MPPACING_2_THRESHOLD2_35_4_MASK :: u32 where [reg_defs]:
  "SDR_CTRLGRP_MPPACING_MPPACING_2_THRESHOLD2_35_4_MASK = 0xffffffff"

definition SDR_CTRLGRP_MPPACING_MPPACING_3_THRESHOLD2_59_36_LSB :: u32 where [reg_defs]:
  "SDR_CTRLGRP_MPPACING_MPPACING_3_THRESHOLD2_59_36_LSB = 0"

definition SDR_CTRLGRP_MPPACING_MPPACING_3_THRESHOLD2_59_36_MASK :: u32 where [reg_defs]:
  "SDR_CTRLGRP_MPPACING_MPPACING_3_THRESHOLD2_59_36_MASK = 0x00ffffff"

definition SDR_CTRLGRP_MPTHRESHOLDRST_MPTHRESHOLDRST_0_THRESHOLDRSTCYCLES_31_0_LSB :: u32 where [reg_defs]:
  "SDR_CTRLGRP_MPTHRESHOLDRST_MPTHRESHOLDRST_0_THRESHOLDRSTCYCLES_31_0_LSB = 0"

definition SDR_CTRLGRP_MPTHRESHOLDRST_MPTHRESHOLDRST_0_THRESHOLDRSTCYCLES_31_0_MASK :: u32 where [reg_defs]:
  "SDR_CTRLGRP_MPTHRESHOLDRST_MPTHRESHOLDRST_0_THRESHOLDRSTCYCLES_31_0_MASK = 0xffffffff"

definition SDR_CTRLGRP_MPTHRESHOLDRST_MPTHRESHOLDRST_1_THRESHOLDRSTCYCLES_63_32_LSB :: u32 where [reg_defs]:
  "SDR_CTRLGRP_MPTHRESHOLDRST_MPTHRESHOLDRST_1_THRESHOLDRSTCYCLES_63_32_LSB = 0"

definition SDR_CTRLGRP_MPTHRESHOLDRST_MPTHRESHOLDRST_1_THRESHOLDRSTCYCLES_63_32_MASK :: u32 where [reg_defs]:
  "SDR_CTRLGRP_MPTHRESHOLDRST_MPTHRESHOLDRST_1_THRESHOLDRSTCYCLES_63_32_MASK = 0xffffffff"

definition SDR_CTRLGRP_MPTHRESHOLDRST_MPTHRESHOLDRST_2_THRESHOLDRSTCYCLES_79_64_LSB :: u32 where [reg_defs]:
  "SDR_CTRLGRP_MPTHRESHOLDRST_MPTHRESHOLDRST_2_THRESHOLDRSTCYCLES_79_64_LSB = 0"

definition SDR_CTRLGRP_MPTHRESHOLDRST_MPTHRESHOLDRST_2_THRESHOLDRSTCYCLES_79_64_MASK :: u32 where [reg_defs]:
  "SDR_CTRLGRP_MPTHRESHOLDRST_MPTHRESHOLDRST_2_THRESHOLDRSTCYCLES_79_64_MASK = 0x0000ffff"

definition SDR_CTRLGRP_PHYCTRL_PHYCTRL_0_SAMPLECOUNT_19_0_WIDTH :: u32 where [reg_defs]:
  "SDR_CTRLGRP_PHYCTRL_PHYCTRL_0_SAMPLECOUNT_19_0_WIDTH = 20"

definition SDR_CTRLGRP_PHYCTRL_PHYCTRL_0_SAMPLECOUNT_19_0_SET :: "u32 \<Rightarrow> u32" where [reg_defs]:
  "SDR_CTRLGRP_PHYCTRL_PHYCTRL_0_SAMPLECOUNT_19_0_SET x = (shl x 12) AND 0xfffff000"

definition SDR_CTRLGRP_PHYCTRL_PHYCTRL_0_ADDLATSEL_SET :: "u32 \<Rightarrow> u32" where [reg_defs]:
  "SDR_CTRLGRP_PHYCTRL_PHYCTRL_0_ADDLATSEL_SET x = (shl x 10) AND 0x00000c00"

definition SDR_CTRLGRP_PHYCTRL_PHYCTRL_0_LPDDRDIS_SET :: "u32 \<Rightarrow> u32" where [reg_defs]:
  "SDR_CTRLGRP_PHYCTRL_PHYCTRL_0_LPDDRDIS_SET x = (shl x 9) AND 0x00000200"

definition SDR_CTRLGRP_PHYCTRL_PHYCTRL_0_RESETDELAYEN_SET :: "u32 \<Rightarrow> u32" where [reg_defs]:
  "SDR_CTRLGRP_PHYCTRL_PHYCTRL_0_RESETDELAYEN_SET x = (shl x 8) AND 0x00000100"

definition SDR_CTRLGRP_PHYCTRL_PHYCTRL_0_DQSLOGICDELAYEN_SET :: "u32 \<Rightarrow> u32" where [reg_defs]:
  "SDR_CTRLGRP_PHYCTRL_PHYCTRL_0_DQSLOGICDELAYEN_SET x = (shl x 6) AND 0x000000c0"

definition SDR_CTRLGRP_PHYCTRL_PHYCTRL_0_DQSDELAYEN_SET :: "u32 \<Rightarrow> u32" where [reg_defs]:
  "SDR_CTRLGRP_PHYCTRL_PHYCTRL_0_DQSDELAYEN_SET x = (shl x 4) AND 0x00000030"

definition SDR_CTRLGRP_PHYCTRL_PHYCTRL_0_DQDELAYEN_SET :: "u32 \<Rightarrow> u32" where [reg_defs]:
  "SDR_CTRLGRP_PHYCTRL_PHYCTRL_0_DQDELAYEN_SET x = (shl x 2) AND 0x0000000c"

definition SDR_CTRLGRP_PHYCTRL_PHYCTRL_0_ACDELAYEN_SET :: "u32 \<Rightarrow> u32" where [reg_defs]:
  "SDR_CTRLGRP_PHYCTRL_PHYCTRL_0_ACDELAYEN_SET x = (shl x 0) AND 0x00000003"

definition SDR_CTRLGRP_PHYCTRL_PHYCTRL_1_LONGIDLESAMPLECOUNT_19_0_WIDTH :: u32 where [reg_defs]:
  "SDR_CTRLGRP_PHYCTRL_PHYCTRL_1_LONGIDLESAMPLECOUNT_19_0_WIDTH = 20"

definition SDR_CTRLGRP_PHYCTRL_PHYCTRL_1_LONGIDLESAMPLECOUNT_19_0_SET :: "u32 \<Rightarrow> u32" where [reg_defs]:
  "SDR_CTRLGRP_PHYCTRL_PHYCTRL_1_LONGIDLESAMPLECOUNT_19_0_SET x = (shl x 12) AND 0xfffff000"

definition SDR_CTRLGRP_PHYCTRL_PHYCTRL_1_SAMPLECOUNT_31_20_SET :: "u32 \<Rightarrow> u32" where [reg_defs]:
  "SDR_CTRLGRP_PHYCTRL_PHYCTRL_1_SAMPLECOUNT_31_20_SET x = (shl x 0) AND 0x00000fff"

definition SDR_CTRLGRP_PHYCTRL_PHYCTRL_2_LONGIDLESAMPLECOUNT_31_20_SET :: "u32 \<Rightarrow> u32" where [reg_defs]:
  "SDR_CTRLGRP_PHYCTRL_PHYCTRL_2_LONGIDLESAMPLECOUNT_31_20_SET x = (shl x 0) AND 0x00000fff"

definition SDR_CTRLGRP_DRAMODT_READ_LSB :: u32 where [reg_defs]:
  "SDR_CTRLGRP_DRAMODT_READ_LSB = 4"

definition SDR_CTRLGRP_DRAMODT_READ_MASK :: u32 where [reg_defs]:
  "SDR_CTRLGRP_DRAMODT_READ_MASK = 0x000000f0"

definition SDR_CTRLGRP_DRAMODT_WRITE_LSB :: u32 where [reg_defs]:
  "SDR_CTRLGRP_DRAMODT_WRITE_LSB = 0"

definition SDR_CTRLGRP_DRAMODT_WRITE_MASK :: u32 where [reg_defs]:
  "SDR_CTRLGRP_DRAMODT_WRITE_MASK = 0x0000000f"

definition SDR_CTRLGRP_DRAMSTS_DBEERR_MASK :: u32 where [reg_defs]:
  "SDR_CTRLGRP_DRAMSTS_DBEERR_MASK = 0x00000008"

definition SDR_CTRLGRP_DRAMSTS_SBEERR_MASK :: u32 where [reg_defs]:
  "SDR_CTRLGRP_DRAMSTS_SBEERR_MASK = 0x00000004"

section \<open>board/altera/socfpga/sdram/sdram_config.h\<close>

definition CONFIG_HPS_SDR_CTRLCFG_CTRLCFG_MEMTYPE :: u32 where [reg_defs]:
  "CONFIG_HPS_SDR_CTRLCFG_CTRLCFG_MEMTYPE = 2"

definition CONFIG_HPS_SDR_CTRLCFG_CTRLCFG_MEMBL :: u32 where [reg_defs]:
  "CONFIG_HPS_SDR_CTRLCFG_CTRLCFG_MEMBL = 8"

definition CONFIG_HPS_SDR_CTRLCFG_CTRLCFG_ADDRORDER :: u32 where [reg_defs]:
  "CONFIG_HPS_SDR_CTRLCFG_CTRLCFG_ADDRORDER = 0"

definition CONFIG_HPS_SDR_CTRLCFG_CTRLCFG_ECCEN :: u32 where [reg_defs]:
  "CONFIG_HPS_SDR_CTRLCFG_CTRLCFG_ECCEN = 0"

definition CONFIG_HPS_SDR_CTRLCFG_CTRLCFG_ECCCORREN :: u32 where [reg_defs]:
  "CONFIG_HPS_SDR_CTRLCFG_CTRLCFG_ECCCORREN = 0"

definition CONFIG_HPS_SDR_CTRLCFG_CTRLCFG_REORDEREN :: u32 where [reg_defs]:
  "CONFIG_HPS_SDR_CTRLCFG_CTRLCFG_REORDEREN = 1"

definition CONFIG_HPS_SDR_CTRLCFG_CTRLCFG_STARVELIMIT :: u32 where [reg_defs]:
  "CONFIG_HPS_SDR_CTRLCFG_CTRLCFG_STARVELIMIT = 10"

definition CONFIG_HPS_SDR_CTRLCFG_CTRLCFG_DQSTRKEN :: u32 where [reg_defs]:
  "CONFIG_HPS_SDR_CTRLCFG_CTRLCFG_DQSTRKEN = 0"

definition CONFIG_HPS_SDR_CTRLCFG_CTRLCFG_NODMPINS :: u32 where [reg_defs]:
  "CONFIG_HPS_SDR_CTRLCFG_CTRLCFG_NODMPINS = 0"

definition CONFIG_HPS_SDR_CTRLCFG_DRAMTIMING1_TCWL :: u32 where [reg_defs]:
  "CONFIG_HPS_SDR_CTRLCFG_DRAMTIMING1_TCWL = 8"

definition CONFIG_HPS_SDR_CTRLCFG_DRAMTIMING1_AL :: u32 where [reg_defs]:
  "CONFIG_HPS_SDR_CTRLCFG_DRAMTIMING1_AL = 0"

definition CONFIG_HPS_SDR_CTRLCFG_DRAMTIMING1_TCL :: u32 where [reg_defs]:
  "CONFIG_HPS_SDR_CTRLCFG_DRAMTIMING1_TCL = 11"

definition CONFIG_HPS_SDR_CTRLCFG_DRAMTIMING1_TRRD :: u32 where [reg_defs]:
  "CONFIG_HPS_SDR_CTRLCFG_DRAMTIMING1_TRRD = 3"

definition CONFIG_HPS_SDR_CTRLCFG_DRAMTIMING1_TFAW :: u32 where [reg_defs]:
  "CONFIG_HPS_SDR_CTRLCFG_DRAMTIMING1_TFAW = 12"

definition CONFIG_HPS_SDR_CTRLCFG_DRAMTIMING1_TRFC :: u32 where [reg_defs]:
  "CONFIG_HPS_SDR_CTRLCFG_DRAMTIMING1_TRFC = 104"

definition CONFIG_HPS_SDR_CTRLCFG_DRAMTIMING2_IF_TREFI :: u32 where [reg_defs]:
  "CONFIG_HPS_SDR_CTRLCFG_DRAMTIMING2_IF_TREFI = 3120"

definition CONFIG_HPS_SDR_CTRLCFG_DRAMTIMING2_IF_TRCD :: u32 where [reg_defs]:
  "CONFIG_HPS_SDR_CTRLCFG_DRAMTIMING2_IF_TRCD = 6"

definition CONFIG_HPS_SDR_CTRLCFG_DRAMTIMING2_IF_TRP :: u32 where [reg_defs]:
  "CONFIG_HPS_SDR_CTRLCFG_DRAMTIMING2_IF_TRP = 6"

definition CONFIG_HPS_SDR_CTRLCFG_DRAMTIMING2_IF_TWR :: u32 where [reg_defs]:
  "CONFIG_HPS_SDR_CTRLCFG_DRAMTIMING2_IF_TWR = 6"

definition CONFIG_HPS_SDR_CTRLCFG_DRAMTIMING2_IF_TWTR :: u32 where [reg_defs]:
  "CONFIG_HPS_SDR_CTRLCFG_DRAMTIMING2_IF_TWTR = 4"

definition CONFIG_HPS_SDR_CTRLCFG_DRAMTIMING3_TRTP :: u32 where [reg_defs]:
  "CONFIG_HPS_SDR_CTRLCFG_DRAMTIMING3_TRTP = 3"

definition CONFIG_HPS_SDR_CTRLCFG_DRAMTIMING3_TRAS :: u32 where [reg_defs]:
  "CONFIG_HPS_SDR_CTRLCFG_DRAMTIMING3_TRAS = 14"

definition CONFIG_HPS_SDR_CTRLCFG_DRAMTIMING3_TRC :: u32 where [reg_defs]:
  "CONFIG_HPS_SDR_CTRLCFG_DRAMTIMING3_TRC = 20"

definition CONFIG_HPS_SDR_CTRLCFG_DRAMTIMING3_TMRD :: u32 where [reg_defs]:
  "CONFIG_HPS_SDR_CTRLCFG_DRAMTIMING3_TMRD = 4"

definition CONFIG_HPS_SDR_CTRLCFG_DRAMTIMING3_TCCD :: u32 where [reg_defs]:
  "CONFIG_HPS_SDR_CTRLCFG_DRAMTIMING3_TCCD = 4"

definition CONFIG_HPS_SDR_CTRLCFG_DRAMTIMING4_SELFRFSHEXIT :: u32 where [reg_defs]:
  "CONFIG_HPS_SDR_CTRLCFG_DRAMTIMING4_SELFRFSHEXIT = 200"

definition CONFIG_HPS_SDR_CTRLCFG_DRAMTIMING4_PWRDOWNEXIT :: u32 where [reg_defs]:
  "CONFIG_HPS_SDR_CTRLCFG_DRAMTIMING4_PWRDOWNEXIT = 3"

definition CONFIG_HPS_SDR_CTRLCFG_LOWPWRTIMING_AUTOPDCYCLES :: u32 where [reg_defs]:
  "CONFIG_HPS_SDR_CTRLCFG_LOWPWRTIMING_AUTOPDCYCLES = 0"

definition CONFIG_HPS_SDR_CTRLCFG_DRAMADDRW_COLBITS :: u32 where [reg_defs]:
  "CONFIG_HPS_SDR_CTRLCFG_DRAMADDRW_COLBITS = 10"

definition CONFIG_HPS_SDR_CTRLCFG_DRAMADDRW_ROWBITS :: u32 where [reg_defs]:
  "CONFIG_HPS_SDR_CTRLCFG_DRAMADDRW_ROWBITS = 15"

definition CONFIG_HPS_SDR_CTRLCFG_DRAMADDRW_BANKBITS :: u32 where [reg_defs]:
  "CONFIG_HPS_SDR_CTRLCFG_DRAMADDRW_BANKBITS = 3"

definition CONFIG_HPS_SDR_CTRLCFG_DRAMADDRW_CSBITS :: u32 where [reg_defs]:
  "CONFIG_HPS_SDR_CTRLCFG_DRAMADDRW_CSBITS = 1"

definition CONFIG_HPS_SDR_CTRLCFG_DRAMIFWIDTH_IFWIDTH :: u32 where [reg_defs]:
  "CONFIG_HPS_SDR_CTRLCFG_DRAMIFWIDTH_IFWIDTH = 32"

definition CONFIG_HPS_SDR_CTRLCFG_DRAMDEVWIDTH_DEVWIDTH :: u32 where [reg_defs]:
  "CONFIG_HPS_SDR_CTRLCFG_DRAMDEVWIDTH_DEVWIDTH = 8"

definition CONFIG_HPS_SDR_CTRLCFG_DRAMINTR_INTREN :: u32 where [reg_defs]:
  "CONFIG_HPS_SDR_CTRLCFG_DRAMINTR_INTREN = 0"

definition CONFIG_HPS_SDR_CTRLCFG_STATICCFG_MEMBL :: u32 where [reg_defs]:
  "CONFIG_HPS_SDR_CTRLCFG_STATICCFG_MEMBL = 2"

definition CONFIG_HPS_SDR_CTRLCFG_STATICCFG_USEECCASDATA :: u32 where [reg_defs]:
  "CONFIG_HPS_SDR_CTRLCFG_STATICCFG_USEECCASDATA = 0"

definition CONFIG_HPS_SDR_CTRLCFG_CTRLWIDTH_CTRLWIDTH :: u32 where [reg_defs]:
  "CONFIG_HPS_SDR_CTRLCFG_CTRLWIDTH_CTRLWIDTH = 2"

definition CONFIG_HPS_SDR_CTRLCFG_PORTCFG_AUTOPCHEN :: u32 where [reg_defs]:
  "CONFIG_HPS_SDR_CTRLCFG_PORTCFG_AUTOPCHEN = 0"

definition CONFIG_HPS_SDR_CTRLCFG_FIFOCFG_SYNCMODE :: u32 where [reg_defs]:
  "CONFIG_HPS_SDR_CTRLCFG_FIFOCFG_SYNCMODE = 0"

definition CONFIG_HPS_SDR_CTRLCFG_FIFOCFG_INCSYNC :: u32 where [reg_defs]:
  "CONFIG_HPS_SDR_CTRLCFG_FIFOCFG_INCSYNC = 0"

definition CONFIG_HPS_SDR_CTRLCFG_MPPRIORITY_USERPRIORITY :: u32 where [reg_defs]:
  "CONFIG_HPS_SDR_CTRLCFG_MPPRIORITY_USERPRIORITY = 0x3ffd1088"

definition CONFIG_HPS_SDR_CTRLCFG_MPWIEIGHT_0_STATICWEIGHT_31_0 :: u32 where [reg_defs]:
  "CONFIG_HPS_SDR_CTRLCFG_MPWIEIGHT_0_STATICWEIGHT_31_0 = 0x21084210"

definition CONFIG_HPS_SDR_CTRLCFG_MPWIEIGHT_1_STATICWEIGHT_49_32 :: u32 where [reg_defs]:
  "CONFIG_HPS_SDR_CTRLCFG_MPWIEIGHT_1_STATICWEIGHT_49_32 = 0x1ef84"

definition CONFIG_HPS_SDR_CTRLCFG_MPWIEIGHT_1_SUMOFWEIGHT_13_0 :: u32 where [reg_defs]:
  "CONFIG_HPS_SDR_CTRLCFG_MPWIEIGHT_1_SUMOFWEIGHT_13_0 = 0x2020"

definition CONFIG_HPS_SDR_CTRLCFG_MPWIEIGHT_2_SUMOFWEIGHT_45_14 :: u32 where [reg_defs]:
  "CONFIG_HPS_SDR_CTRLCFG_MPWIEIGHT_2_SUMOFWEIGHT_45_14 = 0x0"

definition CONFIG_HPS_SDR_CTRLCFG_MPWIEIGHT_3_SUMOFWEIGHT_63_46 :: u32 where [reg_defs]:
  "CONFIG_HPS_SDR_CTRLCFG_MPWIEIGHT_3_SUMOFWEIGHT_63_46 = 0xf800"

definition CONFIG_HPS_SDR_CTRLCFG_PHYCTRL_PHYCTRL_0 :: u32 where [reg_defs]:
  "CONFIG_HPS_SDR_CTRLCFG_PHYCTRL_PHYCTRL_0 = 0x200"

definition CONFIG_HPS_SDR_CTRLCFG_CPORTWIDTH_CPORTWIDTH :: u32 where [reg_defs]:
  "CONFIG_HPS_SDR_CTRLCFG_CPORTWIDTH_CPORTWIDTH = 0x44555"

definition CONFIG_HPS_SDR_CTRLCFG_CPORTWMAP_CPORTWMAP :: u32 where [reg_defs]:
  "CONFIG_HPS_SDR_CTRLCFG_CPORTWMAP_CPORTWMAP = 0x2c011000"

definition CONFIG_HPS_SDR_CTRLCFG_CPORTRMAP_CPORTRMAP :: u32 where [reg_defs]:
  "CONFIG_HPS_SDR_CTRLCFG_CPORTRMAP_CPORTRMAP = 0xb00088"

definition CONFIG_HPS_SDR_CTRLCFG_RFIFOCMAP_RFIFOCMAP :: u32 where [reg_defs]:
  "CONFIG_HPS_SDR_CTRLCFG_RFIFOCMAP_RFIFOCMAP = 0x760210"

definition CONFIG_HPS_SDR_CTRLCFG_WFIFOCMAP_WFIFOCMAP :: u32 where [reg_defs]:
  "CONFIG_HPS_SDR_CTRLCFG_WFIFOCMAP_WFIFOCMAP = 0x980543"

definition CONFIG_HPS_SDR_CTRLCFG_CPORTRDWR_CPORTRDWR :: u32 where [reg_defs]:
  "CONFIG_HPS_SDR_CTRLCFG_CPORTRDWR_CPORTRDWR = 0x5a56a"

definition CONFIG_HPS_SDR_CTRLCFG_MPPACING_0_THRESHOLD1_31_0 :: u32 where [reg_defs]:
  "CONFIG_HPS_SDR_CTRLCFG_MPPACING_0_THRESHOLD1_31_0 = 0x20820820"

definition CONFIG_HPS_SDR_CTRLCFG_MPPACING_1_THRESHOLD1_59_32 :: u32 where [reg_defs]:
  "CONFIG_HPS_SDR_CTRLCFG_MPPACING_1_THRESHOLD1_59_32 = 0x8208208"

definition CONFIG_HPS_SDR_CTRLCFG_MPPACING_1_THRESHOLD2_3_0 :: u32 where [reg_defs]:
  "CONFIG_HPS_SDR_CTRLCFG_MPPACING_1_THRESHOLD2_3_0 = 0"

definition CONFIG_HPS_SDR_CTRLCFG_MPPACING_2_THRESHOLD2_35_4 :: u32 where [reg_defs]:
  "CONFIG_HPS_SDR_CTRLCFG_MPPACING_2_THRESHOLD2_35_4 = 0x41041041"

definition CONFIG_HPS_SDR_CTRLCFG_MPPACING_3_THRESHOLD2_59_36 :: u32 where [reg_defs]:
  "CONFIG_HPS_SDR_CTRLCFG_MPPACING_3_THRESHOLD2_59_36 = 0x410410"

definition CONFIG_HPS_SDR_CTRLCFG_MPTHRESHOLDRST_0_THRESHOLDRSTCYCLES_31_0 :: u32 where [reg_defs]:
  "CONFIG_HPS_SDR_CTRLCFG_MPTHRESHOLDRST_0_THRESHOLDRSTCYCLES_31_0 = 0x01010101"

definition CONFIG_HPS_SDR_CTRLCFG_MPTHRESHOLDRST_1_THRESHOLDRSTCYCLES_63_32 :: u32 where [reg_defs]:
  "CONFIG_HPS_SDR_CTRLCFG_MPTHRESHOLDRST_1_THRESHOLDRSTCYCLES_63_32 = 0x01010101"

definition CONFIG_HPS_SDR_CTRLCFG_MPTHRESHOLDRST_2_THRESHOLDRSTCYCLES_79_64 :: u32 where [reg_defs]:
  "CONFIG_HPS_SDR_CTRLCFG_MPTHRESHOLDRST_2_THRESHOLDRSTCYCLES_79_64 = 0x0101"

definition CONFIG_HPS_SDR_CTRLCFG_DRAMODT_READ :: u32 where [reg_defs]:
  "CONFIG_HPS_SDR_CTRLCFG_DRAMODT_READ = 0"

definition CONFIG_HPS_SDR_CTRLCFG_DRAMODT_WRITE :: u32 where [reg_defs]:
  "CONFIG_HPS_SDR_CTRLCFG_DRAMODT_WRITE = 1"

definition CONFIG_HPS_SDR_CTRLCFG_FPGAPORTRST :: u32 where [reg_defs]:
  "CONFIG_HPS_SDR_CTRLCFG_FPGAPORTRST = 0x0"

end
