(* ===== verification/FpgaStatus.thy ===== *)
theory FpgaStatus imports Machine SocRegs begin

text \<open>
  The status half of the FPGA manager driver (fpga_manager.c: \<open>is_fpgamgr_initdone_high\<close>
  to \<open>poll_fpgamgr_fpga_ready\<close>), which the reset manager and the system manager call,
  and the interface \<open>ready_check\<close> they rely on.
\<close>

section \<open>Operations\<close>

definition is_fpgamgr_initdone_high :: "bool io" where
  "is_fpgamgr_initdone_high =
     bind_io (readl (SOCFPGA_FPGAMGRREGS_ADDRESS + FPGAMGRREGS_MON_GPIO_EXT_PORTA_ADDRESS))
       (\<lambda>val. ret (val AND FPGAMGRREGS_MON_GPIO_EXT_PORTA_ID_MASK \<noteq> 0))"

definition fpgamgr_get_mode :: "u32 io" where
  "fpgamgr_get_mode =
     bind_io (readl fpgamgr_stat) (\<lambda>val. ret (val AND FPGAMGRREGS_STAT_MODE_MASK))"

definition is_fpgamgr_fpga_ready :: "bool io" where
  "is_fpgamgr_fpga_ready =
     bind_io is_fpgamgr_initdone_high (\<lambda>high.
     if \<not> high then ret False else
     bind_io is_fpgamgr_initdone_high (\<lambda>high.
     if \<not> high then ret False else
     bind_io fpgamgr_get_mode (\<lambda>mode.
     if mode \<noteq> FPGAMGRREGS_MODE_USERMODE then ret False else
     ret True)))"

text \<open>The body of the polling loop: \<open>continue\<close> is \<open>None\<close>, \<open>return 1\<close> is \<open>Some ()\<close>.\<close>

definition fpga_ready_probe :: "unit option io" where
  "fpga_ready_probe =
     bind_io is_fpgamgr_initdone_high (\<lambda>high.
     if \<not> high then ret None else
     bind_io is_fpgamgr_initdone_high (\<lambda>high.
     if \<not> high then ret None else ret (Some ())))"

definition poll_fpgamgr_fpga_ready :: "bool io" where
  "poll_fpgamgr_fpga_ready =
     bind_io (attempt (unat FPGA_TIMEOUT_CNT) fpga_ready_probe) (\<lambda>r. ret (r \<noteq> None))"

section \<open>What the answer means\<close>

definition initdone_addr :: u32 where [reg_defs]:
  "initdone_addr = SOCFPGA_FPGAMGRREGS_ADDRESS + FPGAMGRREGS_MON_GPIO_EXT_PORTA_ADDRESS"

definition initdone :: "u32 \<Rightarrow> bool" where
  "initdone v \<longleftrightarrow> v AND FPGAMGRREGS_MON_GPIO_EXT_PORTA_ID_MASK \<noteq> 0"

definition usermode :: "u32 \<Rightarrow> bool" where
  "usermode v \<longleftrightarrow> v AND FPGAMGRREGS_STAT_MODE_MASK = FPGAMGRREGS_MODE_USERMODE"

text \<open>The last two accesses saw INIT_DONE high (the double check against glitches).\<close>

fun seen_initdone :: "event list \<Rightarrow> bool" where
  "seen_initdone (Rd a v # Rd b w # h) \<longleftrightarrow>
     a = initdone_addr \<and> initdone v \<and> b = initdone_addr \<and> initdone w"
| "seen_initdone _ = False"

text \<open>The last three accesses saw INIT_DONE high twice and then user mode.\<close>

fun seen_ready :: "event list \<Rightarrow> bool" where
  "seen_ready (Rd a v # h) \<longleftrightarrow> a = fpgamgr_stat \<and> usermode v \<and> seen_initdone h"
| "seen_ready _ = False"

lemma total_initdone [simp]: "ends is_fpgamgr_initdone_high"
  by (simp add: is_fpgamgr_initdone_high_def total_bind)

lemma total_get_mode [simp]: "ends fpgamgr_get_mode"
  by (simp add: fpgamgr_get_mode_def total_bind)

lemma total_is_ready [simp]: "ends is_fpgamgr_fpga_ready"
  by (auto simp: is_fpgamgr_fpga_ready_def intro!: total_bind)

lemma total_poll_ready [simp]: "ends poll_fpgamgr_fpga_ready"
  by (auto simp: poll_fpgamgr_fpga_ready_def fpga_ready_probe_def intro!: total_intros)

lemma wp_initdone_all:
  assumes "\<And>v. Q (initdone v) (s\<lparr>trace := Rd initdone_addr v # trace s\<rparr>)"
  shows "wp is_fpgamgr_initdone_high Q H s"
  unfolding is_fpgamgr_initdone_high_def wp_bind
  by (rule wp_readl_all) (use assms in \<open>simp add: wp_ret initdone_def initdone_addr_def\<close>)

lemma wp_get_mode_all:
  assumes "\<And>v. Q (v AND FPGAMGRREGS_STAT_MODE_MASK) (s\<lparr>trace := Rd fpgamgr_stat v # trace s\<rparr>)"
  shows "wp fpgamgr_get_mode Q H s"
  unfolding fpgamgr_get_mode_def wp_bind
  by (rule wp_readl_all) (use assms in \<open>simp add: wp_ret\<close>)

section \<open>The interface the bridge code relies on\<close>

text \<open>
  A readiness check of the FPGA: it only reads (the accesses it adds are reads) and
  answers yes only when the reads it has just made show what \<open>seen\<close> requires.
\<close>

definition reads_only :: "event list \<Rightarrow> bool" where
  "reads_only es \<longleftrightarrow> (\<forall>e \<in> set es. \<exists>a v. e = Rd a v)"

definition after_reads :: "mach \<Rightarrow> mach \<Rightarrow> bool" where
  "after_reads s t \<longleftrightarrow> (\<exists>es. reads_only es \<and> t = s\<lparr>trace := es @ trace s\<rparr>)"

lemma after_reads_refl [simp]: "after_reads s s"
  unfolding after_reads_def by (intro exI [of _ "[]"]) (simp add: reads_only_def)

lemma after_reads_Rd:
  assumes "after_reads s (t\<lparr>trace := h\<rparr>)"
  shows "after_reads s (t\<lparr>trace := Rd a v # h\<rparr>)"
proof -
  from assms obtain es where es: "reads_only es" and t: "t\<lparr>trace := h\<rparr> = s\<lparr>trace := es @ trace s\<rparr>"
    unfolding after_reads_def by blast
  from t have h: "h = es @ trace s"
    by (metis mach.select_convs(2) mach.surjective mach.update_convs(2))
  from t have "t\<lparr>trace := h\<rparr>\<lparr>trace := Rd a v # h\<rparr> = s\<lparr>trace := es @ trace s\<rparr>\<lparr>trace := Rd a v # h\<rparr>"
    by (rule arg_cong)
  with es h show ?thesis
    unfolding after_reads_def by (intro exI [of _ "Rd a v # es"]) (simp add: reads_only_def)
qed

lemma after_reads_trace: "after_reads s t \<Longrightarrow> \<exists>es. trace t = es @ trace s"
  by (auto simp: after_reads_def)

lemma writes_to_after_reads: "reads_only es \<Longrightarrow> writes_to a (es @ h) = writes_to a h"
  by (induction es) (auto simp: reads_only_def)

lemma last_wr_after_reads: "reads_only es \<Longrightarrow> last_wr a (es @ h) = last_wr a h"
  by (induction es) (auto simp: reads_only_def)

locale ready_check =
  fixes check :: "bool io" and seen :: "event list \<Rightarrow> bool"
  assumes check_spec: "wp check (\<lambda>b t. after_reads s t \<and> (b \<longrightarrow> seen (trace t))) H s"
    and check_total: "ends check"
begin

lemma check_answers: "\<exists>b t. check s = Some (Val b t) \<and> after_reads s t \<and> (b \<longrightarrow> seen (trace t))"
  by (rule wp_returns [OF check_total check_spec])

lemma wp_guarded:
  assumes "\<And>t. after_reads s t \<Longrightarrow> seen (trace t) \<Longrightarrow> wp (yes :: 'a io) Q H t"
    and "\<And>t. after_reads s t \<Longrightarrow> wp no Q H t"
  shows "wp (bind_io check (\<lambda>b. if b then yes else no)) Q H s"
  unfolding wp_bind by (rule wp_mono [OF check_spec]) (use assms in auto)

end

lemma wp_is_ready:
  "wp is_fpgamgr_fpga_ready (\<lambda>b t. after_reads s t \<and> (b \<longrightarrow> seen_ready (trace t))) H s"
  unfolding is_fpgamgr_fpga_ready_def wp_bind
  by (intro wp_initdone_all)
    (auto simp: wp_ret wp_bind usermode_def intro!: after_reads_Rd wp_initdone_all wp_get_mode_all)

lemma wp_poll_ready:
  "wp poll_fpgamgr_fpga_ready (\<lambda>b t. after_reads s t \<and> (b \<longrightarrow> seen_initdone (trace t))) H s"
  unfolding poll_fpgamgr_fpga_ready_def wp_bind wp_ret fpga_ready_probe_def
  by (rule wp_attempt [where I = "after_reads s"])
    (auto simp: wp_ret wp_bind intro!: after_reads_Rd wp_initdone_all)

interpretation single_shot: ready_check is_fpgamgr_fpga_ready seen_ready
  by unfold_locales (simp_all add: wp_is_ready)

interpretation polled: ready_check poll_fpgamgr_fpga_ready seen_initdone
  by unfold_locales (simp_all add: wp_poll_ready)

end
