(* ===== verification/ResetManager.thy ===== *)
theory ResetManager imports FpgaStatus begin

text \<open>
  reset_manager.c: the module resets of the HPS and the release of the HPS-FPGA bridges.
  The reset registers are the memory-mapped \<open>struct socfpga_reset_manager\<close>.
\<close>

section \<open>Operations\<close>

definition watchdog_disable :: "unit io" where
  "watchdog_disable = seqs [
     setbits_le32 rstmgr_per_mod_reset (shl 1 RSTMGR_PERMODRST_L4WD0_LSB),
     clrbits_le32 rstmgr_per_mod_reset (shl 1 RSTMGR_PERMODRST_L4WD0_LSB)]"

definition is_wdt_in_reset :: "u32 io" where
  "is_wdt_in_reset = bind_io (readl rstmgr_per_mod_reset)
     (\<lambda>val. ret (shr val RSTMGR_PERMODRST_L4WD0_LSB AND 0x1))"

definition reset_cpu :: "u32 \<Rightarrow> unit io" where
  "reset_cpu addr = seq_io (writel (shl 1 RSTMGR_CTRL_SWWARMRSTREQ_LSB) rstmgr_ctrl) halt_io"

definition reset_deassert_all_peripherals :: "unit io" where
  "reset_deassert_all_peripherals = writel 0x0 rstmgr_per_mod_reset"

definition reset_deassert_all_bridges :: "unit io" where
  "reset_deassert_all_bridges =
     bind_io poll_fpgamgr_fpga_ready (\<lambda>ready. if ready then seqs [
       writel 0 rstmgr_brg_mod_reset,
       writel (L3REGS_REMAP_LWHPS2FPGA_MASK OR L3REGS_REMAP_HPS2FPGA_MASK OR
         L3REGS_REMAP_OCRAM_MASK) SOCFPGA_L3REGS_ADDRESS]
     else halt_io)"

definition reset_deassert_cpu1 :: "unit io" where
  "reset_deassert_cpu1 = writel 0 rstmgr_mpu_mod_reset"

definition reset_deassert_osc1timer0 :: "unit io" where
  "reset_deassert_osc1timer0 =
     clrbits_le32 rstmgr_per_mod_reset (shl 1 RSTMGR_PERMODRST_OSC1TIMER0_LSB)"

definition reset_deassert_osc1wd0 :: "unit io" where
  "reset_deassert_osc1wd0 =
     clrbits_le32 rstmgr_per_mod_reset (shl 1 RSTMGR_PERMODRST_L4WD0_LSB)"

definition reset_assert_all_peripherals :: "unit io" where
  "reset_assert_all_peripherals = writel (NOT 0) rstmgr_per_mod_reset"

definition reset_assert_all_bridges :: "unit io" where
  "reset_assert_all_bridges = writel (NOT 0) rstmgr_brg_mod_reset"

definition reset_assert_all_peripherals_except_l4wd0 :: "unit io" where
  "reset_assert_all_peripherals_except_l4wd0 =
     writel (NOT (shl 1 RSTMGR_PERMODRST_L4WD0_LSB)) rstmgr_per_mod_reset"

text \<open>The two values \<open>reset_deassert_peripherals_handoff\<close> ORs together from the handoff.\<close>

definition permodrst_handoff :: u32 where
  "permodrst_handoff = foldl (OR) 0 [
     RSTMGR_PERMODRST_EMAC0_SET CONFIG_HPS_RESET_ASSERT_EMAC0,
     RSTMGR_PERMODRST_EMAC1_SET CONFIG_HPS_RESET_ASSERT_EMAC1,
     RSTMGR_PERMODRST_USB0_SET CONFIG_HPS_RESET_ASSERT_USB0,
     RSTMGR_PERMODRST_USB1_SET CONFIG_HPS_RESET_ASSERT_USB1,
     RSTMGR_PERMODRST_NAND_SET CONFIG_HPS_RESET_ASSERT_NAND,
     RSTMGR_PERMODRST_QSPI_SET CONFIG_HPS_RESET_ASSERT_QSPI,
     RSTMGR_PERMODRST_L4WD1_SET CONFIG_HPS_RESET_ASSERT_L4WD1,
     RSTMGR_PERMODRST_OSC1TIMER1_SET CONFIG_HPS_RESET_ASSERT_OSC1TIMER1,
     RSTMGR_PERMODRST_SPTIMER0_SET CONFIG_HPS_RESET_ASSERT_SPTIMER0,
     RSTMGR_PERMODRST_SPTIMER1_SET CONFIG_HPS_RESET_ASSERT_SPTIMER1,
     RSTMGR_PERMODRST_I2C0_SET CONFIG_HPS_RESET_ASSERT_I2C0,
     RSTMGR_PERMODRST_I2C1_SET CONFIG_HPS_RESET_ASSERT_I2C1,
     RSTMGR_PERMODRST_I2C2_SET CONFIG_HPS_RESET_ASSERT_I2C2,
     RSTMGR_PERMODRST_I2C3_SET CONFIG_HPS_RESET_ASSERT_I2C3,
     RSTMGR_PERMODRST_UART0_SET CONFIG_HPS_RESET_ASSERT_UART0,
     RSTMGR_PERMODRST_UART1_SET CONFIG_HPS_RESET_ASSERT_UART1,
     RSTMGR_PERMODRST_SPIM0_SET CONFIG_HPS_RESET_ASSERT_SPIM0,
     RSTMGR_PERMODRST_SPIM1_SET CONFIG_HPS_RESET_ASSERT_SPIM1,
     RSTMGR_PERMODRST_SPIS0_SET CONFIG_HPS_RESET_ASSERT_SPIS0,
     RSTMGR_PERMODRST_SPIS1_SET CONFIG_HPS_RESET_ASSERT_SPIS1,
     RSTMGR_PERMODRST_SDMMC_SET CONFIG_HPS_RESET_ASSERT_SDMMC,
     RSTMGR_PERMODRST_CAN0_SET CONFIG_HPS_RESET_ASSERT_CAN0,
     RSTMGR_PERMODRST_CAN1_SET CONFIG_HPS_RESET_ASSERT_CAN1,
     RSTMGR_PERMODRST_GPIO0_SET CONFIG_HPS_RESET_ASSERT_GPIO0,
     RSTMGR_PERMODRST_GPIO1_SET CONFIG_HPS_RESET_ASSERT_GPIO1,
     RSTMGR_PERMODRST_GPIO2_SET CONFIG_HPS_RESET_ASSERT_GPIO2,
     RSTMGR_PERMODRST_DMA_SET CONFIG_HPS_RESET_ASSERT_DMA,
     RSTMGR_PERMODRST_SDR_SET CONFIG_HPS_RESET_ASSERT_SDR]"

definition per2modrst_handoff :: u32 where
  "per2modrst_handoff = foldl (OR) 0 [
     RSTMGR_PER2MODRST_DMAIF0_SET CONFIG_HPS_RESET_ASSERT_FPGA_DMA0,
     RSTMGR_PER2MODRST_DMAIF1_SET CONFIG_HPS_RESET_ASSERT_FPGA_DMA1,
     RSTMGR_PER2MODRST_DMAIF2_SET CONFIG_HPS_RESET_ASSERT_FPGA_DMA2,
     RSTMGR_PER2MODRST_DMAIF3_SET CONFIG_HPS_RESET_ASSERT_FPGA_DMA3,
     RSTMGR_PER2MODRST_DMAIF4_SET CONFIG_HPS_RESET_ASSERT_FPGA_DMA4,
     RSTMGR_PER2MODRST_DMAIF5_SET CONFIG_HPS_RESET_ASSERT_FPGA_DMA5,
     RSTMGR_PER2MODRST_DMAIF6_SET CONFIG_HPS_RESET_ASSERT_FPGA_DMA6,
     RSTMGR_PER2MODRST_DMAIF7_SET CONFIG_HPS_RESET_ASSERT_FPGA_DMA7]"

text \<open>One arm of \<open>#if (option == 1) setbits ... #else clrbits ...\<close>.\<close>

definition config_bit :: "u32 \<Rightarrow> u32 \<Rightarrow> u32 \<Rightarrow> unit io" where
  "config_bit option a m = (if option = 1 then setbits_le32 a m else clrbits_le32 a m)"

definition reset_deassert_peripherals_handoff :: "unit io" where
  "reset_deassert_peripherals_handoff = seqs [
     writel permodrst_handoff rstmgr_per_mod_reset,
     writel per2modrst_handoff rstmgr_per2_mod_reset,
     config_bit CONFIG_HPS_RESET_WARMRST_HANDSHAKE_FPGA rstmgr_ctrl RSTMGR_CTRL_FPGAHSEN_MASK,
     config_bit CONFIG_HPS_RESET_WARMRST_HANDSHAKE_ETR rstmgr_ctrl RSTMGR_CTRL_ETRSTALLEN_MASK,
     config_bit CONFIG_HPS_RESET_WARMRST_HANDSHAKE_SDRAM rstmgr_ctrl RSTMGR_CTRL_SDRSELFREFEN_MASK]"

text \<open>The bridge values of the handoff, computed by the preprocessor conditionals.\<close>

definition brgmodrst_handoff :: u32 where
  "brgmodrst_handoff =
     (if CONFIG_HPS_RESET_ASSERT_HPS2FPGA = 1 then RSTMGR_BRGMODRST_HPS2FPGA_MASK else 0) OR
     (if CONFIG_HPS_RESET_ASSERT_LWHPS2FPGA = 1 then RSTMGR_BRGMODRST_LWHPS2FPGA_MASK else 0) OR
     (if CONFIG_HPS_RESET_ASSERT_FPGA2HPS = 1 then RSTMGR_BRGMODRST_FPGA2HPS_MASK else 0)"

definition remap_handoff :: u32 where
  "remap_handoff = L3REGS_REMAP_OCRAM_MASK OR
     (if CONFIG_HPS_RESET_ASSERT_HPS2FPGA = 1 then 0 else L3REGS_REMAP_HPS2FPGA_MASK) OR
     (if CONFIG_HPS_RESET_ASSERT_LWHPS2FPGA = 1 then 0 else L3REGS_REMAP_LWHPS2FPGA_MASK)"

definition reset_deassert_bridges_handoff :: "unit io" where
  "reset_deassert_bridges_handoff = seqs [
     writel brgmodrst_handoff ISWGRP_HANDOFF_AXIBRIDGE,
     writel remap_handoff ISWGRP_HANDOFF_L3REMAP,
     bind_io is_fpgamgr_fpga_ready (\<lambda>ready. if ready then seqs [
       writel brgmodrst_handoff rstmgr_brg_mod_reset,
       writel remap_handoff SOCFPGA_L3REGS_ADDRESS] else ret ())]"

definition emac0_reset_enable :: "u32 \<Rightarrow> unit io" where
  "emac0_reset_enable state =
     (if state \<noteq> 0 then setbits_le32 rstmgr_per_mod_reset (shl 1 RSTMGR_PERMODRST_EMAC0_LSB)
      else clrbits_le32 rstmgr_per_mod_reset (shl 1 RSTMGR_PERMODRST_EMAC0_LSB))"

definition emac1_reset_enable :: "u32 \<Rightarrow> unit io" where
  "emac1_reset_enable state =
     (if state \<noteq> 0 then setbits_le32 rstmgr_per_mod_reset (shl 1 RSTMGR_PERMODRST_EMAC1_LSB)
      else clrbits_le32 rstmgr_per_mod_reset (shl 1 RSTMGR_PERMODRST_EMAC1_LSB))"

section \<open>The bridges\<close>

text \<open>
  C21: Handoff release of the bridges, on every hardware: the function returns; it records
  the two values in the handoff registers; then it only reads, and it writes the bridge
  reset register and the NIC-301 remap register only when those reads showed INIT_DONE
  high twice and the FPGA in user mode.
\<close>

theorem bridges_handoff_only_when_ready:
  "\<exists>es t. reset_deassert_bridges_handoff s = Some (Val () t) \<and> reads_only es \<and>
    (let h = es @ [Wr ISWGRP_HANDOFF_L3REMAP remap_handoff,
                   Wr ISWGRP_HANDOFF_AXIBRIDGE brgmodrst_handoff] @ trace s
     in trace t = h \<or>
        (seen_ready h \<and>
         trace t = [Wr SOCFPGA_L3REGS_ADDRESS remap_handoff,
                    Wr rstmgr_brg_mod_reset brgmodrst_handoff] @ h))"
proof -
  define s1 where "s1 = s\<lparr>trace := [Wr ISWGRP_HANDOFF_L3REMAP remap_handoff,
    Wr ISWGRP_HANDOFF_AXIBRIDGE brgmodrst_handoff] @ trace s\<rparr>"
  obtain b t where t: "is_fpgamgr_fpga_ready s1 = Some (Val b t)" "after_reads s1 t"
    and b: "b \<longrightarrow> seen_ready (trace t)"
    using single_shot.check_answers by blast
  then obtain es where es: "reads_only es" "t = s1\<lparr>trace := es @ trace s1\<rparr>"
    unfolding after_reads_def by blast
  have run: "reset_deassert_bridges_handoff s =
      (if b then Some (Val () (t\<lparr>trace := [Wr SOCFPGA_L3REGS_ADDRESS remap_handoff,
          Wr rstmgr_brg_mod_reset brgmodrst_handoff] @ trace t\<rparr>)) else Some (Val () t))"
    using t(1) unfolding s1_def
    by (simp add: reset_deassert_bridges_handoff_def seq_io_def bind_io_def writel_def ret_def)
  show ?thesis
    using run es b by (intro exI [of _ es]) (auto simp: s1_def Let_def)
qed

text \<open>
  Release of all bridges, on every hardware: either INIT_DONE was seen high twice in a
  row and the bridges are released and then mapped, or the code waits for the watchdog
  without having written any register.
\<close>

theorem all_bridges_only_when_ready:
  "(\<exists>es t. reset_deassert_all_bridges s = Some (Val () t) \<and> reads_only es \<and>
      seen_initdone (es @ trace s) \<and>
      trace t = [Wr SOCFPGA_L3REGS_ADDRESS 0x19, Wr rstmgr_brg_mod_reset 0] @ es @ trace s) \<or>
   (\<exists>es t. reset_deassert_all_bridges s = Some (Halt t) \<and> reads_only es \<and>
      trace t = es @ trace s)"
proof -
  obtain b t where t: "poll_fpgamgr_fpga_ready s = Some (Val b t)" "after_reads s t"
    and b: "b \<longrightarrow> seen_initdone (trace t)"
    using polled.check_answers by blast
  then obtain es where "reads_only es" "t = s\<lparr>trace := es @ trace s\<rparr>"
    unfolding after_reads_def by blast
  with t(1) b show ?thesis
    by (cases b) (auto simp: reset_deassert_all_bridges_def seq_io_def bind_io_def writel_def
      ret_def halt_io_def L3REGS_REMAP_LWHPS2FPGA_MASK_def L3REGS_REMAP_HPS2FPGA_MASK_def
      L3REGS_REMAP_OCRAM_MASK_def)
qed

section \<open>The peripherals\<close>

text \<open>The handoff flags by their bit in \<open>permodrst\<close>; 0 for the bits the handoff never asserts.\<close>

definition permodrst_flags :: "u32 list" where
  "permodrst_flags = [
     CONFIG_HPS_RESET_ASSERT_EMAC0, CONFIG_HPS_RESET_ASSERT_EMAC1,
     CONFIG_HPS_RESET_ASSERT_USB0, CONFIG_HPS_RESET_ASSERT_USB1,
     CONFIG_HPS_RESET_ASSERT_NAND, CONFIG_HPS_RESET_ASSERT_QSPI, 0,
     CONFIG_HPS_RESET_ASSERT_L4WD1, 0, CONFIG_HPS_RESET_ASSERT_OSC1TIMER1,
     CONFIG_HPS_RESET_ASSERT_SPTIMER0, CONFIG_HPS_RESET_ASSERT_SPTIMER1,
     CONFIG_HPS_RESET_ASSERT_I2C0, CONFIG_HPS_RESET_ASSERT_I2C1,
     CONFIG_HPS_RESET_ASSERT_I2C2, CONFIG_HPS_RESET_ASSERT_I2C3,
     CONFIG_HPS_RESET_ASSERT_UART0, CONFIG_HPS_RESET_ASSERT_UART1,
     CONFIG_HPS_RESET_ASSERT_SPIM0, CONFIG_HPS_RESET_ASSERT_SPIM1,
     CONFIG_HPS_RESET_ASSERT_SPIS0, CONFIG_HPS_RESET_ASSERT_SPIS1,
     CONFIG_HPS_RESET_ASSERT_SDMMC, CONFIG_HPS_RESET_ASSERT_CAN0,
     CONFIG_HPS_RESET_ASSERT_CAN1, CONFIG_HPS_RESET_ASSERT_GPIO0,
     CONFIG_HPS_RESET_ASSERT_GPIO1, CONFIG_HPS_RESET_ASSERT_GPIO2,
     CONFIG_HPS_RESET_ASSERT_DMA, CONFIG_HPS_RESET_ASSERT_SDR, 0, 0]"

lemma permodrst_handoff_bits: "map (bit permodrst_handoff) [0..<32] = map (\<lambda>f. f = 1) permodrst_flags"
  by (simp add: permodrst_handoff_def permodrst_flags_def reg_defs upt_rec bit_simps)

lemma runs_config_bit:
  "runs (config_bit option a m) Q s =
    Q () (s\<lparr>trace := Wr a (if option = 1 then env s (trace s) a OR m else env s (trace s) a AND NOT m)
      # Rd a (env s (trace s) a) # trace s\<rparr>)"
  by (simp add: config_bit_def runs_setbits runs_clrbits)

text \<open>
  The reset registers after the handoff release, for hardware whose three registers
  store what is written: a module of \<open>permodrst\<close> is in reset exactly when its handoff flag
  is 1 (watchdog 0 and OSC1 timer 0 are running), all eight FPGA DMA interfaces stay in
  reset, and of the warm-reset control register only the three handshake bits change.
\<close>

theorem peripherals_handoff_registers:
  assumes "rw_registers (env s) {rstmgr_per_mod_reset, rstmgr_per2_mod_reset, rstmgr_ctrl}"
  shows "runs reset_deassert_peripherals_handoff (\<lambda>_ t.
      map (bit (env t (trace t) rstmgr_per_mod_reset)) [0..<32] = map (\<lambda>f. f = 1) permodrst_flags \<and>
      env t (trace t) rstmgr_per2_mod_reset = 0xff \<and>
      env t (trace t) rstmgr_ctrl = (env s (trace s) rstmgr_ctrl OR 0x110000) AND NOT 0x10) s"
  using rw_registers.hw_simps [OF assms]
  by (simp add: reset_deassert_peripherals_handoff_def runs_rules runs_config_bit
    permodrst_handoff_bits per2modrst_handoff_def reg_defs or.assoc)

theorem peripherals_handoff_registers_witness:
  "runs reset_deassert_peripherals_handoff (\<lambda>_ t. env t (trace t) rstmgr_ctrl = 0x110000)
    (storage_machine (\<lambda>_. 0x10))"
  by (rule runs_mono [OF peripherals_handoff_registers]) (simp_all add: storage_on)

end
