(* ===== verification/FpgaManager.thy ===== *)
theory FpgaManager imports ResetManager begin

text \<open>
  fpga_manager.c: programming the FPGA through the FPGA manager. The bitstream
  \<open>rbf_data\<close> is the memory it points to, indexed by word. Return values are C \<open>int\<close>s.
\<close>

section \<open>Operations\<close>

definition fpgamgr_set_cd_ratio :: "u32 \<Rightarrow> unit io" where
  "fpgamgr_set_cd_ratio ratio = bind_io (readl fpgamgr_ctrl) (\<lambda>reg.
     writel ((reg AND NOT (shl 0x3 FPGAMGRREGS_CTRL_CDRATIO_LSB)) OR
       shl (ratio AND 0x3) FPGAMGRREGS_CTRL_CDRATIO_LSB) fpgamgr_ctrl)"

definition dclkcnt_probe :: "unit option io" where
  "dclkcnt_probe = bind_io (readl fpgamgr_dclkstat) (\<lambda>v.
     if v \<noteq> 0 then seq_io (writel 0x1 fpgamgr_dclkstat) (ret (Some ())) else ret None)"

definition fpgamgr_dclkcnt_set :: "u32 \<Rightarrow> int io" where
  "fpgamgr_dclkcnt_set cnt = bind_io (readl fpgamgr_dclkstat) (\<lambda>v.
     seq_io (when_io (v \<noteq> 0) (writel 0x1 fpgamgr_dclkstat))
     (seq_io (writel cnt fpgamgr_dclkcnt)
     (bind_io (attempt (unat FPGA_TIMEOUT_CNT) dclkcnt_probe) (\<lambda>r.
     ret (case r of Some _ \<Rightarrow> 0 | None \<Rightarrow> - 1)))))"

text \<open>The body of \<open>for (...) if (fpgamgr_get_mode() == m) break;\<close>\<close>

definition mode_probe :: "u32 \<Rightarrow> unit option io" where
  "mode_probe m = bind_io fpgamgr_get_mode (\<lambda>v. ret (if v = m then Some () else None))"

text \<open>The CD ratio by MSEL; the two reserved encodings leave the register alone.\<close>

definition set_cd_ratio_by_msel :: "u32 \<Rightarrow> unit io" where
  "set_cd_ratio_by_msel reg =
     (if reg AND 0xb = 0x8 then fpgamgr_set_cd_ratio CDRATIO_x1
      else if reg AND 0xb = 0x9 then fpgamgr_set_cd_ratio CDRATIO_x4
      else if reg AND 0xb = 0xa then fpgamgr_set_cd_ratio CDRATIO_x8
      else if reg AND 0xb = 0x0 then fpgamgr_set_cd_ratio CDRATIO_x1
      else if reg AND 0xb = 0x1 then fpgamgr_set_cd_ratio CDRATIO_x2
      else if reg AND 0xb = 0x2 then fpgamgr_set_cd_ratio CDRATIO_x4
      else ret ())"

definition fpgamgr_program_init :: "int io" where
  "fpgamgr_program_init =
     bind_io (readl fpgamgr_stat) (\<lambda>stat.
     let reg = shr (stat AND FPGAMGRREGS_STAT_MSEL_MASK) FPGAMGRREGS_STAT_MSEL_LSB in
     seq_io (if reg AND 0x8 \<noteq> 0
       then setbits_le32 fpgamgr_ctrl FPGAMGRREGS_CTRL_CFGWDTH_MASK
       else clrbits_le32 fpgamgr_ctrl FPGAMGRREGS_CTRL_CFGWDTH_MASK)
     (seq_io (set_cd_ratio_by_msel reg)
     (seq_io (clrbits_le32 fpgamgr_ctrl FPGAMGRREGS_CTRL_NCE_MASK)
     (seq_io (setbits_le32 fpgamgr_ctrl FPGAMGRREGS_CTRL_EN_MASK)
     (seq_io (setbits_le32 fpgamgr_ctrl FPGAMGRREGS_CTRL_NCONFIGPULL_MASK)
     (seq_io (attempt (unat FPGA_TIMEOUT_CNT) (mode_probe FPGAMGRREGS_MODE_RESETPHASE))
     (bind_io fpgamgr_get_mode (\<lambda>mode.
      if mode \<noteq> FPGAMGRREGS_MODE_RESETPHASE then ret (- 1) else
     seq_io (clrbits_le32 fpgamgr_ctrl FPGAMGRREGS_CTRL_NCONFIGPULL_MASK)
     (seq_io (attempt (unat FPGA_TIMEOUT_CNT) (mode_probe FPGAMGRREGS_MODE_CFGPHASE))
     (bind_io fpgamgr_get_mode (\<lambda>mode.
      if mode \<noteq> FPGAMGRREGS_MODE_CFGPHASE then ret (- 2) else
     seq_io (writel 0xFFF (SOCFPGA_FPGAMGRREGS_ADDRESS + FPGAMGRREGS_MON_GPIO_PORTA_EOI_ADDRESS))
     (seq_io (setbits_le32 fpgamgr_ctrl FPGAMGRREGS_CTRL_AXICFGEN_MASK)
     (ret 0)))))))))))))"

text \<open>
  \<open>for (i = 0; i < rbf_size; i = i + 4)\<close> with a 32-bit \<open>i\<close>: it wraps for sizes above
  0xFFFFFFFC.
\<close>

partial_function (option) program_write_from ::
    "(u32 \<Rightarrow> u32) \<Rightarrow> u32 \<Rightarrow> u32 \<Rightarrow> mach \<Rightarrow> unit res option" where
  "program_write_from rbf_data rbf_size i s =
     (if i < rbf_size then
        bind_io (writel (rbf_data (i div 4)) SOCFPGA_FPGAMGRDATA_ADDRESS) (\<lambda>_.
        bind_io (readl (SOCFPGA_FPGAMGRREGS_ADDRESS + FPGAMGRREGS_MON_GPIO_EXT_PORTA_ADDRESS)) (\<lambda>_.
        program_write_from rbf_data rbf_size (i + 4))) s
      else ret () s)"

definition fpgamgr_program_write :: "(u32 \<Rightarrow> u32) \<Rightarrow> u32 \<Rightarrow> unit io" where
  "fpgamgr_program_write rbf_data rbf_size = program_write_from rbf_data rbf_size 0"

definition cd_probe :: "int option io" where
  "cd_probe = bind_io
     (readl (SOCFPGA_FPGAMGRREGS_ADDRESS + FPGAMGRREGS_MON_GPIO_EXT_PORTA_ADDRESS)) (\<lambda>reg. ret
     (if reg AND FPGAMGRREGS_MON_GPIO_EXT_PORTA_NS_MASK = 0 \<and>
         reg AND FPGAMGRREGS_MON_GPIO_EXT_PORTA_CD_MASK = 0 then Some (- 3)
      else if reg AND FPGAMGRREGS_MON_GPIO_EXT_PORTA_NS_MASK \<noteq> 0 \<and>
         reg AND FPGAMGRREGS_MON_GPIO_EXT_PORTA_CD_MASK \<noteq> 0 then Some 0
      else None))"

definition fpgamgr_program_poll_cd :: "int io" where
  "fpgamgr_program_poll_cd = bind_io (attempt (unat FPGA_TIMEOUT_CNT) cd_probe) (\<lambda>r.
     case r of
       None \<Rightarrow> ret (- 4)
     | Some e \<Rightarrow> if e \<noteq> 0 then ret e else
         seq_io (clrbits_le32 fpgamgr_ctrl FPGAMGRREGS_CTRL_AXICFGEN_MASK) (ret 0))"

definition initphase_probe :: "unit option io" where
  "initphase_probe = bind_io fpgamgr_get_mode (\<lambda>v.
     if v = FPGAMGRREGS_MODE_INITPHASE then ret (Some ()) else mode_probe FPGAMGRREGS_MODE_USERMODE)"

definition fpgamgr_program_poll_initphase :: "int io" where
  "fpgamgr_program_poll_initphase = bind_io (fpgamgr_dclkcnt_set 0x4) (\<lambda>e.
     if e \<noteq> 0 then ret (- 5) else
     bind_io (attempt (unat FPGA_TIMEOUT_CNT) initphase_probe) (\<lambda>r.
     ret (case r of None \<Rightarrow> - 6 | Some _ \<Rightarrow> 0)))"

definition fpgamgr_program_poll_usermode :: "int io" where
  "fpgamgr_program_poll_usermode = bind_io (fpgamgr_dclkcnt_set 0x5000) (\<lambda>e.
     if e \<noteq> 0 then ret (- 7) else
     bind_io (attempt (unat FPGA_TIMEOUT_CNT) (mode_probe FPGAMGRREGS_MODE_USERMODE)) (\<lambda>r.
     case r of
       None \<Rightarrow> ret (- 8)
     | Some _ \<Rightarrow> seq_io (clrbits_le32 fpgamgr_ctrl FPGAMGRREGS_CTRL_EN_MASK) (ret 0)))"

definition fpgamgr_program_fpga :: "(u32 \<Rightarrow> u32) \<Rightarrow> u32 \<Rightarrow> int io" where
  "fpgamgr_program_fpga rbf_data rbf_size =
     seq_io (writel 0 SYSMGR_FPGAINTF_MODULE)
     (seq_io (writel 0 (SOCFPGA_SDR_ADDRESS + SDR_CTRLGRP_FPGAPORTRST_ADDRESS))
     (seq_io reset_assert_all_bridges
     (seq_io (writel 0x1 SOCFPGA_L3REGS_ADDRESS)
     (bind_io fpgamgr_program_init (\<lambda>status. if status \<noteq> 0 then ret status else
     seq_io (fpgamgr_program_write rbf_data rbf_size)
     (bind_io fpgamgr_program_poll_cd (\<lambda>status. if status \<noteq> 0 then ret status else
     bind_io fpgamgr_program_poll_initphase (\<lambda>status. if status \<noteq> 0 then ret status else
     fpgamgr_program_poll_usermode))))))))"

section \<open>All operations return\<close>

lemma ends_set_cd_ratio [simp]: "ends (fpgamgr_set_cd_ratio r)"
  by (simp add: fpgamgr_set_cd_ratio_def total_bind)

lemma ends_by_msel [simp]: "ends (set_cd_ratio_by_msel r)"
  by (simp add: set_cd_ratio_by_msel_def)

lemma ends_mode_probe [simp]: "ends (mode_probe m)"
  by (simp add: mode_probe_def total_bind)

lemma ends_dclkcnt_set [simp]: "ends (fpgamgr_dclkcnt_set c)"
  by (auto simp: fpgamgr_dclkcnt_set_def dclkcnt_probe_def intro!: total_intros)

lemma ends_program_init [simp]: "ends fpgamgr_program_init"
  by (auto simp: fpgamgr_program_init_def Let_def intro!: total_intros)

lemma ends_poll_cd [simp]: "ends fpgamgr_program_poll_cd"
  by (auto simp: fpgamgr_program_poll_cd_def cd_probe_def intro!: total_intros split: option.splits)

lemma ends_poll_initphase [simp]: "ends fpgamgr_program_poll_initphase"
  by (auto simp: fpgamgr_program_poll_initphase_def initphase_probe_def intro!: total_intros)

lemma ends_poll_usermode [simp]: "ends fpgamgr_program_poll_usermode"
  by (auto simp: fpgamgr_program_poll_usermode_def intro!: total_intros split: option.splits)

section \<open>When configuration data may be sent\<close>

text \<open>The four writes that shut the FPGA off from the HPS are in force.\<close>

definition quiesced :: "event list \<Rightarrow> bool" where
  "quiesced h \<longleftrightarrow> last_wr SYSMGR_FPGAINTF_MODULE h = Some 0 \<and>
     last_wr (SOCFPGA_SDR_ADDRESS + SDR_CTRLGRP_FPGAPORTRST_ADDRESS) h = Some 0 \<and>
     last_wr rstmgr_brg_mod_reset h = Some (NOT 0) \<and>
     last_wr SOCFPGA_L3REGS_ADDRESS h = Some 1"

text \<open>... the FPGA was last seen in the configuration phase and the AXI path was enabled.\<close>

definition mode_seen :: "event list \<Rightarrow> u32 option" where
  "mode_seen h = map_option (\<lambda>v. v AND FPGAMGRREGS_STAT_MODE_MASK) (last_rd fpgamgr_stat h)"

definition axi_enabled :: "event list \<Rightarrow> bool" where
  "axi_enabled h \<longleftrightarrow> (case last_wr fpgamgr_ctrl h of
     Some c \<Rightarrow> c AND FPGAMGRREGS_CTRL_AXICFGEN_MASK \<noteq> 0 | None \<Rightarrow> False)"

definition ready_for_data :: "event list \<Rightarrow> bool" where
  "ready_for_data h \<longleftrightarrow> mode_seen h = Some FPGAMGRREGS_MODE_CFGPHASE \<and> axi_enabled h"

primrec data_safe :: "event list \<Rightarrow> bool" where
  "data_safe [] = True"
| "data_safe (e # h) \<longleftrightarrow> data_safe h \<and> (case e of
      Wr a v \<Rightarrow> a = SOCFPGA_FPGAMGRDATA_ADDRESS \<longrightarrow> quiesced h \<and> ready_for_data h
    | Rd a v \<Rightarrow> True
    | Msg f xs \<Rightarrow> True)"

text \<open>The invariant of the programming sequence: shut off, safe so far, \<open>D\<close> sent so far.\<close>

definition prog_inv :: "u32 list \<Rightarrow> event list \<Rightarrow> bool" where
  "prog_inv D h \<longleftrightarrow> quiesced h \<and> data_safe h \<and> writes_to SOCFPGA_FPGAMGRDATA_ADDRESS h = D"

definition eoi_addr :: u32 where [reg_defs]:
  "eoi_addr = SOCFPGA_FPGAMGRREGS_ADDRESS + FPGAMGRREGS_MON_GPIO_PORTA_EOI_ADDRESS"

lemma prog_inv_Rd [simp]: "prog_inv D (Rd a v # h) = prog_inv D h"
  by (simp add: prog_inv_def quiesced_def)

lemma prog_inv_Wr [simp]:
  "prog_inv D (Wr fpgamgr_ctrl v # h) = prog_inv D h"
  "prog_inv D (Wr fpgamgr_dclkcnt v # h) = prog_inv D h"
  "prog_inv D (Wr fpgamgr_dclkstat v # h) = prog_inv D h"
  "prog_inv D (Wr eoi_addr v # h) = prog_inv D h"
  by (simp_all add: prog_inv_def quiesced_def reg_defs)

lemma prog_inv_data:
  "prog_inv D h \<Longrightarrow> ready_for_data h \<Longrightarrow> prog_inv (v # D) (Wr SOCFPGA_FPGAMGRDATA_ADDRESS v # h)"
  by (simp add: prog_inv_def quiesced_def reg_defs)

lemma ready_for_data_burst [simp]:
  "ready_for_data (Wr SOCFPGA_FPGAMGRDATA_ADDRESS v # h) = ready_for_data h"
  "ready_for_data (Rd initdone_addr v # h) = ready_for_data h"
  by (simp_all add: ready_for_data_def mode_seen_def axi_enabled_def reg_defs)

lemma mode_seen_simps [simp]:
  "mode_seen (Rd fpgamgr_stat v # h) = Some (v AND FPGAMGRREGS_STAT_MODE_MASK)"
  "mode_seen (Wr a v # h) = mode_seen h"
  "mode_seen (Rd fpgamgr_ctrl v # h) = mode_seen h"
  by (simp_all add: mode_seen_def reg_defs)

text \<open>
  What a status names: the mode last read, the pins last read (the general-purpose port shows
  nSTATUS and CONF_DONE), and the clock count last written with what the counter's status last showed.
\<close>

definition mode_last :: "(u32 \<Rightarrow> bool) \<Rightarrow> event list \<Rightarrow> bool" where
  "mode_last P h = (case mode_seen h of Some m \<Rightarrow> P m | None \<Rightarrow> False)"

definition pins_last :: "(bool \<Rightarrow> bool \<Rightarrow> bool) \<Rightarrow> event list \<Rightarrow> bool" where
  "pins_last P h = (case last_rd initdone_addr h of
     Some v \<Rightarrow> P (v AND FPGAMGRREGS_MON_GPIO_EXT_PORTA_NS_MASK \<noteq> 0) (v AND FPGAMGRREGS_MON_GPIO_EXT_PORTA_CD_MASK \<noteq> 0)
   | None \<Rightarrow> False)"

definition dclk_last :: "u32 \<Rightarrow> (u32 \<Rightarrow> bool) \<Rightarrow> event list \<Rightarrow> bool" where
  "dclk_last c P h \<longleftrightarrow> last_wr fpgamgr_dclkcnt h = Some c \<and>
     (case last_rd fpgamgr_dclkstat h of Some v \<Rightarrow> P v | None \<Rightarrow> False)"

lemma mode_last_simps [simp]:
  "mode_last P (Rd fpgamgr_stat v # h) = P (v AND FPGAMGRREGS_STAT_MODE_MASK)"
  "mode_last P (Wr a v # h) = mode_last P h"
  "mode_last P (Rd fpgamgr_ctrl v # h) = mode_last P h"
  by (simp_all add: mode_last_def)

lemma pins_last_simps [simp]:
  "pins_last P (Rd initdone_addr v # h) = P (v AND FPGAMGRREGS_MON_GPIO_EXT_PORTA_NS_MASK \<noteq> 0)
     (v AND FPGAMGRREGS_MON_GPIO_EXT_PORTA_CD_MASK \<noteq> 0)"
  "pins_last P (Wr a v # h) = pins_last P h"
  "pins_last P (Rd fpgamgr_ctrl v # h) = pins_last P h"
  "pins_last P (Rd fpgamgr_stat v # h) = pins_last P h"
  "pins_last P (Rd fpgamgr_dclkstat v # h) = pins_last P h"
  by (simp add: pins_last_def, simp_all add: pins_last_def reg_defs)

lemma dclk_last_simps [simp]:
  "dclk_last c P (Rd fpgamgr_dclkstat v # h) \<longleftrightarrow> last_wr fpgamgr_dclkcnt h = Some c \<and> P v"
  "dclk_last c P (Wr fpgamgr_dclkstat v # h) = dclk_last c P h"
  "dclk_last c P (Wr fpgamgr_ctrl v # h) = dclk_last c P h"
  "dclk_last c P (Rd fpgamgr_ctrl v # h) = dclk_last c P h"
  "dclk_last c P (Rd fpgamgr_stat v # h) = dclk_last c P h"
  by (simp_all add: dclk_last_def reg_defs)

lemma dclk_distinct [simp]: "fpgamgr_dclkstat \<noteq> fpgamgr_dclkcnt"
  by (simp add: reg_defs)

text \<open>The observation behind every status \<open>fpgamgr_program_fpga\<close> may return.\<close>

definition status_explained :: "int \<Rightarrow> event list \<Rightarrow> bool" where
  "status_explained r h \<longleftrightarrow>
     (r = - 1 \<and> mode_last (\<lambda>m. m \<noteq> FPGAMGRREGS_MODE_RESETPHASE) h) \<or>
     (r = - 2 \<and> mode_last (\<lambda>m. m \<noteq> FPGAMGRREGS_MODE_CFGPHASE) h) \<or>
     (r = - 3 \<and> pins_last (\<lambda>ns cd. \<not> ns \<and> \<not> cd) h) \<or>
     (r = - 4 \<and> pins_last (\<lambda>ns cd. ns \<noteq> cd) h) \<or>
     (pins_last (\<lambda>ns cd. ns \<and> cd) h \<and>
       (r = - 5 \<and> dclk_last 4 (\<lambda>v. v = 0) h \<or>
        r = - 6 \<and> dclk_last 4 (\<lambda>v. v \<noteq> 0) h \<and> mode_last (\<lambda>m. m \<noteq> FPGAMGRREGS_MODE_USERMODE) h \<or>
        r = - 7 \<and> dclk_last 0x5000 (\<lambda>v. v = 0) h \<or>
        r = - 8 \<and> dclk_last 0x5000 (\<lambda>v. v \<noteq> 0) h \<and> mode_last (\<lambda>m. m \<noteq> FPGAMGRREGS_MODE_USERMODE) h \<or>
        r = 0 \<and> dclk_last 0x5000 (\<lambda>v. v \<noteq> 0) h \<and> mode_last (\<lambda>m. m = FPGAMGRREGS_MODE_USERMODE) h))"

lemma axi_enabled_set [simp]: "axi_enabled (Wr fpgamgr_ctrl (v OR FPGAMGRREGS_CTRL_AXICFGEN_MASK) # h)"
  by (simp add: axi_enabled_def) (simp add: reg_defs)

text \<open>No register access of the driver but a data write touches the invariant.\<close>

lemmas fold_addrs = initdone_addr_def [symmetric] eoi_addr_def [symmetric]

lemma wp_set_cd_ratio:
  "prog_inv D (trace s) \<Longrightarrow> wp (fpgamgr_set_cd_ratio r) (\<lambda>_ t. prog_inv D (trace t)) H s"
  by (simp add: fpgamgr_set_cd_ratio_def wp_rules wp_readl)

lemma wp_by_msel:
  "prog_inv D (trace s) \<Longrightarrow> wp (set_cd_ratio_by_msel r) (\<lambda>_ t. prog_inv D (trace t)) H s"
  by (simp add: set_cd_ratio_by_msel_def wp_set_cd_ratio wp_ret)

lemma wp_mode_probe:
  assumes "\<And>v. Q (if v AND FPGAMGRREGS_STAT_MODE_MASK = m then Some () else None) (s\<lparr>trace := Rd fpgamgr_stat v # trace s\<rparr>)"
  shows "wp (mode_probe m) Q H s"
  unfolding mode_probe_def wp_bind wp_ret by (rule wp_get_mode_all) (rule assms)

text \<open>Waiting: the last attempt tells why the wait has ended, the first \<open>FPGA_TIMEOUT_CNT\<close> having failed or not.\<close>

lemma wp_await:
  assumes "I (trace s)" and "0 < n"
    and "\<And>t. I (trace t) \<Longrightarrow> wp body (\<lambda>r u. I (trace u) \<and> P r (trace u)) H t"
  shows "wp (attempt n body) (\<lambda>r t. I (trace t) \<and> P r (trace t)) H s"
  using assms(1,2)
proof (induction n arbitrary: s)
  case (Suc n)
  have "wp (attempt n body) (\<lambda>r t. I (trace t) \<and> P r (trace t)) H t" if "I (trace t)" "P None (trace t)" for t
    using that Suc.IH [of t] by (cases n) (simp_all add: wp_ret)
  then show ?case
    unfolding attempt.simps wp_bind
    by (intro wp_mono [OF assms(3) [OF Suc.prems(1)]]) (auto simp: wp_ret split: option.splits)
qed simp

lemma timeout_pos: "0 < unat FPGA_TIMEOUT_CNT"
  by (simp add: FPGA_TIMEOUT_CNT_def)

lemma wp_await_mode:
  "prog_inv D (trace s) \<Longrightarrow> wp (attempt (unat FPGA_TIMEOUT_CNT) (mode_probe m)) (\<lambda>_ t. prog_inv D (trace t)) H s"
  by (rule wp_mono [OF wp_await [where I = "prog_inv D" and P = "\<lambda>_ _. True", OF _ timeout_pos]])
    (auto intro: wp_mode_probe)

text \<open>The invariant once the data is sent and the pins have confirmed it.\<close>

definition sent_inv :: "u32 list \<Rightarrow> event list \<Rightarrow> bool" where
  "sent_inv D h \<longleftrightarrow> prog_inv D h \<and> pins_last (\<lambda>ns cd. ns \<and> cd) h"

lemma sent_inv_simps [simp]:
  "sent_inv D (Rd fpgamgr_stat v # h) = sent_inv D h" "sent_inv D (Rd fpgamgr_ctrl v # h) = sent_inv D h"
  "sent_inv D (Rd fpgamgr_dclkstat v # h) = sent_inv D h" "sent_inv D (Wr fpgamgr_ctrl v # h) = sent_inv D h"
  "sent_inv D (Wr fpgamgr_dclkcnt v # h) = sent_inv D h" "sent_inv D (Wr fpgamgr_dclkstat v # h) = sent_inv D h"
  by (simp_all add: sent_inv_def)

lemma wp_dclkcnt_set:
  assumes "sent_inv D (trace s)"
  shows "wp (fpgamgr_dclkcnt_set c) (\<lambda>r t. sent_inv D (trace t) \<and>
    (r = 0 \<and> dclk_last c (\<lambda>v. v \<noteq> 0) (trace t) \<or> r = - 1 \<and> dclk_last c (\<lambda>v. v = 0) (trace t))) H s"
proof -
  let ?I = "\<lambda>h. sent_inv D h \<and> last_wr fpgamgr_dclkcnt h = Some c"
  have probe: "wp dclkcnt_probe (\<lambda>r u. ?I (trace u) \<and> dclk_last c (\<lambda>v. v = 0 \<longleftrightarrow> r = None) (trace u)) H t"
    if "?I (trace t)" for t
    using that by (simp add: dclkcnt_probe_def wp_rules wp_readl)
  have wait: "wp (attempt (unat FPGA_TIMEOUT_CNT) dclkcnt_probe) (\<lambda>r u. ?I (trace u) \<and>
      dclk_last c (\<lambda>v. v = 0 \<longleftrightarrow> r = None) (trace u)) H t" if "?I (trace t)" for t
    by (rule wp_await [where I = ?I, OF that timeout_pos probe])
  have "wp (attempt (unat FPGA_TIMEOUT_CNT) dclkcnt_probe) (\<lambda>r t. sent_inv D (trace t) \<and>
      ((case r of Some _ \<Rightarrow> 0 | None \<Rightarrow> (- 1 :: int)) = 0 \<and> dclk_last c (\<lambda>v. v \<noteq> 0) (trace t) \<or>
       (case r of Some _ \<Rightarrow> 0 | None \<Rightarrow> (- 1 :: int)) = - 1 \<and> dclk_last c (\<lambda>v. v = 0) (trace t))) H t"
    if "?I (trace t)" for t
    by (rule wp_mono [OF wait [OF that]]) (auto split: option.splits)
  with assms show ?thesis
    by (simp add: fpgamgr_dclkcnt_set_def wp_rules wp_readl)
qed

text \<open>The waits of \<open>fpgamgr_program_init\<close>, followed by the rest \<open>k\<close> of the function.\<close>

lemma wp_await_then:
  assumes "prog_inv D (trace s)" and "\<And>u. prog_inv D (trace u) \<Longrightarrow> wp k Q H u"
  shows "wp (seq_io (attempt (unat FPGA_TIMEOUT_CNT) (mode_probe m)) k) Q H s"
  unfolding wp_seq by (rule wp_mono [OF wp_await_mode [OF assms(1)]]) (auto intro: assms(2))

lemma wp_by_msel_then:
  assumes "prog_inv D (trace s)" and "\<And>u. prog_inv D (trace u) \<Longrightarrow> wp k Q H u"
  shows "wp (seq_io (set_cd_ratio_by_msel r) k) Q H s"
  unfolding wp_seq by (rule wp_mono [OF wp_by_msel [OF assms(1)]]) (auto intro: assms(2))

lemma wp_reset_check:
  assumes "prog_inv D (trace s)" and "\<And>t. prog_inv D (trace t) \<Longrightarrow> mode_last (\<lambda>m. m \<noteq> FPGAMGRREGS_MODE_RESETPHASE) (trace t) \<Longrightarrow> Q (- 1) t"
    and "\<And>t. prog_inv D (trace t) \<Longrightarrow> wp k Q H t"
  shows "wp (bind_io fpgamgr_get_mode (\<lambda>mode. if mode \<noteq> FPGAMGRREGS_MODE_RESETPHASE then ret (- 1)
    else seq_io (clrbits_le32 fpgamgr_ctrl m) k)) Q H s"
  unfolding wp_bind
  by (rule wp_get_mode_all) (use assms in \<open>simp add: wp_ret wp_seq wp_clrbits\<close>)

lemma wp_config_check:
  assumes "prog_inv D (trace s)" and "\<And>t. prog_inv D (trace t) \<Longrightarrow> mode_last (\<lambda>m. m \<noteq> FPGAMGRREGS_MODE_CFGPHASE) (trace t) \<Longrightarrow> Q (- 2) t"
    and "\<And>t. prog_inv D (trace t) \<Longrightarrow> ready_for_data (trace t) \<Longrightarrow> Q 0 t"
  shows "wp (bind_io fpgamgr_get_mode (\<lambda>mode. if mode \<noteq> FPGAMGRREGS_MODE_CFGPHASE then ret (- 2)
    else seq_io (writel v (SOCFPGA_FPGAMGRREGS_ADDRESS + FPGAMGRREGS_MON_GPIO_PORTA_EOI_ADDRESS))
      (seq_io (setbits_le32 fpgamgr_ctrl FPGAMGRREGS_CTRL_AXICFGEN_MASK) (ret 0)))) Q H s"
  unfolding wp_bind
  by (rule wp_get_mode_all)
    (use assms in \<open>simp add: wp_rules wp_setbits fold_addrs ready_for_data_def\<close>)

lemma wp_program_init:
  assumes "prog_inv D (trace s)" and "\<And>t. prog_inv D (trace t) \<Longrightarrow> mode_last (\<lambda>m. m \<noteq> FPGAMGRREGS_MODE_RESETPHASE) (trace t) \<Longrightarrow> Q (- 1) t"
    and "\<And>t. prog_inv D (trace t) \<Longrightarrow> mode_last (\<lambda>m. m \<noteq> FPGAMGRREGS_MODE_CFGPHASE) (trace t) \<Longrightarrow> Q (- 2) t"
    and "\<And>t. prog_inv D (trace t) \<Longrightarrow> ready_for_data (trace t) \<Longrightarrow> Q 0 t"
  shows "wp fpgamgr_program_init Q H s"
  unfolding fpgamgr_program_init_def Let_def wp_bind [of "readl fpgamgr_stat"]
    wp_seq [of "if b then _ else _" for b] wp_seq [of "clrbits_le32 _ _"] wp_seq [of "setbits_le32 _ _"]
  by (rule wp_readl_all)
    (use assms in \<open>auto simp: wp_seq [of "if b then _ else _" for b] wp_seq [of "clrbits_le32 a m" for a m]
      wp_seq [of "setbits_le32 a m" for a m] wp_setbits wp_clrbits
      intro!: wp_by_msel_then wp_await_then wp_reset_check wp_config_check\<close>)

section \<open>The data loop\<close>

text \<open>The words a bitstream of \<open>n\<close> bytes consists of, from word \<open>k\<close> on.\<close>

definition rbf_words :: "(u32 \<Rightarrow> u32) \<Rightarrow> u32 \<Rightarrow> nat \<Rightarrow> u32 list" where
  "rbf_words rbf_data rbf_size k = map (\<lambda>j. rbf_data (of_nat j)) [k ..< (unat rbf_size + 3) div 4]"

lemma rbf_words_Cons:
  "4 * k < unat n \<Longrightarrow> rbf_words d n k = d (of_nat k) # rbf_words d n (Suc k)"
  by (simp add: rbf_words_def upt_conv_Cons)

lemma rbf_words_Nil: "unat n \<le> 4 * k \<Longrightarrow> rbf_words d n k = []"
  by (simp add: rbf_words_def)

lemma program_write_from_run:
  assumes "unat n \<le> 0xFFFFFFFC" and "4 * k \<le> unat n + 3"
  shows "\<exists>es. program_write_from d n (of_nat (4 * k)) s = Some (Val () (s\<lparr>trace := es @ trace s\<rparr>)) \<and>
    (\<forall>D h. prog_inv D h \<longrightarrow> ready_for_data h \<longrightarrow> prog_inv (rev (rbf_words d n k) @ D) (es @ h))"
  using assms(2)
proof (induction "unat n - 4 * k" arbitrary: k s rule: less_induct)
  case less
  have k: "4 * k < 2 ^ 32" using less.prems assms(1) by simp
  show ?case
  proof (cases "4 * k < unat n")
    case True
    define v where "v = env s (Wr SOCFPGA_FPGAMGRDATA_ADDRESS (d (of_nat k)) # trace s) initdone_addr"
    define s1 where "s1 = s\<lparr>trace := [Rd initdone_addr v, Wr SOCFPGA_FPGAMGRDATA_ADDRESS (d (of_nat k))] @ trace s\<rparr>"
    have "4 * Suc k \<le> unat n + 3" "unat n - 4 * Suc k < unat n - 4 * k" using True by simp_all
    from less.hyps [OF this(2,1), of s1] obtain es where
      es: "program_write_from d n (of_nat (4 * Suc k)) s1 = Some (Val () (s1\<lparr>trace := es @ trace s1\<rparr>))"
      and inv: "\<And>D h. prog_inv D h \<Longrightarrow> ready_for_data h \<Longrightarrow> prog_inv (rev (rbf_words d n (Suc k)) @ D) (es @ h)"
      by blast
    have "program_write_from d n (of_nat (4 * k)) s = program_write_from d n (of_nat (4 * Suc k)) s1"
      using True k word_index [OF k]
      by (subst program_write_from.simps)
        (simp add: bind_io_def writel_def readl_def Let_def word_less_nat_alt s1_def v_def initdone_addr_def add.commute)
    with es have "program_write_from d n (of_nat (4 * k)) s = Some (Val () (s\<lparr>trace :=
        (es @ [Rd initdone_addr v, Wr SOCFPGA_FPGAMGRDATA_ADDRESS (d (of_nat k))]) @ trace s\<rparr>))"
      by (simp add: s1_def)
    moreover have "prog_inv (rev (rbf_words d n k) @ D)
        ((es @ [Rd initdone_addr v, Wr SOCFPGA_FPGAMGRDATA_ADDRESS (d (of_nat k))]) @ h)"
      if "prog_inv D h" "ready_for_data h" for D h
      using inv [of "d (of_nat k) # D" "Rd initdone_addr v # Wr SOCFPGA_FPGAMGRDATA_ADDRESS (d (of_nat k)) # h"]
        prog_inv_data [OF that] that(2) rbf_words_Cons [OF True] by simp
    ultimately show ?thesis by blast
  next
    case False
    with word_index(2) [OF k] have "program_write_from d n (of_nat (4 * k)) s = Some (Val () s)"
      by (subst program_write_from.simps) (simp add: ret_def word_less_nat_alt)
    with False show ?thesis
      by (intro exI [of _ "[]"]) (simp add: rbf_words_Nil)
  qed
qed

lemma program_write_run:
  assumes "unat n \<le> 0xFFFFFFFC"
  shows "\<exists>es. fpgamgr_program_write d n s = Some (Val () (s\<lparr>trace := es @ trace s\<rparr>)) \<and>
    (\<forall>D h. prog_inv D h \<longrightarrow> ready_for_data h \<longrightarrow> prog_inv (rev (rbf_words d n 0) @ D) (es @ h))"
  using program_write_from_run [OF assms, of 0] by (simp add: fpgamgr_program_write_def)

lemma wp_program_write:
  assumes "unat n \<le> 0xFFFFFFFC" and "prog_inv D (trace s)" and "ready_for_data (trace s)"
    and "\<And>t. prog_inv (rev (rbf_words d n 0) @ D) (trace t) \<Longrightarrow> Q () t"
  shows "wp (fpgamgr_program_write d n) Q H s"
  using program_write_run [OF assms(1), of d s] assms(2-4) by (auto simp: wp_def)

lemma ends_program_write: "unat n \<le> 0xFFFFFFFC \<Longrightarrow> ends (fpgamgr_program_write d n)"
  unfolding ends_def by (metis option.distinct(1) program_write_run)

section \<open>The last three phases\<close>

lemma wp_poll_cd:
  assumes "prog_inv D (trace s)"
    and "\<And>t. prog_inv D (trace t) \<Longrightarrow> pins_last (\<lambda>ns cd. \<not> ns \<and> \<not> cd) (trace t) \<Longrightarrow> Q (- 3) t"
    and "\<And>t. prog_inv D (trace t) \<Longrightarrow> pins_last (\<lambda>ns cd. ns \<noteq> cd) (trace t) \<Longrightarrow> Q (- 4) t"
    and "\<And>t. sent_inv D (trace t) \<Longrightarrow> Q 0 t"
  shows "wp fpgamgr_program_poll_cd Q H s"
proof -
  let ?P = "\<lambda>r. pins_last (\<lambda>ns cd. r = (if \<not> ns \<and> \<not> cd then Some (- 3) else if ns \<and> cd then Some 0 else None))"
  have probe: "wp cd_probe (\<lambda>r u. prog_inv D (trace u) \<and> ?P r (trace u)) H t" if "prog_inv D (trace t)" for t
    using that unfolding cd_probe_def wp_bind fold_addrs by (intro wp_readl_all) (simp add: wp_ret)
  have "wp (attempt (unat FPGA_TIMEOUT_CNT) cd_probe) (\<lambda>r u. prog_inv D (trace u) \<and> ?P r (trace u)) H s"
    by (rule wp_await [where I = "prog_inv D", OF assms(1) timeout_pos probe])
  then show ?thesis
    unfolding fpgamgr_program_poll_cd_def wp_bind
  proof (rule wp_mono, goal_cases)
    case (1 r t)
    then consider "r = Some (- 3)" "pins_last (\<lambda>ns cd. \<not> ns \<and> \<not> cd) (trace t)"
      | "r = Some 0" "pins_last (\<lambda>ns cd. ns \<and> cd) (trace t)" | "r = None" "pins_last (\<lambda>ns cd. ns \<noteq> cd) (trace t)"
      by (auto simp: pins_last_def split: option.splits if_splits)
    then show ?case
      using 1 assms(2-4) by cases (simp_all add: wp_rules wp_clrbits sent_inv_def)
  qed simp
qed

lemma wp_poll_initphase:
  assumes "sent_inv D (trace s)"
    and "\<And>t. sent_inv D (trace t) \<Longrightarrow> dclk_last 4 (\<lambda>v. v = 0) (trace t) \<Longrightarrow> Q (- 5) t"
    and "\<And>t. sent_inv D (trace t) \<Longrightarrow> dclk_last 4 (\<lambda>v. v \<noteq> 0) (trace t) \<Longrightarrow>
      mode_last (\<lambda>m. m \<noteq> FPGAMGRREGS_MODE_USERMODE) (trace t) \<Longrightarrow> Q (- 6) t"
    and "\<And>t. sent_inv D (trace t) \<Longrightarrow> Q 0 t"
  shows "wp fpgamgr_program_poll_initphase Q H s"
proof -
  let ?I = "\<lambda>h. sent_inv D h \<and> dclk_last 4 (\<lambda>v. v \<noteq> 0) h"
  let ?P = "\<lambda>r h. r = None \<longrightarrow> mode_last (\<lambda>m. m \<noteq> FPGAMGRREGS_MODE_USERMODE) h"
  have probe: "wp initphase_probe (\<lambda>r u. ?I (trace u) \<and> ?P r (trace u)) H t" if "?I (trace t)" for t
    unfolding initphase_probe_def wp_bind
    by (rule wp_get_mode_all) (use that in \<open>auto simp: wp_ret intro!: wp_mode_probe\<close>)
  have wait: "wp (attempt (unat FPGA_TIMEOUT_CNT) initphase_probe) (\<lambda>r. Q (case r of None \<Rightarrow> - 6 | Some _ \<Rightarrow> 0)) H t"
    if "?I (trace t)" for t
    by (rule wp_mono [OF wp_await [where I = ?I and P = ?P, OF that timeout_pos probe]])
      (auto simp: assms(3,4) split: option.splits)
  show ?thesis
    unfolding fpgamgr_program_poll_initphase_def wp_bind
    by (rule wp_mono [OF wp_dclkcnt_set [OF assms(1)]]) (auto simp: wp_rules wait assms(2))
qed

lemma wp_poll_usermode:
  assumes "sent_inv D (trace s)"
    and "\<And>t. sent_inv D (trace t) \<Longrightarrow> dclk_last 0x5000 (\<lambda>v. v = 0) (trace t) \<Longrightarrow> Q (- 7) t"
    and "\<And>t. sent_inv D (trace t) \<Longrightarrow> dclk_last 0x5000 (\<lambda>v. v \<noteq> 0) (trace t) \<Longrightarrow>
      mode_last (\<lambda>m. m \<noteq> FPGAMGRREGS_MODE_USERMODE) (trace t) \<Longrightarrow> Q (- 8) t"
    and "\<And>t. sent_inv D (trace t) \<Longrightarrow> dclk_last 0x5000 (\<lambda>v. v \<noteq> 0) (trace t) \<Longrightarrow>
      mode_last (\<lambda>m. m = FPGAMGRREGS_MODE_USERMODE) (trace t) \<Longrightarrow> Q 0 t"
  shows "wp fpgamgr_program_poll_usermode Q H s"
proof -
  let ?I = "\<lambda>h. sent_inv D h \<and> dclk_last 0x5000 (\<lambda>v. v \<noteq> 0) h"
  let ?P = "\<lambda>r. mode_last (\<lambda>m. m = FPGAMGRREGS_MODE_USERMODE \<longleftrightarrow> r \<noteq> None)"
  have probe: "wp (mode_probe FPGAMGRREGS_MODE_USERMODE) (\<lambda>r u. ?I (trace u) \<and> ?P r (trace u)) H t" if "?I (trace t)" for t
    by (rule wp_mode_probe) (use that in simp)
  have wait: "wp (attempt (unat FPGA_TIMEOUT_CNT) (mode_probe FPGAMGRREGS_MODE_USERMODE)) (\<lambda>r. wp (case r of
       None \<Rightarrow> ret (- 8) | Some _ \<Rightarrow> seq_io (clrbits_le32 fpgamgr_ctrl FPGAMGRREGS_CTRL_EN_MASK) (ret 0)) Q H) H t"
    if "?I (trace t)" for t
    by (rule wp_mono [OF wp_await [where I = ?I and P = ?P, OF that timeout_pos probe]])
      (auto simp: wp_rules wp_clrbits assms(3,4) split: option.splits)
  show ?thesis
    unfolding fpgamgr_program_poll_usermode_def wp_bind
    by (rule wp_mono [OF wp_dclkcnt_set [OF assms(1)]]) (auto simp: wp_rules wait assms(2))
qed

section \<open>Programming the FPGA\<close>

lemma prog_inv_start:
  "data_safe h \<Longrightarrow> prog_inv (writes_to SOCFPGA_FPGAMGRDATA_ADDRESS h)
     (Wr SOCFPGA_L3REGS_ADDRESS 0x1 # Wr rstmgr_brg_mod_reset (NOT 0) #
      Wr (SOCFPGA_SDR_ADDRESS + SDR_CTRLGRP_FPGAPORTRST_ADDRESS) 0 #
      Wr SYSMGR_FPGAINTF_MODULE 0 # h)"
  by (simp add: prog_inv_def quiesced_def reg_defs)

text \<open>What programming guarantees for the status \<open>r\<close> it returns.\<close>

definition program_post :: "(u32 \<Rightarrow> u32) \<Rightarrow> u32 \<Rightarrow> u32 list \<Rightarrow> int \<Rightarrow> event list \<Rightarrow> bool" where
  "program_post d n D r h \<longleftrightarrow> status_explained r h \<and>
     prog_inv ((if r \<in> {- 1, - 2} then [] else rev (rbf_words d n 0)) @ D) h"

lemma wp_program_fpga:
  assumes "unat n \<le> 0xFFFFFFFC" and "data_safe (trace s)"
  shows "wp (fpgamgr_program_fpga d n)
    (\<lambda>r t. program_post d n (writes_to SOCFPGA_FPGAMGRDATA_ADDRESS (trace s)) r (trace t)) H s"
  using prog_inv_start [OF assms(2)]
  by (auto simp: fpgamgr_program_fpga_def wp_seq wp_bind wp_writel wp_ret reset_assert_all_bridges_def
      program_post_def status_explained_def sent_inv_def
    intro!: wp_program_init wp_program_write [OF assms(1)] wp_poll_cd wp_poll_initphase wp_poll_usermode)

lemma ends_program_fpga: "unat n \<le> 0xFFFFFFFC \<Longrightarrow> ends (fpgamgr_program_fpga d n)"
  by (auto simp: fpgamgr_program_fpga_def reset_assert_all_bridges_def ends_program_write
    intro!: total_bind total_seq)

text \<open>
  C2: Programming the FPGA, on every hardware and for every bitstream of at most 0xFFFFFFFC
  bytes: the function returns, and the status names what ended it. -1 and -2: the mode last read
  is not the reset phase, not the configuration phase. -3 and -4: the pins nSTATUS and CONF_DONE
  were last read both low, differing. Below, both were read high. -5 and -7: the clock count of 4,
  of 0x5000, was written and its status last read as not done. -6 and -8: it was done, but the last
  mode read is not user mode. 0: the second count was done and user mode read. Every data word is
  sent while the peripheral, SDRAM and bridge connections are shut off, after the
  configuration phase was observed and with the AXI path enabled; the words sent are all
  words of the bitstream, once and in order, unless initialisation failed (-1, -2), when
  none is; and the connections are still shut off at the end.
\<close>

theorem fpga_program_outcome:
  assumes "unat rbf_size \<le> 0xFFFFFFFC" and "data_safe (trace s)"
  shows "\<exists>r t. fpgamgr_program_fpga rbf rbf_size s = Some (Val r t) \<and> status_explained r (trace t) \<and>
    data_safe (trace t) \<and> quiesced (trace t) \<and>
    rev (writes_to SOCFPGA_FPGAMGRDATA_ADDRESS (trace t)) =
      rev (writes_to SOCFPGA_FPGAMGRDATA_ADDRESS (trace s)) @
      (if r = - 1 \<or> r = - 2 then [] else map (\<lambda>j. rbf (of_nat j)) [0 ..< (unat rbf_size + 3) div 4])"
  using wp_returns [OF ends_program_fpga [OF assms(1), of rbf] wp_program_fpga [OF assms]]
  by (fastforce simp: program_post_def prog_inv_def rbf_words_def split: if_splits)

text \<open>An FPGA that goes through its phases at once: the mode follows what was last written.\<close>

definition willing_fpga :: mach where
  "willing_fpga = (storage_machine (\<lambda>_. 0))\<lparr>env := \<lambda>h a.
     if a = fpgamgr_ctrl then (case last_wr fpgamgr_ctrl h of Some c \<Rightarrow> c | None \<Rightarrow> 0)
     else if a = fpgamgr_stat then (case last_wr fpgamgr_dclkcnt h of
       Some c \<Rightarrow> if c = 4 then FPGAMGRREGS_MODE_INITPHASE else FPGAMGRREGS_MODE_USERMODE
     | None \<Rightarrow> (case last_wr fpgamgr_ctrl h of
         Some c \<Rightarrow> if c AND FPGAMGRREGS_CTRL_NCONFIGPULL_MASK \<noteq> 0 then FPGAMGRREGS_MODE_RESETPHASE
           else FPGAMGRREGS_MODE_CFGPHASE
       | None \<Rightarrow> FPGAMGRREGS_MODE_CFGPHASE))
     else NOT 0\<rparr>"

lemma attempt_first: "attempt (unat FPGA_TIMEOUT_CNT) body =
    bind_io body (\<lambda>r. case r of None \<Rightarrow> attempt (unat FPGA_TIMEOUT_CNT - 1) body | Some x \<Rightarrow> ret (Some x))"
  using timeout_pos by (cases "unat FPGA_TIMEOUT_CNT") simp_all

lemma write_five_bytes: "program_write_from (\<lambda>i. i) 5 0 = seqs [
    writel 0 SOCFPGA_FPGAMGRDATA_ADDRESS, bind_io (readl initdone_addr) (\<lambda>_. ret ()),
    writel 1 SOCFPGA_FPGAMGRDATA_ADDRESS, bind_io (readl initdone_addr) (\<lambda>_. ret ())]"
  by (rule ext) (simp add: program_write_from.simps bind_io_def seq_io_def writel_def readl_def ret_def Let_def initdone_addr_def)

lemma willing_fpga_programmed: "runs (fpgamgr_program_fpga (\<lambda>i. i) 5) (\<lambda>r _. r = 0) willing_fpga"
  by (simp add: fpgamgr_program_fpga_def fpgamgr_program_init_def fpgamgr_program_write_def write_five_bytes
    fpgamgr_program_poll_cd_def fpgamgr_program_poll_initphase_def fpgamgr_program_poll_usermode_def mode_probe_def
    cd_probe_def initphase_probe_def dclkcnt_probe_def fpgamgr_dclkcnt_set_def reset_assert_all_bridges_def
    fpgamgr_get_mode_def set_cd_ratio_by_msel_def fpgamgr_set_cd_ratio_def attempt_first runs_rules runs_readl runs_writel
    runs_setbits runs_clrbits willing_fpga_def Let_def reg_defs del: FPGA_TIMEOUT_CNT_def)

text \<open>Five bytes are two words; the storage machine never enters the reset phase.\<close>

theorem fpga_program_outcome_witness:
  "(\<exists>t. fpgamgr_program_fpga (\<lambda>i. i) 5 willing_fpga = Some (Val 0 t) \<and> status_explained 0 (trace t) \<and>
     data_safe (trace t) \<and> quiesced (trace t) \<and> rev (writes_to SOCFPGA_FPGAMGRDATA_ADDRESS (trace t)) = [0, 1]) \<and>
   (\<exists>r t. fpgamgr_program_fpga (\<lambda>i. i) 8 (storage_machine (\<lambda>_. 0)) = Some (Val r t) \<and>
     status_explained r (trace t) \<and> quiesced (trace t))"
proof
  have "[0..<2] = [0, Suc 0]" by (simp add: upt_rec)
  then show "\<exists>t. fpgamgr_program_fpga (\<lambda>i. i) 5 willing_fpga = Some (Val 0 t) \<and> status_explained 0 (trace t) \<and>
     data_safe (trace t) \<and> quiesced (trace t) \<and> rev (writes_to SOCFPGA_FPGAMGRDATA_ADDRESS (trace t)) = [0, 1]"
    using fpga_program_outcome [of 5 willing_fpga "\<lambda>i. i"] willing_fpga_programmed
    by (auto simp: willing_fpga_def storage_machine_def runs_iff)
  show "\<exists>r t. fpgamgr_program_fpga (\<lambda>i. i) 8 (storage_machine (\<lambda>_. 0)) = Some (Val r t) \<and>
     status_explained r (trace t) \<and> quiesced (trace t)"
    using fpga_program_outcome [of 8 "storage_machine (\<lambda>_. 0)" "\<lambda>i. i"] by auto
qed

end
