(* ===== verification/BoardData.thy ===== *)
theory BoardData imports Prelude begin

text \<open>
  The tables of the board configuration: the pin multiplexing values
  (pinmux_config_cyclone5.c) and the configuration bits of the four I/O scan chains
  (iocsr_config_cyclone5.c).
\<close>

definition sys_mgr_init_table :: "u32 list" where
  "sys_mgr_init_table = [
    0, 2, 2, 2, 2, 2, 2, 2, 2, 0, 2, 2, 2, 2, 0, 0, 0, 0, 0, 0, 3, 0, 3, 3, 0, 0, 0, 0, 0, 3, 3,
    3, 0, 1, 1, 1, 1, 0, 0, 1, 1, 0, 0, 0, 0, 0, 0, 1, 1, 1, 1, 0, 0, 0, 0, 0, 0, 0, 0, 0, 0, 0,
    0, 0, 2, 2, 2, 2, 2, 2, 2, 2, 2, 2, 2, 2, 2, 2, 0, 3, 3, 3, 3, 3, 3, 0, 0, 0, 0, 0, 0, 0, 0,
    0, 0, 0, 0, 0, 0, 0, 0, 0, 0, 0, 0, 0, 0, 0, 0, 0, 0, 0, 0, 0, 0, 0, 0, 1, 1, 1, 1, 1, 1, 1,
    1, 1, 1, 1, 1, 1, 1, 1, 1, 1, 1, 1, 1, 1, 1, 1, 1, 1, 1, 1, 1, 1, 1, 1, 1, 1, 1, 1, 1, 1, 1,
    1, 1, 1, 1, 1, 1, 1, 1, 1, 1, 1, 1, 1, 1, 1, 1, 1, 1, 1, 1, 1, 1, 1, 1, 1, 1, 1, 1, 1, 1, 1,
    1, 1, 0, 0, 0, 0, 0, 0, 0, 0, 0, 0, 0, 0, 0, 0, 0, 0, 0, 0, 0]"

definition iocsr_scan_chain0_table :: "u32 list" where
  "iocsr_scan_chain0_table = [
    0, 0, 0xff00000, 0xc0000000, 0x3f, 0x8000, 0x60180, 0x20000000, 0x18000000, 0x18060, 0,
    0x4000, 0x300c0, 0xc030000, 0xc000000, 0x30, 0xc030, 0x2000, 0x20000, 0x6018000, 0x6000000,
    0x18, 0x6018, 0x1000]"

definition iocsr_scan_chain1_table :: "u32 list" where
  "iocsr_scan_chain1_table = [
    0x100000, 0x300c0000, 0x300000c0, 0xc0, 0x300c0, 0x8000, 0x80000, 0x20000000, 0, 0x80,
    0x20000, 0x4000, 0x300c0, 0x10000000, 0xc000000, 0x30, 0xc030, 0x2000, 0x6018060, 0x8000000,
    0x1fe0000, 0xf8000000, 7, 0x1000, 0xc030, 0x300c000, 0x3000000, 0x300c, 0x300c, 0x800, 0, 0,
    0x1800000, 6, 0x2000, 0x400, 0, 0xc03000, 3, 0, 0, 0x200, 0x601806, 0, 0x80600000,
    0x80000601, 0x601, 0x100, 0x300c03, 0xc0300c00, 0xc0300000, 0xc0000300, 0xc0300, 0x80]"

definition iocsr_scan_chain2_table :: "u32 list" where
  "iocsr_scan_chain2_table = [
    0x300c0300, 0, 0xff00000, 0, 0x300c0, 0x8000, 0x80000, 0x20000000, 0x18000000, 0x18060,
    0x20000, 0x4000, 0x200300c0, 0x10000000, 0, 0x40, 0x10000, 0x2000, 0x10018060, 0x8000000,
    0x6000000, 0x10018, 0x8000, 0x1000, 0x10000, 0, 0x3000000, 0x800c, 0xc0300c, 0x800]"

definition iocsr_scan_chain3_table :: "u32 list" where
  "iocsr_scan_chain3_table = [
    0xc420d80, 0x882000ff, 0xa804001, 0x7900000, 0x8020000, 0x100000, 0xa800000, 0x7900000,
    0x8020000, 0x100000, 0xc8800000, 0x3001, 0xc00722, 0, 0x21, 0x82000004, 0x5400000,
    0x3c80000, 0x4010000, 0x80000, 0x5400000, 0x3c80000, 0x5400000, 0x3c80000, 0xe4400000,
    0x1800, 0x600391, 0x800e4400, 1, 0x40000002, 0x2a00000, 0x1e40000, 0x2a00000, 0x1e40000,
    0x2a00000, 0x1e40000, 0x2a00000, 0x1e40000, 0x72200000, 0x80000c00, 0x3001c8, 0xc0072200,
    0x1c880000, 0x20000300, 0x40000, 0x50670000, 0x10, 0x24590000, 0x1000, 0xa0000034,
    0xd000001, 0x10680f3c, 0x2c834004, 0x19641a03, 0x80f3c0d0, 0x34004106, 0x1a032c8,
    0x3c0d0000, 0x410680f, 0x32c8340, 0xd000001a, 0x680f3c0, 0x10040000, 0x200000, 0x10040000,
    0x200000, 0x15000000, 0xf200000, 0x15000000, 0xf200000, 0x1fe0000, 0, 0x1800e44, 0x391000,
    0x7f8006, 0, 0xa800001, 0x7900000, 0xa800000, 0x7900000, 0xa800000, 0x7900000, 0x8020000,
    0x100000, 0xc8800000, 0x3001, 0xc00722, 0xff0, 0x72200000, 0x80000c00, 0x5400000, 0x2480000,
    0x4000000, 0x80000, 0x5400000, 0x3c80000, 0x5400000, 0x3c80000, 0x6a1c0000, 0x1800,
    0x600391, 0x800e4400, 0x1a870001, 0x40000600, 0x2a00040, 0x1e40000, 0x2a00000, 0x1e40000,
    0x2a00000, 0x1e40000, 0x2a00000, 0x1e40000, 0x72200000, 0x80000c00, 0x3001c8, 0xc0072200,
    0x1c880000, 0x20000300, 0x40000, 0x50670000, 0x10, 0x24590000, 0x1000, 0xa0000034,
    0xd000001, 0x10680f3c, 0x2c834004, 0x19641a03, 0x80f3c0d0, 0x34004106, 0x1a00040,
    0x3c0d0002, 0x410680f, 0x32c8340, 0xd019641a, 0x680f3c0, 0x10040000, 0x200000, 0x10040000,
    0x200000, 0x15000000, 0xf200000, 0x15000000, 0xf200000, 0x1fe0000, 0, 0x1800e44, 0x391000,
    0x7f8006, 0, 0x99300001, 0x34343400, 0xaa0d4000, 0x1c3a800, 0xaa0d4000, 0x1c3a800,
    0xaa0d4000, 0x1c3a800, 0x40100, 0x800, 0, 0x1208, 0x482000, 0x1000000, 0, 0x410482, 0x6a000,
    0x1b400, 0x20000, 0x400, 0x2a000, 0x1e400, 0x5506a000, 0xe1d400, 0, 0xc880090c, 0x3001,
    0x90400000, 0, 0x2020c243, 0x2a835000, 0x70ea00, 0x2a835000, 0x70ea00, 0x2a835000, 0x70ea00,
    0x10040, 0x200, 0, 0x482, 0x120800, 0x2000, 0x80000000, 0x104120, 0x200, 0xac0d5f80,
    0xffffffff, 0x14f3690d, 0x1a041414, 0xd00000, 0x4864000, 0x69a47a01, 0xe3cf23d6, 0xf796591e,
    0x3549248, 0x821a0000, 0xd000, 0x79e0680, 0xd669a47a, 0x1ee3cf23, 0x48f79659, 0x35492,
    0x80200, 0x1000, 0x80200, 0x1000, 0xa8000, 0x75000, 0x541a8000, 0x3875001, 0x10000000, 0,
    0x80c000, 0x41000000, 0x3fc2, 0x820000, 0xaa0d4000, 0x1c3a800, 0xaa0d4000, 0x1c3a800,
    0xaa0d4000, 0x1c3a800, 0x40100, 0x800, 0, 0x1208, 0x482000, 0x8000, 0, 0x410482, 0x6a000,
    0x1b400, 0x20000, 0x400, 0x20080, 0x400, 0x5506a000, 0xe1d400, 0, 0x90c, 0x10, 0x90400000,
    0, 0x2020c243, 0x2a835000, 0x70ea00, 0x2a835000, 0x70ea00, 0x2a835000, 0x70ea00, 0x15000,
    0xf200, 0, 0x482, 0x120800, 0x600391, 0x80000000, 0x104120, 0x200, 0xac0d5f80, 0xffffffff,
    0x14f3690d, 0x1a041414, 0xd00000, 0x4864000, 0x69a47a01, 0xe3cf23d6, 0xf796591e, 0x83549248,
    0x821a0020, 0xd000, 0x680, 0xd669a47a, 0x1ee3cf23, 0x48f79659, 0x35492, 0x80200, 0x1000,
    0x80200, 0x1000, 0xa8000, 0x75000, 0x541a8000, 0x3875001, 0x10000000, 0, 0x80c000,
    0x41000000, 0x4000002, 0x820000, 0xaa0d4000, 0x1c3a800, 0xaa0d4000, 0x1c3a800, 0xaa0d4000,
    0x1c3a800, 0x40100, 0x800, 0, 0x1208, 0x482000, 0x8000, 0, 0x410482, 0x6a000, 0x1b400,
    0x20000, 0x400, 0x2a000, 0x1e400, 0x5506a000, 0xe1d400, 0, 0xc880090c, 0x3001, 0x90400000,
    0, 0x2020c243, 0x2a835000, 0x70ea00, 0x2a835000, 0x70ea00, 0x2a835000, 0x70ea00, 0x10040,
    0x200, 0, 0x482, 0x120800, 0x2000, 0x80000000, 0x104120, 0x200, 0xac0d5f80, 0xffffffff,
    0x14f3690d, 0x1a041414, 0xd00000, 0x4864000, 0x69a47a01, 0xe3cf23d6, 0xf796591e, 0x3549248,
    0x821a0000, 0xd000, 0x680, 0xd669a47a, 0x1ee3cf23, 0x48f79659, 0x35492, 0x80200, 0x1000,
    0x80200, 0x1000, 0xa8000, 0x75000, 0x541a8000, 0x3875001, 0x10000000, 0, 0x80c000,
    0x41000000, 0x4000002, 0x820000, 0xaa0d4000, 0x1c3a800, 0xaa0d4000, 0x1c3a800, 0xaa0d4000,
    0x1c3a800, 0x40100, 0x800, 0, 0x1208, 0x482000, 0x8000, 0, 0x410482, 0x6a000, 0x1b400,
    0x20000, 0x400, 0x20080, 0x400, 0x5506a000, 0xe1d400, 0, 0x90c, 0x10, 0x90400000, 0,
    0x2020c243, 0x2a835000, 0x70ea00, 0x2a835000, 0x70ea00, 0x2a835000, 0x70ea00, 0x10040,
    0x200, 0, 0x482, 0x120800, 0x400000, 0x80000000, 0x104120, 0x200, 0xac0d5f80, 0xffffffff,
    0x14f1690d, 0x1a041414, 0xd00000, 0x4864000, 0x69a47a01, 0xe3cf23d6, 0xf796591e, 0x3549248,
    0x821a0000, 0xd000, 0x680, 0xd669a47a, 0x1ee3cf23, 0x48f79659, 0x35492, 0x80200, 0x1000,
    0x80200, 0x1000, 0xa8000, 0x75000, 0x541a8000, 0x3875001, 0x10000000, 0, 0x80c000,
    0x41000000, 0x4000002, 0x820000, 0x489800, 0x801a1a1a, 0x200, 0x80000004, 0x200, 0x80000004,
    0x200, 0x80000004, 0x200, 4, 0x40000, 0x10000000, 0, 0x40, 0x10000, 0x40002000, 0x100,
    0x40000002, 0x100, 0x40000002, 0x100, 0x40000002, 0x100, 2, 0x20000, 0x8000000, 0, 0x20,
    0x8000, 0x20001000, 0x80, 0x20000001, 0x80, 0x20000001, 0x80, 0x20000001, 0x80, 1, 0x10000,
    0x4000000, 0xff0000, 0, 0x4000, 0x800, 0xc0000001, 0x41419, 0x40000000, 0x4000816, 0xd0000,
    0x6800, 0x340, 0xd000001a, 0x6800000, 0x340000, 0x1a000, 0xd00, 0x40000068, 0x1a000003,
    0xd00000, 0x68000, 0x3400, 0x1a0, 0x401, 8, 0x401, 8, 0x401, 8, 0x401, 0x80000008, 0x7f,
    0x20000000, 0, 0xe0000080, 0x1f, 0x4000]"

end
