(* ===== verification/SystemManager.thy ===== *)
theory SystemManager imports FpgaStatus BoardData begin

text \<open>
  system_manager.c (pin multiplexing and the FPGA interface enables), nic301.c and
  ecc_ram.c.
\<close>

section \<open>Pin multiplexing\<close>

text \<open>\<open>if (readl(usefpga) == USEFPGA) setbits_le32(ISWGRP_HANDOFF_FPGAINTF, m)\<close>\<close>

definition use_fpga :: "u32 \<Rightarrow> u32 \<Rightarrow> unit io" where
  "use_fpga usefpga m = bind_io (readl usefpga) (\<lambda>v.
     when_io (v = SYSMGR_FPGAINTF_USEFPGA) (setbits_le32 ISWGRP_HANDOFF_FPGAINTF m))"

definition populate_sysmgr_fpgaintf_module :: "u32 io" where
  "populate_sysmgr_fpgaintf_module =
     seq_io (seqs [
       writel 0 ISWGRP_HANDOFF_FPGAINTF,
       use_fpga SYSMGR_PINMUXGRP_NANDUSEFPGA SYSMGR_FPGAINTF_NAND,
       use_fpga SYSMGR_PINMUXGRP_EMAC1USEFPGA SYSMGR_FPGAINTF_EMAC1,
       use_fpga SYSMGR_PINMUXGRP_SDMMCUSEFPGA SYSMGR_FPGAINTF_SDMMC,
       use_fpga SYSMGR_PINMUXGRP_EMAC0USEFPGA SYSMGR_FPGAINTF_EMAC0,
       use_fpga SYSMGR_PINMUXGRP_SPIM1USEFPGA SYSMGR_FPGAINTF_SPIM1,
       use_fpga SYSMGR_PINMUXGRP_SPIM0USEFPGA SYSMGR_FPGAINTF_SPIM0])
     (readl ISWGRP_HANDOFF_FPGAINTF)"

text \<open>The loop over \<open>sys_mgr_init_table\<close>: entry \<open>i\<close> goes to register \<open>i\<close> of the group.\<close>

definition pinmux_reg :: "nat \<Rightarrow> u32" where
  "pinmux_reg i = SOCFPGA_SYSMGR_ADDRESS + (CONFIG_SYSMGR_PINMUXGRP_OFFSET + 4 * of_nat i)"

definition write_pinmux_table :: "unit io" where
  "write_pinmux_table = for_io 0 (length sys_mgr_init_table)
     (\<lambda>i. writel (sys_mgr_init_table ! i) (pinmux_reg i))"

definition sysmgr_pinmux_init :: "unit io" where
  "sysmgr_pinmux_init =
     seq_io write_pinmux_table
     (bind_io populate_sysmgr_fpgaintf_module (\<lambda>reg_value.
      bind_io is_fpgamgr_fpga_ready (\<lambda>ready.
      if ready then writel reg_value SYSMGR_FPGAINTF_MODULE else ret ())))"

section \<open>Interconnect and ECC handlers\<close>

definition nic301_slave_ns :: "unit io" where
  "nic301_slave_ns = seqs [
     writel 0x1 (SOCFPGA_L3REGS_ADDRESS + L3REGS_SECGRP_LWHPS2FPGAREGS_ADDRESS),
     writel 0x1 (SOCFPGA_L3REGS_ADDRESS + L3REGS_SECGRP_HPS2FPGAREGS_ADDRESS),
     writel 0x1 (SOCFPGA_L3REGS_ADDRESS + L3REGS_SECGRP_ACP_ADDRESS),
     writel 0x1 (SOCFPGA_L3REGS_ADDRESS + L3REGS_SECGRP_ROM_ADDRESS),
     writel 0x1 (SOCFPGA_L3REGS_ADDRESS + L3REGS_SECGRP_OCRAM_ADDRESS),
     writel 0x1 (SOCFPGA_L3REGS_ADDRESS + L3REGS_SECGRP_SDRDATA_ADDRESS)]"

definition irq_handler_ecc_ocram_corrected :: "unit io" where
  "irq_handler_ecc_ocram_corrected = seqs [
     msg ''IRQ triggered: Corrected OCRAM ECC'' [],
     modify_io (\<lambda>s. s\<lparr>cnt_ocram_corrected := cnt_ocram_corrected s + 1\<rparr>),
     writel (SYSMGR_ECC_OCRAM_SERR OR SYSMGR_ECC_OCRAM_EN) CONFIG_SYSMGR_ECC_OCRAM]"

definition irq_handler_ecc_ocram_uncorrected :: "unit io" where
  "irq_handler_ecc_ocram_uncorrected = seqs [
     modify_io (\<lambda>s. s\<lparr>cnt_ocram_uncorrected := cnt_ocram_uncorrected s + 1\<rparr>),
     msg ''IRQ triggered: Un-corrected OCRAM ECC'' [],
     writel (SYSMGR_ECC_OCRAM_DERR OR SYSMGR_ECC_OCRAM_EN) CONFIG_SYSMGR_ECC_OCRAM,
     hang]"

section \<open>What pin multiplexing leaves behind\<close>

text \<open>The peripherals routed to the FPGA and their enable bits.\<close>

definition usefpga_table :: "(u32 \<times> u32) list" where
  "usefpga_table = [
     (SYSMGR_PINMUXGRP_NANDUSEFPGA, SYSMGR_FPGAINTF_NAND),
     (SYSMGR_PINMUXGRP_EMAC1USEFPGA, SYSMGR_FPGAINTF_EMAC1),
     (SYSMGR_PINMUXGRP_SDMMCUSEFPGA, SYSMGR_FPGAINTF_SDMMC),
     (SYSMGR_PINMUXGRP_EMAC0USEFPGA, SYSMGR_FPGAINTF_EMAC0),
     (SYSMGR_PINMUXGRP_SPIM1USEFPGA, SYSMGR_FPGAINTF_SPIM1),
     (SYSMGR_PINMUXGRP_SPIM0USEFPGA, SYSMGR_FPGAINTF_SPIM0)]"

text \<open>The enables that follow from what the pin multiplexing registers hold.\<close>

definition fpgaintf_of :: "(u32 \<Rightarrow> u32) \<Rightarrow> u32" where
  "fpgaintf_of r = foldr (\<lambda>(a, m) acc. if r a = SYSMGR_FPGAINTF_USEFPGA then m OR acc else acc)
     usefpga_table 0"

lemma length_init_table: "length sys_mgr_init_table = 207"
  by (simp add: sys_mgr_init_table_def)

definition pinmux_written :: "nat \<Rightarrow> mach \<Rightarrow> mach \<Rightarrow> bool" where
  "pinmux_written n s t \<longleftrightarrow> t = s\<lparr>trace :=
     rev (map (\<lambda>i. Wr (pinmux_reg i) (sys_mgr_init_table ! i)) [0..<n]) @ trace s\<rparr>"

lemma wp_pinmux_table:
  assumes "\<And>t. pinmux_written 207 s t \<Longrightarrow> Q () t"
  shows "wp write_pinmux_table Q H s"
  unfolding write_pinmux_table_def length_init_table
  by (rule wp_for [where I = "\<lambda>i t. pinmux_written i s t"])
    (use assms in \<open>simp_all add: pinmux_written_def wp_writel\<close>)

lemma pinmux_reg_offset:
  assumes "i < 207"
  shows "unat (pinmux_reg i - 0xffd08400) = 4 * i"
proof -
  have "pinmux_reg i - 0xffd08400 = of_nat (4 * i)" by (simp add: pinmux_reg_def reg_defs)
  with word_index(2) [of i] assms show ?thesis by (simp only:) simp
qed

lemma pinmux_reg_inj: "i < 207 \<Longrightarrow> j < 207 \<Longrightarrow> pinmux_reg i = pinmux_reg j \<longleftrightarrow> i = j"
  by (metis pinmux_reg_offset mult_left_cancel zero_neq_numeral)

text \<open>The handoff register and the FPGA interface register are not pin multiplexing registers.\<close>

lemma pinmux_reg_neq:
  assumes "i < 207"
  shows "pinmux_reg i \<noteq> ISWGRP_HANDOFF_FPGAINTF" "pinmux_reg i \<noteq> SYSMGR_FPGAINTF_MODULE"
proof -
  have "unat (pinmux_reg i - 0xffd08400) < 828"
    using assms by (simp add: pinmux_reg_offset)
  moreover have "\<not> unat (ISWGRP_HANDOFF_FPGAINTF - 0xffd08400) < 828"
    "\<not> unat (SYSMGR_FPGAINTF_MODULE - 0xffd08400) < 828" by (simp_all add: reg_defs)
  ultimately show "pinmux_reg i \<noteq> ISWGRP_HANDOFF_FPGAINTF" "pinmux_reg i \<noteq> SYSMGR_FPGAINTF_MODULE"
    by metis+
qed

lemma reg_val_pinmux:
  assumes "n \<le> 207" and "j < 207"
  shows "reg_val r0 (rev (map (\<lambda>i. Wr (pinmux_reg i) (f i)) [0..<n]) @ h) (pinmux_reg j) =
    (if j < n then f j else reg_val r0 h (pinmux_reg j))"
  using assms(1) by (induction n) (auto simp: pinmux_reg_inj assms(2))

definition pinmux_regs :: "u32 set" where
  "pinmux_regs = insert ISWGRP_HANDOFF_FPGAINTF (pinmux_reg ` {..<207})"

text \<open>The pin multiplexing registers hold the table, the handoff register holds \<open>v\<close>.\<close>

definition pin_state :: "mach \<Rightarrow> mach \<Rightarrow> u32 \<Rightarrow> bool" where
  "pin_state s t v \<longleftrightarrow> env t = env s \<and> env s (trace t) ISWGRP_HANDOFF_FPGAINTF = v \<and>
     last_wr SYSMGR_FPGAINTF_MODULE (trace t) = last_wr SYSMGR_FPGAINTF_MODULE (trace s) \<and>
     (\<forall>i<207. env s (trace t) (pinmux_reg i) = sys_mgr_init_table ! i)"

lemma handoff_neq [simp]: "ISWGRP_HANDOFF_FPGAINTF \<noteq> SYSMGR_FPGAINTF_MODULE"
  by (simp add: reg_defs)

lemma last_wr_pinmux:
  "n \<le> 207 \<Longrightarrow> last_wr SYSMGR_FPGAINTF_MODULE
     (rev (map (\<lambda>i. Wr (pinmux_reg i) (f i)) [0..<n]) @ h) = last_wr SYSMGR_FPGAINTF_MODULE h"
  by (induction n) (simp_all add: pinmux_reg_neq)

lemma pin_state_written:
  assumes "rw_registers (env s) pinmux_regs" and "pinmux_written 207 s t"
  shows "pin_state s (t\<lparr>trace := Wr ISWGRP_HANDOFF_FPGAINTF v # trace t\<rparr>) v"
proof -
  have "env s h (pinmux_reg i) = reg_val (env s []) h (pinmux_reg i)" if "i < 207" for h i
    by (rule rw_registers.hw_reg_val [OF assms(1)]) (use that in \<open>simp add: pinmux_regs_def\<close>)
  with assms show ?thesis
    by (simp add: pin_state_def pinmux_written_def reg_val_pinmux pinmux_reg_neq last_wr_pinmux
      rw_registers.hw_Wr [OF assms(1)] pinmux_regs_def)
qed

lemma pin_state_reads:
  assumes "rw_registers (env s) pinmux_regs" and "pin_state s t v"
  shows "pin_state s (t\<lparr>trace := Rd a w # trace t\<rparr>) v"
  using assms(2) by (simp add: pin_state_def rw_registers.hw_Rd [OF assms(1)] pinmux_regs_def)

lemma wp_use_fpga:
  assumes "rw_registers (env s) pinmux_regs" and "pin_state s t v" and "k < 207"
    and "\<And>u. pin_state s u (if sys_mgr_init_table ! k = SYSMGR_FPGAINTF_USEFPGA then v OR m else v) \<Longrightarrow> Q () u"
  shows "wp (use_fpga (pinmux_reg k) m) Q H t"
proof -
  have "pin_state s (t\<lparr>trace := Wr ISWGRP_HANDOFF_FPGAINTF w # h\<rparr>) w" if "pin_state s (t\<lparr>trace := h\<rparr>) x" for w h x
    using that by (simp add: pin_state_def rw_registers.hw_simps [OF assms(1)] pinmux_regs_def pinmux_reg_neq)
  then show ?thesis
    using assms(2-) pin_state_reads [OF assms(1,2)]
      pin_state_reads [OF assms(1) pin_state_reads [OF assms(1,2)]]
    unfolding use_fpga_def wp_bind
    by (auto simp: wp_readl wp_when wp_setbits pin_state_def)
qed

lemma usefpga_regs:
  "SYSMGR_PINMUXGRP_NANDUSEFPGA = pinmux_reg 188"
  "SYSMGR_PINMUXGRP_EMAC1USEFPGA = pinmux_reg 190"
  "SYSMGR_PINMUXGRP_SDMMCUSEFPGA = pinmux_reg 194"
  "SYSMGR_PINMUXGRP_EMAC0USEFPGA = pinmux_reg 197"
  "SYSMGR_PINMUXGRP_SPIM1USEFPGA = pinmux_reg 204"
  "SYSMGR_PINMUXGRP_SPIM0USEFPGA = pinmux_reg 206"
  by (simp_all add: pinmux_reg_def reg_defs)

text \<open>The enables the board's table asks for.\<close>

definition fpgaintf_table :: u32 where
  "fpgaintf_table = foldr (\<lambda>(k, m) acc.
    if sys_mgr_init_table ! k = SYSMGR_FPGAINTF_USEFPGA then m OR acc else acc)
    [(188, SYSMGR_FPGAINTF_NAND), (190, SYSMGR_FPGAINTF_EMAC1), (194, SYSMGR_FPGAINTF_SDMMC),
     (197, SYSMGR_FPGAINTF_EMAC0), (204, SYSMGR_FPGAINTF_SPIM1), (206, SYSMGR_FPGAINTF_SPIM0)] 0"

lemma fpgaintf_of_table:
  "(\<And>i. i < 207 \<Longrightarrow> r (pinmux_reg i) = sys_mgr_init_table ! i) \<Longrightarrow> fpgaintf_of r = fpgaintf_table"
  by (simp add: fpgaintf_of_def usefpga_table_def usefpga_regs fpgaintf_table_def)

lemma wp_populate:
  assumes "rw_registers (env s) pinmux_regs" and "pinmux_written 207 s t"
    and "\<And>u. pin_state s u fpgaintf_table \<Longrightarrow> Q fpgaintf_table u"
  shows "wp populate_sysmgr_fpgaintf_module Q H t"
proof -
  have final: "wp (readl ISWGRP_HANDOFF_FPGAINTF) Q H u" if p: "pin_state s u fpgaintf_table" for u
  proof -
    have "env u (trace u) ISWGRP_HANDOFF_FPGAINTF = fpgaintf_table" using p by (simp add: pin_state_def)
    with assms(3) pin_state_reads [OF assms(1) p] show ?thesis by (simp add: wp_readl)
  qed
  have table: "fpgaintf_table = 0" "sys_mgr_init_table ! 188 = 0" "sys_mgr_init_table ! 190 = 0"
    "sys_mgr_init_table ! 194 = 0" "sys_mgr_init_table ! 197 = 0" "sys_mgr_init_table ! 204 = 0"
    "sys_mgr_init_table ! 206 = 0"
    by (simp_all add: fpgaintf_table_def sys_mgr_init_table_def SYSMGR_FPGAINTF_USEFPGA_def)
  show ?thesis
    unfolding populate_sysmgr_fpgaintf_module_def wp_seq [of "seqs _"] wp_seqs_Cons wp_seqs_Nil
      wp_writel usefpga_regs
    by (rule wp_use_fpga [OF assms(1) pin_state_written [OF assms(1,2)]], simp,
        (erule wp_use_fpga [OF assms(1)], simp)+)
      (rule final, simp add: table SYSMGR_FPGAINTF_USEFPGA_def)
qed

lemma wp_pinmux_init:
  assumes "rw_registers (env s) (pinmux_regs)"
  shows "wp sysmgr_pinmux_init (\<lambda>_ t.
    (\<forall>i<207. env t (trace t) (pinmux_reg i) = sys_mgr_init_table ! i) \<and>
    env t (trace t) ISWGRP_HANDOFF_FPGAINTF = fpgaintf_of (env t (trace t)) \<and>
    (last_wr SYSMGR_FPGAINTF_MODULE (trace t) = last_wr SYSMGR_FPGAINTF_MODULE (trace s) \<or>
     (\<exists>h. trace t = Wr SYSMGR_FPGAINTF_MODULE (fpgaintf_of (env t (trace t))) # h \<and> seen_ready h))) H s"
    (is "wp _ ?Q H s")
proof -
  have after: "pin_state s v x" if "pin_state s u x" "after_reads u v" for u v x
  proof -
    from that(2) obtain es where es: "reads_only es" "v = u\<lparr>trace := es @ trace u\<rparr>"
      unfolding after_reads_def by blast
    have "env s (es @ h) a = env s h a" if "a \<in> pinmux_regs" for a h
      using es(1) by (induction es) (auto simp: reads_only_def rw_registers.hw_Rd [OF assms that])
    with that(1) es show ?thesis
      by (simp add: pin_state_def last_wr_after_reads pinmux_regs_def)
  qed
  have regs: "env t (trace t) (pinmux_reg i) = sys_mgr_init_table ! i"
    "env t (trace t) ISWGRP_HANDOFF_FPGAINTF = fpgaintf_of (env t (trace t))"
    "last_wr SYSMGR_FPGAINTF_MODULE (trace t) = last_wr SYSMGR_FPGAINTF_MODULE (trace s)"
    if "pin_state s t fpgaintf_table" "i < 207" for t i
    using that fpgaintf_of_table [of "env t (trace t)"] by (simp_all add: pin_state_def)
  have frame: "env s (Wr SYSMGR_FPGAINTF_MODULE w # h) a = env s h a"
    if "a \<in> pinmux_regs" for w h a
  proof -
    from that have "a \<noteq> SYSMGR_FPGAINTF_MODULE"
      unfolding pinmux_regs_def using pinmux_reg_neq(2) handoff_neq
      by (metis imageE insertE lessThan_iff)
    then show ?thesis by (simp add: rw_registers.hw_Wr [OF assms that])
  qed
  show ?thesis
    unfolding sysmgr_pinmux_init_def wp_seq [of write_pinmux_table] wp_bind [of populate_sysmgr_fpgaintf_module]
  proof (rule wp_pinmux_table, erule wp_populate [OF assms], rule single_shot.wp_guarded)
    fix u t assume "pin_state s u fpgaintf_table" and "after_reads u t" and ready: "seen_ready (trace t)"
    then have t: "pin_state s t fpgaintf_table" using after by blast
    then have "env t = env s" by (simp add: pin_state_def)
    with regs [OF t] regs(2,3) [OF t, of 0, simplified] frame ready show "wp (writel fpgaintf_table SYSMGR_FPGAINTF_MODULE) ?Q H t"
      by (simp add: wp_writel pinmux_regs_def fpgaintf_of_table)
  next
    fix u t assume "pin_state s u fpgaintf_table" and "after_reads u t"
    then have "pin_state s t fpgaintf_table" using after by blast
    from regs [OF this] regs(2,3) [OF this, of 0, simplified] show "wp (ret ()) ?Q H t"
      by (auto simp: wp_ret)
  qed
qed

lemma ends_pinmux_init [simp]: "ends sysmgr_pinmux_init"
  using single_shot.check_total
  by (auto simp: sysmgr_pinmux_init_def write_pinmux_table_def populate_sysmgr_fpgaintf_module_def
    use_fpga_def intro!: total_intros)

text \<open>
  C30: Pin multiplexing, for hardware whose pin multiplexing registers and handoff register
  store what is written: all 207 registers hold the board's table; the handoff register
  holds the enables of exactly the peripherals whose registers route them to the FPGA; and
  the enables reach the FPGA interface register only after the FPGA was seen ready. (On this board
  no peripheral is routed to the FPGA, so the word is 0.)
\<close>

theorem pinmux_registers:
  assumes "rw_registers (env s) (pinmux_regs)"
  shows "runs sysmgr_pinmux_init (\<lambda>_ t.
    (\<forall>i<207. env t (trace t) (pinmux_reg i) = sys_mgr_init_table ! i) \<and>
    env t (trace t) ISWGRP_HANDOFF_FPGAINTF = fpgaintf_of (env t (trace t)) \<and>
    (last_wr SYSMGR_FPGAINTF_MODULE (trace t) = last_wr SYSMGR_FPGAINTF_MODULE (trace s) \<or>
     (\<exists>h. trace t = Wr SYSMGR_FPGAINTF_MODULE (fpgaintf_of (env t (trace t))) # h \<and> seen_ready h))) s"
  by (rule runs_ends [OF ends_pinmux_init wp_pinmux_init [OF assms]])

theorem pinmux_registers_witness:
  "runs sysmgr_pinmux_init (\<lambda>_ t. env t (trace t) (pinmux_reg 1) = 2) (storage_machine (\<lambda>_. 0))"
  by (rule runs_mono [OF pinmux_registers]) (simp_all add: storage_on sys_mgr_init_table_def)

end
