(* ===== verification/SdramMmr.thy ===== *)
theory SdramMmr imports FpgaStatus begin

text \<open>
  sdram.c: initialisation of the memory-mapped registers of the SDRAM controller, and its
  ECC interrupt. Each register block of \<open>sdram_mmr_init_full\<close> is a value of \<open>mmr_step\<close>:
  the register and the fields the preprocessor conditionals leave in; \<open>run_mmr\<close> is the code
  all blocks of one kind share. The \<open>debug\<close> output is compiled out.
\<close>

section \<open>Interrupts\<close>

definition sdr_reg :: "u32 \<Rightarrow> u32" where [reg_defs]:
  "sdr_reg off = SOCFPGA_SDR_ADDRESS + off"

definition sdram_enable_interrupt :: "u32 \<Rightarrow> unit io" where
  "sdram_enable_interrupt enable = seq_io
     (setbits_le32 (sdr_reg SDR_CTRLGRP_DRAMINTR_ADDRESS) SDR_CTRLGRP_DRAMINTR_INTRCLR_MASK)
     (if enable \<noteq> 0
      then setbits_le32 (sdr_reg SDR_CTRLGRP_DRAMINTR_ADDRESS) SDR_CTRLGRP_DRAMINTR_INTREN_MASK
      else clrbits_le32 (sdr_reg SDR_CTRLGRP_DRAMINTR_ADDRESS) SDR_CTRLGRP_DRAMINTR_INTREN_MASK)"

text \<open>\<open>printf(f, readl(a))\<close>\<close>

definition print_reg :: "string \<Rightarrow> u32 \<Rightarrow> unit io" where
  "print_reg f a = bind_io (readl a) (\<lambda>v. msg f [v])"

definition irq_handler_ecc_sdram :: "unit io" where
  "irq_handler_ecc_sdram =
     bind_io (readl (sdr_reg SDR_CTRLGRP_DRAMSTS_ADDRESS)) (\<lambda>reg_value.
     let sbe = reg_value AND SDR_CTRLGRP_DRAMSTS_SBEERR_MASK \<noteq> 0;
         dbe = reg_value AND SDR_CTRLGRP_DRAMSTS_DBEERR_MASK \<noteq> 0 in
     seqs [
       when_io sbe (seqs [
         print_reg ''Info: SDRAM ECC SBE @ 0x%08x'' (sdr_reg SDR_CTRLGRP_ERRADDR_ADDRESS),
         bind_io (readl (sdr_reg SDR_CTRLGRP_SBECOUNT_ADDRESS)) (\<lambda>n.
           modify_io (\<lambda>s. s\<lparr>cnt_sdram := cnt_sdram s + n\<rparr>))]),
       when_io dbe (seqs [
         msg ''Error: SDRAM ECC DBE occurred'' [],
         bind_io (get_io cnt_sdram) (\<lambda>n. msg ''sbecount = %lu'' [n]),
         print_reg ''erraddr = %08x'' (sdr_reg SDR_CTRLGRP_ERRADDR_ADDRESS),
         print_reg ''dropcount = %08x'' (sdr_reg SDR_CTRLGRP_DROPCOUNT_ADDRESS),
         print_reg ''dropaddr = %08x'' (sdr_reg SDR_CTRLGRP_DROPADDR_ADDRESS)]),
       setbits_le32 (sdr_reg SDR_CTRLGRP_DRAMINTR_ADDRESS) SDR_CTRLGRP_DRAMINTR_INTRCLR_MASK,
       when_io dbe (seqs [sdram_enable_interrupt 0, hang])])"

section \<open>Register updates\<close>

definition sdram_write_register_field :: "u32 \<Rightarrow> u32 \<Rightarrow> u32 \<Rightarrow> u32 \<Rightarrow> u32" where
  "sdram_write_register_field masked_value data shift mask' =
     (masked_value AND NOT mask') OR (shl data shift AND mask')"

definition sdram_write_verify :: "u32 \<Rightarrow> u32 \<Rightarrow> u32 io" where
  "sdram_write_verify register_offset reg_value =
     seq_io (writel reg_value (sdr_reg register_offset))
     (bind_io (readl (sdr_reg register_offset)) (\<lambda>reg_value1.
      ret (if reg_value1 \<noteq> reg_value then 1 else 0)))"

text \<open>
  A block: read the register, replace the fields (data, shift, mask), write it, and, if
  \<open>Verified\<close>, check the read-back; a \<open>Fixed\<close> value is not read first.
\<close>

datatype mmr_step =
    Verified u32 "(u32 \<times> u32 \<times> u32) list"
  | Unverified u32 "(u32 \<times> u32 \<times> u32) list"
  | Fixed u32 u32

definition update_fields :: "(u32 \<times> u32 \<times> u32) list \<Rightarrow> u32 \<Rightarrow> u32" where
  "update_fields fs v = foldl (\<lambda>r (d, l, m). sdram_write_register_field r d l m) v fs"

primrec run_mmr :: "mmr_step \<Rightarrow> u32 io" where
  "run_mmr (Verified off fs) = bind_io (readl (sdr_reg off)) (\<lambda>v.
     sdram_write_verify off (update_fields fs v))"
| "run_mmr (Unverified off fs) = bind_io (readl (sdr_reg off)) (\<lambda>v.
     seq_io (writel (update_fields fs v) (sdr_reg off))
     (bind_io (readl (sdr_reg off)) (\<lambda>_. ret 0)))"
| "run_mmr (Fixed off v) = sdram_write_verify off v"

section \<open>The register blocks\<close>

definition mmr_CTRLCFG :: mmr_step where
  "mmr_CTRLCFG = Verified SDR_CTRLGRP_CTRLCFG_ADDRESS [
     (CONFIG_HPS_SDR_CTRLCFG_CTRLCFG_MEMTYPE, SDR_CTRLGRP_CTRLCFG_MEMTYPE_LSB,
      SDR_CTRLGRP_CTRLCFG_MEMTYPE_MASK),
     (CONFIG_HPS_SDR_CTRLCFG_CTRLCFG_MEMBL, SDR_CTRLGRP_CTRLCFG_MEMBL_LSB,
      SDR_CTRLGRP_CTRLCFG_MEMBL_MASK),
     (CONFIG_HPS_SDR_CTRLCFG_CTRLCFG_ADDRORDER, SDR_CTRLGRP_CTRLCFG_ADDRORDER_LSB,
      SDR_CTRLGRP_CTRLCFG_ADDRORDER_MASK),
     (CONFIG_HPS_SDR_CTRLCFG_CTRLCFG_ECCEN, SDR_CTRLGRP_CTRLCFG_ECCEN_LSB,
      SDR_CTRLGRP_CTRLCFG_ECCEN_MASK),
     (CONFIG_HPS_SDR_CTRLCFG_CTRLCFG_ECCCORREN, SDR_CTRLGRP_CTRLCFG_ECCCORREN_LSB,
      SDR_CTRLGRP_CTRLCFG_ECCCORREN_MASK),
     (CONFIG_HPS_SDR_CTRLCFG_CTRLCFG_REORDEREN, SDR_CTRLGRP_CTRLCFG_REORDEREN_LSB,
      SDR_CTRLGRP_CTRLCFG_REORDEREN_MASK),
     (CONFIG_HPS_SDR_CTRLCFG_CTRLCFG_STARVELIMIT, SDR_CTRLGRP_CTRLCFG_STARVELIMIT_LSB,
      SDR_CTRLGRP_CTRLCFG_STARVELIMIT_MASK),
     (CONFIG_HPS_SDR_CTRLCFG_CTRLCFG_DQSTRKEN, SDR_CTRLGRP_CTRLCFG_DQSTRKEN_LSB,
      SDR_CTRLGRP_CTRLCFG_DQSTRKEN_MASK),
     (CONFIG_HPS_SDR_CTRLCFG_CTRLCFG_NODMPINS, SDR_CTRLGRP_CTRLCFG_NODMPINS_LSB,
      SDR_CTRLGRP_CTRLCFG_NODMPINS_MASK)]"

definition mmr_DRAMTIMING1 :: mmr_step where
  "mmr_DRAMTIMING1 = Verified SDR_CTRLGRP_DRAMTIMING1_ADDRESS [
     (CONFIG_HPS_SDR_CTRLCFG_DRAMTIMING1_TCWL, SDR_CTRLGRP_DRAMTIMING1_TCWL_LSB,
      SDR_CTRLGRP_DRAMTIMING1_TCWL_MASK),
     (CONFIG_HPS_SDR_CTRLCFG_DRAMTIMING1_AL, SDR_CTRLGRP_DRAMTIMING1_TAL_LSB,
      SDR_CTRLGRP_DRAMTIMING1_TAL_MASK),
     (CONFIG_HPS_SDR_CTRLCFG_DRAMTIMING1_TCL, SDR_CTRLGRP_DRAMTIMING1_TCL_LSB,
      SDR_CTRLGRP_DRAMTIMING1_TCL_MASK),
     (CONFIG_HPS_SDR_CTRLCFG_DRAMTIMING1_TRRD, SDR_CTRLGRP_DRAMTIMING1_TRRD_LSB,
      SDR_CTRLGRP_DRAMTIMING1_TRRD_MASK),
     (CONFIG_HPS_SDR_CTRLCFG_DRAMTIMING1_TFAW, SDR_CTRLGRP_DRAMTIMING1_TFAW_LSB,
      SDR_CTRLGRP_DRAMTIMING1_TFAW_MASK),
     (CONFIG_HPS_SDR_CTRLCFG_DRAMTIMING1_TRFC, SDR_CTRLGRP_DRAMTIMING1_TRFC_LSB,
      SDR_CTRLGRP_DRAMTIMING1_TRFC_MASK)]"

definition mmr_DRAMTIMING2 :: mmr_step where
  "mmr_DRAMTIMING2 = Verified SDR_CTRLGRP_DRAMTIMING2_ADDRESS [
     (CONFIG_HPS_SDR_CTRLCFG_DRAMTIMING2_IF_TREFI, SDR_CTRLGRP_DRAMTIMING2_TREFI_LSB,
      SDR_CTRLGRP_DRAMTIMING2_TREFI_MASK),
     (CONFIG_HPS_SDR_CTRLCFG_DRAMTIMING2_IF_TRCD, SDR_CTRLGRP_DRAMTIMING2_TRCD_LSB,
      SDR_CTRLGRP_DRAMTIMING2_TRCD_MASK),
     (CONFIG_HPS_SDR_CTRLCFG_DRAMTIMING2_IF_TRP, SDR_CTRLGRP_DRAMTIMING2_TRP_LSB,
      SDR_CTRLGRP_DRAMTIMING2_TRP_MASK),
     (CONFIG_HPS_SDR_CTRLCFG_DRAMTIMING2_IF_TWR, SDR_CTRLGRP_DRAMTIMING2_TWR_LSB,
      SDR_CTRLGRP_DRAMTIMING2_TWR_MASK),
     (CONFIG_HPS_SDR_CTRLCFG_DRAMTIMING2_IF_TWTR, SDR_CTRLGRP_DRAMTIMING2_TWTR_LSB,
      SDR_CTRLGRP_DRAMTIMING2_TWTR_MASK)]"

definition mmr_DRAMTIMING3 :: mmr_step where
  "mmr_DRAMTIMING3 = Verified SDR_CTRLGRP_DRAMTIMING3_ADDRESS [
     (CONFIG_HPS_SDR_CTRLCFG_DRAMTIMING3_TRTP, SDR_CTRLGRP_DRAMTIMING3_TRTP_LSB,
      SDR_CTRLGRP_DRAMTIMING3_TRTP_MASK),
     (CONFIG_HPS_SDR_CTRLCFG_DRAMTIMING3_TRAS, SDR_CTRLGRP_DRAMTIMING3_TRAS_LSB,
      SDR_CTRLGRP_DRAMTIMING3_TRAS_MASK),
     (CONFIG_HPS_SDR_CTRLCFG_DRAMTIMING3_TRC, SDR_CTRLGRP_DRAMTIMING3_TRC_LSB,
      SDR_CTRLGRP_DRAMTIMING3_TRC_MASK),
     (CONFIG_HPS_SDR_CTRLCFG_DRAMTIMING3_TMRD, SDR_CTRLGRP_DRAMTIMING3_TMRD_LSB,
      SDR_CTRLGRP_DRAMTIMING3_TMRD_MASK),
     (CONFIG_HPS_SDR_CTRLCFG_DRAMTIMING3_TCCD, SDR_CTRLGRP_DRAMTIMING3_TCCD_LSB,
      SDR_CTRLGRP_DRAMTIMING3_TCCD_MASK)]"

definition mmr_DRAMTIMING4 :: mmr_step where
  "mmr_DRAMTIMING4 = Verified SDR_CTRLGRP_DRAMTIMING4_ADDRESS [
     (CONFIG_HPS_SDR_CTRLCFG_DRAMTIMING4_SELFRFSHEXIT, SDR_CTRLGRP_DRAMTIMING4_SELFRFSHEXIT_LSB,
      SDR_CTRLGRP_DRAMTIMING4_SELFRFSHEXIT_MASK),
     (CONFIG_HPS_SDR_CTRLCFG_DRAMTIMING4_PWRDOWNEXIT, SDR_CTRLGRP_DRAMTIMING4_PWRDOWNEXIT_LSB,
      SDR_CTRLGRP_DRAMTIMING4_PWRDOWNEXIT_MASK)]"

definition mmr_LOWPWRTIMING :: mmr_step where
  "mmr_LOWPWRTIMING = Verified SDR_CTRLGRP_LOWPWRTIMING_ADDRESS [
     (CONFIG_HPS_SDR_CTRLCFG_LOWPWRTIMING_AUTOPDCYCLES, SDR_CTRLGRP_LOWPWRTIMING_AUTOPDCYCLES_LSB,
      SDR_CTRLGRP_LOWPWRTIMING_AUTOPDCYCLES_MASK)]"

definition mmr_DRAMADDRW :: mmr_step where
  "mmr_DRAMADDRW = Verified SDR_CTRLGRP_DRAMADDRW_ADDRESS [
     (CONFIG_HPS_SDR_CTRLCFG_DRAMADDRW_COLBITS, SDR_CTRLGRP_DRAMADDRW_COLBITS_LSB,
      SDR_CTRLGRP_DRAMADDRW_COLBITS_MASK),
     (CONFIG_HPS_SDR_CTRLCFG_DRAMADDRW_ROWBITS, SDR_CTRLGRP_DRAMADDRW_ROWBITS_LSB,
      SDR_CTRLGRP_DRAMADDRW_ROWBITS_MASK),
     (CONFIG_HPS_SDR_CTRLCFG_DRAMADDRW_BANKBITS, SDR_CTRLGRP_DRAMADDRW_BANKBITS_LSB,
      SDR_CTRLGRP_DRAMADDRW_BANKBITS_MASK),
     (CONFIG_HPS_SDR_CTRLCFG_DRAMADDRW_CSBITS, SDR_CTRLGRP_DRAMADDRW_CSBITS_LSB,
      SDR_CTRLGRP_DRAMADDRW_CSBITS_MASK)]"

definition mmr_DRAMIFWIDTH :: mmr_step where
  "mmr_DRAMIFWIDTH = Verified SDR_CTRLGRP_DRAMIFWIDTH_ADDRESS [
     (CONFIG_HPS_SDR_CTRLCFG_DRAMIFWIDTH_IFWIDTH, SDR_CTRLGRP_DRAMIFWIDTH_IFWIDTH_LSB,
      SDR_CTRLGRP_DRAMIFWIDTH_IFWIDTH_MASK)]"

definition mmr_DRAMDEVWIDTH :: mmr_step where
  "mmr_DRAMDEVWIDTH = Verified SDR_CTRLGRP_DRAMDEVWIDTH_ADDRESS [
     (CONFIG_HPS_SDR_CTRLCFG_DRAMDEVWIDTH_DEVWIDTH, SDR_CTRLGRP_DRAMDEVWIDTH_DEVWIDTH_LSB,
      SDR_CTRLGRP_DRAMDEVWIDTH_DEVWIDTH_MASK)]"

definition mmr_DRAMINTR :: mmr_step where
  "mmr_DRAMINTR = Verified SDR_CTRLGRP_DRAMINTR_ADDRESS [
     (CONFIG_HPS_SDR_CTRLCFG_DRAMINTR_INTREN, SDR_CTRLGRP_DRAMINTR_INTREN_LSB,
      SDR_CTRLGRP_DRAMINTR_INTREN_MASK)]"

definition mmr_STATICCFG :: mmr_step where
  "mmr_STATICCFG = Verified SDR_CTRLGRP_STATICCFG_ADDRESS [
     (CONFIG_HPS_SDR_CTRLCFG_STATICCFG_MEMBL, SDR_CTRLGRP_STATICCFG_MEMBL_LSB,
      SDR_CTRLGRP_STATICCFG_MEMBL_MASK),
     (CONFIG_HPS_SDR_CTRLCFG_STATICCFG_USEECCASDATA, SDR_CTRLGRP_STATICCFG_USEECCASDATA_LSB,
      SDR_CTRLGRP_STATICCFG_USEECCASDATA_MASK)]"

definition mmr_CTRLWIDTH :: mmr_step where
  "mmr_CTRLWIDTH = Verified SDR_CTRLGRP_CTRLWIDTH_ADDRESS [
     (CONFIG_HPS_SDR_CTRLCFG_CTRLWIDTH_CTRLWIDTH, SDR_CTRLGRP_CTRLWIDTH_CTRLWIDTH_LSB,
      SDR_CTRLGRP_CTRLWIDTH_CTRLWIDTH_MASK)]"

definition mmr_PORTCFG :: mmr_step where
  "mmr_PORTCFG = Verified SDR_CTRLGRP_PORTCFG_ADDRESS [
     (CONFIG_HPS_SDR_CTRLCFG_PORTCFG_AUTOPCHEN, SDR_CTRLGRP_PORTCFG_AUTOPCHEN_LSB,
      SDR_CTRLGRP_PORTCFG_AUTOPCHEN_MASK)]"

definition mmr_FIFOCFG :: mmr_step where
  "mmr_FIFOCFG = Verified SDR_CTRLGRP_FIFOCFG_ADDRESS [
     (CONFIG_HPS_SDR_CTRLCFG_FIFOCFG_SYNCMODE, SDR_CTRLGRP_FIFOCFG_SYNCMODE_LSB,
      SDR_CTRLGRP_FIFOCFG_SYNCMODE_MASK),
     (CONFIG_HPS_SDR_CTRLCFG_FIFOCFG_INCSYNC, SDR_CTRLGRP_FIFOCFG_INCSYNC_LSB,
      SDR_CTRLGRP_FIFOCFG_INCSYNC_MASK)]"

definition mmr_MPPRIORITY :: mmr_step where
  "mmr_MPPRIORITY = Verified SDR_CTRLGRP_MPPRIORITY_ADDRESS [
     (CONFIG_HPS_SDR_CTRLCFG_MPPRIORITY_USERPRIORITY, SDR_CTRLGRP_MPPRIORITY_USERPRIORITY_LSB,
      SDR_CTRLGRP_MPPRIORITY_USERPRIORITY_MASK)]"

definition mmr_MPWEIGHT_MPWEIGHT_0 :: mmr_step where
  "mmr_MPWEIGHT_MPWEIGHT_0 = Verified SDR_CTRLGRP_MPWEIGHT_MPWEIGHT_0_ADDRESS [
     (CONFIG_HPS_SDR_CTRLCFG_MPWIEIGHT_0_STATICWEIGHT_31_0, SDR_CTRLGRP_MPWEIGHT_MPWEIGHT_0_STATICWEIGHT_31_0_LSB,
      SDR_CTRLGRP_MPWEIGHT_MPWEIGHT_0_STATICWEIGHT_31_0_MASK)]"

definition mmr_MPWEIGHT_MPWEIGHT_1 :: mmr_step where
  "mmr_MPWEIGHT_MPWEIGHT_1 = Verified SDR_CTRLGRP_MPWEIGHT_MPWEIGHT_1_ADDRESS [
     (CONFIG_HPS_SDR_CTRLCFG_MPWIEIGHT_1_STATICWEIGHT_49_32, SDR_CTRLGRP_MPWEIGHT_MPWEIGHT_1_STATICWEIGHT_49_32_LSB,
      SDR_CTRLGRP_MPWEIGHT_MPWEIGHT_1_STATICWEIGHT_49_32_MASK),
     (CONFIG_HPS_SDR_CTRLCFG_MPWIEIGHT_1_SUMOFWEIGHT_13_0, SDR_CTRLGRP_MPWEIGHT_MPWEIGHT_1_SUMOFWEIGHTS_13_0_LSB,
      SDR_CTRLGRP_MPWEIGHT_MPWEIGHT_1_SUMOFWEIGHTS_13_0_MASK)]"

definition mmr_MPWEIGHT_MPWEIGHT_2 :: mmr_step where
  "mmr_MPWEIGHT_MPWEIGHT_2 = Verified SDR_CTRLGRP_MPWEIGHT_MPWEIGHT_2_ADDRESS [
     (CONFIG_HPS_SDR_CTRLCFG_MPWIEIGHT_2_SUMOFWEIGHT_45_14, SDR_CTRLGRP_MPWEIGHT_MPWEIGHT_2_SUMOFWEIGHTS_45_14_LSB,
      SDR_CTRLGRP_MPWEIGHT_MPWEIGHT_2_SUMOFWEIGHTS_45_14_MASK)]"

definition mmr_MPWEIGHT_MPWEIGHT_3 :: mmr_step where
  "mmr_MPWEIGHT_MPWEIGHT_3 = Verified SDR_CTRLGRP_MPWEIGHT_MPWEIGHT_3_ADDRESS [
     (CONFIG_HPS_SDR_CTRLCFG_MPWIEIGHT_3_SUMOFWEIGHT_63_46, SDR_CTRLGRP_MPWEIGHT_MPWEIGHT_3_SUMOFWEIGHTS_63_46_LSB,
      SDR_CTRLGRP_MPWEIGHT_MPWEIGHT_3_SUMOFWEIGHTS_63_46_MASK)]"

definition mmr_MPPACING_MPPACING_0 :: mmr_step where
  "mmr_MPPACING_MPPACING_0 = Verified SDR_CTRLGRP_MPPACING_MPPACING_0_ADDRESS [
     (CONFIG_HPS_SDR_CTRLCFG_MPPACING_0_THRESHOLD1_31_0, SDR_CTRLGRP_MPPACING_MPPACING_0_THRESHOLD1_31_0_LSB,
      SDR_CTRLGRP_MPPACING_MPPACING_0_THRESHOLD1_31_0_MASK)]"

definition mmr_MPPACING_MPPACING_1 :: mmr_step where
  "mmr_MPPACING_MPPACING_1 = Verified SDR_CTRLGRP_MPPACING_MPPACING_1_ADDRESS [
     (CONFIG_HPS_SDR_CTRLCFG_MPPACING_1_THRESHOLD1_59_32, SDR_CTRLGRP_MPPACING_MPPACING_1_THRESHOLD1_59_32_LSB,
      SDR_CTRLGRP_MPPACING_MPPACING_1_THRESHOLD1_59_32_MASK),
     (CONFIG_HPS_SDR_CTRLCFG_MPPACING_1_THRESHOLD2_3_0, SDR_CTRLGRP_MPPACING_MPPACING_1_THRESHOLD2_3_0_LSB,
      SDR_CTRLGRP_MPPACING_MPPACING_1_THRESHOLD2_3_0_MASK)]"

definition mmr_MPPACING_MPPACING_2 :: mmr_step where
  "mmr_MPPACING_MPPACING_2 = Verified SDR_CTRLGRP_MPPACING_MPPACING_2_ADDRESS [
     (CONFIG_HPS_SDR_CTRLCFG_MPPACING_2_THRESHOLD2_35_4, SDR_CTRLGRP_MPPACING_MPPACING_2_THRESHOLD2_35_4_LSB,
      SDR_CTRLGRP_MPPACING_MPPACING_2_THRESHOLD2_35_4_MASK)]"

definition mmr_MPPACING_MPPACING_3 :: mmr_step where
  "mmr_MPPACING_MPPACING_3 = Verified SDR_CTRLGRP_MPPACING_MPPACING_3_ADDRESS [
     (CONFIG_HPS_SDR_CTRLCFG_MPPACING_3_THRESHOLD2_59_36, SDR_CTRLGRP_MPPACING_MPPACING_3_THRESHOLD2_59_36_LSB,
      SDR_CTRLGRP_MPPACING_MPPACING_3_THRESHOLD2_59_36_MASK)]"

definition mmr_MPTHRESHOLDRST_MPTHRESHOLDRST_0 :: mmr_step where
  "mmr_MPTHRESHOLDRST_MPTHRESHOLDRST_0 = Verified SDR_CTRLGRP_MPTHRESHOLDRST_MPTHRESHOLDRST_0_ADDRESS [
     (CONFIG_HPS_SDR_CTRLCFG_MPTHRESHOLDRST_0_THRESHOLDRSTCYCLES_31_0, SDR_CTRLGRP_MPTHRESHOLDRST_MPTHRESHOLDRST_0_THRESHOLDRSTCYCLES_31_0_LSB,
      SDR_CTRLGRP_MPTHRESHOLDRST_MPTHRESHOLDRST_0_THRESHOLDRSTCYCLES_31_0_MASK)]"

definition mmr_MPTHRESHOLDRST_MPTHRESHOLDRST_1 :: mmr_step where
  "mmr_MPTHRESHOLDRST_MPTHRESHOLDRST_1 = Verified SDR_CTRLGRP_MPTHRESHOLDRST_MPTHRESHOLDRST_1_ADDRESS [
     (CONFIG_HPS_SDR_CTRLCFG_MPTHRESHOLDRST_1_THRESHOLDRSTCYCLES_63_32, SDR_CTRLGRP_MPTHRESHOLDRST_MPTHRESHOLDRST_1_THRESHOLDRSTCYCLES_63_32_LSB,
      SDR_CTRLGRP_MPTHRESHOLDRST_MPTHRESHOLDRST_1_THRESHOLDRSTCYCLES_63_32_MASK)]"

definition mmr_MPTHRESHOLDRST_MPTHRESHOLDRST_2 :: mmr_step where
  "mmr_MPTHRESHOLDRST_MPTHRESHOLDRST_2 = Verified SDR_CTRLGRP_MPTHRESHOLDRST_MPTHRESHOLDRST_2_ADDRESS [
     (CONFIG_HPS_SDR_CTRLCFG_MPTHRESHOLDRST_2_THRESHOLDRSTCYCLES_79_64, SDR_CTRLGRP_MPTHRESHOLDRST_MPTHRESHOLDRST_2_THRESHOLDRSTCYCLES_79_64_LSB,
      SDR_CTRLGRP_MPTHRESHOLDRST_MPTHRESHOLDRST_2_THRESHOLDRSTCYCLES_79_64_MASK)]"

definition mmr_PHYCTRL_PHYCTRL_0 :: mmr_step where
  "mmr_PHYCTRL_PHYCTRL_0 = Fixed SDR_CTRLGRP_PHYCTRL_PHYCTRL_0_ADDRESS CONFIG_HPS_SDR_CTRLCFG_PHYCTRL_PHYCTRL_0"

definition mmr_CPORTWIDTH_CPORTWIDTH :: mmr_step where
  "mmr_CPORTWIDTH_CPORTWIDTH = Unverified SDR_CTRLGRP_CPORTWIDTH_ADDRESS [
     (CONFIG_HPS_SDR_CTRLCFG_CPORTWIDTH_CPORTWIDTH, SDR_CTRLGRP_CPORTWIDTH_CMDPORTWIDTH_LSB,
      SDR_CTRLGRP_CPORTWIDTH_CMDPORTWIDTH_MASK)]"

definition mmr_CPORTWMAP_CPORTWMAP :: mmr_step where
  "mmr_CPORTWMAP_CPORTWMAP = Unverified SDR_CTRLGRP_CPORTWMAP_ADDRESS [
     (CONFIG_HPS_SDR_CTRLCFG_CPORTWMAP_CPORTWMAP, SDR_CTRLGRP_CPORTWMAP_CPORTWFIFOMAP_LSB,
      SDR_CTRLGRP_CPORTWMAP_CPORTWFIFOMAP_MASK)]"

definition mmr_CPORTRMAP_CPORTRMAP :: mmr_step where
  "mmr_CPORTRMAP_CPORTRMAP = Unverified SDR_CTRLGRP_CPORTRMAP_ADDRESS [
     (CONFIG_HPS_SDR_CTRLCFG_CPORTRMAP_CPORTRMAP, SDR_CTRLGRP_CPORTRMAP_CPORTRFIFOMAP_LSB,
      SDR_CTRLGRP_CPORTRMAP_CPORTRFIFOMAP_MASK)]"

definition mmr_RFIFOCMAP_RFIFOCMAP :: mmr_step where
  "mmr_RFIFOCMAP_RFIFOCMAP = Unverified SDR_CTRLGRP_RFIFOCMAP_ADDRESS [
     (CONFIG_HPS_SDR_CTRLCFG_RFIFOCMAP_RFIFOCMAP, SDR_CTRLGRP_RFIFOCMAP_RFIFOCPORTMAP_LSB,
      SDR_CTRLGRP_RFIFOCMAP_RFIFOCPORTMAP_MASK)]"

definition mmr_WFIFOCMAP_WFIFOCMAP :: mmr_step where
  "mmr_WFIFOCMAP_WFIFOCMAP = Unverified SDR_CTRLGRP_WFIFOCMAP_ADDRESS [
     (CONFIG_HPS_SDR_CTRLCFG_WFIFOCMAP_WFIFOCMAP, SDR_CTRLGRP_WFIFOCMAP_WFIFOCPORTMAP_LSB,
      SDR_CTRLGRP_WFIFOCMAP_WFIFOCPORTMAP_MASK)]"

definition mmr_CPORTRDWR_CPORTRDWR :: mmr_step where
  "mmr_CPORTRDWR_CPORTRDWR = Unverified SDR_CTRLGRP_CPORTRDWR_ADDRESS [
     (CONFIG_HPS_SDR_CTRLCFG_CPORTRDWR_CPORTRDWR, SDR_CTRLGRP_CPORTRDWR_CPORTRDWR_LSB,
      SDR_CTRLGRP_CPORTRDWR_CPORTRDWR_MASK)]"

definition mmr_DRAMODT :: mmr_step where
  "mmr_DRAMODT = Verified SDR_CTRLGRP_DRAMODT_ADDRESS [
     (CONFIG_HPS_SDR_CTRLCFG_DRAMODT_READ, SDR_CTRLGRP_DRAMODT_READ_LSB,
      SDR_CTRLGRP_DRAMODT_READ_MASK),
     (CONFIG_HPS_SDR_CTRLCFG_DRAMODT_WRITE, SDR_CTRLGRP_DRAMODT_WRITE_LSB,
      SDR_CTRLGRP_DRAMODT_WRITE_MASK)]"

definition mmr_table :: "mmr_step list" where
  "mmr_table = [
     mmr_CTRLCFG, mmr_DRAMTIMING1, mmr_DRAMTIMING2, mmr_DRAMTIMING3, mmr_DRAMTIMING4,
     mmr_LOWPWRTIMING, mmr_DRAMADDRW, mmr_DRAMIFWIDTH, mmr_DRAMDEVWIDTH, mmr_DRAMINTR,
     mmr_STATICCFG, mmr_CTRLWIDTH, mmr_PORTCFG, mmr_FIFOCFG, mmr_MPPRIORITY,
     mmr_MPWEIGHT_MPWEIGHT_0, mmr_MPWEIGHT_MPWEIGHT_1, mmr_MPWEIGHT_MPWEIGHT_2,
     mmr_MPWEIGHT_MPWEIGHT_3, mmr_MPPACING_MPPACING_0, mmr_MPPACING_MPPACING_1,
     mmr_MPPACING_MPPACING_2, mmr_MPPACING_MPPACING_3, mmr_MPTHRESHOLDRST_MPTHRESHOLDRST_0,
     mmr_MPTHRESHOLDRST_MPTHRESHOLDRST_1, mmr_MPTHRESHOLDRST_MPTHRESHOLDRST_2,
     mmr_PHYCTRL_PHYCTRL_0, mmr_CPORTWIDTH_CPORTWIDTH, mmr_CPORTWMAP_CPORTWMAP,
     mmr_CPORTRMAP_CPORTRMAP, mmr_RFIFOCMAP_RFIFOCMAP, mmr_WFIFOCMAP_WFIFOCMAP,
     mmr_CPORTRDWR_CPORTRDWR, mmr_DRAMODT]"

section \<open>The whole initialisation\<close>

text \<open>One block after another; \<open>COMPARE_FAIL_ACTION\<close> is \<open>return 1\<close>.\<close>

primrec run_blocks :: "mmr_step list \<Rightarrow> u32 io \<Rightarrow> u32 io" where
  "run_blocks [] k = k"
| "run_blocks (b # bs) k = bind_io (run_mmr b) (\<lambda>r. if r = 1 then ret 1 else run_blocks bs k)"

definition fpgaportrst_block :: "u32 io" where
  "fpgaportrst_block =
     seq_io (writel CONFIG_HPS_SDR_CTRLCFG_FPGAPORTRST ISWGRP_HANDOFF_FPGA2SDR)
     (bind_io is_fpgamgr_fpga_ready (\<lambda>ready. if ready
       then sdram_write_verify SDR_CTRLGRP_FPGAPORTRST_ADDRESS CONFIG_HPS_SDR_CTRLCFG_FPGAPORTRST
       else ret 0))"

definition apply_config :: "u32 io" where
  "apply_config = run_mmr (Unverified SDR_CTRLGRP_STATICCFG_ADDRESS
     [(1, SDR_CTRLGRP_STATICCFG_APPLYCFG_LSB, SDR_CTRLGRP_STATICCFG_APPLYCFG_MASK)])"

definition sdram_mmr_init_full :: "u32 io" where
  "sdram_mmr_init_full = run_blocks mmr_table
     (bind_io fpgaportrst_block (\<lambda>r. if r = 1 then ret 1 else apply_config))"

section \<open>Fields\<close>

lemma field_own: "sdram_write_register_field r d l m AND m = shl d l AND m"
  and field_other: "m AND k = 0 \<Longrightarrow> sdram_write_register_field r d l m AND k = r AND k"
proof -
  show "sdram_write_register_field r d l m AND m = shl d l AND m"
    by (rule bit_word_eqI) (auto simp: sdram_write_register_field_def bit_simps)
  assume "m AND k = 0"
  then have "\<not> (bit m n \<and> bit k n)" for n
    by (metis bit_and_iff bit_0_eq bot_apply bot_bool_def)
  then show "sdram_write_register_field r d l m AND k = r AND k"
    by (intro bit_word_eqI) (auto simp: sdram_write_register_field_def bit_simps)
qed

text \<open>
  Updating a field is exact: the bits under the mask come from the shifted data, all
  others are kept; an update of a disjoint field leaves this one alone.
\<close>

theorem write_register_field_exact:
  assumes "m AND k = 0"
  shows "sdram_write_register_field r d l m AND m = shl d l AND m \<and>
   sdram_write_register_field r d l m AND NOT m = r AND NOT m \<and>
   sdram_write_register_field r d l m AND k = r AND k"
  using field_own field_other [of m "NOT m"] field_other [OF assms] by simp

theorem write_register_field_exact_witness:
  "sdram_write_register_field 0xffff00ff 0x12 8 0xff00 AND 0xff = 0xff"
  using write_register_field_exact [of "0xff00" "0xff" "0xffff00ff" "0x12" 8] by simp

text \<open>The fields of a block do not overlap.\<close>

fun disjoint_fields :: "(u32 \<times> u32 \<times> u32) list \<Rightarrow> bool" where
  "disjoint_fields [] = True"
| "disjoint_fields ((d, l, m) # fs) \<longleftrightarrow> list_all (\<lambda>(_, _, k). k AND m = 0) fs \<and> disjoint_fields fs"

definition field_holds :: "u32 \<Rightarrow> u32 \<times> u32 \<times> u32 \<Rightarrow> bool" where
  "field_holds v f = (case f of (d, l, m) \<Rightarrow> v AND m = shl d l AND m)"

lemma update_fields_Cons:
  "update_fields ((d, l, m) # fs) v = update_fields fs (sdram_write_register_field v d l m)"
  by (simp add: update_fields_def)

lemma update_fields_other:
  "list_all (\<lambda>(_, _, m). m AND k = 0) fs \<Longrightarrow> update_fields fs v AND k = v AND k"
  by (induction fs arbitrary: v) (auto simp: update_fields_def field_other)

lemma update_fields_hold:
  "disjoint_fields fs \<Longrightarrow> list_all (field_holds (update_fields fs v)) fs"
proof (induction fs arbitrary: v rule: disjoint_fields.induct)
  case (2 d l m fs)
  then have "update_fields ((d, l, m) # fs) v AND m = shl d l AND m"
    by (simp add: update_fields_Cons update_fields_other field_own)
  with 2 show ?case by (simp add: field_holds_def update_fields_Cons)
qed simp

section \<open>Verification of the writes\<close>

primrec step_off :: "mmr_step \<Rightarrow> u32" where
  "step_off (Verified off fs) = off"
| "step_off (Unverified off fs) = off"
| "step_off (Fixed off v) = off"

primrec step_verified :: "mmr_step \<Rightarrow> bool" where
  "step_verified (Verified off fs) = True"
| "step_verified (Unverified off fs) = False"
| "step_verified (Fixed off v) = True"

text \<open>The register was written and the next access read the value back.\<close>

fun confirmed :: "u32 \<Rightarrow> event list \<Rightarrow> bool" where
  "confirmed a (Rd b v # Wr c w # h) \<longleftrightarrow> (a = b \<and> a = c \<and> v = w) \<or> confirmed a h"
| "confirmed a (e # h) = confirmed a h"
| "confirmed a [] = False"

text \<open>The last access read back something else than the write before it.\<close>

fun mismatch :: "event list \<Rightarrow> bool" where
  "mismatch (Rd b v # Wr c w # h) \<longleftrightarrow> b = c \<and> v \<noteq> w"
| "mismatch _ = False"

lemma confirmed_Cons [simp]: "confirmed a h \<Longrightarrow> confirmed a (e # h)"
proof (cases e)
  fix b v assume "confirmed a h" and "e = Rd b v"
  then show ?thesis by (cases "(a, e # h)" rule: confirmed.cases) auto
qed simp_all

lemma confirmed_append: "confirmed a h \<Longrightarrow> confirmed a (es @ h)"
  by (induction es) simp_all

definition step_confirmed :: "event list \<Rightarrow> mmr_step \<Rightarrow> bool" where
  "step_confirmed h b \<longleftrightarrow> (step_verified b \<longrightarrow> confirmed (sdr_reg (step_off b)) h)"

lemma step_confirmed_append: "step_confirmed h b \<Longrightarrow> step_confirmed (es @ h) b"
  by (simp add: step_confirmed_def confirmed_append)

lemma wp_write_verify:
  assumes "\<And>v. Q 0 (s\<lparr>trace := Rd (sdr_reg off) x # Wr (sdr_reg off) x # trace s\<rparr>)"
    and "\<And>v. v \<noteq> x \<Longrightarrow> Q 1 (s\<lparr>trace := Rd (sdr_reg off) v # Wr (sdr_reg off) x # trace s\<rparr>)"
  shows "wp (sdram_write_verify off x) Q H s"
  using assms by (auto simp: sdram_write_verify_def wp_rules wp_readl)

lemma wp_run_mmr:
  assumes "\<And>t es. trace t = es @ trace s \<Longrightarrow> step_confirmed (trace t) b \<Longrightarrow> Q 0 t"
    and "\<And>t. mismatch (trace t) \<Longrightarrow> Q 1 t"
  shows "wp (run_mmr b) Q H s"
proof (cases b)
  case (Verified off fs)
  then show ?thesis
    unfolding Verified run_mmr.simps wp_bind
    by (intro wp_readl_all wp_write_verify)
      (auto intro!: assms(2), rule assms(1) [of _ "[_, _, _]"], auto simp: step_confirmed_def Verified)
next
  case (Unverified off fs)
  then show ?thesis
    by (auto simp: wp_rules wp_readl step_confirmed_def Unverified intro!: assms(1) [of _ "[_, _, _]"])
next
  case (Fixed off v)
  then show ?thesis
    unfolding Fixed run_mmr.simps
    by (intro wp_write_verify)
      (auto intro!: assms(2), rule assms(1) [of _ "[_, _]"], auto simp: step_confirmed_def Fixed)
qed

lemma wp_run_blocks:
  assumes "\<And>t es. trace t = es @ trace s \<Longrightarrow> list_all (step_confirmed (trace t)) bs \<Longrightarrow> wp k Q H t"
    and "\<And>t. mismatch (trace t) \<Longrightarrow> Q 1 t"
  shows "wp (run_blocks bs k) Q H s"
  using assms(1)
proof (induction bs arbitrary: s)
  case Nil
  from Nil [of s "[]"] show ?case by simp
next
  case (Cons b bs)
  show ?case
    unfolding run_blocks.simps wp_bind
  proof (rule wp_run_mmr)
    fix t :: mach and es assume t: "trace t = es @ trace s" and b: "step_confirmed (trace t) b"
    have "wp (run_blocks bs k) Q H t"
    proof (rule Cons.IH)
      fix u :: mach and fs assume u: "trace u = fs @ trace t" and "list_all (step_confirmed (trace u)) bs"
      with b show "wp k Q H u"
        by (intro Cons.prems [of u "fs @ es"]) (auto simp: t u step_confirmed_append)
    qed
    then show "wp (if (0 :: u32) = 1 then ret 1 else run_blocks bs k) Q H t" by simp
  qed (simp add: wp_ret assms(2))
qed

lemma wp_sdram_init:
  "wp sdram_mmr_init_full (\<lambda>r t.
     (r = 0 \<and> list_all (\<lambda>b. confirmed (sdr_reg (step_off b)) (trace t)) (filter step_verified mmr_table)) \<or>
     (r = 1 \<and> mismatch (trace t))) H s"
proof -
  let ?ok = "\<lambda>t. list_all (step_confirmed (trace t)) mmr_table"
  let ?Q = "\<lambda>(r :: u32) t. (r = 0 \<and> ?ok t) \<or> (r = 1 \<and> mismatch (trace t))"
  have keep: "?ok t" if "?ok s" "trace t = es @ trace s" for s t :: mach and es
    using that by (auto simp: list_all_iff step_confirmed_append)
  have apply_cfg: "wp apply_config ?Q H t" if "?ok t" for t
    unfolding apply_config_def by (rule wp_run_mmr) (use keep [OF that] in auto)
  have port: "wp fpgaportrst_block (\<lambda>r. wp (if r = 1 then ret 1 else apply_config) ?Q H) H t" if "?ok t" for t
    unfolding fpgaportrst_block_def wp_seq wp_writel
  proof (rule single_shot.wp_guarded)
    fix u assume "after_reads (t\<lparr>trace := Wr ISWGRP_HANDOFF_FPGA2SDR CONFIG_HPS_SDR_CTRLCFG_FPGAPORTRST # trace t\<rparr>) u"
    from after_reads_trace [OF this] obtain fs where
      "trace u = fs @ trace (t\<lparr>trace := Wr ISWGRP_HANDOFF_FPGA2SDR CONFIG_HPS_SDR_CTRLCFG_FPGAPORTRST # trace t\<rparr>)"
      by blast
    then have u: "trace u = (fs @ [Wr ISWGRP_HANDOFF_FPGA2SDR CONFIG_HPS_SDR_CTRLCFG_FPGAPORTRST]) @ trace t"
      by simp
    have ok: "?ok (u\<lparr>trace := xs @ trace u\<rparr>)" for xs
      by (rule keep [OF that, of _ "xs @ fs @ [Wr ISWGRP_HANDOFF_FPGA2SDR CONFIG_HPS_SDR_CTRLCFG_FPGAPORTRST]"])
        (simp add: u)
    show "wp (sdram_write_verify SDR_CTRLGRP_FPGAPORTRST_ADDRESS CONFIG_HPS_SDR_CTRLCFG_FPGAPORTRST)
      (\<lambda>r. wp (if r = 1 then ret 1 else apply_config) ?Q H) H u"
      by (rule wp_write_verify) (use ok [of "[_, _]"] in \<open>auto simp: wp_ret intro!: apply_cfg\<close>)
    show "wp (ret 0) (\<lambda>r. wp (if r = (1 :: u32) then ret 1 else apply_config) ?Q H) H u"
      using ok [of "[]"] by (simp add: wp_ret apply_cfg)
  qed
  have "wp sdram_mmr_init_full ?Q H s"
    unfolding sdram_mmr_init_full_def
    by (rule wp_run_blocks) (auto simp: wp_bind intro: port)
  then show ?thesis
    by (rule wp_mono) (auto simp: list_all_iff step_confirmed_def)
qed

lemma ends_write_verify [simp]: "ends (sdram_write_verify off v)"
  by (simp add: sdram_write_verify_def total_bind total_seq)

lemma ends_run_mmr [simp]: "ends (run_mmr b)"
  by (cases b) (simp_all add: total_bind total_seq)

lemma ends_run_blocks: "ends k \<Longrightarrow> ends (run_blocks bs k)"
  by (induction bs) (auto intro!: total_bind)

lemma ends_sdram_init [simp]: "ends sdram_mmr_init_full"
  using single_shot.check_total
  by (auto simp: sdram_mmr_init_full_def fpgaportrst_block_def apply_config_def simp del: run_mmr.simps
    intro!: ends_run_blocks total_bind total_seq)

text \<open>
  C18: The initialisation verifies what it writes, on every hardware: if it returns 0, every
  verified register was written and read back unchanged; it returns 1 only immediately
  after a read-back that differed, so nothing is written after a failure.
\<close>

theorem sdram_init_verified:
  "runs sdram_mmr_init_full (\<lambda>r t.
     (r = 0 \<and> list_all (\<lambda>b. confirmed (sdr_reg (step_off b)) (trace t)) (filter step_verified mmr_table)) \<or>
     (r = 1 \<and> mismatch (trace t))) s"
  by (rule runs_ends [OF ends_sdram_init wp_sdram_init])

section \<open>What the registers hold afterwards\<close>

text \<open>The abstract effect of a block on the contents of the controller's registers.\<close>

primrec step_value :: "mmr_step \<Rightarrow> u32 \<Rightarrow> u32" where
  "step_value (Verified off fs) v = update_fields fs v"
| "step_value (Unverified off fs) v = update_fields fs v"
| "step_value (Fixed off w) v = w"

definition apply_step :: "mmr_step \<Rightarrow> (u32 \<Rightarrow> u32) \<Rightarrow> u32 \<Rightarrow> u32" where
  "apply_step b f = f(sdr_reg (step_off b) := step_value b (f (sdr_reg (step_off b))))"

definition apply_steps :: "mmr_step list \<Rightarrow> (u32 \<Rightarrow> u32) \<Rightarrow> u32 \<Rightarrow> u32" where
  "apply_steps bs f = foldl (\<lambda>g b. apply_step b g) f bs"

definition sdr_regs :: "u32 set" where
  "sdr_regs = insert ISWGRP_HANDOFF_FPGA2SDR (insert (sdr_reg SDR_CTRLGRP_FPGAPORTRST_ADDRESS)
     (set (map (\<lambda>b. sdr_reg (step_off b)) mmr_table)))"

text \<open>Reading the registers as contents; a machine that refines the contents \<open>f\<close> on \<open>R\<close>.\<close>

definition holds_regs :: "mach \<Rightarrow> u32 set \<Rightarrow> (u32 \<Rightarrow> u32) \<Rightarrow> mach \<Rightarrow> bool" where
  "holds_regs s R f t \<longleftrightarrow> env t = env s \<and> (\<forall>a\<in>R. env s (trace t) a = f a)"

lemma holds_regs_Rd:
  assumes "rw_registers (env s) R" and "holds_regs s R f t"
  shows "holds_regs s R f (t\<lparr>trace := Rd a v # trace t\<rparr>)"
  using assms(2) by (simp add: holds_regs_def rw_registers.hw_Rd [OF assms(1)])

lemma holds_regs_Wr:
  assumes "rw_registers (env s) R" and "holds_regs s R f t"
  shows "holds_regs s R (f(a := v)) (t\<lparr>trace := Wr a v # trace t\<rparr>)"
  using assms(2) by (simp add: holds_regs_def rw_registers.hw_Wr [OF assms(1)])

lemma wp_readl_regs:
  assumes "rw_registers (env s) R" and "holds_regs s R f t" and "a \<in> R"
    and "\<And>u. holds_regs s R f u \<Longrightarrow> Q (f a) u"
  shows "wp (readl a) Q H t"
proof -
  have "env t (trace t) a = f a" using assms(2,3) by (simp add: holds_regs_def)
  with assms(4) holds_regs_Rd [OF assms(1,2)] show ?thesis by (simp add: wp_readl)
qed

lemma wp_writel_regs:
  assumes "rw_registers (env s) R" and "holds_regs s R f t"
    and "\<And>u. holds_regs s R (f(a := v)) u \<Longrightarrow> Q () u"
  shows "wp (writel v a) Q H t"
  using assms(3) holds_regs_Wr [OF assms(1,2)] by (simp add: wp_writel)

lemma wp_write_verify_regs:
  assumes "rw_registers (env s) R" and "holds_regs s R f t" and "sdr_reg off \<in> R"
    and "\<And>u. holds_regs s R (f(sdr_reg off := v)) u \<Longrightarrow> Q 0 u"
  shows "wp (sdram_write_verify off v) Q H t"
  unfolding sdram_write_verify_def wp_seq wp_bind wp_ret
  by (rule wp_writel_regs [OF assms(1,2)], rule wp_readl_regs [OF assms(1) _ assms(3)])
    (use assms(4) in auto)

lemma holds_regs_after_reads:
  assumes "rw_registers (env s) R" and "holds_regs s R f t" and "after_reads t u"
  shows "holds_regs s R f u"
proof -
  have "holds_regs s R f (t\<lparr>trace := es @ trace t\<rparr>)" if "reads_only es" for es
    using that
  proof (induction es)
    case (Cons e es)
    then obtain a v where "e = Rd a v" "reads_only es" by (cases e) (auto simp: reads_only_def)
    with Cons.IH show ?case
      using holds_regs_Rd [OF assms(1), of f "t\<lparr>trace := es @ trace t\<rparr>" a v] by simp
  qed (use assms(2) in simp)
  with assms(3) show ?thesis by (auto simp: after_reads_def)
qed

text \<open>Each block refines its abstract effect, hence so does any sequence of blocks.\<close>

lemma wp_run_mmr_regs:
  assumes "rw_registers (env s) R" and "holds_regs s R f t" and "sdr_reg (step_off b) \<in> R"
    and "\<And>u. holds_regs s R (apply_step b f) u \<Longrightarrow> Q 0 u"
  shows "wp (run_mmr b) Q H t"
proof (cases b)
  case (Verified off fs)
  with assms(3,4) show ?thesis
    by (auto simp: wp_bind apply_step_def
      intro!: wp_readl_regs [OF assms(1,2)] wp_write_verify_regs [OF assms(1)])
next
  case (Unverified off fs)
  with assms(3,4) show ?thesis
    by (auto simp: wp_bind wp_seq wp_ret apply_step_def
      intro!: wp_readl_regs [OF assms(1)] wp_writel_regs [OF assms(1)] assms(2))
next
  case (Fixed off v)
  with assms(3,4) show ?thesis
    by (auto simp: apply_step_def intro!: wp_write_verify_regs [OF assms(1,2)])
qed

lemma wp_run_blocks_regs:
  assumes "rw_registers (env s) R" and "holds_regs s R f t"
    and "\<forall>b\<in>set bs. sdr_reg (step_off b) \<in> R"
    and "\<And>u. holds_regs s R (apply_steps bs f) u \<Longrightarrow> wp k Q H u"
  shows "wp (run_blocks bs k) Q H t"
  using assms(2-)
proof (induction bs arbitrary: f t)
  case (Cons b bs)
  show ?case
    unfolding run_blocks.simps wp_bind
  proof (rule wp_run_mmr_regs [OF assms(1) Cons.prems(1)])
    fix u assume u: "holds_regs s R (apply_step b f) u"
    have "wp (run_blocks bs k) Q H u"
      by (rule Cons.IH [OF u]) (use Cons.prems(2,3) in \<open>simp_all add: apply_steps_def\<close>)
    then show "wp (if (0 :: u32) = 1 then ret 1 else run_blocks bs k) Q H u" by simp
  qed (use Cons.prems(2) in simp)
qed (simp add: apply_steps_def)

lemma apply_steps_other:
  "a \<notin> set (map (\<lambda>b. sdr_reg (step_off b)) bs) \<Longrightarrow> apply_steps bs f a = f a"
  by (induction bs arbitrary: f) (simp_all add: apply_steps_def apply_step_def)

lemma apply_steps_value:
  "distinct (map (\<lambda>b. sdr_reg (step_off b)) bs) \<Longrightarrow> b \<in> set bs \<Longrightarrow>
    apply_steps bs f (sdr_reg (step_off b)) = step_value b (f (sdr_reg (step_off b)))"
proof (induction bs arbitrary: f)
  case (Cons c bs)
  have step: "apply_steps (c # bs) f = apply_steps bs (apply_step c f)" by (simp add: apply_steps_def)
  show ?case
  proof (cases "b = c")
    case True
    with Cons.prems show ?thesis by (simp add: step apply_steps_other apply_step_def)
  next
    case False
    with Cons.prems have "sdr_reg (step_off b) \<noteq> sdr_reg (step_off c)"
      by (metis (no_types, lifting) distinct.simps(2) image_eqI list.set_map list.simps(9) set_ConsD)
    with False Cons show ?thesis by (simp add: step apply_step_def)
  qed
qed simp

text \<open>The table is well formed: no register twice, no overlapping fields.\<close>

primrec step_fields :: "mmr_step \<Rightarrow> (u32 \<times> u32 \<times> u32) list" where
  "step_fields (Verified off fs) = fs"
| "step_fields (Unverified off fs) = fs"
| "step_fields (Fixed off v) = [(v, 0, NOT 0)]"

lemmas mmr_defs = mmr_CTRLCFG_def mmr_DRAMTIMING1_def mmr_DRAMTIMING2_def mmr_DRAMTIMING3_def
  mmr_DRAMTIMING4_def mmr_LOWPWRTIMING_def mmr_DRAMADDRW_def mmr_DRAMIFWIDTH_def mmr_DRAMDEVWIDTH_def
  mmr_DRAMINTR_def mmr_STATICCFG_def mmr_CTRLWIDTH_def mmr_PORTCFG_def mmr_FIFOCFG_def
  mmr_MPPRIORITY_def mmr_MPWEIGHT_MPWEIGHT_0_def mmr_MPWEIGHT_MPWEIGHT_1_def
  mmr_MPWEIGHT_MPWEIGHT_2_def mmr_MPWEIGHT_MPWEIGHT_3_def mmr_MPPACING_MPPACING_0_def
  mmr_MPPACING_MPPACING_1_def mmr_MPPACING_MPPACING_2_def mmr_MPPACING_MPPACING_3_def
  mmr_MPTHRESHOLDRST_MPTHRESHOLDRST_0_def mmr_MPTHRESHOLDRST_MPTHRESHOLDRST_1_def
  mmr_MPTHRESHOLDRST_MPTHRESHOLDRST_2_def mmr_PHYCTRL_PHYCTRL_0_def mmr_CPORTWIDTH_CPORTWIDTH_def
  mmr_CPORTWMAP_CPORTWMAP_def mmr_CPORTRMAP_CPORTRMAP_def mmr_RFIFOCMAP_RFIFOCMAP_def
  mmr_WFIFOCMAP_WFIFOCMAP_def mmr_CPORTRDWR_CPORTRDWR_def mmr_DRAMODT_def

lemma table_fields: "list_all (\<lambda>b. disjoint_fields (step_fields b)) mmr_table"
  by (simp add: mmr_table_def mmr_defs reg_defs)

lemma table_regs:
  "map (\<lambda>b. sdr_reg (step_off b)) mmr_table = map (\<lambda>off. 0xffc20000 + off)
     [0x5000, 0x5004, 0x5008, 0x500c, 0x5010, 0x5014, 0x502c, 0x5030, 0x5034, 0x503c, 0x505c,
      0x5060, 0x507c, 0x5088, 0x50ac, 0x50b0, 0x50b4, 0x50b8, 0x50bc, 0x50c0, 0x50c4, 0x50c8,
      0x50cc, 0x50d0, 0x50d4, 0x50d8, 0x5150, 0x5064, 0x5068, 0x506c, 0x5070, 0x5074, 0x5078,
      0x5018]"
  by (simp add: mmr_table_def mmr_defs reg_defs)

lemma table_distinct: "distinct (map (\<lambda>b. sdr_reg (step_off b)) mmr_table)"
  unfolding table_regs by simp

lemma port_not_in_table:
  "sdr_reg SDR_CTRLGRP_FPGAPORTRST_ADDRESS \<notin> set (map (\<lambda>b. sdr_reg (step_off b)) mmr_table)"
  "ISWGRP_HANDOFF_FPGA2SDR \<notin> set (map (\<lambda>b. sdr_reg (step_off b)) mmr_table)"
  "sdr_reg SDR_CTRLGRP_STATICCFG_ADDRESS \<in> set (map (\<lambda>b. sdr_reg (step_off b)) mmr_table)"
  unfolding table_regs by (simp_all add: reg_defs)

text \<open>The fields of \<open>STATICCFG\<close> do not contain the bit that applies the configuration.\<close>

lemma staticcfg_fields:
  assumes "b \<in> set mmr_table" and "sdr_reg (step_off b) = sdr_reg SDR_CTRLGRP_STATICCFG_ADDRESS"
  shows "list_all (\<lambda>(_, _, m). SDR_CTRLGRP_STATICCFG_APPLYCFG_MASK AND m = 0) (step_fields b)"
proof -
  have mem: "mmr_STATICCFG \<in> set mmr_table" by (simp add: mmr_table_def)
  have "sdr_reg (step_off mmr_STATICCFG) = sdr_reg SDR_CTRLGRP_STATICCFG_ADDRESS"
    by (simp add: mmr_STATICCFG_def)
  with assms mem table_distinct have "b = mmr_STATICCFG"
    by (metis (no_types, lifting) distinct_map inj_onD)
  then show ?thesis by (simp add: mmr_STATICCFG_def reg_defs)
qed

lemma step_value_holds:
  "b \<in> set mmr_table \<Longrightarrow> list_all (field_holds (step_value b v)) (step_fields b)"
proof -
  assume "b \<in> set mmr_table"
  then have "disjoint_fields (step_fields b)" using table_fields by (simp add: list_all_iff)
  then show ?thesis by (cases b) (simp_all add: update_fields_hold, simp add: field_holds_def shl_def)
qed

text \<open>The contents at the end: the table's blocks, the port block's two writes, the apply bit.\<close>

definition apply_bit :: "u32 \<Rightarrow> u32" where
  "apply_bit v = sdram_write_register_field v 1 SDR_CTRLGRP_STATICCFG_APPLYCFG_LSB
     SDR_CTRLGRP_STATICCFG_APPLYCFG_MASK"

definition final_regs :: "(u32 \<Rightarrow> u32) \<Rightarrow> u32 \<Rightarrow> u32" where
  "final_regs f = (let g = apply_steps mmr_table f; a = sdr_reg SDR_CTRLGRP_STATICCFG_ADDRESS in
     g(ISWGRP_HANDOFF_FPGA2SDR := CONFIG_HPS_SDR_CTRLCFG_FPGAPORTRST, a := apply_bit (g a)))"

lemma final_regs_fields:
  assumes "b \<in> set mmr_table"
  shows "list_all (field_holds (final_regs f (sdr_reg (step_off b)))) (step_fields b)"
proof -
  let ?a = "sdr_reg (step_off b)" and ?v = "step_value b (f (sdr_reg (step_off b)))"
  have val: "apply_steps mmr_table f ?a = ?v" by (rule apply_steps_value [OF table_distinct assms])
  have neq: "?a \<noteq> ISWGRP_HANDOFF_FPGA2SDR" using assms port_not_in_table(2) by force
  have hold: "list_all (field_holds ?v) (step_fields b)" by (rule step_value_holds [OF assms])
  show ?thesis
  proof (cases "?a = sdr_reg SDR_CTRLGRP_STATICCFG_ADDRESS")
    case True
    have "field_holds (apply_bit ?v) x" if "x \<in> set (step_fields b)" for x
    proof -
      obtain d l m where x: "x = (d, l, m)" by (cases x)
      have "SDR_CTRLGRP_STATICCFG_APPLYCFG_MASK AND m = 0" "?v AND m = shl d l AND m"
        using that hold staticcfg_fields [OF assms True]
        by (auto simp: list_all_iff field_holds_def x)
      then show ?thesis by (simp add: x field_holds_def apply_bit_def field_other)
    qed
    with True val show ?thesis by (simp add: final_regs_def Let_def list_all_iff)
  next
    case False
    with neq val hold show ?thesis by (simp add: final_regs_def Let_def)
  qed
qed

lemma wp_sdram_init_registers:
  assumes "rw_registers (env s) sdr_regs"
  shows "wp sdram_mmr_init_full (\<lambda>r t. r = 0 \<and>
      (\<forall>b \<in> set mmr_table. list_all (field_holds (env t (trace t) (sdr_reg (step_off b)))) (step_fields b)) \<and>
      env t (trace t) (sdr_reg SDR_CTRLGRP_STATICCFG_ADDRESS) AND SDR_CTRLGRP_STATICCFG_APPLYCFG_MASK =
        SDR_CTRLGRP_STATICCFG_APPLYCFG_MASK \<and>
      env t (trace t) ISWGRP_HANDOFF_FPGA2SDR = CONFIG_HPS_SDR_CTRLCFG_FPGAPORTRST) H s"
    (is "wp _ ?Q H s")
proof -
  define f where "f = env s (trace s)"
  let ?g = "(apply_steps mmr_table f)(ISWGRP_HANDOFF_FPGA2SDR := CONFIG_HPS_SDR_CTRLCFG_FPGAPORTRST)"
  let ?p = "sdr_reg SDR_CTRLGRP_FPGAPORTRST_ADDRESS"
  have start: "holds_regs s sdr_regs f s" by (simp add: holds_regs_def f_def)
  have inR: "sdr_reg (step_off b) \<in> sdr_regs" if "b \<in> set mmr_table" for b
    using that by (simp add: sdr_regs_def)
  have static: "sdr_reg SDR_CTRLGRP_STATICCFG_ADDRESS \<in> sdr_regs" and port: "?p \<in> sdr_regs"
    and hand: "ISWGRP_HANDOFF_FPGA2SDR \<in> sdr_regs"
    using port_not_in_table(3) by (simp_all add: sdr_regs_def)
  have neq: "?p \<noteq> ISWGRP_HANDOFF_FPGA2SDR" "?p \<noteq> sdr_reg SDR_CTRLGRP_STATICCFG_ADDRESS"
    "ISWGRP_HANDOFF_FPGA2SDR \<noteq> sdr_reg SDR_CTRLGRP_STATICCFG_ADDRESS"
    by (simp_all add: reg_defs)
  have finish: "?Q 0 t" if h: "holds_regs s sdr_regs g t"
    and g: "\<And>a. a \<noteq> ?p \<Longrightarrow> g a = final_regs f a" for g t
  proof -
    have val: "env t (trace t) a = g a" if "a \<in> sdr_regs" for a
      using h that by (simp add: holds_regs_def)
    have "list_all (field_holds (env t (trace t) (sdr_reg (step_off b)))) (step_fields b)"
      if b: "b \<in> set mmr_table" for b
    proof -
      have "sdr_reg (step_off b) \<noteq> ?p" using b port_not_in_table(1) by force
      then show ?thesis using final_regs_fields [OF b] by (simp add: val inR [OF b] g)
    qed
    moreover have "env t (trace t) (sdr_reg SDR_CTRLGRP_STATICCFG_ADDRESS) AND
        SDR_CTRLGRP_STATICCFG_APPLYCFG_MASK = SDR_CTRLGRP_STATICCFG_APPLYCFG_MASK"
      using neq by (simp add: val static g final_regs_def Let_def apply_bit_def field_own) (simp add: reg_defs)
    moreover have "env t (trace t) ISWGRP_HANDOFF_FPGA2SDR = CONFIG_HPS_SDR_CTRLCFG_FPGAPORTRST"
      using neq by (simp add: val hand g final_regs_def Let_def)
    ultimately show ?thesis by simp
  qed
  have apply_cfg: "wp apply_config ?Q H t" if h: "holds_regs s sdr_regs g t"
    and g: "\<And>a. a \<noteq> ?p \<Longrightarrow> g a = ?g a" for g t
    unfolding apply_config_def
  proof (rule wp_run_mmr_regs [OF assms h])
    fix u assume "holds_regs s sdr_regs (apply_step (Unverified SDR_CTRLGRP_STATICCFG_ADDRESS
      [(1, SDR_CTRLGRP_STATICCFG_APPLYCFG_LSB, SDR_CTRLGRP_STATICCFG_APPLYCFG_MASK)]) g) u"
    then show "?Q 0 u"
      by (rule finish) (use g neq in \<open>simp add: apply_step_def final_regs_def Let_def
        apply_bit_def update_fields_def\<close>)
  qed (simp add: static)
  have port_block: "wp fpgaportrst_block (\<lambda>r. wp (if r = 1 then ret 1 else apply_config) ?Q H) H t"
    if "holds_regs s sdr_regs (apply_steps mmr_table f) t" for t
    unfolding fpgaportrst_block_def wp_seq
  proof (rule wp_writel_regs [OF assms that], rule single_shot.wp_guarded)
    fix u v assume "holds_regs s sdr_regs ?g u" and "after_reads u v"
    then have v: "holds_regs s sdr_regs ?g v" by (rule holds_regs_after_reads [OF assms])
    show "wp (sdram_write_verify SDR_CTRLGRP_FPGAPORTRST_ADDRESS CONFIG_HPS_SDR_CTRLCFG_FPGAPORTRST)
      (\<lambda>r. wp (if r = 1 then ret 1 else apply_config) ?Q H) H v"
      by (rule wp_write_verify_regs [OF assms v port]) (simp add: apply_cfg)
    show "wp (ret 0) (\<lambda>r. wp (if r = (1 :: u32) then ret 1 else apply_config) ?Q H) H v"
      by (simp add: wp_ret apply_cfg [OF v])
  qed
  show ?thesis
    unfolding sdram_mmr_init_full_def
    by (rule wp_run_blocks_regs [OF assms start]) (simp_all add: inR wp_bind port_block)
qed

text \<open>
  C17: The initialisation programs the handoff configuration, for a controller whose registers
  store what is written: it returns 0, every configured field of every register holds its
  value, the configuration is applied, and the port reset value is handed off.
\<close>

theorem sdram_init_registers:
  assumes "rw_registers (env s) sdr_regs"
  shows "runs sdram_mmr_init_full (\<lambda>r t. r = 0 \<and>
      (\<forall>b \<in> set mmr_table. list_all (field_holds (env t (trace t) (sdr_reg (step_off b)))) (step_fields b)) \<and>
      env t (trace t) (sdr_reg SDR_CTRLGRP_STATICCFG_ADDRESS) AND SDR_CTRLGRP_STATICCFG_APPLYCFG_MASK =
        SDR_CTRLGRP_STATICCFG_APPLYCFG_MASK \<and>
      env t (trace t) ISWGRP_HANDOFF_FPGA2SDR = CONFIG_HPS_SDR_CTRLCFG_FPGAPORTRST) s"
  by (rule runs_ends [OF ends_sdram_init wp_sdram_init_registers [OF assms]])

theorem sdram_init_registers_witness:
  "runs sdram_mmr_init_full (\<lambda>r t. r = 0 \<and>
      (\<forall>b \<in> set mmr_table. list_all (field_holds (env t (trace t) (sdr_reg (step_off b)))) (step_fields b)) \<and>
      env t (trace t) (sdr_reg SDR_CTRLGRP_STATICCFG_ADDRESS) AND SDR_CTRLGRP_STATICCFG_APPLYCFG_MASK =
        SDR_CTRLGRP_STATICCFG_APPLYCFG_MASK \<and>
      env t (trace t) ISWGRP_HANDOFF_FPGA2SDR = CONFIG_HPS_SDR_CTRLCFG_FPGAPORTRST)
     (storage_machine (\<lambda>_. 0))"
  by (rule sdram_init_registers) (simp add: storage_on)

end
