(* ===== verification/GicInterrupts.thy ===== *)
theory GicInterrupts imports SystemManager SdramMmr begin

text \<open>
  gic.c, the inline functions of gic.h and interrupts.c: the interrupt controller and the
  table of handlers. Handlers that belong to other code are a parameter of \<open>do_irq\<close>.
\<close>

section \<open>The interrupt controller\<close>

text \<open>\<open>base + (div << 2)\<close>\<close>

definition dic_reg :: "u32 \<Rightarrow> nat \<Rightarrow> u32" where
  "dic_reg base k = base + of_nat (4 * k)"

definition gic_dic_clear_enable_all_intr :: "unit io" where
  "gic_dic_clear_enable_all_intr = seqs [
     writel 0xFFFFFFFF (CONFIG_GIC_DIC_CLR_ENABLE + 0x00),
     writel 0xFFFFFFFF (CONFIG_GIC_DIC_CLR_ENABLE + 0x04),
     writel 0xFFFFFFFF (CONFIG_GIC_DIC_CLR_ENABLE + 0x08),
     writel 0xFFFFFFFF (CONFIG_GIC_DIC_CLR_ENABLE + 0x0C),
     writel 0xFFFFFFFF (CONFIG_GIC_DIC_CLR_ENABLE + 0x10),
     writel 0xFFFFFFFF (CONFIG_GIC_DIC_CLR_ENABLE + 0x14),
     writel 0xFFFFFFFF (CONFIG_GIC_DIC_CLR_ENABLE + 0x18),
     writel 0xFFFFFFFF (CONFIG_GIC_DIC_CLR_ENABLE + 0x1C)]"

definition gic_dic_clear_pending_all_intr :: "unit io" where
  "gic_dic_clear_pending_all_intr = seqs [
     writel 0xFFFFFFFF (CONFIG_GIC_DIC_CLR_PENDING + 0x00),
     writel 0xFFFFFFFF (CONFIG_GIC_DIC_CLR_PENDING + 0x04),
     writel 0xFFFFFFFF (CONFIG_GIC_DIC_CLR_PENDING + 0x08),
     writel 0xFFFFFFFF (CONFIG_GIC_DIC_CLR_PENDING + 0x0C),
     writel 0xFFFFFFFF (CONFIG_GIC_DIC_CLR_PENDING + 0x10),
     writel 0xFFFFFFFF (CONFIG_GIC_DIC_CLR_PENDING + 0x14),
     writel 0xFFFFFFFF (CONFIG_GIC_DIC_CLR_PENDING + 0x18),
     writel 0xFFFFFFFF (CONFIG_GIC_DIC_CLR_PENDING + 0x1C)]"

definition gic_dic_set_enable :: "u8 \<Rightarrow> unit io" where
  "gic_dic_set_enable intrID =
     setbits_le32 (dic_reg CONFIG_GIC_DIC_SET_ENABLE (unat intrID div 32)) (push_bit (unat intrID mod 32) 1)"

definition gic_dic_set_target_processor :: "u8 \<Rightarrow> u8 \<Rightarrow> unit io" where
  "gic_dic_set_target_processor intrID target = (if intrID < 32 then ret () else
     let div' = unat intrID div 4; mod' = unat intrID mod 4 in
     seq_io (clrbits_le32 (dic_reg CONFIG_GIC_DIC_TARGET div') (push_bit (8 * mod') 0xFF))
       (setbits_le32 (dic_reg CONFIG_GIC_DIC_TARGET div') (push_bit (8 * mod') (ucast target))))"

definition gic_dic_set_config :: "u8 \<Rightarrow> u8 \<Rightarrow> unit io" where
  "gic_dic_set_config intrID level0edge1 =
     (let div' = unat intrID div 16; mod' = unat intrID mod 16 in
     seq_io (clrbits_le32 (dic_reg CONFIG_GIC_DIC_CONFIG div') (push_bit (2 * mod') 0x3))
       (when_io (level0edge1 = 1)
         (setbits_le32 (dic_reg CONFIG_GIC_DIC_CONFIG div') (push_bit (2 * mod') 0x2))))"

definition gic_dic_set_pending :: "u8 \<Rightarrow> unit io" where
  "gic_dic_set_pending intrID =
     setbits_le32 (dic_reg CONFIG_GIC_DIC_SET_PENDING (unat intrID div 32)) (push_bit (unat intrID mod 32) 1)"

definition gic_dic_clear_pending :: "u8 \<Rightarrow> unit io" where
  "gic_dic_clear_pending intrID =
     setbits_le32 (dic_reg CONFIG_GIC_DIC_CLR_PENDING (unat intrID div 32)) (push_bit (unat intrID mod 32) 1)"

definition gic_cpu_disable :: "unit io" where
  "gic_cpu_disable = writel 0x0 gic_cpu_if_ICCICR"

definition gic_cpu_enable :: "unit io" where
  "gic_cpu_enable = writel 0x1 gic_cpu_if_ICCICR"

definition gic_cpu_set_priority_mask :: "u8 \<Rightarrow> unit io" where
  "gic_cpu_set_priority_mask priority_mask = writel (ucast priority_mask) gic_cpu_if_ICCPMR"

definition gic_cpu_get_pending_intr :: "u32 io" where
  "gic_cpu_get_pending_intr = readl gic_cpu_if_ICCHPIR"

definition gic_cpu_end_of_intr :: "u8 \<Rightarrow> unit io" where
  "gic_cpu_end_of_intr intrID = writel (ucast intrID) gic_cpu_if_ICCEOIR"

definition gic_dic_disable_secure :: "unit io" where
  "gic_dic_disable_secure = clrbits_le32 CONFIG_GIC_DIC_CONTROL 0x1"

definition gic_dic_disable_nonsecure :: "unit io" where
  "gic_dic_disable_nonsecure = clrbits_le32 CONFIG_GIC_DIC_CONTROL 0x2"

definition gic_dic_enable_secure :: "unit io" where
  "gic_dic_enable_secure = setbits_le32 CONFIG_GIC_DIC_CONTROL 0x1"

definition gic_dic_enable_nonsecure :: "unit io" where
  "gic_dic_enable_nonsecure = setbits_le32 CONFIG_GIC_DIC_CONTROL 0x2"

section \<open>Interrupt handling\<close>

text \<open>
  Calling through the table: the entries that are not functions send the processor to
  address 0 or 0xFFFFFFFF, which is \<open>Fault\<close>; \<open>others\<close> is the code of other handlers.
\<close>

primrec call_handler :: "(nat \<Rightarrow> u32 \<Rightarrow> unit io) \<Rightarrow> handler \<Rightarrow> u32 \<Rightarrow> unit io" where
  "call_handler others Null_Fxn arg = fault_io"
| "call_handler others Inverse_Null arg = fault_io"
| "call_handler others Ecc_Ocram_Corrected arg = irq_handler_ecc_ocram_corrected"
| "call_handler others Ecc_Ocram_Uncorrected arg = irq_handler_ecc_ocram_uncorrected"
| "call_handler others Ecc_Sdram arg = irq_handler_ecc_sdram"
| "call_handler others (Other_Handler n) arg = others n arg"

text \<open>
  The test \<open>INVERSE_NULL != intr_ptr\<close> compares the address of the table entry, which is an
  address in memory and never ~0, so the handler is called in any case.
\<close>

definition do_irq :: "(nat \<Rightarrow> u32 \<Rightarrow> unit io) \<Rightarrow> unit io" where
  "do_irq others = bind_io gic_cpu_get_pending_intr (\<lambda>intrID.
     if intrID \<ge> MAX_INT_VECTORS then ret () else
     bind_io (get_io vectors) (\<lambda>tab.
     seq_io (if unat intrID < length tab
       then call_handler others (fst (tab ! unat intrID)) (snd (tab ! unat intrID)) else fault_io)
     (seq_io (gic_dic_clear_pending (ucast intrID))
     (gic_cpu_end_of_intr (ucast intrID)))))"

definition arch_interrupt_init :: "u32 io" where
  "arch_interrupt_init = seq_io (seqs [
     gic_dic_disable_secure,
     gic_dic_clear_enable_all_intr,
     gic_dic_clear_pending_all_intr,
     gic_cpu_set_priority_mask (push_bit 3 1),
     gic_dic_enable_secure,
     gic_cpu_enable]) (ret 0)"

definition set_vector :: "u8 \<Rightarrow> handler \<Rightarrow> u32 \<Rightarrow> unit io" where
  "set_vector intrID fxn arg = bind_io (get_io vectors) (\<lambda>tab.
     if unat intrID < length tab
     then modify_io (\<lambda>s. s\<lparr>vectors := tab[unat intrID := (fxn, arg)]\<rparr>) else fault_io)"

definition irq_register :: "u8 \<Rightarrow> handler \<Rightarrow> u32 \<Rightarrow> u8 \<Rightarrow> u32 io" where
  "irq_register intrID fxn arg level0edge1 = seq_io (seqs [
     set_vector intrID fxn arg,
     gic_dic_set_config intrID level0edge1,
     gic_dic_set_target_processor intrID 0x1,
     gic_dic_set_enable intrID]) (ret 0)"

definition irq_trigger :: "u8 \<Rightarrow> unit io" where
  "irq_trigger intrID = gic_dic_set_pending intrID"

section \<open>The distributor\<close>

text \<open>
  How a GIC distributor behaves: writing ones to the set-enable registers enables
  interrupts, to the clear-enable registers disables them, and both read as the set of
  enabled interrupts; the pending registers likewise. \<open>bank base a\<close> is the word of the
  eight-word register bank at \<open>base\<close> that \<open>a\<close> addresses.
\<close>

definition bank :: "u32 \<Rightarrow> u32 \<Rightarrow> nat option" where
  "bank base a = (if base \<le> a \<and> a < base + 32 then Some (unat (a - base) div 4) else None)"

fun set_clear :: "u32 \<Rightarrow> u32 \<Rightarrow> (nat \<Rightarrow> u32) \<Rightarrow> event list \<Rightarrow> nat \<Rightarrow> u32" where
  "set_clear sets clears x0 [] k = x0 k"
| "set_clear sets clears x0 (Wr a v # h) k = (let x = set_clear sets clears x0 h k in
     if bank sets a = Some k then x OR v else if bank clears a = Some k then x AND NOT v else x)"
| "set_clear sets clears x0 (Rd a v # h) k = set_clear sets clears x0 h k"
| "set_clear sets clears x0 (Msg f xs # h) k = set_clear sets clears x0 h k"

abbreviation gic_enabled :: "(nat \<Rightarrow> u32) \<Rightarrow> event list \<Rightarrow> nat \<Rightarrow> u32" where
  "gic_enabled \<equiv> set_clear CONFIG_GIC_DIC_SET_ENABLE CONFIG_GIC_DIC_CLR_ENABLE"

abbreviation gic_pending :: "(nat \<Rightarrow> u32) \<Rightarrow> event list \<Rightarrow> nat \<Rightarrow> u32" where
  "gic_pending \<equiv> set_clear CONFIG_GIC_DIC_SET_PENDING CONFIG_GIC_DIC_CLR_PENDING"

text \<open>Interrupt \<open>i\<close> in a set of interrupts kept in words of 32 bits.\<close>

definition intr :: "(nat \<Rightarrow> u32) \<Rightarrow> nat \<Rightarrow> bool" where
  "intr w i = bit (w (i div 32)) (i mod 32)"

definition gic_config_regs :: "u32 set" where
  "gic_config_regs = {a. CONFIG_GIC_DIC_TARGET \<le> a \<and> a < CONFIG_GIC_DIC_CONFIG + 0x40}
     \<union> {CONFIG_GIC_DIC_CONTROL, gic_cpu_if_ICCICR, gic_cpu_if_ICCPMR}"

lemma below_8: "k < (8 :: nat) \<longleftrightarrow> k \<in> {0, 1, 2, 3, 4, 5, 6, 7}"
  by auto

text \<open>The banks do not overlap, and a word of a bank has one address.\<close>

lemma bank_enable:
  assumes "k < 8"
  shows "bank CONFIG_GIC_DIC_SET_ENABLE (dic_reg CONFIG_GIC_DIC_SET_ENABLE k) = Some k"
    "bank CONFIG_GIC_DIC_SET_ENABLE (dic_reg CONFIG_GIC_DIC_CLR_ENABLE k) = None"
    "bank CONFIG_GIC_DIC_CLR_ENABLE (dic_reg CONFIG_GIC_DIC_SET_ENABLE k) = None"
    "bank CONFIG_GIC_DIC_CLR_ENABLE (dic_reg CONFIG_GIC_DIC_CLR_ENABLE k) = Some k"
    "bank CONFIG_GIC_DIC_SET_PENDING (dic_reg CONFIG_GIC_DIC_SET_ENABLE k) = None"
    "bank CONFIG_GIC_DIC_SET_PENDING (dic_reg CONFIG_GIC_DIC_CLR_ENABLE k) = None"
    "bank CONFIG_GIC_DIC_CLR_PENDING (dic_reg CONFIG_GIC_DIC_SET_ENABLE k) = None"
    "bank CONFIG_GIC_DIC_CLR_PENDING (dic_reg CONFIG_GIC_DIC_CLR_ENABLE k) = None"
  using assms unfolding below_8 by (auto simp: bank_def dic_reg_def reg_defs)

lemma bank_pending:
  assumes "k < 8"
  shows "bank CONFIG_GIC_DIC_SET_PENDING (dic_reg CONFIG_GIC_DIC_SET_PENDING k) = Some k"
    "bank CONFIG_GIC_DIC_SET_PENDING (dic_reg CONFIG_GIC_DIC_CLR_PENDING k) = None"
    "bank CONFIG_GIC_DIC_CLR_PENDING (dic_reg CONFIG_GIC_DIC_SET_PENDING k) = None"
    "bank CONFIG_GIC_DIC_CLR_PENDING (dic_reg CONFIG_GIC_DIC_CLR_PENDING k) = Some k"
    "bank CONFIG_GIC_DIC_SET_ENABLE (dic_reg CONFIG_GIC_DIC_SET_PENDING k) = None"
    "bank CONFIG_GIC_DIC_SET_ENABLE (dic_reg CONFIG_GIC_DIC_CLR_PENDING k) = None"
    "bank CONFIG_GIC_DIC_CLR_ENABLE (dic_reg CONFIG_GIC_DIC_SET_PENDING k) = None"
    "bank CONFIG_GIC_DIC_CLR_ENABLE (dic_reg CONFIG_GIC_DIC_CLR_PENDING k) = None"
  using assms unfolding below_8 by (auto simp: bank_def dic_reg_def reg_defs)

lemma bank_config:
  assumes "a \<in> gic_config_regs"
  shows "bank CONFIG_GIC_DIC_SET_ENABLE a = None" "bank CONFIG_GIC_DIC_CLR_ENABLE a = None"
    "bank CONFIG_GIC_DIC_SET_PENDING a = None" "bank CONFIG_GIC_DIC_CLR_PENDING a = None"
  using assms by (auto simp: gic_config_regs_def bank_def reg_defs word_le_nat_alt word_less_nat_alt)

lemma unat_dic_reg:
  assumes "unat base \<le> 0xfffff000" and "k < 64"
  shows "unat (dic_reg base k) = unat base + 4 * k"
  using assms unfolding dic_reg_def unat_word_ariths unat_of_nat by simp

lemma config_regs:
  "k < 64 \<Longrightarrow> dic_reg CONFIG_GIC_DIC_TARGET k \<in> gic_config_regs"
  "k < 16 \<Longrightarrow> dic_reg CONFIG_GIC_DIC_CONFIG k \<in> gic_config_regs"
  "k < 64 \<Longrightarrow> j < 16 \<Longrightarrow> dic_reg CONFIG_GIC_DIC_TARGET k \<noteq> dic_reg CONFIG_GIC_DIC_CONFIG j"
proof -
  have t: "unat (dic_reg CONFIG_GIC_DIC_TARGET k) = 0xfffed800 + 4 * k" if "k < 64" for k
    using unat_dic_reg [OF _ that, of CONFIG_GIC_DIC_TARGET] by (simp add: reg_defs)
  have c: "unat (dic_reg CONFIG_GIC_DIC_CONFIG k) = 0xfffedc00 + 4 * k" if "k < 16" for k
    using unat_dic_reg [of CONFIG_GIC_DIC_CONFIG k] that by (simp add: reg_defs)
  show "dic_reg CONFIG_GIC_DIC_TARGET k \<in> gic_config_regs" if "k < 64"
    using t [OF that] that by (simp add: gic_config_regs_def word_le_nat_alt word_less_nat_alt) (simp add: reg_defs)
  show "dic_reg CONFIG_GIC_DIC_CONFIG k \<in> gic_config_regs" if "k < 16"
    using c [OF that] that by (simp add: gic_config_regs_def word_le_nat_alt word_less_nat_alt) (simp add: reg_defs)
  show "dic_reg CONFIG_GIC_DIC_TARGET k \<noteq> dic_reg CONFIG_GIC_DIC_CONFIG j" if "k < 64" "j < 16"
    using t [OF that(1)] c [OF that(2)] that by auto
qed

text \<open>One more in the set; a whole word of the set gone.\<close>

lemma intr_set:
  assumes "bank S a = Some (n div 32)" and "bank C a = None"
  shows "intr (set_clear S C x0 (Wr a (set_clear S C x0 h (n div 32) OR push_bit (n mod 32) 1) # Rd b w # h)) i \<longleftrightarrow>
    i = n \<or> intr (set_clear S C x0 h) i"
proof -
  have "i = n \<longleftrightarrow> i div 32 = n div 32 \<and> i mod 32 = n mod 32" by (metis div_mult_mod_eq)
  then show ?thesis using assms by (auto simp: intr_def bit_simps Let_def)
qed

lemma intr_drop:
  assumes "bank S a = None" and "bank C a = Some k"
  shows "intr (set_clear S C x0 (Wr a (set_clear S C x0 h k OR m) # Rd b w # h)) i \<longleftrightarrow>
    i div 32 \<noteq> k \<and> intr (set_clear S C x0 h) i"
  using assms by (auto simp: intr_def bit_simps Let_def)

lemma zero_word: "(- 4294967296 :: u32) = 0"
  by simp

lemma runs_writes:
  "runs (seqs (map (\<lambda>k. writel v (f k)) ks)) Q s = Q () (s\<lparr>trace := rev (map (\<lambda>k. Wr (f k) v) ks) @ trace s\<rparr>)"
  by (induction ks arbitrary: s) (simp_all del: seqs.simps add: runs_seqs_Nil runs_seqs_Cons runs_writel)

lemma runs_clear_enable_all:
  "runs gic_dic_clear_enable_all_intr Q s = Q () (s\<lparr>trace :=
    rev (map (\<lambda>k. Wr (dic_reg CONFIG_GIC_DIC_CLR_ENABLE k) 0xFFFFFFFF) [0..<8]) @ trace s\<rparr>)"
  by (subst runs_writes [symmetric]) (simp add: gic_dic_clear_enable_all_intr_def dic_reg_def upt_rec)

lemma runs_clear_pending_all:
  "runs gic_dic_clear_pending_all_intr Q s = Q () (s\<lparr>trace :=
    rev (map (\<lambda>k. Wr (dic_reg CONFIG_GIC_DIC_CLR_PENDING k) 0xFFFFFFFF) [0..<8]) @ trace s\<rparr>)"
  by (subst runs_writes [symmetric]) (simp add: gic_dic_clear_pending_all_intr_def dic_reg_def upt_rec)

locale gic = rw_registers hw gic_config_regs for hw :: "event list \<Rightarrow> u32 \<Rightarrow> u32" +
  fixes e0 p0 :: "nat \<Rightarrow> u32"
  assumes reads_enabled: "k < 8 \<Longrightarrow> hw h (dic_reg CONFIG_GIC_DIC_SET_ENABLE k) = gic_enabled e0 h k"
    and reads_cleared: "k < 8 \<Longrightarrow> hw h (dic_reg CONFIG_GIC_DIC_CLR_ENABLE k) = gic_enabled e0 h k"
    and reads_pending: "k < 8 \<Longrightarrow> hw h (dic_reg CONFIG_GIC_DIC_SET_PENDING k) = gic_pending p0 h k"
    and reads_unpending: "k < 8 \<Longrightarrow> hw h (dic_reg CONFIG_GIC_DIC_CLR_PENDING k) = gic_pending p0 h k"
begin

lemma enable_frame:
  assumes "a \<in> gic_config_regs"
  shows "gic_enabled e0 (Wr a v # h) = gic_enabled e0 h" "gic_pending p0 (Wr a v # h) = gic_pending p0 h"
  using bank_config [OF assms] by (simp_all add: fun_eq_iff)

lemma runs_set_enable:
  assumes "env s = hw"
    and "\<And>h. (\<And>i. intr (gic_enabled e0 h) i \<longleftrightarrow> i = unat n \<or> intr (gic_enabled e0 (trace s)) i) \<Longrightarrow>
      gic_pending p0 h = gic_pending p0 (trace s) \<Longrightarrow>
      (\<And>a. a \<in> gic_config_regs \<Longrightarrow> hw h a = hw (trace s) a) \<Longrightarrow> Q () (s\<lparr>trace := h\<rparr>)"
  shows "runs (gic_dic_set_enable n) Q s"
proof -
  let ?k = "unat n div 32"
  have k: "?k < 8" using unsigned_less [of n, where 'a = nat] by simp
  note b = bank_enable [OF k]
  have "a \<noteq> dic_reg CONFIG_GIC_DIC_SET_ENABLE ?k" if "a \<in> gic_config_regs" for a
    using bank_config(1) [OF that] b(1) by auto
  then show ?thesis
    unfolding gic_dic_set_enable_def runs_setbits assms(1) reads_enabled [OF k]
    by (intro assms(2)) (rule intr_set [OF b(1,3)], simp_all add: b fun_eq_iff hw_simps)
qed

lemma runs_clear_pending:
  assumes "env s = hw"
    and "\<And>h. (\<And>i. intr (gic_pending p0 h) i \<longleftrightarrow> i div 32 \<noteq> unat n div 32 \<and> intr (gic_pending p0 (trace s)) i) \<Longrightarrow>
      gic_enabled e0 h = gic_enabled e0 (trace s) \<Longrightarrow> Q () (s\<lparr>trace := h\<rparr>)"
  shows "runs (gic_dic_clear_pending n) Q s"
proof -
  let ?k = "unat n div 32"
  have k: "?k < 8" using unsigned_less [of n, where 'a = nat] by simp
  note b = bank_pending [OF k]
  show ?thesis
    unfolding gic_dic_clear_pending_def runs_setbits assms(1) reads_unpending [OF k]
    by (intro assms(2)) (rule intr_drop [OF b(2,4)], simp add: b fun_eq_iff)
qed

lemma enable_cleared:
  assumes "set ks \<subseteq> {..<8}"
  shows "gic_enabled e0 (rev (map (\<lambda>k. Wr (dic_reg CONFIG_GIC_DIC_CLR_ENABLE k) 0xFFFFFFFF) ks) @ h) =
      (\<lambda>j. if j \<in> set ks then 0 else gic_enabled e0 h j)"
    "gic_pending p0 (rev (map (\<lambda>k. Wr (dic_reg CONFIG_GIC_DIC_CLR_ENABLE k) 0xFFFFFFFF) ks) @ h) = gic_pending p0 h"
  using assms by (induction ks rule: rev_induct) (auto simp: fun_eq_iff bank_enable zero_word)

lemma pending_cleared:
  assumes "set ks \<subseteq> {..<8}"
  shows "gic_pending p0 (rev (map (\<lambda>k. Wr (dic_reg CONFIG_GIC_DIC_CLR_PENDING k) 0xFFFFFFFF) ks) @ h) =
      (\<lambda>j. if j \<in> set ks then 0 else gic_pending p0 h j)"
    "gic_enabled e0 (rev (map (\<lambda>k. Wr (dic_reg CONFIG_GIC_DIC_CLR_PENDING k) 0xFFFFFFFF) ks) @ h) = gic_enabled e0 h"
  using assms by (induction ks rule: rev_induct) (auto simp: fun_eq_iff bank_pending zero_word)

text \<open>Nothing but the registers in \<open>A\<close> has changed from history \<open>h\<close> to \<open>h'\<close>.\<close>

definition undisturbed :: "u32 set \<Rightarrow> event list \<Rightarrow> event list \<Rightarrow> bool" where
  "undisturbed A h h' \<longleftrightarrow> gic_enabled e0 h' = gic_enabled e0 h \<and> gic_pending p0 h' = gic_pending p0 h \<and>
     (\<forall>a \<in> gic_config_regs - A. hw h' a = hw h a)"

lemma undisturbed_refl [simp]: "undisturbed A h h"
  by (simp add: undisturbed_def)

lemma undisturbed_Wr [simp]:
  "a \<in> gic_config_regs \<Longrightarrow> a \<in> A \<Longrightarrow> undisturbed A h (Wr a v # h') \<longleftrightarrow> undisturbed A h h'"
  using enable_frame [of a v h'] by (auto simp: undisturbed_def hw_Wr)

lemma undisturbed_Rd [simp]: "undisturbed A h (Rd a v # h') \<longleftrightarrow> undisturbed A h h'"
  by (auto simp: undisturbed_def hw_Rd fun_eq_iff)

lemma runs_set_config:
  assumes "env s = hw"
    and "\<And>h. undisturbed {dic_reg CONFIG_GIC_DIC_CONFIG (unat n div 16)} (trace s) h \<Longrightarrow>
      hw h (dic_reg CONFIG_GIC_DIC_CONFIG (unat n div 16)) =
        (hw (trace s) (dic_reg CONFIG_GIC_DIC_CONFIG (unat n div 16)) AND NOT (push_bit (2 * (unat n mod 16)) 3)) OR
        (if edge = 1 then push_bit (2 * (unat n mod 16)) 2 else 0) \<Longrightarrow> Q () (s\<lparr>trace := h\<rparr>)"
  shows "runs (gic_dic_set_config n edge) Q s"
proof -
  have "unat n div 16 < 16" using unsigned_less [of n, where 'a = nat] by simp
  from config_regs(2) [OF this] assms(1) show ?thesis
    by (simp add: gic_dic_set_config_def runs_rules runs_setbits runs_clrbits Let_def hw_simps assms(2))
qed

lemma runs_set_target:
  assumes "env s = hw"
    and "\<And>h. undisturbed {dic_reg CONFIG_GIC_DIC_TARGET (unat n div 4)} (trace s) h \<Longrightarrow>
      hw h (dic_reg CONFIG_GIC_DIC_TARGET (unat n div 4)) =
        (if n < 32 then hw (trace s) (dic_reg CONFIG_GIC_DIC_TARGET (unat n div 4)) else
         (hw (trace s) (dic_reg CONFIG_GIC_DIC_TARGET (unat n div 4)) AND NOT (push_bit (8 * (unat n mod 4)) 0xFF)) OR
         push_bit (8 * (unat n mod 4)) (ucast cpu)) \<Longrightarrow> Q () (s\<lparr>trace := h\<rparr>)"
  shows "runs (gic_dic_set_target_processor n cpu) Q s"
proof -
  have "unat n div 4 < 64" using unsigned_less [of n, where 'a = nat] by simp
  from config_regs(1) [OF this] assms show ?thesis
    using assms(2) [of "trace s"]
    by (simp add: gic_dic_set_target_processor_def runs_rules runs_setbits runs_clrbits Let_def hw_simps)
qed

lemma runs_irq_register:
  assumes "env s = hw" and "unat n < length (vectors s)"
  shows "runs (irq_register n f arg edge) (\<lambda>r t. r = 0 \<and> vectors t = (vectors s)[unat n := (f, arg)] \<and>
    (\<forall>i. intr (gic_enabled e0 (trace t)) i \<longleftrightarrow> i = unat n \<or> intr (gic_enabled e0 (trace s)) i) \<and>
    gic_pending p0 (trace t) = gic_pending p0 (trace s) \<and>
    hw (trace t) (dic_reg CONFIG_GIC_DIC_CONFIG (unat n div 16)) =
      (hw (trace s) (dic_reg CONFIG_GIC_DIC_CONFIG (unat n div 16)) AND NOT (push_bit (2 * (unat n mod 16)) 3)) OR
      (if edge = 1 then push_bit (2 * (unat n mod 16)) 2 else 0) \<and>
    (32 \<le> n \<longrightarrow> hw (trace t) (dic_reg CONFIG_GIC_DIC_TARGET (unat n div 4)) =
      (hw (trace s) (dic_reg CONFIG_GIC_DIC_TARGET (unat n div 4)) AND NOT (push_bit (8 * (unat n mod 4)) 0xFF)) OR
      push_bit (8 * (unat n mod 4)) 1)) s"
proof -
  let ?c = "dic_reg CONFIG_GIC_DIC_CONFIG (unat n div 16)" and ?t = "dic_reg CONFIG_GIC_DIC_TARGET (unat n div 4)"
  have "unat n div 16 < 16" "unat n div 4 < 64" using unsigned_less [of n, where 'a = nat] by simp_all
  note regs = config_regs(2) [OF this(1)] config_regs(1) [OF this(2)] config_regs(3) [OF this(2,1)]
  have vec: "runs (set_vector n f arg) Q s" if "Q () (s\<lparr>vectors := (vectors s)[unat n := (f, arg)]\<rparr>)" for Q
    using that assms(2) by (simp add: set_vector_def runs_rules)
  show ?thesis
    unfolding irq_register_def runs_seq [of "seqs _"] runs_seqs_Cons runs_seqs_Nil runs_ret
    by (rule vec, rule runs_set_config, simp add: assms(1), rule runs_set_target, simp add: assms(1),
        rule runs_set_enable, simp add: assms(1))
      (use regs in \<open>auto simp: undisturbed_def\<close>)
qed

end

section \<open>A device that meets the contract\<close>

definition gic_device :: "(nat \<Rightarrow> u32) \<Rightarrow> (nat \<Rightarrow> u32) \<Rightarrow> (u32 \<Rightarrow> u32) \<Rightarrow> event list \<Rightarrow> u32 \<Rightarrow> u32" where
  "gic_device e0 p0 r0 h a =
     (case bank CONFIG_GIC_DIC_SET_ENABLE a of Some k \<Rightarrow> gic_enabled e0 h k | None \<Rightarrow>
      case bank CONFIG_GIC_DIC_CLR_ENABLE a of Some k \<Rightarrow> gic_enabled e0 h k | None \<Rightarrow>
      case bank CONFIG_GIC_DIC_SET_PENDING a of Some k \<Rightarrow> gic_pending p0 h k | None \<Rightarrow>
      case bank CONFIG_GIC_DIC_CLR_PENDING a of Some k \<Rightarrow> gic_pending p0 h k | None \<Rightarrow>
      reg_val r0 h a)"

interpretation device: gic "gic_device e0 p0 r0" e0 p0
proof unfold_locales
  show "a \<in> gic_config_regs \<Longrightarrow> gic_device e0 p0 r0 (Wr a v # h) a = v" for a v h
    by (simp add: gic_device_def bank_config)
  show "a \<in> gic_config_regs \<Longrightarrow> \<not> hits e a \<Longrightarrow> gic_device e0 p0 r0 (e # h) a = gic_device e0 p0 r0 h a" for e a h
    by (simp add: gic_device_def bank_config storage.read_frame)
qed (simp_all add: gic_device_def bank_enable bank_pending)

definition gic_machine :: "(nat \<Rightarrow> u32) \<Rightarrow> (nat \<Rightarrow> u32) \<Rightarrow> (u32 \<Rightarrow> u32) \<Rightarrow> mach" where
  "gic_machine e0 p0 r0 = (storage_machine r0)\<lparr>env := gic_device e0 p0 r0\<rparr>"

section \<open>Properties\<close>

lemma intr_none [simp]: "\<not> intr (set_clear S C (\<lambda>_. 0) []) i"
  by (simp add: intr_def)

text \<open>
  Registering a handler for an interrupt of the table: exactly its entry of the table is
  replaced; exactly this interrupt is enabled in addition; its trigger is set to edge if
  \<open>level0edge1\<close> is 1 and to level otherwise, and it is routed to CPU 0 (the bits of its
  neighbours in both registers are kept); nothing becomes pending.
\<close>

theorem irq_registered:
  assumes "env s = gic_device e0 p0 r0" and "unat n < length (vectors s)"
  shows "runs (irq_register n f arg edge) (\<lambda>r t. r = 0 \<and> vectors t = (vectors s)[unat n := (f, arg)] \<and>
    (\<forall>i. intr (gic_enabled e0 (trace t)) i \<longleftrightarrow> i = unat n \<or> intr (gic_enabled e0 (trace s)) i) \<and>
    gic_pending p0 (trace t) = gic_pending p0 (trace s) \<and>
    gic_device e0 p0 r0 (trace t) (dic_reg CONFIG_GIC_DIC_CONFIG (unat n div 16)) =
      (gic_device e0 p0 r0 (trace s) (dic_reg CONFIG_GIC_DIC_CONFIG (unat n div 16)) AND
        NOT (push_bit (2 * (unat n mod 16)) 3)) OR
      (if edge = 1 then push_bit (2 * (unat n mod 16)) 2 else 0) \<and>
    (32 \<le> n \<longrightarrow> gic_device e0 p0 r0 (trace t) (dic_reg CONFIG_GIC_DIC_TARGET (unat n div 4)) =
      (gic_device e0 p0 r0 (trace s) (dic_reg CONFIG_GIC_DIC_TARGET (unat n div 4)) AND
        NOT (push_bit (8 * (unat n mod 4)) 0xFF)) OR
      push_bit (8 * (unat n mod 4)) 1)) s"
  by (rule device.runs_irq_register [OF assms])

theorem irq_registered_witness:
  "runs (irq_register 211 Ecc_Sdram 0 1) (\<lambda>r t. r = 0 \<and> vectors t ! 211 = (Ecc_Sdram, 0) \<and>
    intr (gic_enabled (\<lambda>_. 0) (trace t)) 211 \<and> \<not> intr (gic_enabled (\<lambda>_. 0) (trace t)) 210)
    (gic_machine (\<lambda>_. 0) (\<lambda>_. 0) (\<lambda>_. 0))"
  by (rule runs_mono [OF irq_registered [of _ "\<lambda>_. 0" "\<lambda>_. 0" "\<lambda>_. 0"]])
    (auto simp: gic_machine_def)

text \<open>
  An interrupt number the table has no entry for is not refused: \<open>irq_register\<close>, whose
  argument ranges up to 255, writes outside the table of 212 entries.
\<close>

theorem irq_register_out_of_range:
  assumes "length (vectors s) = unat MAX_INT_VECTORS" and "212 \<le> n"
  shows "irq_register n f arg edge s = Some Fault"
  using assms by (simp add: irq_register_def set_vector_def seq_io_def bind_io_def get_io_def fault_io_def
    word_le_nat_alt MAX_INT_VECTORS_def)

theorem irq_register_out_of_range_witness:
  "irq_register 255 Ecc_Sdram 0 0 (storage_machine (\<lambda>_. 0)) = Some Fault"
  by (rule irq_register_out_of_range) (simp_all add: MAX_INT_VECTORS_def)

text \<open>
  C35: Servicing an interrupt. The pending interrupt is read once. A number outside the table
  is ignored without any further access. Otherwise the registered handler runs with the
  registered argument; after it has returned, the interrupt is cleared and then ended, with
  nothing in between, and the table is as the handler left it.
\<close>

theorem do_irq_services:
  assumes "length (vectors s) = 212" and v: "v = env s (trace s) gic_cpu_if_ICCHPIR"
    and s1: "s1 = s\<lparr>trace := Rd gic_cpu_if_ICCHPIR v # trace s\<rparr>"
  shows "(212 \<le> v \<longrightarrow> do_irq others s = Some (Val () s1)) \<and>
    (\<forall>t. v < 212 \<longrightarrow> call_handler others (fst (vectors s ! unat v)) (snd (vectors s ! unat v)) s1 = Some (Val () t) \<longrightarrow>
      (\<exists>x. do_irq others s = Some (Val () (t\<lparr>trace := Wr gic_cpu_if_ICCEOIR v #
        Wr (dic_reg CONFIG_GIC_DIC_CLR_PENDING (unat v div 32)) (x OR push_bit (unat v mod 32) 1) #
        Rd (dic_reg CONFIG_GIC_DIC_CLR_PENDING (unat v div 32)) x # trace t\<rparr>))))"
proof (intro conjI allI impI)
  show "do_irq others s = Some (Val () s1)" if "212 \<le> v"
    using that by (simp add: do_irq_def gic_cpu_get_pending_intr_def bind_io_def readl_def Let_def ret_def
      MAX_INT_VECTORS_def v s1)
next
  fix t
  assume small: "v < 212"
    and run: "call_handler others (fst (vectors s ! unat v)) (snd (vectors s ! unat v)) s1 = Some (Val () t)"
  have big: "\<not> 212 \<le> v" using small by simp
  have idx: "unat v < 212" using small by (simp add: word_less_nat_alt)
  have u8: "unat (ucast v :: u8) = unat v" "ucast (ucast v :: u8) = v"
    using idx by (simp_all add: unsigned_ucast_eq word_unat_eq_iff unsigned_take_bit_eq take_bit_nat_eq_self)
  have eq: "do_irq others s = (case call_handler others (fst (vectors s ! unat v)) (snd (vectors s ! unat v)) s1 of
      Some (Val _ t) \<Rightarrow> bind_io (gic_dic_clear_pending (ucast v)) (\<lambda>_. gic_cpu_end_of_intr (ucast v)) t
    | Some (Halt t) \<Rightarrow> Some (Halt t) | Some Fault \<Rightarrow> Some Fault | None \<Rightarrow> None)"
    using big idx assms(1) by (simp add: do_irq_def gic_cpu_get_pending_intr_def bind_io_def [of "readl _"]
      bind_io_def [of "get_io _"] readl_def Let_def get_io_def MAX_INT_VECTORS_def v [symmetric]
      s1 [symmetric] seq_io_def bind_io_def [of "call_handler _ _ _"])
      (simp add: s1)
  show "\<exists>x. do_irq others s = Some (Val () (t\<lparr>trace := Wr gic_cpu_if_ICCEOIR v #
        Wr (dic_reg CONFIG_GIC_DIC_CLR_PENDING (unat v div 32)) (x OR push_bit (unat v mod 32) 1) #
        Rd (dic_reg CONFIG_GIC_DIC_CLR_PENDING (unat v div 32)) x # trace t\<rparr>))"
    unfolding eq run
    by (intro exI [of _ "env t (trace t) (dic_reg CONFIG_GIC_DIC_CLR_PENDING (unat v div 32))"])
      (simp add: gic_dic_clear_pending_def gic_cpu_end_of_intr_def seq_io_def bind_io_def setbits_le32_def
      readl_def writel_def Let_def u8)
qed

theorem do_irq_services_witness:
  "\<exists>x. do_irq (\<lambda>n a. writel a 0x1000) ((storage_machine (\<lambda>_. 40))\<lparr>vectors :=
      (replicate 212 (Null_Fxn, 0))[40 := (Other_Handler 0, 7)]\<rparr>) =
    Some (Val () ((storage_machine (\<lambda>_. 40))\<lparr>vectors := (replicate 212 (Null_Fxn, 0))[40 := (Other_Handler 0, 7)],
      trace := [Wr gic_cpu_if_ICCEOIR 40, Wr 0xfffed284 (x OR 0x100), Rd 0xfffed284 x, Wr 0x1000 7,
        Rd gic_cpu_if_ICCHPIR 40]\<rparr>))"
  using do_irq_services [of "(storage_machine (\<lambda>_. 40))\<lparr>vectors := (replicate 212 (Null_Fxn, 0))[40 := (Other_Handler 0, 7)]\<rparr>"
    40 _ "\<lambda>n a. writel a 0x1000", OF _ _ refl]
  by (simp add: writel_def dic_reg_def CONFIG_GIC_DIC_CLR_PENDING_def SOCFPGA_GIC_DIC_def
    SOCFPGA_MPUSCU_ADDRESS_def)

text \<open>
  An interrupt without a handler is not skipped: the entry's address, not its function, is
  compared with \<open>INVERSE_NULL\<close>, so the processor jumps to the initial value of the entry.
\<close>

theorem do_irq_unregistered:
  assumes "length (vectors s) = 212" and "env s (trace s) gic_cpu_if_ICCHPIR < 212"
    and "fst (vectors s ! unat (env s (trace s) gic_cpu_if_ICCHPIR)) \<in> {Null_Fxn, Inverse_Null}"
  shows "do_irq others s = Some Fault"
proof -
  have "unat (env s (trace s) gic_cpu_if_ICCHPIR) < 212" using assms(2) by (simp add: word_less_nat_alt)
  with assms show ?thesis
    by (auto simp: do_irq_def gic_cpu_get_pending_intr_def bind_io_def readl_def Let_def get_io_def seq_io_def
      MAX_INT_VECTORS_def fault_io_def)
qed

theorem do_irq_unregistered_witness:
  "\<forall>others. do_irq others (storage_machine (\<lambda>_. 0)) = Some Fault \<and> do_irq others (storage_machine (\<lambda>_. 29)) = Some Fault"
  using do_irq_unregistered [of "storage_machine (\<lambda>_. 0)"] do_irq_unregistered [of "storage_machine (\<lambda>_. 29)"]
  by simp

text \<open>
  Clearing one pending interrupt clears its 31 neighbours: the read-modify-write of a
  register whose ones clear writes back all pending interrupts of the word, and they are lost.
\<close>

theorem clear_pending_drops_word:
  assumes "env s = gic_device e0 p0 r0"
  shows "runs (gic_dic_clear_pending n) (\<lambda>_ t. gic_enabled e0 (trace t) = gic_enabled e0 (trace s) \<and>
    (\<forall>i. intr (gic_pending p0 (trace t)) i \<longleftrightarrow> i div 32 \<noteq> unat n div 32 \<and> intr (gic_pending p0 (trace s)) i)) s"
  by (rule device.runs_clear_pending [OF assms]) simp

theorem clear_pending_drops_word_witness:
  "runs (gic_dic_clear_pending 40) (\<lambda>_ t. \<not> intr (gic_pending (\<lambda>_. 0xf00) (trace t)) 41)
    (gic_machine (\<lambda>_. 0) (\<lambda>_. 0xf00) (\<lambda>_. 0)) \<and> intr (gic_pending (\<lambda>_. 0xf00) []) 41"
  by (intro conjI runs_mono [OF clear_pending_drops_word [of _ "\<lambda>_. 0" "\<lambda>_. 0xf00" "\<lambda>_. 0"]])
    (auto simp: gic_machine_def, simp add: intr_def)

text \<open>
  Initialisation: whatever the boot ROM left, afterwards no interrupt is enabled or
  pending, every priority below 8 interrupts, and the distributor and the processor
  interface are on.
\<close>

theorem interrupts_initialised:
  assumes "env s = gic_device e0 p0 r0"
  shows "runs arch_interrupt_init (\<lambda>r t. r = 0 \<and>
    map (gic_enabled e0 (trace t)) [0..<8] = replicate 8 0 \<and>
    map (gic_pending p0 (trace t)) [0..<8] = replicate 8 0 \<and>
    gic_device e0 p0 r0 (trace t) gic_cpu_if_ICCPMR = 8 \<and>
    gic_device e0 p0 r0 (trace t) gic_cpu_if_ICCICR = 1 \<and>
    bit (gic_device e0 p0 r0 (trace t) CONFIG_GIC_DIC_CONTROL) 0) s"
proof -
  let ?E = "rev (map (\<lambda>k. Wr (dic_reg CONFIG_GIC_DIC_CLR_ENABLE k) 0xFFFFFFFF) [0..<8])"
  let ?P = "rev (map (\<lambda>k. Wr (dic_reg CONFIG_GIC_DIC_CLR_PENDING k) 0xFFFFFFFF) [0..<8])"
  have regs: "CONFIG_GIC_DIC_CONTROL \<in> gic_config_regs" "gic_cpu_if_ICCICR \<in> gic_config_regs"
    "gic_cpu_if_ICCPMR \<in> gic_config_regs" by (simp_all add: gic_config_regs_def)
  have neq: "CONFIG_GIC_DIC_CONTROL \<noteq> gic_cpu_if_ICCICR" "CONFIG_GIC_DIC_CONTROL \<noteq> gic_cpu_if_ICCPMR"
    "gic_cpu_if_ICCPMR \<noteq> gic_cpu_if_ICCICR" by (simp_all add: reg_defs)
  have zeros: "map g [0..<8] = replicate 8 (0 :: u32)" if "\<And>j. j < 8 \<Longrightarrow> g j = 0" for g
    by (rule replicate_eqI) (use that in auto)
  have eight: "set [0..<8] \<subseteq> {..<8}" by auto
  show ?thesis
    unfolding arch_interrupt_init_def runs_seq [of "seqs _"] runs_seqs_Cons runs_seqs_Nil runs_ret
      runs_clear_enable_all runs_clear_pending_all gic_dic_disable_secure_def gic_dic_enable_secure_def
      gic_cpu_enable_def gic_cpu_set_priority_mask_def runs_setbits runs_clrbits runs_writel
    by (simp del: upt.simps(2) upt_rec_numeral add: assms regs neq neq [symmetric] zeros device.enable_frame device.hw_simps
      device.enable_cleared [OF eight] device.pending_cleared [OF eight] bit_simps)
qed

theorem interrupts_initialised_witness:
  "runs arch_interrupt_init (\<lambda>r t. r = 0 \<and>
    map (gic_enabled (\<lambda>_. 0xffff) (trace t)) [0..<8] = replicate 8 0 \<and>
    map (gic_pending (\<lambda>_. 3) (trace t)) [0..<8] = replicate 8 0)
    (gic_machine (\<lambda>_. 0xffff) (\<lambda>_. 3) (\<lambda>_. 0))"
  by (rule runs_mono [OF interrupts_initialised [of _ "\<lambda>_. 0xffff" "\<lambda>_. 3" "\<lambda>_. 0"]])
    (simp_all add: gic_machine_def del: upt.simps(2) upt_rec_numeral)

end
