(* ===== verification/Timer.thy ===== *)
theory Timer imports Machine SocRegs begin

text \<open>
  timer.c: the OSC1 timer, a 32-bit counter that counts down from
  \<open>TIMER_LOAD_VAL\<close> and rolls over. \<open>gd->tbl\<close> and \<open>gd->lastinc\<close> are fields of the machine.
\<close>

section \<open>Operations\<close>

definition timer_init :: "int io" where
  "timer_init = seq_io (writel TIMER_LOAD_VAL timer_load_val)
     (seq_io (writel TIMER_LOAD_VAL timer_curr_val)
     (bind_io (readl timer_ctrl) (\<lambda>v. seq_io (writel (v OR 0x3) timer_ctrl)
     (ret 0))))"

definition read_timer :: "u32 io" where
  "read_timer = readl timer_curr_val"

text \<open>The loop of \<open>__udelay\<close>; \<open>tmo\<close> is a signed \<open>long\<close>.\<close>

partial_function (option) udelay_loop :: "u32 \<Rightarrow> u32 \<Rightarrow> mach \<Rightarrow> unit res option" where
  "udelay_loop tmo prev s =
     (if 0 <s tmo then
        bind_io read_timer (\<lambda>now.
        udelay_loop
          (if now \<le> prev then tmo - (prev - now) else tmo - (TIMER_LOAD_VAL - prev + now)) now) s
      else ret () s)"

definition udelay :: "u32 \<Rightarrow> unit io" where
  "udelay usec =
     (let tmo = usec * CONFIG_TIMER_CLOCK_KHZ div 1000 in
      bind_io read_timer (\<lambda>prev. udelay_loop tmo prev))"

text \<open>Ticks of \<open>get_timer\<close> per count of the hardware timer.\<close>

definition timer_scale :: "u32 \<Rightarrow> u32" where
  "timer_scale v = v div (CONFIG_TIMER_CLOCK_KHZ * 1000 div CONFIG_SYS_HZ)"

definition get_timer_masked :: "u32 io" where
  "get_timer_masked =
     bind_io read_timer (\<lambda>v.
     let now = timer_scale v in
     bind_io (get_io lastinc) (\<lambda>last.
     seq_io (if now \<le> last
       then modify_io (\<lambda>s. s\<lparr>tbl := tbl s + (last - now)\<rparr>)
       else modify_io (\<lambda>s. s\<lparr>tbl := tbl s + (timer_scale TIMER_LOAD_VAL - last + now)\<rparr>))
     (seq_io (modify_io (\<lambda>s. s\<lparr>lastinc := now\<rparr>))
     (get_io tbl))))"

definition get_timer :: "u32 \<Rightarrow> u32 io" where
  "get_timer base = bind_io get_timer_masked (\<lambda>t. ret (t - base))"

definition reset_timer :: "unit io" where
  "reset_timer = bind_io read_timer (\<lambda>v.
     seq_io (modify_io (\<lambda>s. s\<lparr>lastinc := timer_scale v\<rparr>))
     (modify_io (\<lambda>s. s\<lparr>tbl := 0\<rparr>)))"

definition get_timer_count_masked :: "u32 io" where
  "get_timer_count_masked =
     bind_io read_timer (\<lambda>now.
     bind_io (get_io lastinc) (\<lambda>last.
     seq_io (if now \<le> last
       then modify_io (\<lambda>s. s\<lparr>tbl := tbl s + (last - now)\<rparr>)
       else modify_io (\<lambda>s. s\<lparr>tbl := tbl s + (TIMER_LOAD_VAL - last + now)\<rparr>))
     (seq_io (modify_io (\<lambda>s. s\<lparr>lastinc := now\<rparr>))
     (get_io tbl))))"

definition get_timer_count :: "u32 \<Rightarrow> u32 io" where
  "get_timer_count base = bind_io get_timer_count_masked (\<lambda>t. ret (t - base))"

definition reset_timer_count :: "unit io" where
  "reset_timer_count = bind_io read_timer (\<lambda>v.
     seq_io (modify_io (\<lambda>s. s\<lparr>lastinc := v\<rparr>))
     (modify_io (\<lambda>s. s\<lparr>tbl := 0\<rparr>)))"

text \<open>\<open>do c = get(); while (c < n)\<close>, the shape of all loops that wait for a time stamp.\<close>

partial_function (option) wait_until :: "u32 io \<Rightarrow> u32 \<Rightarrow> mach \<Rightarrow> unit res option" where
  "wait_until get n s = bind_io get (\<lambda>c t. if c < n then wait_until get n t else ret () t) s"

section \<open>The contract of a time stamp\<close>

text \<open>
  Both pairs of functions keep a time stamp over a sampled counter: a reset captures
  the sample, a reading moves the stamp forward by the samples' difference. \<open>ticks\<close>
  is what one roll-over is taken to be worth.
\<close>

definition timer_read :: "mach \<Rightarrow> u32" where
  "timer_read s = env s (trace s) timer_curr_val"

definition timer_seen :: "mach \<Rightarrow> mach" where
  "timer_seen s = s\<lparr>trace := Rd timer_curr_val (timer_read s) # trace s\<rparr>"

text \<open>Only the timer was read and the time stamp moved, \<open>n\<close> times at most.\<close>

definition timer_only :: "mach \<Rightarrow> mach \<Rightarrow> bool" where
  "timer_only s t \<longleftrightarrow> (\<exists>vs l b. t = s\<lparr>trace := map (Rd timer_curr_val) vs @ trace s, lastinc := l, tbl := b\<rparr>)"

lemma timer_onlyI:
  "t = s\<lparr>trace := map (Rd timer_curr_val) vs @ trace s, lastinc := l, tbl := b\<rparr> \<Longrightarrow> timer_only s t"
  unfolding timer_only_def by blast

lemma timer_only_trans: "timer_only s t \<Longrightarrow> timer_only t u \<Longrightarrow> timer_only s u"
proof -
  assume "timer_only s t" and "timer_only t u"
  then obtain vs l b ws m c where
    "t = s\<lparr>trace := map (Rd timer_curr_val) vs @ trace s, lastinc := l, tbl := b\<rparr>"
    "u = t\<lparr>trace := map (Rd timer_curr_val) ws @ trace t, lastinc := m, tbl := c\<rparr>"
    unfolding timer_only_def by blast
  then show ?thesis by (intro timer_onlyI [where vs = "ws @ vs" and l = m and b = c]) simp
qed

lemma timer_seen_only: "timer_only s ((timer_seen s)\<lparr>lastinc := l, tbl := b\<rparr>)"
  by (rule timer_onlyI [where vs = "[timer_read s]" and l = l and b = b]) (simp add: timer_seen_def)

text \<open>A loop that waits on such reads is one itself.\<close>

lemma wait_until_only:
  assumes get: "\<And>s. \<exists>c t. get s = Some (Val c t) \<and> timer_only s t"
    and "wait_until get n s = Some r"
  shows "\<exists>t. r = Val () t \<and> timer_only s t"
proof (rule wait_until.raw_induct [where P = "\<lambda>g n s r. g = get \<longrightarrow> (\<exists>t. r = Val () t \<and> timer_only s t)",
      OF _ assms(2), THEN mp])
  fix wait g n s r
  assume IH: "\<And>g n s r. wait g n s = Some r \<Longrightarrow> g = get \<longrightarrow> (\<exists>t. r = Val () t \<and> timer_only s t)"
    and eq: "bind_io g (\<lambda>c t. if c < n then wait g n t else ret () t) s = Some r"
  show "g = get \<longrightarrow> (\<exists>t. r = Val () t \<and> timer_only s t)"
  proof
  assume g: "g = get"
  obtain c u where "g s = Some (Val c u)" and u: "timer_only s u" using get [of s] g by blast
  then show "\<exists>t. r = Val () t \<and> timer_only s t"
    using eq g IH [of g n u r] by (auto simp: bind_io_def ret_def split: if_splits dest: timer_only_trans)
  qed
qed simp

text \<open>
  A counter that counts down from \<open>v0\<close>: after a history \<open>h\<close> it has counted \<open>\<tau> h\<close> periods. It
  counts at most \<open>D\<close> of them between two accesses, and at least one in any \<open>K\<close> accesses.
\<close>

definition ticking :: "nat \<Rightarrow> nat \<Rightarrow> (event list \<Rightarrow> nat) \<Rightarrow> u32 \<Rightarrow> (event list \<Rightarrow> u32 \<Rightarrow> u32) \<Rightarrow> bool" where
  "ticking K D \<tau> v0 hw \<longleftrightarrow> \<tau> [] = 0 \<and> (\<forall>h. hw h timer_curr_val = v0 - of_nat (\<tau> h)) \<and>
     (\<forall>e h. \<tau> h \<le> \<tau> (e # h) \<and> \<tau> (e # h) \<le> \<tau> h + D) \<and> (\<forall>es h. length es = K \<longrightarrow> \<tau> h < \<tau> (es @ h))"

lemma ticking_steps:
  assumes "ticking K D \<tau> v0 hw"
  shows "\<tau> h \<le> \<tau> (es @ h)" "\<tau> (es @ h) \<le> \<tau> h + D * length es"
proof (induction es)
  case (Cons e es)
  {
    case 1
    then show ?case using Cons assms unfolding ticking_def by (metis append_Cons le_trans)
  next
    case 2
    have "\<tau> (e # es @ h) \<le> \<tau> (es @ h) + D" using assms unfolding ticking_def by blast
    with Cons(2) show ?case by simp
  }
qed simp_all

lemma ticking_bound:
  assumes "ticking K D \<tau> v0 hw"
  shows "\<tau> h \<le> D * length h"
proof -
  have "\<tau> (h @ []) \<le> \<tau> [] + D * length h" by (rule ticking_steps(2) [OF assms])
  moreover have "\<tau> [] = 0" using assms by (simp add: ticking_def)
  ultimately show ?thesis by simp
qed

lemma ticking_every:
  assumes "ticking K D \<tau> v0 hw" and "length es = K * n"
  shows "\<tau> h + n \<le> \<tau> (es @ h)"
  using assms(2)
proof (induction n arbitrary: es)
  case (Suc n)
  then have "length (take K es) = K" "length (drop K es) = K * n" by simp_all
  then have "\<tau> h + n \<le> \<tau> (drop K es @ h)" "\<tau> (drop K es @ h) < \<tau> (take K es @ drop K es @ h)"
    using Suc.IH assms(1) unfolding ticking_def by blast+
  then show ?case unfolding append.assoc [symmetric] append_take_drop_id by simp
qed simp

lemma ticking_once:
  assumes "ticking (Suc 0) D \<tau> v0 hw"
  shows "\<tau> h < \<tau> (e # h)" "\<tau> h + length es \<le> \<tau> (es @ h)"
  using ticking_every [OF assms, of "[e]" 1 h] ticking_every [OF assms, of es "length es" h] by simp_all

text \<open>One period for each access.\<close>

definition steady :: "u32 \<Rightarrow> (event list \<Rightarrow> u32 \<Rightarrow> u32) \<Rightarrow> bool" where
  "steady v0 hw \<longleftrightarrow> (\<forall>h. hw h timer_curr_val = v0 - of_nat (length h))"

lemma steady_ticking: "steady v0 hw \<Longrightarrow> ticking (Suc 0) (Suc 0) length v0 hw"
  by (auto simp: steady_def ticking_def)

lemma unat_steady: "k \<le> unat v0 \<Longrightarrow> unat (v0 - of_nat k :: u32) = unat v0 - k"
proof -
  assume k: "k \<le> unat v0"
  then have "k < 2 ^ LENGTH(32)" using unsigned_less [of v0, where 'a = nat] by simp
  then have u: "unat (of_nat k :: u32) = k" by (simp only: unat_of_nat mod_less)
  with k have "of_nat k \<le> v0" by (simp only: word_le_nat_alt)
  with u show ?thesis by (simp only: unat_sub)
qed

locale time_stamp =
  fixes sample :: "u32 \<Rightarrow> u32" and reset :: "unit io" and stamp :: "u32 io" and ticks :: u32
  assumes reset_run: "reset s = Some (Val () ((timer_seen s)\<lparr>lastinc := sample (timer_read s), tbl := 0\<rparr>))"
    and stamp_run: "stamp s =
      (let now = sample (timer_read s);
           new = (if now \<le> lastinc s then tbl s + (lastinc s - now) else tbl s + (ticks - lastinc s + now))
       in Some (Val new ((timer_seen s)\<lparr>lastinc := now, tbl := new\<rparr>)))"
    and sample_mono: "v \<le> w \<Longrightarrow> sample v \<le> sample w"
begin

text \<open>The stamp runs: it is the distance from the sample \<open>c\<close> captured at the reset.\<close>

definition running :: "u32 \<Rightarrow> mach \<Rightarrow> bool" where
  "running c s \<longleftrightarrow> tbl s + lastinc s = c"

lemma reset_running: "runs reset (\<lambda>_ t. running (sample (timer_read s)) t \<and> tbl t = 0) s"
  by (simp add: runs_def reset_run running_def)

lemma stamp_running:
  assumes "running c s" and "sample (timer_read s) \<le> lastinc s"
  shows "runs stamp (\<lambda>x t. x = c - sample (timer_read s) \<and> running c t) s"
  using assms by (auto simp: runs_def stamp_run running_def Let_def)

lemma stamp_step:
  assumes "running c s" and "sample (timer_read s) \<le> lastinc s"
  shows "stamp s = Some (Val (c - sample (timer_read s)) (s\<lparr>trace := Rd timer_curr_val (timer_read s) # trace s,
    lastinc := sample (timer_read s), tbl := c - sample (timer_read s)\<rparr>))"
  using assms by (auto simp: stamp_run running_def timer_seen_def Let_def)

text \<open>
  On a counter that has not rolled over, the wait ends no later than at the first sample that
  satisfies it; there all samples of a stretch of at least \<open>D\<close> periods do.
\<close>

lemma wait_ticking:
  assumes "ticking (Suc 0) D \<tau> v0 (env s)" and "running c s" and "sample (v0 - of_nat (\<tau> (trace s))) \<le> lastinc s"
    and "\<tau> (trace s) < B" and "m + D \<le> B" and "B \<le> Suc (unat v0)"
    and "\<And>x. m \<le> x \<Longrightarrow> x < B \<Longrightarrow> n \<le> c - sample (v0 - of_nat x) - start"
  shows "\<exists>vs l b. wait_until (bind_io stamp (\<lambda>t. ret (t - start))) n s =
      Some (Val () (s\<lparr>trace := map (Rd timer_curr_val) vs @ trace s, lastinc := l, tbl := b\<rparr>)) \<and>
    length vs \<le> Suc (m - \<tau> (trace s))"
  using assms(1-4)
proof (induction "m - \<tau> (trace s)" arbitrary: s rule: less_induct)
  case less
  define u where "u = s\<lparr>trace := Rd timer_curr_val (timer_read s) # trace s,
    lastinc := sample (timer_read s), tbl := c - sample (timer_read s)\<rparr>"
  have v: "timer_read s = v0 - of_nat (\<tau> (trace s))"
    using less.prems(1) by (simp add: timer_read_def ticking_def)
  have step: "stamp s = Some (Val (c - sample (timer_read s)) u)"
    unfolding u_def by (rule stamp_step) (use less.prems(2,3) v in simp_all)
  show ?case
  proof (cases "c - sample (timer_read s) - start < n")
    case True
    then have before: "\<tau> (trace s) < m" using assms(7) [of "\<tau> (trace s)"] less.prems(4) v by (metis leD le_less_linear)
    have later: "\<tau> (trace s) < \<tau> (trace u)" "\<tau> (trace u) \<le> \<tau> (trace s) + D"
      using ticking_once(1) [OF less.prems(1)] less.prems(1) by (simp_all add: u_def ticking_def)
    then have "\<tau> (trace u) \<le> unat v0" using before assms(5,6) by simp
    then have "v0 - of_nat (\<tau> (trace u)) \<le> v0 - of_nat (\<tau> (trace s))"
      using later(1) unat_steady [of "\<tau> (trace u)" v0] unat_steady [of "\<tau> (trace s)" v0] by (simp only: word_le_nat_alt)
    then have "\<exists>vs l b. wait_until (bind_io stamp (\<lambda>t. ret (t - start))) n u =
        Some (Val () (u\<lparr>trace := map (Rd timer_curr_val) vs @ trace u, lastinc := l, tbl := b\<rparr>)) \<and>
        length vs \<le> Suc (m - \<tau> (trace u))"
      using before later less.prems assms(5)
      by (intro less.hyps) (simp_all add: sample_mono u_def v running_def)
    then obtain vs l b where rest: "wait_until (bind_io stamp (\<lambda>t. ret (t - start))) n u =
        Some (Val () (u\<lparr>trace := map (Rd timer_curr_val) vs @ trace u, lastinc := l, tbl := b\<rparr>))"
      "length vs \<le> Suc (m - \<tau> (trace u))" by blast
    then have "wait_until (bind_io stamp (\<lambda>t. ret (t - start))) n s =
      Some (Val () (s\<lparr>trace := map (Rd timer_curr_val) (vs @ [timer_read s]) @ trace s, lastinc := l, tbl := b\<rparr>))"
      using True by (subst wait_until.simps) (simp add: bind_io_def step ret_def rest(1), simp add: u_def)
    moreover have "length (vs @ [timer_read s]) \<le> Suc (m - \<tau> (trace s))"
      using rest(2) before later(1) by simp
    ultimately show ?thesis by blast
  next
    case False
    then have "wait_until (bind_io stamp (\<lambda>t. ret (t - start))) n s =
      Some (Val () (s\<lparr>trace := map (Rd timer_curr_val) [timer_read s] @ trace s,
        lastinc := sample (timer_read s), tbl := c - sample (timer_read s)\<rparr>))"
      by (subst wait_until.simps) (simp add: bind_io_def step ret_def, simp add: u_def)
    moreover have "length [timer_read s] \<le> Suc (m - \<tau> (trace s))" by simp
    ultimately show ?thesis by blast
  qed
qed

lemma wait_steady:
  assumes "steady v0 (env s)" and "running c s" and "sample (v0 - of_nat (length (trace s))) \<le> lastinc s"
    and "length (trace s) \<le> m" and "m \<le> unat v0" and "n \<le> c - sample (v0 - of_nat m) - start"
  shows "\<exists>vs l b. wait_until (bind_io stamp (\<lambda>t. ret (t - start))) n s =
      Some (Val () (s\<lparr>trace := map (Rd timer_curr_val) vs @ trace s, lastinc := l, tbl := b\<rparr>)) \<and>
    length vs \<le> Suc m - length (trace s)"
proof -
  have "n \<le> c - sample (v0 - of_nat x) - start" if "m \<le> x" "x < m + 1" for x
  proof -
    from that have "x = m" by simp
    with assms(6) show ?thesis by simp
  qed
  moreover have "Suc (m - length (trace s)) = Suc m - length (trace s)" using assms(4) by simp
  ultimately show ?thesis
    using wait_ticking [OF steady_ticking [OF assms(1)] assms(2,3), of "m + 1" m n start] assms(4,5) by simp
qed

lemma stamp_rollover:
  assumes "\<not> sample (timer_read s) \<le> lastinc s"
  shows "runs stamp (\<lambda>x t. x = tbl s + (ticks - lastinc s + sample (timer_read s))) s"
  using assms by (auto simp: runs_def stamp_run Let_def)

end

interpretation ms: time_stamp timer_scale reset_timer get_timer_masked "timer_scale TIMER_LOAD_VAL"
  by unfold_locales
    (simp_all add: reset_timer_def get_timer_masked_def read_timer_def bind_io_def readl_def seq_io_def
      modify_io_def get_io_def timer_seen_def timer_read_def Let_def,
      simp add: timer_scale_def word_le_nat_alt unat_div div_le_mono)

interpretation count: time_stamp "\<lambda>v. v" reset_timer_count get_timer_count_masked TIMER_LOAD_VAL
  by unfold_locales
    (simp_all add: reset_timer_count_def get_timer_count_masked_def read_timer_def bind_io_def readl_def
      seq_io_def modify_io_def get_io_def timer_seen_def timer_read_def Let_def)

section \<open>Delays\<close>

text \<open>The reads the delay loop makes, newest first, and what is left of the time-out.\<close>

definition udelay_reads :: "u32 \<Rightarrow> u32 \<Rightarrow> mach \<Rightarrow> unit res \<Rightarrow> bool" where
  "udelay_reads tmo prev s r \<longleftrightarrow> (\<exists>vs. r = Val () (s\<lparr>trace := map (Rd timer_curr_val) vs @ trace s\<rparr>) \<and>
     (sorted (vs @ [prev]) \<longrightarrow> \<not> 0 <s tmo - (prev - hd (vs @ [prev]))))"

lemma udelay_reads_step:
  assumes "udelay_reads (if now \<le> prev then tmo - (prev - now) else x) now
      (s\<lparr>trace := Rd timer_curr_val now # trace s\<rparr>) r"
  shows "udelay_reads tmo prev s r"
proof -
  from assms obtain vs where r: "r = Val () (s\<lparr>trace := map (Rd timer_curr_val) (vs @ [now]) @ trace s\<rparr>)"
    and left: "sorted (vs @ [now]) \<Longrightarrow>
      \<not> 0 <s (if now \<le> prev then tmo - (prev - now) else x) - (now - hd (vs @ [now]))"
    unfolding udelay_reads_def by auto
  have "\<not> 0 <s tmo - (prev - hd ((vs @ [now]) @ [prev]))" if "sorted ((vs @ [now]) @ [prev])"
  proof -
    from that have "sorted (vs @ [now])" and "now \<le> prev" by (simp_all add: sorted_append)
    with left have "\<not> 0 <s tmo - (prev - now) - (now - hd (vs @ [now]))" by simp
    moreover have "hd ((vs @ [now]) @ [prev]) = hd (vs @ [now])" by (cases vs) simp_all
    ultimately show ?thesis by (simp add: algebra_simps)
  qed
  with r show ?thesis unfolding udelay_reads_def by blast
qed

lemma udelay_loop_reads:
  assumes "udelay_loop tmo prev s = Some r"
  shows "udelay_reads tmo prev s r"
proof (rule udelay_loop.raw_induct [where P = udelay_reads, OF _ assms])
  fix loop tmo prev s r
  assume IH: "\<And>tmo prev s r. loop tmo prev s = Some r \<Longrightarrow> udelay_reads tmo prev s r"
    and eq: "(if 0 <s tmo then bind_io read_timer (\<lambda>now. loop (if now \<le> prev then tmo - (prev - now)
      else tmo - (TIMER_LOAD_VAL - prev + now)) now) s else ret () s) = Some r"
  show "udelay_reads tmo prev s r"
  proof (cases "0 <s tmo")
    case True
    with eq have "udelay_reads (if timer_read s \<le> prev then tmo - (prev - timer_read s)
        else tmo - (TIMER_LOAD_VAL - prev + timer_read s)) (timer_read s)
        (s\<lparr>trace := Rd timer_curr_val (timer_read s) # trace s\<rparr>) r"
      by (intro IH) (simp add: bind_io_def read_timer_def readl_def Let_def timer_read_def split: if_splits)
    then show ?thesis by (rule udelay_reads_step)
  next
    case False
    with eq show ?thesis
      unfolding udelay_reads_def by (intro exI [of _ "[]"]) (auto simp: ret_def)
  qed
qed

lemma word_sless_diff:
  fixes a b :: u32
  assumes "b < a" and "a < 2 ^ 31"
  shows "0 <s a - b"
proof -
  have u: "uint (a - b) = uint a - uint b" 
    using assms(1) by (meson order.strict_implies_order uint_minus_simple_alt word_le_def)
  have "uint a < 2 ^ 31" using assms(2) by (simp add: word_less_def)
  moreover have "0 \<le> uint b" by simp
  ultimately have "uint (a - b) < 2 ^ 31" using u by linarith
  moreover have "0 < uint (a - b)" using assms(1) u by (simp add: word_less_def)
  ultimately show ?thesis
    by (simp add: word_sless_alt sint_uint signed_take_bit_int_eq_self)
qed

text \<open>
  The periods of the 25 MHz clock that a delay is turned into, in 32-bit arithmetic; from
  171,799 us on the product overflows and the delay is too short.
\<close>

definition udelay_periods :: "u32 \<Rightarrow> u32" where
  "udelay_periods usec = usec * CONFIG_TIMER_CLOCK_KHZ div 1000"

lemma udelay_periods:
  shows "usec < 171799 \<Longrightarrow> udelay_periods usec = usec * 25" and "unat (udelay_periods usec) < 2 ^ 23"
proof -
  assume "usec < 171799"
  then have b: "unat usec < 171799" by (simp add: word_less_nat_alt)
  then have "unat (usec * 25000) = unat usec * 25000" "unat (usec * 25) = unat usec * 25"
    by (simp_all add: unat_word_ariths)
  with b show "udelay_periods usec = usec * 25"
    by (simp add: udelay_periods_def reg_defs word_unat_eq_iff unat_div)
next
  have "unat (usec * CONFIG_TIMER_CLOCK_KHZ) < 2 ^ 32" using unsigned_less [where 'a = nat and w = "usec * CONFIG_TIMER_CLOCK_KHZ"] by simp
  then show "unat (udelay_periods usec) < 2 ^ 23" by (simp add: udelay_periods_def unat_div)
qed

text \<open>
  C31: \<open>__udelay(usec)\<close> waits long enough as long as the counter does not roll over: if it
  returns and the timer values it has read never rise, they span at least the periods it
  computes for the delay, which are usec * 25 below 171,799 us. (After a roll-over it may
  return too early, see the roll-over property of this file.)
\<close>

theorem udelay_waits:
  assumes "udelay usec s = Some (Val () t)"
  shows "\<exists>vs v0. trace t = map (Rd timer_curr_val) (vs @ [v0]) @ trace s \<and>
    (sorted (vs @ [v0]) \<longrightarrow> udelay_periods usec \<le> v0 - hd (vs @ [v0])) \<and>
    (usec < 171799 \<longrightarrow> udelay_periods usec = usec * 25)"
proof -
  define v0 where "v0 = timer_read s"
  have small: "udelay_periods usec < 2 ^ 31" using udelay_periods(2) [of usec] by (simp add: word_less_nat_alt)
  from assms have "udelay_loop (udelay_periods usec) v0 (s\<lparr>trace := Rd timer_curr_val v0 # trace s\<rparr>) = Some (Val () t)"
    by (simp add: udelay_def bind_io_def read_timer_def readl_def Let_def v0_def timer_read_def udelay_periods_def)
  from udelay_loop_reads [OF this] obtain vs where
    run: "t = s\<lparr>trace := map (Rd timer_curr_val) vs @ Rd timer_curr_val v0 # trace s\<rparr>" and
    left: "sorted (vs @ [v0]) \<longrightarrow> \<not> 0 <s udelay_periods usec - (v0 - hd (vs @ [v0]))"
    unfolding udelay_reads_def by auto
  from run have t: "trace t = map (Rd timer_curr_val) (vs @ [v0]) @ trace s" by simp
  have "udelay_periods usec \<le> v0 - hd (vs @ [v0])" if "sorted (vs @ [v0])"
    using left that word_sless_diff [OF _ small] by (meson not_le)
  with t udelay_periods(1) [of usec] show ?thesis by blast
qed

lemma sless_distance:
  assumes "T < 2 ^ 31" and "e < T + 2 ^ 31"
  shows "0 <s (of_nat T - of_nat e :: u32) \<longleftrightarrow> e < T"
proof -
  have "(of_nat T - of_nat e :: u32) = word_of_int (int T - int e)" by simp
  then have "sint (of_nat T - of_nat e :: u32) = signed_take_bit 31 (int T - int e)" by (simp only: signed_of_int) simp
  also have "\<dots> = int T - int e" using assms by (intro signed_take_bit_int_eq_self) simp_all
  finally show ?thesis by (simp add: word_sless_alt)
qed

text \<open>
  The loop at a poll: it has read the counter after the history \<open>h\<close>, and the delay of \<open>T\<close>
  periods began after \<open>h0\<close>.
\<close>

lemma udelay_loop_ticking:
  assumes "ticking K D \<tau> v0 (env s)" and "T < 2 ^ 31" and "0 < D" and "D \<le> 2 ^ 31" and "T + D \<le> unat (v0 - of_nat (\<tau> h0))"
    and "trace s = Rd timer_curr_val prev # h" and "prev = v0 - of_nat (\<tau> h)" and "h = es @ h0" and "\<tau> h < \<tau> h0 + T + D"
    and "tmo = of_nat T - of_nat (\<tau> h - \<tau> h0)" and "length es \<le> K * T"
  shows "\<exists>t v g. udelay_loop tmo prev s = Some (Val () t) \<and> trace t = Rd timer_curr_val v # g \<and>
    \<tau> h0 + T \<le> \<tau> g \<and> \<tau> g < \<tau> h0 + T + D \<and> length (trace t) \<le> length (trace s) + (K * T - length es)"
  using assms
proof (induction "K * T - length es" arbitrary: tmo prev s h es rule: less_induct)
  case less
  have tick: "ticking K D \<tau> v0 (env s)" by fact
  define e where "e = \<tau> h - \<tau> h0"
  have h0: "\<tau> h0 \<le> \<tau> h" using ticking_steps(1) [OF tick] less.prems(8) by simp
  have pos: "0 <s tmo \<longleftrightarrow> e < T"
    unfolding less.prems(10) e_def [symmetric] by (rule sless_distance) (use less.prems(2,4,9) e_def h0 in linarith)+
  show ?case
  proof (cases "e < T")
    case False
    then have "udelay_loop tmo prev s = Some (Val () s)" using pos by (subst udelay_loop.simps) (simp add: ret_def)
    with False show ?thesis using less.prems(6,9) h0 by (auto simp: e_def)
  next
    case True
    define now where "now = v0 - of_nat (\<tau> (trace s))"
    define e' where "e' = \<tau> (trace s) - \<tau> h0"
    define u where "u = s\<lparr>trace := Rd timer_curr_val now # trace s\<rparr>"
    have step: "\<tau> h \<le> \<tau> (trace s)" "\<tau> (trace s) \<le> \<tau> h + D"
      using tick unfolding less.prems(6) ticking_def by blast+
    have more: "length es < K * T"
    proof (rule ccontr)
      assume "\<not> length es < K * T"
      with less.prems(11) have "length es = K * T" by simp
      from ticking_every [OF tick this, of h0] True show False by (simp add: e_def less.prems(8))
    qed
    have first: "v0 - of_nat (\<tau> h0) - of_nat e = prev" "v0 - of_nat (\<tau> h0) - of_nat e' = now"
      using h0 step by (simp_all add: e_def e'_def less.prems(7) now_def of_nat_diff)
    have "e' < T + D" using True step h0 by (simp add: e_def e'_def)
    moreover have "e \<le> e'" using step by (simp add: e_def e'_def)
    ultimately have "unat now = unat (v0 - of_nat (\<tau> h0)) - e'" "unat prev = unat (v0 - of_nat (\<tau> h0)) - e"
      unfolding first [symmetric] using less.prems(5) by (simp_all add: unat_steady)
    then have le: "now \<le> prev" using \<open>e \<le> e'\<close> by (simp add: word_le_nat_alt)
    have tmo: "tmo - (prev - now) = of_nat T - of_nat e'"
      unfolding less.prems(10) first [symmetric] e_def [symmetric] by simp
    have "env s (trace s) timer_curr_val = now" using tick by (simp add: ticking_def now_def)
    then have run: "udelay_loop tmo prev s = udelay_loop (of_nat T - of_nat e') now u"
      using pos True le tmo by (subst udelay_loop.simps) (simp add: bind_io_def read_timer_def readl_def Let_def u_def)
    have "\<exists>t v g. udelay_loop (of_nat T - of_nat e') now u = Some (Val () t) \<and> trace t = Rd timer_curr_val v # g \<and>
      \<tau> h0 + T \<le> \<tau> g \<and> \<tau> g < \<tau> h0 + T + D \<and> length (trace t) \<le> length (trace u) + (K * T - length (Rd timer_curr_val prev # es))"
      using more tick less.prems(2-5,6,8) \<open>e' < T + D\<close> step h0
      by (intro less.hyps [of "Rd timer_curr_val prev # es" u now "trace s"])
        (auto simp: u_def now_def e'_def)
    with more show ?thesis unfolding run by (fastforce simp: u_def)
  qed
qed

text \<open>
  C32: \<open>__udelay\<close> returns, and not late. Let the counter count at most \<open>D\<close> periods between two
  accesses and at least one in any \<open>K\<close>, and let it be far enough from its roll-over when
  the delay of \<open>T\<close> periods begins. Then the function returns after at most \<open>K * T\<close> more polls, and its
  last poll comes at least \<open>T\<close> and less than \<open>T + D\<close> periods after its first.
\<close>

theorem udelay_returns:
  assumes "ticking K D \<tau> v0 (env s)" and "D \<le> 2 ^ 31" and "unat (udelay_periods usec) = T"
    and "T + D \<le> unat (env s (trace s) timer_curr_val)"
  shows "\<exists>t v h. udelay usec s = Some (Val () t) \<and> length (trace t) \<le> length (trace s) + 1 + K * T \<and>
    trace t = Rd timer_curr_val v # h \<and> \<tau> (trace s) + T \<le> \<tau> h \<and> \<tau> h < \<tau> (trace s) + T + D"
proof -
  define prev where "prev = v0 - of_nat (\<tau> (trace s))"
  define u where "u = s\<lparr>trace := Rd timer_curr_val prev # trace s\<rparr>"
  have first: "env s (trace s) timer_curr_val = prev" using assms(1) by (simp add: ticking_def prev_def)
  have "0 < D"
  proof (rule ccontr)
    assume "\<not> 0 < D"
    then have "\<tau> (replicate K e @ []) \<le> \<tau> []" for e
      using ticking_steps(2) [OF assms(1), where es = "replicate K e" and h = "[]"] by simp
    moreover have "\<tau> [] < \<tau> (replicate K e @ [])" for e
      using assms(1) unfolding ticking_def by (metis length_replicate)
    ultimately show False by (metis leD)
  qed
  moreover have "T < 2 ^ 31" using udelay_periods(2) [of usec] assms(3) by simp
  moreover have "udelay_periods usec = of_nat T" unfolding assms(3) [symmetric] by simp
  ultimately have "\<exists>t v g. udelay_loop (udelay_periods usec) prev u = Some (Val () t) \<and> trace t = Rd timer_curr_val v # g \<and>
      \<tau> (trace s) + T \<le> \<tau> g \<and> \<tau> g < \<tau> (trace s) + T + D \<and> length (trace t) \<le> length (trace u) + (K * T - length ([] :: event list))"
    using assms(1,2,4) unfolding first
    by (intro udelay_loop_ticking [where h = "trace s"]) (auto simp: u_def prev_def)
  moreover have "udelay usec s = udelay_loop (udelay_periods usec) prev u"
    by (simp add: udelay_def bind_io_def read_timer_def readl_def Let_def u_def udelay_periods_def first)
  ultimately show ?thesis by (auto simp: u_def)
qed

text \<open>A machine whose timer starts at \<open>c\<close> and counts one period for each access.\<close>

definition ticking_machine :: "u32 \<Rightarrow> mach" where
  "ticking_machine c = (storage_machine (\<lambda>_. 0))\<lparr>env := \<lambda>h a. c - of_nat (length h)\<rparr>"

text \<open>A slower and less regular one: seven periods at every third access.\<close>

definition uneven_machine :: "u32 \<Rightarrow> mach" where
  "uneven_machine c = (storage_machine (\<lambda>_. 0))\<lparr>env := \<lambda>h a. c - of_nat (7 * (length h div 3))\<rparr>"

lemma ticking_machine: "env (ticking_machine c) h a = c - of_nat (length h)" "trace (ticking_machine c) = []"
  "ticking (Suc 0) (Suc 0) length c (env (ticking_machine c))"
  by (simp_all add: ticking_machine_def ticking_def)

lemma uneven_machine: "env (uneven_machine c) [] a = c" "trace (uneven_machine c) = []"
  "ticking 3 7 (\<lambda>h. 7 * (length h div 3)) c (env (uneven_machine c))"
  by (auto simp: uneven_machine_def ticking_def div_Suc div_add_self1)

theorem udelay_returns_witness:
  "\<exists>t. udelay 2 (uneven_machine 1000) = Some (Val () t) \<and> length (trace t) \<le> 151"
  using udelay_returns [OF uneven_machine(3) [of 1000], of 2 50]
  by (auto simp: uneven_machine(1,2) udelay_periods)

text \<open>A fast one, fifty periods for each access: the loop polls once.\<close>

definition fast_machine :: "u32 \<Rightarrow> mach" where
  "fast_machine c = (storage_machine (\<lambda>_. 0))\<lparr>env := \<lambda>h a. c - of_nat (50 * length h)\<rparr>"

theorem udelay_waits_witness:
  "\<exists>t. udelay 2 (fast_machine 1000) = Some (Val () t) \<and> trace t = [Rd timer_curr_val 950, Rd timer_curr_val 1000] \<and>
    sorted [950 :: u32, 1000] \<and> udelay_periods 2 \<le> 1000 - 950"
proof -
  let ?t = "(fast_machine 1000)\<lparr>trace := [Rd timer_curr_val 950, Rd timer_curr_val 1000]\<rparr>"
  have "udelay 2 (fast_machine 1000) = Some (Val () ?t)"
    by (simp add: udelay_def Let_def bind_io_def read_timer_def readl_def fast_machine_def storage_machine_def reg_defs)
      (subst udelay_loop.simps, simp add: word_sless_alt bind_io_def read_timer_def readl_def Let_def,
       subst udelay_loop.simps, simp add: word_sless_alt ret_def reg_defs)
  note this udelay_waits [OF this]
  moreover have "trace (fast_machine 1000) = []" by (simp add: fast_machine_def storage_machine_def)
  ultimately show ?thesis by (auto simp: append_eq_Cons_conv map_eq_Cons_conv)
qed

section \<open>Roll-over\<close>

text \<open>
  The time stamp of \<open>get_timer_count\<close>: as long as the counter has not rolled over since
  \<open>reset_timer_count\<close> sampled \<open>c\<close>, it is the number of periods counted since then, so
  differences of stamps are differences of time.
\<close>

theorem timer_count_elapsed:
  assumes "tbl s + lastinc s = c" and "timer_read s \<le> lastinc s"
  shows "runs (get_timer_count base) (\<lambda>x t. x = c - timer_read s - base \<and> tbl t + lastinc t = c) s"
  using count.stamp_running [of c s] assms
  by (simp add: get_timer_count_def runs_bind runs_ret count.running_def)

theorem timer_count_elapsed_witness:
  "runs (get_timer_count 1) (\<lambda>x t. x = 4) ((ticking_machine 95)\<lparr>lastinc := 100\<rparr>)"
  by (rule runs_mono [OF timer_count_elapsed [where c = 100]])
    (simp_all add: timer_read_def ticking_machine_def)

text \<open>
  C33: Roll-over is accounted for backwards: when the counter, which counts down, has passed
  from \<open>lastinc\<close> through 0 to a larger value, the periods elapsed are \<open>lastinc - now\<close>
  modulo 2^32, and \<open>get_timer_count_masked\<close> moves the stamp back by one more than
  that instead of forward; \<open>__udelay\<close> uses the same formula.
\<close>

theorem timer_rollover_goes_back:
  assumes "lastinc s < timer_read s"
  shows "runs get_timer_count_masked (\<lambda>x t. x = tbl s - (lastinc s - timer_read s) - 1) s"
proof -
  have load: "TIMER_LOAD_VAL = - 1" by (simp add: TIMER_LOAD_VAL_def)
  have "tbl s + (TIMER_LOAD_VAL - lastinc s + timer_read s) = tbl s - (lastinc s - timer_read s) - 1"
    unfolding load by (simp add: algebra_simps)
  with count.stamp_rollover [of s] assms show ?thesis by simp
qed

theorem timer_rollover_goes_back_witness:
  "runs get_timer_count_masked (\<lambda>x t. x = - 21) ((ticking_machine 0xFFFFFFF6)\<lparr>lastinc := 10\<rparr>)"
  by (rule runs_mono [OF timer_rollover_goes_back])
    (simp_all add: timer_read_def ticking_machine_def storage_machine_def)

end
