(* ===== verification/FreezeController.thy ===== *)
theory FreezeController imports Timer begin

text \<open>
  freeze_controller.c and the inline functions of freeze_controller.h: freezing and thawing
  the I/O banks of the HPS. The flags \<open>frzctrl_channel_freeze\<close> are the field \<open>frz\<close> of the
  machine; a channel outside the array is a \<open>Fault\<close>.
\<close>

section \<open>Data\<close>

datatype FreezeChannelSelect =
    FREEZE_CHANNEL_0
  | FREEZE_CHANNEL_1
  | FREEZE_CHANNEL_2
  | FREEZE_CHANNEL_3
  | FREEZE_CHANNEL_UNDEFINED

datatype FreezeControllerFSMSelect =
    FREEZE_CONTROLLER_FSM_SW
  | FREEZE_CONTROLLER_FSM_HW
  | FREEZE_CONTROLLER_FSM_UNDEFINED

primrec channel_index :: "FreezeChannelSelect \<Rightarrow> nat" where
  "channel_index FREEZE_CHANNEL_0 = 0"
| "channel_index FREEZE_CHANNEL_1 = 1"
| "channel_index FREEZE_CHANNEL_2 = 2"
| "channel_index FREEZE_CHANNEL_3 = 3"
| "channel_index FREEZE_CHANNEL_UNDEFINED = 4"

definition SYSMGR_FRZCTRL_LOOP_PARAM :: u32 where [reg_defs]: "SYSMGR_FRZCTRL_LOOP_PARAM = 1000"

definition SYSMGR_FRZCTRL_INTOSC_33 :: u32 where [reg_defs]: "SYSMGR_FRZCTRL_INTOSC_33 = 33"

definition SYSMGR_FRZCTRL_INTOSC_1000 :: u32 where [reg_defs]: "SYSMGR_FRZCTRL_INTOSC_1000 = 1000"

definition FREEZE_CTRL_FROZEN :: u32 where [reg_defs]: "FREEZE_CTRL_FROZEN = 0"

definition FREEZE_CTRL_THAWED :: u32 where [reg_defs]: "FREEZE_CTRL_THAWED = 1"

section \<open>Operations\<close>

text \<open>\<open>frzctrl_channel_freeze[channel_id] = v\<close>\<close>

definition set_channel_freeze :: "FreezeChannelSelect \<Rightarrow> u32 \<Rightarrow> unit io" where
  "set_channel_freeze ch v = bind_io (get_io (\<lambda>s. channel_index ch < length (frz s))) (\<lambda>ok.
     if ok then modify_io (\<lambda>s. s\<lparr>frz := (frz s)[channel_index ch := v]\<rparr>) else fault_io)"

definition sys_mgr_frzctrl_frzchn_is_frozen :: "FreezeChannelSelect \<Rightarrow> bool io" where
  "sys_mgr_frzctrl_frzchn_is_frozen ch = bind_io (get_io frz) (\<lambda>flags.
     if channel_index ch < length flags
     then ret (flags ! channel_index ch = FREEZE_CTRL_FROZEN) else fault_io)"

definition sys_mgr_frzctrl_frzchn1_state_get :: "u32 io" where
  "sys_mgr_frzctrl_frzchn1_state_get =
     bind_io (readl (SOCFPGA_SYSMGR_ADDRESS + SYSMGR_FRZCTRL_HWCTRL_ADDRESS))
       (\<lambda>v. ret (SYSMGR_FRZCTRL_HWCTRL_VIO1STATE_GET v))"

definition frz_src :: u32 where [reg_defs]:
  "frz_src = SOCFPGA_SYSMGR_ADDRESS + SYSMGR_FRZCTRL_SRC_ADDRESS"

definition hioctrl :: u32 where [reg_defs]:
  "hioctrl = SOCFPGA_SYSMGR_ADDRESS + SYSMGR_FRZCTRL_HIOCTRL_ADDRESS"

definition hwctrl :: u32 where [reg_defs]:
  "hwctrl = SOCFPGA_SYSMGR_ADDRESS + SYSMGR_FRZCTRL_HWCTRL_ADDRESS"

definition vioctrl :: "FreezeChannelSelect \<Rightarrow> u32" where [reg_defs]:
  "vioctrl ch = SOCFPGA_SYSMGR_ADDRESS + (SYSMGR_FRZCTRL_VIOCTRL_ADDRESS +
     shl (of_nat (channel_index ch)) SYSMGR_FRZCTRL_VIOCTRL_SHIFT)"

text \<open>The cases of the switch in \<open>sys_mgr_frzctrl_freeze_req\<close>.\<close>

definition freeze_vio :: "FreezeChannelSelect \<Rightarrow> unit io" where
  "freeze_vio ch = seqs [
     clrbits_le32 (vioctrl ch) (SYSMGR_FRZCTRL_VIOCTRL_SLEW_MASK OR
       SYSMGR_FRZCTRL_VIOCTRL_WKPULLUP_MASK OR SYSMGR_FRZCTRL_VIOCTRL_TRISTATE_MASK),
     clrbits_le32 (vioctrl ch) (SYSMGR_FRZCTRL_VIOCTRL_BUSHOLD_MASK OR
       SYSMGR_FRZCTRL_VIOCTRL_CFG_MASK),
     set_channel_freeze ch FREEZE_CTRL_FROZEN]"

definition freeze_hio :: "FreezeChannelSelect \<Rightarrow> unit io" where
  "freeze_hio ch = seqs [
     clrbits_le32 hioctrl (SYSMGR_FRZCTRL_HIOCTRL_SLEW_MASK OR
       SYSMGR_FRZCTRL_HIOCTRL_WKPULLUP_MASK OR SYSMGR_FRZCTRL_HIOCTRL_TRISTATE_MASK),
     bind_io (readl hioctrl) (\<lambda>v. writel
       ((v AND NOT (SYSMGR_FRZCTRL_HIOCTRL_BUSHOLD_MASK OR SYSMGR_FRZCTRL_HIOCTRL_CFG_MASK))
         OR SYSMGR_FRZCTRL_HIOCTRL_REGRST_MASK OR SYSMGR_FRZCTRL_HIOCTRL_OCTRST_MASK) hioctrl),
     bind_io (readl hioctrl) (\<lambda>v. writel
       ((v AND NOT SYSMGR_FRZCTRL_HIOCTRL_OCT_CFGEN_CALSTART_MASK)
         OR SYSMGR_FRZCTRL_HIOCTRL_DLLRST_MASK) hioctrl),
     set_channel_freeze ch FREEZE_CTRL_FROZEN]"

text \<open>
  \<open>i = 0; while (wanted != state_get()) { i++; if (1000 < i) return 1; }\<close>: at most 1001
  polls.
\<close>

definition state_probe :: "u32 \<Rightarrow> unit option io" where
  "state_probe wanted = bind_io sys_mgr_frzctrl_frzchn1_state_get (\<lambda>v.
     ret (if v = wanted then Some () else None))"

definition await_state :: "u32 \<Rightarrow> bool io" where
  "await_state wanted = bind_io (attempt (Suc (unat SYSMGR_FRZCTRL_LOOP_PARAM)) (state_probe wanted))
     (\<lambda>r. ret (r \<noteq> None))"

definition sys_mgr_frzctrl_freeze_req ::
    "FreezeChannelSelect \<Rightarrow> FreezeControllerFSMSelect \<Rightarrow> u32 io" where
  "sys_mgr_frzctrl_freeze_req channel_id fsm_select = (case fsm_select of
     FREEZE_CONTROLLER_FSM_SW \<Rightarrow>
       seq_io (writel SYSMGR_FRZCTRL_SRC_VIO1_ENUM_SW frz_src)
       (case channel_id of
         FREEZE_CHANNEL_UNDEFINED \<Rightarrow> ret 1
       | FREEZE_CHANNEL_3 \<Rightarrow> seq_io (freeze_hio channel_id) (ret 0)
       | _ \<Rightarrow> seq_io (freeze_vio channel_id) (ret 0))
   | FREEZE_CONTROLLER_FSM_HW \<Rightarrow>
       seq_io (writel SYSMGR_FRZCTRL_SRC_VIO1_ENUM_HW frz_src)
       (seq_io (setbits_le32 hwctrl SYSMGR_FRZCTRL_HWCTRL_VIO1REQ_MASK)
       (bind_io (await_state SYSMGR_FRZCTRL_HWCTRL_VIO1STATE_ENUM_FROZEN) (\<lambda>frozen.
        if \<not> frozen then ret 1 else
        seq_io (set_channel_freeze channel_id FREEZE_CTRL_FROZEN) (ret 0))))
   | FREEZE_CONTROLLER_FSM_UNDEFINED \<Rightarrow> ret 1)"

text \<open>\<open>do clk = get_timer_count(start); while (clk < n)\<close>\<close>

definition wait_count :: "u32 \<Rightarrow> u32 \<Rightarrow> unit io" where
  "wait_count start n = wait_until (get_timer_count start) n"

definition delay_count :: "u32 \<Rightarrow> unit io" where
  "delay_count n = seq_io reset_timer_count
     (bind_io (get_timer_count 0) (\<lambda>start. wait_count start n))"

text \<open>The cases of the switch in \<open>sys_mgr_frzctrl_thaw_req\<close>.\<close>

definition thaw_vio :: "FreezeChannelSelect \<Rightarrow> unit io" where
  "thaw_vio ch = seqs [
     setbits_le32 (vioctrl ch) (SYSMGR_FRZCTRL_VIOCTRL_BUSHOLD_MASK OR
       SYSMGR_FRZCTRL_VIOCTRL_CFG_MASK),
     setbits_le32 (vioctrl ch) (SYSMGR_FRZCTRL_VIOCTRL_WKPULLUP_MASK OR
       SYSMGR_FRZCTRL_VIOCTRL_TRISTATE_MASK),
     setbits_le32 (vioctrl ch) SYSMGR_FRZCTRL_VIOCTRL_SLEW_MASK,
     set_channel_freeze ch FREEZE_CTRL_THAWED]"

definition thaw_hio :: "FreezeChannelSelect \<Rightarrow> unit io" where
  "thaw_hio ch = seqs [
     clrbits_le32 hioctrl SYSMGR_FRZCTRL_HIOCTRL_DLLRST_MASK,
     setbits_le32 hioctrl SYSMGR_FRZCTRL_HIOCTRL_OCT_CFGEN_CALSTART_MASK,
     delay_count SYSMGR_FRZCTRL_INTOSC_1000,
     bind_io (readl hioctrl) (\<lambda>v. writel
       ((v OR SYSMGR_FRZCTRL_HIOCTRL_BUSHOLD_MASK OR SYSMGR_FRZCTRL_HIOCTRL_CFG_MASK)
         AND NOT SYSMGR_FRZCTRL_HIOCTRL_OCTRST_MASK) hioctrl),
     delay_count SYSMGR_FRZCTRL_INTOSC_33,
     setbits_le32 hioctrl (SYSMGR_FRZCTRL_HIOCTRL_WKPULLUP_MASK OR
       SYSMGR_FRZCTRL_HIOCTRL_TRISTATE_MASK),
     clrbits_le32 hioctrl SYSMGR_FRZCTRL_HIOCTRL_REGRST_MASK,
     setbits_le32 hioctrl SYSMGR_FRZCTRL_HIOCTRL_SLEW_MASK,
     set_channel_freeze ch FREEZE_CTRL_THAWED]"

definition sys_mgr_frzctrl_thaw_req ::
    "FreezeChannelSelect \<Rightarrow> FreezeControllerFSMSelect \<Rightarrow> u32 io" where
  "sys_mgr_frzctrl_thaw_req channel_id fsm_select = (case fsm_select of
     FREEZE_CONTROLLER_FSM_SW \<Rightarrow>
       seq_io (writel SYSMGR_FRZCTRL_SRC_VIO1_ENUM_SW frz_src)
       (case channel_id of
         FREEZE_CHANNEL_UNDEFINED \<Rightarrow> ret 1
       | FREEZE_CHANNEL_3 \<Rightarrow> seq_io (thaw_hio channel_id) (ret 0)
       | _ \<Rightarrow> seq_io (thaw_vio channel_id) (ret 0))
   | FREEZE_CONTROLLER_FSM_HW \<Rightarrow>
       seq_io (writel SYSMGR_FRZCTRL_SRC_VIO1_ENUM_HW frz_src)
       (seq_io (clrbits_le32 hwctrl SYSMGR_FRZCTRL_HWCTRL_VIO1REQ_MASK)
       (bind_io (await_state SYSMGR_FRZCTRL_HWCTRL_VIO1STATE_ENUM_THAWED) (\<lambda>thawed.
        if \<not> thawed then ret 1 else
        seq_io (set_channel_freeze channel_id FREEZE_CTRL_THAWED) (ret 0))))
   | FREEZE_CONTROLLER_FSM_UNDEFINED \<Rightarrow> ret 1)"

section \<open>Rules\<close>

lemma wp_reset_count: "wp reset_timer_count (\<lambda>_ t. timer_only s t) H s"
  by (simp add: wp_def count.reset_run timer_seen_only)

lemma wp_get_count: "wp (get_timer_count b) (\<lambda>_ t. timer_only s t) H s"
  by (simp add: get_timer_count_def wp_bind wp_ret)
    (simp add: wp_def count.stamp_run Let_def timer_seen_only)

lemma wait_count_only: "wait_count start n s = Some r \<Longrightarrow> \<exists>t. r = Val () t \<and> timer_only s t"
  unfolding wait_count_def
proof (rule wait_until_only)
  show "\<exists>c t. get_timer_count start s = Some (Val c t) \<and> timer_only s t" for s
    by (simp add: get_timer_count_def bind_io_def count.stamp_run ret_def Let_def timer_seen_only)
qed

lemma wp_delay_count:
  assumes "\<And>vs l b. Q () (s\<lparr>trace := map (Rd timer_curr_val) vs @ trace s, lastinc := l, tbl := b\<rparr>)"
  shows "wp (delay_count n) Q H s"
proof -
  have wait: "wp (wait_count start n) (\<lambda>_ t. timer_only s t) H u" if "timer_only s u" for start u
    by (rule wpI) (use that in \<open>auto dest!: wait_count_only dest: timer_only_trans\<close>)
  have "wp (delay_count n) (\<lambda>_ t. timer_only s t) H s"
    unfolding delay_count_def wp_seq wp_bind
    by (rule wp_mono [OF wp_reset_count], rule wp_mono [OF wp_get_count])
      (auto intro!: wait elim: timer_only_trans)
  then show ?thesis
    by (rule wp_mono) (use assms in \<open>auto simp: timer_only_def\<close>)
qed

text \<open>On a steady counter the delay ends, after a bounded number of reads.\<close>

lemma runs_delay_count:
  assumes "steady v0 (env s)" and "length (trace s) + unat n + 2 \<le> unat v0" and "unat n < 2000"
    and "\<And>vs l b. length vs \<le> unat n + 3 \<Longrightarrow>
      Q () (s\<lparr>trace := map (Rd timer_curr_val) vs @ trace s, lastinc := l, tbl := b\<rparr>)"
  shows "runs (delay_count n) Q s"
proof -
  define k where "k = length (trace s)"
  define v where "v = timer_read s"
  define u where "u = s\<lparr>trace := Rd timer_curr_val (v - 1) # Rd timer_curr_val v # trace s,
    lastinc := v - 1, tbl := 1\<rparr>"
  define m where "m = k + unat n + 1"
  have v: "v = v0 - of_nat k" using assms(1) by (simp add: v_def k_def timer_read_def steady_def)
  have next': "v - 1 = v0 - of_nat (Suc k)" by (simp add: v)
  have "v0 - of_nat (Suc k) \<le> v0 - of_nat k"
    unfolding word_le_nat_alt using assms(2) unat_steady [of k v0] unat_steady [of "Suc k" v0]
    by (simp only: k_def)
  then have le: "v - 1 \<le> v" by (simp only: next' [symmetric] v [symmetric])
  have len: "length (trace u) = k + 2" by (simp add: u_def k_def)
  have sample: "v0 - of_nat (length (trace u)) \<le> v - 1"
    unfolding next' len word_le_nat_alt using assms(2) unat_steady [of "k + 2" v0] unat_steady [of "Suc k" v0]
    by (simp add: k_def)
  have "reset_timer_count s = Some (Val () (s\<lparr>trace := Rd timer_curr_val v # trace s, lastinc := v, tbl := 0\<rparr>))"
    by (simp add: count.reset_run timer_seen_def v_def)
  moreover have "get_timer_count 0 (s\<lparr>trace := Rd timer_curr_val v # trace s, lastinc := v, tbl := 0\<rparr>) =
      Some (Val 1 u)"
  proof -
    have "timer_read (s\<lparr>trace := Rd timer_curr_val v # trace s, lastinc := v, tbl := 0\<rparr>) = v - 1"
      using assms(1) by (simp add: timer_read_def steady_def next' k_def)
    with le show ?thesis
      by (simp add: get_timer_count_def bind_io_def count.stamp_run Let_def ret_def timer_seen_def u_def)
  qed
  moreover have "\<exists>vs l b. wait_count 1 n u =
      Some (Val () (u\<lparr>trace := map (Rd timer_curr_val) vs @ trace u, lastinc := l, tbl := b\<rparr>)) \<and>
      length vs \<le> Suc (max m (k + 2)) - length (trace u)"
    unfolding wait_count_def get_timer_count_def
  proof (rule count.wait_steady)
    show "steady v0 (env u)" using assms(1) by (simp add: u_def)
    show "count.running v u" by (simp add: count.running_def u_def)
    show "v0 - of_nat (length (trace u)) \<le> lastinc u" using sample by (simp add: u_def)
    show "length (trace u) \<le> max m (k + 2)" by (simp add: len)
    show "max m (k + 2) \<le> unat v0" using assms(2) by (simp add: m_def k_def)
    have "v - (v0 - of_nat (max m (k + 2))) - 1 = of_nat (max m (k + 2)) - of_nat k - 1" by (simp add: v)
    also have "\<dots> = of_nat (max m (k + 2) - k - 1)" by (simp add: m_def max_def of_nat_diff)
    finally have diff: "v - (v0 - of_nat (max m (k + 2))) - 1 = of_nat (max m (k + 2) - k - 1)" .
    have "unat (of_nat (max m (k + 2) - k - 1) :: u32) = max m (k + 2) - k - 1"
      unfolding unat_of_nat using assms(3) by (simp add: m_def)
    then show "n \<le> v - (v0 - of_nat (max m (k + 2))) - 1"
      unfolding diff word_le_nat_alt by (simp add: m_def)
  qed
  then obtain vs l b where "wait_count 1 n u =
      Some (Val () (u\<lparr>trace := map (Rd timer_curr_val) vs @ trace u, lastinc := l, tbl := b\<rparr>))"
    and vs: "length vs \<le> Suc (max m (k + 2)) - length (trace u)" by blast
  ultimately have "delay_count n s = Some (Val () (s\<lparr>trace := map (Rd timer_curr_val) (vs @ [v - 1, v]) @ trace s,
      lastinc := l, tbl := b\<rparr>))"
    by (simp add: delay_count_def seq_io_def bind_io_def u_def)
  moreover have "length (vs @ [v - 1, v]) \<le> unat n + 3" using vs len by (auto simp: m_def)
  ultimately show ?thesis unfolding runs_iff using assms(4) by blast
qed

lemma runs_set_channel [runs_rules]:
  "runs (set_channel_freeze ch v) Q s \<longleftrightarrow>
     channel_index ch < length (frz s) \<and> Q () (s\<lparr>frz := (frz s)[channel_index ch := v]\<rparr>)"
  by (auto simp: set_channel_freeze_def runs_rules) (simp add: runs_def fault_io_def)

lemma wp_set_channel [wp_rules]:
  "wp (set_channel_freeze ch v) Q H s \<longleftrightarrow>
     channel_index ch < length (frz s) \<and> Q () (s\<lparr>frz := (frz s)[channel_index ch := v]\<rparr>)"
  by (auto simp: set_channel_freeze_def wp_rules)

lemma wp_is_frozen [wp_rules]:
  "wp (sys_mgr_frzctrl_frzchn_is_frozen ch) Q H s \<longleftrightarrow>
     channel_index ch < length (frz s) \<and> Q (frz s ! channel_index ch = FREEZE_CTRL_FROZEN) s"
  by (auto simp: sys_mgr_frzctrl_frzchn_is_frozen_def wp_rules)

lemma hioctrl_neq [simp]: "hioctrl \<noteq> frz_src" "frz_src \<noteq> hioctrl" "hioctrl \<noteq> timer_curr_val"
  by (simp_all add: reg_defs)

section \<open>Software freeze and thaw\<close>

text \<open>The control bits of a bank when it is frozen and when it is thawed.\<close>

definition vio_mask :: u32 where [reg_defs]: "vio_mask = 0x1f"

definition hio_mask :: u32 where [reg_defs]: "hio_mask = 0x1ff"

definition bank_reg :: "FreezeChannelSelect \<Rightarrow> u32" where
  "bank_reg ch = (if ch = FREEZE_CHANNEL_3 then hioctrl else vioctrl ch)"

definition frozen_bits :: "FreezeChannelSelect \<Rightarrow> u32 \<Rightarrow> u32" where
  "frozen_bits ch r = (if ch = FREEZE_CHANNEL_3 then (r AND NOT hio_mask) OR
     (SYSMGR_FRZCTRL_HIOCTRL_REGRST_MASK OR SYSMGR_FRZCTRL_HIOCTRL_OCTRST_MASK OR
      SYSMGR_FRZCTRL_HIOCTRL_DLLRST_MASK) else r AND NOT vio_mask)"

definition thawed_bits :: "FreezeChannelSelect \<Rightarrow> u32 \<Rightarrow> u32" where
  "thawed_bits ch r = (if ch = FREEZE_CHANNEL_3 then (r AND NOT hio_mask) OR
     (SYSMGR_FRZCTRL_HIOCTRL_CFG_MASK OR SYSMGR_FRZCTRL_HIOCTRL_BUSHOLD_MASK OR
      SYSMGR_FRZCTRL_HIOCTRL_TRISTATE_MASK OR SYSMGR_FRZCTRL_HIOCTRL_WKPULLUP_MASK OR
      SYSMGR_FRZCTRL_HIOCTRL_SLEW_MASK OR SYSMGR_FRZCTRL_HIOCTRL_OCT_CFGEN_CALSTART_MASK)
     else r OR vio_mask)"

text \<open>
  Software freeze of a bank whose control register stores what is written: it succeeds,
  the bank's control bits are the frozen ones whatever they were, every other bit of the
  register is kept, and exactly the flag of this channel is set to frozen.
\<close>

theorem freeze_sw:
  assumes "rw_registers (env s) {bank_reg ch}" and "ch \<noteq> FREEZE_CHANNEL_UNDEFINED"
    and "length (frz s) = 4"
  shows "runs (sys_mgr_frzctrl_freeze_req ch FREEZE_CONTROLLER_FSM_SW) (\<lambda>r t. r = 0 \<and>
      env t (trace t) (bank_reg ch) = frozen_bits ch (env s (trace s) (bank_reg ch)) \<and>
      frz t = (frz s)[channel_index ch := FREEZE_CTRL_FROZEN]) s"
proof (cases ch)
  case FREEZE_CHANNEL_3
  then show ?thesis
    using rw_registers.hw_simps [OF assms(1)] assms(3)
    by (simp add: sys_mgr_frzctrl_freeze_req_def freeze_hio_def runs_rules runs_clrbits runs_readl
      bank_reg_def frozen_bits_def reg_defs rmw_simps, intro and_or_cong) simp_all
qed (use rw_registers.hw_simps [OF assms(1)] assms(2,3) in \<open>simp_all add: sys_mgr_frzctrl_freeze_req_def
    freeze_vio_def runs_rules runs_clrbits bank_reg_def frozen_bits_def reg_defs rmw_simps\<close>)

text \<open>
  Software thaw, under the same hardware and, for the DDR bank, a running timer: it
  returns 0, the bank's control bits are the thawed ones (for the DDR bank the resets are
  released and the pads enabled), every other bit is kept, and exactly the flag of this
  channel is set to thawed.
\<close>

theorem thaw_sw:
  assumes "rw_registers (env s) {bank_reg ch}" and "ch \<noteq> FREEZE_CHANNEL_UNDEFINED"
    and "length (frz s) = 4" and "ch = FREEZE_CHANNEL_3 \<longrightarrow>
      (\<exists>v0. steady v0 (env s) \<and> length (trace s) + 2000 \<le> unat v0)"
  shows "runs (sys_mgr_frzctrl_thaw_req ch FREEZE_CONTROLLER_FSM_SW) (\<lambda>r t. r = 0 \<and>
      env t (trace t) (bank_reg ch) = thawed_bits ch (env s (trace s) (bank_reg ch)) \<and>
      frz t = (frz s)[channel_index ch := FREEZE_CTRL_THAWED]) s"
proof (cases ch)
  case FREEZE_CHANNEL_3
  with assms(4) obtain v0 where v0: "steady v0 (env s)" "length (trace s) + 2000 \<le> unat v0" by blast
  from FREEZE_CHANNEL_3 show ?thesis
    using rw_registers.hw_simps [OF assms(1)] assms(3) v0
    by (auto simp: sys_mgr_frzctrl_thaw_req_def thaw_hio_def runs_rules runs_clrbits runs_setbits runs_readl
      bank_reg_def thawed_bits_def SYSMGR_FRZCTRL_INTOSC_1000_def SYSMGR_FRZCTRL_INTOSC_33_def
      intro!: runs_delay_count [where ?v0.0 = v0])
      (simp add: reg_defs rmw_simps, intro and_or_cong; simp)
qed (use rw_registers.hw_simps [OF assms(1)] assms(2,3) in \<open>simp_all add: sys_mgr_frzctrl_thaw_req_def
    thaw_vio_def runs_rules runs_setbits bank_reg_def thawed_bits_def reg_defs rmw_simps\<close>)

theorem freeze_sw_witness:
  "runs (sys_mgr_frzctrl_freeze_req FREEZE_CHANNEL_3 FREEZE_CONTROLLER_FSM_SW) (\<lambda>r t. r = 0 \<and>
      env t (trace t) hioctrl = 0xffff00e0) (storage_machine (\<lambda>_. 0xffff011f))"
  by (rule runs_mono [OF freeze_sw]) (simp_all add: storage_on bank_reg_def frozen_bits_def reg_defs)

text \<open>Storage registers beside a steady timer.\<close>

definition timed_storage :: "(u32 \<Rightarrow> u32) \<Rightarrow> event list \<Rightarrow> u32 \<Rightarrow> u32" where
  "timed_storage r0 h a = (if a = timer_curr_val then 0x10000000 - of_nat (length h) else reg_val r0 h a)"

lemma timed_storage: "steady 0x10000000 (timed_storage r0)" "timer_curr_val \<notin> R \<Longrightarrow> rw_registers (timed_storage r0) R"
proof -
  show "steady 0x10000000 (timed_storage r0)" by (simp add: steady_def timed_storage_def)
  show "timer_curr_val \<notin> R \<Longrightarrow> rw_registers (timed_storage r0) R"
    using storage.read_frame by unfold_locales (auto simp: timed_storage_def)
qed

theorem thaw_sw_witness:
  "runs (sys_mgr_frzctrl_thaw_req FREEZE_CHANNEL_3 FREEZE_CONTROLLER_FSM_SW) (\<lambda>r t. r = 0 \<and>
      frz t = [0, 0, 0, 1] \<and> env t (trace t) hioctrl = 0xfffff11f)
    ((storage_machine (\<lambda>_. 0))\<lparr>env := timed_storage (\<lambda>_. 0xfffff0e0)\<rparr>)"
  by (rule runs_mono [OF thaw_sw])
    (auto simp: timed_storage bank_reg_def reg_defs intro!: exI [of _ "0x10000000"] timed_storage(2),
     simp_all add: thawed_bits_def timed_storage_def reg_defs)

section \<open>The hardware state machine\<close>

text \<open>What \<open>hwctrl\<close> showed in a poll.\<close>

definition hw_state :: "u32 \<Rightarrow> u32" where
  "hw_state v = SYSMGR_FRZCTRL_HWCTRL_VIO1STATE_GET v"

text \<open>At most \<open>n\<close> polls; the loop succeeds when, and only when, the last one showed the state.\<close>

lemma attempt_state:
  "\<exists>vs. attempt n (state_probe w) s =
      Some (Val (if vs \<noteq> [] \<and> hw_state (hd vs) = w then Some () else None)
        (s\<lparr>trace := map (Rd hwctrl) vs @ trace s\<rparr>)) \<and>
    length vs \<le> n \<and> (\<forall>v \<in> set (tl vs). hw_state v \<noteq> w)"
proof (induction n arbitrary: s)
  case 0
  show ?case by (intro exI [of _ "[]"]) (simp add: ret_def)
next
  case (Suc n)
  define v where "v = env s (trace s) hwctrl"
  define s1 where "s1 = s\<lparr>trace := Rd hwctrl v # trace s\<rparr>"
  have probe: "state_probe w s = Some (Val (if hw_state v = w then Some () else None) s1)"
    by (simp add: state_probe_def sys_mgr_frzctrl_frzchn1_state_get_def bind_io_def readl_def ret_def
      Let_def v_def s1_def hw_state_def hwctrl_def)
  show ?case
  proof (cases "hw_state v = w")
    case True
    with probe show ?thesis
      by (intro exI [of _ "[v]"]) (simp add: bind_io_def ret_def s1_def)
  next
    case False
    obtain vs where vs: "attempt n (state_probe w) s1 =
        Some (Val (if vs \<noteq> [] \<and> hw_state (hd vs) = w then Some () else None)
          (s1\<lparr>trace := map (Rd hwctrl) vs @ trace s1\<rparr>))"
      "length vs \<le> n" "\<forall>v \<in> set (tl vs). hw_state v \<noteq> w"
      using Suc.IH by blast
    from False have "\<forall>v \<in> set (tl (vs @ [v])). hw_state v \<noteq> w"
      using vs(3) by (cases vs) auto
    with False probe vs(1,2) show ?thesis
      by (intro exI [of _ "vs @ [v]"]) (cases vs; simp add: bind_io_def s1_def)
  qed
qed

text \<open>
  Freezing with the hardware state machine, on every hardware and for every channel
  with a flag: the request is made once, the state is polled at most 1001 times, and the
  result is 0 exactly when the last poll showed the frozen state; only then a flag
  changes.
\<close>

theorem freeze_hw:
  assumes "channel_index ch < length (frz s)"
  shows "\<exists>r0 vs. sys_mgr_frzctrl_freeze_req ch FREEZE_CONTROLLER_FSM_HW s = Some (Val
      (if vs \<noteq> [] \<and> hw_state (hd vs) = 2 then 0 else 1)
      (s\<lparr>trace := map (Rd hwctrl) vs @ [Wr hwctrl (r0 OR 1), Rd hwctrl r0, Wr frz_src 1] @ trace s,
         frz := if vs \<noteq> [] \<and> hw_state (hd vs) = 2
           then (frz s)[channel_index ch := FREEZE_CTRL_FROZEN] else frz s\<rparr>)) \<and>
    length vs \<le> 1001 \<and> (\<forall>v \<in> set (tl vs). hw_state v \<noteq> 2)"
proof -
  define r0 where "r0 = env s (Wr frz_src 1 # trace s) hwctrl"
  define s1 where "s1 = s\<lparr>trace := [Wr hwctrl (r0 OR 1), Rd hwctrl r0, Wr frz_src 1] @ trace s\<rparr>"
  obtain vs where vs: "attempt 1001 (state_probe 2) s1 =
      Some (Val (if vs \<noteq> [] \<and> hw_state (hd vs) = 2 then Some () else None)
        (s1\<lparr>trace := map (Rd hwctrl) vs @ trace s1\<rparr>))"
    "length vs \<le> 1001" "\<forall>v \<in> set (tl vs). hw_state v \<noteq> 2"
    using attempt_state by blast
  have param: "Suc (unat SYSMGR_FRZCTRL_LOOP_PARAM) = 1001" by (simp add: reg_defs)
  have "sys_mgr_frzctrl_freeze_req ch FREEZE_CONTROLLER_FSM_HW s =
      bind_io (await_state 2) (\<lambda>frozen. if \<not> frozen then ret 1 else
        seq_io (set_channel_freeze ch FREEZE_CTRL_FROZEN) (ret 0)) s1"
    by (simp add: sys_mgr_frzctrl_freeze_req_def seq_io_def setbits_le32_def bind_io_def writel_def
      readl_def Let_def s1_def r0_def SYSMGR_FRZCTRL_SRC_VIO1_ENUM_HW_def
      SYSMGR_FRZCTRL_HWCTRL_VIO1REQ_MASK_def SYSMGR_FRZCTRL_HWCTRL_VIO1STATE_ENUM_FROZEN_def)
  with vs assms show ?thesis
    by (intro exI [of _ r0] exI [of _ vs])
      (auto simp: await_state_def param bind_io_def seq_io_def set_channel_freeze_def get_io_def
        modify_io_def ret_def s1_def)
qed

theorem freeze_hw_witness:
  "\<exists>r t vs. sys_mgr_frzctrl_freeze_req FREEZE_CHANNEL_1 FREEZE_CONTROLLER_FSM_HW
     (storage_machine (\<lambda>_. 4)) = Some (Val r t) \<and> length vs \<le> 1001 \<and>
     (\<exists>r0. trace t = map (Rd hwctrl) vs @ [Wr hwctrl (r0 OR 1), Rd hwctrl r0, Wr frz_src 1])"
proof -
  have "channel_index FREEZE_CHANNEL_1 < length (frz (storage_machine (\<lambda>_. 4)))" by simp
  from freeze_hw [OF this] obtain r0 vs where
    "sys_mgr_frzctrl_freeze_req FREEZE_CHANNEL_1 FREEZE_CONTROLLER_FSM_HW (storage_machine (\<lambda>_. 4)) =
     Some (Val (if vs \<noteq> [] \<and> hw_state (hd vs) = 2 then 0 else 1) (storage_machine (\<lambda>_. 4)
      \<lparr>trace := map (Rd hwctrl) vs @ [Wr hwctrl (r0 OR 1), Rd hwctrl r0, Wr frz_src 1] @ [],
       frz := if vs \<noteq> [] \<and> hw_state (hd vs) = 2
         then [0, 0, 0, 0][channel_index FREEZE_CHANNEL_1 := FREEZE_CTRL_FROZEN] else [0, 0, 0, 0]\<rparr>))"
    "length vs \<le> 1001"
    unfolding storage_machine_simps by blast
  then show ?thesis by (intro exI conjI) (assumption, assumption, simp)
qed

text \<open>
  The hardware path does not check the channel: for \<open>FREEZE_CHANNEL_UNDEFINED\<close>, which
  the software path refuses, it writes past the end of the flag array as soon as the
  hardware reports the frozen state.
\<close>

theorem freeze_hw_undefined_channel:
  "sys_mgr_frzctrl_freeze_req FREEZE_CHANNEL_UNDEFINED FREEZE_CONTROLLER_FSM_HW
     (storage_machine (\<lambda>_. 4)) = Some Fault \<and>
   (\<exists>t. sys_mgr_frzctrl_freeze_req FREEZE_CHANNEL_UNDEFINED FREEZE_CONTROLLER_FSM_SW
     (storage_machine (\<lambda>_. 4)) = Some (Val 1 t))"
proof -
  have neq: "hwctrl \<noteq> frz_src" and frozen: "SYSMGR_FRZCTRL_HWCTRL_VIO1STATE_GET 5 = 2"
    by (simp_all add: reg_defs)
  show ?thesis
    using neq frozen
    by (simp add: sys_mgr_frzctrl_freeze_req_def await_state_def state_probe_def set_channel_freeze_def
      sys_mgr_frzctrl_frzchn1_state_get_def seq_io_def setbits_le32_def bind_io_def writel_def readl_def
      Let_def ret_def get_io_def fault_io_def hwctrl_def [symmetric]
      SYSMGR_FRZCTRL_HWCTRL_VIO1STATE_ENUM_FROZEN_def SYSMGR_FRZCTRL_HWCTRL_VIO1REQ_MASK_def
      SYSMGR_FRZCTRL_SRC_VIO1_ENUM_HW_def)
qed

end
