(* ===== verification/ClockManager.thy ===== *)
theory ClockManager imports FreezeController begin

text \<open>
  clock_manager.c: setting up the three PLLs and the clock tree. \<open>cm_basic_init\<close> is the
  sequence of the phases its comments announce. Loops that poll the hardware without bound
  are fixpoints.
\<close>

section \<open>Data\<close>

record cm_config_t =
  main_vco_base :: u32
  mpuclk :: u32
  mainclk :: u32
  dbgatclk :: u32
  mainqspiclk :: u32
  mainnandsdmmcclk :: u32
  cfg2fuser0clk :: u32
  maindiv :: u32
  dbgdiv :: u32
  tracediv :: u32
  l4src :: u32
  peri_vco_base :: u32
  emac0clk :: u32
  emac1clk :: u32
  perqspiclk :: u32
  pernandsdmmcclk :: u32
  perbaseclk :: u32
  s2fuser1clk :: u32
  perdiv :: u32
  gpiodiv :: u32
  persrc :: u32
  sdram_vco_base :: u32
  ddrdqsclk :: u32
  ddr2xdqsclk :: u32
  ddrdqclk :: u32
  s2fuser2clk :: u32

definition clk :: "u32 \<Rightarrow> u32" where [reg_defs]:
  "clk off = SOCFPGA_CLKMGR_ADDRESS + off"

section \<open>Operations\<close>

definition cm_wait_for_lock :: "u32 \<Rightarrow> unit io" where
  "cm_wait_for_lock m = poll_until (clk CLKMGR_INTER_ADDRESS) (\<lambda>v. v AND m = m)"

definition cm_wait4fsm :: "unit io" where
  "cm_wait4fsm = poll_until (clk CLKMGR_STAT_ADDRESS) (\<lambda>v. v AND CLKMGR_STAT_BUSY_ENUM_BUSY = 0)"

definition cm_write_bypass :: "u32 \<Rightarrow> unit io" where
  "cm_write_bypass val = seq_io (writel val (clk CLKMGR_BYPASS_ADDRESS)) cm_wait4fsm"

definition cm_write_ctrl :: "u32 \<Rightarrow> unit io" where
  "cm_write_ctrl val = seq_io (writel val (clk CLKMGR_CTRL_ADDRESS)) cm_wait4fsm"

definition cm_write_with_phase :: "u32 \<Rightarrow> u32 \<Rightarrow> u32 \<Rightarrow> unit io" where
  "cm_write_with_phase value reg_address m = seqs [
     poll_until reg_address (\<lambda>v. v AND m = 0),
     writel value reg_address,
     poll_until reg_address (\<lambda>v. v AND m = 0)]"

text \<open>Gate all clocks managed by software.\<close>

definition cm_gate :: "unit io" where
  "cm_gate = seqs [
     bind_io (readl (clk CLKMGR_PERPLLGRP_EN_ADDRESS)) (\<lambda>v.
       writel (NOT CLKMGR_PERPLLGRP_EN_NANDCLK_MASK AND v) (clk CLKMGR_PERPLLGRP_EN_ADDRESS)),
     writel (CLKMGR_MAINPLLGRP_EN_DBGTIMERCLK_MASK OR CLKMGR_MAINPLLGRP_EN_DBGTRACECLK_MASK OR
       CLKMGR_MAINPLLGRP_EN_DBGCLK_MASK OR CLKMGR_MAINPLLGRP_EN_DBGATCLK_MASK OR
       CLKMGR_MAINPLLGRP_EN_S2FUSER0CLK_MASK OR CLKMGR_MAINPLLGRP_EN_L4MPCLK_MASK)
       (clk CLKMGR_MAINPLLGRP_EN_ADDRESS),
     writel 0 (clk CLKMGR_SDRPLLGRP_EN_ADDRESS),
     writel 0 (clk CLKMGR_PERPLLGRP_EN_ADDRESS)]"

definition cm_enter_bypass :: "unit io" where
  "cm_enter_bypass = cm_write_bypass
     (CLKMGR_BYPASS_PERPLLSRC_SET CLKMGR_BYPASS_PERPLLSRC_ENUM_SELECT_EOSC1 OR
      CLKMGR_BYPASS_SDRPLLSRC_SET CLKMGR_BYPASS_SDRPLLSRC_ENUM_SELECT_EOSC1 OR
      CLKMGR_BYPASS_PERPLL_SET CLKMGR_BYPASS_ENUM_ENABLE OR
      CLKMGR_BYPASS_SDRPLL_SET CLKMGR_BYPASS_ENUM_ENABLE OR
      CLKMGR_BYPASS_MAINPLL_SET CLKMGR_BYPASS_ENUM_ENABLE)"

text \<open>VCO and source registers back to their reset values; the reads take the 5 us.\<close>

definition cm_reset_plls :: "unit io" where
  "cm_reset_plls = seqs [
     writel CLKMGR_MAINPLLGRP_VCO_RESET_VALUE (clk CLKMGR_MAINPLLGRP_VCO_ADDRESS),
     writel CLKMGR_PERPLLGRP_VCO_RESET_VALUE (clk CLKMGR_PERPLLGRP_VCO_ADDRESS),
     writel CLKMGR_SDRPLLGRP_VCO_RESET_VALUE (clk CLKMGR_SDRPLLGRP_VCO_ADDRESS),
     writel CLKMGR_PERPLLGRP_SRC_RESET_VALUE (clk CLKMGR_PERPLLGRP_SRC_ADDRESS),
     writel CLKMGR_MAINPLLGRP_L4SRC_RESET_VALUE (clk CLKMGR_MAINPLLGRP_L4SRC_ADDRESS),
     bind_io (readl (clk CLKMGR_MAINPLLGRP_VCO_ADDRESS)) (\<lambda>_. ret ()),
     bind_io (readl (clk CLKMGR_PERPLLGRP_VCO_ADDRESS)) (\<lambda>_. ret ()),
     bind_io (readl (clk CLKMGR_SDRPLLGRP_VCO_ADDRESS)) (\<lambda>_. ret ())]"

definition cm_program_vcos :: "cm_config_t \<Rightarrow> unit io" where
  "cm_program_vcos cfg = seqs [
     writel (main_vco_base cfg OR CLEAR_BGP_EN_PWRDN OR CLKMGR_MAINPLLGRP_VCO_REGEXTSEL_MASK)
       (clk CLKMGR_MAINPLLGRP_VCO_ADDRESS),
     writel (peri_vco_base cfg OR CLEAR_BGP_EN_PWRDN OR CLKMGR_PERPLLGRP_VCO_REGEXTSEL_MASK)
       (clk CLKMGR_PERPLLGRP_VCO_ADDRESS),
     writel (CLKMGR_SDRPLLGRP_VCO_OUTRESET_SET 0 OR CLKMGR_SDRPLLGRP_VCO_OUTRESETALL_SET 0 OR
       sdram_vco_base cfg OR CLEAR_BGP_EN_PWRDN OR CLKMGR_SDRPLLGRP_VCO_REGEXTSEL_MASK)
       (clk CLKMGR_SDRPLLGRP_VCO_ADDRESS)]"

definition cm_set_counters :: "cm_config_t \<Rightarrow> unit io" where
  "cm_set_counters cfg = seqs [
     writel (mpuclk cfg) (clk CLKMGR_MAINPLLGRP_MPUCLK_ADDRESS),
     writel (mainclk cfg) (clk CLKMGR_MAINPLLGRP_MAINCLK_ADDRESS),
     writel (dbgatclk cfg) (clk CLKMGR_MAINPLLGRP_DBGATCLK_ADDRESS),
     writel (cfg2fuser0clk cfg) (clk CLKMGR_MAINPLLGRP_CFGS2FUSER0CLK_ADDRESS),
     writel (emac0clk cfg) (clk CLKMGR_PERPLLGRP_EMAC0CLK_ADDRESS),
     writel (emac1clk cfg) (clk CLKMGR_PERPLLGRP_EMAC1CLK_ADDRESS),
     writel (mainqspiclk cfg) (clk CLKMGR_MAINPLLGRP_MAINQSPICLK_ADDRESS),
     writel (perqspiclk cfg) (clk CLKMGR_PERPLLGRP_PERQSPICLK_ADDRESS),
     writel (pernandsdmmcclk cfg) (clk CLKMGR_PERPLLGRP_PERNANDSDMMCCLK_ADDRESS),
     writel (perbaseclk cfg) (clk CLKMGR_PERPLLGRP_PERBASECLK_ADDRESS),
     writel (s2fuser1clk cfg) (clk CLKMGR_PERPLLGRP_S2FUSER1CLK_ADDRESS)]"

text \<open>\<open>for ( ; get_timer(start) < timeout ; );\<close>\<close>

definition cm_wait_timer :: "u32 \<Rightarrow> u32 \<Rightarrow> unit io" where
  "cm_wait_timer start timeout = wait_until (get_timer start) timeout"

definition cm_enable_vcos :: "cm_config_t \<Rightarrow> unit io" where
  "cm_enable_vcos cfg = seqs [
     writel (main_vco_base cfg OR VCO_EN_BASE) (clk CLKMGR_MAINPLLGRP_VCO_ADDRESS),
     writel (peri_vco_base cfg OR VCO_EN_BASE) (clk CLKMGR_PERPLLGRP_VCO_ADDRESS),
     writel (CLKMGR_SDRPLLGRP_VCO_OUTRESET_SET 0 OR CLKMGR_SDRPLLGRP_VCO_OUTRESETALL_SET 0 OR
       sdram_vco_base cfg OR VCO_EN_BASE) (clk CLKMGR_SDRPLLGRP_VCO_ADDRESS)]"

definition cm_set_dividers :: "cm_config_t \<Rightarrow> unit io" where
  "cm_set_dividers cfg = seqs [
     writel (maindiv cfg) (clk CLKMGR_MAINPLLGRP_MAINDIV_ADDRESS),
     writel (dbgdiv cfg) (clk CLKMGR_MAINPLLGRP_DBGDIV_ADDRESS),
     writel (tracediv cfg) (clk CLKMGR_MAINPLLGRP_TRACEDIV_ADDRESS),
     writel (perdiv cfg) (clk CLKMGR_PERPLLGRP_DIV_ADDRESS),
     writel (gpiodiv cfg) (clk CLKMGR_PERPLLGRP_GPIODIV_ADDRESS)]"

definition cm_sdram_counters :: "cm_config_t \<Rightarrow> unit io" where
  "cm_sdram_counters cfg = seqs [
     writel (ddrdqsclk cfg AND CLKMGR_SDRPLLGRP_DDRDQSCLK_CNT_MASK) (clk CLKMGR_SDRPLLGRP_DDRDQSCLK_ADDRESS),
     writel (ddr2xdqsclk cfg AND CLKMGR_SDRPLLGRP_DDR2XDQSCLK_CNT_MASK) (clk CLKMGR_SDRPLLGRP_DDR2XDQSCLK_ADDRESS),
     writel (ddrdqclk cfg AND CLKMGR_SDRPLLGRP_DDRDQCLK_CNT_MASK) (clk CLKMGR_SDRPLLGRP_DDRDQCLK_ADDRESS),
     writel (s2fuser2clk cfg AND CLKMGR_SDRPLLGRP_S2FUSER2CLK_CNT_MASK) (clk CLKMGR_SDRPLLGRP_S2FUSER2CLK_ADDRESS)]"

text \<open>Assert and release the reset of all outputs.\<close>

definition cm_toggle_outreset :: "cm_config_t \<Rightarrow> unit io" where
  "cm_toggle_outreset cfg =
     bind_io (readl (clk CLKMGR_MAINPLLGRP_VCO_ADDRESS)) (\<lambda>mainvco.
     seq_io (writel (mainvco OR CLKMGR_MAINPLLGRP_VCO_OUTRESETALL_MASK) (clk CLKMGR_MAINPLLGRP_VCO_ADDRESS))
     (bind_io (readl (clk CLKMGR_PERPLLGRP_VCO_ADDRESS)) (\<lambda>periphvco. seqs [
        writel (periphvco OR CLKMGR_PERPLLGRP_VCO_OUTRESETALL_MASK) (clk CLKMGR_PERPLLGRP_VCO_ADDRESS),
        writel (sdram_vco_base cfg OR VCO_EN_BASE OR CLKMGR_SDRPLLGRP_VCO_OUTRESETALL_SET 1)
          (clk CLKMGR_SDRPLLGRP_VCO_ADDRESS),
        writel (mainvco AND NOT CLKMGR_MAINPLLGRP_VCO_OUTRESETALL_MASK) (clk CLKMGR_MAINPLLGRP_VCO_ADDRESS),
        writel (periphvco AND NOT CLKMGR_PERPLLGRP_VCO_OUTRESETALL_MASK) (clk CLKMGR_PERPLLGRP_VCO_ADDRESS),
        writel (CLKMGR_SDRPLLGRP_VCO_OUTRESETALL_SET 0 OR sdram_vco_base cfg OR VCO_EN_BASE)
          (clk CLKMGR_SDRPLLGRP_VCO_ADDRESS)])))"

definition cm_set_phases :: "cm_config_t \<Rightarrow> unit io" where
  "cm_set_phases cfg = seqs [
     cm_write_with_phase (ddrdqsclk cfg) (clk CLKMGR_SDRPLLGRP_DDRDQSCLK_ADDRESS)
       CLKMGR_SDRPLLGRP_DDRDQSCLK_PHASE_MASK,
     cm_write_with_phase (ddr2xdqsclk cfg) (clk CLKMGR_SDRPLLGRP_DDR2XDQSCLK_ADDRESS)
       CLKMGR_SDRPLLGRP_DDR2XDQSCLK_PHASE_MASK,
     cm_write_with_phase (ddrdqclk cfg) (clk CLKMGR_SDRPLLGRP_DDRDQCLK_ADDRESS)
       CLKMGR_SDRPLLGRP_DDRDQCLK_PHASE_MASK,
     cm_write_with_phase (s2fuser2clk cfg) (clk CLKMGR_SDRPLLGRP_S2FUSER2CLK_ADDRESS)
       CLKMGR_SDRPLLGRP_S2FUSER2CLK_PHASE_MASK]"

definition cm_leave_bypass :: "unit io" where
  "cm_leave_bypass = cm_write_bypass
     (CLKMGR_BYPASS_PERPLLSRC_SET CLKMGR_BYPASS_PERPLLSRC_ENUM_SELECT_EOSC1 OR
      CLKMGR_BYPASS_SDRPLLSRC_SET CLKMGR_BYPASS_SDRPLLSRC_ENUM_SELECT_EOSC1 OR
      CLKMGR_BYPASS_PERPLL_SET CLKMGR_BYPASS_ENUM_DISABLE OR
      CLKMGR_BYPASS_SDRPLL_SET CLKMGR_BYPASS_ENUM_DISABLE OR
      CLKMGR_BYPASS_MAINPLL_SET CLKMGR_BYPASS_ENUM_DISABLE)"

definition cm_clear_safe_mode :: "unit io" where
  "cm_clear_safe_mode = bind_io (readl (clk CLKMGR_CTRL_ADDRESS)) (\<lambda>v.
     cm_write_ctrl (v OR CLKMGR_CTRL_SAFEMODE_SET CLKMGR_CTRL_SAFEMODE_MASK))"

definition cm_set_sources :: "cm_config_t \<Rightarrow> unit io" where
  "cm_set_sources cfg = seqs [
     writel (persrc cfg) (clk CLKMGR_PERPLLGRP_SRC_ADDRESS),
     writel (l4src cfg) (clk CLKMGR_MAINPLLGRP_L4SRC_ADDRESS)]"

definition cm_ungate :: "unit io" where
  "cm_ungate = seqs [
     writel (NOT 0) (clk CLKMGR_MAINPLLGRP_EN_ADDRESS),
     writel (NOT 0) (clk CLKMGR_PERPLLGRP_EN_ADDRESS),
     writel (NOT 0) (clk CLKMGR_SDRPLLGRP_EN_ADDRESS)]"

definition cm_basic_init :: "cm_config_t \<Rightarrow> int io" where
  "cm_basic_init cfg =
     seq_io (seqs [cm_gate, cm_enter_bypass, cm_reset_plls, cm_program_vcos cfg, reset_timer])
     (bind_io (get_timer 0) (\<lambda>start.
     seq_io (seqs [cm_set_counters cfg, cm_wait_timer start 7, cm_enable_vcos cfg, cm_set_dividers cfg,
       cm_wait_for_lock LOCKED_MASK, cm_sdram_counters cfg, cm_toggle_outreset cfg, cm_set_phases cfg,
       cm_leave_bypass, cm_clear_safe_mode, cm_set_sources cfg, cm_ungate])
     (ret 0)))"

section \<open>The protocol of the clock tree\<close>

text \<open>
  What the hardware manual and the comment of \<open>cm_basic_init\<close> ask of the order of accesses,
  as an observer of the history. It knows whether the PLLs are bypassed and the state machine
  was seen idle since the last write it needs, which VCOs were last written with their enable
  bit, whether all PLLs were seen locked while enabled since bypass was entered, which clock
  groups are gated, and whether safe mode was left; \<open>ok\<close> is false once a rule was broken:
  VCOs, counters and dividers are only written in bypass, SDRAM counters moreover only after
  lock; bypass is left only after lock; safe mode only when bypass was left; sources only
  change while everything is gated; clocks are opened only after safe mode was left.
\<close>

record pll_state =
  bypassed :: bool
  idle_seen :: bool
  enabled :: "u32 \<Rightarrow> bool"
  locked :: bool
  gated :: "u32 \<Rightarrow> bool"
  safe_left :: bool
  ok :: bool

definition vco_regs :: "u32 list" where
  "vco_regs = [clk CLKMGR_MAINPLLGRP_VCO_ADDRESS, clk CLKMGR_PERPLLGRP_VCO_ADDRESS,
     clk CLKMGR_SDRPLLGRP_VCO_ADDRESS]"

definition en_regs :: "u32 list" where
  "en_regs = [clk CLKMGR_MAINPLLGRP_EN_ADDRESS, clk CLKMGR_PERPLLGRP_EN_ADDRESS, clk CLKMGR_SDRPLLGRP_EN_ADDRESS]"

definition src_regs :: "u32 list" where
  "src_regs = [clk CLKMGR_PERPLLGRP_SRC_ADDRESS, clk CLKMGR_MAINPLLGRP_L4SRC_ADDRESS]"

definition divider_regs :: "u32 list" where
  "divider_regs = map clk [CLKMGR_MAINPLLGRP_MPUCLK_ADDRESS, CLKMGR_MAINPLLGRP_MAINCLK_ADDRESS,
     CLKMGR_MAINPLLGRP_DBGATCLK_ADDRESS, CLKMGR_MAINPLLGRP_MAINQSPICLK_ADDRESS,
     CLKMGR_MAINPLLGRP_MAINNANDSDMMCCLK_ADDRESS, CLKMGR_MAINPLLGRP_CFGS2FUSER0CLK_ADDRESS,
     CLKMGR_MAINPLLGRP_MAINDIV_ADDRESS, CLKMGR_MAINPLLGRP_DBGDIV_ADDRESS,
     CLKMGR_MAINPLLGRP_TRACEDIV_ADDRESS, CLKMGR_PERPLLGRP_EMAC0CLK_ADDRESS,
     CLKMGR_PERPLLGRP_EMAC1CLK_ADDRESS, CLKMGR_PERPLLGRP_PERQSPICLK_ADDRESS,
     CLKMGR_PERPLLGRP_PERNANDSDMMCCLK_ADDRESS, CLKMGR_PERPLLGRP_PERBASECLK_ADDRESS,
     CLKMGR_PERPLLGRP_S2FUSER1CLK_ADDRESS, CLKMGR_PERPLLGRP_DIV_ADDRESS,
     CLKMGR_PERPLLGRP_GPIODIV_ADDRESS]"

definition sdram_clk_regs :: "u32 list" where
  "sdram_clk_regs = map clk [CLKMGR_SDRPLLGRP_DDRDQSCLK_ADDRESS, CLKMGR_SDRPLLGRP_DDR2XDQSCLK_ADDRESS,
     CLKMGR_SDRPLLGRP_DDRDQCLK_ADDRESS, CLKMGR_SDRPLLGRP_S2FUSER2CLK_ADDRESS]"

text \<open>The clocks of a group that software gates; the debug and bridge clocks stay on.\<close>

definition gate_mask :: "u32 \<Rightarrow> u32" where
  "gate_mask a = (if a = clk CLKMGR_MAINPLLGRP_EN_ADDRESS
     then NOT (CLKMGR_MAINPLLGRP_EN_DBGTIMERCLK_MASK OR CLKMGR_MAINPLLGRP_EN_DBGTRACECLK_MASK OR
       CLKMGR_MAINPLLGRP_EN_DBGCLK_MASK OR CLKMGR_MAINPLLGRP_EN_DBGATCLK_MASK OR
       CLKMGR_MAINPLLGRP_EN_S2FUSER0CLK_MASK OR CLKMGR_MAINPLLGRP_EN_L4MPCLK_MASK) else NOT 0)"

text \<open>All three PLLs bypassed; all three locked.\<close>

definition all_bypassed :: "u32 \<Rightarrow> bool" where
  "all_bypassed v \<longleftrightarrow> v AND 0xb = 0xb"

definition cm_watch :: "event \<Rightarrow> pll_state \<Rightarrow> pll_state" where
  "cm_watch e st = (case e of
     Rd a v \<Rightarrow>
       if a = clk CLKMGR_STAT_ADDRESS then st\<lparr>idle_seen := idle_seen st \<or> v AND CLKMGR_STAT_BUSY_ENUM_BUSY = 0\<rparr>
       else if a = clk CLKMGR_INTER_ADDRESS then
         st\<lparr>locked := locked st \<or> (v AND LOCKED_MASK = LOCKED_MASK \<and> list_all (enabled st) vco_regs)\<rparr>
       else st
   | Wr a v \<Rightarrow>
       if a = clk CLKMGR_BYPASS_ADDRESS then
         st\<lparr>bypassed := all_bypassed v, idle_seen := False, locked := locked st \<and> \<not> all_bypassed v,
           ok := ok st \<and> (all_bypassed v \<or> locked st)\<rparr>
       else if a = clk CLKMGR_CTRL_ADDRESS then
         st\<lparr>idle_seen := False, safe_left := v AND CLKMGR_CTRL_SAFEMODE_MASK \<noteq> 0,
           ok := ok st \<and> \<not> bypassed st \<and> idle_seen st\<rparr>
       else if a \<in> set vco_regs then
         st\<lparr>enabled := (enabled st)(a := v AND 2 \<noteq> 0), ok := ok st \<and> bypassed st \<and> idle_seen st\<rparr>
       else if a \<in> set divider_regs then st\<lparr>ok := ok st \<and> bypassed st \<and> idle_seen st\<rparr>
       else if a \<in> set sdram_clk_regs then st\<lparr>ok := ok st \<and> bypassed st \<and> locked st\<rparr>
       else if a \<in> set src_regs then st\<lparr>ok := ok st \<and> list_all (gated st) en_regs\<rparr>
       else if a \<in> set en_regs then
         (if v AND gate_mask a = 0 then st\<lparr>gated := (gated st)(a := True)\<rparr>
          else if a = clk CLKMGR_PERPLLGRP_EN_ADDRESS \<and> v AND CLKMGR_PERPLLGRP_EN_NANDCLK_MASK = 0 then st
          else st\<lparr>gated := (gated st)(a := False), ok := ok st \<and> \<not> bypassed st \<and> idle_seen st \<and> safe_left st\<rparr>)
       else st
   | Msg f xs \<Rightarrow> st)"

primrec watch :: "event list \<Rightarrow> pll_state" where
  "watch [] = \<lparr>bypassed = True, idle_seen = False, enabled = (\<lambda>_. False), locked = False,
     gated = (\<lambda>_. False), safe_left = False, ok = True\<rparr>"
| "watch (e # h) = cm_watch e (watch h)"

text \<open>The value last written to each register.\<close>

definition regs :: "event list \<Rightarrow> u32 \<Rightarrow> u32 option" where
  "regs h a = last_wr a h"

lemma regs_simps [simp]:
  "regs (Rd a v # h) = regs h" "regs (Msg f xs # h) = regs h" "regs (Wr a v # h) = (regs h)(a \<mapsto> v)"
  "regs (map (Rd a) vs @ h) = regs h"
  by (auto simp: regs_def fun_eq_iff)

lemmas watch_defs = cm_watch_def vco_regs_def en_regs_def src_regs_def divider_regs_def sdram_clk_regs_def
  gate_mask_def all_bypassed_def reg_defs

lemma watch_reads:
  assumes "\<forall>v\<in>set vs. \<not> (a = clk CLKMGR_STAT_ADDRESS \<and> v AND CLKMGR_STAT_BUSY_ENUM_BUSY = 0)"
    and "\<forall>v\<in>set vs. \<not> (a = clk CLKMGR_INTER_ADDRESS \<and> v AND LOCKED_MASK = LOCKED_MASK)"
  shows "watch (map (Rd a) vs @ h) = watch h"
  using assms by (induction vs) (auto simp: cm_watch_def)

lemma watch_polls:
  "\<forall>v\<in>set vs. v AND CLKMGR_STAT_BUSY_ENUM_BUSY \<noteq> 0 \<Longrightarrow> watch (map (Rd (clk CLKMGR_STAT_ADDRESS)) vs @ h) = watch h"
  "\<forall>v\<in>set vs. v AND LOCKED_MASK \<noteq> LOCKED_MASK \<Longrightarrow> watch (map (Rd (clk CLKMGR_INTER_ADDRESS)) vs @ h) = watch h"
  "a \<noteq> clk CLKMGR_STAT_ADDRESS \<Longrightarrow> a \<noteq> clk CLKMGR_INTER_ADDRESS \<Longrightarrow> watch (map (Rd a) vs @ h) = watch h"
  by (rule watch_reads; simp add: clk_def CLKMGR_STAT_ADDRESS_def CLKMGR_INTER_ADDRESS_def)+

section \<open>The stages of the initialisation\<close>

text \<open>All clocks are gated; \<open>b\<close>: in bypass, settled; \<open>l\<close>: locked.\<close>

definition stage :: "bool \<Rightarrow> bool \<Rightarrow> event list \<Rightarrow> bool" where
  "stage b l h \<longleftrightarrow> bypassed (watch h) = b \<and> idle_seen (watch h) \<and> locked (watch h) = l \<and>
     list_all (gated (watch h)) en_regs"

definition keeps_ok :: "event list \<Rightarrow> event list \<Rightarrow> bool" where
  "keeps_ok h h' \<longleftrightarrow> ok (watch h') = ok (watch h)"

text \<open>A list of register writes, in order.\<close>

definition wr :: "(u32 \<times> u32) list \<Rightarrow> (u32 \<Rightarrow> u32 option) \<Rightarrow> u32 \<Rightarrow> u32 option" where
  "wr ws f = foldl (\<lambda>g (a, v). g(a \<mapsto> v)) f ws"

definition counter_values :: "cm_config_t \<Rightarrow> (u32 \<times> u32) list" where
  "counter_values cfg = map (\<lambda>(a, f). (clk a, f cfg)) [
     (CLKMGR_MAINPLLGRP_MPUCLK_ADDRESS, mpuclk), (CLKMGR_MAINPLLGRP_MAINCLK_ADDRESS, mainclk),
     (CLKMGR_MAINPLLGRP_DBGATCLK_ADDRESS, dbgatclk), (CLKMGR_MAINPLLGRP_CFGS2FUSER0CLK_ADDRESS, cfg2fuser0clk),
     (CLKMGR_PERPLLGRP_EMAC0CLK_ADDRESS, emac0clk), (CLKMGR_PERPLLGRP_EMAC1CLK_ADDRESS, emac1clk),
     (CLKMGR_MAINPLLGRP_MAINQSPICLK_ADDRESS, mainqspiclk), (CLKMGR_PERPLLGRP_PERQSPICLK_ADDRESS, perqspiclk),
     (CLKMGR_PERPLLGRP_PERNANDSDMMCCLK_ADDRESS, pernandsdmmcclk),
     (CLKMGR_PERPLLGRP_PERBASECLK_ADDRESS, perbaseclk), (CLKMGR_PERPLLGRP_S2FUSER1CLK_ADDRESS, s2fuser1clk)]"

definition divider_values :: "cm_config_t \<Rightarrow> (u32 \<times> u32) list" where
  "divider_values cfg = map (\<lambda>(a, f). (clk a, f cfg)) [
     (CLKMGR_MAINPLLGRP_MAINDIV_ADDRESS, maindiv), (CLKMGR_MAINPLLGRP_DBGDIV_ADDRESS, dbgdiv),
     (CLKMGR_MAINPLLGRP_TRACEDIV_ADDRESS, tracediv), (CLKMGR_PERPLLGRP_DIV_ADDRESS, perdiv),
     (CLKMGR_PERPLLGRP_GPIODIV_ADDRESS, gpiodiv)]"

definition sdram_clk_values :: "cm_config_t \<Rightarrow> (u32 \<times> u32) list" where
  "sdram_clk_values cfg = map (\<lambda>(a, f). (clk a, f cfg)) [
     (CLKMGR_SDRPLLGRP_DDRDQSCLK_ADDRESS, ddrdqsclk), (CLKMGR_SDRPLLGRP_DDR2XDQSCLK_ADDRESS, ddr2xdqsclk),
     (CLKMGR_SDRPLLGRP_DDRDQCLK_ADDRESS, ddrdqclk), (CLKMGR_SDRPLLGRP_S2FUSER2CLK_ADDRESS, s2fuser2clk)]"

definition source_values :: "cm_config_t \<Rightarrow> (u32 \<times> u32) list" where
  "source_values cfg = [(clk CLKMGR_PERPLLGRP_SRC_ADDRESS, persrc cfg), (clk CLKMGR_MAINPLLGRP_L4SRC_ADDRESS, l4src cfg)]"

lemmas value_defs = counter_values_def divider_values_def sdram_clk_values_def source_values_def wr_def

lemmas stage_defs = stage_def keeps_ok_def watch_defs

lemma nandclk_gated: "((- 1025 AND v) AND 1024 :: u32) = 0"
proof -
  have "(- 1025 AND v) AND 1024 = ((- 1025 AND 1024) AND v :: u32)" by (simp only: ac_simps)
  then show ?thesis by simp
qed

lemma wp_gate:
  assumes "\<And>h. list_all (gated (watch h)) en_regs \<Longrightarrow> keeps_ok (trace s) h \<Longrightarrow> Q () (s\<lparr>trace := h\<rparr>)"
  shows "wp cm_gate Q H s"
  unfolding cm_gate_def wp_seqs_Cons wp_seqs_Nil wp_bind
  by (rule wp_readl_all, simp add: wp_writel, rule assms) (simp_all add: stage_defs nandclk_gated)

lemma wp_enter_bypass:
  assumes "list_all (gated (watch (trace s))) en_regs"
    and "\<And>h. stage True False h \<Longrightarrow> keeps_ok (trace s) h \<Longrightarrow> Q () (s\<lparr>trace := h\<rparr>)"
  shows "wp cm_enter_bypass Q H s"
  unfolding cm_enter_bypass_def cm_write_bypass_def cm_wait4fsm_def wp_seq wp_writel
  by (rule wp_poll_all, simp, rule assms(2)) (use assms(1) in \<open>simp_all add: stage_def keeps_ok_def watch_polls,
    simp_all add: watch_defs\<close>)

lemma wp_reset_plls:
  assumes "stage True l (trace s)" and "\<And>h. stage True l h \<Longrightarrow> keeps_ok (trace s) h \<Longrightarrow> Q () (s\<lparr>trace := h\<rparr>)"
  shows "wp cm_reset_plls Q H s"
  unfolding cm_reset_plls_def wp_seqs_Cons wp_seqs_Nil wp_bind
  by (simp add: wp_writel wp_ret, (rule wp_readl_all)+, simp, rule assms(2))
    (use assms(1) in \<open>simp_all add: stage_defs\<close>)

lemma wp_program_vcos:
  assumes "stage True l (trace s)" and "\<And>h. stage True l h \<Longrightarrow> keeps_ok (trace s) h \<Longrightarrow> Q () (s\<lparr>trace := h\<rparr>)"
  shows "wp (cm_program_vcos cfg) Q H s"
  unfolding cm_program_vcos_def wp_seqs_Cons wp_seqs_Nil
  by (simp add: wp_writel, rule assms(2)) (use assms(1) in \<open>simp_all add: stage_defs\<close>)

lemma wp_set_counters:
  assumes "stage True l (trace s)"
    and "\<And>h. stage True l h \<Longrightarrow> keeps_ok (trace s) h \<Longrightarrow> regs h = wr (counter_values cfg) (regs (trace s)) \<Longrightarrow>
      Q () (s\<lparr>trace := h\<rparr>)"
  shows "wp (cm_set_counters cfg) Q H s"
  unfolding cm_set_counters_def wp_seqs_Cons wp_seqs_Nil
  by (simp add: wp_writel, rule assms(2)) (use assms(1) in \<open>simp_all add: stage_defs value_defs\<close>)

lemma wp_enable_vcos:
  assumes "stage True l (trace s)"
    and "\<And>h. stage True l h \<Longrightarrow> keeps_ok (trace s) h \<Longrightarrow> list_all (enabled (watch h)) vco_regs \<Longrightarrow>
      regs h = wr [(clk CLKMGR_MAINPLLGRP_VCO_ADDRESS, main_vco_base cfg OR 2),
        (clk CLKMGR_PERPLLGRP_VCO_ADDRESS, peri_vco_base cfg OR 2),
        (clk CLKMGR_SDRPLLGRP_VCO_ADDRESS, sdram_vco_base cfg OR 2)] (regs (trace s)) \<Longrightarrow> Q () (s\<lparr>trace := h\<rparr>)"
  shows "wp (cm_enable_vcos cfg) Q H s"
  unfolding cm_enable_vcos_def wp_seqs_Cons wp_seqs_Nil
  by (simp add: wp_writel, rule assms(2)) (use assms(1) in \<open>simp_all add: stage_defs value_defs or_and_absorb\<close>)

lemma wp_set_dividers:
  assumes "stage True l (trace s)"
    and "\<And>h. stage True l h \<Longrightarrow> keeps_ok (trace s) h \<Longrightarrow> enabled (watch h) = enabled (watch (trace s)) \<Longrightarrow>
      regs h = wr (divider_values cfg) (regs (trace s)) \<Longrightarrow> Q () (s\<lparr>trace := h\<rparr>)"
  shows "wp (cm_set_dividers cfg) Q H s"
  unfolding cm_set_dividers_def wp_seqs_Cons wp_seqs_Nil
  by (simp add: wp_writel, rule assms(2)) (use assms(1) in \<open>simp_all add: stage_defs value_defs\<close>)

lemma wp_wait_for_lock:
  assumes "stage True l (trace s)" and "list_all (enabled (watch (trace s))) vco_regs"
    and "\<And>h. stage True True h \<Longrightarrow> keeps_ok (trace s) h \<Longrightarrow> regs h = regs (trace s) \<Longrightarrow> Q () (s\<lparr>trace := h\<rparr>)"
  shows "wp (cm_wait_for_lock LOCKED_MASK) Q H s"
  unfolding cm_wait_for_lock_def
  by (rule wp_poll_all, rule assms(3))
    (use assms(1,2) in \<open>simp_all add: stage_def keeps_ok_def watch_polls, simp_all add: watch_defs\<close>)

lemma wp_sdram_counters:
  assumes "stage True True (trace s)"
    and "\<And>h. stage True True h \<Longrightarrow> keeps_ok (trace s) h \<Longrightarrow>
      (\<forall>a. a \<notin> set sdram_clk_regs \<longrightarrow> regs h a = regs (trace s) a) \<Longrightarrow> Q () (s\<lparr>trace := h\<rparr>)"
  shows "wp (cm_sdram_counters cfg) Q H s"
  unfolding cm_sdram_counters_def wp_seqs_Cons wp_seqs_Nil
  by (simp add: wp_writel, rule assms(2)) (use assms(1) in \<open>simp_all add: stage_defs\<close>)

lemma wp_toggle_outreset:
  assumes "stage True True (trace s)"
    and "\<And>h. stage True True h \<Longrightarrow> keeps_ok (trace s) h \<Longrightarrow>
      (\<forall>a. a \<notin> set vco_regs \<longrightarrow> regs h a = regs (trace s) a) \<Longrightarrow>
      regs h (clk CLKMGR_SDRPLLGRP_VCO_ADDRESS) = Some (sdram_vco_base cfg OR 2) \<Longrightarrow> Q () (s\<lparr>trace := h\<rparr>)"
  shows "wp (cm_toggle_outreset cfg) Q H s"
  unfolding cm_toggle_outreset_def wp_seqs_Cons wp_seqs_Nil wp_bind wp_seq
  by (rule wp_readl_all, simp only: wp_writel, rule wp_readl_all, simp add: wp_writel, rule assms(2))
    (use assms(1) in \<open>simp_all add: stage_defs\<close>)

lemma wp_write_with_phase:
  assumes "a \<in> set sdram_clk_regs" and "stage True True (trace s)"
    and "\<And>h. stage True True h \<Longrightarrow> keeps_ok (trace s) h \<Longrightarrow> regs h = wr [(a, v)] (regs (trace s)) \<Longrightarrow> Q () (s\<lparr>trace := h\<rparr>)"
  shows "wp (cm_write_with_phase v a m) Q H s"
proof -
  have a: "a \<noteq> clk CLKMGR_STAT_ADDRESS" "a \<noteq> clk CLKMGR_INTER_ADDRESS" "a \<noteq> clk CLKMGR_BYPASS_ADDRESS"
    "a \<noteq> clk CLKMGR_CTRL_ADDRESS" "a \<notin> set vco_regs" "a \<notin> set divider_regs"
    using assms(1) by (auto simp: watch_defs)
  have Rd: "watch (Rd a x # h) = watch h" for x h using a by (simp add: cm_watch_def)
  have Wr: "watch (Wr a v # h) = (watch h)\<lparr>ok := ok (watch h) \<and> bypassed (watch h) \<and> locked (watch h)\<rparr>" for h
    using a assms(1) by (simp add: cm_watch_def)
  show ?thesis
    unfolding cm_write_with_phase_def wp_seqs_Cons wp_seqs_Nil
    by (rule wp_poll_all, simp only: wp_writel, rule wp_poll_all, simp, rule assms(3))
      (use assms(2) in \<open>simp_all add: stage_def keeps_ok_def watch_polls(3) a Rd Wr wr_def del: watch.simps(2)\<close>)
qed

lemma wp_set_phases:
  assumes "stage True True (trace s)"
    and "\<And>h. stage True True h \<Longrightarrow> keeps_ok (trace s) h \<Longrightarrow> regs h = wr (sdram_clk_values cfg) (regs (trace s)) \<Longrightarrow>
      Q () (s\<lparr>trace := h\<rparr>)"
  shows "wp (cm_set_phases cfg) Q H s"
  unfolding cm_set_phases_def wp_seqs_Cons wp_seqs_Nil
  by (rule wp_write_with_phase, simp add: sdram_clk_regs_def, rule assms(1),
      (rule wp_write_with_phase, simp add: sdram_clk_regs_def, simp)+, simp, rule assms(2))
    (simp_all add: keeps_ok_def sdram_clk_values_def wr_def)

lemma wp_leave_bypass:
  assumes "stage True True (trace s)"
    and "\<And>h. stage False True h \<Longrightarrow> keeps_ok (trace s) h \<Longrightarrow>
      (\<forall>a. a \<noteq> clk CLKMGR_BYPASS_ADDRESS \<longrightarrow> regs h a = regs (trace s) a) \<Longrightarrow> Q () (s\<lparr>trace := h\<rparr>)"
  shows "wp cm_leave_bypass Q H s"
  unfolding cm_leave_bypass_def cm_write_bypass_def cm_wait4fsm_def wp_seq wp_writel
  by (rule wp_poll_all, simp, rule assms(2))
    (use assms(1) in \<open>simp_all add: stage_def keeps_ok_def watch_polls, simp_all add: watch_defs\<close>)

lemma wp_clear_safe_mode:
  assumes "stage False True (trace s)"
    and "\<And>h. stage False True h \<Longrightarrow> safe_left (watch h) \<Longrightarrow> keeps_ok (trace s) h \<Longrightarrow>
      (\<forall>a. a \<noteq> clk CLKMGR_CTRL_ADDRESS \<longrightarrow> regs h a = regs (trace s) a) \<Longrightarrow> Q () (s\<lparr>trace := h\<rparr>)"
  shows "wp cm_clear_safe_mode Q H s"
  unfolding cm_clear_safe_mode_def cm_write_ctrl_def cm_wait4fsm_def wp_seq wp_bind
  by (rule wp_readl_all, simp only: wp_writel, rule wp_poll_all, simp, rule assms(2))
    (use assms(1) in \<open>simp_all add: stage_def keeps_ok_def watch_polls, simp_all add: watch_defs\<close>)

lemma wp_set_sources:
  assumes "stage False True (trace s)" and "safe_left (watch (trace s))"
    and "\<And>h. stage False True h \<Longrightarrow> safe_left (watch h) \<Longrightarrow> keeps_ok (trace s) h \<Longrightarrow>
      regs h = wr (source_values cfg) (regs (trace s)) \<Longrightarrow> Q () (s\<lparr>trace := h\<rparr>)"
  shows "wp (cm_set_sources cfg) Q H s"
  unfolding cm_set_sources_def wp_seqs_Cons wp_seqs_Nil
  by (simp add: wp_writel, rule assms(3)) (use assms(1,2) in \<open>simp_all add: stage_defs value_defs\<close>)

lemma wp_ungate:
  assumes "stage False True (trace s)" and "safe_left (watch (trace s))"
    and "\<And>h. \<not> bypassed (watch h) \<Longrightarrow> locked (watch h) \<Longrightarrow> list_all (\<lambda>a. \<not> gated (watch h) a) en_regs \<Longrightarrow>
      keeps_ok (trace s) h \<Longrightarrow> regs h = wr (map (\<lambda>a. (a, NOT 0)) en_regs) (regs (trace s)) \<Longrightarrow> Q () (s\<lparr>trace := h\<rparr>)"
  shows "wp cm_ungate Q H s"
  unfolding cm_ungate_def wp_seqs_Cons wp_seqs_Nil
  by (simp add: wp_writel, rule assms(3)) (use assms(1,2) in \<open>simp_all add: stage_defs value_defs\<close>)

text \<open>The timer is not part of the clock manager.\<close>

lemma timer_only_watch:
  assumes "timer_only s t"
  shows "watch (trace t) = watch (trace s) \<and> regs (trace t) = regs (trace s)"
  using assms by (auto simp: timer_only_def watch_polls(3) reg_defs)

lemma wp_timer_only:
  assumes "\<And>r. m s = Some r \<Longrightarrow> \<exists>x t. r = Val x t \<and> timer_only s t" and "\<And>x t. timer_only s t \<Longrightarrow> Q x t"
  shows "wp m Q H s"
  by (rule wpI) (auto dest: assms(1) intro: assms(2))

lemma reset_timer_only: "reset_timer s = Some r \<Longrightarrow> \<exists>x t. r = Val x t \<and> timer_only s t"
  by (auto simp: ms.reset_run timer_seen_only)

lemma get_timer_only: "\<exists>x t. get_timer b s = Some (Val x t) \<and> timer_only s t"
  by (simp add: get_timer_def bind_io_def ms.stamp_run ret_def Let_def timer_seen_only)

lemma wait_timer_only: "cm_wait_timer start n s = Some r \<Longrightarrow> \<exists>x t. r = Val x t \<and> timer_only s t"
  unfolding cm_wait_timer_def by (drule wait_until_only [OF get_timer_only]) auto

text \<open>What the registers hold afterwards.\<close>

definition cm_registers :: "cm_config_t \<Rightarrow> (u32 \<times> u32) list" where
  "cm_registers cfg = counter_values cfg @ divider_values cfg @ sdram_clk_values cfg @ source_values cfg @
     [(clk CLKMGR_SDRPLLGRP_VCO_ADDRESS, sdram_vco_base cfg OR 2)] @ map (\<lambda>a. (a, NOT 0)) en_regs"

lemma wp_configure:
  assumes "stage True False (trace s)"
  shows "wp (seqs [cm_set_counters cfg, cm_wait_timer start 7, cm_enable_vcos cfg, cm_set_dividers cfg,
      cm_wait_for_lock LOCKED_MASK, cm_sdram_counters cfg, cm_toggle_outreset cfg, cm_set_phases cfg,
      cm_leave_bypass, cm_clear_safe_mode, cm_set_sources cfg, cm_ungate])
    (\<lambda>_ t. ok (watch (trace t)) = ok (watch (trace s)) \<and>
     \<not> bypassed (watch (trace t)) \<and> locked (watch (trace t)) \<and>
     list_all (\<lambda>a. \<not> gated (watch (trace t)) a) en_regs \<and>
     list_all (\<lambda>(a, v). regs (trace t) a = Some v) (cm_registers cfg)) H s"
  unfolding wp_seqs_Cons wp_seqs_Nil
proof (rule wp_set_counters [OF assms], rule wp_timer_only [OF wait_timer_only], assumption,
    drule timer_only_watch, erule conjE, rule wp_enable_vcos [where l = False], simp add: stage_def,
    rule wp_set_dividers, simp, rule wp_wait_for_lock, simp, simp, rule wp_sdram_counters, simp,
    rule wp_toggle_outreset, simp, rule wp_set_phases, simp, rule wp_leave_bypass, simp,
    rule wp_clear_safe_mode, simp, rule wp_set_sources, simp, simp, rule wp_ungate, simp, simp, goal_cases)
  case 1
  then show ?case
    by (simp add: keeps_ok_def) (simp add: cm_registers_def value_defs sdram_clk_regs_def vco_regs_def en_regs_def reg_defs)
qed

text \<open>Code whose accesses are all outside \<open>A\<close>.\<close>

definition avoids :: "u32 set \<Rightarrow> event list \<Rightarrow> bool" where
  "avoids A es \<longleftrightarrow> (\<forall>a\<in>A. \<forall>v. Wr a v \<notin> set es \<and> Rd a v \<notin> set es)"

definition elsewhere :: "u32 set \<Rightarrow> 'a io \<Rightarrow> bool" where
  "elsewhere A m \<longleftrightarrow> (\<forall>s x t. m s = Some (Val x t) \<longrightarrow> (\<exists>es. trace t = es @ trace s \<and> avoids A es))"

lemma avoids_append: "avoids A es \<Longrightarrow> avoids A fs \<Longrightarrow> avoids A (es @ fs)"
  by (auto simp: avoids_def)

lemma avoids_last: "avoids A es \<Longrightarrow> a \<in> A \<Longrightarrow> last_wr a (es @ h) = last_wr a h \<and> last_rd a (es @ h) = last_rd a h"
proof (induction es)
  case (Cons e es)
  then show ?case by (cases e) (auto simp: avoids_def)
qed simp

lemma elsewhere_bind: "elsewhere A m \<Longrightarrow> (\<And>x. elsewhere A (f x)) \<Longrightarrow> elsewhere A (bind_io m f)"
  unfolding elsewhere_def
proof (intro allI impI, goal_cases)
  case (1 s y u)
  from 1(3) obtain x t where m: "m s = Some (Val x t)" and f: "f x t = Some (Val y u)"
    by (auto simp: bind_io_def split: option.splits res.splits)
  from 1(1) m obtain es where "trace t = es @ trace s" "avoids A es" by blast
  moreover from 1(2) f obtain fs where "trace u = fs @ trace t" "avoids A fs" by blast
  ultimately show ?case by (intro exI [of _ "fs @ es"]) (simp add: avoids_append)
qed

lemma elsewhere_seq: "elsewhere A m \<Longrightarrow> elsewhere A n \<Longrightarrow> elsewhere A (seq_io m n)"
  unfolding seq_io_def by (rule elsewhere_bind)

lemma elsewhere_ret: "elsewhere A (ret x)"
  by (auto simp: elsewhere_def ret_def avoids_def)

lemma elsewhere_Nil: "elsewhere A (seqs [])"
  by (simp add: elsewhere_ret)

lemma elsewhere_Cons: "elsewhere A m \<Longrightarrow> elsewhere A (seqs ms) \<Longrightarrow> elsewhere A (seqs (m # ms))"
  by (simp add: elsewhere_seq)

lemma elsewhere_writel: "a \<notin> A \<Longrightarrow> elsewhere A (writel v a)"
  by (auto simp: elsewhere_def writel_def avoids_def intro!: exI [of _ "[Wr a v]"])

lemma elsewhere_readl: "a \<notin> A \<Longrightarrow> elsewhere A (readl a)"
  by (auto simp: elsewhere_def readl_def Let_def avoids_def intro!: exI [of _ "[Rd a v]" for v])

lemma elsewhere_poll:
  assumes "a \<notin> A"
  shows "elsewhere A (poll_until a good)"
  unfolding elsewhere_def
proof (intro allI impI)
  fix s x t assume "poll_until a good s = Some (Val x t)"
  from poll_until_trace [OF this] obtain vs v where "t = s\<lparr>trace := Rd a v # map (Rd a) vs @ trace s\<rparr>"
    unfolding polls_def by blast
  then have "trace t = map (Rd a) (v # vs) @ trace s" by simp
  moreover have "avoids A (map (Rd a) (v # vs))" using assms by (auto simp: avoids_def)
  ultimately show "\<exists>es. trace t = es @ trace s \<and> avoids A es" by blast
qed

lemma elsewhere_timer:
  assumes "\<And>s r. m s = Some r \<Longrightarrow> \<exists>x t. r = Val x t \<and> timer_only s t" and "timer_curr_val \<notin> A"
  shows "elsewhere A m"
  unfolding elsewhere_def
proof (intro allI impI)
  fix s x t assume "m s = Some (Val x t)"
  with assms(1) [OF this] obtain vs where "trace t = map (Rd timer_curr_val) vs @ trace s"
    by (auto simp: timer_only_def)
  moreover have "avoids A (map (Rd timer_curr_val) vs)" using assms(2) by (auto simp: avoids_def)
  ultimately show "\<exists>es. trace t = es @ trace s \<and> avoids A es" by blast
qed

lemmas elsewhere_intros = elsewhere_Nil elsewhere_Cons elsewhere_bind elsewhere_seq elsewhere_ret elsewhere_writel
  elsewhere_readl elsewhere_poll

lemma elsewhere_gives: "elsewhere A m \<Longrightarrow> (\<And>es t. avoids A es \<Longrightarrow> trace t = es @ trace s \<Longrightarrow> Q t) \<Longrightarrow> gives m (\<lambda>_. Q) s"
  by (fastforce simp: elsewhere_def gives_def split: option.splits res.splits)

lemma clk_eq: "clk a = clk b \<longleftrightarrow> a = b" "clk a = b \<longleftrightarrow> a = b - SOCFPGA_CLKMGR_ADDRESS"
  by (auto simp: clk_def)

text \<open>The counter of the main PLL for NAND and SD is never touched.\<close>

definition unused_counter :: u32 where
  "unused_counter = clk CLKMGR_MAINPLLGRP_MAINNANDSDMMCCLK_ADDRESS"

lemma other_counters:
  "clk CLKMGR_BYPASS_ADDRESS \<notin> {unused_counter}"
  "clk CLKMGR_CTRL_ADDRESS \<notin> {unused_counter}"
  "clk CLKMGR_INTER_ADDRESS \<notin> {unused_counter}"
  "clk CLKMGR_MAINPLLGRP_CFGS2FUSER0CLK_ADDRESS \<notin> {unused_counter}"
  "clk CLKMGR_MAINPLLGRP_DBGATCLK_ADDRESS \<notin> {unused_counter}"
  "clk CLKMGR_MAINPLLGRP_DBGDIV_ADDRESS \<notin> {unused_counter}"
  "clk CLKMGR_MAINPLLGRP_EN_ADDRESS \<notin> {unused_counter}"
  "clk CLKMGR_MAINPLLGRP_L4SRC_ADDRESS \<notin> {unused_counter}"
  "clk CLKMGR_MAINPLLGRP_MAINCLK_ADDRESS \<notin> {unused_counter}"
  "clk CLKMGR_MAINPLLGRP_MAINDIV_ADDRESS \<notin> {unused_counter}"
  "clk CLKMGR_MAINPLLGRP_MAINQSPICLK_ADDRESS \<notin> {unused_counter}"
  "clk CLKMGR_MAINPLLGRP_MPUCLK_ADDRESS \<notin> {unused_counter}"
  "clk CLKMGR_MAINPLLGRP_TRACEDIV_ADDRESS \<notin> {unused_counter}"
  "clk CLKMGR_MAINPLLGRP_VCO_ADDRESS \<notin> {unused_counter}"
  "clk CLKMGR_PERPLLGRP_DIV_ADDRESS \<notin> {unused_counter}"
  "clk CLKMGR_PERPLLGRP_EMAC0CLK_ADDRESS \<notin> {unused_counter}"
  "clk CLKMGR_PERPLLGRP_EMAC1CLK_ADDRESS \<notin> {unused_counter}"
  "clk CLKMGR_PERPLLGRP_EN_ADDRESS \<notin> {unused_counter}"
  "clk CLKMGR_PERPLLGRP_GPIODIV_ADDRESS \<notin> {unused_counter}"
  "clk CLKMGR_PERPLLGRP_PERBASECLK_ADDRESS \<notin> {unused_counter}"
  "clk CLKMGR_PERPLLGRP_PERNANDSDMMCCLK_ADDRESS \<notin> {unused_counter}"
  "clk CLKMGR_PERPLLGRP_PERQSPICLK_ADDRESS \<notin> {unused_counter}"
  "clk CLKMGR_PERPLLGRP_S2FUSER1CLK_ADDRESS \<notin> {unused_counter}"
  "clk CLKMGR_PERPLLGRP_SRC_ADDRESS \<notin> {unused_counter}"
  "clk CLKMGR_PERPLLGRP_VCO_ADDRESS \<notin> {unused_counter}"
  "clk CLKMGR_SDRPLLGRP_DDR2XDQSCLK_ADDRESS \<notin> {unused_counter}"
  "clk CLKMGR_SDRPLLGRP_DDRDQCLK_ADDRESS \<notin> {unused_counter}"
  "clk CLKMGR_SDRPLLGRP_DDRDQSCLK_ADDRESS \<notin> {unused_counter}"
  "clk CLKMGR_SDRPLLGRP_EN_ADDRESS \<notin> {unused_counter}"
  "clk CLKMGR_SDRPLLGRP_S2FUSER2CLK_ADDRESS \<notin> {unused_counter}"
  "clk CLKMGR_SDRPLLGRP_VCO_ADDRESS \<notin> {unused_counter}"
  "clk CLKMGR_STAT_ADDRESS \<notin> {unused_counter}"
  "timer_curr_val \<notin> {unused_counter}"
  unfolding unused_counter_def clk_eq(1) insert_iff empty_iff CLKMGR_MAINPLLGRP_MAINNANDSDMMCCLK_ADDRESS_def
    CLKMGR_BYPASS_ADDRESS_def CLKMGR_CTRL_ADDRESS_def CLKMGR_INTER_ADDRESS_def
    CLKMGR_MAINPLLGRP_CFGS2FUSER0CLK_ADDRESS_def CLKMGR_MAINPLLGRP_DBGATCLK_ADDRESS_def
    CLKMGR_MAINPLLGRP_DBGDIV_ADDRESS_def CLKMGR_MAINPLLGRP_EN_ADDRESS_def CLKMGR_MAINPLLGRP_L4SRC_ADDRESS_def
    CLKMGR_MAINPLLGRP_MAINCLK_ADDRESS_def CLKMGR_MAINPLLGRP_MAINDIV_ADDRESS_def
    CLKMGR_MAINPLLGRP_MAINQSPICLK_ADDRESS_def CLKMGR_MAINPLLGRP_MPUCLK_ADDRESS_def
    CLKMGR_MAINPLLGRP_TRACEDIV_ADDRESS_def CLKMGR_MAINPLLGRP_VCO_ADDRESS_def CLKMGR_PERPLLGRP_DIV_ADDRESS_def
    CLKMGR_PERPLLGRP_EMAC0CLK_ADDRESS_def CLKMGR_PERPLLGRP_EMAC1CLK_ADDRESS_def CLKMGR_PERPLLGRP_EN_ADDRESS_def
    CLKMGR_PERPLLGRP_GPIODIV_ADDRESS_def CLKMGR_PERPLLGRP_PERBASECLK_ADDRESS_def
    CLKMGR_PERPLLGRP_PERNANDSDMMCCLK_ADDRESS_def CLKMGR_PERPLLGRP_PERQSPICLK_ADDRESS_def
    CLKMGR_PERPLLGRP_S2FUSER1CLK_ADDRESS_def CLKMGR_PERPLLGRP_SRC_ADDRESS_def CLKMGR_PERPLLGRP_VCO_ADDRESS_def
    CLKMGR_SDRPLLGRP_DDR2XDQSCLK_ADDRESS_def CLKMGR_SDRPLLGRP_DDRDQCLK_ADDRESS_def
    CLKMGR_SDRPLLGRP_DDRDQSCLK_ADDRESS_def CLKMGR_SDRPLLGRP_EN_ADDRESS_def
    CLKMGR_SDRPLLGRP_S2FUSER2CLK_ADDRESS_def CLKMGR_SDRPLLGRP_VCO_ADDRESS_def CLKMGR_STAT_ADDRESS_def
  by (simp_all add: timer_curr_val_def clk_def SOCFPGA_CLKMGR_ADDRESS_def CONFIG_SYS_TIMERBASE_def SOCFPGA_OSC1TIMER0_ADDRESS_def)

lemma elsewhere_basic_init: "elsewhere {unused_counter} (cm_basic_init cfg)"
proof -
  have get: "\<exists>x t. r = Val x t \<and> timer_only s t" if "get_timer b s = Some r" for b s r
    using get_timer_only [of b s] that by auto
  have timers: "elsewhere {unused_counter} reset_timer" "elsewhere {unused_counter} (get_timer b)"
    "elsewhere {unused_counter} (cm_wait_timer start n)" for b start n
    by (rule elsewhere_timer [OF _ other_counters(33)], erule reset_timer_only get wait_timer_only)+
  have phases: "elsewhere {unused_counter} (cm_write_with_phase v a m)" if "a \<notin> {unused_counter}" for v a m
    unfolding cm_write_with_phase_def by (intro elsewhere_intros that)
  show ?thesis
    unfolding cm_basic_init_def cm_gate_def cm_enter_bypass_def cm_reset_plls_def cm_program_vcos_def cm_set_counters_def
      cm_enable_vcos_def cm_set_dividers_def cm_wait_for_lock_def cm_sdram_counters_def cm_toggle_outreset_def
      cm_set_phases_def cm_leave_bypass_def cm_clear_safe_mode_def cm_set_sources_def cm_ungate_def cm_write_bypass_def
      cm_write_ctrl_def cm_wait4fsm_def
    by (intro elsewhere_intros timers phases other_counters)
qed

text \<open>The VCO registers of the other two PLLs: what was read back from them, out of reset.\<close>

definition vco_released :: "event list \<Rightarrow> bool" where
  "vco_released h \<longleftrightarrow>
     last_wr (clk CLKMGR_MAINPLLGRP_VCO_ADDRESS) h = map_option (\<lambda>v. v AND NOT CLKMGR_MAINPLLGRP_VCO_OUTRESETALL_MASK)
       (last_rd (clk CLKMGR_MAINPLLGRP_VCO_ADDRESS) h) \<and>
     last_wr (clk CLKMGR_PERPLLGRP_VCO_ADDRESS) h = map_option (\<lambda>v. v AND NOT CLKMGR_PERPLLGRP_VCO_OUTRESETALL_MASK)
       (last_rd (clk CLKMGR_PERPLLGRP_VCO_ADDRESS) h) \<and> last_rd (clk CLKMGR_MAINPLLGRP_VCO_ADDRESS) h \<noteq> None \<and>
     last_rd (clk CLKMGR_PERPLLGRP_VCO_ADDRESS) h \<noteq> None"

text \<open>The phases behind the reset of the outputs stay away from these two registers.\<close>

abbreviation vcos :: "u32 set" where
  "vcos \<equiv> {clk CLKMGR_MAINPLLGRP_VCO_ADDRESS, clk CLKMGR_PERPLLGRP_VCO_ADDRESS}"

lemma vco_released_later: "avoids vcos es \<Longrightarrow> vco_released h \<Longrightarrow> vco_released (es @ h)"
  using avoids_last [of vcos es _ h] by (simp add: vco_released_def)

lemma gives_toggle: "gives (cm_toggle_outreset cfg) (\<lambda>_ t. vco_released (trace t)) s"
  by (simp add: gives_def cm_toggle_outreset_def bind_io_def seq_io_def readl_def writel_def ret_def Let_def vco_released_def)
    (simp add: reg_defs)

lemma elsewhere_phases: "a \<notin> A \<Longrightarrow> elsewhere A (cm_write_with_phase v a m)"
  unfolding cm_write_with_phase_def by (intro elsewhere_intros)

lemma not_vcos:
  "clk CLKMGR_SDRPLLGRP_DDRDQSCLK_ADDRESS \<notin> vcos" "clk CLKMGR_SDRPLLGRP_DDR2XDQSCLK_ADDRESS \<notin> vcos"
  "clk CLKMGR_SDRPLLGRP_DDRDQCLK_ADDRESS \<notin> vcos" "clk CLKMGR_SDRPLLGRP_S2FUSER2CLK_ADDRESS \<notin> vcos"
  "clk CLKMGR_BYPASS_ADDRESS \<notin> vcos" "clk CLKMGR_CTRL_ADDRESS \<notin> vcos" "clk CLKMGR_STAT_ADDRESS \<notin> vcos"
  "clk CLKMGR_PERPLLGRP_SRC_ADDRESS \<notin> vcos" "clk CLKMGR_MAINPLLGRP_L4SRC_ADDRESS \<notin> vcos"
  "clk CLKMGR_MAINPLLGRP_EN_ADDRESS \<notin> vcos" "clk CLKMGR_PERPLLGRP_EN_ADDRESS \<notin> vcos" "clk CLKMGR_SDRPLLGRP_EN_ADDRESS \<notin> vcos"
  by (simp_all add: clk_eq(1)) (simp_all add: reg_defs)

lemma gives_vcos: "gives (cm_basic_init cfg) (\<lambda>_ t. vco_released (trace t)) s"
proof -
  have later: "gives m (\<lambda>_ t. vco_released (trace t)) t" if "elsewhere vcos m" "vco_released (trace t)" for m :: "'z io" and t
    by (rule elsewhere_gives [OF that(1)]) (simp add: vco_released_later that(2))
  have rest: "elsewhere vcos (seqs [cm_set_phases cfg, cm_leave_bypass, cm_clear_safe_mode, cm_set_sources cfg, cm_ungate])"
    unfolding cm_set_phases_def cm_leave_bypass_def cm_clear_safe_mode_def cm_set_sources_def cm_ungate_def cm_write_bypass_def
      cm_write_ctrl_def cm_wait4fsm_def
    by (intro elsewhere_intros elsewhere_phases not_vcos)
  have split: "seqs [cm_set_counters cfg, cm_wait_timer start 7, cm_enable_vcos cfg, cm_set_dividers cfg,
       cm_wait_for_lock LOCKED_MASK, cm_sdram_counters cfg, cm_toggle_outreset cfg, cm_set_phases cfg,
       cm_leave_bypass, cm_clear_safe_mode, cm_set_sources cfg, cm_ungate] =
     seq_io (seqs [cm_set_counters cfg, cm_wait_timer start 7, cm_enable_vcos cfg, cm_set_dividers cfg,
       cm_wait_for_lock LOCKED_MASK, cm_sdram_counters cfg]) (seq_io (cm_toggle_outreset cfg)
       (seqs [cm_set_phases cfg, cm_leave_bypass, cm_clear_safe_mode, cm_set_sources cfg, cm_ungate]))" for start
    by (simp add: seq_io_def bind_assoc)
  show ?thesis
    unfolding cm_basic_init_def split
    by (rule gives_seq [OF gives_any], rule gives_bind [OF gives_any], rule gives_seq, rule gives_seq [OF gives_any],
      rule gives_seq [OF gives_toggle], rule later [OF rest], assumption, rule gives_ret)
qed

lemma protocol:
  "wp (cm_basic_init cfg) (\<lambda>r t. r = 0 \<and> ok (watch (trace t)) = ok (watch (trace s)) \<and>
     \<not> bypassed (watch (trace t)) \<and> locked (watch (trace t)) \<and>
     list_all (\<lambda>a. \<not> gated (watch (trace t)) a) en_regs \<and>
     list_all (\<lambda>(a, v). last_wr a (trace t) = Some v) (cm_registers cfg)) H s"
  unfolding cm_basic_init_def wp_seq [of "seqs _"] wp_bind wp_seqs_Cons [of cm_gate] wp_seqs_Cons [of cm_enter_bypass]
    wp_seqs_Cons [of cm_reset_plls] wp_seqs_Cons [of "cm_program_vcos _"] wp_seqs_Cons [of reset_timer] wp_seqs_Nil wp_ret
proof (rule wp_gate, rule wp_enter_bypass, simp, rule wp_reset_plls, simp, rule wp_program_vcos, simp,
    rule wp_timer_only [OF reset_timer_only], assumption, drule timer_only_watch, erule conjE, goal_cases)
  case (1 h1 h2 h3 h4 x t)
  show ?case
  proof (rule wp_timer_only)
    show "get_timer 0 t = Some r \<Longrightarrow> \<exists>x u. r = Val x u \<and> timer_only t u" for r
      using get_timer_only [of 0 t] by auto
    fix start u assume "timer_only t u"
    with 1 have "stage True False (trace u)" and "ok (watch (trace u)) = ok (watch (trace s))"
      by (simp_all add: timer_only_watch stage_def keeps_ok_def)
    then show "wp (seqs [cm_set_counters cfg, cm_wait_timer start 7, cm_enable_vcos cfg, cm_set_dividers cfg,
        cm_wait_for_lock LOCKED_MASK, cm_sdram_counters cfg, cm_toggle_outreset cfg, cm_set_phases cfg,
        cm_leave_bypass, cm_clear_safe_mode, cm_set_sources cfg, cm_ungate])
      (\<lambda>_ t. (0 :: int) = 0 \<and> ok (watch (trace t)) = ok (watch (trace s)) \<and>
        \<not> bypassed (watch (trace t)) \<and> locked (watch (trace t)) \<and>
        list_all (\<lambda>a. \<not> gated (watch (trace t)) a) en_regs \<and>
        list_all (\<lambda>(a, v). last_wr a (trace t) = Some v) (cm_registers cfg)) H u"
      by (intro wp_mono [OF wp_configure]) (simp_all add: regs_def)
  qed
qed

text \<open>
  C16: The protocol, on every hardware: if the initialisation comes to its end, it returns 0 and
  broke no rule of the clock tree on the way; the PLLs are locked and out of bypass and all
  clocks are open. Every register of \<open>cm_registers\<close>, which are the eleven counters that the code
  sets, the dividers, the SDRAM clocks with their phases, the sources and the VCO of the SDRAM PLL, was last
  written with its value in the configuration; the VCO registers of the other two PLLs
  with what was last read from them, less the reset of the outputs. The twelfth counter,
  \<open>mainnandsdmmcclk\<close>, is never written, although the configuration has a value for it.
\<close>

theorem clocks_follow_protocol:
  "wp (cm_basic_init cfg) (\<lambda>r t. r = 0 \<and> ok (watch (trace t)) = ok (watch (trace s)) \<and>
     \<not> bypassed (watch (trace t)) \<and> locked (watch (trace t)) \<and>
     list_all (\<lambda>a. \<not> gated (watch (trace t)) a) en_regs \<and>
     list_all (\<lambda>(a, v). last_wr a (trace t) = Some v) (cm_registers cfg) \<and>
     vco_released (trace t) \<and> last_wr unused_counter (trace t) = last_wr unused_counter (trace s)) H s"
proof -
  have "gives (cm_basic_init cfg) (\<lambda>_ t. last_wr unused_counter (trace t) = last_wr unused_counter (trace s)) s"
    by (rule elsewhere_gives [OF elsewhere_basic_init]) (simp add: avoids_last)
  with protocol [of cfg s H] gives_vcos [of cfg s] show ?thesis
    by (auto simp: wp_def gives_def split: option.splits res.splits)
qed

section \<open>The hardware answers\<close>

lemma poll_answered:
  "answers n a good (env s) (trace s) \<Longrightarrow>
    \<exists>vs. poll_until a good s = Some (Val () (s\<lparr>trace := map (Rd a) vs @ trace s\<rparr>)) \<and> length vs \<le> n"
proof (induction n arbitrary: s)
  case (Suc n)
  show ?case
  proof (cases "good (env s (trace s) a)")
    case True
    then show ?thesis
      by (intro exI [of _ "[env s (trace s) a]"]) (simp add: poll_until.simps [of a] Let_def)
  next
    case False
    with Suc.prems Suc.IH [of "s\<lparr>trace := Rd a (env s (trace s) a) # trace s\<rparr>"] obtain vs where
      "poll_until a good (s\<lparr>trace := Rd a (env s (trace s) a) # trace s\<rparr>) =
        Some (Val () (s\<lparr>trace := map (Rd a) vs @ Rd a (env s (trace s) a) # trace s\<rparr>))" "length vs \<le> n"
      by auto
    with False show ?thesis
      by (intro exI [of _ "vs @ [env s (trace s) a]"]) (simp add: poll_until.simps [of a good s] Let_def)
  qed
qed simp

text \<open>Code that returns on hardware \<open>hw\<close> after at most \<open>n\<close> accesses and leaves the time stamp alone.\<close>

definition takes :: "nat \<Rightarrow> 'a io \<Rightarrow> (event list \<Rightarrow> u32 \<Rightarrow> u32) \<Rightarrow> bool" where
  "takes n m hw \<longleftrightarrow> (\<forall>s. env s = hw \<longrightarrow>
     (\<exists>x es. m s = Some (Val x (s\<lparr>trace := es @ trace s\<rparr>)) \<and> length es \<le> n))"

lemma takesD:
  assumes "takes n m (env s)"
  obtains x es where "m s = Some (Val x (s\<lparr>trace := es @ trace s\<rparr>))" "length es \<le> n"
  using assms unfolding takes_def by blast

lemma takes_ret: "takes 0 (ret x) hw"
  unfolding takes_def by (auto simp: ret_def intro!: exI [of _ "[] :: event list"])

lemma takes_bind: "takes n m hw \<Longrightarrow> (\<And>x. takes k (f x) hw) \<Longrightarrow> takes (n + k) (bind_io m f) hw"
  unfolding takes_def
proof (intro allI impI, goal_cases)
  case (1 s)
  then obtain x es where m: "m s = Some (Val x (s\<lparr>trace := es @ trace s\<rparr>))" "length es \<le> n" by blast
  have "env (s\<lparr>trace := es @ trace s\<rparr>) = hw" using 1 by simp
  then obtain y fs where f: "f x (s\<lparr>trace := es @ trace s\<rparr>) = Some (Val y (s\<lparr>trace := fs @ es @ trace s\<rparr>))"
    "length fs \<le> k" using 1(2) [of x] by fastforce
  from m f show ?case by (intro exI [of _ y] exI [of _ "fs @ es"]) (simp add: bind_io_def)
qed

lemma takes_seq: "takes n m hw \<Longrightarrow> takes k m' hw \<Longrightarrow> takes (n + k) (seq_io m m') hw"
  unfolding seq_io_def by (rule takes_bind)

lemma takes_Nil: "takes 0 (seqs []) hw"
  by (simp add: takes_ret)

lemma takes_Cons: "takes n m hw \<Longrightarrow> takes k (seqs ms) hw \<Longrightarrow> takes (n + k) (seqs (m # ms)) hw"
  by (simp add: takes_seq)

lemma takes_writel: "takes 1 (writel v a) hw"
  unfolding takes_def by (auto simp: writel_def intro!: exI [of _ "[Wr a v]"])

lemma takes_readl: "takes 1 (readl a) hw"
  unfolding takes_def by (auto simp: readl_def Let_def intro!: exI [of _ "[Rd a (hw h a)]" for h])

lemma takes_poll: "(\<And>h. answers n a good hw h) \<Longrightarrow> takes n (poll_until a good) hw"
  unfolding takes_def using poll_answered by (metis length_map)

lemma takes_mono: "takes n m hw \<Longrightarrow> n \<le> k \<Longrightarrow> takes k m hw"
  unfolding takes_def by (metis le_trans)

lemmas takes_intros = takes_Nil takes_Cons takes_bind takes_seq takes_writel takes_readl takes_ret

text \<open>
  What the initialisation relies on: the timer counts at least one and at most \<open>D\<close> periods from
  one access to the next, the PLLs lock once all of them are
  enabled, the state machine of the clock manager becomes idle and a phase shift is
  taken, each within \<open>n\<close> polls.
\<close>

definition clock_hw :: "nat \<Rightarrow> nat \<Rightarrow> u32 \<Rightarrow> (event list \<Rightarrow> u32 \<Rightarrow> u32) \<Rightarrow> bool" where
  "clock_hw n D v0 hw \<longleftrightarrow> (\<exists>\<tau>. ticking (Suc 0) D \<tau> v0 hw) \<and>
     (\<forall>h. list_all (enabled (watch h)) vco_regs \<longrightarrow>
        answers n (clk CLKMGR_INTER_ADDRESS) (\<lambda>v. v AND LOCKED_MASK = LOCKED_MASK) hw h) \<and>
     (\<forall>h. answers n (clk CLKMGR_STAT_ADDRESS) (\<lambda>v. v AND CLKMGR_STAT_BUSY_ENUM_BUSY = 0) hw h) \<and>
     (\<forall>h. answers n (clk CLKMGR_SDRPLLGRP_DDRDQSCLK_ADDRESS) (\<lambda>v. v AND CLKMGR_SDRPLLGRP_DDRDQSCLK_PHASE_MASK = 0) hw h) \<and>
     (\<forall>h. answers n (clk CLKMGR_SDRPLLGRP_DDR2XDQSCLK_ADDRESS) (\<lambda>v. v AND CLKMGR_SDRPLLGRP_DDR2XDQSCLK_PHASE_MASK = 0) hw h) \<and>
     (\<forall>h. answers n (clk CLKMGR_SDRPLLGRP_DDRDQCLK_ADDRESS) (\<lambda>v. v AND CLKMGR_SDRPLLGRP_DDRDQCLK_PHASE_MASK = 0) hw h) \<and>
     (\<forall>h. answers n (clk CLKMGR_SDRPLLGRP_S2FUSER2CLK_ADDRESS) (\<lambda>v. v AND CLKMGR_SDRPLLGRP_S2FUSER2CLK_PHASE_MASK = 0) hw h)"

lemma clock_polls:
  assumes "clock_hw n D v0 hw"
  shows "takes n cm_wait4fsm hw"
    "takes n (poll_until (clk CLKMGR_SDRPLLGRP_DDRDQSCLK_ADDRESS) (\<lambda>v. v AND CLKMGR_SDRPLLGRP_DDRDQSCLK_PHASE_MASK = 0)) hw"
    "takes n (poll_until (clk CLKMGR_SDRPLLGRP_DDR2XDQSCLK_ADDRESS) (\<lambda>v. v AND CLKMGR_SDRPLLGRP_DDR2XDQSCLK_PHASE_MASK = 0)) hw"
    "takes n (poll_until (clk CLKMGR_SDRPLLGRP_DDRDQCLK_ADDRESS) (\<lambda>v. v AND CLKMGR_SDRPLLGRP_DDRDQCLK_PHASE_MASK = 0)) hw"
    "takes n (poll_until (clk CLKMGR_SDRPLLGRP_S2FUSER2CLK_ADDRESS) (\<lambda>v. v AND CLKMGR_SDRPLLGRP_S2FUSER2CLK_PHASE_MASK = 0)) hw"
  unfolding cm_wait4fsm_def using assms by (simp_all add: clock_hw_def takes_poll)

lemma takes_start:
  assumes "clock_hw n D v0 hw"
  shows "takes (17 + n) (seqs [cm_gate, cm_enter_bypass, cm_reset_plls, cm_program_vcos cfg]) hw"
  by (rule takes_mono, unfold cm_gate_def cm_enter_bypass_def cm_reset_plls_def cm_program_vcos_def
      cm_write_bypass_def, (rule takes_intros clock_polls [OF assms])+) simp

lemma takes_counters: "takes 11 (cm_set_counters cfg) hw"
  by (rule takes_mono, unfold cm_set_counters_def, (rule takes_intros)+) simp

lemma takes_enable: "takes 8 (seqs [cm_enable_vcos cfg, cm_set_dividers cfg]) hw"
  by (rule takes_mono, unfold cm_enable_vcos_def cm_set_dividers_def, (rule takes_intros)+) simp

lemma takes_finish:
  assumes "clock_hw n D v0 hw"
  shows "takes (24 + 10 * n) (seqs [cm_sdram_counters cfg, cm_toggle_outreset cfg, cm_set_phases cfg,
      cm_leave_bypass, cm_clear_safe_mode, cm_set_sources cfg, cm_ungate]) hw"
  by (rule takes_mono, unfold cm_sdram_counters_def cm_toggle_outreset_def cm_set_phases_def
      cm_leave_bypass_def cm_clear_safe_mode_def cm_set_sources_def cm_ungate_def cm_write_ctrl_def
      cm_write_bypass_def cm_write_with_phase_def, (rule takes_intros clock_polls [OF assms])+) simp

lemma enable_enables:
  "wp (seqs [cm_enable_vcos cfg, cm_set_dividers cfg]) (\<lambda>_ t. list_all (enabled (watch (trace t))) vco_regs) H s"
  by (simp add: cm_enable_vcos_def cm_set_dividers_def wp_seqs_Cons wp_seqs_Nil wp_writel wp_seq wp_ret)
    (simp add: watch_defs VCO_EN_BASE_def)

lemma sample_gap:
  assumes "m \<le> unat v0" and "k + 25000 * n \<le> m"
  shows "of_nat n \<le> timer_scale (v0 - of_nat k) - timer_scale (v0 - of_nat m)"
proof -
  define a b where "a = (unat v0 - k) div 25000" and "b = (unat v0 - m) div 25000"
  have v: "unat v0 < 2 ^ 32" using unsigned_less [of v0, where 'a = nat] by simp
  have ua: "unat (timer_scale (v0 - of_nat k)) = a" "unat (timer_scale (v0 - of_nat m)) = b"
    using assms by (simp_all add: timer_scale_def reg_defs unat_div unat_steady a_def b_def)
  have le: "b + n \<le> a"
    using assms unfolding a_def b_def by (simp add: less_eq_div_iff_mult_less_eq)
  then have "timer_scale (v0 - of_nat m) \<le> timer_scale (v0 - of_nat k)" by (simp add: word_le_nat_alt ua)
  then have "unat (timer_scale (v0 - of_nat k) - timer_scale (v0 - of_nat m)) = a - b" by (simp add: unat_sub ua)
  moreover have "unat (of_nat n :: u32) \<le> n" by (simp add: unat_of_nat)
  ultimately show ?thesis using le by (simp add: word_le_nat_alt)
qed

text \<open>The seven milliseconds the PLLs are given.\<close>

definition cm_timed :: "cm_config_t \<Rightarrow> unit io" where
  "cm_timed cfg = seq_io reset_timer (bind_io (get_timer 0) (\<lambda>start.
     seqs [cm_set_counters cfg, cm_wait_timer start 7]))"

lemma timed_ends:
  assumes "clock_hw n D v0 (env s)" and "D * (length (trace s) + 175001) \<le> unat v0"
  shows "\<exists>t. cm_timed cfg s = Some (Val () t) \<and> env t = env s \<and> length (trace t) \<le> length (trace s) + 175015"
proof -
  define L where "L = length (trace s)"
  obtain \<tau> where tick: "ticking (Suc 0) D \<tau> v0 (env s)" using assms(1) by (auto simp: clock_hw_def)
  define h1 where "h1 = Rd timer_curr_val (timer_read s) # trace s"
  define c where "c = timer_scale (v0 - of_nat (\<tau> (trace s)))"
  define d where "d = timer_scale (v0 - of_nat (\<tau> h1))"
  have D: "0 < D" using ticking_once(1) [OF tick, of "[]" undefined] ticking_steps(2) [OF tick, of "[undefined]" "[]"]
    by (cases D) (simp_all add: less_le_not_le)
  have bound: "\<tau> h \<le> D * length h" for h by (rule ticking_bound [OF tick])
  have below: "timer_scale (v0 - of_nat j) \<le> timer_scale (v0 - of_nat i)" if "i \<le> j" "j \<le> unat v0" for i j
    using that by (intro ms.sample_mono) (simp add: word_le_nat_alt unat_steady)
  have room: "\<tau> h1 + 175000 + D \<le> Suc (unat v0)" "\<tau> h1 + D * 12 \<le> unat v0"
  proof -
    have "\<tau> h1 \<le> D * (L + 1)" using bound [of h1] by (simp add: h1_def L_def)
    moreover have "D * (L + 175001) = D * (L + 1) + D * 175000" by (simp only: add_mult_distrib2 [symmetric]) simp
    moreover have "175000 + (D - 1) \<le> D * 175000" "D * 12 \<le> D * 175000" using D by (cases D; simp)+
    ultimately show "\<tau> h1 + 175000 + D \<le> Suc (unat v0)" "\<tau> h1 + D * 12 \<le> unat v0"
      using assms(2) D unfolding L_def [symmetric] by linarith+
  qed
  define s1 where "s1 = (timer_seen s)\<lparr>lastinc := c, tbl := 0\<rparr>"
  define s2 where "s2 = s1\<lparr>trace := Rd timer_curr_val (timer_read s1) # trace s1, lastinc := d, tbl := c - d\<rparr>"
  have t1: "trace s1 = h1" by (simp add: s1_def timer_seen_def h1_def)
  have r: "timer_read s = v0 - of_nat (\<tau> (trace s))" "timer_read s1 = v0 - of_nat (\<tau> h1)"
    using tick t1 by (simp_all add: timer_read_def ticking_def s1_def timer_seen_def)
  have 1: "reset_timer s = Some (Val () s1)" by (simp add: ms.reset_run s1_def c_def r)
  have "\<tau> (trace s) \<le> \<tau> h1" using ticking_once(1) [OF tick] by (simp add: h1_def less_imp_le)
  then have le: "d \<le> c" unfolding c_def d_def by (rule below) (use room D in linarith)
  have "get_timer_masked s1 = Some (Val (c - d) s2)"
    unfolding s2_def d_def r(2) [symmetric]
  proof (rule ms.stamp_step)
    show "ms.running c s1" by (simp add: ms.running_def s1_def)
    show "timer_scale (timer_read s1) \<le> lastinc s1"
      unfolding r(2) d_def [symmetric] using le by (simp add: s1_def)
  qed
  then have 2: "get_timer 0 s1 = Some (Val (c - d) s2)"
    by (simp add: get_timer_def bind_io_def ret_def)
  have e2: "env s2 = env s" by (simp add: s2_def s1_def timer_seen_def)
  obtain es where 3: "cm_set_counters cfg s2 = Some (Val () (s2\<lparr>trace := es @ h1\<rparr>))"
    and es: "length es \<le> 12"
  proof -
    have "takes 11 (cm_set_counters cfg) (env s2)" by (rule takes_counters)
    then obtain x fs where "cm_set_counters cfg s2 = Some (Val x (s2\<lparr>trace := fs @ trace s2\<rparr>))" "length fs \<le> 11"
      by (rule takesD)
    then show thesis by (intro that [of "fs @ [Rd timer_curr_val (timer_read s1)]"]) (simp_all add: s2_def t1)
  qed
  define m where "m = \<tau> h1 + 175000"
  have "\<tau> (es @ h1) \<le> \<tau> h1 + D * length es" "D * length es \<le> D * 12"
    using ticking_steps(2) [OF tick, of es h1] mult_le_mono2 [OF es, of D] by blast+
  then have h: "\<tau> h1 + length es \<le> \<tau> (es @ h1)" "\<tau> (es @ h1) \<le> \<tau> h1 + D * 12"
    using ticking_once(2) [OF tick, of h1 es] by linarith+
  have "\<exists>vs l b. wait_until (bind_io get_timer_masked (\<lambda>t. ret (t - (c - d)))) 7 (s2\<lparr>trace := es @ h1\<rparr>) =
      Some (Val () ((s2\<lparr>trace := es @ h1\<rparr>)\<lparr>trace := map (Rd timer_curr_val) vs @ trace (s2\<lparr>trace := es @ h1\<rparr>), lastinc := l, tbl := b\<rparr>)) \<and>
      length vs \<le> Suc (m - \<tau> (trace (s2\<lparr>trace := es @ h1\<rparr>)))"
  proof (rule ms.wait_ticking [where B = "max (m + D) (Suc (\<tau> h1 + D * 12))"])
    show "ticking (Suc 0) D \<tau> v0 (env (s2\<lparr>trace := es @ h1\<rparr>))" using tick e2 by simp
    show "ms.running c (s2\<lparr>trace := es @ h1\<rparr>)" by (simp add: ms.running_def s2_def)
    show "timer_scale (v0 - of_nat (\<tau> (trace (s2\<lparr>trace := es @ h1\<rparr>)))) \<le> lastinc (s2\<lparr>trace := es @ h1\<rparr>)"
      using below [of "\<tau> h1" "\<tau> (es @ h1)"] h room by (simp add: s2_def d_def)
    show "\<tau> (trace (s2\<lparr>trace := es @ h1\<rparr>)) < max (m + D) (Suc (\<tau> h1 + D * 12))" using h(2) by simp
    show "m + D \<le> max (m + D) (Suc (\<tau> h1 + D * 12))" by simp
    show "max (m + D) (Suc (\<tau> h1 + D * 12)) \<le> Suc (unat v0)" using room by (simp add: m_def)
    fix x assume x: "m \<le> x" "x < max (m + D) (Suc (\<tau> h1 + D * 12))"
    have "of_nat 7 \<le> timer_scale (v0 - of_nat (\<tau> h1)) - timer_scale (v0 - of_nat x)"
      by (rule sample_gap) (use x room in \<open>simp_all add: m_def\<close>)
    then show "7 \<le> c - timer_scale (v0 - of_nat x) - (c - d)" by (simp add: d_def)
  qed
  then obtain t where 4: "cm_wait_timer (c - d) 7 (s2\<lparr>trace := es @ h1\<rparr>) = Some (Val () t)"
    and t: "env t = env s" "length (trace t) \<le> length es + length h1 + Suc (m - \<tau> (es @ h1))"
    by (fastforce simp: cm_wait_timer_def get_timer_def e2)
  have "length (trace t) \<le> L + 175015" using t(2) h(1) es by (simp add: m_def h1_def L_def)
  with 1 2 3 4 t(1) show ?thesis
    by (simp add: cm_timed_def seq_io_def bind_io_def ret_def L_def)
qed

lemma takes_unitD:
  fixes m :: "unit io"
  assumes "takes n m (env s)"
  shows "\<exists>h. m s = Some (Val () (s\<lparr>trace := h\<rparr>)) \<and> length h \<le> length (trace s) + n"
  by (rule takesD [OF assms]) (auto intro!: exI [of _ "es @ h" for es h])

lemma lock_ends:
  assumes "clock_hw n D v0 (env s)" and "list_all (enabled (watch (trace s))) vco_regs"
  shows "\<exists>h. cm_wait_for_lock LOCKED_MASK s = Some (Val () (s\<lparr>trace := h\<rparr>)) \<and> length h \<le> length (trace s) + n"
proof -
  have "answers n (clk CLKMGR_INTER_ADDRESS) (\<lambda>v. v AND LOCKED_MASK = LOCKED_MASK) (env s) (trace s)"
    using assms by (simp add: clock_hw_def)
  from poll_answered [OF this] show ?thesis unfolding cm_wait_for_lock_def by auto
qed

text \<open>The phases in the order of the code, grouped by what they wait for.\<close>

lemma basic_init_phases:
  "cm_basic_init cfg =
     seq_io (seqs [cm_gate, cm_enter_bypass, cm_reset_plls, cm_program_vcos cfg])
     (seq_io (cm_timed cfg)
     (seq_io (seqs [cm_enable_vcos cfg, cm_set_dividers cfg])
     (seq_io (cm_wait_for_lock LOCKED_MASK)
     (seq_io (seqs [cm_sdram_counters cfg, cm_toggle_outreset cfg, cm_set_phases cfg,
       cm_leave_bypass, cm_clear_safe_mode, cm_set_sources cfg, cm_ungate])
     (ret 0)))))"
  by (simp add: cm_basic_init_def cm_timed_def seq_io_def bind_assoc)

lemma clocks_run:
  assumes "clock_hw n D v0 (env s)" and "D * (length (trace s) + n + 175018) \<le> unat v0"
  shows "runs (cm_basic_init cfg) (\<lambda>r t. r = 0 \<and> length (trace t) \<le> length (trace s) + 175064 + 12 * n) s"
proof -
  obtain h1 where 1: "seqs [cm_gate, cm_enter_bypass, cm_reset_plls, cm_program_vcos cfg] s =
      Some (Val () (s\<lparr>trace := h1\<rparr>))" "length h1 \<le> length (trace s) + (17 + n)"
    using takes_unitD [OF takes_start [OF assms(1)]] by blast
  let ?s1 = "s\<lparr>trace := h1\<rparr>"
  have "clock_hw n D v0 (env ?s1)" "D * (length (trace ?s1) + 175001) \<le> unat v0"
    using assms(1) le_trans [OF mult_le_mono2 [of "length h1 + 175001" "length (trace s) + n + 175018" D] assms(2)] 1(2) by simp_all
  from timed_ends [OF this] obtain s2 where
    2: "cm_timed cfg ?s1 = Some (Val () s2)" "env s2 = env s" "length (trace s2) \<le> length h1 + 175015" by auto
  obtain h3 where 3: "seqs [cm_enable_vcos cfg, cm_set_dividers cfg] s2 = Some (Val () (s2\<lparr>trace := h3\<rparr>))"
    "length h3 \<le> length (trace s2) + 8"
    using takes_unitD [OF takes_enable] by blast
  let ?s3 = "s2\<lparr>trace := h3\<rparr>"
  have "list_all (enabled (watch (trace ?s3))) vco_regs" by (rule wpD [OF enable_enables 3(1)])
  moreover have "clock_hw n D v0 (env ?s3)" using assms(1) 2(2) by simp
  ultimately obtain h4 where 4: "cm_wait_for_lock LOCKED_MASK ?s3 = Some (Val () (?s3\<lparr>trace := h4\<rparr>))"
    "length h4 \<le> length h3 + n" using lock_ends [of n D v0 ?s3] by auto
  let ?s4 = "?s3\<lparr>trace := h4\<rparr>"
  have "clock_hw n D v0 (env ?s4)" using assms(1) 2(2) by simp
  from takes_unitD [OF takes_finish [OF this]] obtain h5 where
    5: "seqs [cm_sdram_counters cfg, cm_toggle_outreset cfg, cm_set_phases cfg,
      cm_leave_bypass, cm_clear_safe_mode, cm_set_sources cfg, cm_ungate] ?s4 = Some (Val () (?s4\<lparr>trace := h5\<rparr>))"
    "length h5 \<le> length h4 + (24 + 10 * n)" by auto
  have "cm_basic_init cfg s = Some (Val 0 (?s4\<lparr>trace := h5\<rparr>))"
    unfolding basic_init_phases seq_io_def by (simp only: bind_io_def 1 2 3 4 5 option.case res.case ret_def)
  then show ?thesis using 1(2) 2(3) 3(2) 4(2) 5(2) by (simp add: runs_def)
qed

text \<open>
  C34: The clock tree comes up: on hardware whose PLLs lock once they are enabled and whose state
  machine settles, within \<open>n\<close> polls, and whose timer counts between 1 and \<open>D\<close> periods
  from one access to the next and does not roll over meanwhile, the initialisation returns, and
  it takes no more than the 7 ms of the wait and a fixed number of accesses and polls.
\<close>

theorem clocks_come_up:
  assumes "clock_hw n D v0 (env s)" and "D * (length (trace s) + n + 175018) \<le> unat v0"
  shows "runs (cm_basic_init cfg) (\<lambda>r t. r = 0 \<and> length (trace t) \<le> length (trace s) + 175064 + 12 * n) s"
  by (rule clocks_run [OF assms])

text \<open>Hardware that locks and settles at once, and whose timer counts three periods for an access.\<close>

definition ready_clocks :: mach where
  "ready_clocks = (storage_machine (\<lambda>_. 0))\<lparr>env := \<lambda>h a.
     if a = timer_curr_val then 0xFFFFFFFF - of_nat (3 * length h)
     else if a = clk CLKMGR_INTER_ADDRESS then LOCKED_MASK else 0\<rparr>"

lemma ready_clocks: "clock_hw 1 3 0xFFFFFFFF (env ready_clocks)" "trace ready_clocks = []"
proof -
  have "ticking (Suc 0) 3 (\<lambda>h. 3 * length h) 0xFFFFFFFF (env ready_clocks)"
    by (auto simp: ticking_def ready_clocks_def)
  moreover have "env ready_clocks h a = 0" if "a \<noteq> timer_curr_val" "a \<noteq> clk CLKMGR_INTER_ADDRESS" for h a
    using that by (simp add: ready_clocks_def)
  ultimately show "clock_hw 1 3 0xFFFFFFFF (env ready_clocks)"
    unfolding clock_hw_def by (auto simp: ready_clocks_def reg_defs)
qed (simp add: ready_clocks_def storage_machine_def)

theorem clocks_come_up_witness:
  "\<forall>cfg. runs (cm_basic_init cfg) (\<lambda>r t. r = 0 \<and> length (trace t) \<le> 175076) ready_clocks"
  using clocks_come_up [OF ready_clocks(1)] by (simp add: ready_clocks(2))

end
