(* ===== verification/ScanManager.thy ===== *)
theory ScanManager imports FreezeController begin

text \<open>
  scan_manager.c and the inline function of scan_manager.h: shifting the I/O configuration
  (IOCSR) bits of a bank through the JTAG scan engine. The table is a list of words; an
  index outside it is a \<open>Fault\<close>.
\<close>

section \<open>Data\<close>

datatype IOScanChainSelect =
    IO_SCAN_CHAIN_0
  | IO_SCAN_CHAIN_1
  | IO_SCAN_CHAIN_2
  | IO_SCAN_CHAIN_3
  | IO_SCAN_CHAIN_UNDEFINED

text \<open>Scan chain and freeze channel identifiers have the same values.\<close>

primrec freeze_channel :: "IOScanChainSelect \<Rightarrow> FreezeChannelSelect" where
  "freeze_channel IO_SCAN_CHAIN_0 = FREEZE_CHANNEL_0"
| "freeze_channel IO_SCAN_CHAIN_1 = FREEZE_CHANNEL_1"
| "freeze_channel IO_SCAN_CHAIN_2 = FREEZE_CHANNEL_2"
| "freeze_channel IO_SCAN_CHAIN_3 = FREEZE_CHANNEL_3"
| "freeze_channel IO_SCAN_CHAIN_UNDEFINED = FREEZE_CHANNEL_UNDEFINED"

definition chain_bit :: "IOScanChainSelect \<Rightarrow> u32" where
  "chain_bit chain = shl 1 (of_nat (channel_index (freeze_channel chain)))"

definition scan_en :: u32 where [reg_defs]:
  "scan_en = SOCFPGA_SCANMGR_ADDRESS + SCANMGR_EN_ADDRESS"

definition scan_stat :: u32 where [reg_defs]:
  "scan_stat = SOCFPGA_SCANMGR_ADDRESS + SCANMGR_STAT_ADDRESS"

definition fifo1 :: u32 where [reg_defs]:
  "fifo1 = SOCFPGA_SCANMGR_ADDRESS + SCANMGR_FIFOSINGLEBYTE_ADDRESS"

definition fifo2 :: u32 where [reg_defs]:
  "fifo2 = SOCFPGA_SCANMGR_ADDRESS + SCANMGR_FIFODOUBLEBYTE_ADDRESS"

definition fifo4 :: u32 where [reg_defs]:
  "fifo4 = SOCFPGA_SCANMGR_ADDRESS + SCANMGR_FIFOQUADBYTE_ADDRESS"

section \<open>Operations\<close>

definition scan_busy :: "u32 \<Rightarrow> bool" where
  "scan_busy v \<longleftrightarrow> SCANMGR_STAT_ACTIVE_GET v \<noteq> 0 \<or> SCANMGR_STAT_WFIFOCNT_GET v > 0"

text \<open>The loop, with \<open>n\<close> reads left: \<open>max_iter\<close> is decremented before each of them.\<close>

primrec engine_poll :: "nat \<Rightarrow> u32 \<Rightarrow> u32 io" where
  "engine_poll 0 status =
     ret (if scan_busy status then SCAN_MGR_IO_SCAN_ENGINE_STATUS_ACTIVE
          else SCAN_MGR_IO_SCAN_ENGINE_STATUS_IDLE)"
| "engine_poll (Suc n) status =
     (if scan_busy status then bind_io (readl scan_stat) (engine_poll n)
      else ret SCAN_MGR_IO_SCAN_ENGINE_STATUS_IDLE)"

definition scan_mgr_io_scan_chain_engine_is_idle :: "u32 \<Rightarrow> u32 io" where
  "scan_mgr_io_scan_chain_engine_is_idle max_iter =
     bind_io (readl scan_stat) (engine_poll (unat (max_iter - 1)))"

definition engine_idle :: "bool io" where
  "engine_idle =
     bind_io (scan_mgr_io_scan_chain_engine_is_idle MAX_WAITING_DELAY_IO_SCAN_ENGINE)
       (\<lambda>r. ret (r = SCAN_MGR_IO_SCAN_ENGINE_STATUS_IDLE))"

definition fifo_word :: "u32 list \<Rightarrow> nat \<Rightarrow> unit io" where
  "fifo_word table index = (if index < length table then writel (table ! index) fifo4 else fault_io)"

definition fifo_byte :: "u32 list \<Rightarrow> nat \<Rightarrow> nat \<Rightarrow> unit io" where
  "fifo_byte table index i = (if index < length table
     then writel (drop_bit i (table ! index) AND IO_SCAN_CHAIN_BYTE_MASK) fifo1 else fault_io)"

text \<open>The two-byte TDI_TDO header for a payload of \<open>n\<close> bits, as a \<open>uint16_t\<close>.\<close>

definition tdi_tdo_header :: "u32 \<Rightarrow> u16" where
  "tdi_tdo_header payload =
     ucast (TDI_TDO_HEADER_FIRST_BYTE OR shl payload TDI_TDO_HEADER_SECOND_BYTE_SHIFT)"

text \<open>The 128-bit packets \<open>i, i + 1, ...\<close>, \<open>n\<close> of them; \<open>False\<close> if the engine hangs.\<close>

primrec program_full :: "IOScanChainSelect \<Rightarrow> u32 list \<Rightarrow> nat \<Rightarrow> nat \<Rightarrow> bool io" where
  "program_full chain table 0 i = ret True"
| "program_full chain table (Suc n) i =
     seq_io (seqs [
       writel (ucast (tdi_tdo_header TDI_TDO_MAX_PAYLOAD)) fifo2,
       fifo_word table (i * 4),
       fifo_word table (i * 4 + 1),
       fifo_word table (i * 4 + 2),
       fifo_word table (i * 4 + 3)])
     (bind_io engine_idle (\<lambda>idle.
      if \<not> idle then seq_io (clrbits_le32 scan_en (chain_bit chain)) (ret False)
      else program_full chain table n (Suc i)))"

text \<open>\<open>for (i = 0; i < residual; i += 8)\<close>: at most three bytes.\<close>

definition tail_bytes :: "u32 list \<Rightarrow> nat \<Rightarrow> nat \<Rightarrow> unit io" where
  "tail_bytes table index residual =
     for_io 0 ((residual + 7) div 8) (\<lambda>k. fifo_byte table index (8 * k))"

definition program_tail :: "IOScanChainSelect \<Rightarrow> u32 list \<Rightarrow> nat \<Rightarrow> u32 \<Rightarrow> bool io" where
  "program_tail chain table index data_residual =
     (let words = unat (shr data_residual IO_SCAN_CHAIN_32BIT_SHIFT);
          residual = data_residual AND IO_SCAN_CHAIN_32BIT_MASK in
      seq_io (seqs [
        writel (ucast (tdi_tdo_header (data_residual - 1))) fifo2,
        for_io 0 words (\<lambda>i. fifo_word table (index + i)),
        if IO_SCAN_CHAIN_PAYLOAD_24BIT < residual then fifo_word table (index + words)
        else tail_bytes table (index + words) (unat residual)])
      (bind_io engine_idle (\<lambda>idle.
       if \<not> idle then seq_io (clrbits_le32 scan_en (chain_bit chain)) (ret False)
       else ret True)))"

definition scan_mgr_io_scan_chain_prg :: "IOScanChainSelect \<Rightarrow> u32 \<Rightarrow> u32 list \<Rightarrow> u32 io" where
  "scan_mgr_io_scan_chain_prg chain len_in_bits table =
     bind_io (sys_mgr_frzctrl_frzchn_is_frozen (freeze_channel chain)) (\<lambda>frozen.
     if \<not> frozen then ret 1 else
     seq_io (when_io (chain = IO_SCAN_CHAIN_3) (clrbits_le32 hioctrl SYSMGR_FRZCTRL_HIOCTRL_DLLRST_MASK))
     (bind_io engine_idle (\<lambda>idle.
     if \<not> idle then ret 1 else
     let io_program_iter = unat (shr len_in_bits IO_SCAN_CHAIN_128BIT_SHIFT);
         data_residual = len_in_bits AND IO_SCAN_CHAIN_128BIT_MASK in
     seq_io (setbits_le32 scan_en (chain_bit chain))
     (bind_io (program_full chain table io_program_iter 0) (\<lambda>ok.
     if \<not> ok then ret 1 else
     bind_io (if data_residual \<noteq> 0 then program_tail chain table (io_program_iter * 4) data_residual
       else ret True) (\<lambda>ok.
     if \<not> ok then ret 1 else
     seq_io (clrbits_le32 scan_en (chain_bit chain)) (ret 0)))))))"

section \<open>The scan engine\<close>

text \<open>
  What the JTAG engine behind the FIFO does with the bytes written to it: a two-byte TDI_TDO
  command announces \<open>n\<close> payload bits, the following bytes deliver them, lowest bit first.
  The state is the bits shifted so far and the payload still expected. \<open>None\<close>: a command
  where payload was due, a malformed command, or a byte beyond the payload, which the
  engine would take for a command.
\<close>

definition word_bits :: "u32 \<Rightarrow> bool list" where
  "word_bits w = map (bit w) [0..<32]"

definition byte_bits :: "u32 \<Rightarrow> bool list" where
  "byte_bits w = map (bit w) [0..<8]"

definition jtag_write :: "u32 \<Rightarrow> u32 \<Rightarrow> bool list \<times> nat \<Rightarrow> (bool list \<times> nat) option" where
  "jtag_write a v st = (let (bs, n) = st in
     if a = fifo2 then
       (if n = 0 \<and> take_bit 8 v = 0x80 \<and> drop_bit 8 v < 128 then Some (bs, Suc (unat (drop_bit 8 v))) else None)
     else if a = fifo4 then (if 24 < n then Some (bs @ take n (word_bits v), n - 32) else None)
     else if a = fifo1 then (if 0 < n then Some (bs @ take n (byte_bits v), n - 8) else None)
     else Some st)"

primrec jtag :: "event list \<Rightarrow> (bool list \<times> nat) option" where
  "jtag [] = Some ([], 0)"
| "jtag (e # h) = (case e of
      Wr a v \<Rightarrow> Option.bind (jtag h) (jtag_write a v)
    | Rd a v \<Rightarrow> jtag h
    | Msg f xs \<Rightarrow> jtag h)"

definition table_bits :: "u32 list \<Rightarrow> bool list" where
  "table_bits T = concat (map word_bits T)"

text \<open>The first \<open>p\<close> bits of the table have been shifted, \<open>n\<close> more are announced.\<close>

definition fed :: "bool list \<Rightarrow> u32 list \<Rightarrow> nat \<Rightarrow> nat \<Rightarrow> event list \<Rightarrow> bool" where
  "fed B T p n h \<longleftrightarrow> jtag h = Some (B @ take p (table_bits T), n)"

lemma length_word_bits [simp]: "length (word_bits w) = 32"
  by (simp add: word_bits_def)

lemma length_byte_bits [simp]: "length (byte_bits w) = 8"
  by (simp add: byte_bits_def)

lemma take_min_bits [simp]:
  "take (min n 32) (word_bits w) = take n (word_bits w)"
  "take (min n 8) (byte_bits w) = take n (byte_bits w)"
  by (simp_all add: min_def)

lemma length_table_bits: "length (table_bits T) = 32 * length T"
  by (induction T) (simp_all add: table_bits_def)

lemma drop_table_bits: "drop (32 * j) (table_bits T) = table_bits (drop j T)"
proof (induction j arbitrary: T)
  case (Suc j)
  then show ?case by (cases T) (simp_all add: table_bits_def drop_drop [symmetric] flip: drop_drop)
qed simp

lemma take_table_bits:
  assumes "j < length T" and "m \<le> 32"
  shows "take (32 * j + m) (table_bits T) = take (32 * j) (table_bits T) @ take m (word_bits (T ! j))"
proof -
  have "drop j T = T ! j # drop (Suc j) T" using assms(1) by (simp add: Cons_nth_drop_Suc)
  then have "take m (drop (32 * j) (table_bits T)) = take m (word_bits (T ! j))"
    using assms(2) by (simp add: drop_table_bits) (simp add: table_bits_def)
  then show ?thesis by (simp add: take_add)
qed

lemma byte_bits_byte: "byte_bits (drop_bit i w AND 0xff) = map (bit w) [i ..< i + 8]"
proof -
  have ff: "(0xff :: u32) = mask 8" by (simp add: mask_eq_exp_minus_1)
  show ?thesis
    by (rule nth_equalityI) (simp_all add: byte_bits_def ff bit_simps)
qed

lemma take_word_bits:
  assumes "8 * k < 32" and "m \<le> 8"
  shows "take (8 * k + m) (word_bits w) =
    take (8 * k) (word_bits w) @ take m (byte_bits (drop_bit (8 * k) w AND 0xff))"
proof -
  have "8 * k + m \<le> 32" using assms by arith
  then have "take m (drop (8 * k) (word_bits w)) = map (bit w) [8 * k ..< 8 * k + m]"
    by (simp add: word_bits_def drop_map take_map)
  then show ?thesis
    using assms by (simp add: take_add byte_bits_byte take_map)
qed

section \<open>Feeding the engine\<close>

lemma fed_Rd [simp]: "fed B T p n (Rd a v # h) = fed B T p n h"
  by (simp add: fed_def)

lemma fed_reads [simp]: "fed B T p n (map (Rd a) vs @ h) = fed B T p n h"
  by (induction vs) simp_all

lemma fifo_neq [simp]:
  "scan_en \<noteq> fifo1" "scan_en \<noteq> fifo2" "scan_en \<noteq> fifo4"
  "fifo1 \<noteq> fifo2" "fifo1 \<noteq> fifo4" "fifo4 \<noteq> fifo2" "fifo2 \<noteq> fifo4" "fifo4 \<noteq> fifo1"
  "fifo1 \<noteq> scan_en" "fifo2 \<noteq> scan_en" "fifo4 \<noteq> scan_en"
  "hioctrl \<noteq> fifo1" "hioctrl \<noteq> fifo2" "hioctrl \<noteq> fifo4" "hioctrl \<noteq> scan_en"
  by (simp_all add: reg_defs)

lemma fed_Wr_other [simp]:
  "fed B T p n (Wr scan_en v # h) = fed B T p n h"
  "fed B T p n (Wr hioctrl v # h) = fed B T p n h"
  by (auto simp: fed_def jtag_write_def split: Option.bind_splits)

lemma header_bits:
  assumes "x < 128"
  shows "take_bit 8 (ucast (tdi_tdo_header x) :: u32) = 0x80" and
    "drop_bit 8 (ucast (tdi_tdo_header x) :: u32) = x"
proof -
  have "x < 2 ^ 8" using assms by (simp add: word_less_nat_alt)
  then have x: "take_bit 8 x = x" by (simp only: take_bit_eq_mask less_mask_eq)
  have h: "(ucast (tdi_tdo_header x) :: u32) = take_bit 16 (0x80 OR push_bit 8 x)"
    by (simp add: tdi_tdo_header_def reg_defs unsigned_ucast_eq)
  have shift: "take_bit 8 (drop_bit 8 (push_bit 8 x)) = take_bit 8 x"
    by (rule bit_word_eqI) (auto simp: bit_simps)
  show "take_bit 8 (ucast (tdi_tdo_header x) :: u32) = 0x80"
    by (simp add: h take_bit_or take_bit_push_bit)
  show "drop_bit 8 (ucast (tdi_tdo_header x) :: u32) = x"
    using x shift by (simp add: h drop_bit_take_bit)
qed

lemma fed_header:
  assumes "fed B T p 0 h" and "x < 128"
  shows "fed B T p (Suc (unat x)) (Wr fifo2 (ucast (tdi_tdo_header x)) # h)"
  using assms by (simp add: fed_def jtag_write_def header_bits)

lemma fed_word:
  assumes "fed B T (32 * j) n h" and "24 < n" and "j < length T"
  shows "fed B T (32 * j + min n 32) (n - 32) (Wr fifo4 (T ! j) # h)"
  using assms take_table_bits [of j T "min n 32"] by (simp add: fed_def jtag_write_def)

lemma fed_byte:
  assumes "fed B T (32 * j + 8 * k) n h" and "0 < n" and "j < length T" and "k < 4"
  shows "fed B T (32 * j + 8 * k + min n 8) (n - 8) (Wr fifo1 (drop_bit (8 * k) (T ! j) AND 0xff) # h)"
  using assms take_table_bits [of j T "8 * k + min n 8"] take_table_bits [of j T "8 * k"]
    take_word_bits [of k "min n 8" "T ! j"]
  by (simp add: fed_def jtag_write_def add.assoc)

section \<open>Rules\<close>

lemma wp_engine_poll_all:
  assumes "\<And>vs r. Q r (s\<lparr>trace := map (Rd scan_stat) vs @ trace s\<rparr>)"
  shows "wp (engine_poll n status) Q H s"
  using assms
proof (induction n arbitrary: s status)
  case 0
  from 0 [of _ "[]"] show ?case by (simp add: wp_ret)
next
  case (Suc n)
  have "wp (engine_poll n v) Q H (s\<lparr>trace := Rd scan_stat v # trace s\<rparr>)" for v
    by (rule Suc.IH) (use Suc.prems [of _ "vs @ [v]" for vs] in simp)
  with Suc.prems [of _ "[]"] show ?case
    by (simp add: wp_ret wp_bind wp_readl)
qed

lemma wp_engine_idle_all:
  assumes "\<And>vs r. Q r (s\<lparr>trace := map (Rd scan_stat) vs @ trace s\<rparr>)"
  shows "wp engine_idle Q H s"
  unfolding engine_idle_def scan_mgr_io_scan_chain_engine_is_idle_def wp_bind wp_ret
  by (rule wp_readl_all, rule wp_engine_poll_all) (use assms [of _ "vs @ [v]" for vs v] in simp)

text \<open>The chain is disabled again by the last write to the enable register.\<close>

definition chain_off :: "IOScanChainSelect \<Rightarrow> event list \<Rightarrow> bool" where
  "chain_off c h \<longleftrightarrow> (\<exists>v. last_wr scan_en h = Some v \<and> v AND chain_bit c = 0)"

lemma chain_off_clr [simp]: "chain_off c (Wr scan_en (v AND NOT (chain_bit c)) # h)"
  by (simp add: chain_off_def)

text \<open>After a packet: go on, or disable the chain and fail.\<close>

lemma wp_idle_or_stop:
  assumes "fed B T p 0 (trace s)"
    and "\<And>t. fed B T p 0 (trace t) \<Longrightarrow> wp k Q H t"
    and "\<And>t. fed B T p 0 (trace t) \<Longrightarrow> chain_off c (trace t) \<Longrightarrow> Q False t"
  shows "wp (bind_io engine_idle (\<lambda>idle. if \<not> idle
    then seq_io (clrbits_le32 scan_en (chain_bit c)) (ret False) else k)) Q H s"
  unfolding wp_bind
  by (rule wp_engine_idle_all) (use assms in \<open>auto simp: wp_seq wp_clrbits wp_ret\<close>)

lemma fed_word_next:
  "fed B T p n h \<Longrightarrow> p = 32 * j \<Longrightarrow> 32 \<le> n \<Longrightarrow> j < length T \<Longrightarrow>
    fed B T (p + 32) (n - 32) (Wr fifo4 (T ! j) # h)"
  using fed_word [of B T j n h] by (simp add: min_absorb2)

lemma wp_full_packet:
  assumes "fed B T (128 * i) 0 (trace s)" and "4 * i + 4 \<le> length T"
    and "\<And>t. fed B T (128 * Suc i) 0 (trace t) \<Longrightarrow> Q () t"
  shows "wp (seqs [
       writel (ucast (tdi_tdo_header TDI_TDO_MAX_PAYLOAD)) fifo2,
       fifo_word T (i * 4), fifo_word T (i * 4 + 1),
       fifo_word T (i * 4 + 2), fifo_word T (i * 4 + 3)]) Q H s"
proof -
  let ?h = "Wr fifo2 (ucast (tdi_tdo_header TDI_TDO_MAX_PAYLOAD)) # trace s"
  have "fed B T (128 * i) 128 ?h"
    using fed_header [OF assms(1), of TDI_TDO_MAX_PAYLOAD] by (simp add: TDI_TDO_MAX_PAYLOAD_def)
  from fed_word_next [OF this, of "i * 4"] assms(2)
  have "fed B T (128 * i + 32) 96 (Wr fifo4 (T ! (i * 4)) # ?h)" by simp
  from fed_word_next [OF this, of "i * 4 + 1"] assms(2)
  have "fed B T (128 * i + 64) 64 (Wr fifo4 (T ! (i * 4 + 1)) # Wr fifo4 (T ! (i * 4)) # ?h)"
    by (simp add: add.commute)
  from fed_word_next [OF this, of "i * 4 + 2"] assms(2)
  have "fed B T (128 * i + 96) 32
    (Wr fifo4 (T ! (i * 4 + 2)) # Wr fifo4 (T ! (i * 4 + 1)) # Wr fifo4 (T ! (i * 4)) # ?h)"
    by (simp add: add.commute)
  from fed_word_next [OF this, of "i * 4 + 3"] assms(2)
  have "fed B T (128 * Suc i) 0 (Wr fifo4 (T ! (i * 4 + 3)) #
      Wr fifo4 (T ! (i * 4 + 2)) # Wr fifo4 (T ! (i * 4 + 1)) # Wr fifo4 (T ! (i * 4)) # ?h)"
    by (simp add: add.commute)
  with assms(2,3) show ?thesis by (simp add: fifo_word_def wp_rules)
qed

lemma wp_program_full:
  assumes "fed B T (128 * i) 0 (trace s)" and "4 * (i + n) \<le> length T"
    and "\<And>t. fed B T (128 * (i + n)) 0 (trace t) \<Longrightarrow> Q True t"
    and "\<And>p t. p \<le> 128 * (i + n) \<Longrightarrow> fed B T p 0 (trace t) \<Longrightarrow> chain_off c (trace t) \<Longrightarrow> Q False t"
  shows "wp (program_full c T n i) Q H s"
  using assms
proof (induction n arbitrary: i s)
  case 0
  then show ?case by (simp add: wp_ret)
next
  case (Suc n)
  have rec: "wp (program_full c T n (Suc i)) Q H t" if "fed B T (128 * Suc i) 0 (trace t)" for t
    by (rule Suc.IH [OF that]) (use Suc.prems(2-) in simp_all)
  show ?case
    unfolding program_full.simps wp_seq [of "seqs _"]
    by (rule wp_full_packet [OF Suc.prems(1)], use Suc.prems(2) in simp, erule wp_idle_or_stop)
      (use rec Suc.prems(4) [of "128 * Suc i"] in simp_all)
qed

text \<open>The tail: full words while they last, then one more word or up to three bytes.\<close>

lemma wp_tail_words:
  assumes "fed B T (32 * j) n (trace s)" and "32 * j + n \<le> 32 * length T" and "w = n div 32"
    and "\<And>t. fed B T (32 * (j + w)) (n mod 32) (trace t) \<Longrightarrow> Q () t"
  shows "wp (for_io 0 w (\<lambda>i. fifo_word T (j + i))) Q H s"
proof (rule wp_for [where I = "\<lambda>i t. fed B T (32 * (j + i)) (n - 32 * i) (trace t)"])
  show "fed B T (32 * (j + 0)) (n - 32 * 0) (trace s)" using assms(1) by simp
next
  fix i and t :: mach assume i: "i < w" and fed: "fed B T (32 * (j + i)) (n - 32 * i) (trace t)"
  from i assms(3) have n: "32 \<le> n - 32 * i" by (simp add: less_eq_div_iff_mult_less_eq)
  with assms(2) have "j + i < length T" by arith
  with fed_word_next [OF fed refl n] show "wp (fifo_word T (j + i))
      (\<lambda>_ t. fed B T (32 * (j + Suc i)) (n - 32 * Suc i) (trace t)) H t"
    by (simp add: fifo_word_def wp_writel algebra_simps)
next
  show "Q () t" if "fed B T (32 * (j + w)) (n - 32 * w) (trace t)" for t
    using that assms(3,4) by (simp add: minus_mult_div_eq_mod)
qed simp

lemma wp_tail_bytes:
  assumes "fed B T (32 * j) r (trace s)" and "r \<le> 24" and "0 < r \<Longrightarrow> j < length T"
    and "\<And>t. fed B T (32 * j + r) 0 (trace t) \<Longrightarrow> Q () t"
  shows "wp (tail_bytes T j r) Q H s"
  unfolding tail_bytes_def
proof (rule wp_for [where I = "\<lambda>k t. fed B T (32 * j + min (8 * k) r) (r - 8 * k) (trace t)"])
  show "fed B T (32 * j + min (8 * 0) r) (r - 8 * 0) (trace s)" using assms(1) by simp
next
  fix k and t :: mach assume k: "k < (r + 7) div 8" and fed: "fed B T (32 * j + min (8 * k) r) (r - 8 * k) (trace t)"
  from k have r: "8 * k < r" by arith
  with assms(2,3) have "k < 4" "j < length T" by simp_all
  moreover have "min (8 * k) r = 8 * k" "8 * k + min (r - 8 * k) 8 = min (8 * Suc k) r" using r by auto
  ultimately show "wp (fifo_byte T j (8 * k))
      (\<lambda>_ t. fed B T (32 * j + min (8 * Suc k) r) (r - 8 * Suc k) (trace t)) H t"
    using fed_byte [of B T j k "r - 8 * k" "trace t"] fed r
    by (simp add: fifo_byte_def wp_writel IO_SCAN_CHAIN_BYTE_MASK_def add.assoc add.commute [of 8])
next
  show "Q () t" if "fed B T (32 * j + min (8 * ((r + 7) div 8)) r) (r - 8 * ((r + 7) div 8)) (trace t)" for t
  proof -
    have "r \<le> 8 * ((r + 7) div 8)" by arith
    with that assms(4) show ?thesis by (simp add: min_absorb2)
  qed
qed simp

lemma residual_fields:
  "unat (shr x IO_SCAN_CHAIN_32BIT_SHIFT) = unat x div 32"
  "unat (x AND IO_SCAN_CHAIN_32BIT_MASK) = unat x mod 32"
  "unat (shr x IO_SCAN_CHAIN_128BIT_SHIFT) = unat x div 128"
  "unat (x AND IO_SCAN_CHAIN_128BIT_MASK) = unat x mod 128"
  using unat_and_mask [of x 5] unat_and_mask [of x 7]
  by (simp_all add: unat_shr mask_eq_exp_minus_1 IO_SCAN_CHAIN_32BIT_SHIFT_def SHIFT_COUNT_32BIT_def
    IO_SCAN_CHAIN_32BIT_MASK_def MASK_COUNT_32BIT_def IO_SCAN_CHAIN_128BIT_SHIFT_def
    IO_SCAN_CHAIN_128BIT_MASK_def)

lemma full_index: "n \<le> 32 * L \<Longrightarrow> 4 * (n div 128) \<le> L" for n L :: nat
  using div_mult_mod_eq [of n 128] by linarith

lemma tail_index: "32 * j + n \<le> 32 * L \<Longrightarrow> 0 < n mod 32 \<Longrightarrow> j + n div 32 < L" for j n L :: nat
  using div_mult_mod_eq [of n 32] by linarith

lemma prefix_index: "p \<le> 128 * (0 + n div 128) \<Longrightarrow> p \<le> n" for p n :: nat
  using times_div_less_eq_dividend [of 128 n] by (simp only: add_0 order.trans)

lemma wp_program_tail:
  assumes "fed B T (32 * j) 0 (trace s)" and "0 < unat x" and "unat x < 128"
    and "32 * j + unat x \<le> 32 * length T"
    and "\<And>t. fed B T (32 * j + unat x) 0 (trace t) \<Longrightarrow> Q True t"
    and "\<And>t. fed B T (32 * j + unat x) 0 (trace t) \<Longrightarrow> chain_off c (trace t) \<Longrightarrow> Q False t"
  shows "wp (program_tail c T j x) Q H s"
proof -
  let ?w = "unat x div 32" and ?r = "unat x mod 32"
  let ?rest = "bind_io engine_idle (\<lambda>idle. if \<not> idle
    then seq_io (clrbits_le32 scan_en (chain_bit c)) (ret False) else ret True)"
  have total: "32 * (j + ?w) + ?r = 32 * j + unat x" by simp
  have stop: "wp ?rest Q H t" if "fed B T (32 * j + unat x) 0 (trace t)" for t
    by (rule wp_idle_or_stop [OF that]) (simp_all add: wp_ret assms(5,6))
  have last: "wp (if IO_SCAN_CHAIN_PAYLOAD_24BIT < x AND IO_SCAN_CHAIN_32BIT_MASK
      then fifo_word T (j + ?w) else tail_bytes T (j + ?w) ?r) (\<lambda>_. wp ?rest Q H) H t"
    if fed: "fed B T (32 * (j + ?w)) ?r (trace t)" for t
  proof (cases "24 < ?r")
    case True
    then have "j + ?w < length T" using tail_index [OF assms(4)] by simp
    from fed_word [OF fed True this] have "fed B T (32 * (j + ?w) + ?r) 0
      (Wr fifo4 (T ! (j + ?w)) # trace t)" by simp
    then have "fed B T (32 * j + unat x) 0 (Wr fifo4 (T ! (j + ?w)) # trace t)" unfolding total .
    with \<open>j + ?w < length T\<close> True show ?thesis
      by (simp add: fifo_word_def wp_writel stop word_less_nat_alt residual_fields
        IO_SCAN_CHAIN_PAYLOAD_24BIT_def)
  next
    case False
    have "j + ?w < length T" if "0 < ?r" using tail_index [OF assms(4) that] .
    then have "wp (tail_bytes T (j + ?w) ?r) (\<lambda>_. wp ?rest Q H) H t"
      by (rule wp_tail_bytes [OF fed, rotated]) (use False stop in \<open>simp_all only: total not_less\<close>)
    with False show ?thesis
      by (simp add: word_less_nat_alt residual_fields IO_SCAN_CHAIN_PAYLOAD_24BIT_def)
  qed
  have "x - 1 < 128" and x: "Suc (unat (x - 1)) = unat x"
    using assms(2,3) by (auto simp: word_less_nat_alt unat_sub_if')
  from fed_header [OF assms(1) this(1)] have "fed B T (32 * j) (unat x)
      (Wr fifo2 (ucast (tdi_tdo_header (x - 1))) # trace s)" by (simp add: x)
  then have "wp (for_io 0 ?w (\<lambda>i. fifo_word T (j + i)))
      (\<lambda>_. wp (if IO_SCAN_CHAIN_PAYLOAD_24BIT < x AND IO_SCAN_CHAIN_32BIT_MASK
        then fifo_word T (j + ?w) else tail_bytes T (j + ?w) ?r) (\<lambda>_. wp ?rest Q H) H)
      H (s\<lparr>trace := Wr fifo2 (ucast (tdi_tdo_header (x - 1))) # trace s\<rparr>)"
    by (intro wp_tail_words [OF _ assms(4) refl]) (simp, rule last)
  then show ?thesis
    unfolding program_tail_def Let_def residual_fields wp_seq [of "seqs _"] wp_seqs_Cons wp_seqs_Nil wp_writel .
qed

lemma scan_chain_wp:
  assumes "chain \<noteq> IO_SCAN_CHAIN_UNDEFINED" and "length (frz s) = 4"
    and "unat len \<le> 32 * length T" and "jtag (trace s) = Some (B, 0)"
  shows "wp (scan_mgr_io_scan_chain_prg chain len T) (\<lambda>r t.
    (r = 0 \<and> jtag (trace t) = Some (B @ take (unat len) (table_bits T), 0) \<and> chain_off chain (trace t)) \<or>
    (r = 1 \<and> (\<exists>p \<le> unat len. jtag (trace t) = Some (B @ take p (table_bits T), 0)) \<and>
      (chain_off chain (trace t) \<or> last_wr scan_en (trace t) = last_wr scan_en (trace s)))) H s"
proof -
  let ?Q = "\<lambda>(r :: u32) (t :: mach).
    (r = 0 \<and> fed B T (unat len) 0 (trace t) \<and> chain_off chain (trace t)) \<or>
    (r = 1 \<and> (\<exists>p \<le> unat len. fed B T p 0 (trace t)) \<and>
      (chain_off chain (trace t) \<or> last_wr scan_en (trace t) = last_wr scan_en (trace s)))"
  let ?n = "unat len div 128" and ?x = "len AND IO_SCAN_CHAIN_128BIT_MASK"
  have Q1: "?Q 1 t" if "p \<le> unat len" "fed B T p 0 (trace t)" "chain_off chain (trace t)" for p t
    using that by auto
  have len: "32 * (?n * 4) + unat ?x = unat len" "unat ?x < 128" by (simp_all add: residual_fields)
  have idx: "channel_index (freeze_channel chain) < 4" using assms(1) by (cases chain) simp_all
  have fin: "wp (seq_io (clrbits_le32 scan_en (chain_bit chain)) (ret 0)) ?Q H t"
    if "fed B T (unat len) 0 (trace t)" for t
    using that by (simp add: wp_seq wp_clrbits wp_ret)
  have tail: "wp (bind_io (if ?x \<noteq> 0 then program_tail chain T (?n * 4) ?x else ret True) (\<lambda>ok.
      if \<not> ok then ret 1 else seq_io (clrbits_le32 scan_en (chain_bit chain)) (ret 0))) ?Q H t"
    if t: "fed B T (128 * (0 + ?n)) 0 (trace t)" for t
  proof (cases "?x = 0")
    case True
    with t len(1) fin show ?thesis by (simp add: wp_bind wp_ret)
  next
    case False
    have fed: "fed B T (32 * (?n * 4)) 0 (trace t)" and x: "0 < unat ?x"
      using t False by (simp_all add: mult.commute unat_gt_0)
    have "wp (program_tail chain T (?n * 4) ?x) (\<lambda>ok. wp (if \<not> ok then ret 1 else
        seq_io (clrbits_le32 scan_en (chain_bit chain)) (ret 0)) ?Q H) H t"
    proof (rule wp_program_tail [OF fed x len(2)])
      show "32 * (?n * 4) + unat ?x \<le> 32 * length T" using len(1) assms(3) by simp
    qed (use len(1) fin Q1 [of "unat len"] in \<open>simp_all only: wp_ret if_False if_True not_not simp_thms order.refl\<close>)
    with False show ?thesis by (simp add: wp_bind)
  qed
  have full: "wp (bind_io (program_full chain T ?n 0) (\<lambda>ok. if \<not> ok then ret 1 else
      bind_io (if ?x \<noteq> 0 then program_tail chain T (?n * 4) ?x else ret True) (\<lambda>ok.
      if \<not> ok then ret 1 else seq_io (clrbits_le32 scan_en (chain_bit chain)) (ret 0)))) ?Q H t"
    if "fed B T 0 0 (trace t)" for t
    unfolding wp_bind [of "program_full _ _ _ _"]
  proof (rule wp_program_full)
    show "fed B T (128 * 0) 0 (trace t)" using that by simp
    show "4 * (0 + ?n) \<le> length T" using full_index [OF assms(3)] by simp
    show "wp (if \<not> False then ret 1 else k) ?Q H u"
      if "p \<le> 128 * (0 + ?n)" "fed B T p 0 (trace u)" "chain_off chain (trace u)" for p k u
    proof -
      have "p \<le> unat len" using that(1) by (rule prefix_index)
      from Q1 [OF this that(2,3)] show ?thesis by (simp only: wp_ret simp_thms if_True)
    qed
  qed (use tail in \<open>simp only: simp_thms if_False\<close>)
  have start: "fed B T 0 0 (trace s)" using assms(4) by (simp add: fed_def)
  have early: "?Q 1 t" if "fed B T 0 0 (trace t)" "last_wr scan_en (trace t) = last_wr scan_en (trace s)" for t
    using that by auto
  have idle: "wp (bind_io engine_idle (\<lambda>idle. if \<not> idle then ret 1 else
      seq_io (setbits_le32 scan_en (chain_bit chain)) k)) ?Q H t"
    if "fed B T 0 0 (trace t)" "last_wr scan_en (trace t) = last_wr scan_en (trace s)"
      and "\<And>u. fed B T 0 0 (trace u) \<Longrightarrow> wp k ?Q H u" for k t
    unfolding wp_bind
    by (rule wp_engine_idle_all) (use that early in \<open>simp add: wp_ret wp_seq wp_setbits\<close>)
  have cont: "wp (if \<not> frozen then ret 1 else
        seq_io (when_io hio (clrbits_le32 hioctrl m))
        (bind_io engine_idle (\<lambda>idle. if \<not> idle then ret 1 else
         seq_io (setbits_le32 scan_en (chain_bit chain)) k))) ?Q H s"
      if k: "\<And>u. fed B T 0 0 (trace u) \<Longrightarrow> wp k ?Q H u" for frozen hio m k
    proof (cases frozen)
      case True
      have "wp (bind_io engine_idle (\<lambda>idle. if \<not> idle then ret 1 else
         seq_io (setbits_le32 scan_en (chain_bit chain)) k)) ?Q H u"
        if "fed B T 0 0 (trace u)" "last_wr scan_en (trace u) = last_wr scan_en (trace s)" for u
        by (rule idle [OF that k])
      with True start show ?thesis
        by (simp only: simp_thms if_False wp_seq [of "when_io _ _"] wp_when wp_clrbits split: if_split) simp
    next
      case False
      with early start show ?thesis by (simp only: simp_thms if_True wp_ret)
    qed
  have "wp (scan_mgr_io_scan_chain_prg chain len T) ?Q H s"
    unfolding scan_mgr_io_scan_chain_prg_def Let_def residual_fields(3)
      wp_bind [of "sys_mgr_frzctrl_frzchn_is_frozen _"] wp_is_frozen if_not_P
  proof (intro conjI)
    show "channel_index (freeze_channel chain) < length (frz s)" using idx assms(2) by simp
  qed (rule cont, rule full)
  then show ?thesis unfolding fed_def .
qed

lemma ends_engine_poll [simp]: "ends (engine_poll n v)"
  by (induction n arbitrary: v) (simp_all add: total_bind)

lemma ends_engine_idle [simp]: "ends engine_idle"
  by (simp add: engine_idle_def scan_mgr_io_scan_chain_engine_is_idle_def total_bind)

lemma ends_fifo [simp]: "ends (fifo_word T i)" "ends (fifo_byte T i k)"
  by (simp_all add: fifo_word_def fifo_byte_def)

lemma ends_program_full [simp]: "ends (program_full chain T n i)"
  by (induction n arbitrary: i) (auto intro!: total_intros)

lemma ends_program_tail [simp]: "ends (program_tail chain T j x)"
  by (auto simp: program_tail_def tail_bytes_def Let_def intro!: total_intros)

lemma ends_is_frozen [simp]: "ends (sys_mgr_frzctrl_frzchn_is_frozen ch)"
  by (simp add: sys_mgr_frzctrl_frzchn_is_frozen_def total_bind)

lemma ends_scan_chain [simp]: "ends (scan_mgr_io_scan_chain_prg chain len T)"
  by (auto simp: scan_mgr_io_scan_chain_prg_def Let_def intro!: total_intros)

lemma scan_chain_run:
  assumes "chain \<noteq> IO_SCAN_CHAIN_UNDEFINED" and "length (frz s) = 4"
    and "unat len \<le> 32 * length T" and "jtag (trace s) = Some (B, 0)"
  shows "runs (scan_mgr_io_scan_chain_prg chain len T) (\<lambda>r t.
    (r = 0 \<and> jtag (trace t) = Some (B @ take (unat len) (table_bits T), 0) \<and> chain_off chain (trace t)) \<or>
    (r = 1 \<and> (\<exists>p \<le> unat len. jtag (trace t) = Some (B @ take p (table_bits T), 0)) \<and>
      (chain_off chain (trace t) \<or> last_wr scan_en (trace t) = last_wr scan_en (trace s)))) s"
  by (rule runs_ends [OF ends_scan_chain scan_chain_wp [OF assms]])

text \<open>
  C3: Programming a scan chain, on every hardware: for a chain with a flag, a table that holds
  the announced number of bits, and an engine that has finished its last command, the
  function returns 0 or 1 and never reads outside the table. What the engine has been sent
  is always a whole number of commands whose payload is a prefix of the table's bits,
  without a byte in excess; if the result is 0 it is exactly the first \<open>len\<close> bits. The
  chain is disabled again whenever it was enabled.
\<close>

theorem scan_chain_programmed:
  assumes "chain \<noteq> IO_SCAN_CHAIN_UNDEFINED" and "length (frz s) = 4"
    and "unat len \<le> 32 * length T" and "jtag (trace s) = Some (B, 0)"
  shows "runs (scan_mgr_io_scan_chain_prg chain len T) (\<lambda>r t.
    (r = 0 \<and> jtag (trace t) = Some (B @ take (unat len) (table_bits T), 0) \<and> chain_off chain (trace t)) \<or>
    (r = 1 \<and> (\<exists>p \<le> unat len. jtag (trace t) = Some (B @ take p (table_bits T), 0)) \<and>
      (chain_off chain (trace t) \<or> last_wr scan_en (trace t) = last_wr scan_en (trace s)))) s"
  by (rule scan_chain_run [OF assms])

theorem scan_chain_programmed_witness:
  "runs (scan_mgr_io_scan_chain_prg IO_SCAN_CHAIN_2 150 [1, 2, 3, 4, 0x2aaaaa]) (\<lambda>r t. r = 0 \<or> r = 1)
    (storage_machine (\<lambda>_. 0))"
  by (rule runs_mono [OF scan_chain_programmed]) auto

section \<open>Success\<close>

text \<open>
  On an engine that is idle at one of the next 100 reads of its status, as many as the code
  makes, nothing keeps the function from success.
\<close>

definition engine_free :: "(event list \<Rightarrow> u32 \<Rightarrow> u32) \<Rightarrow> bool" where
  "engine_free hw \<longleftrightarrow> (\<forall>h. answers (unat MAX_WAITING_DELAY_IO_SCAN_ENGINE) scan_stat (\<lambda>v. \<not> scan_busy v) hw h)"

lemma engine_freeI:
  assumes "\<And>h. \<not> scan_busy (hw h scan_stat) \<or> \<not> scan_busy (hw (Rd scan_stat (hw h scan_stat) # h) scan_stat)"
  shows "engine_free hw"
proof -
  define n where "n = unat (MAX_WAITING_DELAY_IO_SCAN_ENGINE - 2)"
  have "unat MAX_WAITING_DELAY_IO_SCAN_ENGINE = Suc (Suc n)" by (simp add: n_def reg_defs)
  with assms show ?thesis by (simp add: engine_free_def) blast
qed

lemma gives_accesses:
  "env s = hw \<Longrightarrow> gives (writel v a) (\<lambda>_ t. env t = hw) s"
  "env s = hw \<Longrightarrow> gives (setbits_le32 a m) (\<lambda>_ t. env t = hw) s"
  "env s = hw \<Longrightarrow> gives (clrbits_le32 a m) (\<lambda>_ t. env t = hw) s"
  "env s = hw \<Longrightarrow> gives (fifo_word T i) (\<lambda>_ t. env t = hw) s"
  "env s = hw \<Longrightarrow> gives (fifo_byte T i k) (\<lambda>_ t. env t = hw) s"
  by (simp_all add: fifo_word_def fifo_byte_def gives_def setbits_le32_def clrbits_le32_def bind_io_def
    readl_def writel_def fault_io_def Let_def)

lemma engine_poll_answered:
  "(\<not> scan_busy v \<or> answers n scan_stat (\<lambda>v. \<not> scan_busy v) (env s) (trace s)) \<Longrightarrow>
    gives (engine_poll n v) (\<lambda>r t. r = SCAN_MGR_IO_SCAN_ENGINE_STATUS_IDLE \<and> env t = env s) s"
proof (induction n arbitrary: v s)
  case (Suc n)
  show ?case
  proof (cases "scan_busy v")
    case True
    let ?v = "env s (trace s) scan_stat"
    have "gives (engine_poll n ?v) (\<lambda>r t. r = SCAN_MGR_IO_SCAN_ENGINE_STATUS_IDLE \<and> env t = env s)
        (s\<lparr>trace := Rd scan_stat ?v # trace s\<rparr>)"
      using Suc.IH [of ?v "s\<lparr>trace := Rd scan_stat ?v # trace s\<rparr>"] Suc.prems True by simp
    with True show ?thesis by (simp add: gives_def bind_io_def readl_def Let_def)
  qed (simp add: gives_def ret_def)
qed (simp add: gives_def ret_def)

lemma gives_if_idle:
  assumes "engine_free hw" and "env s = hw" and "\<And>t. env t = hw \<Longrightarrow> gives yes Q t"
  shows "gives (bind_io engine_idle (\<lambda>idle. if \<not> idle then no else yes)) Q s"
proof (rule gives_bind)
  define n where "n = unat (MAX_WAITING_DELAY_IO_SCAN_ENGINE - 1)"
  let ?v = "env s (trace s) scan_stat" and ?u = "s\<lparr>trace := Rd scan_stat (env s (trace s) scan_stat) # trace s\<rparr>"
  have "unat MAX_WAITING_DELAY_IO_SCAN_ENGINE = Suc n" by (simp add: n_def reg_defs)
  then have "answers (Suc n) scan_stat (\<lambda>v. \<not> scan_busy v) (env s) (trace s)"
    using assms(1,2) unfolding engine_free_def by metis
  then have "gives (engine_poll n ?v) (\<lambda>r t. r = SCAN_MGR_IO_SCAN_ENGINE_STATUS_IDLE \<and> env t = env s) ?u"
    using engine_poll_answered [of ?v n ?u] by simp
  then have "gives (scan_mgr_io_scan_chain_engine_is_idle MAX_WAITING_DELAY_IO_SCAN_ENGINE)
      (\<lambda>r t. r = SCAN_MGR_IO_SCAN_ENGINE_STATUS_IDLE \<and> env t = hw) s"
    by (simp add: gives_def scan_mgr_io_scan_chain_engine_is_idle_def bind_io_def readl_def Let_def
      n_def assms(2) split: option.splits res.splits)
  then show "gives engine_idle (\<lambda>idle t. idle \<and> env t = hw) s"
    unfolding engine_idle_def by (rule gives_bind) (simp add: gives_ret)
qed (use assms(3) in simp)

lemma gives_program_full:
  "engine_free hw \<Longrightarrow> env s = hw \<Longrightarrow> gives (program_full chain T n i) (\<lambda>ok t. ok \<and> env t = hw) s"
proof (induction n arbitrary: i s)
  case (Suc n)
  show ?case
    unfolding program_full.simps
  proof (rule gives_seq [OF gives_seqs, where P = "\<lambda>t. env t = hw"])
    fix t :: mach assume t: "env t = hw"
    show "gives (bind_io engine_idle (\<lambda>idle. if \<not> idle then
        seq_io (clrbits_le32 scan_en (chain_bit chain)) (ret False) else program_full chain T n (Suc i)))
      (\<lambda>ok t. ok \<and> env t = hw) t"
      by (rule gives_if_idle [OF Suc.prems(1) t]) (rule Suc.IH [OF Suc.prems(1)])
  qed (use Suc.prems(2) in \<open>auto intro: gives_accesses\<close>)
qed (simp add: gives_ret)

lemma gives_program_tail:
  assumes "engine_free hw" and "env s = hw"
  shows "gives (program_tail chain T j x) (\<lambda>ok t. ok \<and> env t = hw) s"
  unfolding program_tail_def Let_def
proof (rule gives_seq [OF gives_seqs, where P = "\<lambda>t. env t = hw"])
  fix t :: mach assume t: "env t = hw"
  show "gives (bind_io engine_idle (\<lambda>idle. if \<not> idle then
      seq_io (clrbits_le32 scan_en (chain_bit chain)) (ret False) else ret True)) (\<lambda>ok t. ok \<and> env t = hw) t"
    by (rule gives_if_idle [OF assms(1) t]) (simp add: gives_ret)
qed (use assms(2) in \<open>auto simp: tail_bytes_def gives_accesses intro!: gives_for\<close>)

lemma gives_frozen:
  assumes "frz s ! channel_index ch = FREEZE_CTRL_FROZEN"
  shows "gives (sys_mgr_frzctrl_frzchn_is_frozen ch) (\<lambda>frozen t. frozen \<and> t = s) s"
  using assms by (simp add: gives_def sys_mgr_frzctrl_frzchn_is_frozen_def bind_io_def get_io_def
    ret_def fault_io_def)

lemma gives_scan_chain:
  assumes "frz s ! channel_index (freeze_channel chain) = FREEZE_CTRL_FROZEN" and "engine_free (env s)"
  shows "gives (scan_mgr_io_scan_chain_prg chain len T) (\<lambda>r t. r = (0 :: u32)) s"
proof -
  let ?E = "\<lambda>t :: mach. env t = env s"
  have guard: "gives (bind_io m (\<lambda>ok. if \<not> ok then ret 1 else k)) (\<lambda>r t. r = (0 :: u32)) t"
    if "gives m (\<lambda>ok t. ok \<and> ?E t) t" and "\<And>t. ?E t \<Longrightarrow> gives k (\<lambda>r t. r = 0) t" for m k t
    by (rule gives_bind [OF that(1)]) (use that(2) in simp)
  have tail: "gives (if x then program_tail chain T j y else ret True) (\<lambda>ok t. ok \<and> ?E t) t"
    if "?E t" for x j y t
    using gives_program_tail [OF assms(2) that] that by (simp add: gives_ret)
  have fin: "gives (seq_io (clrbits_le32 scan_en m) (ret (0 :: u32))) (\<lambda>r t. r = 0) t" if "?E t" for m t
    by (rule gives_seq [OF gives_accesses(3) [OF that]]) (simp add: gives_ret)
  have prg: "gives (bind_io (program_full chain T n 0) (\<lambda>ok. if \<not> ok then ret 1 else
       bind_io (if x then program_tail chain T j y else ret True) (\<lambda>ok. if \<not> ok then ret 1 else
       seq_io (clrbits_le32 scan_en (chain_bit chain)) (ret 0)))) (\<lambda>r t. r = (0 :: u32)) t" if "?E t" for n x j y t
    by (rule guard [OF gives_program_full [OF assms(2) that]], rule guard [OF tail], assumption, rule fin)
  have hio: "gives (when_io b (clrbits_le32 a m)) (\<lambda>_. ?E) s" for b a m
    by (simp add: when_io_def gives_accesses gives_ret)
  show ?thesis
    unfolding scan_mgr_io_scan_chain_prg_def Let_def
  proof (rule gives_bind [OF gives_frozen [OF assms(1)]])
    fix frozen t assume "frozen \<and> t = s"
    then show "gives (if \<not> frozen then ret 1 else
      seq_io (when_io (chain = IO_SCAN_CHAIN_3) (clrbits_le32 hioctrl SYSMGR_FRZCTRL_HIOCTRL_DLLRST_MASK))
      (bind_io engine_idle (\<lambda>idle. if \<not> idle then ret 1 else
       seq_io (setbits_le32 scan_en (chain_bit chain))
       (bind_io (program_full chain T (unat (shr len IO_SCAN_CHAIN_128BIT_SHIFT)) 0) (\<lambda>ok. if \<not> ok then ret 1 else
        bind_io (if len AND IO_SCAN_CHAIN_128BIT_MASK \<noteq> 0
          then program_tail chain T (unat (shr len IO_SCAN_CHAIN_128BIT_SHIFT) * 4) (len AND IO_SCAN_CHAIN_128BIT_MASK)
          else ret True) (\<lambda>ok. if \<not> ok then ret 1 else
        seq_io (clrbits_le32 scan_en (chain_bit chain)) (ret 0))))))) (\<lambda>r t. r = (0 :: u32)) t"
      by (simp only: simp_thms if_False)
        (rule gives_seq [OF hio], rule gives_if_idle [OF assms(2)], assumption,
         rule gives_seq [OF gives_accesses(2)], assumption, rule prg, assumption)
  qed
qed

text \<open>
  On a frozen bank and an engine that is never busy, programming a scan chain succeeds:
  it returns 0, the engine has been sent exactly the first \<open>len\<close> bits of the table, and the
  chain is disabled.
\<close>

theorem scan_chain_succeeds:
  assumes "chain \<noteq> IO_SCAN_CHAIN_UNDEFINED" and "length (frz s) = 4"
    and "unat len \<le> 32 * length T" and "jtag (trace s) = Some (B, 0)"
    and "frz s ! channel_index (freeze_channel chain) = FREEZE_CTRL_FROZEN" and "engine_free (env s)"
  shows "runs (scan_mgr_io_scan_chain_prg chain len T) (\<lambda>r t. r = 0 \<and>
    jtag (trace t) = Some (B @ take (unat len) (table_bits T), 0) \<and> chain_off chain (trace t)) s"
  by (rule runs_mono [OF runs_gives [OF scan_chain_run [OF assms(1-4)] gives_scan_chain [OF assms(5,6)]]]) auto

theorem scan_chain_succeeds_witness:
  "runs (scan_mgr_io_scan_chain_prg IO_SCAN_CHAIN_3 150 [1, 2, 3, 4, 0x2aaaaa]) (\<lambda>r t. r = 0 \<and>
    jtag (trace t) = Some (take 150 (table_bits [1, 2, 3, 4, 0x2aaaaa]), 0))
    ((storage_machine (\<lambda>_. 0))\<lparr>env := \<lambda>_ _. 0\<rparr>)"
  by (rule runs_mono [OF scan_chain_succeeds]) (auto simp: scan_busy_def reg_defs intro: engine_freeI)

text \<open>
  A bank that is not frozen is never reconfigured: the function returns 1 without a single
  register access.
\<close>

theorem scan_chain_needs_freeze:
  assumes "channel_index (freeze_channel chain) < length (frz s)"
    and "frz s ! channel_index (freeze_channel chain) \<noteq> FREEZE_CTRL_FROZEN"
  shows "scan_mgr_io_scan_chain_prg chain len T s = Some (Val 1 s)"
  using assms
  by (simp add: scan_mgr_io_scan_chain_prg_def sys_mgr_frzctrl_frzchn_is_frozen_def bind_io_def
    get_io_def ret_def)

theorem scan_chain_needs_freeze_witness:
  "scan_mgr_io_scan_chain_prg IO_SCAN_CHAIN_1 64 [] ((storage_machine (\<lambda>_. 0))\<lparr>frz := [0, 1, 0, 0]\<rparr>) =
    Some (Val 1 ((storage_machine (\<lambda>_. 0))\<lparr>frz := [0, 1, 0, 0]\<rparr>))"
  by (rule scan_chain_needs_freeze) (simp_all add: FREEZE_CTRL_FROZEN_def)

end
