(* ===== verification/Frames.thy ===== *)
theory Frames imports GicInterrupts ClockManager ScanManager SystemManager SdramMmr ResetManager begin

text \<open>
  What an operation leaves alone. The boot sequence calls every component in turn; that one
  component does not touch the variables of another follows from the rules here by the
  structure of its code.
\<close>

section \<open>A calculus of frames\<close>

definition keeps :: "(mach \<Rightarrow> 'b) \<Rightarrow> 'a io \<Rightarrow> bool" where
  "keeps f m \<longleftrightarrow> (\<forall>s t. (\<exists>x. m s = Some (Val x t)) \<or> m s = Some (Halt t) \<longrightarrow> f t = f s)"

lemma keepsD: "keeps f m \<Longrightarrow> m s = Some (Val x t) \<Longrightarrow> f t = f s"
  by (auto simp: keeps_def)

lemma keeps_ret: "keeps f (ret x)"
  by (simp add: keeps_def ret_def)

lemma keeps_bind: "keeps f m \<Longrightarrow> (\<And>x. keeps f (g x)) \<Longrightarrow> keeps f (bind_io m g)"
  unfolding keeps_def
proof (intro allI impI)
  fix s t
  assume m: "\<forall>s t. (\<exists>x. m s = Some (Val x t)) \<or> m s = Some (Halt t) \<longrightarrow> f t = f s"
    and g: "\<And>x. \<forall>s t. (\<exists>y. g x s = Some (Val y t)) \<or> g x s = Some (Halt t) \<longrightarrow> f t = f s"
    and run: "(\<exists>y. bind_io m g s = Some (Val y t)) \<or> bind_io m g s = Some (Halt t)"
  show "f t = f s"
  proof (cases "m s = Some (Halt t)")
    case True
    with m show ?thesis by blast
  next
    case False
    with run obtain x u where "m s = Some (Val x u)" "(\<exists>y. g x u = Some (Val y t)) \<or> g x u = Some (Halt t)"
      by (auto simp: bind_io_def split: option.splits res.splits)
    with m g show ?thesis by metis
  qed
qed

lemma keeps_seq: "keeps f m \<Longrightarrow> keeps f n \<Longrightarrow> keeps f (seq_io m n)"
  unfolding seq_io_def by (rule keeps_bind)

lemma keeps_seqs: "list_all (keeps f) ms \<Longrightarrow> keeps f (seqs ms)"
  by (induction ms) (auto intro: keeps_ret keeps_seq)

lemma keeps_seqs_Cons: "keeps f (seqs [])" "keeps f m \<Longrightarrow> keeps f (seqs ms) \<Longrightarrow> keeps f (seqs (m # ms))"
  by (auto intro: keeps_ret keeps_seq)

lemma keeps_stop: "keeps f halt_io" "keeps f fault_io"
  by (simp_all add: keeps_def halt_io_def fault_io_def)

lemma keeps_when: "keeps f m \<Longrightarrow> keeps f (when_io b m)"
  by (simp add: when_io_def keeps_ret)

lemma keeps_if: "keeps f m \<Longrightarrow> keeps f n \<Longrightarrow> keeps f (if b then m else n)"
  by simp

lemma keeps_get: "keeps f (get_io g)"
  by (simp add: keeps_def get_io_def)

lemma keeps_modify: "(\<And>s. f (g s) = f s) \<Longrightarrow> keeps f (modify_io g)"
  by (simp add: keeps_def modify_io_def)

lemma keeps_for: "(\<And>i. lo \<le> i \<Longrightarrow> i < hi \<Longrightarrow> keeps f (g i)) \<Longrightarrow> keeps f (for_io lo hi g)"
  by (induction lo hi g rule: for_io.induct) (subst for_io.simps, auto intro: keeps_ret keeps_seq)

lemma keeps_attempt: "keeps f m \<Longrightarrow> keeps f (attempt n m)"
  by (induction n) (auto intro!: keeps_ret keeps_bind split: option.splits)

lemma keeps_case_option: "keeps f m \<Longrightarrow> (\<And>x. keeps f (g x)) \<Longrightarrow> keeps f (case r of None \<Rightarrow> m | Some x \<Rightarrow> g x)"
  by (cases r) simp_all

lemma keeps_gives: "keeps f m \<Longrightarrow> gives m (\<lambda>_ t. f t = f s) s"
  by (auto simp: keeps_def gives_def split: option.splits res.splits)

text \<open>
  A view of the state that reads, messages, the time stamp and writes outside \<open>A\<close> do not
  change: a variable, or what a device attached at the addresses \<open>A\<close> has been sent.
\<close>

locale view =
  fixes f :: "mach \<Rightarrow> 'b" and A :: "u32 set"
  assumes view_Rd: "f (s\<lparr>trace := Rd a v # trace s\<rparr>) = f s"
    and view_Msg: "f (s\<lparr>trace := Msg g xs # trace s\<rparr>) = f s"
    and view_Wr: "a \<notin> A \<Longrightarrow> f (s\<lparr>trace := Wr a v # trace s\<rparr>) = f s"
    and view_lastinc: "f (s\<lparr>lastinc := l\<rparr>) = f s"
    and view_tbl: "f (s\<lparr>tbl := b\<rparr>) = f s"
begin

lemma view_reads: "f (s\<lparr>trace := map (Rd a) vs @ trace s\<rparr>) = f s"
proof (induction vs)
  case (Cons v vs)
  then show ?case using view_Rd [where s = "s\<lparr>trace := map (Rd a) vs @ trace s\<rparr>"] by simp
qed simp

lemma keeps_readl: "keeps f (readl a)"
  by (simp add: keeps_def readl_def Let_def view_Rd)

lemma keeps_writel: "a \<notin> A \<Longrightarrow> keeps f (writel v a)"
  by (simp add: keeps_def writel_def view_Wr)

lemma keeps_msg: "keeps f (msg g xs)"
  by (simp add: keeps_def msg_def view_Msg)

lemma keeps_rmw: "a \<notin> A \<Longrightarrow> keeps f (setbits_le32 a m)" "a \<notin> A \<Longrightarrow> keeps f (clrbits_le32 a m)"
  by (simp_all add: setbits_le32_def clrbits_le32_def keeps_bind keeps_readl keeps_writel)

lemma keeps_poll: "keeps f (poll_until a good)"
  unfolding keeps_def
proof (intro allI impI)
  fix s t assume "(\<exists>x. poll_until a good s = Some (Val x t)) \<or> poll_until a good s = Some (Halt t)"
  then obtain vs v where "t = s\<lparr>trace := map (Rd a) (v # vs) @ trace s\<rparr>"
    by (auto dest!: poll_until_trace simp: polls_def)
  then show "f t = f s" by (simp only: view_reads)
qed

lemma keeps_timer_only:
  assumes "\<And>s r. m s = Some r \<Longrightarrow> \<exists>x t. r = Val x t \<and> timer_only s t"
  shows "keeps f m"
  unfolding keeps_def
proof (intro allI impI)
  fix s t assume "(\<exists>x. m s = Some (Val x t)) \<or> m s = Some (Halt t)"
  then have "timer_only s t" using assms by fastforce
  then obtain vs l b where "t = s\<lparr>trace := map (Rd timer_curr_val) vs @ trace s, lastinc := l, tbl := b\<rparr>"
    by (auto simp: timer_only_def)
  then show "f t = f s"
    using view_tbl [where s = "s\<lparr>trace := map (Rd timer_curr_val) vs @ trace s, lastinc := l\<rparr>"]
      view_lastinc [where s = "s\<lparr>trace := map (Rd timer_curr_val) vs @ trace s\<rparr>"]
    by (simp add: view_reads)
qed

lemma keeps_timer: "keeps f reset_timer" "keeps f (get_timer b)" "keeps f (cm_wait_timer b n)"
proof -
  show "keeps f reset_timer" by (rule keeps_timer_only) (erule reset_timer_only)
  show "keeps f (get_timer b)" 
  proof (rule keeps_timer_only)
    fix s r assume "get_timer b s = Some r"
    with get_timer_only [of b s] show "\<exists>x t. r = Val x t \<and> timer_only s t" by auto
  qed
  show "keeps f (cm_wait_timer b n)" by (rule keeps_timer_only) (erule wait_timer_only)
qed

lemmas keeps_io = keeps_if keeps_timer keeps_ret keeps_bind keeps_seq keeps_seqs_Cons keeps_stop keeps_when keeps_get keeps_for
  keeps_attempt keeps_readl keeps_writel keeps_msg keeps_rmw keeps_poll

end

section \<open>Code that returns from every state\<close>

definition completes :: "'a io \<Rightarrow> bool" where
  "completes m \<longleftrightarrow> (\<forall>s. runs m (\<lambda>_ _. True) s)"

lemma completes_prim [simp]: "completes (ret x)" "completes (get_io g)" "completes (modify_io k)" "completes (readl a)"
    "completes (writel v a)" "completes (msg str xs)" "completes (setbits_le32 a m)" "completes (clrbits_le32 a m)"
  by (simp_all add: completes_def runs_rules runs_readl runs_setbits runs_clrbits)

lemma completes_bind: "completes m \<Longrightarrow> (\<And>x. completes (g x)) \<Longrightarrow> completes (bind_io m g)"
  by (auto simp: completes_def runs_bind intro: runs_mono)

lemma completes_seq: "completes m \<Longrightarrow> completes n \<Longrightarrow> completes (seq_io m n)"
  by (simp add: seq_io_def completes_bind)

lemma completes_seqs: "completes (seqs [])" "completes m \<Longrightarrow> completes (seqs ms) \<Longrightarrow> completes (seqs (m # ms))"
  by (simp_all add: completes_seq)

lemma completes_when: "completes m \<Longrightarrow> completes (when_io b m)"
  by (simp add: when_io_def)

lemma completes_if: "completes m \<Longrightarrow> completes n \<Longrightarrow> completes (if b then m else n)"
  by simp

lemma completes_for: "(\<And>i. completes (g i)) \<Longrightarrow> completes (for_io lo hi g)"
  by (induction lo hi g rule: for_io.induct) (subst for_io.simps, auto intro: completes_seq)

lemmas completes_intros = completes_bind completes_seq completes_seqs completes_when completes_if completes_for completes_prim

section \<open>Code that does not take back accesses\<close>

definition appends :: "'a io \<Rightarrow> bool" where
  "appends m \<longleftrightarrow> (\<forall>s x t. m s = Some (Val x t) \<longrightarrow> (\<exists>es. trace t = es @ trace s))"

lemma appends_prim [simp]: "appends (ret x)" "appends (get_io g)" "appends halt_io" "appends fault_io" "appends (readl a)" "appends (writel v a)"
    "appends (msg str xs)"
  by (auto simp: appends_def ret_def get_io_def halt_io_def fault_io_def readl_def writel_def msg_def Let_def)

lemma appends_modify: "(\<And>s. trace (g s) = trace s) \<Longrightarrow> appends (modify_io g)"
  by (simp add: appends_def modify_io_def)

lemma appends_bind: "appends m \<Longrightarrow> (\<And>x. appends (g x)) \<Longrightarrow> appends (bind_io m g)"
  unfolding appends_def
proof (intro allI impI)
  fix s y t
  assume m: "\<forall>s x t. m s = Some (Val x t) \<longrightarrow> (\<exists>es. trace t = es @ trace s)"
    and g: "\<And>x. \<forall>s y t. g x s = Some (Val y t) \<longrightarrow> (\<exists>es. trace t = es @ trace s)"
    and run: "bind_io m g s = Some (Val y t)"
  from run obtain x u where "m s = Some (Val x u)" "g x u = Some (Val y t)"
    by (auto simp: bind_io_def split: option.splits res.splits)
  with m g obtain es fs where "trace u = es @ trace s" "trace t = fs @ trace u" by blast
  then show "\<exists>es. trace t = es @ trace s" by simp
qed

lemma appends_seq: "appends m \<Longrightarrow> appends n \<Longrightarrow> appends (seq_io m n)"
  by (simp add: seq_io_def appends_bind)

lemma appends_rmw [simp]: "appends (setbits_le32 a m)" "appends (clrbits_le32 a m)"
  by (simp_all add: setbits_le32_def clrbits_le32_def appends_bind)

lemma appends_seqs: "appends (seqs [])" "appends m \<Longrightarrow> appends (seqs ms) \<Longrightarrow> appends (seqs (m # ms))"
  by (simp_all add: appends_seq)

lemma appends_when: "appends m \<Longrightarrow> appends (when_io b m)"
  by (simp add: when_io_def)

lemma appends_if: "appends m \<Longrightarrow> appends n \<Longrightarrow> appends (if b then m else n)"
  by simp

lemmas appends_intros = appends_bind appends_seq appends_seqs appends_when appends_if appends_prim appends_rmw

section \<open>Further rules\<close>

lemma wp_gives: "wp m Q H s \<Longrightarrow> gives m Q s"
  by (simp add: wp_def gives_def split: option.splits res.splits)

lemma runs_keeps: "runs m P s \<Longrightarrow> keeps f m \<Longrightarrow> runs m (\<lambda>x t. P x t \<and> f t = f s) s"
  by (auto simp: runs_iff keeps_def)

lemma runs_seqsI: "runs m (\<lambda>_. P) s \<Longrightarrow> (\<And>t. P t \<Longrightarrow> runs (seqs ms) Q t) \<Longrightarrow> runs (seqs (m # ms)) Q s"
  unfolding runs_seqs_Cons by (erule runs_mono) simp

end
