(* ===== verification/Loops.thy ===== *)
theory Loops imports Machine begin

text \<open>
  Loops with local variables, as values: \<open>fold_io\<close> over a list, and \<open>while_io\<close> with
  \<open>break\<close>, with their rules for partial and for total correctness.
\<close>

section \<open>Operations\<close>

text \<open>\<open>for (i in is) acc = body(i, acc)\<close>\<close>

primrec fold_io :: "('i \<Rightarrow> 'a \<Rightarrow> 'a io) \<Rightarrow> 'i list \<Rightarrow> 'a \<Rightarrow> 'a io" where
  "fold_io f [] x = ret x"
| "fold_io f (i # is) x = bind_io (f i x) (fold_io f is)"

text \<open>
  \<open>while (c) { ... break ... }\<close> over the local variables \<open>x\<close>: the body says whether it left the loop
  with \<open>break\<close>, and so does the loop. \<open>None\<close> if the loop does not end.
\<close>

partial_function (option) while_io ::
  "('a \<Rightarrow> bool) \<Rightarrow> ('a \<Rightarrow> (bool \<times> 'a) io) \<Rightarrow> 'a \<Rightarrow> mach \<Rightarrow> (bool \<times> 'a) res option" where
  "while_io c body x s =
     (if c x then bind_io (body x) (\<lambda>r t. if fst r then ret r t else while_io c body (snd r) t) s
      else ret (False, x) s)"

declare while_io.simps [code]

section \<open>Rules\<close>

lemma while_done: "\<not> c x \<Longrightarrow> while_io c body x = ret (False, x)"
  by (simp add: fun_eq_iff while_io.simps)

lemma while_step: "c x \<Longrightarrow> while_io c body x = bind_io (body x) (\<lambda>r. if fst r then ret r else while_io c body (snd r))"
  by (simp add: fun_eq_iff while_io.simps [of c body x] bind_io_def split: option.splits res.splits)

text \<open>
  The rules of loops: an invariant \<open>I\<close> of the variables and the state, what holds after a
  \<open>break\<close>, and for termination a measure.
\<close>

lemma runs_while:
  assumes "I x s"
    and "\<And>x s. I x s \<Longrightarrow> c x \<Longrightarrow> runs (body x) (\<lambda>r t. if fst r then Out (snd r) t else I (snd r) t \<and> m (snd r) < (m x :: nat)) s"
  shows "runs (while_io c body x) (\<lambda>r t. if fst r then Out (snd r) t else I (snd r) t \<and> \<not> c (snd r)) s"
  using assms(1)
proof (induction "m x" arbitrary: x s rule: less_induct)
  case less
  show ?case
  proof (cases "c x")
    case True
    show ?thesis unfolding while_step [of c, OF True] runs_bind
    proof (rule runs_mono [OF assms(2) [OF less.prems True]])
      fix r t assume "if fst r then Out (snd r) t else I (snd r) t \<and> m (snd r) < m x"
      then show "runs (if fst r then ret r else while_io c body (snd r))
          (\<lambda>r t. if fst r then Out (snd r) t else I (snd r) t \<and> \<not> c (snd r)) t"
        by (cases "fst r") (simp add: runs_ret, use less.hyps [of "snd r" t] in simp)
    qed
  qed (use less.prems in \<open>simp add: while_done runs_ret\<close>)
qed

lemma wp_while:
  assumes "I x s"
    and "\<And>x s. I x s \<Longrightarrow> c x \<Longrightarrow> wp (body x) (\<lambda>r t. if fst r then Out (snd r) t else I (snd r) t) H s"
  shows "wp (while_io c body x) (\<lambda>r t. if fst r then Out (snd r) t else I (snd r) t \<and> \<not> c (snd r)) H s"
proof -
  let ?Q = "\<lambda>r t. if fst r then Out (snd r) t else I (snd r) t \<and> \<not> c (snd r)"
  define ok where "ok = (\<lambda>q. case q of Val r t \<Rightarrow> ?Q r t | Halt t \<Rightarrow> H t | Fault \<Rightarrow> False)"
  let ?P = "\<lambda>c' body' x s q. c' = c \<longrightarrow> body' = body \<longrightarrow> I x s \<longrightarrow> ok q"
  have "?P c body x s q" if run: "while_io c body x s = Some q" for q
  proof (rule while_io.raw_induct [of ?P "(((c, body), x), s)", unfolded prod.case, OF _ run])
    fix wh c' body' x s q
    assume IH: "\<And>c' body' x s q. wh c' body' x s = Some q \<Longrightarrow> ?P c' body' x s q"
      and eq: "(if c' x then bind_io (body' x) (\<lambda>r t. if fst r then ret r t else wh c' body' (snd r) t) s
        else ret (False, x) s) = Some q"
    show "?P c' body' x s q"
    proof (intro impI)
      assume c: "c' = c" "body' = body" and I: "I x s"
      show "ok q"
      proof (cases "c x")
        case True
        from assms(2) [OF I True] eq show ?thesis unfolding c
          by (auto simp: True bind_io_def ret_def ok_def wp_def split: option.splits res.splits if_splits
            dest!: IH)
      qed (use eq c I in \<open>auto simp: ok_def ret_def\<close>)
    qed
  qed
  then show ?thesis using assms(1) by (auto simp: wp_def ok_def split: option.splits res.splits)
qed

lemma runs_fold:
  assumes "I [] x s"
    and "\<And>done i rest x s. is = done @ i # rest \<Longrightarrow> I done x s \<Longrightarrow> runs (f i x) (I (done @ [i])) s"
  shows "runs (fold_io f is x) (I is) s"
proof -
  have "runs (fold_io f rest x) (I (done @ rest)) s" if "is = done @ rest" "I done x s" for "done" rest x s
    using that
  proof (induction rest arbitrary: "done" x s)
    case (Cons i rest)
    then show ?case unfolding fold_io.simps runs_bind
      by (intro runs_mono [OF assms(2) [OF Cons.prems]]) (use Cons.IH [of "done @ [i]"] in simp)
  qed (simp add: runs_ret)
  from this [of "[]"] assms(1) show ?thesis by simp
qed

lemma wp_fold:
  assumes "I x s" and "\<And>i x s. i \<in> set is \<Longrightarrow> I x s \<Longrightarrow> wp (f i x) I H s"
  shows "wp (fold_io f is x) I H s"
  using assms
proof (induction "is" arbitrary: x s)
  case (Cons i rest)
  show ?case unfolding fold_io.simps wp_bind
    by (rule wp_mono, rule Cons.prems(2)) (use Cons in \<open>auto intro: Cons.IH\<close>)
qed (simp add: wp_ret)

end
