(* ===== verification/SeqRegs.thy ===== *)
theory SeqRegs imports SocRegs begin

text \<open>
  The constants of the SDRAM calibration sequencer (board/altera/socfpga/sdram) that the
  modelled code uses: the configuration of \<open>sequencer_defines.h\<close>, the managers'
  registers of \<open>sequencer.h\<close>, the addresses in the instruction memory of the
  read/write manager of \<open>sequencer_auto.h\<close> and the two tables of its contents.
  Leading underscores of the names are dropped. Counts are numbers, the rest are words.
\<close>

section \<open>sequencer_defines.h\<close>

definition AFI_CLK_FREQ :: u32 where [reg_defs]:
  "AFI_CLK_FREQ = 401"

definition AFI_RATE_RATIO :: u32 where [reg_defs]:
  "AFI_RATE_RATIO = 1"

definition CALIB_LFIFO_OFFSET :: u32 where [reg_defs]:
  "CALIB_LFIFO_OFFSET = 12"

definition CALIB_VFIFO_OFFSET :: u32 where [reg_defs]:
  "CALIB_VFIFO_OFFSET = 10"

definition IO_DELAY_PER_DCHAIN_TAP :: u32 where [reg_defs]:
  "IO_DELAY_PER_DCHAIN_TAP = 25"

definition IO_DELAY_PER_DQS_EN_DCHAIN_TAP :: u32 where [reg_defs]:
  "IO_DELAY_PER_DQS_EN_DCHAIN_TAP = 25"

definition IO_DELAY_PER_OPA_TAP :: u32 where [reg_defs]:
  "IO_DELAY_PER_OPA_TAP = 312"

definition IO_DLL_CHAIN_LENGTH :: nat where [reg_defs]:
  "IO_DLL_CHAIN_LENGTH = 8"

definition IO_DM_OUT_RESERVE :: u32 where [reg_defs]:
  "IO_DM_OUT_RESERVE = 0"

definition IO_DQDQS_OUT_PHASE_MAX :: u32 where [reg_defs]:
  "IO_DQDQS_OUT_PHASE_MAX = 0"

definition IO_DQS_EN_DELAY_MAX :: u32 where [reg_defs]:
  "IO_DQS_EN_DELAY_MAX = 31"

definition IO_DQS_EN_DELAY_OFFSET :: u32 where [reg_defs]:
  "IO_DQS_EN_DELAY_OFFSET = 0"

definition IO_DQS_EN_PHASE_MAX :: u32 where [reg_defs]:
  "IO_DQS_EN_PHASE_MAX = 7"

definition IO_DQS_IN_DELAY_MAX :: u32 where [reg_defs]:
  "IO_DQS_IN_DELAY_MAX = 31"

definition IO_DQS_IN_RESERVE :: u32 where [reg_defs]:
  "IO_DQS_IN_RESERVE = 4"

definition IO_DQS_OUT_RESERVE :: u32 where [reg_defs]:
  "IO_DQS_OUT_RESERVE = 4"

definition IO_DQ_OUT_RESERVE :: u32 where [reg_defs]:
  "IO_DQ_OUT_RESERVE = 0"

definition IO_IO_IN_DELAY_MAX :: u32 where [reg_defs]:
  "IO_IO_IN_DELAY_MAX = 31"

definition IO_IO_OUT1_DELAY_MAX :: u32 where [reg_defs]:
  "IO_IO_OUT1_DELAY_MAX = 31"

definition IO_IO_OUT2_DELAY_MAX :: u32 where [reg_defs]:
  "IO_IO_OUT2_DELAY_MAX = 0"

definition MAX_LATENCY_COUNT_WIDTH :: nat where [reg_defs]:
  "MAX_LATENCY_COUNT_WIDTH = 5"

definition NUM_SHADOW_REGS :: nat where [reg_defs]:
  "NUM_SHADOW_REGS = 1"

definition READ_VALID_FIFO_SIZE :: u32 where [reg_defs]:
  "READ_VALID_FIFO_SIZE = 16"

definition REG_FILE_INIT_SEQ_SIGNATURE :: u32 where [reg_defs]:
  "REG_FILE_INIT_SEQ_SIGNATURE = 0x55550483"

definition RW_MGR_MEM_ADDRESS_MIRRORING :: u32 where [reg_defs]:
  "RW_MGR_MEM_ADDRESS_MIRRORING = 0"

definition RW_MGR_MEM_DATA_MASK_WIDTH :: nat where [reg_defs]:
  "RW_MGR_MEM_DATA_MASK_WIDTH = 4"

definition RW_MGR_MEM_DATA_WIDTH :: nat where [reg_defs]:
  "RW_MGR_MEM_DATA_WIDTH = 32"

definition RW_MGR_MEM_DQ_PER_READ_DQS :: nat where [reg_defs]:
  "RW_MGR_MEM_DQ_PER_READ_DQS = 8"

definition RW_MGR_MEM_DQ_PER_WRITE_DQS :: nat where [reg_defs]:
  "RW_MGR_MEM_DQ_PER_WRITE_DQS = 8"

definition RW_MGR_MEM_IF_READ_DQS_WIDTH :: nat where [reg_defs]:
  "RW_MGR_MEM_IF_READ_DQS_WIDTH = 4"

definition RW_MGR_MEM_IF_WRITE_DQS_WIDTH :: nat where [reg_defs]:
  "RW_MGR_MEM_IF_WRITE_DQS_WIDTH = 4"

definition RW_MGR_MEM_NUMBER_OF_RANKS :: nat where [reg_defs]:
  "RW_MGR_MEM_NUMBER_OF_RANKS = 1"

definition RW_MGR_MEM_VIRTUAL_GROUPS_PER_READ_DQS :: nat where [reg_defs]:
  "RW_MGR_MEM_VIRTUAL_GROUPS_PER_READ_DQS = 1"

definition RW_MGR_MEM_VIRTUAL_GROUPS_PER_WRITE_DQS :: nat where [reg_defs]:
  "RW_MGR_MEM_VIRTUAL_GROUPS_PER_WRITE_DQS = 1"

section \<open>system.h\<close>

definition SEQUENCER_SCC_MGR_INST_BASE :: u32 where [reg_defs]:
  "SEQUENCER_SCC_MGR_INST_BASE = 0x58000"

definition SEQUENCER_REG_FILE_INST_BASE :: u32 where [reg_defs]:
  "SEQUENCER_REG_FILE_INST_BASE = 0x70000"

section \<open>sequencer.h\<close>

definition RW_MGR_NUM_DM_PER_WRITE_GROUP :: nat where [reg_defs]:
  "RW_MGR_NUM_DM_PER_WRITE_GROUP = RW_MGR_MEM_DATA_MASK_WIDTH div RW_MGR_MEM_IF_WRITE_DQS_WIDTH"

definition RW_MGR_NUM_DQS_PER_WRITE_GROUP :: nat where [reg_defs]:
  "RW_MGR_NUM_DQS_PER_WRITE_GROUP = RW_MGR_MEM_IF_READ_DQS_WIDTH div RW_MGR_MEM_IF_WRITE_DQS_WIDTH"

definition NUM_RANKS_PER_SHADOW_REG :: nat where [reg_defs]:
  "NUM_RANKS_PER_SHADOW_REG = RW_MGR_MEM_NUMBER_OF_RANKS div NUM_SHADOW_REGS"

definition BASE_RW_MGR :: u32 where [reg_defs]:
  "BASE_RW_MGR = 0x00090000"

definition RW_MGR_RUN_SINGLE_GROUP :: u32 where [reg_defs]:
  "RW_MGR_RUN_SINGLE_GROUP = BASE_RW_MGR"

definition RW_MGR_RUN_ALL_GROUPS :: u32 where [reg_defs]:
  "RW_MGR_RUN_ALL_GROUPS = BASE_RW_MGR + 0x0400"

definition RW_MGR_LOAD_CNTR_0 :: u32 where [reg_defs]:
  "RW_MGR_LOAD_CNTR_0 = BASE_RW_MGR + 0x0800"

definition RW_MGR_LOAD_CNTR_1 :: u32 where [reg_defs]:
  "RW_MGR_LOAD_CNTR_1 = BASE_RW_MGR + 0x0804"

definition RW_MGR_LOAD_CNTR_2 :: u32 where [reg_defs]:
  "RW_MGR_LOAD_CNTR_2 = BASE_RW_MGR + 0x0808"

definition RW_MGR_LOAD_CNTR_3 :: u32 where [reg_defs]:
  "RW_MGR_LOAD_CNTR_3 = BASE_RW_MGR + 0x080c"

definition RW_MGR_LOAD_JUMP_ADD_0 :: u32 where [reg_defs]:
  "RW_MGR_LOAD_JUMP_ADD_0 = BASE_RW_MGR + 0x0c00"

definition RW_MGR_LOAD_JUMP_ADD_1 :: u32 where [reg_defs]:
  "RW_MGR_LOAD_JUMP_ADD_1 = BASE_RW_MGR + 0x0c04"

definition RW_MGR_LOAD_JUMP_ADD_2 :: u32 where [reg_defs]:
  "RW_MGR_LOAD_JUMP_ADD_2 = BASE_RW_MGR + 0x0c08"

definition RW_MGR_LOAD_JUMP_ADD_3 :: u32 where [reg_defs]:
  "RW_MGR_LOAD_JUMP_ADD_3 = BASE_RW_MGR + 0x0c0c"

definition RW_MGR_RESET_READ_DATAPATH :: u32 where [reg_defs]:
  "RW_MGR_RESET_READ_DATAPATH = BASE_RW_MGR + 0x1000"

definition RW_MGR_SET_CS_AND_ODT_MASK :: u32 where [reg_defs]:
  "RW_MGR_SET_CS_AND_ODT_MASK = BASE_RW_MGR + 0x1400"

definition RW_MGR_RANK_ALL :: u32 where [reg_defs]:
  "RW_MGR_RANK_ALL = 0x00"

definition RW_MGR_ODT_MODE_OFF :: u32 where [reg_defs]:
  "RW_MGR_ODT_MODE_OFF = 0"

definition RW_MGR_ODT_MODE_READ_WRITE :: u32 where [reg_defs]:
  "RW_MGR_ODT_MODE_READ_WRITE = 1"

definition NUM_CALIB_REPEAT :: u32 where [reg_defs]:
  "NUM_CALIB_REPEAT = 1"

definition NUM_READ_TESTS :: u32 where [reg_defs]:
  "NUM_READ_TESTS = 7"

definition NUM_READ_PB_TESTS :: u32 where [reg_defs]:
  "NUM_READ_PB_TESTS = 7"

definition PASS_ALL_BITS :: u32 where [reg_defs]:
  "PASS_ALL_BITS = 1"

definition PASS_ONE_BIT :: u32 where [reg_defs]:
  "PASS_ONE_BIT = 0"

definition CAL_STAGE_NIL :: u32 where [reg_defs]:
  "CAL_STAGE_NIL = 0"

definition CAL_STAGE_VFIFO :: u32 where [reg_defs]:
  "CAL_STAGE_VFIFO = 1"

definition CAL_STAGE_LFIFO :: u32 where [reg_defs]:
  "CAL_STAGE_LFIFO = 3"

definition CAL_STAGE_WRITES :: u32 where [reg_defs]:
  "CAL_STAGE_WRITES = 4"

definition CAL_STAGE_VFIFO_AFTER_WRITES :: u32 where [reg_defs]:
  "CAL_STAGE_VFIFO_AFTER_WRITES = 9"

definition CAL_SUBSTAGE_NIL :: u32 where [reg_defs]:
  "CAL_SUBSTAGE_NIL = 0"

definition CAL_SUBSTAGE_GUARANTEED_READ :: u32 where [reg_defs]:
  "CAL_SUBSTAGE_GUARANTEED_READ = 1"

definition CAL_SUBSTAGE_DQS_EN_PHASE :: u32 where [reg_defs]:
  "CAL_SUBSTAGE_DQS_EN_PHASE = 2"

definition CAL_SUBSTAGE_VFIFO_CENTER :: u32 where [reg_defs]:
  "CAL_SUBSTAGE_VFIFO_CENTER = 3"

definition CAL_SUBSTAGE_WRITES_CENTER :: u32 where [reg_defs]:
  "CAL_SUBSTAGE_WRITES_CENTER = 1"

definition CAL_SUBSTAGE_READ_LATENCY :: u32 where [reg_defs]:
  "CAL_SUBSTAGE_READ_LATENCY = 1"

definition VFIFO_SIZE :: u32 where [reg_defs]:
  "VFIFO_SIZE = READ_VALID_FIFO_SIZE"

definition BASE_PHY_MGR :: u32 where [reg_defs]:
  "BASE_PHY_MGR = 0x00088000"

definition BASE_DATA_MGR :: u32 where [reg_defs]:
  "BASE_DATA_MGR = 0x00098000"

definition BASE_SCC_MGR :: u32 where [reg_defs]:
  "BASE_SCC_MGR = SEQUENCER_SCC_MGR_INST_BASE"

definition BASE_REG_FILE :: u32 where [reg_defs]:
  "BASE_REG_FILE = SEQUENCER_REG_FILE_INST_BASE"

definition BASE_MMR :: u32 where [reg_defs]:
  "BASE_MMR = 0x000c0000"

definition REG_FILE_SIGNATURE :: u32 where [reg_defs]:
  "REG_FILE_SIGNATURE = BASE_REG_FILE + 0x0000"

definition REG_FILE_DEBUG_DATA_ADDR :: u32 where [reg_defs]:
  "REG_FILE_DEBUG_DATA_ADDR = BASE_REG_FILE + 0x0004"

definition REG_FILE_CUR_STAGE :: u32 where [reg_defs]:
  "REG_FILE_CUR_STAGE = BASE_REG_FILE + 0x0008"

definition REG_FILE_FOM :: u32 where [reg_defs]:
  "REG_FILE_FOM = BASE_REG_FILE + 0x000c"

definition REG_FILE_FAILING_STAGE :: u32 where [reg_defs]:
  "REG_FILE_FAILING_STAGE = BASE_REG_FILE + 0x0010"

definition REG_FILE_DEBUG1 :: u32 where [reg_defs]:
  "REG_FILE_DEBUG1 = BASE_REG_FILE + 0x0014"

definition REG_FILE_DEBUG2 :: u32 where [reg_defs]:
  "REG_FILE_DEBUG2 = BASE_REG_FILE + 0x0018"

definition REG_FILE_DTAPS_PER_PTAP :: u32 where [reg_defs]:
  "REG_FILE_DTAPS_PER_PTAP = BASE_REG_FILE + 0x001c"

definition REG_FILE_TRK_SAMPLE_COUNT :: u32 where [reg_defs]:
  "REG_FILE_TRK_SAMPLE_COUNT = BASE_REG_FILE + 0x0020"

definition REG_FILE_TRK_LONGIDLE :: u32 where [reg_defs]:
  "REG_FILE_TRK_LONGIDLE = BASE_REG_FILE + 0x0024"

definition REG_FILE_DELAYS :: u32 where [reg_defs]:
  "REG_FILE_DELAYS = BASE_REG_FILE + 0x0028"

definition REG_FILE_TRK_RW_MGR_ADDR :: u32 where [reg_defs]:
  "REG_FILE_TRK_RW_MGR_ADDR = BASE_REG_FILE + 0x002c"

definition REG_FILE_TRK_READ_DQS_WIDTH :: u32 where [reg_defs]:
  "REG_FILE_TRK_READ_DQS_WIDTH = BASE_REG_FILE + 0x0030"

definition REG_FILE_TRK_RFSH :: u32 where [reg_defs]:
  "REG_FILE_TRK_RFSH = BASE_REG_FILE + 0x0034"

definition CTRL_CONFIG_REG :: u32 where [reg_defs]:
  "CTRL_CONFIG_REG = BASE_MMR + 0x0000"

definition PHY_MGR_PHY_RLAT :: u32 where [reg_defs]:
  "PHY_MGR_PHY_RLAT = BASE_PHY_MGR + 0x4000"

definition PHY_MGR_RESET_MEM_STBL :: u32 where [reg_defs]:
  "PHY_MGR_RESET_MEM_STBL = BASE_PHY_MGR + 0x4004"

definition PHY_MGR_MUX_SEL :: u32 where [reg_defs]:
  "PHY_MGR_MUX_SEL = BASE_PHY_MGR + 0x4008"

definition PHY_MGR_CAL_STATUS :: u32 where [reg_defs]:
  "PHY_MGR_CAL_STATUS = BASE_PHY_MGR + 0x400c"

definition PHY_MGR_CAL_DEBUG_INFO :: u32 where [reg_defs]:
  "PHY_MGR_CAL_DEBUG_INFO = BASE_PHY_MGR + 0x4010"

definition PHY_MGR_AFI_WLAT :: u32 where [reg_defs]:
  "PHY_MGR_AFI_WLAT = BASE_PHY_MGR + 0x4018"

definition PHY_MGR_CAL_RESET :: u32 where [reg_defs]:
  "PHY_MGR_CAL_RESET = 0"

definition PHY_MGR_CAL_SUCCESS :: u32 where [reg_defs]:
  "PHY_MGR_CAL_SUCCESS = 1"

definition PHY_MGR_CAL_FAIL :: u32 where [reg_defs]:
  "PHY_MGR_CAL_FAIL = 2"

definition PHY_MGR_CMD_INC_VFIFO_HARD_PHY :: u32 where [reg_defs]:
  "PHY_MGR_CMD_INC_VFIFO_HARD_PHY = BASE_PHY_MGR + 0x0004"

definition PHY_MGR_CMD_FIFO_RESET :: u32 where [reg_defs]:
  "PHY_MGR_CMD_FIFO_RESET = BASE_PHY_MGR + 0x0008"

definition DATA_MGR_MEM_T_WL :: u32 where [reg_defs]:
  "DATA_MGR_MEM_T_WL = BASE_DATA_MGR + 0x0004"

definition DATA_MGR_MEM_T_ADD :: u32 where [reg_defs]:
  "DATA_MGR_MEM_T_ADD = BASE_DATA_MGR + 0x0008"

definition DATA_MGR_MEM_T_RL :: u32 where [reg_defs]:
  "DATA_MGR_MEM_T_RL = BASE_DATA_MGR + 0x000c"

definition MEM_T_WL_ADD :: u32 where [reg_defs]:
  "MEM_T_WL_ADD = DATA_MGR_MEM_T_WL"

definition MEM_T_RL_ADD :: u32 where [reg_defs]:
  "MEM_T_RL_ADD = DATA_MGR_MEM_T_RL"

definition CALIB_SKIP_DELAY_LOOPS :: u32 where [reg_defs]:
  "CALIB_SKIP_DELAY_LOOPS = shl 1 0"

definition CALIB_SKIP_DELAY_SWEEPS :: u32 where [reg_defs]:
  "CALIB_SKIP_DELAY_SWEEPS = shl 1 2"

definition CALIB_SKIP_VFIFO :: u32 where [reg_defs]:
  "CALIB_SKIP_VFIFO = shl 1 3"

definition CALIB_SKIP_LFIFO :: u32 where [reg_defs]:
  "CALIB_SKIP_LFIFO = shl 1 4"

definition CALIB_SKIP_WLEVEL :: u32 where [reg_defs]:
  "CALIB_SKIP_WLEVEL = shl 1 5"

definition CALIB_SKIP_WRITES :: u32 where [reg_defs]:
  "CALIB_SKIP_WRITES = shl 1 6"

definition CALIB_SKIP_FULL_TEST :: u32 where [reg_defs]:
  "CALIB_SKIP_FULL_TEST = shl 1 7"

definition CALIB_SKIP_ALL :: u32 where [reg_defs]:
  "CALIB_SKIP_ALL = (((CALIB_SKIP_VFIFO OR CALIB_SKIP_LFIFO) OR CALIB_SKIP_WLEVEL) OR CALIB_SKIP_WRITES) OR CALIB_SKIP_FULL_TEST"

definition SCC_MGR_GROUP_COUNTER :: u32 where [reg_defs]:
  "SCC_MGR_GROUP_COUNTER = BASE_SCC_MGR + 0x0000"

definition SCC_MGR_DQS_IN_DELAY :: u32 where [reg_defs]:
  "SCC_MGR_DQS_IN_DELAY = BASE_SCC_MGR + 0x0100"

definition SCC_MGR_DQS_EN_PHASE :: u32 where [reg_defs]:
  "SCC_MGR_DQS_EN_PHASE = BASE_SCC_MGR + 0x0200"

definition SCC_MGR_DQS_EN_DELAY :: u32 where [reg_defs]:
  "SCC_MGR_DQS_EN_DELAY = BASE_SCC_MGR + 0x0300"

definition SCC_MGR_DQDQS_OUT_PHASE :: u32 where [reg_defs]:
  "SCC_MGR_DQDQS_OUT_PHASE = BASE_SCC_MGR + 0x0400"

definition SCC_MGR_OCT_OUT1_DELAY :: u32 where [reg_defs]:
  "SCC_MGR_OCT_OUT1_DELAY = BASE_SCC_MGR + 0x0500"

definition SCC_MGR_IO_OUT1_DELAY :: u32 where [reg_defs]:
  "SCC_MGR_IO_OUT1_DELAY = BASE_SCC_MGR + 0x0700"

definition SCC_MGR_IO_IN_DELAY :: u32 where [reg_defs]:
  "SCC_MGR_IO_IN_DELAY = BASE_SCC_MGR + 0x0900"

definition SCC_MGR_HHP_GLOBALS :: u32 where [reg_defs]:
  "SCC_MGR_HHP_GLOBALS = BASE_SCC_MGR + 0x0a00"

definition SCC_MGR_HHP_RFILE :: u32 where [reg_defs]:
  "SCC_MGR_HHP_RFILE = BASE_SCC_MGR + 0x0b00"

definition SCC_MGR_HHP_EXTRAS_OFFSET :: u32 where [reg_defs]:
  "SCC_MGR_HHP_EXTRAS_OFFSET = 0"

definition SCC_MGR_HHP_DQSE_MAP_OFFSET :: u32 where [reg_defs]:
  "SCC_MGR_HHP_DQSE_MAP_OFFSET = 1"

definition SCC_MGR_DQS_ENA :: u32 where [reg_defs]:
  "SCC_MGR_DQS_ENA = BASE_SCC_MGR + 0x0e00"

definition SCC_MGR_DQS_IO_ENA :: u32 where [reg_defs]:
  "SCC_MGR_DQS_IO_ENA = BASE_SCC_MGR + 0x0e04"

definition SCC_MGR_DQ_ENA :: u32 where [reg_defs]:
  "SCC_MGR_DQ_ENA = BASE_SCC_MGR + 0x0e08"

definition SCC_MGR_DM_ENA :: u32 where [reg_defs]:
  "SCC_MGR_DM_ENA = BASE_SCC_MGR + 0x0e0c"

definition SCC_MGR_UPD :: u32 where [reg_defs]:
  "SCC_MGR_UPD = BASE_SCC_MGR + 0x0e20"

definition SCC_MGR_AFI_CAL_INIT :: u32 where [reg_defs]:
  "SCC_MGR_AFI_CAL_INIT = BASE_SCC_MGR + 0x0d00"

definition PHY_DEBUG_IN_DEBUG_MODE :: u32 where [reg_defs]:
  "PHY_DEBUG_IN_DEBUG_MODE = 0x00000001"

definition PHY_DEBUG_ENABLE_CAL_RPT :: u32 where [reg_defs]:
  "PHY_DEBUG_ENABLE_CAL_RPT = 0x00000002"

definition PHY_DEBUG_SWEEP_ALL_GROUPS :: u32 where [reg_defs]:
  "PHY_DEBUG_SWEEP_ALL_GROUPS = 0x00000008"

definition PHY_DEBUG_DISABLE_GUARANTEED_READ :: u32 where [reg_defs]:
  "PHY_DEBUG_DISABLE_GUARANTEED_READ = 0x00000010"

definition RW_MGR_INST_ROM_WRITE :: u32 where [reg_defs]:
  "RW_MGR_INST_ROM_WRITE = BASE_RW_MGR + 0x1800"

definition RW_MGR_AC_ROM_WRITE :: u32 where [reg_defs]:
  "RW_MGR_AC_ROM_WRITE = BASE_RW_MGR + 0x1c00"

section \<open>sdram_io.h\<close>

definition MGR_SELECT_MASK :: u32 where [reg_defs]:
  "MGR_SELECT_MASK = 0xf8000"

definition APB_BASE_SCC_MGR :: u32 where [reg_defs]:
  "APB_BASE_SCC_MGR = SDR_PHYGRP_SCCGRP_ADDRESS"

definition APB_BASE_PHY_MGR :: u32 where [reg_defs]:
  "APB_BASE_PHY_MGR = SDR_PHYGRP_PHYMGRGRP_ADDRESS"

definition APB_BASE_RW_MGR :: u32 where [reg_defs]:
  "APB_BASE_RW_MGR = SDR_PHYGRP_RWMGRGRP_ADDRESS"

definition APB_BASE_DATA_MGR :: u32 where [reg_defs]:
  "APB_BASE_DATA_MGR = SDR_PHYGRP_DATAMGRGRP_ADDRESS"

definition APB_BASE_REG_FILE :: u32 where [reg_defs]:
  "APB_BASE_REG_FILE = SDR_PHYGRP_REGFILEGRP_ADDRESS"

definition APB_BASE_MMR :: u32 where [reg_defs]:
  "APB_BASE_MMR = SDR_CTRLGRP_ADDRESS"

section \<open>sequencer_auto.h\<close>

definition RW_MGR_READ_B2B_WAIT2 :: u32 where [reg_defs]:
  "RW_MGR_READ_B2B_WAIT2 = 0x6a"

definition RW_MGR_LFSR_WR_RD_BANK_0_WAIT :: u32 where [reg_defs]:
  "RW_MGR_LFSR_WR_RD_BANK_0_WAIT = 0x31"

definition RW_MGR_REFRESH_ALL :: u32 where [reg_defs]:
  "RW_MGR_REFRESH_ALL = 0x14"

definition RW_MGR_ZQCL :: u32 where [reg_defs]:
  "RW_MGR_ZQCL = 0x06"

definition RW_MGR_LFSR_WR_RD_BANK_0_NOP :: u32 where [reg_defs]:
  "RW_MGR_LFSR_WR_RD_BANK_0_NOP = 0x22"

definition RW_MGR_LFSR_WR_RD_BANK_0_DQS :: u32 where [reg_defs]:
  "RW_MGR_LFSR_WR_RD_BANK_0_DQS = 0x23"

definition RW_MGR_ACTIVATE_0_AND_1 :: u32 where [reg_defs]:
  "RW_MGR_ACTIVATE_0_AND_1 = 0x0d"

definition RW_MGR_MRS2_MIRR :: u32 where [reg_defs]:
  "RW_MGR_MRS2_MIRR = 0x0a"

definition RW_MGR_INIT_RESET_0_CKE_0 :: u32 where [reg_defs]:
  "RW_MGR_INIT_RESET_0_CKE_0 = 0x6e"

definition RW_MGR_LFSR_WR_RD_DM_BANK_0_WAIT :: u32 where [reg_defs]:
  "RW_MGR_LFSR_WR_RD_DM_BANK_0_WAIT = 0x45"

definition RW_MGR_ACTIVATE_1 :: u32 where [reg_defs]:
  "RW_MGR_ACTIVATE_1 = 0x0f"

definition RW_MGR_MRS2 :: u32 where [reg_defs]:
  "RW_MGR_MRS2 = 0x04"

definition RW_MGR_LFSR_WR_RD_DM_BANK_0_WL_1 :: u32 where [reg_defs]:
  "RW_MGR_LFSR_WR_RD_DM_BANK_0_WL_1 = 0x34"

definition RW_MGR_MRS1 :: u32 where [reg_defs]:
  "RW_MGR_MRS1 = 0x03"

definition RW_MGR_IDLE_LOOP1 :: u32 where [reg_defs]:
  "RW_MGR_IDLE_LOOP1 = 0x7c"

definition RW_MGR_GUARANTEED_WRITE_WAIT2 :: u32 where [reg_defs]:
  "RW_MGR_GUARANTEED_WRITE_WAIT2 = 0x18"

definition RW_MGR_MRS3 :: u32 where [reg_defs]:
  "RW_MGR_MRS3 = 0x05"

definition RW_MGR_IDLE_LOOP2 :: u32 where [reg_defs]:
  "RW_MGR_IDLE_LOOP2 = 0x7b"

definition RW_MGR_GUARANTEED_WRITE_WAIT1 :: u32 where [reg_defs]:
  "RW_MGR_GUARANTEED_WRITE_WAIT1 = 0x1e"

definition RW_MGR_LFSR_WR_RD_BANK_0_DATA :: u32 where [reg_defs]:
  "RW_MGR_LFSR_WR_RD_BANK_0_DATA = 0x24"

definition RW_MGR_GUARANTEED_WRITE_WAIT3 :: u32 where [reg_defs]:
  "RW_MGR_GUARANTEED_WRITE_WAIT3 = 0x1c"

definition RW_MGR_LFSR_WR_RD_DM_BANK_0_NOP :: u32 where [reg_defs]:
  "RW_MGR_LFSR_WR_RD_DM_BANK_0_NOP = 0x36"

definition RW_MGR_GUARANTEED_WRITE_WAIT0 :: u32 where [reg_defs]:
  "RW_MGR_GUARANTEED_WRITE_WAIT0 = 0x1a"

definition RW_MGR_LFSR_WR_RD_DM_BANK_0_DATA :: u32 where [reg_defs]:
  "RW_MGR_LFSR_WR_RD_DM_BANK_0_DATA = 0x38"

definition RW_MGR_GUARANTEED_READ_CONT :: u32 where [reg_defs]:
  "RW_MGR_GUARANTEED_READ_CONT = 0x53"

definition RW_MGR_MRS3_MIRR :: u32 where [reg_defs]:
  "RW_MGR_MRS3_MIRR = 0x0b"

definition RW_MGR_IDLE :: u32 where [reg_defs]:
  "RW_MGR_IDLE = 0x00"

definition RW_MGR_READ_B2B :: u32 where [reg_defs]:
  "RW_MGR_READ_B2B = 0x58"

definition RW_MGR_INIT_RESET_0_CKE_0_inloop :: u32 where [reg_defs]:
  "RW_MGR_INIT_RESET_0_CKE_0_inloop = 0x6f"

definition RW_MGR_LFSR_WR_RD_DM_BANK_0_DQS :: u32 where [reg_defs]:
  "RW_MGR_LFSR_WR_RD_DM_BANK_0_DQS = 0x37"

definition RW_MGR_GUARANTEED_WRITE :: u32 where [reg_defs]:
  "RW_MGR_GUARANTEED_WRITE = 0x17"

definition RW_MGR_PRECHARGE_ALL :: u32 where [reg_defs]:
  "RW_MGR_PRECHARGE_ALL = 0x12"

definition RW_MGR_INIT_RESET_1_CKE_0_inloop_1 :: u32 where [reg_defs]:
  "RW_MGR_INIT_RESET_1_CKE_0_inloop_1 = 0x74"

definition RW_MGR_SGLE_READ :: u32 where [reg_defs]:
  "RW_MGR_SGLE_READ = 0x7e"

definition RW_MGR_MRS0_USER_MIRR :: u32 where [reg_defs]:
  "RW_MGR_MRS0_USER_MIRR = 0x0c"

definition RW_MGR_RETURN :: u32 where [reg_defs]:
  "RW_MGR_RETURN = 0x01"

definition RW_MGR_LFSR_WR_RD_DM_BANK_0 :: u32 where [reg_defs]:
  "RW_MGR_LFSR_WR_RD_DM_BANK_0 = 0x35"

definition RW_MGR_MRS0_USER :: u32 where [reg_defs]:
  "RW_MGR_MRS0_USER = 0x07"

definition RW_MGR_GUARANTEED_READ :: u32 where [reg_defs]:
  "RW_MGR_GUARANTEED_READ = 0x4b"

definition RW_MGR_MRS0_DLL_RESET_MIRR :: u32 where [reg_defs]:
  "RW_MGR_MRS0_DLL_RESET_MIRR = 0x08"

definition RW_MGR_INIT_RESET_1_CKE_0 :: u32 where [reg_defs]:
  "RW_MGR_INIT_RESET_1_CKE_0 = 0x73"

definition RW_MGR_ACTIVATE_0_AND_1_WAIT2 :: u32 where [reg_defs]:
  "RW_MGR_ACTIVATE_0_AND_1_WAIT2 = 0x10"

definition RW_MGR_LFSR_WR_RD_BANK_0_WL_1 :: u32 where [reg_defs]:
  "RW_MGR_LFSR_WR_RD_BANK_0_WL_1 = 0x20"

definition RW_MGR_MRS0_DLL_RESET :: u32 where [reg_defs]:
  "RW_MGR_MRS0_DLL_RESET = 0x02"

definition RW_MGR_ACTIVATE_0_AND_1_WAIT1 :: u32 where [reg_defs]:
  "RW_MGR_ACTIVATE_0_AND_1_WAIT1 = 0x0e"

definition RW_MGR_LFSR_WR_RD_BANK_0 :: u32 where [reg_defs]:
  "RW_MGR_LFSR_WR_RD_BANK_0 = 0x21"

definition RW_MGR_CLEAR_DQS_ENABLE :: u32 where [reg_defs]:
  "RW_MGR_CLEAR_DQS_ENABLE = 0x48"

definition RW_MGR_MRS1_MIRR :: u32 where [reg_defs]:
  "RW_MGR_MRS1_MIRR = 0x09"

definition RW_MGR_READ_B2B_WAIT1 :: u32 where [reg_defs]:
  "RW_MGR_READ_B2B_WAIT1 = 0x60"

section \<open>sequencer.c\<close>

definition DELTA_D :: u32 where [reg_defs]:
  "DELTA_D = 1"

definition STATIC_IN_RTL_SIM :: u32 where [reg_defs]:
  "STATIC_IN_RTL_SIM = 0"

definition STATIC_SKIP_DELAY_LOOPS :: u32 where [reg_defs]:
  "STATIC_SKIP_DELAY_LOOPS = 0"

definition STATIC_CALIB_STEPS :: u32 where [reg_defs]:
  "STATIC_CALIB_STEPS = (STATIC_IN_RTL_SIM OR CALIB_SKIP_FULL_TEST) OR STATIC_SKIP_DELAY_LOOPS"

section \<open>sequencer_auto_inst_init.c\<close>

definition inst_rom_init :: "u32 list" where
  "inst_rom_init = [
    0x80000, 0x80680, 0x8180, 0x8200, 0x8280, 0x8300, 0x8380, 0x8100, 0x8480, 0x8500, 0x8580,
    0x8600, 0x8400, 0x800, 0x8680, 0x880, 0xa680, 0x80680, 0x900, 0x80680, 0x980, 0x8680,
    0x80680, 0xb68, 0xcce8, 0xae8, 0x8ce8, 0xb88, 0xec88, 0xa08, 0xac88, 0x80680, 0xce00,
    0xcd80, 0xe700, 0xc00, 0x20ce0, 0x20ce0, 0x20ce0, 0x20ce0, 0xd00, 0x680, 0x680, 0x680,
    0x680, 0x60e80, 0x61080, 0x61080, 0x61080, 0xa680, 0x8680, 0x80680, 0xce00, 0xcd80,
    0xe700, 0xc00, 0x30ce0, 0x30ce0, 0x30ce0, 0x30ce0, 0xd00, 0x680, 0x680, 0x680, 0x680,
    0x70e80, 0x71080, 0x71080, 0x71080, 0xa680, 0x8680, 0x80680, 0x1158, 0x6d8, 0x80680,
    0x1168, 0x7e8, 0x7e8, 0x87e8, 0x40fe8, 0x410e8, 0x410e8, 0x410e8, 0x1168, 0x7e8, 0x7e8,
    0xa7e8, 0x80680, 0x40e88, 0x41088, 0x41088, 0x41088, 0x40f68, 0x410e8, 0x410e8, 0x410e8,
    0xa680, 0x40fe8, 0x410e8, 0x410e8, 0x410e8, 0x41008, 0x41088, 0x41088, 0x41088, 0x1100,
    0xc680, 0x8680, 0xe680, 0x80680, 0, 0, 0xa000, 0x8000, 0x80000, 0x80, 0x80, 0x80, 0x80,
    0xa080, 0x8080, 0x80080, 0x9180, 0x8680, 0xa680, 0x80680, 0x40f08, 0x80680]"

section \<open>sequencer_auto_ac_init.c\<close>

definition ac_rom_init :: "u32 list" where
  "ac_rom_init = [
    0x20700000, 0x20780000, 0x10080471, 0x10080570, 0x10090006, 0x100a0218, 0x100b0000,
    0x10380400, 0x10080469, 0x100804e8, 0x100a0006, 0x10090218, 0x100b0000, 0x30780000,
    0x38780000, 0x30780000, 0x10680000, 0x106b0000, 0x10280400, 0x10480000, 0x1c980000,
    0x1c9b0000, 0x1c980008, 0x1c9b0008, 0x38f80000, 0x3cf80000, 0x38780000, 0x18180000,
    0x18980000, 0x13580000, 0x135b0000, 0x13580008, 0x135b0008, 0x33780000, 0x10580008,
    0x10780000]"

end
