(* ===== verification/SccManager.thy ===== *)
theory SccManager imports Loops SeqRegs begin

text \<open>
  The calibration sequencer (board/altera/socfpga/sdram/sequencer.c), first part: access to
  the managers of the PHY (\<open>sdram_io.h\<close>), the register file that shows the progress, and
  the scan chain manager, which holds the delay and phase settings of the I/O pins. The
  interface has one rank, four groups of eight data pins with one mask pin each, and hard
  PHY and FIFOs; what \<open>sequencer_defines.h\<close> switches off is not compiled. \<open>DPRINT\<close> is
  empty at debug level 0, and the TCL report is not compiled. Groups and pins are numbers.
\<close>

named_theorems scc_defs "the operations of the scan chain manager"

section \<open>Registers\<close>

definition AVL_TO_APB :: "u32 \<Rightarrow> u32" where
  "AVL_TO_APB addr =
    (if addr AND MGR_SELECT_MASK = BASE_PHY_MGR then
       APB_BASE_PHY_MGR OR (shr addr (14 - 6) AND shl 0x1 6) OR (addr AND 0x3f)
     else if addr AND MGR_SELECT_MASK = BASE_RW_MGR then APB_BASE_RW_MGR OR (addr AND 0x1fff)
     else if addr AND MGR_SELECT_MASK = BASE_DATA_MGR then APB_BASE_DATA_MGR OR (addr AND 0x7ff)
     else if addr AND MGR_SELECT_MASK = BASE_SCC_MGR then APB_BASE_SCC_MGR OR (addr AND 0xfff)
     else if addr AND MGR_SELECT_MASK = BASE_REG_FILE then APB_BASE_REG_FILE OR (addr AND 0x7ff)
     else if addr AND MGR_SELECT_MASK = BASE_MMR then APB_BASE_MMR OR (addr AND 0xfff)
     else - 1)"

text \<open>The address on the bus of register \<open>off\<close> of \<open>base\<close>.\<close>

definition apb :: "u32 \<Rightarrow> u32 \<Rightarrow> u32" where
  "apb base off = CONFIG_SDRAM_CONTROLLER + AVL_TO_APB (base + off)"

definition IOWR_32DIRECT :: "u32 \<Rightarrow> u32 \<Rightarrow> u32 \<Rightarrow> unit io" where
  "IOWR_32DIRECT base off d = writel d (apb base off)"

definition IORD_32DIRECT :: "u32 \<Rightarrow> u32 \<Rightarrow> u32 io" where
  "IORD_32DIRECT base off = readl (apb base off)"

text \<open>\<open>IPRINT\<close>\<close>

definition IPRINT :: "string \<Rightarrow> unit io" where
  "IPRINT f = msg (''SEQ.C: '' @ f) []"

section \<open>Progress\<close>

definition modify_gbl :: "(gbl_t \<Rightarrow> gbl_t) \<Rightarrow> unit io" where
  "modify_gbl f = modify_io (\<lambda>s. s\<lparr>gbl := f (gbl s)\<rparr>)"

definition modify_param :: "(param_t \<Rightarrow> param_t) \<Rightarrow> unit io" where
  "modify_param f = modify_io (\<lambda>s. s\<lparr>param := f (param s)\<rparr>)"

definition set_failing_group_stage :: "u32 \<Rightarrow> u32 \<Rightarrow> u32 \<Rightarrow> unit io" where
  "set_failing_group_stage grp stage substage =
     bind_io (get_io (\<lambda>s. error_stage (gbl s))) (\<lambda>e. when_io (e = CAL_STAGE_NIL)
       (modify_gbl (\<lambda>g. g\<lparr>error_substage := substage, error_stage := stage, error_group := grp\<rparr>)))"

definition reg_file_set_group :: "u32 \<Rightarrow> unit io" where [scc_defs]:
  "reg_file_set_group set_group = bind_io (IORD_32DIRECT REG_FILE_CUR_STAGE 0) (\<lambda>cur_stage_group.
     IOWR_32DIRECT REG_FILE_CUR_STAGE 0 ((cur_stage_group AND 0x0000FFFF) OR shl set_group 16))"

definition reg_file_set_stage :: "u32 \<Rightarrow> unit io" where [scc_defs]:
  "reg_file_set_stage set_stage = bind_io (IORD_32DIRECT REG_FILE_CUR_STAGE 0) (\<lambda>cur_stage_group.
     IOWR_32DIRECT REG_FILE_CUR_STAGE 0 ((cur_stage_group AND 0xFFFF0000) OR (set_stage AND 0x000000FF)))"

definition reg_file_set_sub_stage :: "u32 \<Rightarrow> unit io" where [scc_defs]:
  "reg_file_set_sub_stage set_sub_stage = bind_io (IORD_32DIRECT REG_FILE_CUR_STAGE 0) (\<lambda>cur_stage_group.
     IOWR_32DIRECT REG_FILE_CUR_STAGE 0
       ((cur_stage_group AND 0xFFFF00FF) OR (shl set_sub_stage 8 AND 0x0000FF00)))"

section \<open>Settings\<close>

text \<open>Shadow registers exist on other devices only; here the body is empty.\<close>

definition select_shadow_regs_for_update :: "nat \<Rightarrow> nat \<Rightarrow> bool \<Rightarrow> unit io" where [scc_defs]:
  "select_shadow_regs_for_update rank grp update_scan_chains = ret ()"

definition scc_mgr_initialize :: "unit io" where [scc_defs]:
  "scc_mgr_initialize = for_io 0 16 (\<lambda>i. IOWR_32DIRECT SCC_MGR_HHP_RFILE (shl (of_nat i) 2) 0)"

text \<open>Pins after the data pins of a group: the strobe, then the masks.\<close>

definition WRITE_SCC_DQS_IN_DELAY :: "nat \<Rightarrow> u32 \<Rightarrow> unit io" where [scc_defs]:
  "WRITE_SCC_DQS_IN_DELAY grp d = IOWR_32DIRECT SCC_MGR_DQS_IN_DELAY (shl (of_nat grp) 2) d"

definition WRITE_SCC_DQS_EN_DELAY :: "nat \<Rightarrow> u32 \<Rightarrow> unit io" where [scc_defs]:
  "WRITE_SCC_DQS_EN_DELAY grp d =
     IOWR_32DIRECT SCC_MGR_DQS_EN_DELAY (shl (of_nat grp) 2) (d + IO_DQS_EN_DELAY_OFFSET)"

definition WRITE_SCC_DQS_EN_PHASE :: "nat \<Rightarrow> u32 \<Rightarrow> unit io" where [scc_defs]:
  "WRITE_SCC_DQS_EN_PHASE grp phase = IOWR_32DIRECT SCC_MGR_DQS_EN_PHASE (shl (of_nat grp) 2) phase"

definition WRITE_SCC_DQDQS_OUT_PHASE :: "nat \<Rightarrow> u32 \<Rightarrow> unit io" where [scc_defs]:
  "WRITE_SCC_DQDQS_OUT_PHASE grp phase =
     IOWR_32DIRECT SCC_MGR_DQDQS_OUT_PHASE (shl (of_nat grp) 2) phase"

definition WRITE_SCC_OCT_OUT1_DELAY :: "nat \<Rightarrow> u32 \<Rightarrow> unit io" where [scc_defs]:
  "WRITE_SCC_OCT_OUT1_DELAY grp d = IOWR_32DIRECT SCC_MGR_OCT_OUT1_DELAY (shl (of_nat grp) 2) d"

definition WRITE_SCC_DQ_OUT1_DELAY :: "nat \<Rightarrow> u32 \<Rightarrow> unit io" where [scc_defs]:
  "WRITE_SCC_DQ_OUT1_DELAY pin d = IOWR_32DIRECT SCC_MGR_IO_OUT1_DELAY (shl (of_nat pin) 2) d"

definition WRITE_SCC_DQ_IN_DELAY :: "nat \<Rightarrow> u32 \<Rightarrow> unit io" where [scc_defs]:
  "WRITE_SCC_DQ_IN_DELAY pin d = IOWR_32DIRECT SCC_MGR_IO_IN_DELAY (shl (of_nat pin) 2) d"

definition WRITE_SCC_DQS_IO_OUT1_DELAY :: "u32 \<Rightarrow> unit io" where [scc_defs]:
  "WRITE_SCC_DQS_IO_OUT1_DELAY d =
     IOWR_32DIRECT SCC_MGR_IO_OUT1_DELAY (shl (of_nat RW_MGR_MEM_DQ_PER_WRITE_DQS) 2) d"

definition WRITE_SCC_DQS_IO_IN_DELAY :: "u32 \<Rightarrow> unit io" where [scc_defs]:
  "WRITE_SCC_DQS_IO_IN_DELAY d =
     IOWR_32DIRECT SCC_MGR_IO_IN_DELAY (shl (of_nat RW_MGR_MEM_DQ_PER_WRITE_DQS) 2) d"

definition WRITE_SCC_DM_IO_OUT1_DELAY :: "nat \<Rightarrow> u32 \<Rightarrow> unit io" where [scc_defs]:
  "WRITE_SCC_DM_IO_OUT1_DELAY pin d =
     IOWR_32DIRECT SCC_MGR_IO_OUT1_DELAY (shl (of_nat (RW_MGR_MEM_DQ_PER_WRITE_DQS + 1 + pin)) 2) d"

definition WRITE_SCC_DM_IO_IN_DELAY :: "nat \<Rightarrow> u32 \<Rightarrow> unit io" where [scc_defs]:
  "WRITE_SCC_DM_IO_IN_DELAY pin d =
     IOWR_32DIRECT SCC_MGR_IO_IN_DELAY (shl (of_nat (RW_MGR_MEM_DQ_PER_WRITE_DQS + 1 + pin)) 2) d"

definition WRITE_SCC_HHP_EXTRAS :: "u32 \<Rightarrow> unit io" where [scc_defs]:
  "WRITE_SCC_HHP_EXTRAS value = IOWR_32DIRECT SCC_MGR_HHP_GLOBALS SCC_MGR_HHP_EXTRAS_OFFSET value"

definition WRITE_SCC_HHP_DQSE_MAP :: "u32 \<Rightarrow> unit io" where [scc_defs]:
  "WRITE_SCC_HHP_DQSE_MAP value = IOWR_32DIRECT SCC_MGR_HHP_GLOBALS SCC_MGR_HHP_DQSE_MAP_OFFSET value"

definition READ_SCC_DQS_IN_DELAY :: "nat \<Rightarrow> u32 io" where [scc_defs]:
  "READ_SCC_DQS_IN_DELAY grp = IORD_32DIRECT SCC_MGR_DQS_IN_DELAY (shl (of_nat grp) 2)"

definition READ_SCC_DQ_OUT1_DELAY :: "nat \<Rightarrow> u32 io" where [scc_defs]:
  "READ_SCC_DQ_OUT1_DELAY pin = IORD_32DIRECT SCC_MGR_IO_OUT1_DELAY (shl (of_nat pin) 2)"

definition READ_SCC_DQ_IN_DELAY :: "nat \<Rightarrow> u32 io" where [scc_defs]:
  "READ_SCC_DQ_IN_DELAY pin = IORD_32DIRECT SCC_MGR_IO_IN_DELAY (shl (of_nat pin) 2)"

definition READ_SCC_DQS_IO_OUT1_DELAY :: "u32 io" where [scc_defs]:
  "READ_SCC_DQS_IO_OUT1_DELAY =
     IORD_32DIRECT SCC_MGR_IO_OUT1_DELAY (shl (of_nat RW_MGR_MEM_DQ_PER_WRITE_DQS) 2)"

text \<open>This device has no second output delay: it is read as 0, and writing it does nothing.\<close>

definition READ_SCC_OUT2_DELAY :: u32 where
  "READ_SCC_OUT2_DELAY = 0"

definition scc_mgr_set_dqs_bus_in_delay :: "nat \<Rightarrow> u32 \<Rightarrow> unit io" where [scc_defs]:
  "scc_mgr_set_dqs_bus_in_delay read_group d = WRITE_SCC_DQS_IN_DELAY read_group d"

definition scc_mgr_set_dqs_io_in_delay :: "nat \<Rightarrow> u32 \<Rightarrow> unit io" where [scc_defs]:
  "scc_mgr_set_dqs_io_in_delay write_group d = WRITE_SCC_DQS_IO_IN_DELAY d"

definition scc_mgr_set_dqs_en_phase :: "nat \<Rightarrow> u32 \<Rightarrow> unit io" where [scc_defs]:
  "scc_mgr_set_dqs_en_phase read_group phase = WRITE_SCC_DQS_EN_PHASE read_group phase"

text \<open>\<open>for (r = 0; r < RW_MGR_MEM_NUMBER_OF_RANKS; r += NUM_RANKS_PER_SHADOW_REG)\<close>\<close>

definition shadow_ranks :: "nat list" where
  "shadow_ranks = map ((*) NUM_RANKS_PER_SHADOW_REG) [0..<NUM_SHADOW_REGS]"

definition for_ranks :: "(nat \<Rightarrow> unit io) \<Rightarrow> unit io" where [scc_defs]:
  "for_ranks body = seqs (map body shadow_ranks)"

definition scc_mgr_set_dqs_en_phase_all_ranks :: "nat \<Rightarrow> u32 \<Rightarrow> unit io" where [scc_defs]:
  "scc_mgr_set_dqs_en_phase_all_ranks read_group phase = for_ranks (\<lambda>r. seqs [
     select_shadow_regs_for_update r read_group (r = 0),
     scc_mgr_set_dqs_en_phase read_group phase,
     when_io (r = 0) (seqs [
       IOWR_32DIRECT SCC_MGR_DQS_ENA 0 (of_nat read_group),
       IOWR_32DIRECT SCC_MGR_UPD 0 0])])"

definition scc_mgr_set_dqdqs_output_phase :: "nat \<Rightarrow> u32 \<Rightarrow> unit io" where [scc_defs]:
  "scc_mgr_set_dqdqs_output_phase write_group phase = WRITE_SCC_DQDQS_OUT_PHASE write_group phase"

definition scc_mgr_set_dqdqs_output_phase_all_ranks :: "nat \<Rightarrow> u32 \<Rightarrow> unit io" where [scc_defs]:
  "scc_mgr_set_dqdqs_output_phase_all_ranks write_group phase = for_ranks (\<lambda>r. seqs [
     select_shadow_regs_for_update r write_group (r = 0),
     scc_mgr_set_dqdqs_output_phase write_group phase,
     when_io (r = 0) (seqs [
       IOWR_32DIRECT SCC_MGR_DQS_ENA 0 (of_nat write_group),
       IOWR_32DIRECT SCC_MGR_UPD 0 0])])"

definition scc_mgr_set_dqs_en_delay :: "nat \<Rightarrow> u32 \<Rightarrow> unit io" where [scc_defs]:
  "scc_mgr_set_dqs_en_delay read_group d = WRITE_SCC_DQS_EN_DELAY read_group d"

definition scc_mgr_set_dqs_en_delay_all_ranks :: "nat \<Rightarrow> u32 \<Rightarrow> unit io" where [scc_defs]:
  "scc_mgr_set_dqs_en_delay_all_ranks read_group d = for_ranks (\<lambda>r. seqs [
     select_shadow_regs_for_update r read_group False,
     scc_mgr_set_dqs_en_delay read_group d,
     IOWR_32DIRECT SCC_MGR_DQS_ENA 0 (of_nat read_group),
     IOWR_32DIRECT SCC_MGR_UPD 0 0])"

text \<open>The read groups of a write group.\<close>

definition first_read_group :: "nat \<Rightarrow> nat" where
  "first_read_group write_group = write_group * RW_MGR_MEM_IF_READ_DQS_WIDTH div RW_MGR_MEM_IF_WRITE_DQS_WIDTH"

definition scc_mgr_set_oct_out1_delay :: "nat \<Rightarrow> u32 \<Rightarrow> unit io" where [scc_defs]:
  "scc_mgr_set_oct_out1_delay write_group d =
     for_io (first_read_group write_group) (first_read_group (write_group + 1))
       (\<lambda>read_group. WRITE_SCC_OCT_OUT1_DELAY read_group d)"

definition scc_mgr_set_dq_out1_delay :: "nat \<Rightarrow> nat \<Rightarrow> u32 \<Rightarrow> unit io" where [scc_defs]:
  "scc_mgr_set_dq_out1_delay write_group dq_in_group d = WRITE_SCC_DQ_OUT1_DELAY dq_in_group d"

definition scc_mgr_set_dq_in_delay :: "nat \<Rightarrow> nat \<Rightarrow> u32 \<Rightarrow> unit io" where [scc_defs]:
  "scc_mgr_set_dq_in_delay write_group dq_in_group d = WRITE_SCC_DQ_IN_DELAY dq_in_group d"

text \<open>The setters of the delays this device does not have.\<close>

definition scc_mgr_set_oct_out2_delay :: "nat \<Rightarrow> u32 \<Rightarrow> unit io" where [scc_defs]:
  "scc_mgr_set_oct_out2_delay write_group d = ret ()"

definition scc_mgr_set_dq_out2_delay :: "nat \<Rightarrow> nat \<Rightarrow> u32 \<Rightarrow> unit io" where [scc_defs]:
  "scc_mgr_set_dq_out2_delay write_group dq_in_group d = ret ()"

definition scc_mgr_set_dqs_out2_delay :: "nat \<Rightarrow> u32 \<Rightarrow> unit io" where [scc_defs]:
  "scc_mgr_set_dqs_out2_delay write_group d = ret ()"

definition scc_mgr_set_dm_out2_delay :: "nat \<Rightarrow> nat \<Rightarrow> u32 \<Rightarrow> unit io" where [scc_defs]:
  "scc_mgr_set_dm_out2_delay write_group dm d = ret ()"

definition scc_mgr_set_hhp_extras :: "unit io" where [scc_defs]:
  "scc_mgr_set_hhp_extras = WRITE_SCC_HHP_EXTRAS (shl 0 8 OR shl 0 7 OR shl 1 5 OR shl 1 2 OR shl 1 1 OR shl 1 0)"

definition scc_mgr_set_hhp_dqse_map :: "unit io" where [scc_defs]:
  "scc_mgr_set_hhp_dqse_map = WRITE_SCC_HHP_DQSE_MAP 0"

definition scc_mgr_set_dqs_out1_delay :: "nat \<Rightarrow> u32 \<Rightarrow> unit io" where [scc_defs]:
  "scc_mgr_set_dqs_out1_delay write_group d = WRITE_SCC_DQS_IO_OUT1_DELAY d"

definition scc_mgr_set_dm_out1_delay :: "nat \<Rightarrow> nat \<Rightarrow> u32 \<Rightarrow> unit io" where [scc_defs]:
  "scc_mgr_set_dm_out1_delay write_group dm d = WRITE_SCC_DM_IO_OUT1_DELAY dm d"

definition scc_mgr_set_dm_in_delay :: "nat \<Rightarrow> nat \<Rightarrow> u32 \<Rightarrow> unit io" where [scc_defs]:
  "scc_mgr_set_dm_in_delay write_group dm d = WRITE_SCC_DM_IO_IN_DELAY dm d"

section \<open>Groups\<close>

definition scc_mgr_load_dqs :: "nat \<Rightarrow> unit io" where [scc_defs]:
  "scc_mgr_load_dqs dqs = IOWR_32DIRECT SCC_MGR_DQS_ENA 0 (of_nat dqs)"

definition scc_mgr_load_dqs_for_write_group :: "nat \<Rightarrow> unit io" where [scc_defs]:
  "scc_mgr_load_dqs_for_write_group write_group =
     for_io (first_read_group write_group) (first_read_group (write_group + 1))
       (\<lambda>read_group. IOWR_32DIRECT SCC_MGR_DQS_ENA 0 (of_nat read_group))"

definition scc_mgr_load_dqs_io :: "unit io" where [scc_defs]:
  "scc_mgr_load_dqs_io = IOWR_32DIRECT SCC_MGR_DQS_IO_ENA 0 0"

definition scc_mgr_load_dq :: "nat \<Rightarrow> unit io" where [scc_defs]:
  "scc_mgr_load_dq dq_in_group = IOWR_32DIRECT SCC_MGR_DQ_ENA 0 (of_nat dq_in_group)"

definition scc_mgr_load_dm :: "nat \<Rightarrow> unit io" where [scc_defs]:
  "scc_mgr_load_dm dm = IOWR_32DIRECT SCC_MGR_DM_ENA 0 (of_nat dm)"

definition scc_mgr_zero_all :: "unit io" where [scc_defs]:
  "scc_mgr_zero_all = for_ranks (\<lambda>r. seqs [
     select_shadow_regs_for_update r 0 True,
     for_io 0 RW_MGR_MEM_IF_READ_DQS_WIDTH (\<lambda>i. seqs [
       scc_mgr_set_dqs_bus_in_delay i IO_DQS_IN_RESERVE,
       scc_mgr_set_dqs_en_phase i 0,
       scc_mgr_set_dqs_en_delay i 0]),
     for_io 0 RW_MGR_MEM_IF_WRITE_DQS_WIDTH (\<lambda>i. seqs [
       scc_mgr_set_dqdqs_output_phase i 0,
       scc_mgr_set_oct_out1_delay i IO_DQS_OUT_RESERVE]),
     IOWR_32DIRECT SCC_MGR_DQS_ENA 0 0xff,
     IOWR_32DIRECT SCC_MGR_UPD 0 0])"

definition scc_set_bypass_mode :: "nat \<Rightarrow> u32 \<Rightarrow> unit io" where [scc_defs]:
  "scc_set_bypass_mode write_group mode = seqs [
     when_io (write_group = 0) scc_mgr_set_hhp_extras,
     IOWR_32DIRECT SCC_MGR_DQ_ENA 0 0xff,
     IOWR_32DIRECT SCC_MGR_DM_ENA 0 0xff,
     IOWR_32DIRECT SCC_MGR_DQS_IO_ENA 0 0,
     IOWR_32DIRECT SCC_MGR_DQS_ENA 0 (of_nat write_group),
     IOWR_32DIRECT SCC_MGR_UPD 0 0]"

definition scc_mgr_zero_group :: "nat \<Rightarrow> nat \<Rightarrow> bool \<Rightarrow> unit io" where [scc_defs]:
  "scc_mgr_zero_group write_group test_begin out_only = for_ranks (\<lambda>r. seqs [
     select_shadow_regs_for_update r write_group True,
     for_io 0 RW_MGR_MEM_DQ_PER_WRITE_DQS (\<lambda>i. seqs [
       scc_mgr_set_dq_out1_delay write_group i 0,
       scc_mgr_set_dq_out2_delay write_group i IO_DQ_OUT_RESERVE,
       when_io (\<not> out_only) (scc_mgr_set_dq_in_delay write_group i 0)]),
     IOWR_32DIRECT SCC_MGR_DQ_ENA 0 0xff,
     for_io 0 RW_MGR_NUM_DM_PER_WRITE_GROUP (\<lambda>i. seqs [
       when_io (\<not> out_only) (scc_mgr_set_dm_in_delay write_group i 0),
       scc_mgr_set_dm_out1_delay write_group i 0,
       scc_mgr_set_dm_out2_delay write_group i IO_DM_OUT_RESERVE]),
     IOWR_32DIRECT SCC_MGR_DM_ENA 0 0xff,
     when_io (\<not> out_only) (scc_mgr_set_dqs_io_in_delay write_group 0),
     scc_mgr_set_dqs_out1_delay write_group IO_DQS_OUT_RESERVE,
     scc_mgr_set_oct_out1_delay write_group IO_DQS_OUT_RESERVE,
     scc_mgr_load_dqs_for_write_group write_group,
     IOWR_32DIRECT SCC_MGR_DQS_IO_ENA 0 0,
     IOWR_32DIRECT SCC_MGR_UPD 0 0])"

definition scc_mgr_apply_group_dq_in_delay :: "nat \<Rightarrow> nat \<Rightarrow> u32 \<Rightarrow> unit io" where [scc_defs]:
  "scc_mgr_apply_group_dq_in_delay write_group group_bgn d =
     for_io 0 RW_MGR_MEM_DQ_PER_READ_DQS (\<lambda>i. seqs [
       scc_mgr_set_dq_in_delay write_group (group_bgn + i) d,
       scc_mgr_load_dq (group_bgn + i)])"

definition scc_mgr_apply_group_dq_out1_delay :: "nat \<Rightarrow> nat \<Rightarrow> u32 \<Rightarrow> unit io" where [scc_defs]:
  "scc_mgr_apply_group_dq_out1_delay write_group group_bgn delay1 =
     for_io 0 RW_MGR_MEM_DQ_PER_WRITE_DQS (\<lambda>i. seqs [
       scc_mgr_set_dq_out1_delay write_group i delay1,
       scc_mgr_load_dq i])"

definition scc_mgr_apply_group_dq_out2_delay :: "nat \<Rightarrow> nat \<Rightarrow> u32 \<Rightarrow> unit io" where [scc_defs]:
  "scc_mgr_apply_group_dq_out2_delay write_group group_bgn delay2 =
     for_io 0 RW_MGR_MEM_DQ_PER_WRITE_DQS (\<lambda>i. seqs [
       scc_mgr_set_dq_out2_delay write_group i delay2,
       scc_mgr_load_dq i])"

definition scc_mgr_apply_group_dm_out1_delay :: "nat \<Rightarrow> u32 \<Rightarrow> unit io" where [scc_defs]:
  "scc_mgr_apply_group_dm_out1_delay write_group delay1 =
     for_io 0 RW_MGR_NUM_DM_PER_WRITE_GROUP (\<lambda>i. seqs [
       scc_mgr_set_dm_out1_delay write_group i delay1,
       scc_mgr_load_dm i])"

definition scc_mgr_apply_group_dqs_io_and_oct_out1 :: "nat \<Rightarrow> u32 \<Rightarrow> unit io" where [scc_defs]:
  "scc_mgr_apply_group_dqs_io_and_oct_out1 write_group d = seqs [
     scc_mgr_set_dqs_out1_delay write_group d,
     scc_mgr_load_dqs_io,
     scc_mgr_set_oct_out1_delay write_group d,
     scc_mgr_load_dqs_for_write_group write_group]"

text \<open>One step at a time, down and then up.\<close>

definition scc_mgr_set_group_dqs_io_and_oct_out1_gradual :: "nat \<Rightarrow> u32 \<Rightarrow> unit io" where
  "scc_mgr_set_group_dqs_io_and_oct_out1_gradual write_group target =
     (let set = (\<lambda>d. seq_io (scc_mgr_apply_group_dqs_io_and_oct_out1 write_group d)
        (seq_io (IOWR_32DIRECT SCC_MGR_UPD 0 0) (ret (False, d)))) in
     bind_io READ_SCC_DQS_IO_OUT1_DELAY (\<lambda>d.
     bind_io (while_io (\<lambda>d. target < d) (\<lambda>d. set (d - 1)) d) (\<lambda>(_, d).
     bind_io (while_io (\<lambda>d. d < target) (\<lambda>d. set (d + 1)) d) (\<lambda>_. ret ()))))"

definition scc_mgr_apply_group_all_out_delay :: "nat \<Rightarrow> nat \<Rightarrow> u32 \<Rightarrow> unit io" where [scc_defs]:
  "scc_mgr_apply_group_all_out_delay write_group group_bgn d = seqs [
     scc_mgr_apply_group_dq_out1_delay write_group group_bgn d,
     scc_mgr_apply_group_dm_out1_delay write_group d,
     scc_mgr_apply_group_dqs_io_and_oct_out1 write_group d]"

definition scc_mgr_apply_group_all_out_delay_all_ranks :: "nat \<Rightarrow> nat \<Rightarrow> u32 \<Rightarrow> unit io" where [scc_defs]:
  "scc_mgr_apply_group_all_out_delay_all_ranks write_group group_bgn d = for_ranks (\<lambda>r. seqs [
     select_shadow_regs_for_update r write_group True,
     scc_mgr_apply_group_all_out_delay write_group group_bgn d,
     IOWR_32DIRECT SCC_MGR_UPD 0 0])"

text \<open>\<open>if (new_delay > IO_IO_OUT2_DELAY_MAX) { ...; new_delay = IO_IO_OUT2_DELAY_MAX; }\<close>\<close>

definition out2_capped :: "u32 \<Rightarrow> u32" where
  "out2_capped new_delay = (if IO_IO_OUT2_DELAY_MAX < new_delay then IO_IO_OUT2_DELAY_MAX else new_delay)"

definition scc_mgr_apply_group_all_out_delay_add :: "nat \<Rightarrow> nat \<Rightarrow> u32 \<Rightarrow> unit io" where [scc_defs]:
  "scc_mgr_apply_group_all_out_delay_add write_group group_bgn d =
     (let new_delay = READ_SCC_OUT2_DELAY + d in seqs [
       for_io 0 RW_MGR_MEM_DQ_PER_WRITE_DQS (\<lambda>i. seqs [
         scc_mgr_set_dq_out2_delay write_group i (out2_capped new_delay),
         scc_mgr_load_dq i]),
       for_io 0 RW_MGR_NUM_DM_PER_WRITE_GROUP (\<lambda>i. seqs [
         scc_mgr_set_dm_out2_delay write_group i (out2_capped new_delay),
         scc_mgr_load_dm i]),
       when_io (IO_IO_OUT2_DELAY_MAX < new_delay)
         (scc_mgr_set_dqs_out1_delay write_group (new_delay - IO_IO_OUT2_DELAY_MAX)),
       scc_mgr_set_dqs_out2_delay write_group (out2_capped new_delay),
       scc_mgr_load_dqs_io,
       when_io (IO_IO_OUT2_DELAY_MAX < new_delay)
         (scc_mgr_set_oct_out1_delay write_group (new_delay - IO_IO_OUT2_DELAY_MAX)),
       scc_mgr_set_oct_out2_delay write_group (out2_capped new_delay),
       scc_mgr_load_dqs_for_write_group write_group])"

definition scc_mgr_apply_group_all_out_delay_add_all_ranks :: "nat \<Rightarrow> nat \<Rightarrow> u32 \<Rightarrow> unit io" where [scc_defs]:
  "scc_mgr_apply_group_all_out_delay_add_all_ranks write_group group_bgn d = for_ranks (\<lambda>r. seqs [
     select_shadow_regs_for_update r write_group True,
     scc_mgr_apply_group_all_out_delay_add write_group group_bgn d,
     IOWR_32DIRECT SCC_MGR_UPD 0 0])"

end
