(* ===== verification/RwManager.thy ===== *)
theory RwManager imports SccManager begin

text \<open>
  The calibration sequencer, second part: the read/write manager, which runs small programs
  against the memory. Its instructions are addresses of its instruction memory; writing one
  to \<open>RW_MGR_RUN_SINGLE_GROUP\<close> runs it, and reading \<open>BASE_RW_MGR\<close> gives the data bits
  that were wrong. Here are the start of the memory, its hand-over, and the tests of reading
  and writing that the calibration rests on. Results that the code returns through the
  pointer \<open>bit_chk\<close> are the second component of the value.
\<close>

named_theorems rw_defs "the operations of the read/write manager"

section \<open>Start\<close>

definition initialize :: "unit io" where [rw_defs]:
  "initialize = seqs [
     IOWR_32DIRECT PHY_MGR_MUX_SEL 0 0x3,
     IOWR_32DIRECT PHY_MGR_RESET_MEM_STBL 0 0,
     IOWR_32DIRECT PHY_MGR_CAL_STATUS 0 0,
     IOWR_32DIRECT PHY_MGR_CAL_DEBUG_INFO 0 0,
     bind_io (get_io dyn_calib_steps) (\<lambda>steps.
       when_io (ucast steps AND CALIB_SKIP_ALL \<noteq> CALIB_SKIP_ALL) (modify_param (\<lambda>p. p\<lparr>
         read_correct_mask_vg :=
           shl 1 (of_nat (RW_MGR_MEM_DQ_PER_READ_DQS div RW_MGR_MEM_VIRTUAL_GROUPS_PER_READ_DQS)) - 1,
         write_correct_mask_vg :=
           shl 1 (of_nat (RW_MGR_MEM_DQ_PER_READ_DQS div RW_MGR_MEM_VIRTUAL_GROUPS_PER_READ_DQS)) - 1,
         read_correct_mask := shl 1 (of_nat RW_MGR_MEM_DQ_PER_READ_DQS) - 1,
         write_correct_mask := shl 1 (of_nat RW_MGR_MEM_DQ_PER_WRITE_DQS) - 1,
         dm_correct_mask := shl 1 (of_nat (RW_MGR_MEM_DATA_WIDTH div RW_MGR_MEM_DATA_MASK_WIDTH)) - 1\<rparr>))),
     bind_io (get_io (\<lambda>s. phy_debug_mode_flags (gbl s))) (\<lambda>flags.
       when_io (flags AND PHY_DEBUG_IN_DEBUG_MODE = 0) (seqs [
         for_io 0 RW_MGR_MEM_NUMBER_OF_RANKS (\<lambda>i. modify_param (\<lambda>p. p\<lparr>skip_ranks := (skip_ranks p)(i := 0)\<rparr>)),
         for_io 0 NUM_SHADOW_REGS (\<lambda>i. modify_param (\<lambda>p. p\<lparr>skip_shadow_regs := (skip_shadow_regs p)(i := 0)\<rparr>)),
         modify_param (\<lambda>p. p\<lparr>skip_groups := 0\<rparr>)]))]"

text \<open>With one rank, the termination is on for writes only.\<close>

definition set_rank_and_odt_mask :: "nat \<Rightarrow> u32 \<Rightarrow> unit io" where [rw_defs]:
  "set_rank_and_odt_mask rank odt_mode =
     (let odt_mask_0 = 0x0;
          odt_mask_1 = (if odt_mode = RW_MGR_ODT_MODE_READ_WRITE then 0x1 else 0x0) in
      IOWR_32DIRECT RW_MGR_SET_CS_AND_ODT_MASK 0
        ((0xFF AND NOT (shl 1 (of_nat rank))) OR shl (0xFF AND odt_mask_0) 8 OR shl (0xFF AND odt_mask_1) 16))"

definition set_jump_as_return :: "unit io" where [rw_defs]:
  "set_jump_as_return = seqs [
     IOWR_32DIRECT RW_MGR_LOAD_CNTR_0 0 0xFF,
     IOWR_32DIRECT RW_MGR_LOAD_JUMP_ADD_0 0 RW_MGR_RETURN]"

text \<open>\<open>SKIP_DELAY_LOOP_VALUE_OR_ZERO\<close>\<close>

definition load_delay :: "u32 \<Rightarrow> u32 \<Rightarrow> unit io" where [rw_defs]:
  "load_delay cntr v = bind_io (get_io skip_delay_mask) (\<lambda>m. IOWR_32DIRECT cntr 0 (v AND ucast m))"

text \<open>The three loop counters of a wait: two of 8 bits and one of 16 bits.\<close>

definition delay_counters :: "u32 \<Rightarrow> u8 \<times> u8 \<times> u16" where
  "delay_counters afi_clocks =
    (if afi_clocks = 0 then (0, 0, 0)
     else if afi_clocks \<le> 0x100 then (ucast (afi_clocks - 1), 0, 0)
     else if afi_clocks \<le> 0x10000 then (0xff, ucast (shr (afi_clocks - 1) 8), 0)
     else (0xff, 0xff, ucast (shr (afi_clocks - 1) 16)))"

definition delay_for_n_mem_clocks :: "u32 \<Rightarrow> unit io" where [rw_defs]:
  "delay_for_n_mem_clocks clocks =
     (let afi_clocks = (clocks + AFI_RATE_RATIO - 1) div AFI_RATE_RATIO;
          (inner, outer, c_loop) = delay_counters afi_clocks in
      if afi_clocks \<le> 0x100 then seqs [
        load_delay RW_MGR_LOAD_CNTR_1 (ucast inner),
        IOWR_32DIRECT RW_MGR_LOAD_JUMP_ADD_1 0 RW_MGR_IDLE_LOOP1,
        IOWR_32DIRECT RW_MGR_RUN_SINGLE_GROUP 0 RW_MGR_IDLE_LOOP1]
      else seqs [
        load_delay RW_MGR_LOAD_CNTR_0 (ucast inner),
        load_delay RW_MGR_LOAD_CNTR_1 (ucast outer),
        IOWR_32DIRECT RW_MGR_LOAD_JUMP_ADD_0 0 RW_MGR_IDLE_LOOP2,
        IOWR_32DIRECT RW_MGR_LOAD_JUMP_ADD_1 0 RW_MGR_IDLE_LOOP2,
        if afi_clocks \<le> 0x10000 then IOWR_32DIRECT RW_MGR_RUN_SINGLE_GROUP 0 RW_MGR_IDLE_LOOP2
        else for_io 0 (Suc (unat c_loop)) (\<lambda>_. IOWR_32DIRECT RW_MGR_RUN_SINGLE_GROUP 0 RW_MGR_IDLE_LOOP2)])"

definition delay_for_n_ns :: "u32 \<Rightarrow> unit io" where [rw_defs]:
  "delay_for_n_ns nanoseconds =
     delay_for_n_mem_clocks ((1000 * nanoseconds) div (1000000 div AFI_CLK_FREQ) * AFI_RATE_RATIO)"

definition rw_mgr_rdimm_initialize :: "unit io" where [rw_defs]:
  "rw_mgr_rdimm_initialize = ret ()"

text \<open>\<open>set_jump_as_return ()\<close> and a command\<close>

definition mode_command :: "u32 \<Rightarrow> unit io" where [rw_defs]:
  "mode_command ins = seqs [set_jump_as_return, IOWR_32DIRECT RW_MGR_RUN_SINGLE_GROUP 0 ins]"

definition mirrored :: "nat \<Rightarrow> bool" where
  "mirrored r \<longleftrightarrow> shr RW_MGR_MEM_ADDRESS_MIRRORING (of_nat r) AND 0x1 \<noteq> 0"

text \<open>The ranks from \<open>bgn\<close> on that are not skipped.\<close>

definition each_rank :: "nat \<Rightarrow> nat \<Rightarrow> (nat \<Rightarrow> unit io) \<Rightarrow> unit io" where [rw_defs]:
  "each_rank bgn stop body = for_io bgn stop (\<lambda>r. bind_io (get_io (\<lambda>s. skip_ranks (param s) r))
     (\<lambda>skip. when_io (skip = 0) (body r)))"

definition rw_mgr_mem_initialize :: "unit io" where [rw_defs]:
  "rw_mgr_mem_initialize = seqs [
     IOWR_32DIRECT RW_MGR_SET_CS_AND_ODT_MASK 0 RW_MGR_RANK_ALL,
     load_delay RW_MGR_LOAD_CNTR_0 0xFF,
     load_delay RW_MGR_LOAD_CNTR_1 0x6A,
     IOWR_32DIRECT RW_MGR_LOAD_JUMP_ADD_0 0 RW_MGR_INIT_RESET_0_CKE_0,
     IOWR_32DIRECT RW_MGR_LOAD_JUMP_ADD_1 0 RW_MGR_INIT_RESET_0_CKE_0_inloop,
     IOWR_32DIRECT RW_MGR_RUN_SINGLE_GROUP 0 RW_MGR_INIT_RESET_0_CKE_0,
     IOWR_32DIRECT PHY_MGR_RESET_MEM_STBL 0 1,
     load_delay RW_MGR_LOAD_CNTR_0 0x83,
     load_delay RW_MGR_LOAD_CNTR_1 0xFF,
     IOWR_32DIRECT RW_MGR_LOAD_JUMP_ADD_0 0 RW_MGR_INIT_RESET_1_CKE_0,
     IOWR_32DIRECT RW_MGR_LOAD_JUMP_ADD_1 0 RW_MGR_INIT_RESET_1_CKE_0_inloop_1,
     IOWR_32DIRECT RW_MGR_RUN_SINGLE_GROUP 0 RW_MGR_INIT_RESET_1_CKE_0,
     delay_for_n_mem_clocks 250,
     rw_mgr_rdimm_initialize,
     each_rank 0 RW_MGR_MEM_NUMBER_OF_RANKS (\<lambda>r. seqs [
       set_rank_and_odt_mask r RW_MGR_ODT_MODE_OFF,
       if mirrored r then seqs [
         mode_command RW_MGR_MRS2_MIRR,
         delay_for_n_mem_clocks 4,
         mode_command RW_MGR_MRS3_MIRR,
         delay_for_n_mem_clocks 4,
         mode_command RW_MGR_MRS1_MIRR,
         delay_for_n_mem_clocks 4,
         mode_command RW_MGR_MRS0_DLL_RESET_MIRR]
       else seqs [
         mode_command RW_MGR_MRS2,
         delay_for_n_mem_clocks 4,
         mode_command RW_MGR_MRS3,
         delay_for_n_mem_clocks 4,
         mode_command RW_MGR_MRS1,
         mode_command RW_MGR_MRS0_DLL_RESET],
       mode_command RW_MGR_ZQCL,
       delay_for_n_mem_clocks 512])]"

definition rw_mgr_mem_handoff :: "unit io" where [rw_defs]:
  "rw_mgr_mem_handoff = each_rank 0 RW_MGR_MEM_NUMBER_OF_RANKS (\<lambda>r. seqs [
     set_rank_and_odt_mask r RW_MGR_ODT_MODE_OFF,
     IOWR_32DIRECT RW_MGR_RUN_SINGLE_GROUP 0 RW_MGR_PRECHARGE_ALL,
     if mirrored r then seqs [
       mode_command RW_MGR_MRS2_MIRR,
       delay_for_n_mem_clocks 4,
       mode_command RW_MGR_MRS3_MIRR,
       delay_for_n_mem_clocks 4,
       mode_command RW_MGR_MRS1_MIRR,
       delay_for_n_mem_clocks 4,
       mode_command RW_MGR_MRS0_USER_MIRR]
     else seqs [
       mode_command RW_MGR_MRS2,
       delay_for_n_mem_clocks 4,
       mode_command RW_MGR_MRS3,
       delay_for_n_mem_clocks 4,
       mode_command RW_MGR_MRS1,
       delay_for_n_mem_clocks 4,
       mode_command RW_MGR_MRS0_USER]])"

definition mem_precharge_and_activate :: "unit io" where [rw_defs]:
  "mem_precharge_and_activate = each_rank 0 RW_MGR_MEM_NUMBER_OF_RANKS (\<lambda>r. seqs [
     set_rank_and_odt_mask r RW_MGR_ODT_MODE_OFF,
     IOWR_32DIRECT RW_MGR_RUN_SINGLE_GROUP 0 RW_MGR_PRECHARGE_ALL,
     IOWR_32DIRECT RW_MGR_LOAD_CNTR_0 0 0x0F,
     IOWR_32DIRECT RW_MGR_LOAD_JUMP_ADD_0 0 RW_MGR_ACTIVATE_0_AND_1_WAIT1,
     IOWR_32DIRECT RW_MGR_LOAD_CNTR_1 0 0x0F,
     IOWR_32DIRECT RW_MGR_LOAD_JUMP_ADD_1 0 RW_MGR_ACTIVATE_0_AND_1_WAIT2,
     IOWR_32DIRECT RW_MGR_RUN_SINGLE_GROUP 0 RW_MGR_ACTIVATE_0_AND_1])"

section \<open>Reading\<close>

text \<open>
  The ranks of a test, with the mask \<open>*bit_chk\<close> of the bits that were right on all of them.
\<close>

definition test_ranks :: "nat \<Rightarrow> bool \<Rightarrow> u32 \<Rightarrow> (nat \<Rightarrow> u32 io) \<Rightarrow> u32 io" where [rw_defs]:
  "test_ranks rank_bgn all_ranks good_mask body =
     (let rank_end = (if all_ranks then RW_MGR_MEM_NUMBER_OF_RANKS else rank_bgn + NUM_RANKS_PER_SHADOW_REG) in
      fold_io (\<lambda>r bit_chk. bind_io (get_io (\<lambda>s. skip_ranks (param s) r)) (\<lambda>skip.
        if skip \<noteq> 0 then ret bit_chk else bind_io (body r) (\<lambda>tmp_bit_chk. ret (bit_chk AND tmp_bit_chk))))
        [rank_bgn..<rank_end] good_mask)"

text \<open>
  \<open>for (vg = n - 1; ; vg--)\<close>: resets the FIFOs, runs \<open>test vg\<close>, and collects the good bits.
\<close>

definition virtual_groups :: "nat \<Rightarrow> u32 \<Rightarrow> u32 \<Rightarrow> unit io \<Rightarrow> (nat \<Rightarrow> unit io) \<Rightarrow> u32 io" where [rw_defs]:
  "virtual_groups n width correct_mask_vg reset test =
     fold_io (\<lambda>vg tmp_bit_chk. seq_io reset (seq_io (test vg)
       (bind_io (IORD_32DIRECT BASE_RW_MGR 0) (\<lambda>wrong.
          ret (shl tmp_bit_chk width OR (correct_mask_vg AND NOT wrong))))))
       (rev [0..<n]) 0"

definition reset_fifos :: "unit io" where [rw_defs]:
  "reset_fifos = seqs [IOWR_32DIRECT PHY_MGR_CMD_FIFO_RESET 0 0, IOWR_32DIRECT RW_MGR_RESET_READ_DATAPATH 0 0]"

definition read_dqs_width :: u32 where
  "read_dqs_width = of_nat (RW_MGR_MEM_DQ_PER_READ_DQS div RW_MGR_MEM_VIRTUAL_GROUPS_PER_READ_DQS)"

definition rw_mgr_mem_calibrate_read_test_patterns :: "nat \<Rightarrow> nat \<Rightarrow> u32 \<Rightarrow> bool \<Rightarrow> (bool \<times> u32) io" where [rw_defs]:
  "rw_mgr_mem_calibrate_read_test_patterns rank_bgn grp num_tries all_ranks =
     bind_io (get_io param) (\<lambda>p.
     bind_io (test_ranks rank_bgn all_ranks (read_correct_mask p) (\<lambda>r.
       seq_io (seqs [
         set_rank_and_odt_mask r RW_MGR_ODT_MODE_READ_WRITE,
         IOWR_32DIRECT RW_MGR_LOAD_CNTR_0 0 0x20,
         IOWR_32DIRECT RW_MGR_LOAD_JUMP_ADD_0 0 RW_MGR_GUARANTEED_READ,
         IOWR_32DIRECT RW_MGR_LOAD_CNTR_1 0 0x20,
         IOWR_32DIRECT RW_MGR_LOAD_JUMP_ADD_1 0 RW_MGR_GUARANTEED_READ_CONT])
       (virtual_groups RW_MGR_MEM_VIRTUAL_GROUPS_PER_READ_DQS read_dqs_width (read_correct_mask_vg p) reset_fifos
         (\<lambda>vg. IOWR_32DIRECT RW_MGR_RUN_SINGLE_GROUP
           (shl (of_nat (grp * RW_MGR_MEM_VIRTUAL_GROUPS_PER_READ_DQS + vg)) 2) RW_MGR_GUARANTEED_READ))))
     (\<lambda>bit_chk. seq_io (seqs [
         IOWR_32DIRECT RW_MGR_RUN_SINGLE_GROUP (shl (of_nat grp) 2) RW_MGR_CLEAR_DQS_ENABLE,
         set_rank_and_odt_mask 0 RW_MGR_ODT_MODE_OFF])
       (ret (bit_chk = read_correct_mask p, bit_chk))))"

definition rw_mgr_mem_calibrate_read_test_patterns_all_ranks :: "nat \<Rightarrow> u32 \<Rightarrow> (bool \<times> u32) io" where [rw_defs]:
  "rw_mgr_mem_calibrate_read_test_patterns_all_ranks grp num_tries =
     rw_mgr_mem_calibrate_read_test_patterns 0 grp num_tries True"

definition rw_mgr_mem_calibrate_read_load_patterns :: "nat \<Rightarrow> bool \<Rightarrow> unit io" where [rw_defs]:
  "rw_mgr_mem_calibrate_read_load_patterns rank_bgn all_ranks =
     (let rank_end = (if all_ranks then RW_MGR_MEM_NUMBER_OF_RANKS else rank_bgn + NUM_RANKS_PER_SHADOW_REG) in
      seqs [
        each_rank rank_bgn rank_end (\<lambda>r. seqs [
          set_rank_and_odt_mask r RW_MGR_ODT_MODE_READ_WRITE,
          IOWR_32DIRECT RW_MGR_LOAD_CNTR_0 0 0x20,
          IOWR_32DIRECT RW_MGR_LOAD_JUMP_ADD_0 0 RW_MGR_GUARANTEED_WRITE_WAIT0,
          IOWR_32DIRECT RW_MGR_LOAD_CNTR_1 0 0x20,
          IOWR_32DIRECT RW_MGR_LOAD_JUMP_ADD_1 0 RW_MGR_GUARANTEED_WRITE_WAIT1,
          IOWR_32DIRECT RW_MGR_LOAD_CNTR_2 0 0x04,
          IOWR_32DIRECT RW_MGR_LOAD_JUMP_ADD_2 0 RW_MGR_GUARANTEED_WRITE_WAIT2,
          IOWR_32DIRECT RW_MGR_LOAD_CNTR_3 0 0x04,
          IOWR_32DIRECT RW_MGR_LOAD_JUMP_ADD_3 0 RW_MGR_GUARANTEED_WRITE_WAIT3,
          IOWR_32DIRECT RW_MGR_RUN_SINGLE_GROUP 0 RW_MGR_GUARANTEED_WRITE]),
        set_rank_and_odt_mask 0 RW_MGR_ODT_MODE_OFF])"

definition rw_mgr_mem_calibrate_read_load_patterns_all_ranks :: "unit io" where [rw_defs]:
  "rw_mgr_mem_calibrate_read_load_patterns_all_ranks = rw_mgr_mem_calibrate_read_load_patterns 0 True"

definition rw_mgr_mem_calibrate_read_test ::
  "nat \<Rightarrow> nat \<Rightarrow> u32 \<Rightarrow> u32 \<Rightarrow> bool \<Rightarrow> bool \<Rightarrow> (bool \<times> u32) io" where [rw_defs]:
  "rw_mgr_mem_calibrate_read_test rank_bgn grp num_tries all_correct all_groups all_ranks =
     bind_io (get_io param) (\<lambda>p.
     bind_io (test_ranks rank_bgn all_ranks (read_correct_mask p) (\<lambda>r.
       seq_io (seqs [
         set_rank_and_odt_mask r RW_MGR_ODT_MODE_READ_WRITE,
         IOWR_32DIRECT RW_MGR_LOAD_CNTR_1 0 0x10,
         IOWR_32DIRECT RW_MGR_LOAD_JUMP_ADD_1 0 RW_MGR_READ_B2B_WAIT1,
         IOWR_32DIRECT RW_MGR_LOAD_CNTR_2 0 0x10,
         IOWR_32DIRECT RW_MGR_LOAD_JUMP_ADD_2 0 RW_MGR_READ_B2B_WAIT2,
         IOWR_32DIRECT RW_MGR_LOAD_CNTR_0 0 (if all_groups then 0x06 else 0x32),
         IOWR_32DIRECT RW_MGR_LOAD_JUMP_ADD_0 0 RW_MGR_READ_B2B,
         IOWR_32DIRECT RW_MGR_LOAD_CNTR_3 0 (if all_groups
           then of_nat (RW_MGR_MEM_IF_READ_DQS_WIDTH * RW_MGR_MEM_VIRTUAL_GROUPS_PER_READ_DQS) - 1 else 0x0),
         IOWR_32DIRECT RW_MGR_LOAD_JUMP_ADD_3 0 RW_MGR_READ_B2B])
       (virtual_groups RW_MGR_MEM_VIRTUAL_GROUPS_PER_READ_DQS read_dqs_width (read_correct_mask_vg p) reset_fifos
         (\<lambda>vg. IOWR_32DIRECT (if all_groups then RW_MGR_RUN_ALL_GROUPS else RW_MGR_RUN_SINGLE_GROUP)
           (shl (of_nat (grp * RW_MGR_MEM_VIRTUAL_GROUPS_PER_READ_DQS + vg)) 2) RW_MGR_READ_B2B))))
     (\<lambda>bit_chk. seq_io (seqs [
         IOWR_32DIRECT RW_MGR_RUN_SINGLE_GROUP (shl (of_nat grp) 2) RW_MGR_CLEAR_DQS_ENABLE,
         set_rank_and_odt_mask 0 RW_MGR_ODT_MODE_OFF])
       (ret (if all_correct \<noteq> 0 then bit_chk = read_correct_mask p else bit_chk \<noteq> 0x00, bit_chk))))"

definition rw_mgr_mem_calibrate_read_test_all_ranks :: "nat \<Rightarrow> u32 \<Rightarrow> u32 \<Rightarrow> bool \<Rightarrow> (bool \<times> u32) io" where [rw_defs]:
  "rw_mgr_mem_calibrate_read_test_all_ranks grp num_tries all_correct all_groups =
     rw_mgr_mem_calibrate_read_test 0 grp num_tries all_correct all_groups True"

text \<open>The value of the pointer \<open>v\<close> after the call is the result.\<close>

definition rw_mgr_incr_vfifo :: "nat \<Rightarrow> u32 \<Rightarrow> u32 io" where [rw_defs]:
  "rw_mgr_incr_vfifo grp v = seq_io (IOWR_32DIRECT PHY_MGR_CMD_INC_VFIFO_HARD_PHY 0 (of_nat grp)) (ret (v + 1))"

definition rw_mgr_decr_vfifo :: "nat \<Rightarrow> u32 \<Rightarrow> u32 io" where [rw_defs]:
  "rw_mgr_decr_vfifo grp v = fold_io (\<lambda>_. rw_mgr_incr_vfifo grp) [0..<unat (VFIFO_SIZE - 1)] v"

section \<open>Writing\<close>

definition rw_mgr_mem_calibrate_write_test_issue :: "nat \<Rightarrow> bool \<Rightarrow> unit io" where [rw_defs]:
  "rw_mgr_mem_calibrate_write_test_issue grp test_dm =
     bind_io (get_io (\<lambda>s. rw_wl_nop_cycles (gbl s))) (\<lambda>nops.
     bind_io
       (if nops = - 1 then seq_io (IOWR_32DIRECT RW_MGR_LOAD_CNTR_2 0 0xFF)
          (if test_dm then seq_io (seqs [
             IOWR_32DIRECT RW_MGR_LOAD_JUMP_ADD_2 0 RW_MGR_LFSR_WR_RD_DM_BANK_0_DATA,
             IOWR_32DIRECT RW_MGR_LOAD_JUMP_ADD_3 0 RW_MGR_LFSR_WR_RD_DM_BANK_0_NOP])
             (ret RW_MGR_LFSR_WR_RD_DM_BANK_0_WL_1)
           else seq_io (seqs [
             IOWR_32DIRECT RW_MGR_LOAD_JUMP_ADD_2 0 RW_MGR_LFSR_WR_RD_BANK_0_DATA,
             IOWR_32DIRECT RW_MGR_LOAD_JUMP_ADD_3 0 RW_MGR_LFSR_WR_RD_BANK_0_NOP])
             (ret RW_MGR_LFSR_WR_RD_BANK_0_WL_1))
        else if nops = 0 then seq_io (IOWR_32DIRECT RW_MGR_LOAD_CNTR_2 0 0xFF)
          (if test_dm then seq_io (IOWR_32DIRECT RW_MGR_LOAD_JUMP_ADD_2 0 RW_MGR_LFSR_WR_RD_DM_BANK_0_DQS)
             (ret RW_MGR_LFSR_WR_RD_DM_BANK_0)
           else seq_io (IOWR_32DIRECT RW_MGR_LOAD_JUMP_ADD_2 0 RW_MGR_LFSR_WR_RD_BANK_0_DQS)
             (ret RW_MGR_LFSR_WR_RD_BANK_0))
        else seq_io (seqs [
            IOWR_32DIRECT RW_MGR_LOAD_CNTR_2 0 0x0,
            IOWR_32DIRECT RW_MGR_LOAD_JUMP_ADD_2 0 0x0,
            IOWR_32DIRECT RW_MGR_LOAD_CNTR_3 0 (nops - 1)])
          (if test_dm then seq_io (IOWR_32DIRECT RW_MGR_LOAD_JUMP_ADD_3 0 RW_MGR_LFSR_WR_RD_DM_BANK_0_NOP)
             (ret RW_MGR_LFSR_WR_RD_DM_BANK_0)
           else seq_io (IOWR_32DIRECT RW_MGR_LOAD_JUMP_ADD_3 0 RW_MGR_LFSR_WR_RD_BANK_0_NOP)
             (ret RW_MGR_LFSR_WR_RD_BANK_0)))
     (\<lambda>mcc_instruction. seqs [
        IOWR_32DIRECT RW_MGR_RESET_READ_DATAPATH 0 0,
        IOWR_32DIRECT RW_MGR_LOAD_CNTR_0 0 0x40,
        IOWR_32DIRECT RW_MGR_LOAD_JUMP_ADD_0 0 mcc_instruction,
        IOWR_32DIRECT RW_MGR_LOAD_CNTR_1 0 0x30,
        IOWR_32DIRECT RW_MGR_LOAD_JUMP_ADD_1 0
          (if test_dm then RW_MGR_LFSR_WR_RD_DM_BANK_0_WAIT else RW_MGR_LFSR_WR_RD_BANK_0_WAIT),
        IOWR_32DIRECT RW_MGR_RUN_SINGLE_GROUP (shl (of_nat grp) 2) mcc_instruction]))"

definition write_dqs_width :: u32 where
  "write_dqs_width = of_nat (RW_MGR_MEM_DQ_PER_WRITE_DQS div RW_MGR_MEM_VIRTUAL_GROUPS_PER_WRITE_DQS)"

definition rw_mgr_mem_calibrate_write_test :: "nat \<Rightarrow> nat \<Rightarrow> bool \<Rightarrow> u32 \<Rightarrow> bool \<Rightarrow> (bool \<times> u32) io" where [rw_defs]:
  "rw_mgr_mem_calibrate_write_test rank_bgn write_group use_dm all_correct all_ranks =
     bind_io (get_io param) (\<lambda>p.
     bind_io (test_ranks rank_bgn all_ranks (write_correct_mask p) (\<lambda>r.
       seq_io (set_rank_and_odt_mask r RW_MGR_ODT_MODE_READ_WRITE)
       (virtual_groups RW_MGR_MEM_VIRTUAL_GROUPS_PER_WRITE_DQS write_dqs_width (write_correct_mask_vg p)
         (IOWR_32DIRECT PHY_MGR_CMD_FIFO_RESET 0 0)
         (\<lambda>vg. rw_mgr_mem_calibrate_write_test_issue
           (write_group * RW_MGR_MEM_VIRTUAL_GROUPS_PER_WRITE_DQS + vg) use_dm))))
     (\<lambda>bit_chk. seq_io (set_rank_and_odt_mask 0 RW_MGR_ODT_MODE_OFF)
       (ret (if all_correct \<noteq> 0 then bit_chk = write_correct_mask p else bit_chk \<noteq> 0x00, bit_chk))))"

definition rw_mgr_mem_calibrate_write_test_all_ranks :: "nat \<Rightarrow> bool \<Rightarrow> u32 \<Rightarrow> (bool \<times> u32) io" where [rw_defs]:
  "rw_mgr_mem_calibrate_write_test_all_ranks write_group use_dm all_correct =
     rw_mgr_mem_calibrate_write_test 0 write_group use_dm all_correct True"

definition run_group_mask :: u32 where
  "run_group_mask = shl 1 (of_nat RW_MGR_NUM_DQS_PER_WRITE_GROUP) - 1"

text \<open>Only the result of the last group counts.\<close>

definition rw_mgr_mem_calibrate_full_test :: "u32 \<Rightarrow> bool \<Rightarrow> bool io" where
  "rw_mgr_mem_calibrate_full_test min_correct test_dm =
     bind_io (get_io (\<lambda>s. NOT (skip_groups (param s)))) (\<lambda>run_groups.
     bind_io (fold_io (\<lambda>g (success, run_groups).
       bind_io (if run_groups AND run_group_mask \<noteq> 0
         then bind_io (rw_mgr_mem_calibrate_write_test_all_ranks g test_dm PASS_ALL_BITS) (\<lambda>(ok, _). ret ok)
         else ret success)
       (\<lambda>success. ret (success, shr run_groups (of_nat RW_MGR_NUM_DQS_PER_WRITE_GROUP))))
       [0..<RW_MGR_MEM_IF_READ_DQS_WIDTH] (False, run_groups))
     (\<lambda>(success, _). ret success))"

end
