(* ===== verification/StrobeCalibration.thy ===== *)
theory StrobeCalibration imports RwManager "HOL-Library.While_Combinator" begin

text \<open>
  The calibration sequencer, third part: the point of time at which the read strobe is enabled.
  \<open>find_dqs_en_phase\<close> searches the window of FIFO positions, phases and delay taps at which
  reading works, and goes to its centre. A loop is \<open>while_io\<close> over the local variables it
  changes. Counters that only feed the TCL report are left out.
\<close>

section \<open>The strobe enable\<close>

text \<open>
  \<open>while (tmp_delay < IO_DELAY_PER_OPA_TAP) { dtaps_per_ptap++; tmp_delay += tap; }  dtaps_per_ptap--;\<close>
\<close>

definition taps_per_phase :: "u32 \<Rightarrow> u32" where
  "taps_per_phase tap = fst (while (\<lambda>(n, tmp_delay). tmp_delay < IO_DELAY_PER_OPA_TAP)
     (\<lambda>(n, tmp_delay). (n + 1, tmp_delay + tap)) (0, 0)) - 1"

text \<open>The test of this search: does at least one bit pass?\<close>

definition any_bit_reads :: "nat \<Rightarrow> bool io" where
  "any_bit_reads grp = bind_io (rw_mgr_mem_calibrate_read_test_all_ranks grp 1 PASS_ONE_BIT False)
     (\<lambda>(ok, bit_chk). ret ok)"

text \<open>Step 1: pushing the FIFO until the second failing read. The result is \<open>v\<close>.\<close>

definition push_to_failure :: "nat \<Rightarrow> u32 io" where
  "push_to_failure grp = bind_io (while_io (\<lambda>(v, fail_cnt). v < VFIFO_SIZE)
     (\<lambda>(v, fail_cnt). bind_io (any_bit_reads grp) (\<lambda>ok.
        let fail_cnt = (if ok then fail_cnt else fail_cnt + 1) in
        if \<not> ok \<and> fail_cnt = 2 then ret (True, (v, fail_cnt))
        else bind_io (rw_mgr_incr_vfifo grp v) (\<lambda>v. ret (False, (v, fail_cnt)))))
     (0, 0 :: u32)) (\<lambda>(_, v, _). ret v)"

text \<open>Step 2: the first working phase, in the order of FIFO positions, phases and taps.\<close>

definition sweep_phases :: "nat \<Rightarrow> u32 \<Rightarrow> (bool \<times> u32 \<times> u32) io" where
  "sweep_phases grp work_bgn = while_io (\<lambda>(p, work_bgn). p \<le> IO_DQS_EN_PHASE_MAX)
     (\<lambda>(p, work_bgn). seq_io (scc_mgr_set_dqs_en_phase_all_ranks grp p)
        (bind_io (any_bit_reads grp) (\<lambda>ok.
           ret (if ok then (True, (p, work_bgn)) else (False, (p + 1, work_bgn + IO_DELAY_PER_OPA_TAP))))))
     (0, work_bgn)"

definition sweep_vfifo :: "nat \<Rightarrow> u32 \<Rightarrow> u32 \<Rightarrow> (bool \<times> u32 \<times> u32 \<times> u32 \<times> u32) io" where
  "sweep_vfifo grp work_bgn v = while_io (\<lambda>(i, p, v, work_bgn). i < VFIFO_SIZE)
     (\<lambda>(i, p, v, work_bgn). bind_io (sweep_phases grp work_bgn) (\<lambda>(found, p, work_bgn).
        if found then ret (True, (i, p, v, work_bgn))
        else bind_io (if IO_DQS_EN_PHASE_MAX < p then rw_mgr_incr_vfifo grp v else ret v)
          (\<lambda>v. ret (False, (i + 1, p, v, work_bgn)))))
     (0, 0, v, work_bgn)"

definition first_working :: "nat \<Rightarrow> u32 \<Rightarrow> u32 \<Rightarrow> (u32 \<times> u32 \<times> u32 \<times> u32 \<times> u32) io" where
  "first_working grp dtaps_per_ptap v =
     bind_io (while_io (\<lambda>(d, tmp_delay, _). d \<le> dtaps_per_ptap)
       (\<lambda>(d, tmp_delay, i, p, v, _). seq_io (scc_mgr_set_dqs_en_delay_all_ranks grp d)
          (bind_io (sweep_vfifo grp tmp_delay v) (\<lambda>(found, i, p, v, work_bgn).
             ret (if found then (True, (d, tmp_delay, i, p, v, work_bgn))
               else (False, (d + 1, tmp_delay + IO_DELAY_PER_DQS_EN_DCHAIN_TAP, i, p, v, work_bgn))))))
       (0, 0, 0, 0, v, 0))
     (\<lambda>(_, d, _, i, p, v, work_bgn). ret (d, i, p, v, work_bgn))"

text \<open>Backing up a phase, which at phase 0 is a step of the FIFO, and going forward.\<close>

definition back_up :: "nat \<Rightarrow> u32 \<Rightarrow> u32 \<Rightarrow> (u32 \<times> u32) io" where
  "back_up grp p v = (if p = 0 then bind_io (rw_mgr_decr_vfifo grp v) (\<lambda>v. ret (IO_DQS_EN_PHASE_MAX, v))
     else ret (p - 1, v))"

definition go_forward :: "nat \<Rightarrow> u32 \<Rightarrow> u32 \<Rightarrow> (u32 \<times> u32) io" where
  "go_forward grp p v = (if IO_DQS_EN_PHASE_MAX < p + 1
     then bind_io (rw_mgr_incr_vfifo grp v) (\<lambda>v. ret (0, v)) else ret (p + 1, v))"

text \<open>Step 3a: the taps before the first working phase. The result is \<open>work_bgn\<close>.\<close>

definition taps_before :: "nat \<Rightarrow> u32 \<Rightarrow> u32 io" where
  "taps_before grp work_bgn =
     bind_io (while_io (\<lambda>(d, tmp_delay). d \<le> IO_DQS_EN_DELAY_MAX \<and> tmp_delay < work_bgn)
       (\<lambda>(d, tmp_delay). seq_io (scc_mgr_set_dqs_en_delay_all_ranks grp d)
          (bind_io (any_bit_reads grp) (\<lambda>ok.
             ret (if ok then (True, (d, tmp_delay)) else (False, (d + 1, tmp_delay + IO_DELAY_PER_DQS_EN_DCHAIN_TAP))))))
       (0, work_bgn - IO_DELAY_PER_OPA_TAP))
     (\<lambda>(found_begin, _, tmp_delay). ret (if found_begin then tmp_delay else work_bgn))"

text \<open>Step 4a: on to the first phase that fails.\<close>

definition sweep_to_end :: "nat \<Rightarrow> u32 \<Rightarrow> u32 \<Rightarrow> (bool \<times> u32 \<times> u32) io" where
  "sweep_to_end grp p work_end = while_io (\<lambda>(p, work_end). p \<le> IO_DQS_EN_PHASE_MAX)
     (\<lambda>(p, work_end). seq_io (scc_mgr_set_dqs_en_phase_all_ranks grp p)
        (bind_io (any_bit_reads grp) (\<lambda>ok.
           ret (if \<not> ok then (True, (p, work_end)) else (False, (p + 1, work_end + IO_DELAY_PER_OPA_TAP))))))
     (p, work_end)"

definition first_failing :: "nat \<Rightarrow> u32 \<Rightarrow> u32 \<Rightarrow> u32 \<Rightarrow> u32 \<Rightarrow> (bool \<times> u32 \<times> u32 \<times> u32 \<times> u32) io" where
  "first_failing grp i p v work_end = while_io (\<lambda>(i, p, v, work_end). i < VFIFO_SIZE + 1)
     (\<lambda>(i, p, v, work_end). bind_io (sweep_to_end grp p work_end) (\<lambda>(found_end, p, work_end).
        if found_end then ret (True, (i, p, v, work_end))
        else if IO_DQS_EN_PHASE_MAX < p
          then bind_io (rw_mgr_incr_vfifo grp v) (\<lambda>v. ret (False, (i + 1, 0, v, work_end)))
        else ret (False, (i + 1, p, v, work_end))))
     (i, p, v, work_end)"

text \<open>
  Steps 3a to 5a, when the window covers the first phase: \<open>work_bgn\<close>, \<open>work_end\<close>, \<open>p\<close> and
  \<open>v\<close> with the end of the window, or nothing when no read fails.
\<close>

definition phase_window :: "nat \<Rightarrow> u32 \<Rightarrow> u32 \<Rightarrow> u32 \<Rightarrow> u32 \<Rightarrow> (u32 \<times> u32 \<times> u32 \<times> u32) option io" where
  "phase_window grp i p v work_bgn =
     bind_io (back_up grp p v) (\<lambda>(p, v).
     seq_io (scc_mgr_set_dqs_en_phase_all_ranks grp p) (
     bind_io (taps_before grp work_bgn) (\<lambda>bgn.
     bind_io (go_forward grp p v) (\<lambda>(p, v).
     seq_io (scc_mgr_set_dqs_en_delay_all_ranks grp 0) (
     bind_io (go_forward grp p v) (\<lambda>(p, v).
     bind_io (first_failing grp i p v (work_bgn + IO_DELAY_PER_OPA_TAP)) (\<lambda>(_, i, p, v, work_end).
     if VFIFO_SIZE + 1 \<le> i then ret None else
     bind_io (back_up grp p v) (\<lambda>(p, v).
     seq_io (scc_mgr_set_dqs_en_phase_all_ranks grp p)
       (ret (Some (bgn, work_end - IO_DELAY_PER_OPA_TAP, p, v)))))))))))"

text \<open>The end of the window in taps, from tap \<open>d\<close> on: \<open>d\<close> and \<open>work_end\<close>.\<close>

definition last_tap :: "nat \<Rightarrow> u32 \<Rightarrow> u32 \<Rightarrow> (u32 \<times> u32) io" where
  "last_tap grp d work_end =
     bind_io (while_io (\<lambda>(d, work_end). d \<le> IO_DQS_EN_DELAY_MAX)
       (\<lambda>(d, work_end). seq_io (scc_mgr_set_dqs_en_delay_all_ranks grp d)
          (bind_io (any_bit_reads grp) (\<lambda>ok.
             ret (if \<not> ok then (True, (d, work_end)) else (False, (d + 1, work_end + IO_DELAY_PER_DQS_EN_DCHAIN_TAP))))))
       (d, work_end))
     (\<lambda>(_, d, work_end). ret (d, if d \<noteq> 0 then work_end - IO_DELAY_PER_DQS_EN_DCHAIN_TAP else work_end))"

text \<open>
  The number of taps of a phase as measured: one phase back, the first tap that passes and
  then the first that fails; the computed number if there is none.
\<close>

definition find_tap :: "nat \<Rightarrow> bool \<Rightarrow> u32 \<Rightarrow> (bool \<times> u32) io" where
  "find_tap grp passing d = while_io (\<lambda>d. d \<le> IO_DQS_EN_DELAY_MAX)
     (\<lambda>d. seq_io (scc_mgr_set_dqs_en_delay_all_ranks grp d)
        (bind_io (any_bit_reads grp) (\<lambda>ok. ret (if ok = passing then (True, d) else (False, d + 1)))))
     d"

definition measured_taps :: "nat \<Rightarrow> u32 \<Rightarrow> u32 \<Rightarrow> u32 \<Rightarrow> u32 \<Rightarrow> (u32 \<times> u32) io" where
  "measured_taps grp dtaps_per_ptap d p v =
     bind_io (back_up grp p v) (\<lambda>(p, v).
     seq_io (scc_mgr_set_dqs_en_phase_all_ranks grp p) (
     bind_io (find_tap grp True d) (\<lambda>(found_passing_read, e).
     if \<not> found_passing_read then ret (dtaps_per_ptap, v) else
     bind_io (find_tap grp False (e + 1)) (\<lambda>(found_failing_read, e).
     ret (if found_failing_read then e - d else dtaps_per_ptap, v)))))"

text \<open>Step 6: the centre of the window as phase and taps; the phase set is one less than \<open>p\<close>.\<close>

definition phase_cycle :: u32 where
  "phase_cycle = snd (while (\<lambda>(p, tmp_delay). p \<le> IO_DQS_EN_PHASE_MAX)
     (\<lambda>(p, tmp_delay). (p + 1, tmp_delay + IO_DELAY_PER_OPA_TAP)) (0 :: u32, 0))"

definition window_centre :: "u32 \<Rightarrow> u32 \<Rightarrow> u32 \<times> u32" where
  "window_centre work_bgn work_end =
     (let work_mid = while (\<lambda>work_mid. phase_cycle < work_mid) (\<lambda>work_mid. work_mid - phase_cycle)
            ((work_bgn + work_end) div 2);
          (p, tmp_delay) = while (\<lambda>(p, tmp_delay). p \<le> IO_DQS_EN_PHASE_MAX \<and> tmp_delay < work_mid)
            (\<lambda>(p, tmp_delay). (p + 1, tmp_delay + IO_DELAY_PER_OPA_TAP)) (0, 0);
          (d, _) = while (\<lambda>(d, tmp_delay). d \<le> IO_DQS_EN_DELAY_MAX \<and> tmp_delay < work_mid)
            (\<lambda>(d, tmp_delay). (d + 1, tmp_delay + IO_DELAY_PER_DQS_EN_DCHAIN_TAP))
            (0, tmp_delay - IO_DELAY_PER_OPA_TAP)
      in (p, d))"

text \<open>Pushing the FIFO until a read passes.\<close>

definition push_to_pass :: "nat \<Rightarrow> u32 \<Rightarrow> bool io" where
  "push_to_pass grp v =
     bind_io (while_io (\<lambda>(i, v). i < VFIFO_SIZE)
       (\<lambda>(i, v). bind_io (any_bit_reads grp) (\<lambda>ok.
          if ok then ret (True, (i, v)) else bind_io (rw_mgr_incr_vfifo grp v) (\<lambda>v. ret (False, (i + 1, v)))))
       (0, v))
     (\<lambda>(_, i, _). ret (\<not> VFIFO_SIZE \<le> i))"

text \<open>From the window found at phase \<open>p\<close> and tap \<open>d\<close> to the end of the search.\<close>

definition centre_dqs_en :: "nat \<Rightarrow> u32 \<Rightarrow> u32 \<Rightarrow> u32 \<Rightarrow> u32 \<Rightarrow> u32 \<Rightarrow> u32 \<Rightarrow> bool io" where
  "centre_dqs_en grp dtaps_per_ptap d p v work_bgn work_end =
     bind_io (last_tap grp d work_end) (\<lambda>(d, work_end).
     if work_end < work_bgn then ret False else
     bind_io (measured_taps grp dtaps_per_ptap d p v) (\<lambda>(dtaps_per_ptap, v).
     seq_io (IOWR_32DIRECT REG_FILE_DTAPS_PER_PTAP 0 dtaps_per_ptap)
     (case window_centre work_bgn work_end of (p, d) \<Rightarrow> seq_io (seqs [
        scc_mgr_set_dqs_en_phase_all_ranks grp (p - 1),
        scc_mgr_set_dqs_en_delay_all_ranks grp d])
     (push_to_pass grp v))))"

definition rw_mgr_mem_calibrate_vfifo_find_dqs_en_phase :: "nat \<Rightarrow> bool io" where
  "rw_mgr_mem_calibrate_vfifo_find_dqs_en_phase grp =
     seq_io (seqs [
       reg_file_set_sub_stage CAL_SUBSTAGE_VFIFO_CENTER,
       scc_mgr_set_dqs_en_delay_all_ranks grp 0,
       scc_mgr_set_dqs_en_phase_all_ranks grp 0])
     (let dtaps_per_ptap = taps_per_phase IO_DELAY_PER_DQS_EN_DCHAIN_TAP in
      bind_io (push_to_failure grp) (\<lambda>v.
      if VFIFO_SIZE \<le> v then ret False else
      bind_io (first_working grp dtaps_per_ptap v) (\<lambda>(d, i, p, v, work_bgn).
      if VFIFO_SIZE \<le> i then ret False else
      if d = 0 then bind_io (phase_window grp i p v work_bgn) (\<lambda>r. case r of
          None \<Rightarrow> ret False
        | Some (work_bgn, work_end, p, v) \<Rightarrow> centre_dqs_en grp dtaps_per_ptap 0 p v work_bgn work_end)
      else centre_dqs_en grp dtaps_per_ptap d p v work_bgn work_bgn)))"

definition delay_step :: u32 where
  "delay_step = IO_IO_IN_DELAY_MAX div (of_nat RW_MGR_MEM_DQ_PER_READ_DQS - 1)"

definition rw_mgr_mem_calibrate_vfifo_find_dqs_en_phase_sweep_dq_in_delay :: "nat \<Rightarrow> nat \<Rightarrow> nat \<Rightarrow> bool io" where
  "rw_mgr_mem_calibrate_vfifo_find_dqs_en_phase_sweep_dq_in_delay write_group read_group test_bgn =
     seq_io (for_ranks (\<lambda>r. seqs [
       select_shadow_regs_for_update r write_group True,
       for_io 0 RW_MGR_MEM_DQ_PER_READ_DQS (\<lambda>i. seqs [
         scc_mgr_set_dq_in_delay write_group (test_bgn + i) (of_nat i * delay_step),
         scc_mgr_load_dq (test_bgn + i)]),
       IOWR_32DIRECT SCC_MGR_UPD 0 0]))
     (bind_io (rw_mgr_mem_calibrate_vfifo_find_dqs_en_phase read_group) (\<lambda>found.
     seq_io (for_ranks (\<lambda>r. seqs [
       select_shadow_regs_for_update r write_group True,
       for_io 0 RW_MGR_MEM_DQ_PER_READ_DQS (\<lambda>i. seqs [
         scc_mgr_set_dq_in_delay write_group (test_bgn + i) 0,
         scc_mgr_load_dq (test_bgn + i)]),
       IOWR_32DIRECT SCC_MGR_UPD 0 0]))
     (ret found)))"

end
