(* ===== verification/EyeEdges.thy ===== *)
theory EyeEdges imports StrobeCalibration "HOL-Library.Signed_Division" begin

text \<open>
  The calibration sequencer, fourth part: the edges of the windows in which the data bits of
  a group are read or written right, as the searches of \<open>vfifo_center\<close> and
  \<open>writes_center\<close> record them, and the arithmetic on them. \<open>alt_32\<close> variables are
  integers, converted where the code converts them (signed overflow is undefined in C).
  \<open>none\<close> is the illegal value \<open>.._DELAY_MAX + 1\<close>, \<open>n\<close> the number of bits.
\<close>

type_synonym edges = "int list \<times> int list"

definition no_edges :: "int \<Rightarrow> nat \<Rightarrow> edges" where
  "no_edges none n = (replicate n none, replicate n none)"

text \<open>Going through the bits of \<open>bit_chk\<close>.\<close>

definition each_bit :: "(nat \<Rightarrow> bool \<Rightarrow> edges \<Rightarrow> edges) \<Rightarrow> nat \<Rightarrow> u32 \<Rightarrow> edges \<Rightarrow> edges" where
  "each_bit f n bit_chk e =
     snd (fold (\<lambda>i (bit_chk, e). (shr bit_chk 1, f i (bit_chk AND 1 \<noteq> 0) e)) [0..<n] (bit_chk, e))"

text \<open>The left search: a test at distance \<open>d\<close> with the data delayed.\<close>

definition left_bit :: "int \<Rightarrow> int \<Rightarrow> nat \<Rightarrow> bool \<Rightarrow> edges \<Rightarrow> edges" where
  "left_bit none d i passed e = (case e of (left_edge, right_edge) \<Rightarrow>
     if passed then (left_edge[i := d], right_edge)
     else if left_edge ! i = none then (left_edge, right_edge[i := - (d + 1)])
     else e)"

text \<open>The right search: with the strobe delayed.\<close>

definition right_bit :: "int \<Rightarrow> int \<Rightarrow> nat \<Rightarrow> bool \<Rightarrow> edges \<Rightarrow> edges" where
  "right_bit none d i passed e = (case e of (left_edge, right_edge) \<Rightarrow>
     if passed then (left_edge, right_edge[i := d])
     else if d \<noteq> 0 then
       (if right_edge ! i = none then (left_edge[i := - (d + 1)], right_edge) else e)
     else if right_edge ! i = none \<and> left_edge ! i \<noteq> none then (left_edge, right_edge[i := - 1])
     else if right_edge ! i = none then (left_edge[i := - (d + 1)], right_edge)
     else e)"

text \<open>
  Between the searches: a right edge without a left one is invalid. The new sticky bits are
  those of the bits \<open>seen\<close>.
\<close>

definition reset_right :: "int \<Rightarrow> (int \<Rightarrow> int \<Rightarrow> bool) \<Rightarrow> nat \<Rightarrow> edges \<Rightarrow> u32 \<times> edges" where
  "reset_right none seen n e = fold (\<lambda>i (sticky_bit_chk, left_edge, right_edge).
     let right_edge = (if left_edge ! i = none \<and> right_edge ! i \<noteq> none
           then right_edge[i := none] else right_edge);
         sticky_bit_chk = shl sticky_bit_chk 1 in
     (if seen (left_edge ! i) (right_edge ! i) then sticky_bit_chk OR 1 else sticky_bit_chk,
      left_edge, right_edge)) (rev [0..<n]) (0, e)"

text \<open>The first bit without a window.\<close>

definition first_missing :: "int \<Rightarrow> nat \<Rightarrow> edges \<Rightarrow> nat option" where
  "first_missing none n e = (case e of (left_edge, right_edge) \<Rightarrow>
     find (\<lambda>i. left_edge ! i = none \<or> right_edge ! i = none) [0..<n])"

definition least_middle :: "nat \<Rightarrow> edges \<Rightarrow> int \<times> nat" where
  "least_middle n e = (case e of (left_edge, right_edge) \<Rightarrow>
     fold (\<lambda>i (mid_min, min_index). let mid = left_edge ! i - right_edge ! i in
       if mid < mid_min then (mid, i) else (mid_min, min_index))
     [1..<n] (left_edge ! 0 - right_edge ! 0, 0))"

definition half_middle :: "int \<Rightarrow> int" where
  "half_middle mid_min = (if 0 < mid_min then mid_min + 1 else mid_min) sdiv 2"

definition clipped :: "int \<Rightarrow> int \<Rightarrow> int" where
  "clipped max_delay new_dqs = (if max_delay < new_dqs then max_delay else if new_dqs < 0 then 0 else new_dqs)"

definition shift_of :: "edges \<Rightarrow> nat \<Rightarrow> int \<Rightarrow> nat \<Rightarrow> int" where
  "shift_of e min_index excess i = (case e of (left_edge, right_edge) \<Rightarrow>
     (left_edge ! i - right_edge ! i - (left_edge ! min_index - right_edge ! min_index)) sdiv 2 + excess)"

text \<open>The margins \<open>(dq_margin, dqs_margin)\<close> with the bit \<open>i\<close>, shifted by \<open>shift_dq\<close>.\<close>

definition margins :: "edges \<Rightarrow> int \<Rightarrow> nat \<Rightarrow> int \<Rightarrow> int \<times> int \<Rightarrow> int \<times> int" where
  "margins e mid_min i shift_dq m = (case e of (left_edge, right_edge) \<Rightarrow> case m of (dq_margin, dqs_margin) \<Rightarrow>
     (let l = left_edge ! i - shift_dq + (- mid_min); r = right_edge ! i + shift_dq - (- mid_min) in
      (if l < dq_margin then l else dq_margin, if r < dqs_margin then r else dqs_margin)))"

text \<open>
  The window of the data mask: the run of passing positions that is current and the best one
  so far, \<open>(bgn_curr, end_curr, bgn_best, end_best, win_best)\<close>.
\<close>

type_synonym mask_window = "int \<times> int \<times> int \<times> int \<times> int"

definition passes_at :: "int \<Rightarrow> int \<Rightarrow> mask_window \<Rightarrow> mask_window" where
  "passes_at none pos w = (case w of (bgn_curr, end_curr, bgn_best, end_best, win_best) \<Rightarrow>
     (let end_curr = pos; bgn_curr = (if bgn_curr = none then pos else bgn_curr) in
      if win_best < end_curr - bgn_curr + 1
      then (bgn_curr, end_curr, bgn_curr, end_curr, end_curr - bgn_curr + 1)
      else (bgn_curr, end_curr, bgn_best, end_best, win_best)))"

definition restart_window :: "int \<Rightarrow> mask_window \<Rightarrow> mask_window" where
  "restart_window none w = (case w of (bgn_curr, end_curr, best) \<Rightarrow> (none, none, best))"

end
