(* ===== verification/Deskew.thy ===== *)
theory Deskew imports EyeEdges begin

text \<open>
  The calibration sequencer, fifth part: \<open>vfifo_center\<close> and \<open>writes_center\<close>, which align
  the data pins of a group with each other and with the strobe.
\<close>

section \<open>Reading\<close>

definition in_none :: int where
  "in_none = uint IO_IO_IN_DELAY_MAX + 1"

text \<open>The test and its outcome: \<open>stop\<close> when nothing passed, and \<open>bit_chk\<close>.\<close>

definition centre_test :: "bool \<Rightarrow> nat \<Rightarrow> nat \<Rightarrow> nat \<Rightarrow> (bool \<times> u32) io" where
  "centre_test use_read_test rank_bgn write_group read_group =
     (if use_read_test then
        bind_io (rw_mgr_mem_calibrate_read_test rank_bgn read_group NUM_READ_PB_TESTS PASS_ONE_BIT False False)
          (\<lambda>(ok, bit_chk). ret (\<not> ok, bit_chk))
      else
        bind_io (rw_mgr_mem_calibrate_write_test rank_bgn write_group False PASS_ONE_BIT False) (\<lambda>(ok, bit_chk).
          let bit_chk = shr bit_chk (of_nat RW_MGR_MEM_DQ_PER_READ_DQS *
                (of_nat read_group - of_nat (first_read_group write_group))) in
          ret (bit_chk = 0, bit_chk)))"

text \<open>
  One search: \<open>setting d\<close> makes the settings for the distance \<open>d\<close>, and \<open>bits d\<close> records the
  bits. It stops at the first test that fails once every bit has passed.
\<close>

definition edge_search :: "u32 \<Rightarrow> (u32 \<Rightarrow> unit io) \<Rightarrow> (bool \<times> u32) io \<Rightarrow> (int \<Rightarrow> nat \<Rightarrow> bool \<Rightarrow> edges \<Rightarrow> edges) \<Rightarrow>
    u32 \<Rightarrow> edges \<Rightarrow> edges io" where
  "edge_search max_delay setting test bits sticky_bit_chk e =
     bind_io (while_io (\<lambda>(d, _). d \<le> max_delay)
       (\<lambda>(d, sticky_bit_chk, e). seq_io (setting d) (seq_io (IOWR_32DIRECT SCC_MGR_UPD 0 0)
          (bind_io test (\<lambda>(stop, bit_chk).
           bind_io (get_io (\<lambda>s. read_correct_mask (param s))) (\<lambda>all_bits.
             let sticky_bit_chk = sticky_bit_chk OR bit_chk in
             if stop \<and> sticky_bit_chk = all_bits then ret (True, (d, sticky_bit_chk, e))
             else ret (False, (d + 1, sticky_bit_chk,
               each_bit (bits (sint d)) RW_MGR_MEM_DQ_PER_READ_DQS bit_chk e)))))))
       (0, sticky_bit_chk, e))
     (\<lambda>(_, _, _, e). ret e)"

definition read_edges :: "bool \<Rightarrow> nat \<Rightarrow> nat \<Rightarrow> nat \<Rightarrow> nat \<Rightarrow> int \<Rightarrow> edges io" where
  "read_edges use_read_test rank_bgn write_group read_group test_bgn start_dqs =
     (let test = centre_test use_read_test rank_bgn write_group read_group in
      bind_io (edge_search IO_IO_IN_DELAY_MAX (scc_mgr_apply_group_dq_in_delay write_group test_bgn) test
        (left_bit in_none) 0 (no_edges in_none RW_MGR_MEM_DQ_PER_READ_DQS)) (\<lambda>e.
      seq_io (scc_mgr_apply_group_dq_in_delay write_group test_bgn 0)
      (case reset_right in_none (\<lambda>l r. l \<noteq> in_none \<and> r \<noteq> in_none) RW_MGR_MEM_DQ_PER_READ_DQS e of
         (sticky_bit_chk, e) \<Rightarrow>
           edge_search (of_int (uint IO_DQS_IN_DELAY_MAX - start_dqs))
             (\<lambda>d. seqs [scc_mgr_set_dqs_bus_in_delay read_group (d + of_int start_dqs),
                scc_mgr_load_dqs read_group])
             test (right_bit in_none) sticky_bit_chk e)))"

text \<open>
  The shift of pin \<open>p\<close> that keeps its delay in the range: \<open>shift_dq\<close>, and then the new delay.
\<close>

definition shift_dq_in :: "nat \<Rightarrow> nat \<Rightarrow> nat \<Rightarrow> int \<Rightarrow> int io" where
  "shift_dq_in write_group i p shift_dq =
     bind_io (bind_io (READ_SCC_DQ_IN_DELAY p) (\<lambda>v1.
       if sint IO_IO_IN_DELAY_MAX < shift_dq + sint v1 then
         bind_io (READ_SCC_DQ_IN_DELAY i) (\<lambda>v2. ret (sint (IO_IO_IN_DELAY_MAX - v2)))
       else bind_io (READ_SCC_DQ_IN_DELAY p) (\<lambda>v3.
         if shift_dq + sint v3 < 0 then bind_io (READ_SCC_DQ_IN_DELAY p) (\<lambda>v4. ret (- sint v4))
         else ret shift_dq)))
     (\<lambda>shift_dq. bind_io (READ_SCC_DQ_IN_DELAY p) (\<lambda>v5. seq_io (seqs [
        scc_mgr_set_dq_in_delay write_group p (v5 + of_int shift_dq),
        scc_mgr_load_dq p])
      (ret shift_dq)))"

definition centre_read :: "nat \<Rightarrow> nat \<Rightarrow> nat \<Rightarrow> bool \<Rightarrow> int \<Rightarrow> edges \<Rightarrow> bool io" where
  "centre_read write_group read_group test_bgn update_fom start_dqs e =
     (let (mid_min, min_index) = least_middle RW_MGR_MEM_DQ_PER_READ_DQS e;
          orig_mid_min = half_middle mid_min;
          new_dqs = clipped (uint IO_DQS_IN_DELAY_MAX) (start_dqs - orig_mid_min);
          mid_min = start_dqs - new_dqs in
      bind_io (fold_io (\<lambda>i m.
          bind_io (shift_dq_in write_group i (test_bgn + i) (shift_of e min_index (orig_mid_min - mid_min) i))
            (\<lambda>shift_dq. ret (margins e mid_min i shift_dq m)))
        [0..<RW_MGR_MEM_DQ_PER_READ_DQS] (in_none, in_none)) (\<lambda>(dq_margin, dqs_margin).
      seq_io (seqs [
        scc_mgr_set_dqs_bus_in_delay read_group (of_int new_dqs),
        scc_mgr_load_dqs read_group,
        when_io update_fom (modify_gbl (\<lambda>g. g\<lparr>fom_in := fom_in g + of_int ((dq_margin + dqs_margin) sdiv
          int (RW_MGR_MEM_IF_READ_DQS_WIDTH div RW_MGR_MEM_IF_WRITE_DQS_WIDTH))\<rparr>)),
        IOWR_32DIRECT SCC_MGR_UPD 0 0])
      (ret (0 \<le> dq_margin \<and> 0 \<le> dqs_margin))))"

text \<open>The branches for \<open>IO_SHIFT_DQS_EN_WHEN_SHIFT_DQS\<close>, which is 0, are left out.\<close>

definition rw_mgr_mem_calibrate_vfifo_center :: "nat \<Rightarrow> nat \<Rightarrow> nat \<Rightarrow> nat \<Rightarrow> bool \<Rightarrow> bool \<Rightarrow> bool io" where
  "rw_mgr_mem_calibrate_vfifo_center rank_bgn write_group read_group test_bgn use_read_test update_fom =
     bind_io (READ_SCC_DQS_IN_DELAY read_group) (\<lambda>v.
     let start_dqs = sint v in
     bind_io (read_edges use_read_test rank_bgn write_group read_group test_bgn start_dqs) (\<lambda>e.
     case first_missing in_none RW_MGR_MEM_DQ_PER_READ_DQS e of
       Some i \<Rightarrow> seq_io (seqs [
         scc_mgr_set_dqs_bus_in_delay read_group (of_int start_dqs),
         scc_mgr_load_dqs read_group,
         IOWR_32DIRECT SCC_MGR_UPD 0 0,
         set_failing_group_stage (of_nat (read_group * RW_MGR_MEM_DQ_PER_READ_DQS + i))
           (if use_read_test then CAL_STAGE_VFIFO else CAL_STAGE_VFIFO_AFTER_WRITES) CAL_SUBSTAGE_VFIFO_CENTER])
         (ret False)
     | None \<Rightarrow> centre_read write_group read_group test_bgn update_fom start_dqs e))"

section \<open>Writing\<close>

definition out_none :: int where
  "out_none = uint IO_IO_OUT1_DELAY_MAX + 1"

text \<open>The data bits of a write test: \<open>stop\<close> and \<open>bit_chk\<close>.\<close>

definition data_test :: "nat \<Rightarrow> nat \<Rightarrow> (bool \<times> u32) io" where
  "data_test rank_bgn write_group =
     bind_io (rw_mgr_mem_calibrate_write_test rank_bgn write_group False PASS_ONE_BIT False)
       (\<lambda>(ok, bit_chk). ret (\<not> ok, bit_chk))"

definition mask_test :: "nat \<Rightarrow> nat \<Rightarrow> bool io" where
  "mask_test rank_bgn write_group =
     bind_io (rw_mgr_mem_calibrate_write_test rank_bgn write_group True PASS_ALL_BITS False)
       (\<lambda>(ok, bit_chk). ret ok)"

text \<open>
  The searches here count with a signed variable; \<open>at_stop\<close> is what happens when the search
  stops at distance \<open>d\<close>.
\<close>

definition write_search :: "int \<Rightarrow> (int \<Rightarrow> unit io) \<Rightarrow> (bool \<times> u32) io \<Rightarrow> (int \<Rightarrow> nat \<Rightarrow> bool \<Rightarrow> edges \<Rightarrow> edges) \<Rightarrow>
    (int \<Rightarrow> edges \<Rightarrow> edges) \<Rightarrow> u32 \<Rightarrow> edges \<Rightarrow> edges io" where
  "write_search max_delay setting test bits at_stop sticky_bit_chk e =
     bind_io (while_io (\<lambda>(d, _). d \<le> max_delay)
       (\<lambda>(d, sticky_bit_chk, e). seq_io (setting d) (seq_io (IOWR_32DIRECT SCC_MGR_UPD 0 0)
          (bind_io test (\<lambda>(stop, bit_chk).
           bind_io (get_io (\<lambda>s. write_correct_mask (param s))) (\<lambda>all_bits.
             let sticky_bit_chk = sticky_bit_chk OR bit_chk in
             if stop \<and> sticky_bit_chk = all_bits then ret (True, (d, sticky_bit_chk, at_stop d e))
             else ret (False, (d + 1, sticky_bit_chk,
               each_bit (bits d) RW_MGR_MEM_DQ_PER_WRITE_DQS bit_chk e)))))))
       (0, sticky_bit_chk, e))
     (\<lambda>(_, _, _, e). ret e)"

text \<open>Stopping at 0: the bits passed in the left search, so they are marginal.\<close>

definition marginal :: "int \<Rightarrow> nat \<Rightarrow> int \<Rightarrow> edges \<Rightarrow> edges" where
  "marginal none n d e = (if d = 0 then fold (\<lambda>i (left_edge, right_edge).
     if right_edge ! i = none \<and> left_edge ! i \<noteq> none then (left_edge, right_edge[i := - 1])
     else (left_edge, right_edge)) [0..<n] e else e)"

definition write_edges :: "nat \<Rightarrow> nat \<Rightarrow> nat \<Rightarrow> int \<Rightarrow> edges io" where
  "write_edges rank_bgn write_group test_bgn start_dqs =
     bind_io (write_search (uint IO_IO_OUT1_DELAY_MAX)
       (\<lambda>d. scc_mgr_apply_group_dq_out1_delay write_group test_bgn (of_int d)) (data_test rank_bgn write_group)
       (left_bit out_none) (\<lambda>d e. e) 0 (no_edges out_none RW_MGR_MEM_DQ_PER_WRITE_DQS)) (\<lambda>e.
     seq_io (scc_mgr_apply_group_dq_out1_delay write_group test_bgn 0)
     (case reset_right out_none (\<lambda>l r. l \<noteq> out_none) RW_MGR_MEM_DQ_PER_WRITE_DQS e of (sticky_bit_chk, e) \<Rightarrow>
       write_search (uint IO_IO_OUT1_DELAY_MAX - start_dqs)
         (\<lambda>d. scc_mgr_apply_group_dqs_io_and_oct_out1 write_group (of_int (d + start_dqs)))
         (data_test rank_bgn write_group) (right_bit out_none)
         (marginal out_none RW_MGR_MEM_DQ_PER_WRITE_DQS) sticky_bit_chk e))"

definition shift_dq_out :: "nat \<Rightarrow> nat \<Rightarrow> int \<Rightarrow> int io" where
  "shift_dq_out write_group i shift_dq =
     bind_io (bind_io (READ_SCC_DQ_OUT1_DELAY i) (\<lambda>v1.
       if sint IO_IO_OUT1_DELAY_MAX < shift_dq + sint v1 then
         bind_io (READ_SCC_DQ_OUT1_DELAY i) (\<lambda>v2. ret (sint (IO_IO_OUT1_DELAY_MAX - v2)))
       else bind_io (READ_SCC_DQ_OUT1_DELAY i) (\<lambda>v3.
         if shift_dq + sint v3 < 0 then bind_io (READ_SCC_DQ_OUT1_DELAY i) (\<lambda>v4. ret (- sint v4))
         else ret shift_dq)))
     (\<lambda>shift_dq. bind_io (READ_SCC_DQ_OUT1_DELAY i) (\<lambda>v5. seq_io (seqs [
        scc_mgr_set_dq_out1_delay write_group i (v5 + of_int shift_dq),
        scc_mgr_load_dq i])
      (ret shift_dq)))"

text \<open>Centring the data bits: the margins. The strobe stays where it is.\<close>

definition centre_data :: "nat \<Rightarrow> int \<Rightarrow> edges \<Rightarrow> (int \<times> int) io" where
  "centre_data write_group start_dqs e =
     (let (mid_min, min_index) = least_middle RW_MGR_MEM_DQ_PER_WRITE_DQS e;
          orig_mid_min = half_middle mid_min;
          new_dqs = start_dqs;
          mid_min = 0 in
      bind_io (fold_io (\<lambda>i m.
          bind_io (shift_dq_out write_group i (shift_of e min_index (orig_mid_min - mid_min) i))
            (\<lambda>shift_dq. ret (margins e mid_min i shift_dq m)))
        [0..<RW_MGR_MEM_DQ_PER_WRITE_DQS] (out_none, out_none)) (\<lambda>m.
      seq_io (seqs [
        scc_mgr_apply_group_dqs_io_and_oct_out1 write_group (of_int new_dqs),
        IOWR_32DIRECT SCC_MGR_UPD 0 0])
      (ret m)))"

text \<open>The window of the mask: first with the mask delayed, then with the strobe delayed.\<close>

definition mask_left :: "nat \<Rightarrow> nat \<Rightarrow> mask_window io" where
  "mask_left rank_bgn write_group =
     bind_io (while_io (\<lambda>(d, _). 0 \<le> d)
       (\<lambda>(d, w). seq_io (scc_mgr_apply_group_dm_out1_delay write_group (of_int d))
          (seq_io (IOWR_32DIRECT SCC_MGR_UPD 0 0)
          (bind_io (mask_test rank_bgn write_group) (\<lambda>ok.
             ret (False, (d - uint DELTA_D, if ok then passes_at out_none (- d) w else restart_window out_none w))))))
       (uint IO_IO_OUT1_DELAY_MAX, (out_none, out_none, out_none, out_none, 0)))
     (\<lambda>(_, _, w). ret w)"

definition mask_right :: "nat \<Rightarrow> nat \<Rightarrow> int \<Rightarrow> mask_window \<Rightarrow> mask_window io" where
  "mask_right rank_bgn write_group new_dqs w =
     bind_io (while_io (\<lambda>(d, _). d \<le> uint IO_IO_OUT1_DELAY_MAX - new_dqs)
       (\<lambda>(d, w). seq_io (scc_mgr_apply_group_dqs_io_and_oct_out1 write_group (of_int (d + new_dqs)))
          (seq_io (IOWR_32DIRECT SCC_MGR_UPD 0 0)
          (bind_io (mask_test rank_bgn write_group) (\<lambda>ok.
             if ok then ret (False, (d + uint DELTA_D, passes_at out_none d w))
             else let w = restart_window out_none w; (_, _, _, _, win_best) = w in
               if uint IO_IO_OUT1_DELAY_MAX - new_dqs - d < win_best - 1 then ret (True, (d, w))
               else ret (False, (d + uint DELTA_D, w))))))
       (0, w))
     (\<lambda>(_, _, w). ret w)"

text \<open>Centring the mask: its margin, -1 if no window was found.\<close>

definition centre_mask :: "nat \<Rightarrow> nat \<Rightarrow> int \<Rightarrow> int io" where
  "centre_mask rank_bgn write_group new_dqs =
     bind_io (mask_left rank_bgn write_group) (\<lambda>w.
     seq_io (scc_mgr_apply_group_dm_out1_delay write_group 0)
     (let w = (case w of (_, end_curr, _) \<Rightarrow> if end_curr \<noteq> 0 then restart_window out_none w else w) in
     bind_io (mask_right rank_bgn write_group new_dqs w) (\<lambda>(_, _, bgn_best, end_best, win_best).
     let left_edge = - 1 * bgn_best; right_edge = end_best;
         mid = (left_edge - right_edge) sdiv 2;
         mid = (if mid < 0 then 0 else mid) in
     seq_io (seqs [
       scc_mgr_apply_group_dqs_io_and_oct_out1 write_group (of_int new_dqs),
       scc_mgr_apply_group_dm_out1_delay write_group (of_int mid),
       IOWR_32DIRECT SCC_MGR_UPD 0 0])
     (ret (if win_best = 0 then - 1 else left_edge - mid)))))"

definition rw_mgr_mem_calibrate_writes_center :: "nat \<Rightarrow> nat \<Rightarrow> nat \<Rightarrow> bool io" where
  "rw_mgr_mem_calibrate_writes_center rank_bgn write_group test_bgn =
     bind_io READ_SCC_DQS_IO_OUT1_DELAY (\<lambda>v.
     let start_dqs = sint v in
     bind_io (write_edges rank_bgn write_group test_bgn start_dqs) (\<lambda>e.
     case first_missing out_none RW_MGR_MEM_DQ_PER_WRITE_DQS e of
       Some i \<Rightarrow> seq_io (set_failing_group_stage (of_nat (test_bgn + i)) CAL_STAGE_WRITES CAL_SUBSTAGE_WRITES_CENTER)
         (ret False)
     | None \<Rightarrow>
         bind_io (centre_data write_group start_dqs e) (\<lambda>(dq_margin, dqs_margin).
         bind_io (centre_mask rank_bgn write_group start_dqs) (\<lambda>dm_margin.
         seq_io (seqs [
           modify_gbl (\<lambda>g. g\<lparr>fom_out := fom_out g + of_int (dq_margin + dqs_margin)\<rparr>),
           IOWR_32DIRECT SCC_MGR_UPD 0 0])
         (ret (0 \<le> dq_margin \<and> 0 \<le> dqs_margin \<and> 0 \<le> dm_margin))))))"

end
