(* ===== verification/Calibration.thy ===== *)
theory Calibration imports Deskew begin

text \<open>
  The calibration sequencer, last part: the calibration of one group, the read latency, and
  the whole calibration of the memory as the preloader calls it. A \<open>return 0\<close> out of the
  loops of \<open>mem_calibrate\<close> is \<open>None\<close>.
\<close>

section \<open>Reads\<close>

text \<open>One setting of the output side: the failed stage when the group is not calibrated.\<close>

definition try_read_group :: "nat \<Rightarrow> nat \<Rightarrow> nat \<Rightarrow> u32 \<Rightarrow> (bool \<times> u32) io" where
  "try_read_group write_group read_group test_bgn failed_substage =
     bind_io (rw_mgr_mem_calibrate_vfifo_find_dqs_en_phase_sweep_dq_in_delay write_group read_group test_bgn) (\<lambda>found.
     if \<not> found then ret (False, CAL_SUBSTAGE_DQS_EN_PHASE)
     else fold_io (\<lambda>sr (grp_calibrated, failed_substage).
       bind_io (get_io (\<lambda>s. skip_shadow_regs (param s) sr)) (\<lambda>skip.
       if skip \<noteq> 0 then ret (grp_calibrated, failed_substage) else
       seq_io (select_shadow_regs_for_update (sr * NUM_RANKS_PER_SHADOW_REG) read_group True)
       (bind_io (rw_mgr_mem_calibrate_vfifo_center (sr * NUM_RANKS_PER_SHADOW_REG) write_group read_group test_bgn
           True False) (\<lambda>ok.
        ret (if ok then (grp_calibrated, failed_substage) else (False, CAL_SUBSTAGE_VFIFO_CENTER))))))
       [0..<NUM_SHADOW_REGS] (True, failed_substage))"

definition sweep_output_phase :: "nat \<Rightarrow> nat \<Rightarrow> nat \<Rightarrow> u32 \<Rightarrow> (bool \<times> u32) io" where
  "sweep_output_phase write_group read_group test_bgn failed_substage =
     bind_io (while_io (\<lambda>(p, grp_calibrated, _). p \<le> IO_DQDQS_OUT_PHASE_MAX \<and> \<not> grp_calibrated)
       (\<lambda>(p, grp_calibrated, failed_substage). seq_io (seqs [
          scc_mgr_set_dqdqs_output_phase_all_ranks read_group p,
          rw_mgr_mem_calibrate_read_load_patterns_all_ranks])
        (bind_io (get_io (\<lambda>s. phy_debug_mode_flags (gbl s))) (\<lambda>flags.
         bind_io (if flags AND PHY_DEBUG_DISABLE_GUARANTEED_READ = 0
           then rw_mgr_mem_calibrate_read_test_patterns_all_ranks read_group 1 else ret (True, 0)) (\<lambda>(ok, _).
         if \<not> ok then ret (True, (p, grp_calibrated, failed_substage))
         else bind_io (try_read_group write_group read_group test_bgn failed_substage)
           (\<lambda>(grp_calibrated, failed_substage). ret (False, (p + 1, grp_calibrated, failed_substage)))))))
       (0, False, failed_substage))
     (\<lambda>(_, _, r). ret r)"

definition rw_mgr_mem_calibrate_vfifo :: "nat \<Rightarrow> nat \<Rightarrow> bool io" where
  "rw_mgr_mem_calibrate_vfifo read_group test_bgn =
     (let write_group = read_group; write_test_bgn = test_bgn;
          dtaps_per_ptap = taps_per_phase IO_DELAY_PER_DQS_EN_DCHAIN_TAP in
      seq_io (seqs [
        reg_file_set_stage CAL_STAGE_VFIFO,
        reg_file_set_group (of_nat read_group),
        reg_file_set_sub_stage CAL_SUBSTAGE_GUARANTEED_READ])
      (bind_io (while_io (\<lambda>(d, grp_calibrated, _). d \<le> dtaps_per_ptap \<and> \<not> grp_calibrated)
        (\<lambda>(d, grp_calibrated, failed_substage).
           seq_io (when_io (0 < d) (scc_mgr_apply_group_all_out_delay_add_all_ranks write_group write_test_bgn d))
           (bind_io (sweep_output_phase write_group read_group test_bgn failed_substage)
             (\<lambda>r. ret (False, (d + 2, r)))))
        (0, False, CAL_SUBSTAGE_GUARANTEED_READ)) (\<lambda>(_, d, grp_calibrated, failed_substage).
      if \<not> grp_calibrated then
        seq_io (set_failing_group_stage (of_nat write_group) CAL_STAGE_VFIFO failed_substage) (ret False)
      else seq_io (when_io (2 < d) (scc_mgr_zero_group write_group write_test_bgn True)) (ret True))))"

definition rw_mgr_mem_calibrate_vfifo_end :: "nat \<Rightarrow> nat \<Rightarrow> bool io" where
  "rw_mgr_mem_calibrate_vfifo_end read_group test_bgn =
     (let write_group = read_group in
      seq_io (seqs [
        reg_file_set_stage CAL_STAGE_VFIFO_AFTER_WRITES,
        reg_file_set_sub_stage CAL_SUBSTAGE_VFIFO_CENTER,
        reg_file_set_group (of_nat read_group)])
      (bind_io (fold_io (\<lambda>sr grp_calibrated.
          bind_io (get_io (\<lambda>s. skip_shadow_regs (param s) sr)) (\<lambda>skip.
          if skip \<noteq> 0 then ret grp_calibrated else
          seq_io (select_shadow_regs_for_update (sr * NUM_RANKS_PER_SHADOW_REG) read_group True)
          (bind_io (rw_mgr_mem_calibrate_vfifo_center (sr * NUM_RANKS_PER_SHADOW_REG) write_group read_group test_bgn
              False True) (\<lambda>ok. ret (grp_calibrated \<and> ok)))))
          [0..<NUM_SHADOW_REGS] True) (\<lambda>grp_calibrated.
      if \<not> grp_calibrated then seq_io (set_failing_group_stage (of_nat write_group)
        CAL_STAGE_VFIFO_AFTER_WRITES CAL_SUBSTAGE_VFIFO_CENTER) (ret False)
      else ret True)))"

text \<open>\<open>do { ... } while (gbl->curr_read_lat > 0)\<close>: \<open>go\<close> is the condition.\<close>

definition lower_latency :: "bool io" where
  "lower_latency = bind_io (while_io (\<lambda>(go, found_one). go)
     (\<lambda>(go, found_one).
        bind_io (get_io (\<lambda>s. curr_read_lat (gbl s))) (\<lambda>lat.
        seq_io (IOWR_32DIRECT PHY_MGR_PHY_RLAT 0 lat)
        (bind_io (rw_mgr_mem_calibrate_read_test_all_ranks 0 NUM_READ_TESTS PASS_ALL_BITS True) (\<lambda>(ok, _).
         if \<not> ok then ret (True, (go, found_one))
         else seq_io (modify_gbl (\<lambda>g. g\<lparr>curr_read_lat := curr_read_lat g - 1\<rparr>))
           (bind_io (get_io (\<lambda>s. curr_read_lat (gbl s))) (\<lambda>lat. ret (False, (0 < lat, True))))))))
     (True, False)) (\<lambda>(_, _, found_one). ret found_one)"

definition rw_mgr_mem_calibrate_lfifo :: "bool io" where
  "rw_mgr_mem_calibrate_lfifo =
     seq_io (seqs [
       reg_file_set_stage CAL_STAGE_LFIFO,
       reg_file_set_sub_stage CAL_SUBSTAGE_READ_LATENCY,
       rw_mgr_mem_calibrate_read_load_patterns_all_ranks])
     (bind_io lower_latency (\<lambda>found_one.
      seq_io (IOWR_32DIRECT PHY_MGR_CMD_FIFO_RESET 0 0)
      (if found_one then seq_io (seqs [
         modify_gbl (\<lambda>g. g\<lparr>curr_read_lat := curr_read_lat g + 2\<rparr>),
         bind_io (get_io (\<lambda>s. curr_read_lat (gbl s))) (\<lambda>lat. IOWR_32DIRECT PHY_MGR_PHY_RLAT 0 lat)])
         (ret True)
       else seq_io (set_failing_group_stage 0xff CAL_STAGE_LFIFO CAL_SUBSTAGE_READ_LATENCY) (ret False))))"

section \<open>Writes\<close>

definition rw_mgr_mem_calibrate_writes :: "nat \<Rightarrow> nat \<Rightarrow> nat \<Rightarrow> bool io" where
  "rw_mgr_mem_calibrate_writes rank_bgn g test_bgn =
     seq_io (seqs [
       reg_file_set_stage CAL_STAGE_WRITES,
       reg_file_set_sub_stage CAL_SUBSTAGE_WRITES_CENTER,
       reg_file_set_group (of_nat g)])
     (bind_io (rw_mgr_mem_calibrate_writes_center rank_bgn g test_bgn) (\<lambda>ok.
      if \<not> ok then
        seq_io (set_failing_group_stage (of_nat g) CAL_STAGE_WRITES CAL_SUBSTAGE_WRITES_CENTER) (ret False)
      else ret True))"

section \<open>The memory\<close>

definition max_latency :: u32 where
  "max_latency = shl 1 (of_nat MAX_LATENCY_COUNT_WIDTH) div 1 - 1"

definition mem_config :: "unit io" where
  "mem_config =
     bind_io (IORD_32DIRECT MEM_T_WL_ADD 0) (\<lambda>wl.
     bind_io (IORD_32DIRECT DATA_MGR_MEM_T_ADD 0) (\<lambda>additive.
     bind_io (IORD_32DIRECT MEM_T_RL_ADD 0) (\<lambda>rlat.
     let wlat = wl + additive + 1 in seqs [
       modify_gbl (\<lambda>g. g\<lparr>rw_wl_nop_cycles := wlat - 2\<rparr>),
       modify_gbl (\<lambda>g. g\<lparr>curr_read_lat := if max_latency < rlat + 16 then max_latency else rlat + 16\<rparr>),
       bind_io (get_io (\<lambda>s. curr_read_lat (gbl s))) (\<lambda>lat. IOWR_32DIRECT PHY_MGR_PHY_RLAT 0 lat),
       modify_gbl (\<lambda>g. g\<lparr>curr_write_lat := wlat + 1\<rparr>),
       IOWR_32DIRECT PHY_MGR_AFI_WLAT 0 (wlat + 1 - 2),
       mem_precharge_and_activate])))"

definition mem_skip_calibrate :: "unit io" where
  "mem_skip_calibrate = seqs [
     for_ranks (\<lambda>r. seqs [
       select_shadow_regs_for_update r 0 True,
       for_io 0 RW_MGR_MEM_IF_READ_DQS_WIDTH (\<lambda>i. seqs [
         scc_mgr_set_dqs_en_phase i 0,
         scc_mgr_set_dqdqs_output_phase i (of_nat (5 * IO_DLL_CHAIN_LENGTH div 4) - 2)]),
       IOWR_32DIRECT SCC_MGR_DQS_ENA 0 0xff,
       IOWR_32DIRECT SCC_MGR_DQS_IO_ENA 0 0xff,
       for_io 0 RW_MGR_MEM_IF_WRITE_DQS_WIDTH (\<lambda>i. seqs [
         IOWR_32DIRECT SCC_MGR_GROUP_COUNTER 0 (of_nat i),
         IOWR_32DIRECT SCC_MGR_DQ_ENA 0 0xff,
         IOWR_32DIRECT SCC_MGR_DM_ENA 0 0xff]),
       IOWR_32DIRECT SCC_MGR_UPD 0 0]),
     for_io 0 RW_MGR_MEM_IF_READ_DQS_WIDTH (\<lambda>i. seqs [
       scc_mgr_set_dqs_bus_in_delay i 10,
       scc_mgr_load_dqs i]),
     IOWR_32DIRECT SCC_MGR_UPD 0 0,
     for_io 0 (unat CALIB_VFIFO_OFFSET) (\<lambda>j. IOWR_32DIRECT PHY_MGR_CMD_INC_VFIFO_HARD_PHY 0 0xff),
     IOWR_32DIRECT PHY_MGR_CMD_FIFO_RESET 0 0,
     modify_gbl (\<lambda>g. g\<lparr>curr_read_lat := CALIB_LFIFO_OFFSET\<rparr>),
     bind_io (get_io (\<lambda>s. curr_read_lat (gbl s))) (\<lambda>lat. IOWR_32DIRECT PHY_MGR_PHY_RLAT 0 lat)]"

text \<open>
  \<open>if (!(gbl->phy_debug_mode_flags & PHY_DEBUG_SWEEP_ALL_GROUPS)) return 0;\<close> after a failure
\<close>

definition failed_group :: "bool option io" where
  "failed_group = bind_io (get_io (\<lambda>s. phy_debug_mode_flags (gbl s))) (\<lambda>flags.
     ret (if flags AND PHY_DEBUG_SWEEP_ALL_GROUPS = 0 then None else Some True))"

text \<open>A step of a group that is done unless the group has failed before.\<close>

definition unless_failed :: "bool io \<Rightarrow> bool option \<Rightarrow> bool option io" where
  "unless_failed m r = (if r = Some False
     then bind_io m (\<lambda>ok. if ok then ret (Some False) else failed_group) else ret r)"

definition read_groups :: "nat \<Rightarrow> nat list" where
  "read_groups write_group = [first_read_group write_group..<first_read_group (write_group + 1)]"

definition calibrate_group :: "nat \<Rightarrow> nat \<Rightarrow> bool option io" where
  "calibrate_group write_group write_test_bgn =
     bind_io (fold_io (\<lambda>(j, read_group). unless_failed
         (if STATIC_CALIB_STEPS AND CALIB_SKIP_VFIFO = 0
          then rw_mgr_mem_calibrate_vfifo read_group (j * RW_MGR_MEM_DQ_PER_READ_DQS) else ret True))
       (enumerate 0 (read_groups write_group)) (Some False)) (\<lambda>r.
     bind_io (if r = Some False then
         fold_io (\<lambda>sr r. if r = None then ret None else
           bind_io (get_io (\<lambda>s. skip_shadow_regs (param s) sr)) (\<lambda>skip.
           if STATIC_CALIB_STEPS AND CALIB_SKIP_WRITES = 0 \<and> STATIC_CALIB_STEPS AND CALIB_SKIP_DELAY_SWEEPS = 0 \<and> skip = 0
           then seq_io (select_shadow_regs_for_update (sr * NUM_RANKS_PER_SHADOW_REG) write_group True)
             (bind_io (rw_mgr_mem_calibrate_writes (sr * NUM_RANKS_PER_SHADOW_REG) write_group write_test_bgn)
             (\<lambda>ok. if ok then ret r else failed_group))
           else ret r))
         [0..<NUM_SHADOW_REGS] r
       else ret r) (\<lambda>r.
     fold_io (\<lambda>(j, read_group). unless_failed
         (if STATIC_CALIB_STEPS AND CALIB_SKIP_WRITES = 0
          then rw_mgr_mem_calibrate_vfifo_end read_group (j * RW_MGR_MEM_DQ_PER_READ_DQS) else ret True))
       (enumerate 0 (read_groups write_group)) r))"

text \<open>All groups: whether the loop was left by \<open>return 0\<close>, and the number of failing groups.\<close>

definition calibrate_groups :: "(bool \<times> u32) io" where
  "calibrate_groups =
     bind_io (get_io (\<lambda>s. NOT (skip_groups (param s)))) (\<lambda>run_groups.
     bind_io (while_io (\<lambda>(write_group, _). write_group < RW_MGR_MEM_IF_WRITE_DQS_WIDTH)
       (\<lambda>(write_group, run_groups, failing_groups).
          let current_run = run_groups AND run_group_mask;
              run_groups = shr run_groups (of_nat RW_MGR_NUM_DQS_PER_WRITE_GROUP);
              write_test_bgn = write_group * RW_MGR_MEM_DQ_PER_WRITE_DQS in
          if current_run = 0 then ret (False, (write_group + 1, run_groups, failing_groups))
          else seq_io (seqs [
              IOWR_32DIRECT SCC_MGR_GROUP_COUNTER 0 (of_nat write_group),
              scc_mgr_zero_group write_group write_test_bgn False])
            (bind_io (calibrate_group write_group write_test_bgn) (\<lambda>r. ret (case r of
                None \<Rightarrow> (True, (write_group, run_groups, failing_groups))
              | Some failed \<Rightarrow> (False, (write_group + 1, run_groups,
                  if failed then failing_groups + 1 else failing_groups))))))
       (0, run_groups, 0))
     (\<lambda>(returned, _, _, failing_groups). ret (returned, failing_groups)))"

text \<open>One round of the calibration; false is \<open>return 0\<close>.\<close>

definition calibrate_once :: "bool io" where
  "calibrate_once =
     seq_io scc_mgr_zero_all
     (bind_io calibrate_groups (\<lambda>(returned, failing_groups).
      if returned \<or> failing_groups \<noteq> 0 then ret False else
      bind_io (get_io (\<lambda>s. skip_groups (param s))) (\<lambda>skip.
      if STATIC_CALIB_STEPS AND CALIB_SKIP_LFIFO = 0 \<and> skip = 0 then rw_mgr_mem_calibrate_lfifo else ret True)))"

text \<open>Write levelling is for other devices, and left out here.\<close>

definition mem_calibrate :: "bool io" where
  "mem_calibrate =
     seq_io (seqs [
       modify_gbl (\<lambda>g. g\<lparr>error_substage := CAL_SUBSTAGE_NIL, error_stage := CAL_STAGE_NIL, error_group := 0xff,
         fom_in := 0, fom_out := 0\<rparr>),
       mem_config,
       for_io 0 RW_MGR_MEM_IF_READ_DQS_WIDTH (\<lambda>i. seqs [
         IOWR_32DIRECT SCC_MGR_GROUP_COUNTER 0 (of_nat i),
         scc_set_bypass_mode i 0x1])])
     (bind_io (get_io dyn_calib_steps) (\<lambda>steps.
      bind_io (if ucast steps AND CALIB_SKIP_ALL = CALIB_SKIP_ALL then seq_io mem_skip_calibrate (ret True)
        else fold_io (\<lambda>_ ok. if ok then calibrate_once else ret False) [0..<unat NUM_CALIB_REPEAT] True) (\<lambda>ok.
      if \<not> ok then ret False else seq_io (IOWR_32DIRECT SCC_MGR_UPD 0 0) (ret True))))"

definition report_pass :: "unit io" where
  "report_pass = seqs [
     IPRINT ''CALIBRATION PASSED'',
     modify_gbl (\<lambda>g. g\<lparr>fom_in := fom_in g div 2, fom_out := fom_out g div 2\<rparr>),
     modify_gbl (\<lambda>g. g\<lparr>fom_in := if 0xff < fom_in g then 0xff else fom_in g\<rparr>),
     modify_gbl (\<lambda>g. g\<lparr>fom_out := if 0xff < fom_out g then 0xff else fom_out g\<rparr>),
     bind_io (get_io gbl) (\<lambda>g. let debug_info = fom_in g OR shl (fom_out g) 8 in seqs [
       IOWR_32DIRECT REG_FILE_FOM 0 debug_info,
       IOWR_32DIRECT PHY_MGR_CAL_DEBUG_INFO 0 debug_info]),
     IOWR_32DIRECT PHY_MGR_CAL_STATUS 0 PHY_MGR_CAL_SUCCESS]"

definition failure_info :: "gbl_t \<Rightarrow> u32" where
  "failure_info g = error_stage g OR shl (error_substage g) 8 OR shl (error_group g) 16"

definition report_failure :: "unit io" where
  "report_failure = seq_io (IPRINT ''CALIBRATION FAILED'') (bind_io (get_io gbl) (\<lambda>g. seqs [
     IOWR_32DIRECT REG_FILE_FAILING_STAGE 0 (failure_info g),
     IOWR_32DIRECT PHY_MGR_CAL_DEBUG_INFO 0 (failure_info g),
     IOWR_32DIRECT PHY_MGR_CAL_STATUS 0 PHY_MGR_CAL_FAIL,
     IOWR_32DIRECT REG_FILE_FAILING_STAGE 0 (failure_info g)]))"

definition run_mem_calibrate :: "bool io" where
  "run_mem_calibrate =
     seq_io (IOWR_32DIRECT PHY_MGR_CAL_STATUS 0 PHY_MGR_CAL_RESET)
     (bind_io (IORD_32DIRECT CTRL_CONFIG_REG 0) (\<lambda>ctrlcfg.
     seq_io (seqs [
       IOWR_32DIRECT CTRL_CONFIG_REG 0 (ctrlcfg AND 0xFFBFFFFF),
       initialize,
       rw_mgr_mem_initialize])
     (bind_io mem_calibrate (\<lambda>pass.
     seq_io (seqs [
       mem_precharge_and_activate,
       IOWR_32DIRECT PHY_MGR_CMD_FIFO_RESET 0 0,
       bind_io (get_io (\<lambda>s. phy_debug_mode_flags (gbl s))) (\<lambda>flags.
         when_io (flags AND PHY_DEBUG_IN_DEBUG_MODE = 0) (seqs [
           rw_mgr_mem_handoff,
           IOWR_32DIRECT PHY_MGR_MUX_SEL 0 0x2])),
       IOWR_32DIRECT CTRL_CONFIG_REG 0 ctrlcfg,
       if pass then report_pass else report_failure])
     (ret pass)))))"

section \<open>The entry point\<close>

definition write_rom :: "u32 \<Rightarrow> u32 list \<Rightarrow> unit io" where
  "write_rom base rom = for_io 0 (length rom) (\<lambda>i. IOWR_32DIRECT base (shl (of_nat i) 2) (rom ! i))"

definition hc_initialize_rom_data :: "unit io" where
  "hc_initialize_rom_data = seqs [write_rom RW_MGR_INST_ROM_WRITE inst_rom_init, write_rom RW_MGR_AC_ROM_WRITE ac_rom_init]"

definition initialize_reg_file :: "unit io" where
  "initialize_reg_file = seqs [
     IOWR_32DIRECT REG_FILE_SIGNATURE 0 REG_FILE_INIT_SEQ_SIGNATURE,
     IOWR_32DIRECT REG_FILE_DEBUG_DATA_ADDR 0 0,
     IOWR_32DIRECT REG_FILE_CUR_STAGE 0 0,
     IOWR_32DIRECT REG_FILE_FOM 0 0,
     IOWR_32DIRECT REG_FILE_FAILING_STAGE 0 0,
     IOWR_32DIRECT REG_FILE_DEBUG1 0 0,
     IOWR_32DIRECT REG_FILE_DEBUG2 0 0]"

definition initialize_hps_phy :: "unit io" where
  "initialize_hps_phy =
     (let trk_sample_count = 7500; trk_long_idle_sample_count = shl 10 16 OR 100 in seqs [
       IOWR_32DIRECT BASE_MMR SDR_CTRLGRP_PHYCTRL_PHYCTRL_0_OFFSET
         (SDR_CTRLGRP_PHYCTRL_PHYCTRL_0_ACDELAYEN_SET 2 OR
          SDR_CTRLGRP_PHYCTRL_PHYCTRL_0_DQDELAYEN_SET 1 OR
          SDR_CTRLGRP_PHYCTRL_PHYCTRL_0_DQSDELAYEN_SET 1 OR
          SDR_CTRLGRP_PHYCTRL_PHYCTRL_0_DQSLOGICDELAYEN_SET 1 OR
          SDR_CTRLGRP_PHYCTRL_PHYCTRL_0_RESETDELAYEN_SET 0 OR
          SDR_CTRLGRP_PHYCTRL_PHYCTRL_0_LPDDRDIS_SET 1 OR
          SDR_CTRLGRP_PHYCTRL_PHYCTRL_0_ADDLATSEL_SET 0 OR
          SDR_CTRLGRP_PHYCTRL_PHYCTRL_0_SAMPLECOUNT_19_0_SET trk_sample_count),
       IOWR_32DIRECT BASE_MMR SDR_CTRLGRP_PHYCTRL_PHYCTRL_1_OFFSET
         (SDR_CTRLGRP_PHYCTRL_PHYCTRL_1_SAMPLECOUNT_31_20_SET
            (shr trk_sample_count SDR_CTRLGRP_PHYCTRL_PHYCTRL_0_SAMPLECOUNT_19_0_WIDTH) OR
          SDR_CTRLGRP_PHYCTRL_PHYCTRL_1_LONGIDLESAMPLECOUNT_19_0_SET trk_long_idle_sample_count),
       IOWR_32DIRECT BASE_MMR SDR_CTRLGRP_PHYCTRL_PHYCTRL_2_OFFSET
         (SDR_CTRLGRP_PHYCTRL_PHYCTRL_2_LONGIDLESAMPLECOUNT_31_20_SET
            (shr trk_long_idle_sample_count SDR_CTRLGRP_PHYCTRL_PHYCTRL_1_LONGIDLESAMPLECOUNT_19_0_WIDTH))])"

text \<open>\<open>x = x ^ a; x = x << n; x = x ^ b\<close>\<close>

definition packed :: "u32 \<Rightarrow> (u32 \<times> u32) list \<Rightarrow> u32" where
  "packed a = foldl (\<lambda>x (n, b). shl x n XOR b) (0x0 XOR a)"

definition initialize_tracking :: "unit io" where
  "initialize_tracking = seqs [
     IOWR_32DIRECT REG_FILE_DTAPS_PER_PTAP 0 (taps_per_phase IO_DELAY_PER_DCHAIN_TAP),
     IOWR_32DIRECT REG_FILE_TRK_SAMPLE_COUNT 0 7500,
     IOWR_32DIRECT REG_FILE_TRK_LONGIDLE 0 (packed 10 [(16, 100)]),
     IOWR_32DIRECT REG_FILE_DELAYS 0 (packed 243 [(8, 14), (8, 10), (8, 4)]),
     IOWR_32DIRECT REG_FILE_TRK_RW_MGR_ADDR 0
       (packed RW_MGR_IDLE [(8, RW_MGR_ACTIVATE_1), (8, RW_MGR_SGLE_READ), (8, RW_MGR_PRECHARGE_ALL)]),
     IOWR_32DIRECT REG_FILE_TRK_READ_DQS_WIDTH 0 (of_nat RW_MGR_MEM_IF_READ_DQS_WIDTH),
     IOWR_32DIRECT REG_FILE_TRK_RFSH 0 (packed RW_MGR_REFRESH_ALL [(24, 1000)])]"

definition user_init_cal_req :: "unit io" where
  "user_init_cal_req = bind_io (IORD_32DIRECT SCC_MGR_AFI_CAL_INIT 0) (\<lambda>scc_afi_reg.
     if scc_afi_reg = 1 then seqs [
       initialize,
       rw_mgr_mem_initialize,
       rw_mgr_mem_handoff,
       IOWR_32DIRECT PHY_MGR_MUX_SEL 0 0,
       IOWR_32DIRECT PHY_MGR_CAL_STATUS 0 PHY_MGR_CAL_SUCCESS]
     else if scc_afi_reg = 2 then bind_io run_mem_calibrate (\<lambda>_. ret ())
     else ret ())"

text \<open>
  \<open>my_param\<close> and \<open>my_gbl\<close> are local and not initialised: they start as whatever the state has
  in \<open>param\<close> and \<open>gbl\<close>.
\<close>

definition sdram_calibration :: "u32 io" where
  "sdram_calibration =
     seq_io (seqs [
       modify_gbl (\<lambda>g. g\<lparr>phy_debug_mode_flags := 0 OR PHY_DEBUG_ENABLE_CAL_RPT\<rparr>),
       initialize_reg_file,
       initialize_hps_phy,
       scc_mgr_initialize,
       initialize_tracking,
       IPRINT ''Preparing to start memory calibration'',
       hc_initialize_rom_data,
       reg_file_set_stage CAL_STAGE_NIL,
       reg_file_set_group 0,
       modify_io (\<lambda>s. s\<lparr>dyn_calib_steps := ucast STATIC_CALIB_STEPS\<rparr>),
       modify_io (\<lambda>s. s\<lparr>skip_delay_mask :=
         if ucast (dyn_calib_steps s) AND CALIB_SKIP_DELAY_LOOPS = 0 then 0xff else 0x0\<rparr>)])
     (bind_io run_mem_calibrate (\<lambda>pass. ret (of_bool pass)))"

text \<open>\<open>sdram_calibration_full\<close> of sdram.c\<close>

definition sdram_calibration_full :: "u32 io" where
  "sdram_calibration_full = sdram_calibration"

end
