(* ===== verification/SplBoard.thy ===== *)
theory SplBoard imports Frames Calibration begin

text \<open>
  spl.c and s_init.c: the board initialisation of the preloader, which calls every other
  component in order. \<open>spl_board_init\<close> is the sequence of the phases that the source
  separates by its watchdog resets and \<open>DEBUG_MEMORY\<close> marks, both empty in this build.
\<close>

section \<open>The clock configuration\<close>

definition cm_default_cfg :: cm_config_t where
  "cm_default_cfg = \<lparr>
     main_vco_base = MAIN_VCO_BASE,
     mpuclk = CLKMGR_MAINPLLGRP_MPUCLK_CNT_SET CONFIG_HPS_MAINPLLGRP_MPUCLK_CNT,
     mainclk = CLKMGR_MAINPLLGRP_MAINCLK_CNT_SET CONFIG_HPS_MAINPLLGRP_MAINCLK_CNT,
     dbgatclk = CLKMGR_MAINPLLGRP_DBGATCLK_CNT_SET CONFIG_HPS_MAINPLLGRP_DBGATCLK_CNT,
     mainqspiclk = CLKMGR_MAINPLLGRP_MAINQSPICLK_CNT_SET CONFIG_HPS_MAINPLLGRP_MAINQSPICLK_CNT,
     mainnandsdmmcclk = CLKMGR_PERPLLGRP_PERNANDSDMMCCLK_CNT_SET
       CONFIG_HPS_MAINPLLGRP_MAINNANDSDMMCCLK_CNT,
     cfg2fuser0clk = CLKMGR_MAINPLLGRP_CFGS2FUSER0CLK_CNT_SET CONFIG_HPS_MAINPLLGRP_CFGS2FUSER0CLK_CNT,
     maindiv = CLKMGR_MAINPLLGRP_MAINDIV_L3MPCLK_SET CONFIG_HPS_MAINPLLGRP_MAINDIV_L3MPCLK OR
       CLKMGR_MAINPLLGRP_MAINDIV_L3SPCLK_SET CONFIG_HPS_MAINPLLGRP_MAINDIV_L3SPCLK OR
       CLKMGR_MAINPLLGRP_MAINDIV_L4MPCLK_SET CONFIG_HPS_MAINPLLGRP_MAINDIV_L4MPCLK OR
       CLKMGR_MAINPLLGRP_MAINDIV_L4SPCLK_SET CONFIG_HPS_MAINPLLGRP_MAINDIV_L4SPCLK,
     dbgdiv = CLKMGR_MAINPLLGRP_DBGDIV_DBGATCLK_SET CONFIG_HPS_MAINPLLGRP_DBGDIV_DBGATCLK OR
       CLKMGR_MAINPLLGRP_DBGDIV_DBGCLK_SET CONFIG_HPS_MAINPLLGRP_DBGDIV_DBGCLK,
     tracediv = CLKMGR_MAINPLLGRP_TRACEDIV_TRACECLK_SET CONFIG_HPS_MAINPLLGRP_TRACEDIV_TRACECLK,
     l4src = CLKMGR_MAINPLLGRP_L4SRC_L4MP_SET CONFIG_HPS_MAINPLLGRP_L4SRC_L4MP OR
       CLKMGR_MAINPLLGRP_L4SRC_L4SP_SET CONFIG_HPS_MAINPLLGRP_L4SRC_L4SP,
     peri_vco_base = PERI_VCO_BASE,
     emac0clk = CLKMGR_PERPLLGRP_EMAC0CLK_CNT_SET CONFIG_HPS_PERPLLGRP_EMAC0CLK_CNT,
     emac1clk = CLKMGR_PERPLLGRP_EMAC1CLK_CNT_SET CONFIG_HPS_PERPLLGRP_EMAC1CLK_CNT,
     perqspiclk = CLKMGR_PERPLLGRP_PERQSPICLK_CNT_SET CONFIG_HPS_PERPLLGRP_PERQSPICLK_CNT,
     pernandsdmmcclk = CLKMGR_PERPLLGRP_PERNANDSDMMCCLK_CNT_SET CONFIG_HPS_PERPLLGRP_PERNANDSDMMCCLK_CNT,
     perbaseclk = CLKMGR_PERPLLGRP_PERBASECLK_CNT_SET CONFIG_HPS_PERPLLGRP_PERBASECLK_CNT,
     s2fuser1clk = CLKMGR_PERPLLGRP_S2FUSER1CLK_CNT_SET CONFIG_HPS_PERPLLGRP_S2FUSER1CLK_CNT,
     perdiv = CLKMGR_PERPLLGRP_DIV_USBCLK_SET CONFIG_HPS_PERPLLGRP_DIV_USBCLK OR
       CLKMGR_PERPLLGRP_DIV_SPIMCLK_SET CONFIG_HPS_PERPLLGRP_DIV_SPIMCLK OR
       CLKMGR_PERPLLGRP_DIV_CAN0CLK_SET CONFIG_HPS_PERPLLGRP_DIV_CAN0CLK OR
       CLKMGR_PERPLLGRP_DIV_CAN1CLK_SET CONFIG_HPS_PERPLLGRP_DIV_CAN1CLK,
     gpiodiv = CLKMGR_PERPLLGRP_GPIODIV_GPIODBCLK_SET CONFIG_HPS_PERPLLGRP_GPIODIV_GPIODBCLK,
     persrc = CLKMGR_PERPLLGRP_SRC_QSPI_SET CONFIG_HPS_PERPLLGRP_SRC_QSPI OR
       CLKMGR_PERPLLGRP_SRC_NAND_SET CONFIG_HPS_PERPLLGRP_SRC_NAND OR
       CLKMGR_PERPLLGRP_SRC_SDMMC_SET CONFIG_HPS_PERPLLGRP_SRC_SDMMC,
     sdram_vco_base = SDR_VCO_BASE,
     ddrdqsclk = CLKMGR_SDRPLLGRP_DDRDQSCLK_PHASE_SET CONFIG_HPS_SDRPLLGRP_DDRDQSCLK_PHASE OR
       CLKMGR_SDRPLLGRP_DDRDQSCLK_CNT_SET CONFIG_HPS_SDRPLLGRP_DDRDQSCLK_CNT,
     ddr2xdqsclk = CLKMGR_SDRPLLGRP_DDR2XDQSCLK_PHASE_SET CONFIG_HPS_SDRPLLGRP_DDR2XDQSCLK_PHASE OR
       CLKMGR_SDRPLLGRP_DDR2XDQSCLK_CNT_SET CONFIG_HPS_SDRPLLGRP_DDR2XDQSCLK_CNT,
     ddrdqclk = CLKMGR_SDRPLLGRP_DDRDQCLK_PHASE_SET CONFIG_HPS_SDRPLLGRP_DDRDQCLK_PHASE OR
       CLKMGR_SDRPLLGRP_DDRDQCLK_CNT_SET CONFIG_HPS_SDRPLLGRP_DDRDQCLK_CNT,
     s2fuser2clk = CLKMGR_SDRPLLGRP_S2FUSER2CLK_PHASE_SET CONFIG_HPS_SDRPLLGRP_S2FUSER2CLK_PHASE OR
       CLKMGR_SDRPLLGRP_S2FUSER2CLK_CNT_SET CONFIG_HPS_SDRPLLGRP_S2FUSER2CLK_CNT\<rparr>"

section \<open>Operations\<close>

text \<open>
  What the sequence calls outside this model: \<open>preloader_console_init\<close> of the serial driver,
  \<open>enable_interrupts\<close>, which is inline assembly, and the addresses the linker gives the two ECC counters.
\<close>

record spl_ext =
  preloader_console_init :: "unit io"
  enable_interrupts :: "unit io"
  irq_cnt_ecc_ocram_corrected :: u32
  irq_cnt_ecc_ocram_uncorrected :: u32

text \<open>A call whose result the caller drops.\<close>

definition ignore :: "'a io \<Rightarrow> unit io" where
  "ignore m = seq_io m (ret ())"

definition s_init :: "unit io" where
  "s_init =
     bind_io (readl CONFIG_SYSMGR_ECC_OCRAM) (\<lambda>reg. seqs [
       when_io (reg AND SYSMGR_ECC_OCRAM_SERR \<noteq> 0)
         (writel (SYSMGR_ECC_OCRAM_SERR OR SYSMGR_ECC_OCRAM_EN) CONFIG_SYSMGR_ECC_OCRAM),
       when_io (reg AND SYSMGR_ECC_OCRAM_DERR \<noteq> 0)
         (writel (SYSMGR_ECC_OCRAM_DERR OR SYSMGR_ECC_OCRAM_EN) CONFIG_SYSMGR_ECC_OCRAM),
       writel 0x1 SOCFPGA_L3REGS_ADDRESS,
       bind_io is_wdt_in_reset (\<lambda>r. when_io (r = 0) watchdog_disable)])"

definition BOOT_DEVICE_MMC1 :: u32 where
  "BOOT_DEVICE_MMC1 = 3"

definition MMCSD_MODE_MBR :: u32 where
  "MMCSD_MODE_MBR = 3"

definition spl_boot_device :: u32 where
  "spl_boot_device = BOOT_DEVICE_MMC1"

definition spl_boot_mode :: u32 where
  "spl_boot_mode = MMCSD_MODE_MBR"

definition init_boot_params :: "unit io" where
  "init_boot_params = modify_io (\<lambda>s. s\<lparr>boot_params_ptr := 0\<rparr>)"

definition spl_freeze :: "unit io" where
  "spl_freeze = seqs [
     ignore (sys_mgr_frzctrl_freeze_req FREEZE_CHANNEL_0 FREEZE_CONTROLLER_FSM_SW),
     ignore (sys_mgr_frzctrl_freeze_req FREEZE_CHANNEL_1 FREEZE_CONTROLLER_FSM_SW),
     ignore (sys_mgr_frzctrl_freeze_req FREEZE_CHANNEL_2 FREEZE_CONTROLLER_FSM_SW),
     ignore (sys_mgr_frzctrl_freeze_req FREEZE_CHANNEL_3 FREEZE_CONTROLLER_FSM_SW)]"

definition spl_reset :: "unit io" where
  "spl_reset = seqs [
     reset_assert_all_peripherals_except_l4wd0,
     reset_assert_all_bridges,
     reset_deassert_osc1timer0,
     ignore timer_init]"

definition spl_clocks :: "unit io" where
  "spl_clocks = ignore (cm_basic_init cm_default_cfg)"

text \<open>
  The condition around the I/O configuration: it is skipped after a warm reset that left the
  handshake bit set. A \<open>spl_handshake\<close> sets the bit, runs the configuration and clears it.
\<close>

definition unless_warm :: "u32 \<Rightarrow> unit io \<Rightarrow> unit io" where
  "unless_warm handshake m =
     bind_io (readl CONFIG_SYSMGR_ROMCODEGRP_CTRL) (\<lambda>v. bind_io (get_io rst_mgr_status) (\<lambda>status.
     when_io (v AND handshake = 0 \<or> status AND RSTMGR_WARMRST_MASK = 0) (seqs [
       setbits_le32 CONFIG_SYSMGR_ROMCODEGRP_CTRL handshake,
       m,
       clrbits_le32 CONFIG_SYSMGR_ROMCODEGRP_CTRL handshake])))"

definition spl_iocsr :: "unit io" where
  "spl_iocsr = unless_warm SYSMGR_ROMCODEGRP_CTRL_WARMRSTCFGIO (seqs [
     ignore (scan_mgr_io_scan_chain_prg IO_SCAN_CHAIN_0 CONFIG_HPS_IOCSR_SCANCHAIN0_LENGTH
       iocsr_scan_chain0_table),
     ignore (scan_mgr_io_scan_chain_prg IO_SCAN_CHAIN_1 CONFIG_HPS_IOCSR_SCANCHAIN1_LENGTH
       iocsr_scan_chain1_table),
     ignore (scan_mgr_io_scan_chain_prg IO_SCAN_CHAIN_2 CONFIG_HPS_IOCSR_SCANCHAIN2_LENGTH
       iocsr_scan_chain2_table),
     ignore (scan_mgr_io_scan_chain_prg IO_SCAN_CHAIN_3 CONFIG_HPS_IOCSR_SCANCHAIN3_LENGTH
       iocsr_scan_chain3_table)])"

definition spl_pinmux :: "unit io" where
  "spl_pinmux = unless_warm SYSMGR_ROMCODEGRP_CTRL_WARMRSTCFGPINMUX sysmgr_pinmux_init"

definition spl_release :: "unit io" where
  "spl_release = seqs [reset_deassert_peripherals_handoff, reset_deassert_bridges_handoff]"

definition spl_thaw :: "unit io" where
  "spl_thaw = seqs [
     ignore (sys_mgr_frzctrl_thaw_req FREEZE_CHANNEL_0 FREEZE_CONTROLLER_FSM_SW),
     ignore (sys_mgr_frzctrl_thaw_req FREEZE_CHANNEL_1 FREEZE_CONTROLLER_FSM_SW),
     ignore (sys_mgr_frzctrl_thaw_req FREEZE_CHANNEL_2 FREEZE_CONTROLLER_FSM_SW),
     ignore (sys_mgr_frzctrl_thaw_req FREEZE_CHANNEL_3 FREEZE_CONTROLLER_FSM_SW)]"

definition checkboard :: "unit io" where
  "checkboard = msg ''BOARD : Altera SOCFPGA Cyclone V Board'' []"

definition spl_console :: "spl_ext \<Rightarrow> unit io" where
  "spl_console ext = seqs [preloader_console_init ext, checkboard]"

definition spl_sdram :: "unit io" where
  "spl_sdram = seqs [
     msg ''SDRAM: Initializing MMR registers'' [],
     bind_io sdram_mmr_init_full (\<lambda>r. when_io (r \<noteq> 0) hang),
     msg ''SDRAM: Calibrating PHY'' [],
     bind_io sdram_calibration_full (\<lambda>r. when_io (r = 0) hang)]"

definition spl_irq :: "spl_ext \<Rightarrow> unit io" where
  "spl_irq ext = seqs [
     ignore arch_interrupt_init,
     enable_interrupts ext,
     ignore (irq_register (ucast IRQ_ECC_OCRAM_CORRECTED) Ecc_Ocram_Corrected
       (irq_cnt_ecc_ocram_corrected ext) 0),
     ignore (irq_register (ucast IRQ_ECC_OCRAM_UNCORRECTED) Ecc_Ocram_Uncorrected
       (irq_cnt_ecc_ocram_uncorrected ext) 0)]"

definition spl_phases :: "spl_ext \<Rightarrow> unit io list" where
  "spl_phases ext = [spl_freeze, spl_reset, spl_clocks, spl_iocsr, spl_pinmux, spl_release, spl_thaw,
     spl_console ext, spl_sdram, nic301_slave_ns, spl_irq ext, init_boot_params]"

definition spl_board_init :: "spl_ext \<Rightarrow> unit io" where
  "spl_board_init ext = seqs (spl_phases ext)"

end
