(* ===== verification/CalibrationFrame.thy ===== *)
theory CalibrationFrame imports Calibration begin

text \<open>
  What the calibration leaves alone: it ends in no fault and no endless loop of its own, it
  changes none but its own variables, and it writes to the registers of the SDRAM
  controller only. Its parts do not forget a recorded error either. Both are relations
  between the states before and after, and \<open>calibration_frame\<close> carries such a relation
  through all operations of the sequencer.
\<close>

section \<open>The area of the SDRAM controller\<close>

definition sdr_area :: "u32 set" where
  "sdr_area = {a. a - (SOCFPGA_SDR_ADDRESS - 1) \<le> 0x8000}"

lemma below_power:
  assumes "drop_bit n (x :: u32) = 0"
  shows "unat x < 2 ^ n"
proof -
  have "unat x div 2 ^ n = 0" using assms by (metis drop_bit_eq_div unat_drop_bit_eq unsigned_0)
  then show ?thesis by (simp add: div_eq_0_iff)
qed

lemma AVL_TO_APB_small: "AVL_TO_APB addr = - 1 \<or> unat (AVL_TO_APB addr) < 0x8000"
proof -
  have "AVL_TO_APB addr = - 1 \<or> drop_bit 15 (AVL_TO_APB addr) = 0"
    by (simp add: AVL_TO_APB_def reg_defs drop_bit_and drop_bit_or)
  then show ?thesis using below_power [of 15 "AVL_TO_APB addr"] by auto
qed

lemma apb_area [simp]: "apb base off \<in> sdr_area"
proof -
  have "unat (AVL_TO_APB (base + off) + 1) \<le> 0x8000"
  proof (cases "AVL_TO_APB (base + off) = - 1")
    case False
    with AVL_TO_APB_small [of "base + off"] have small: "unat (AVL_TO_APB (base + off)) < 0x8000" by simp
    then show ?thesis by (simp add: unat_word_ariths)
  qed simp
  then have "AVL_TO_APB (base + off) + 1 \<le> 0x8000" by (simp add: word_le_nat_alt)
  then show ?thesis by (simp add: sdr_area_def apb_def reg_defs algebra_simps)
qed

section \<open>Confinement\<close>

primrec sdr_event :: "event \<Rightarrow> bool" where
  "sdr_event (Rd a v) \<longleftrightarrow> True"
| "sdr_event (Wr a v) \<longleftrightarrow> a \<in> sdr_area"
| "sdr_event (Msg f xs) \<longleftrightarrow> True"

named_theorems confined_rules "the structural rules of confinement, and the operations already done"

text \<open>
  A relation between the states before and after, which holds for the small steps of the
  calibration: the accesses to the controller, and changes of its variables that leave the
  flags alone and do not forget an error.
\<close>

definition failing_stages :: "u32 set" where
  "failing_stages = {CAL_STAGE_VFIFO, CAL_STAGE_LFIFO, CAL_STAGE_WRITES, CAL_STAGE_VFIFO_AFTER_WRITES}"

lemma failing_stages [simp]:
  "CAL_STAGE_VFIFO \<in> failing_stages" "CAL_STAGE_LFIFO \<in> failing_stages" "CAL_STAGE_WRITES \<in> failing_stages"
  "CAL_STAGE_VFIFO_AFTER_WRITES \<in> failing_stages"
  by (simp_all add: failing_stages_def)

definition orderly :: "gbl_t \<Rightarrow> bool" where
  "orderly g \<longleftrightarrow> error_stage g = CAL_STAGE_NIL \<or> error_stage g \<in> failing_stages"

definition quiet :: "gbl_t \<Rightarrow> gbl_t \<Rightarrow> bool" where
  "quiet g h \<longleftrightarrow> phy_debug_mode_flags h = phy_debug_mode_flags g \<and> (orderly g \<longrightarrow> orderly h) \<and>
     (error_stage g \<in> failing_stages \<longrightarrow> error_stage h \<in> failing_stages)"

definition confined :: "(mach \<Rightarrow> mach \<Rightarrow> bool) \<Rightarrow> 'a io \<Rightarrow> bool" where
  "confined R m \<longleftrightarrow> (\<forall>s. wp m (\<lambda>_ t. R s t) (\<lambda>_. False) s)"

lemma confinedD: "confined R m \<Longrightarrow> (\<And>x t. R s t \<Longrightarrow> Q x t) \<Longrightarrow> wp m Q (\<lambda>_. False) s"
  by (auto simp: confined_def intro: wp_mono)

locale calibration_frame =
  fixes R :: "mach \<Rightarrow> mach \<Rightarrow> bool"
  assumes R_refl: "R s s"
    and R_trans: "R s t \<Longrightarrow> R t u \<Longrightarrow> R s u"
    and R_event: "sdr_event e \<Longrightarrow> R s (s\<lparr>trace := e # trace s\<rparr>)"
    and R_gbl: "quiet (gbl s) g \<Longrightarrow> R s (s\<lparr>gbl := g\<rparr>)"
    and R_param: "R s (s\<lparr>param := p\<rparr>)"
begin

lemma confined_ret [confined_rules]: "confined R (ret x)"
  by (simp add: confined_def wp_ret R_refl)

lemma confined_bind [confined_rules]: "confined R m \<Longrightarrow> (\<And>x. confined R (f x)) \<Longrightarrow> confined R (bind_io m f)"
  unfolding confined_def wp_bind
  by (intro allI, rule wp_mono, blast, rule wp_mono, blast, erule (1) R_trans) auto

lemma confined_seq [confined_rules]: "confined R m \<Longrightarrow> confined R n \<Longrightarrow> confined R (seq_io m n)"
  unfolding seq_io_def by (rule confined_bind)

lemma confined_seqs [confined_rules]:
  "confined R (seqs [])" "confined R m \<Longrightarrow> confined R (seqs ms) \<Longrightarrow> confined R (seqs (m # ms))"
  by (auto intro: confined_ret confined_seq)

lemma confined_when [confined_rules]: "confined R m \<Longrightarrow> confined R (when_io b m)"
  by (simp add: when_io_def confined_ret)

lemma confined_if [confined_rules]: "confined R m \<Longrightarrow> confined R n \<Longrightarrow> confined R (if b then m else n)"
  by simp

lemma confined_prod [confined_rules]: "(\<And>x y. confined R (f x y)) \<Longrightarrow> confined R (case r of (x, y) \<Rightarrow> f x y)"
  by (cases r) simp

lemma confined_prod_apply [confined_rules]:
  "(\<And>x y. confined R (f x y z)) \<Longrightarrow> confined R ((case r of (x, y) \<Rightarrow> f x y) z)"
  by (cases r) simp

lemma confined_option [confined_rules]:
  "confined R m \<Longrightarrow> (\<And>x. confined R (f x)) \<Longrightarrow> confined R (case r of None \<Rightarrow> m | Some x \<Rightarrow> f x)"
  by (cases r) simp_all

lemma confined_Let [confined_rules]: "(\<And>x. confined R (f x)) \<Longrightarrow> confined R (Let v f)"
  by (simp add: Let_def)

lemma confined_get [confined_rules]: "confined R (get_io f)"
  by (simp add: confined_def wp_get R_refl)

lemma confined_msg: "confined R (msg f xs)"
  by (simp add: confined_def wp_msg R_event)

lemma confined_for [confined_rules]: "(\<And>i. confined R (f i)) \<Longrightarrow> confined R (for_io lo hi f)"
  by (induction lo hi f rule: for_io.induct) (subst for_io.simps, auto intro: confined_ret confined_seq)

lemma confined_map [confined_rules]: "(\<And>i. confined R (f i)) \<Longrightarrow> confined R (seqs (map f is))"
  by (induction "is") (auto intro: confined_ret confined_seq)

lemma confined_fold [confined_rules]: "(\<And>i x. confined R (f i x)) \<Longrightarrow> confined R (fold_io f is x)"
  by (induction "is" arbitrary: x) (auto intro: confined_ret confined_bind)

lemma confined_while [confined_rules]:
  assumes "\<And>x. confined R (body x)"
  shows "confined R (while_io c body x)"
  unfolding confined_def
proof
  fix s
  show "wp (while_io c body x) (\<lambda>_ t. R s t) (\<lambda>_. False) s"
  proof (rule wp_mono [OF wp_while [where I = "\<lambda>_. R s" and Out = "\<lambda>_. R s"]])
    fix x t assume "R s t"
    then show "wp (body x) (\<lambda>r t. if fst r then R s t else R s t) (\<lambda>_. False) t"
      using confinedD [OF assms, of t "\<lambda>_. R s" x] R_trans by simp
  qed (auto simp: R_refl split: if_splits)
qed

lemma confined_IOWR [confined_rules]: "confined R (IOWR_32DIRECT base off d)"
  by (simp add: confined_def IOWR_32DIRECT_def wp_writel R_event)

lemma confined_IORD [confined_rules]: "confined R (IORD_32DIRECT base off)"
  by (simp add: confined_def IORD_32DIRECT_def wp_readl R_event)

lemma confined_IPRINT [confined_rules]: "confined R (IPRINT f)"
  by (simp add: IPRINT_def confined_msg)

lemma confined_modify [confined_rules]:
  "confined R (modify_param f)"
  "(\<And>g. phy_debug_mode_flags (k g) = phy_debug_mode_flags g) \<Longrightarrow> (\<And>g. error_stage (k g) = error_stage g) \<Longrightarrow>
     confined R (modify_gbl k)"
  by (simp_all add: confined_def modify_gbl_def modify_param_def wp_modify R_param R_gbl quiet_def orderly_def)

lemma confined_failing [confined_rules]:
  "stage \<in> failing_stages \<Longrightarrow> confined R (set_failing_group_stage grp stage substage)"
  by (simp add: orderly_def confined_def set_failing_group_stage_def modify_gbl_def wp_bind wp_get wp_when wp_modify R_refl R_gbl quiet_def)

section \<open>The operations\<close>

lemma confined_scc [confined_rules]:
  "confined R (reg_file_set_group x)" "confined R (reg_file_set_stage x)" "confined R (reg_file_set_sub_stage x)"
  "confined R (select_shadow_regs_for_update r g b)" "confined R scc_mgr_initialize"
  "confined R (READ_SCC_DQS_IN_DELAY g)" "confined R (READ_SCC_DQ_OUT1_DELAY g)" "confined R (READ_SCC_DQ_IN_DELAY g)"
  "confined R READ_SCC_DQS_IO_OUT1_DELAY"
  "confined R (scc_mgr_set_dqs_bus_in_delay g d)" "confined R (scc_mgr_set_dqs_en_phase g d)"
  "confined R (scc_mgr_set_dqdqs_output_phase g d)"
  "confined R (scc_mgr_set_dqs_en_phase_all_ranks g d)" "confined R (scc_mgr_set_dqdqs_output_phase_all_ranks g d)"
  "confined R (scc_mgr_set_dqs_en_delay_all_ranks g d)"
  "confined R (scc_mgr_set_dq_out1_delay g i d)" "confined R (scc_mgr_set_dq_in_delay g i d)"
  "confined R (scc_mgr_load_dqs g)" "confined R (scc_mgr_load_dq i)"
  "confined R scc_mgr_zero_all" "confined R (scc_set_bypass_mode g d)" "confined R (scc_mgr_zero_group g i b)"
  "confined R (scc_mgr_apply_group_dq_in_delay g i d)" "confined R (scc_mgr_apply_group_dq_out1_delay g i d)"
  "confined R (scc_mgr_apply_group_dm_out1_delay g d)" "confined R (scc_mgr_apply_group_dqs_io_and_oct_out1 g d)"
  "confined R (scc_mgr_apply_group_all_out_delay_add_all_ranks g i d)"
  unfolding scc_defs by (intro confined_rules; simp)+

lemma confined_rw [confined_rules]:
  "confined R initialize" "confined R rw_mgr_mem_initialize" "confined R rw_mgr_mem_handoff"
  "confined R mem_precharge_and_activate"
  "confined R (rw_mgr_mem_calibrate_read_test_patterns_all_ranks g n)"
  "confined R rw_mgr_mem_calibrate_read_load_patterns_all_ranks"
  "confined R (rw_mgr_mem_calibrate_read_test r g n a b c)"
  "confined R (rw_mgr_mem_calibrate_read_test_all_ranks g n a b)"
  "confined R (rw_mgr_incr_vfifo g v)" "confined R (rw_mgr_decr_vfifo g v)"
  "confined R (rw_mgr_mem_calibrate_write_test r g m a c)"
  unfolding rw_defs by (intro confined_rules; simp)+

lemma confined_strobe [confined_rules]:
  "confined R (push_to_failure g)" "confined R (first_working g n v)" "confined R (phase_window g i p v b)"
  "confined R (centre_dqs_en g n d p v b e)"
  unfolding any_bit_reads_def push_to_failure_def sweep_phases_def sweep_vfifo_def first_working_def back_up_def
    go_forward_def taps_before_def sweep_to_end_def first_failing_def phase_window_def last_tap_def find_tap_def
    measured_taps_def push_to_pass_def centre_dqs_en_def
  by (intro confined_rules; simp)+

lemma confined_find [confined_rules]:
  "confined R (rw_mgr_mem_calibrate_vfifo_find_dqs_en_phase_sweep_dq_in_delay w r t)"
  unfolding rw_mgr_mem_calibrate_vfifo_find_dqs_en_phase_sweep_dq_in_delay_def
    rw_mgr_mem_calibrate_vfifo_find_dqs_en_phase_def for_ranks_def
  by (intro confined_rules)

lemma confined_search [confined_rules]:
  assumes "\<And>d. confined R (setting d)" and "confined R test"
  shows "confined R (edge_search n setting test bits x e)"
  unfolding edge_search_def by (intro confined_rules assms)

lemma confined_write_search [confined_rules]:
  assumes "\<And>d. confined R (setting d)" and "confined R test"
  shows "confined R (write_search n setting test bits stop x e)"
  unfolding write_search_def by (intro confined_rules assms)

lemma confined_read_edges [confined_rules]: "confined R (read_edges b r w g t d)"
  unfolding read_edges_def centre_test_def Let_def by (intro confined_rules)

lemma confined_deskew [confined_rules]:
  "confined R (rw_mgr_mem_calibrate_vfifo_center r w g t b c)" "confined R (rw_mgr_mem_calibrate_writes_center r w t)"
  unfolding rw_mgr_mem_calibrate_vfifo_center_def shift_dq_in_def centre_read_def
    rw_mgr_mem_calibrate_writes_center_def data_test_def mask_test_def write_edges_def shift_dq_out_def
    centre_data_def mask_left_def mask_right_def centre_mask_def
  by (intro confined_rules; simp)+

lemma confined_stages [confined_rules]:
  "confined R (rw_mgr_mem_calibrate_vfifo g t)" "confined R (rw_mgr_mem_calibrate_vfifo_end g t)"
  "confined R rw_mgr_mem_calibrate_lfifo" "confined R (rw_mgr_mem_calibrate_writes r g t)"
  unfolding rw_mgr_mem_calibrate_vfifo_def sweep_output_phase_def try_read_group_def
    rw_mgr_mem_calibrate_vfifo_end_def lower_latency_def rw_mgr_mem_calibrate_lfifo_def
    rw_mgr_mem_calibrate_writes_def
  by (intro confined_rules; simp)+

lemma confined_rounds [confined_rules]:
  "confined R calibrate_once" "confined R mem_config" "confined R mem_skip_calibrate"
  unfolding mem_config_def mem_skip_calibrate_def for_ranks_def calibrate_once_def
    calibrate_groups_def calibrate_group_def unless_failed_def failed_group_def
  by (intro confined_rules; simp)+

end

section \<open>The whole calibration\<close>

definition touched :: "mach \<Rightarrow> mach \<Rightarrow> bool" where
  "touched s t \<longleftrightarrow> (\<exists>es. trace t = es @ trace s \<and> list_all sdr_event es) \<and>
     t = s\<lparr>trace := trace t, param := param t, gbl := gbl t, dyn_calib_steps := dyn_calib_steps t,
       skip_delay_mask := skip_delay_mask t\<rparr>"

lemma touched_trans: "touched s t \<Longrightarrow> touched t u \<Longrightarrow> touched s u"
  by (cases s; cases t; cases u) (fastforce simp: touched_def)

interpretation touching: calibration_frame touched
  by unfold_locales (simp_all add: touched_def, fold touched_def, erule (1) touched_trans)

interpretation careful: calibration_frame "\<lambda>s t. quiet (gbl s) (gbl t)"
  by unfold_locales (auto simp: quiet_def)

lemma touched_modify:
  "confined touched (modify_gbl f)"
  "confined touched (modify_io (\<lambda>s. s\<lparr>dyn_calib_steps := d s\<rparr>))" "confined touched (modify_io (\<lambda>s. s\<lparr>skip_delay_mask := k s\<rparr>))"
  by (simp_all add: confined_def modify_gbl_def wp_modify touched_def)

lemma confined_mem_calibrate: "confined touched mem_calibrate"
  unfolding mem_calibrate_def by (intro touched_modify touching.confined_rounds confined_rules)

theorem confined_calibration: "confined touched sdram_calibration_full"
  unfolding sdram_calibration_full_def sdram_calibration_def initialize_reg_file_def initialize_hps_phy_def initialize_tracking_def
    hc_initialize_rom_data_def write_rom_def run_mem_calibrate_def report_pass_def report_failure_def
  by (intro touched_modify confined_mem_calibrate confined_rules)

end
