(* ===== verification/CalibrationReport.thy ===== *)
theory CalibrationReport imports CalibrationFrame begin

text \<open>
  How the calibration reports: a part that fails has recorded a stage, so the registers the
  preloader and a debugger look at tell whether the calibration passed, and if not, where it
  failed.
\<close>

section \<open>Blame\<close>

text \<open>\<open>F x\<close>: the result \<open>x\<close> means failure. Then a stage is recorded.\<close>

definition blames :: "'a io \<Rightarrow> ('a \<Rightarrow> bool) \<Rightarrow> bool" where
  "blames m F \<longleftrightarrow> (\<forall>s. orderly (gbl s) \<longrightarrow> wp m (\<lambda>x t. quiet (gbl s) (gbl t) \<and>
     (F x \<longrightarrow> error_stage (gbl t) \<in> failing_stages)) (\<lambda>_. False) s)"

abbreviation careful :: "'a io \<Rightarrow> bool" where
  "careful \<equiv> confined (\<lambda>s t. quiet (gbl s) (gbl t))"

lemma blames_careful: "careful m \<Longrightarrow> (\<And>x. \<not> F x) \<Longrightarrow> blames m F"
  by (simp add: blames_def confined_def)

lemma blames_ret: "\<not> F x \<Longrightarrow> blames (ret x) F"
  by (simp add: blames_def wp_ret quiet_def)

lemma blames_bind:
  assumes "blames m E" and "\<And>x. blames (f x) (\<lambda>y. F y \<and> \<not> E x)"
  shows "blames (bind_io m f) F"
  unfolding blames_def wp_bind
proof (intro allI impI)
  fix s :: mach assume orderly: "orderly (gbl s)"
  have after: "wp (f x) (\<lambda>y t. quiet (gbl s) (gbl t) \<and> (F y \<longrightarrow> error_stage (gbl t) \<in> failing_stages)) (\<lambda>_. False) u"
    if "quiet (gbl s) (gbl u)" "E x \<longrightarrow> error_stage (gbl u) \<in> failing_stages" for x u
  proof (rule wp_mono)
    from that(1) orderly have "orderly (gbl u)" by (simp add: quiet_def)
    then show "wp (f x) (\<lambda>y t. quiet (gbl u) (gbl t) \<and> (F y \<and> \<not> E x \<longrightarrow> error_stage (gbl t) \<in> failing_stages)) (\<lambda>_. False) u"
      using assms(2) [of x] by (simp add: blames_def)
  qed (use that in \<open>auto simp: quiet_def\<close>)
  show "wp m (\<lambda>x. wp (f x) (\<lambda>y t. quiet (gbl s) (gbl t) \<and> (F y \<longrightarrow> error_stage (gbl t) \<in> failing_stages)) (\<lambda>_. False))
      (\<lambda>_. False) s"
    by (rule wp_mono [of _ "\<lambda>x t. quiet (gbl s) (gbl t) \<and> (E x \<longrightarrow> error_stage (gbl t) \<in> failing_stages)"])
      (use assms(1) orderly after in \<open>auto simp: blames_def\<close>)
qed

lemma blames_then: "careful m \<Longrightarrow> (\<And>x. blames (f x) F) \<Longrightarrow> blames (bind_io m f) F"
  by (rule blames_bind [of _ "\<lambda>_. False"]) (simp_all add: blames_careful)

lemma blames_seq: "careful m \<Longrightarrow> blames n F \<Longrightarrow> blames (seq_io m n) F"
  unfolding seq_io_def by (rule blames_then)

lemma blames_failing:
  assumes "stage \<in> failing_stages"
  shows "blames (seq_io (set_failing_group_stage grp stage substage) (ret x)) F"
  using assms by (auto simp: blames_def set_failing_group_stage_def modify_gbl_def wp_bind wp_get wp_when wp_modify wp_seq wp_ret
    quiet_def orderly_def)

lemma blames_if: "(b \<Longrightarrow> blames m F) \<Longrightarrow> (\<not> b \<Longrightarrow> blames n F) \<Longrightarrow> blames (if b then m else n) F"
  by simp

lemma blames_weaken: "blames m E \<Longrightarrow> (\<And>x. F x \<Longrightarrow> E x) \<Longrightarrow> blames m F"
  by (auto simp: blames_def intro: wp_mono)

lemma blames_fold:
  assumes "\<And>i x. blames (f i x) (\<lambda>y. F y \<and> \<not> F x)"
  shows "blames (fold_io f is x) (\<lambda>y. F y \<and> \<not> F x)"
proof (induction "is" arbitrary: x)
  case (Cons i rest)
  show ?case unfolding fold_io.simps
  proof (rule blames_bind [OF assms])
    fix y
    have "(\<lambda>z. (F z \<and> \<not> F x) \<and> \<not> (F y \<and> \<not> F x)) = (if F x then \<lambda>_. False else (\<lambda>z. F z \<and> \<not> F y))" by auto
    with Cons.IH [of y] show "blames (fold_io f rest y) (\<lambda>z. (F z \<and> \<not> F x) \<and> \<not> (F y \<and> \<not> F x))"
      by (auto simp: blames_def intro: wp_mono)
  qed
qed (simp add: blames_ret)

lemma blames_while:
  assumes "\<And>x. blames (body x) (\<lambda>r. F r \<and> \<not> F (False, x))"
  shows "blames (while_io c body x) (\<lambda>r. F r \<and> \<not> F (False, x))"
  unfolding blames_def
proof (intro allI impI)
  fix s :: mach assume orderly: "orderly (gbl s)"
  let ?I = "\<lambda>b y t. quiet (gbl s) (gbl t) \<and> (F (b, y) \<and> \<not> F (False, x) \<longrightarrow> error_stage (gbl t) \<in> failing_stages)"
  show "wp (while_io c body x) (\<lambda>r t. quiet (gbl s) (gbl t) \<and>
      (F r \<and> \<not> F (False, x) \<longrightarrow> error_stage (gbl t) \<in> failing_stages)) (\<lambda>_. False) s"
  proof (rule wp_mono [OF wp_while [where I = "?I False" and Out = "?I True"]])
    fix y and u :: mach assume u: "?I False y u"
    with orderly have "orderly (gbl u)" by (simp add: quiet_def)
    with assms [of y] have "wp (body y) (\<lambda>r t. quiet (gbl u) (gbl t) \<and>
      (F r \<and> \<not> F (False, y) \<longrightarrow> error_stage (gbl t) \<in> failing_stages)) (\<lambda>_. False) u" by (simp add: blames_def)
    then show "wp (body y) (\<lambda>r t. if fst r then ?I True (snd r) t else ?I False (snd r) t) (\<lambda>_. False) u"
    proof (rule wp_mono)
      fix r and t :: mach assume "quiet (gbl u) (gbl t) \<and> (F r \<and> \<not> F (False, y) \<longrightarrow> error_stage (gbl t) \<in> failing_stages)"
      with u show "if fst r then ?I True (snd r) t else ?I False (snd r) t"
        by (cases r) (auto simp: quiet_def)
    qed
  next
    fix r and t :: mach assume "if fst r then ?I True (snd r) t else ?I False (snd r) t \<and> \<not> c (snd r)"
    then show "quiet (gbl s) (gbl t) \<and> (F r \<and> \<not> F (False, x) \<longrightarrow> error_stage (gbl t) \<in> failing_stages)"
      by (cases r) (auto split: if_splits)
  qed (auto simp: quiet_def)
qed

section \<open>The parts\<close>

lemma careful_rmw: "careful (modify_gbl (\<lambda>g. g\<lparr>curr_read_lat := k g\<rparr>))"
  by (rule careful.confined_modify) simp_all

lemma blames_vfifo: "blames (rw_mgr_mem_calibrate_vfifo g t) Not"
  unfolding rw_mgr_mem_calibrate_vfifo_def sweep_output_phase_def try_read_group_def Let_def
  by (intro blames_seq blames_then, (intro confined_rules; simp)+)
    (auto split: prod.split intro!: blames_failing blames_seq blames_ret confined_rules)

lemma blames_vfifo_end: "blames (rw_mgr_mem_calibrate_vfifo_end g t) Not"
  unfolding rw_mgr_mem_calibrate_vfifo_end_def Let_def
  by (intro blames_seq blames_then, (intro confined_rules; simp)+)
    (auto intro!: blames_failing blames_ret)

lemma blames_writes: "blames (rw_mgr_mem_calibrate_writes r g t) Not"
  unfolding rw_mgr_mem_calibrate_writes_def
  by (intro blames_seq blames_then, (intro confined_rules; simp)+)
    (auto intro!: blames_failing blames_ret)

lemma blames_lfifo: "blames rw_mgr_mem_calibrate_lfifo Not"
  unfolding rw_mgr_mem_calibrate_lfifo_def lower_latency_def
  by (intro blames_seq blames_then, (intro confined_rules; simp)+)
    (auto intro!: blames_failing blames_ret blames_seq confined_rules)

lemma careful_failed [confined_rules]: "careful failed_group"
  unfolding failed_group_def by (intro confined_rules)

text \<open>\<open>Some False\<close> is the group that is still good.\<close>

definition bad :: "bool option \<Rightarrow> bool" where
  "bad r \<longleftrightarrow> r \<noteq> Some False"

lemma blames_unless_failed:
  assumes "blames m Not"
  shows "blames (unless_failed m r) (\<lambda>y. bad y \<and> \<not> bad r)"
proof (cases "r = Some False")
  case True
  have "blames (if ok then ret (Some False) else failed_group) (\<lambda>y. (bad y \<and> \<not> bad r) \<and> \<not> \<not> ok)" for ok
    by (cases ok) (auto simp: bad_def intro: blames_ret blames_careful careful_failed)
  then show ?thesis
    unfolding unless_failed_def if_P [OF True] by (rule blames_bind [OF assms])
qed (simp add: unless_failed_def bad_def blames_ret)

text \<open>Steps that pass a failure on.\<close>

lemma blames_chain:
  assumes "blames m (\<lambda>y. F y \<and> \<not> F x)" and "\<And>y. blames (f y) (\<lambda>z. F z \<and> \<not> F y)"
  shows "blames (bind_io m f) (\<lambda>z. F z \<and> \<not> F x)"
  by (rule blames_bind [OF assms(1)], rule blames_weaken [OF assms(2)]) auto

lemma blames_same: "blames (ret x) (\<lambda>y. F y \<and> \<not> F x)"
  by (simp add: blames_ret)

lemma blames_group: "blames (calibrate_group g t) bad"
proof -
  have one: "blames (unless_failed (if c then m else ret True) r) (\<lambda>y. bad y \<and> \<not> bad r)" if "blames m Not" for c m r
    by (rule blames_unless_failed) (use that in \<open>simp add: blames_ret\<close>)
  have reads: "blames (fold_io (\<lambda>(j, read_group). unless_failed (if c then m j read_group else ret True)) gs r)
      (\<lambda>y. bad y \<and> \<not> bad r)" if "\<And>j g. blames (m j g) Not" for c m gs r
    by (rule blames_fold) (simp add: one that split: prod.split)
  have writes: "blames (if r = None then ret None else
           bind_io (get_io (\<lambda>s. skip_shadow_regs (param s) sr)) (\<lambda>skip.
           if STATIC_CALIB_STEPS AND CALIB_SKIP_WRITES = 0 \<and> STATIC_CALIB_STEPS AND CALIB_SKIP_DELAY_SWEEPS = 0 \<and> skip = 0
           then seq_io (select_shadow_regs_for_update (sr * NUM_RANKS_PER_SHADOW_REG) g True)
             (bind_io (rw_mgr_mem_calibrate_writes (sr * NUM_RANKS_PER_SHADOW_REG) g t)
             (\<lambda>ok. if ok then ret r else failed_group))
           else ret r)) (\<lambda>y. bad y \<and> \<not> bad r)" for r sr
  proof -
    have "blames (if ok then ret r else failed_group) (\<lambda>y. (bad y \<and> \<not> bad r) \<and> \<not> \<not> ok)" for ok
      by (cases ok) (auto intro: blames_ret blames_careful careful_failed)
    then show ?thesis
      by (auto intro!: blames_ret blames_then blames_seq blames_bind [OF blames_writes] confined_rules)
  qed
  have "blames (calibrate_group g t) (\<lambda>y. bad y \<and> \<not> bad (Some False))"
    unfolding calibrate_group_def
    by (intro blames_chain [where x = "Some False"] blames_chain blames_if reads blames_vfifo blames_vfifo_end
      blames_fold writes blames_same)
  then show ?thesis by (rule blames_weaken) (simp add: bad_def)
qed

section \<open>The whole calibration\<close>

text \<open>Left by \<open>return 0\<close>, or with failing groups.\<close>

definition groups_fail :: "bool \<times> nat \<times> u32 \<times> u32 \<Rightarrow> bool" where
  "groups_fail r = (case r of (returned, _, _, failing_groups) \<Rightarrow> returned \<or> failing_groups \<noteq> 0)"

lemma blames_groups: "blames calibrate_groups (\<lambda>r. fst r \<or> snd r \<noteq> 0)"
  unfolding calibrate_groups_def
proof (rule blames_then, rule careful.confined_get, rule blames_bind [where E = groups_fail])
  fix run_groups
  have *: "blames (while_io c body x) (\<lambda>r. groups_fail r \<and> \<not> groups_fail (False, x)) \<Longrightarrow> \<not> groups_fail (False, x) \<Longrightarrow>
    blames (while_io c body x) groups_fail" for c body x by (erule blames_weaken) simp
  show "blames (while_io (\<lambda>(write_group, _). write_group < RW_MGR_MEM_IF_WRITE_DQS_WIDTH)
       (\<lambda>(write_group, run_groups, failing_groups).
          let current_run = run_groups AND run_group_mask;
              run_groups = shr run_groups (of_nat RW_MGR_NUM_DQS_PER_WRITE_GROUP);
              write_test_bgn = write_group * RW_MGR_MEM_DQ_PER_WRITE_DQS in
          if current_run = 0 then ret (False, (write_group + 1, run_groups, failing_groups))
          else seq_io (seqs [
              IOWR_32DIRECT SCC_MGR_GROUP_COUNTER 0 (of_nat write_group),
              scc_mgr_zero_group write_group write_test_bgn False])
            (bind_io (calibrate_group write_group write_test_bgn) (\<lambda>r. ret (case r of
                None \<Rightarrow> (True, (write_group, run_groups, failing_groups))
              | Some failed \<Rightarrow> (False, (write_group + 1, run_groups,
                  if failed then failing_groups + 1 else failing_groups))))))
       (0, run_groups, 0)) groups_fail"
    by (rule *, rule blames_while)
      (auto simp: Let_def groups_fail_def bad_def split: option.split
        intro!: blames_ret blames_seq confined_rules blames_bind [OF blames_group])
qed (auto simp: groups_fail_def intro!: blames_ret confined_rules)

lemma blames_once: "blames calibrate_once Not"
  unfolding calibrate_once_def
  by (intro blames_seq blames_bind [OF blames_groups] confined_rules)
    (auto intro!: blames_ret blames_then blames_weaken [OF blames_lfifo] confined_rules)

lemma wp_mem_calibrate:
  "wp mem_calibrate (\<lambda>ok t. ok \<or> error_stage (gbl t) \<in> failing_stages) (\<lambda>_. False) s"
proof -
  let ?rest = "bind_io (get_io dyn_calib_steps) (\<lambda>steps.
      bind_io (if ucast steps AND CALIB_SKIP_ALL = CALIB_SKIP_ALL then seq_io mem_skip_calibrate (ret True)
        else fold_io (\<lambda>_ ok. if ok then calibrate_once else ret False) [0..<unat NUM_CALIB_REPEAT] True) (\<lambda>ok.
      if \<not> ok then ret False else seq_io (IOWR_32DIRECT SCC_MGR_UPD 0 0) (ret True)))"
  have rounds: "blames (fold_io (\<lambda>_ ok. if ok then calibrate_once else ret False) is True) Not" for "is" :: "nat list"
    by (rule blames_weaken [OF blames_fold [where F = Not]])
      (auto intro: blames_ret blames_weaken [OF blames_once])
  have rest: "blames ?rest Not"
    by (rule blames_then, rule careful.confined_get, rule blames_bind [where E = Not])
      (auto intro!: rounds blames_ret blames_seq careful.confined_rounds confined_rules)
  have config: "careful (seqs [mem_config, for_io 0 RW_MGR_MEM_IF_READ_DQS_WIDTH (\<lambda>i. seqs [
         IOWR_32DIRECT SCC_MGR_GROUP_COUNTER 0 (of_nat i),
         scc_set_bypass_mode i 0x1])])"
    by (intro careful.confined_rounds confined_rules)
  have "wp (seqs [mem_config, for_io 0 RW_MGR_MEM_IF_READ_DQS_WIDTH (\<lambda>i. seqs [
         IOWR_32DIRECT SCC_MGR_GROUP_COUNTER 0 (of_nat i),
         scc_set_bypass_mode i 0x1])]) (\<lambda>_. wp ?rest (\<lambda>ok t. ok \<or> error_stage (gbl t) \<in> failing_stages) (\<lambda>_. False))
      (\<lambda>_. False) u" if "orderly (gbl u)" for u
    by (rule confinedD [OF config], rule wp_mono, rule rest [unfolded blames_def, rule_format])
      (use that in \<open>auto simp: quiet_def\<close>)
  then show ?thesis
    unfolding mem_calibrate_def wp_seq seqs.simps(2) [of "modify_gbl _"]
    by (simp add: wp_modify modify_gbl_def orderly_def del: seqs.simps)
qed

text \<open>The two reports, and the value of a register as a debugger sees it.\<close>

definition shows_pass :: "mach \<Rightarrow> bool" where
  "shows_pass t \<longleftrightarrow> last_wr (apb PHY_MGR_CAL_STATUS 0) (trace t) = Some PHY_MGR_CAL_SUCCESS"

definition shows_failure :: "mach \<Rightarrow> bool" where
  "shows_failure t \<longleftrightarrow> last_wr (apb PHY_MGR_CAL_STATUS 0) (trace t) = Some PHY_MGR_CAL_FAIL \<and>
     (\<exists>v. last_wr (apb REG_FILE_FAILING_STAGE 0) (trace t) = Some v \<and>
       last_wr (apb PHY_MGR_CAL_DEBUG_INFO 0) (trace t) = Some v \<and> v AND 0xff \<in> failing_stages)"

lemma wp_report_pass: "wp report_pass (\<lambda>_ t. shows_pass t) H s"
  unfolding report_pass_def IPRINT_def modify_gbl_def Let_def
  by (simp add: wp_rules IOWR_32DIRECT_def shows_pass_def)

lemma failure_info_stage:
  assumes "error_stage g \<in> failing_stages"
  shows "failure_info g AND 0xff \<in> failing_stages"
proof -
  have ff: "(0xff :: u32) = mask 8" by (simp add: mask_eq_exp_minus_1)
  have "shl x 8 AND (0xff :: u32) = 0" "shl x 16 AND (0xff :: u32) = 0" for x
    by (rule bit_word_eqI; auto simp: ff shl_def bit_simps)+
  then have "failure_info g AND 0xff = error_stage g AND 0xff"
    by (simp add: failure_info_def bit.conj_disj_distrib2)
  then show ?thesis
    using assms by (auto simp: failing_stages_def reg_defs)
qed

lemma wp_report_failure:
  assumes "error_stage (gbl s) \<in> failing_stages"
  shows "wp report_failure (\<lambda>_ t. shows_failure t) H s"
  unfolding report_failure_def IPRINT_def
  by (simp add: wp_rules IOWR_32DIRECT_def shows_failure_def failure_info_stage [OF assms])
    (simp add: apb_def AVL_TO_APB_def reg_defs)

lemma wp_calibration:
  "wp sdram_calibration_full (\<lambda>r t. r = 1 \<and> shows_pass t \<or> r = 0 \<and> shows_failure t) (\<lambda>_. False) s"
proof -
  let ?Q = "\<lambda>pass t. if pass then shows_pass t else shows_failure t"
  have reports: "wp (if pass then report_pass else report_failure) (\<lambda>_. ?Q pass) (\<lambda>_. False) t"
    if "pass \<or> error_stage (gbl t) \<in> failing_stages" for pass t
    using that by (auto intro: wp_report_pass wp_report_failure)
  let ?after = "\<lambda>ctrlcfg. [mem_precharge_and_activate,
       IOWR_32DIRECT PHY_MGR_CMD_FIFO_RESET 0 0,
       bind_io (get_io (\<lambda>s. phy_debug_mode_flags (gbl s))) (\<lambda>flags.
         when_io (flags AND PHY_DEBUG_IN_DEBUG_MODE = 0) (seqs [
           rw_mgr_mem_handoff,
           IOWR_32DIRECT PHY_MGR_MUX_SEL 0 0x2])),
       IOWR_32DIRECT CTRL_CONFIG_REG 0 ctrlcfg]"
  have "careful (seqs (?after c))" for c by (intro confined_rules)
  then have after: "wp (seqs (?after c)) (\<lambda>_. wp (if pass then report_pass else report_failure)
      (\<lambda>_. ?Q pass) (\<lambda>_. False)) (\<lambda>_. False) t" if "pass \<or> error_stage (gbl t) \<in> failing_stages" for c pass t
  proof (rule confinedD)
    fix u :: mach assume "quiet (gbl t) (gbl u)"
    with that have "pass \<or> error_stage (gbl u) \<in> failing_stages" by (auto simp: quiet_def)
    then show "wp (if pass then report_pass else report_failure) (\<lambda>_. ?Q pass) (\<lambda>_. False) u" by (rule reports)
  qed
  have run: "wp run_mem_calibrate ?Q (\<lambda>_. False) t" for t
  proof -
    have split: "seqs [mem_precharge_and_activate, IOWR_32DIRECT PHY_MGR_CMD_FIFO_RESET 0 0,
       bind_io (get_io (\<lambda>s. phy_debug_mode_flags (gbl s))) (\<lambda>flags.
         when_io (flags AND PHY_DEBUG_IN_DEBUG_MODE = 0) (seqs [rw_mgr_mem_handoff, IOWR_32DIRECT PHY_MGR_MUX_SEL 0 0x2])),
       IOWR_32DIRECT CTRL_CONFIG_REG 0 c, if pass then report_pass else report_failure] =
       seq_io (seqs (?after c)) (if pass then report_pass else report_failure)" for c pass
      by (simp add: seq_io_def bind_assoc)
    show ?thesis
      unfolding run_mem_calibrate_def split wp_seq wp_bind wp_ret
      by (intro confinedD [where R = touched] wp_mono [OF wp_mem_calibrate] after confined_rules)
  qed
  show ?thesis
    unfolding sdram_calibration_full_def sdram_calibration_def wp_seq [of "seqs _"] wp_bind wp_ret
    by (rule confinedD [where R = touched], unfold initialize_reg_file_def initialize_hps_phy_def initialize_tracking_def
      hc_initialize_rom_data_def write_rom_def, (intro touched_modify confined_rules)[1], rule wp_mono [OF run]) (auto split: if_splits)
qed

text \<open>
  C6: The calibration always says how it ended, on every hardware: if it returns, it has
  returned 1 and the status register shows success, or it has returned 0, the status register
  shows failure, and the register of the failing stage and the debug register both name one of the
  four stages that can fail. It never runs into an endless loop of its own or a bad access.
\<close>

theorem calibration_reports:
  "wp sdram_calibration_full (\<lambda>r t.
     r = 1 \<and> last_wr (apb PHY_MGR_CAL_STATUS 0) (trace t) = Some PHY_MGR_CAL_SUCCESS \<or>
     r = 0 \<and> last_wr (apb PHY_MGR_CAL_STATUS 0) (trace t) = Some PHY_MGR_CAL_FAIL \<and>
       (\<exists>v. last_wr (apb REG_FILE_FAILING_STAGE 0) (trace t) = Some v \<and>
         last_wr (apb PHY_MGR_CAL_DEBUG_INFO 0) (trace t) = Some v \<and>
         v AND 0xff \<in> {CAL_STAGE_VFIFO, CAL_STAGE_LFIFO, CAL_STAGE_WRITES, CAL_STAGE_VFIFO_AFTER_WRITES}))
   (\<lambda>_. False) s"
  using wp_calibration [of s] by (simp add: shows_pass_def shows_failure_def failing_stages_def)

end
