(* ===== verification/SplBoot.thy ===== *)
theory SplBoot imports SplBoard CalibrationReport begin

text \<open>
  What the board initialisation of the preloader achieves as a whole: the components'
  lemmas composed along the sequence of phases.
\<close>

section \<open>What the phases leave alone\<close>

text \<open>
  Two variables of the preloader and the scan engine behind the FIFO: no phase but the
  programming of the scan chains writes to the FIFO, none but freezing and thawing touches
  the flags of the banks.
\<close>

definition fifos :: "u32 set" where
  "fifos = {fifo1, fifo2, fifo4}"

definition engine_view :: "mach \<Rightarrow> (bool list \<times> nat) option" where
  "engine_view s = jtag (trace s)"

lemma keeps_ignore: "keeps f m \<Longrightarrow> keeps f (ignore m)"
  by (simp add: ignore_def keeps_seq keeps_ret)

lemma pinmux_reg_off: "i < 207 \<Longrightarrow> pinmux_reg i \<notin> fifos"
proof -
  assume "i < 207"
  then have "unat (pinmux_reg i - 0xffd08400) < 828" by (simp add: pinmux_reg_offset)
  moreover have "\<not> unat (fifo1 - 0xffd08400) < 828" "\<not> unat (fifo2 - 0xffd08400) < 828"
    "\<not> unat (fifo4 - 0xffd08400) < 828" by (simp_all add: reg_defs)
  ultimately show ?thesis unfolding fifos_def by auto
qed

locale boot_view = view f A for f :: "mach \<Rightarrow> 'b" and A +
  assumes only_fifos: "A \<subseteq> fifos"
begin

lemma off: "a \<notin> fifos \<Longrightarrow> a \<notin> A"
  using only_fifos by blast

lemma keeps_clocks: "keeps f (cm_basic_init cfg)"
  unfolding cm_basic_init_def cm_gate_def cm_enter_bypass_def cm_write_bypass_def cm_wait4fsm_def cm_reset_plls_def
    cm_program_vcos_def cm_set_counters_def cm_enable_vcos_def cm_set_dividers_def cm_wait_for_lock_def
    cm_sdram_counters_def cm_toggle_outreset_def cm_set_phases_def cm_write_with_phase_def cm_leave_bypass_def
    cm_clear_safe_mode_def cm_write_ctrl_def cm_set_sources_def cm_ungate_def
  by (intro keeps_io) (rule off, simp add: fifos_def reg_defs)+

lemma keeps_reset: "keeps f spl_reset"
  unfolding spl_reset_def reset_assert_all_peripherals_except_l4wd0_def reset_assert_all_bridges_def
    reset_deassert_osc1timer0_def timer_init_def
  by (intro keeps_io keeps_ignore) (rule off, simp add: fifos_def reg_defs)+

lemma keeps_ready: "keeps f is_fpgamgr_fpga_ready"
  unfolding is_fpgamgr_fpga_ready_def fpgamgr_get_mode_def is_fpgamgr_initdone_high_def
  by (intro keeps_io)

lemma keeps_release: "keeps f spl_release"
  unfolding spl_release_def reset_deassert_peripherals_handoff_def reset_deassert_bridges_handoff_def config_bit_def
  by (intro keeps_io keeps_ready) (rule off, simp add: fifos_def reg_defs)+

lemma keeps_pinmux: "keeps f sysmgr_pinmux_init"
  unfolding sysmgr_pinmux_init_def write_pinmux_table_def populate_sysmgr_fpgaintf_module_def use_fpga_def
    length_init_table
  by (intro keeps_io keeps_ready) (rule off, (rule pinmux_reg_off, assumption | simp add: fifos_def reg_defs))+

lemma keeps_unless_warm: "keeps f m \<Longrightarrow> keeps f (unless_warm (v :: u32) m)"
  unfolding unless_warm_def by (intro keeps_io) (rule off, simp add: fifos_def reg_defs | assumption)+

end

section \<open>Interpretations and the banks\<close>

locale plain_view = view f "{}" for f :: "mach \<Rightarrow> 'b" +
  assumes view_vectors: "f (s\<lparr>vectors := tab\<rparr>) = f s"
    and view_boot_params: "f (s\<lparr>boot_params_ptr := p\<rparr>) = f s"
    and view_calibration: "f (s\<lparr>param := pa, gbl := g, dyn_calib_steps := d, skip_delay_mask := k\<rparr>) = f s"
begin

lemma view_events: "f (s\<lparr>trace := es @ trace s\<rparr>) = f s"
proof (induction es)
  case (Cons e es)
  let ?u = "s\<lparr>trace := es @ trace s\<rparr>"
  have "f (?u\<lparr>trace := e # trace ?u\<rparr>) = f ?u"
    by (cases e) (simp_all only: view_Rd view_Msg view_Wr empty_iff not_False_eq_True)
  with Cons show ?case by simp
qed simp

lemma keeps_calibration: "keeps f sdram_calibration_full"
  unfolding keeps_def
proof (intro allI impI)
  fix s t assume "(\<exists>x. sdram_calibration_full s = Some (Val x t)) \<or> sdram_calibration_full s = Some (Halt t)"
  moreover have run: "wp sdram_calibration_full (\<lambda>_. touched s) (\<lambda>_. False) s"
    using confined_calibration by (simp add: confined_def)
  ultimately have "touched s t" using wpD [OF run] wp_haltD [OF run] by blast
  then obtain es where "trace t = es @ trace s" "t = (s\<lparr>trace := trace t\<rparr>)\<lparr>param := param t, gbl := gbl t,
      dyn_calib_steps := dyn_calib_steps t, skip_delay_mask := skip_delay_mask t\<rparr>"
    by (auto simp: touched_def)
  then show "f t = f s" using view_calibration view_events by metis
qed

lemma keeps_engine: "keeps f engine_idle"
proof -
  have "keeps f (engine_poll n v)" for n v
    by (induction n arbitrary: v) (auto intro!: keeps_io)
  then show ?thesis
    unfolding engine_idle_def scan_mgr_io_scan_chain_engine_is_idle_def by (intro keeps_io)
qed

lemma keeps_fifo: "keeps f (fifo_word T i)" "keeps f (fifo_byte T i k)"
  unfolding fifo_word_def fifo_byte_def by (intro keeps_io; simp)+

lemma keeps_program_full: "keeps f (program_full c T n i)"
  by (induction n arbitrary: i) (auto intro!: keeps_io keeps_fifo keeps_engine)

lemma keeps_scan_chain: "keeps f (scan_mgr_io_scan_chain_prg c len T)"
  unfolding scan_mgr_io_scan_chain_prg_def sys_mgr_frzctrl_frzchn_is_frozen_def Let_def program_tail_def tail_bytes_def
  by (intro keeps_io keeps_fifo keeps_engine keeps_program_full) simp_all

lemma keeps_sdram_init: "keeps f sdram_mmr_init_full"
proof -
  have verify: "keeps f (sdram_write_verify off v)" for off v
    unfolding sdram_write_verify_def by (intro keeps_io) simp
  have block: "keeps f (run_mmr b)" for b
    by (cases b) (auto intro!: keeps_io verify)
  have blocks: "keeps f k \<Longrightarrow> keeps f (run_blocks bs k)" for bs k
    by (induction bs) (auto intro!: keeps_io block)
  then show ?thesis
    unfolding sdram_mmr_init_full_def fpgaportrst_block_def apply_config_def is_fpgamgr_fpga_ready_def
      fpgamgr_get_mode_def is_fpgamgr_initdone_high_def
    by (intro blocks keeps_io block verify) simp_all
qed

lemma keeps_nic301: "keeps f nic301_slave_ns"
  unfolding nic301_slave_ns_def by (intro keeps_io) simp_all

lemma keeps_irq_init: "keeps f arch_interrupt_init"
  unfolding arch_interrupt_init_def gic_dic_disable_secure_def gic_dic_clear_enable_all_intr_def
    gic_dic_clear_pending_all_intr_def gic_cpu_set_priority_mask_def gic_dic_enable_secure_def gic_cpu_enable_def
  by (intro keeps_io) simp_all

lemma keeps_irq_register: "keeps f (irq_register i h a l)"
  unfolding irq_register_def set_vector_def gic_dic_set_config_def gic_dic_set_target_processor_def
    gic_dic_set_enable_def Let_def
  by (intro keeps_io keeps_modify view_vectors) simp_all

lemma keeps_init_boot_params: "keeps f init_boot_params"
  unfolding init_boot_params_def by (rule keeps_modify) (rule view_boot_params)

end

sublocale plain_view \<subseteq> boot_view f "{}"
  by unfold_locales simp

context plain_view begin

lemma keeps_configuration: "list_all (keeps f) [spl_reset, spl_clocks, spl_iocsr, spl_pinmux, spl_release]"
  by (simp add: keeps_reset spl_clocks_def spl_iocsr_def spl_pinmux_def keeps_release keeps_clocks keeps_ignore
    keeps_unless_warm keeps_pinmux keeps_seq keeps_ret keeps_scan_chain)

lemma keeps_rest:
  assumes "keeps f (preloader_console_init ext)" "keeps f (enable_interrupts ext)"
  shows "list_all (keeps f) [spl_console ext, spl_sdram, nic301_slave_ns, spl_irq ext, init_boot_params]"
  using assms
  by (simp add: spl_console_def spl_sdram_def spl_irq_def checkboard_def hang_def keeps_ignore keeps_seq keeps_ret keeps_bind
    keeps_when keeps_stop keeps_msg keeps_sdram_init keeps_nic301 keeps_irq_init keeps_irq_register keeps_init_boot_params
    keeps_calibration)

end

interpretation hardware: plain_view env
  by unfold_locales simp_all

interpretation banks: plain_view frz
  by unfold_locales simp_all

interpretation status: plain_view rst_mgr_status
  by unfold_locales simp_all

lemma jtag_write_off: "a \<notin> fifos \<Longrightarrow> Option.bind st (jtag_write a v) = st"
  by (cases st) (auto simp: jtag_write_def fifos_def split: prod.splits)

interpretation engine: boot_view engine_view fifos
  by unfold_locales (simp_all add: engine_view_def jtag_write_off)

lemma jtag_reads [simp]: "jtag (map (Rd a) vs @ h) = jtag h"
  by (induction vs) simp_all

text \<open>Freezing and thawing set one flag and leave the hardware, the status and the engine alone.\<close>

definition flagged :: "FreezeChannelSelect \<Rightarrow> u32 \<Rightarrow> mach \<Rightarrow> u32 \<Rightarrow> mach \<Rightarrow> bool" where
  "flagged ch v s r t \<longleftrightarrow> r = 0 \<and> frz t = (frz s)[channel_index ch := v] \<and> env t = env s \<and>
     rst_mgr_status t = rst_mgr_status s \<and> engine_view t = engine_view s"

lemma vioctrl_off: "vioctrl ch \<notin> fifos" and hioctrl_off: "hioctrl \<notin> fifos" "frz_src \<notin> fifos"
  by (cases ch; simp add: fifos_def reg_defs)(simp_all add: fifos_def reg_defs)

lemma channel_index_less: "ch \<noteq> FREEZE_CHANNEL_UNDEFINED \<Longrightarrow> channel_index ch < 4"
  by (cases ch) simp_all

lemma wp_freeze_req:
  assumes "ch \<noteq> FREEZE_CHANNEL_UNDEFINED" and "length (frz s) = 4"
  shows "wp (sys_mgr_frzctrl_freeze_req ch FREEZE_CONTROLLER_FSM_SW) (flagged ch FREEZE_CTRL_FROZEN s) H s"
proof -
  have hio: "wp (freeze_hio ch) (\<lambda>_. flagged ch FREEZE_CTRL_FROZEN s 0) H (s\<lparr>trace := Wr frz_src v # trace s\<rparr>)" for v
    unfolding freeze_hio_def wp_seqs_Cons wp_bind
    by (rule wp_clrbits_all wp_readl_all | subst wp_writel)+
      (simp add: wp_seqs_Nil wp_ret wp_set_channel flagged_def engine_view_def jtag_write_off hioctrl_off channel_index_less assms)
  have vio: "wp (freeze_vio ch) (\<lambda>_. flagged ch FREEZE_CTRL_FROZEN s 0) H (s\<lparr>trace := Wr frz_src v # trace s\<rparr>)" for v
    unfolding freeze_vio_def wp_seqs_Cons
    by (rule wp_clrbits_all)+
      (simp add: wp_seqs_Nil wp_ret wp_set_channel flagged_def engine_view_def jtag_write_off vioctrl_off hioctrl_off channel_index_less assms)
  show ?thesis
    using assms(1) hio vio by (cases ch) (simp_all add: sys_mgr_frzctrl_freeze_req_def wp_seq wp_writel wp_ret)
qed

lemma wp_thaw_req:
  assumes "ch \<noteq> FREEZE_CHANNEL_UNDEFINED" and "length (frz s) = 4"
  shows "wp (sys_mgr_frzctrl_thaw_req ch FREEZE_CONTROLLER_FSM_SW) (flagged ch FREEZE_CTRL_THAWED s) H s"
proof -
  have hio: "wp (thaw_hio ch) (\<lambda>_. flagged ch FREEZE_CTRL_THAWED s 0) H (s\<lparr>trace := Wr frz_src v # trace s\<rparr>)" for v
    unfolding thaw_hio_def wp_seqs_Cons wp_bind
    by (rule wp_clrbits_all wp_setbits_all wp_readl_all wp_delay_count | subst wp_writel)+
      (simp add: wp_seqs_Nil wp_ret wp_set_channel flagged_def engine_view_def jtag_write_off hioctrl_off channel_index_less assms)
  have vio: "wp (thaw_vio ch) (\<lambda>_. flagged ch FREEZE_CTRL_THAWED s 0) H (s\<lparr>trace := Wr frz_src v # trace s\<rparr>)" for v
    unfolding thaw_vio_def wp_seqs_Cons
    by (rule wp_setbits_all)+
      (simp add: wp_seqs_Nil wp_ret wp_set_channel flagged_def engine_view_def jtag_write_off vioctrl_off hioctrl_off channel_index_less assms)
  show ?thesis
    using assms(1) hio vio by (cases ch) (simp_all add: sys_mgr_frzctrl_thaw_req_def wp_seq wp_writel wp_ret)
qed


lemma wp_all_banks:
  assumes "\<And>ch s. ch \<noteq> FREEZE_CHANNEL_UNDEFINED \<Longrightarrow> length (frz s) = 4 \<Longrightarrow> wp (f ch) (flagged ch v s) H s"
    and "length (frz s) = 4"
  shows "wp (seqs [ignore (f FREEZE_CHANNEL_0), ignore (f FREEZE_CHANNEL_1), ignore (f FREEZE_CHANNEL_2),
      ignore (f FREEZE_CHANNEL_3)]) (\<lambda>_ t. frz t = replicate 4 v \<and> env t = env s \<and>
      rst_mgr_status t = rst_mgr_status s \<and> engine_view t = engine_view s) H s"
proof -
  have step: "wp (ignore (f ch)) (\<lambda>_ t. flagged ch v u 0 t \<and> length (frz t) = 4) H u"
    if "ch \<noteq> FREEZE_CHANNEL_UNDEFINED" "length (frz u) = 4" for ch u
    unfolding ignore_def wp_seq wp_ret
    by (rule wp_mono [OF assms(1) [OF that]]) (auto simp: flagged_def that)
  obtain a b c d where "frz s = [a, b, c, d]"
    using assms(2) by (auto simp: numeral_eq_Suc length_Suc_conv)
  with assms(2) show ?thesis
    unfolding wp_seqs_Cons wp_seqs_Nil
    by (intro wp_mono [OF step]) (auto simp: flagged_def numeral_eq_Suc)
qed

lemma wp_freeze: "length (frz s) = 4 \<Longrightarrow> wp spl_freeze (\<lambda>_ t. frz t = replicate 4 FREEZE_CTRL_FROZEN \<and>
    env t = env s \<and> rst_mgr_status t = rst_mgr_status s \<and> engine_view t = engine_view s) H s"
  unfolding spl_freeze_def by (rule wp_all_banks [OF wp_freeze_req])

lemma wp_thaw: "length (frz s) = 4 \<Longrightarrow> wp spl_thaw (\<lambda>_ t. frz t = replicate 4 FREEZE_CTRL_THAWED \<and>
    env t = env s \<and> rst_mgr_status t = rst_mgr_status s \<and> engine_view t = engine_view s) H s"
  unfolding spl_thaw_def by (rule wp_all_banks [OF wp_thaw_req])

section \<open>The order of freezing and configuration\<close>

text \<open>
  C20: The I/O banks are frozen before anything is reconfigured and stay so until the resets
  are released again: after each of the first six phases all four flags say frozen, after
  the seventh and to the end of the initialisation all four say thawed. The code outside the
  model is assumed not to touch the flags, which are private to the freeze controller.
\<close>

theorem banks_frozen_while_configured:
  assumes "length (frz s) = 4"
    and "keeps frz (preloader_console_init ext)" "keeps frz (enable_interrupts ext)"
    and "1 \<le> k" and "k \<le> 12"
  shows "gives (seqs (take k (spl_phases ext)))
    (\<lambda>_ t. frz t = replicate 4 (if k \<le> 6 then FREEZE_CTRL_FROZEN else FREEZE_CTRL_THAWED)) s"
proof -
  have frozen: "gives spl_freeze (\<lambda>_ t. frz t = replicate 4 FREEZE_CTRL_FROZEN) s"
    by (rule wp_gives [OF wp_mono [OF wp_freeze [OF assms(1)]]]) auto
  have thawed: "gives spl_thaw (\<lambda>_ t. frz t = replicate 4 FREEZE_CTRL_THAWED) t"
    if "frz t = replicate 4 FREEZE_CTRL_FROZEN" for t
    by (rule wp_gives [OF wp_mono [OF wp_thaw]]) (use that in auto)
  have stay: "gives (seqs ms) (\<lambda>_ t. frz t = v) t" if "list_all (keeps frz) ms" "frz t = v" for ms v t
    using keeps_gives [OF keeps_seqs [OF that(1)], of t] that(2) by simp
  let ?C = "[spl_reset, spl_clocks, spl_iocsr, spl_pinmux, spl_release]"
  let ?R = "[spl_console ext, spl_sdram, nic301_slave_ns, spl_irq ext, init_boot_params]"
  obtain n where n: "k = Suc n" using assms(4) by (cases k) auto
  have split: "take k (spl_phases ext) = spl_freeze # take n ?C @ take (n - 5) (spl_thaw # ?R)"
    unfolding n using take_append [of n ?C "spl_thaw # ?R"] by (simp add: spl_phases_def eval_nat_numeral)
  have prefix: "list_all (keeps frz) (take i ?C)" "list_all (keeps frz) (take i ?R)" for i
    using banks.keeps_configuration banks.keeps_rest [OF assms(2-3)] by (auto simp: list_all_iff dest: in_set_takeD)
  show ?thesis
  proof (cases "n - 5")
    case 0
    then have "k \<le> 6" by (simp add: n)
    with 0 show ?thesis unfolding split by (simp add: gives_seq [OF frozen] stay prefix)
  next
    case (Suc j)
    then have "\<not> k \<le> 6" by (simp add: n)
    then show ?thesis
      unfolding split Suc take_Suc_Cons
      by (simp only: seqs_append seqs.simps if_False)
        (intro gives_seq [OF frozen] gives_seq [OF stay] gives_seq [OF thawed] stay prefix)
  qed
qed

theorem banks_frozen_while_configured_witness:
  "gives (seqs (take 8 (spl_phases \<lparr>preloader_console_init = ret (), enable_interrupts = ret (), irq_cnt_ecc_ocram_corrected = 0, irq_cnt_ecc_ocram_uncorrected = 4\<rparr>)))
    (\<lambda>_ t. frz t = replicate 4 FREEZE_CTRL_THAWED) (storage_machine (\<lambda>_. 0))"
  using banks_frozen_while_configured [of "storage_machine (\<lambda>_. 0)" "\<lparr>preloader_console_init = ret (), enable_interrupts = ret (), irq_cnt_ecc_ocram_corrected = 0, irq_cnt_ecc_ocram_uncorrected = 4\<rparr>" 8]
  by (simp add: keeps_ret)

section \<open>The configuration completes\<close>

lemma wp_freeze_length: "length (frz s) = 4 \<Longrightarrow>
    wp spl_freeze (\<lambda>_ t. length (trace t) = length (trace s) + 22) H s"
  unfolding spl_freeze_def ignore_def sys_mgr_frzctrl_freeze_req_def freeze_vio_def freeze_hio_def
    FreezeControllerFSMSelect.case FreezeChannelSelect.case wp_seqs_Cons wp_seq wp_bind
  by (rule wp_clrbits_all wp_readl_all | subst wp_writel | simp add: wp_set_channel wp_seqs_Nil wp_ret)+

lemma wp_reset_length: "wp spl_reset (\<lambda>_ t. length (trace t) = length (trace s) + 8) H s"
  unfolding spl_reset_def ignore_def reset_assert_all_peripherals_except_l4wd0_def reset_assert_all_bridges_def
    reset_deassert_osc1timer0_def timer_init_def wp_seqs_Cons wp_seq wp_bind
  by (rule wp_clrbits_all wp_readl_all | subst wp_writel | simp add: wp_seqs_Nil wp_ret)+

lemma ends_freeze [simp]: "ends spl_freeze"
  unfolding spl_freeze_def ignore_def sys_mgr_frzctrl_freeze_req_def freeze_vio_def freeze_hio_def set_channel_freeze_def
  by (auto intro!: total_intros)

lemma ends_reset [simp]: "ends spl_reset"
  unfolding spl_reset_def ignore_def reset_assert_all_peripherals_except_l4wd0_def reset_assert_all_bridges_def
    reset_deassert_osc1timer0_def timer_init_def
  by (auto intro!: total_intros)

lemma ends_pinmux [simp]: "ends sysmgr_pinmux_init"
  unfolding sysmgr_pinmux_init_def write_pinmux_table_def populate_sysmgr_fpgaintf_module_def use_fpga_def
  by (auto intro!: total_intros)

lemma ends_release [simp]: "ends spl_release"
  unfolding spl_release_def reset_deassert_peripherals_handoff_def reset_deassert_bridges_handoff_def config_bit_def
  by (auto intro!: total_intros)

definition configuring :: "mach \<Rightarrow> bool list \<Rightarrow> mach \<Rightarrow> bool" where
  "configuring s B t \<longleftrightarrow> frz t = replicate 4 FREEZE_CTRL_FROZEN \<and> env t = env s \<and>
     rst_mgr_status t = rst_mgr_status s \<and> engine_view t = Some (B, 0)"

lemma runs_configuring:
  assumes "runs m (\<lambda>_ _. True) t" "keeps frz m" "keeps env m" "keeps rst_mgr_status m" "keeps engine_view m"
    "configuring s B t"
  shows "runs m (\<lambda>_. configuring s B) t"
  by (rule runs_mono [OF runs_keeps [OF runs_keeps [OF runs_keeps [OF runs_keeps [OF assms(1,2)] assms(3)] assms(4)] assms(5)]])
    (use assms(6) in \<open>simp add: configuring_def\<close>)

text \<open>What the four scan chains are to be sent.\<close>

definition chain_bits :: "u32 \<Rightarrow> u32 list \<Rightarrow> bool list" where
  "chain_bits len T = take (unat len) (table_bits T)"

definition iocsr_bits :: "bool list" where
  "iocsr_bits =
     chain_bits CONFIG_HPS_IOCSR_SCANCHAIN0_LENGTH iocsr_scan_chain0_table @
     chain_bits CONFIG_HPS_IOCSR_SCANCHAIN1_LENGTH iocsr_scan_chain1_table @
     chain_bits CONFIG_HPS_IOCSR_SCANCHAIN2_LENGTH iocsr_scan_chain2_table @
     chain_bits CONFIG_HPS_IOCSR_SCANCHAIN3_LENGTH iocsr_scan_chain3_table"

lemma chain_step:
  assumes "chain \<noteq> IO_SCAN_CHAIN_UNDEFINED" "unat len \<le> 32 * length T"
    "engine_free (env s)" "configuring s B t"
  shows "runs (ignore (scan_mgr_io_scan_chain_prg chain len T)) (\<lambda>_. configuring s (B @ chain_bits len T)) t"
proof -
  have t: "frz t = replicate 4 FREEZE_CTRL_FROZEN" "env t = env s" "jtag (trace t) = Some (B, 0)"
    "rst_mgr_status t = rst_mgr_status s"
    using assms(4) by (simp_all add: configuring_def engine_view_def)
  have frozen: "frz t ! channel_index (freeze_channel chain) = FREEZE_CTRL_FROZEN"
    using assms(1) by (cases chain) (simp_all add: t(1))
  have "length (frz t) = 4" using t by simp
  from runs_gives [OF scan_chain_run [OF assms(1) this assms(2) t(3)] gives_scan_chain [OF frozen]] assms(3) t(2)
  have "runs (scan_mgr_io_scan_chain_prg chain len T) (\<lambda>_ u. jtag (trace u) = Some (B @ chain_bits len T, 0)) t"
    by (auto simp: chain_bits_def elim!: runs_mono)
  then have "runs (scan_mgr_io_scan_chain_prg chain len T) (\<lambda>_. configuring s (B @ chain_bits len T)) t"
    by (rule runs_mono [OF runs_keeps [OF runs_keeps [OF runs_keeps [OF _ banks.keeps_scan_chain]
      hardware.keeps_scan_chain] status.keeps_scan_chain]]) (simp add: configuring_def engine_view_def t)
  then show ?thesis by (simp add: ignore_def runs_rules)
qed

lemma chain_lengths:
  "unat CONFIG_HPS_IOCSR_SCANCHAIN0_LENGTH \<le> 32 * length iocsr_scan_chain0_table"
  "unat CONFIG_HPS_IOCSR_SCANCHAIN1_LENGTH \<le> 32 * length iocsr_scan_chain1_table"
  "unat CONFIG_HPS_IOCSR_SCANCHAIN2_LENGTH \<le> 32 * length iocsr_scan_chain2_table"
  "unat CONFIG_HPS_IOCSR_SCANCHAIN3_LENGTH \<le> 32 * length iocsr_scan_chain3_table"
  by (simp_all add: reg_defs iocsr_scan_chain0_table_def iocsr_scan_chain1_table_def iocsr_scan_chain2_table_def
    iocsr_scan_chain3_table_def)

lemma iocsr_programmed:
  assumes "engine_free (env s)" "configuring s B t" "rst_mgr_status s AND RSTMGR_WARMRST_MASK = 0"
  shows "runs spl_iocsr (\<lambda>_. configuring s (B @ iocsr_bits)) t"
proof -
  have ctrl: "CONFIG_SYSMGR_ROMCODEGRP_CTRL \<notin> fifos" by (simp add: fifos_def reg_defs)
  have step: "configuring s B u \<Longrightarrow> chain \<noteq> IO_SCAN_CHAIN_UNDEFINED \<Longrightarrow> unat len \<le> 32 * length T \<Longrightarrow>
      (\<And>w. configuring s (B @ chain_bits len T) w \<Longrightarrow> Q () w) \<Longrightarrow>
      runs (ignore (scan_mgr_io_scan_chain_prg chain len T)) Q u" for chain len T B u Q
    using runs_mono [OF chain_step [OF _ _ assms(1)]] by fastforce
  have "runs (seqs [
     ignore (scan_mgr_io_scan_chain_prg IO_SCAN_CHAIN_0 CONFIG_HPS_IOCSR_SCANCHAIN0_LENGTH iocsr_scan_chain0_table),
     ignore (scan_mgr_io_scan_chain_prg IO_SCAN_CHAIN_1 CONFIG_HPS_IOCSR_SCANCHAIN1_LENGTH iocsr_scan_chain1_table),
     ignore (scan_mgr_io_scan_chain_prg IO_SCAN_CHAIN_2 CONFIG_HPS_IOCSR_SCANCHAIN2_LENGTH iocsr_scan_chain2_table),
     ignore (scan_mgr_io_scan_chain_prg IO_SCAN_CHAIN_3 CONFIG_HPS_IOCSR_SCANCHAIN3_LENGTH iocsr_scan_chain3_table)])
     (\<lambda>_. configuring s (B @ iocsr_bits)) u" if "configuring s B u" for u
    unfolding runs_seqs_Cons runs_seqs_Nil iocsr_bits_def
    by (rule step [OF that], simp, rule chain_lengths, erule step, simp, rule chain_lengths,
      erule step, simp, rule chain_lengths, erule step, simp, rule chain_lengths) simp
  note all = this
  have status: "rst_mgr_status t = rst_mgr_status s" using assms(2) by (simp add: configuring_def)
  have handshake: "configuring s C (u\<lparr>trace := Wr CONFIG_SYSMGR_ROMCODEGRP_CTRL w # h\<rparr>)"
    if "configuring s C u" "jtag h = jtag (trace u)" for C u w h
    using that by (simp add: configuring_def engine_view_def jtag_write_off [OF ctrl])
  show ?thesis
    unfolding spl_iocsr_def unless_warm_def
    by (simp add: runs_bind runs_readl runs_get runs_when status assms(3) del: seqs.simps)
      (simp only: runs_seqs_Cons [of "setbits_le32 _ _"] runs_setbits runs_seqs_Cons [of "seqs _"],
       rule runs_mono [OF all], simp add: handshake [OF assms(2)],
       simp only: runs_seqs_Cons runs_seqs_Nil runs_clrbits, erule handshake, simp)
qed

lemma completes_ready: "completes is_fpgamgr_fpga_ready"
  unfolding is_fpgamgr_fpga_ready_def fpgamgr_get_mode_def is_fpgamgr_initdone_high_def by (intro completes_intros)

lemma completes_reset: "completes spl_reset"
  unfolding spl_reset_def ignore_def reset_assert_all_peripherals_except_l4wd0_def reset_assert_all_bridges_def
    reset_deassert_osc1timer0_def timer_init_def
  by (intro completes_intros)

lemma completes_pinmux: "completes spl_pinmux"
  unfolding spl_pinmux_def unless_warm_def sysmgr_pinmux_init_def write_pinmux_table_def
    populate_sysmgr_fpgaintf_module_def use_fpga_def
  by (intro completes_intros completes_ready)

lemma completes_release: "completes spl_release"
  unfolding spl_release_def reset_deassert_peripherals_handoff_def reset_deassert_bridges_handoff_def config_bit_def
  by (intro completes_intros completes_ready)

text \<open>
  C9: On a cold boot the configuration completes, on hardware that answers in time: the PLLs lock and
  the clock manager settles within \<open>n\<close> polls, the scan engine is idle at one of the 100 reads the
  code makes of its status, and the timer counts between 1 and \<open>D\<close> periods from one access to
  the next and is far enough from its roll-over. Then the first six phases return, the banks are
  still frozen, and the scan engine has been sent the four I/O configuration tables, each with
  exactly the announced number of bits and nothing else.
\<close>

theorem configuration_completes:
  assumes "length (frz s) = 4" and "jtag (trace s) = Some (B, 0)"
    and "rst_mgr_status s AND RSTMGR_WARMRST_MASK = 0"
    and "clock_hw n D v0 (env s)" and "D * (length (trace s) + n + 175048) \<le> unat v0" and "engine_free (env s)"
  shows "runs (seqs (take 6 (spl_phases ext)))
    (\<lambda>_ t. frz t = replicate 4 FREEZE_CTRL_FROZEN \<and> jtag (trace t) = Some (B @ iocsr_bits, 0)) s"
proof -
  have freeze: "runs spl_freeze (\<lambda>_ t. configuring s B t \<and> length (trace t) = length (trace s) + 22) s"
  proof -
    have "runs spl_freeze (\<lambda>_ t. configuring s B t) s"
      by (rule runs_ends, simp, rule wp_mono [OF wp_freeze [OF assms(1)]])
        (use assms(2) in \<open>auto simp: configuring_def engine_view_def\<close>)
    moreover have "runs spl_freeze (\<lambda>_ t. length (trace t) = length (trace s) + 22) s"
      by (rule runs_ends [OF ends_freeze wp_freeze_length [OF assms(1)]])
    ultimately show ?thesis by (auto simp: runs_iff)
  qed
  have reset: "runs spl_reset (\<lambda>_ u. configuring s B u \<and> length (trace u) = length (trace s) + 30) t"
    if "configuring s B t \<and> length (trace t) = length (trace s) + 22" for t
  proof -
    have "runs spl_reset (\<lambda>_. configuring s B) t"
      using completes_reset that by (intro runs_configuring banks.keeps_reset hardware.keeps_reset status.keeps_reset
        engine.keeps_reset) (simp_all add: completes_def)
    moreover have "wp spl_reset (\<lambda>_ u. length (trace u) = length (trace t) + 8) (\<lambda>_. False) t" by (rule wp_reset_length)
    ultimately show ?thesis using that by (auto simp: runs_iff wp_def)
  qed
  have clocks: "runs spl_clocks (\<lambda>_. configuring s B) t"
    if "configuring s B t \<and> length (trace t) = length (trace s) + 30" for t
  proof -
    have "length (trace t) + n + 175018 = length (trace s) + n + 175048" using that by simp
    then have hw: "clock_hw n D v0 (env t)" "D * (length (trace t) + n + 175018) \<le> unat v0"
      using assms(4,5) that by (simp_all only: configuring_def)
    have "runs (cm_basic_init cm_default_cfg) (\<lambda>_ _. True) t"
      by (rule runs_mono [OF clocks_run [OF hw]]) simp
    then have "runs (cm_basic_init cm_default_cfg) (\<lambda>_. configuring s B) t"
      using that by (intro runs_configuring banks.keeps_clocks hardware.keeps_clocks status.keeps_clocks engine.keeps_clocks) simp_all
    then show ?thesis by (simp add: spl_clocks_def ignore_def runs_rules)
  qed
  have iocsr: "runs spl_iocsr (\<lambda>_. configuring s (B @ iocsr_bits)) t" if "configuring s B t" for t
    by (rule iocsr_programmed [OF assms(6) that assms(3)])
  have finish: "runs m (\<lambda>_. configuring s C) t"
    if "m \<in> {spl_pinmux, spl_release}" "configuring s C t" for m C t
    using that completes_pinmux completes_release
    by (intro runs_configuring) (auto simp: completes_def spl_pinmux_def intro: banks.keeps_unless_warm hardware.keeps_unless_warm
      status.keeps_unless_warm engine.keeps_unless_warm banks.keeps_pinmux hardware.keeps_pinmux status.keeps_pinmux
      engine.keeps_pinmux banks.keeps_release hardware.keeps_release status.keeps_release engine.keeps_release)
  have "take 6 (spl_phases ext) = [spl_freeze, spl_reset, spl_clocks, spl_iocsr, spl_pinmux, spl_release]"
    by (simp add: spl_phases_def)
  then show ?thesis
    by (simp only:)
      (rule runs_seqsI [OF freeze], erule runs_seqsI [OF reset], erule runs_seqsI [OF clocks], erule runs_seqsI [OF iocsr],
       rule runs_seqsI [OF finish], simp, assumption, rule runs_seqsI [OF finish], simp, assumption,
       simp add: runs_ret configuring_def engine_view_def)
qed

text \<open>A board whose scan engine is busy at the first look and idle at the second.\<close>

definition busy_board :: mach where
  "busy_board = ready_clocks\<lparr>env := \<lambda>h a. if a = scan_stat
     then (case h of Rd b v # _ \<Rightarrow> if b = scan_stat \<and> v = NOT 0 then 0 else NOT 0 | _ \<Rightarrow> NOT 0) else env ready_clocks h a\<rparr>"

lemma busy_board: "engine_free (env busy_board)" "clock_hw 1 3 0xFFFFFFFF (env busy_board)" "scan_busy (env busy_board [] scan_stat)"
proof -
  have "env busy_board h scan_stat = 0 \<or> env busy_board (Rd scan_stat (env busy_board h scan_stat) # h) scan_stat = 0" for h
    by (auto simp: busy_board_def split: list.splits event.splits)
  moreover have "\<not> scan_busy 0" by (simp add: scan_busy_def reg_defs)
  ultimately show "engine_free (env busy_board)" by (metis engine_freeI)
  have other: "env busy_board h a = env ready_clocks h a" if "a \<noteq> scan_stat" for h a
    using that by (simp add: busy_board_def)
  have all: "All (answers (Suc 0) a good (env busy_board)) \<longleftrightarrow> All (answers (Suc 0) a good (env ready_clocks))"
    if "a \<noteq> scan_stat" for a good
    by (rule arg_cong [where f = All]) (simp add: fun_eq_iff other that)
  have tick: "ticking (Suc 0) 3 \<tau> v0 (env busy_board) \<longleftrightarrow> ticking (Suc 0) 3 \<tau> v0 (env ready_clocks)" for \<tau> v0
    using other [of timer_curr_val] by (simp add: ticking_def) (simp add: reg_defs)
  have lock: "clk CLKMGR_INTER_ADDRESS \<noteq> scan_stat" by (simp add: reg_defs)
  show "clock_hw 1 3 0xFFFFFFFF (env busy_board)"
    using ready_clocks(1) unfolding clock_hw_def One_nat_def
    by (simp only: tick answers.simps other [OF lock]) (simp add: all reg_defs, elim conjE, intro conjI; assumption)
  show "scan_busy (env busy_board [] scan_stat)" by (simp add: busy_board_def scan_busy_def reg_defs)
qed

theorem configuration_completes_witness:
  "\<forall>ext. runs (seqs (take 6 (spl_phases ext)))
    (\<lambda>_ t. frz t = replicate 4 FREEZE_CTRL_FROZEN \<and> jtag (trace t) = Some (iocsr_bits, 0)) busy_board"
proof
  fix ext
  have "length (frz busy_board) = 4" "rst_mgr_status busy_board = 0" "trace busy_board = []"
    by (simp_all add: busy_board_def ready_clocks_def storage_machine_def)
  then show "runs (seqs (take 6 (spl_phases ext)))
    (\<lambda>_ t. frz t = replicate 4 FREEZE_CTRL_FROZEN \<and> jtag (trace t) = Some (iocsr_bits, 0)) busy_board"
    using configuration_completes [of busy_board "[]" 1 3 "0xFFFFFFFF" ext] busy_board(1,2) by simp
qed

section \<open>SDRAM\<close>

lemma appends_tail: "appends (enable_interrupts ext) \<Longrightarrow> appends (seqs [nic301_slave_ns, spl_irq ext, init_boot_params])"
  unfolding nic301_slave_ns_def spl_irq_def ignore_def arch_interrupt_init_def gic_dic_disable_secure_def
    gic_dic_clear_enable_all_intr_def gic_dic_clear_pending_all_intr_def gic_cpu_set_priority_mask_def
    gic_dic_enable_secure_def gic_cpu_enable_def irq_register_def set_vector_def gic_dic_set_config_def
    gic_dic_set_target_processor_def gic_dic_set_enable_def init_boot_params_def Let_def
  by (intro appends_intros appends_modify) simp_all

definition sdram_verified :: "mach \<Rightarrow> bool" where
  "sdram_verified t \<longleftrightarrow> list_all (\<lambda>b. confirmed (sdr_reg (step_off b)) (trace t)) (filter step_verified mmr_table)"

lemma sdram_verified_later: "sdram_verified s \<Longrightarrow> trace t = es @ trace s \<Longrightarrow> sdram_verified t"
  by (auto simp: sdram_verified_def list_all_iff confirmed_append)

lemma appends_gives: "appends m \<Longrightarrow> sdram_verified s \<Longrightarrow> gives m (\<lambda>_. sdram_verified) s"
  unfolding appends_def gives_def by (auto split: option.splits res.splits dest: sdram_verified_later)

lemma gives_hang: "gives hang Q s"
  by (simp add: hang_def seq_io_def bind_io_def msg_def halt_io_def gives_def)

text \<open>The status register of the calibration, as the code has left it.\<close>

definition cal_status_reg :: u32 where
  "cal_status_reg = apb PHY_MGR_CAL_STATUS 0"

definition cal_status :: "mach \<Rightarrow> u32 option" where
  "cal_status s = last_wr cal_status_reg (trace s)"

interpretation cal: view cal_status "{cal_status_reg}"
  by unfold_locales (simp_all add: cal_status_def)

lemma cal_status_at: "cal_status_reg = 0xffc2104c"
  by (simp add: cal_status_reg_def apb_def AVL_TO_APB_def reg_defs)

lemma shows_pass_status: "shows_pass t \<longleftrightarrow> cal_status t = Some PHY_MGR_CAL_SUCCESS"
  by (simp add: shows_pass_def cal_status_def cal_status_reg_def)

lemma keeps_tail:
  assumes "keeps cal_status (enable_interrupts ext)"
  shows "keeps cal_status (seqs [nic301_slave_ns, spl_irq ext, init_boot_params])"
proof -
  have nic: "keeps cal_status nic301_slave_ns"
    unfolding nic301_slave_ns_def by (intro cal.keeps_io) (simp_all add: cal_status_at reg_defs)
  have init: "keeps cal_status arch_interrupt_init"
    unfolding arch_interrupt_init_def gic_dic_disable_secure_def gic_dic_clear_enable_all_intr_def
      gic_dic_clear_pending_all_intr_def gic_cpu_set_priority_mask_def gic_dic_enable_secure_def gic_cpu_enable_def
    by (intro cal.keeps_io) (simp_all add: cal_status_at reg_defs)
  have register: "keeps cal_status (irq_register (ucast IRQ_ECC_OCRAM_CORRECTED) h a l)"
      "keeps cal_status (irq_register (ucast IRQ_ECC_OCRAM_UNCORRECTED) h a l)" for h a l
    unfolding irq_register_def set_vector_def gic_dic_set_config_def gic_dic_set_target_processor_def
      gic_dic_set_enable_def Let_def
    by (intro cal.keeps_io keeps_modify; simp add: cal_status_at cal_status_def dic_reg_def reg_defs)+
  show ?thesis
    unfolding spl_irq_def init_boot_params_def
    by (intro keeps_seqs_Cons nic init register keeps_ignore assms keeps_modify) (simp add: cal_status_def)
qed

text \<open>What it takes to get past the SDRAM phase.\<close>

lemma gives_calibration:
  assumes "sdram_verified s"
  shows "gives sdram_calibration_full (\<lambda>r t. r \<noteq> 0 \<longrightarrow> sdram_verified t \<and> shows_pass t) s"
proof -
  have "wp sdram_calibration_full (\<lambda>_. touched s) (\<lambda>_. False) s"
    using confined_calibration by (simp add: confined_def)
  then have "wp sdram_calibration_full (\<lambda>r t. r \<noteq> 0 \<longrightarrow> sdram_verified t \<and> shows_pass t) (\<lambda>_. False) s"
    using wp_calibration [of s] assms
    by (auto simp: wp_def touched_def dest: sdram_verified_later split: option.splits res.splits)
  then show ?thesis by (rule wp_gives)
qed

lemma gives_sdram: "gives spl_sdram (\<lambda>_ t. sdram_verified t \<and> shows_pass t) s"
proof -
  have init: "gives (bind_io sdram_mmr_init_full (\<lambda>r. when_io (r \<noteq> 0) hang)) (\<lambda>_. sdram_verified) t" for t
  proof (rule gives_bind)
    show "gives sdram_mmr_init_full (\<lambda>r u. r = 0 \<longrightarrow> sdram_verified u) t"
      by (rule wp_gives [OF wp_mono [OF wp_sdram_init]]) (auto simp: sdram_verified_def)
  qed (simp add: when_io_def gives_hang gives_ret)
  have cal: "gives (bind_io sdram_calibration_full (\<lambda>r. when_io (r = 0) hang))
      (\<lambda>_ t. sdram_verified t \<and> shows_pass t) t" if "sdram_verified t" for t
    by (rule gives_bind [OF gives_calibration [OF that]]) (simp add: when_io_def gives_hang gives_ret)
  have msg: "gives (msg f xs) (\<lambda>_ u. sdram_verified t \<longrightarrow> sdram_verified u) t" for f xs t
    by (simp add: gives_def msg_def sdram_verified_later [of t _ "[_]"])
  show ?thesis
    unfolding spl_sdram_def seqs.simps
    by (rule gives_seq [OF msg], rule gives_seq [OF init], rule gives_seq [OF msg],
      rule gives_seq [OF cal]) (simp_all add: gives_ret)
qed

text \<open>
  C19: The preloader does not get past the SDRAM phase without SDRAM, on every hardware: if
  the board initialisation returns, every verified register of the SDRAM controller was written
  and read back unchanged, and the calibration has passed: what was written last to its status
  register is success. The code outside the model is assumed not to take back accesses and not to
  write that register.
\<close>

theorem boot_needs_sdram:
  assumes "appends (enable_interrupts ext)" and "keeps cal_status (enable_interrupts ext)"
  shows "gives (spl_board_init ext)
      (\<lambda>_ t. list_all (\<lambda>b. confirmed (sdr_reg (step_off b)) (trace t)) (filter step_verified mmr_table) \<and>
        cal_status t = Some PHY_MGR_CAL_SUCCESS) s"
proof -
  have phases: "spl_phases ext = [spl_freeze, spl_reset, spl_clocks, spl_iocsr, spl_pinmux, spl_release, spl_thaw, spl_console ext] @
      spl_sdram # [nic301_slave_ns, spl_irq ext, init_boot_params]"
    by (simp add: spl_phases_def)
  have tail: "gives (seqs [nic301_slave_ns, spl_irq ext, init_boot_params]) (\<lambda>_ t. sdram_verified t \<and> shows_pass t) u"
    if "sdram_verified u \<and> shows_pass u" for u
    using keeps_gives [OF keeps_tail [OF assms(2)], of u] appends_gives [OF appends_tail [OF assms(1)], of u] that
    by (simp add: shows_pass_status gives_def split: option.splits res.splits)
  have "gives (spl_board_init ext) (\<lambda>_ t. sdram_verified t \<and> shows_pass t) s"
    unfolding spl_board_init_def phases seqs_append seqs.simps(2) [of spl_sdram]
    by (rule gives_seq [OF gives_any], rule gives_seq [OF gives_sdram], rule tail)
  then show ?thesis
    by (simp add: sdram_verified_def shows_pass_status)
qed

theorem boot_needs_sdram_witness:
  "\<forall>s. gives (spl_board_init \<lparr>preloader_console_init = ret (), enable_interrupts = ret (),
      irq_cnt_ecc_ocram_corrected = 0, irq_cnt_ecc_ocram_uncorrected = 4\<rparr>)
    (\<lambda>_ t. cal_status t = Some PHY_MGR_CAL_SUCCESS) s"
proof
  fix s
  show "gives (spl_board_init \<lparr>preloader_console_init = ret (), enable_interrupts = ret (),
      irq_cnt_ecc_ocram_corrected = 0, irq_cnt_ecc_ocram_uncorrected = 4\<rparr>)
    (\<lambda>_ t. cal_status t = Some PHY_MGR_CAL_SUCCESS) s"
    using boot_needs_sdram [of "\<lparr>preloader_console_init = ret (), enable_interrupts = ret (),
      irq_cnt_ecc_ocram_corrected = 0, irq_cnt_ecc_ocram_uncorrected = 4\<rparr>" s]
    by (simp add: keeps_ret gives_def split: option.splits res.splits)
qed

end
