(* ===== verification/Crc32.thy ===== *)
theory Crc32 imports Prelude begin

text \<open>
  lib/crc32.c: the checksum of boot images. The processor is little endian, so
  \<open>tole\<close>, \<open>cpu_to_le32\<close> and \<open>le32_to_cpu\<close> are the identity; the table is static
  (\<open>DYNAMIC_CRC_TABLE\<close> is not defined), and \<open>make_crc_table\<close> is the specification it was made from.
\<close>

section \<open>Operations\<close>

type_synonym memory = "u32 \<Rightarrow> u8"

text \<open>\<open>c = c & 1 ? poly ^ (c >> 1) : c >> 1\<close> of \<open>make_crc_table\<close>, and the polynomial it builds.\<close>

definition poly :: u32 where
  "poly = foldl (\<lambda>p i. p OR push_bit (31 - i) 1) 0 [0, 1, 2, 4, 5, 7, 8, 10, 11, 12, 16, 22, 23, 26]"

definition crc_shift :: "u32 \<Rightarrow> u32" where
  "crc_shift c = (if bit c 0 then poly XOR drop_bit 1 c else drop_bit 1 c)"

definition make_crc_table :: "u32 list" where
  "make_crc_table = map (\<lambda>n. (crc_shift ^^ 8) (of_nat n)) [0..<256]"

definition crc_table :: "u32 list" where
  "crc_table = [
     0x00000000, 0x77073096, 0xee0e612c, 0x990951ba, 0x076dc419, 0x706af48f,
     0xe963a535, 0x9e6495a3, 0x0edb8832, 0x79dcb8a4, 0xe0d5e91e, 0x97d2d988,
     0x09b64c2b, 0x7eb17cbd, 0xe7b82d07, 0x90bf1d91, 0x1db71064, 0x6ab020f2,
     0xf3b97148, 0x84be41de, 0x1adad47d, 0x6ddde4eb, 0xf4d4b551, 0x83d385c7,
     0x136c9856, 0x646ba8c0, 0xfd62f97a, 0x8a65c9ec, 0x14015c4f, 0x63066cd9,
     0xfa0f3d63, 0x8d080df5, 0x3b6e20c8, 0x4c69105e, 0xd56041e4, 0xa2677172,
     0x3c03e4d1, 0x4b04d447, 0xd20d85fd, 0xa50ab56b, 0x35b5a8fa, 0x42b2986c,
     0xdbbbc9d6, 0xacbcf940, 0x32d86ce3, 0x45df5c75, 0xdcd60dcf, 0xabd13d59,
     0x26d930ac, 0x51de003a, 0xc8d75180, 0xbfd06116, 0x21b4f4b5, 0x56b3c423,
     0xcfba9599, 0xb8bda50f, 0x2802b89e, 0x5f058808, 0xc60cd9b2, 0xb10be924,
     0x2f6f7c87, 0x58684c11, 0xc1611dab, 0xb6662d3d, 0x76dc4190, 0x01db7106,
     0x98d220bc, 0xefd5102a, 0x71b18589, 0x06b6b51f, 0x9fbfe4a5, 0xe8b8d433,
     0x7807c9a2, 0x0f00f934, 0x9609a88e, 0xe10e9818, 0x7f6a0dbb, 0x086d3d2d,
     0x91646c97, 0xe6635c01, 0x6b6b51f4, 0x1c6c6162, 0x856530d8, 0xf262004e,
     0x6c0695ed, 0x1b01a57b, 0x8208f4c1, 0xf50fc457, 0x65b0d9c6, 0x12b7e950,
     0x8bbeb8ea, 0xfcb9887c, 0x62dd1ddf, 0x15da2d49, 0x8cd37cf3, 0xfbd44c65,
     0x4db26158, 0x3ab551ce, 0xa3bc0074, 0xd4bb30e2, 0x4adfa541, 0x3dd895d7,
     0xa4d1c46d, 0xd3d6f4fb, 0x4369e96a, 0x346ed9fc, 0xad678846, 0xda60b8d0,
     0x44042d73, 0x33031de5, 0xaa0a4c5f, 0xdd0d7cc9, 0x5005713c, 0x270241aa,
     0xbe0b1010, 0xc90c2086, 0x5768b525, 0x206f85b3, 0xb966d409, 0xce61e49f,
     0x5edef90e, 0x29d9c998, 0xb0d09822, 0xc7d7a8b4, 0x59b33d17, 0x2eb40d81,
     0xb7bd5c3b, 0xc0ba6cad, 0xedb88320, 0x9abfb3b6, 0x03b6e20c, 0x74b1d29a,
     0xead54739, 0x9dd277af, 0x04db2615, 0x73dc1683, 0xe3630b12, 0x94643b84,
     0x0d6d6a3e, 0x7a6a5aa8, 0xe40ecf0b, 0x9309ff9d, 0x0a00ae27, 0x7d079eb1,
     0xf00f9344, 0x8708a3d2, 0x1e01f268, 0x6906c2fe, 0xf762575d, 0x806567cb,
     0x196c3671, 0x6e6b06e7, 0xfed41b76, 0x89d32be0, 0x10da7a5a, 0x67dd4acc,
     0xf9b9df6f, 0x8ebeeff9, 0x17b7be43, 0x60b08ed5, 0xd6d6a3e8, 0xa1d1937e,
     0x38d8c2c4, 0x4fdff252, 0xd1bb67f1, 0xa6bc5767, 0x3fb506dd, 0x48b2364b,
     0xd80d2bda, 0xaf0a1b4c, 0x36034af6, 0x41047a60, 0xdf60efc3, 0xa867df55,
     0x316e8eef, 0x4669be79, 0xcb61b38c, 0xbc66831a, 0x256fd2a0, 0x5268e236,
     0xcc0c7795, 0xbb0b4703, 0x220216b9, 0x5505262f, 0xc5ba3bbe, 0xb2bd0b28,
     0x2bb45a92, 0x5cb36a04, 0xc2d7ffa7, 0xb5d0cf31, 0x2cd99e8b, 0x5bdeae1d,
     0x9b64c2b0, 0xec63f226, 0x756aa39c, 0x026d930a, 0x9c0906a9, 0xeb0e363f,
     0x72076785, 0x05005713, 0x95bf4a82, 0xe2b87a14, 0x7bb12bae, 0x0cb61b38,
     0x92d28e9b, 0xe5d5be0d, 0x7cdcefb7, 0x0bdbdf21, 0x86d3d2d4, 0xf1d4e242,
     0x68ddb3f8, 0x1fda836e, 0x81be16cd, 0xf6b9265b, 0x6fb077e1, 0x18b74777,
     0x88085ae6, 0xff0f6a70, 0x66063bca, 0x11010b5c, 0x8f659eff, 0xf862ae69,
     0x616bffd3, 0x166ccf45, 0xa00ae278, 0xd70dd2ee, 0x4e048354, 0x3903b3c2,
     0xa7672661, 0xd06016f7, 0x4969474d, 0x3e6e77db, 0xaed16a4a, 0xd9d65adc,
     0x40df0b66, 0x37d83bf0, 0xa9bcae53, 0xdebb9ec5, 0x47b2cf7f, 0x30b5ffe9,
     0xbdbdf21c, 0xcabac28a, 0x53b39330, 0x24b4a3a6, 0xbad03605, 0xcdd70693,
     0x54de5729, 0x23d967bf, 0xb3667a2e, 0xc4614ab8, 0x5d681b02, 0x2a6f2b94,
     0xb40bbe37, 0xc30c8ea1, 0x5a05df1b, 0x2d02ef8d]"

definition DO_CRC :: "u32 \<Rightarrow> u32 \<Rightarrow> u32" where
  "DO_CRC crc x = crc_table ! unat ((crc XOR x) AND 255) XOR drop_bit 8 crc"

text \<open>A 32-bit load.\<close>

definition load32 :: "memory \<Rightarrow> u32 \<Rightarrow> u32" where
  "load32 mem a = ucast (mem a) OR push_bit 8 (ucast (mem (a + 1))) OR
     push_bit 16 (ucast (mem (a + 2))) OR push_bit 24 (ucast (mem (a + 3)))"

text \<open>\<open>do DO_CRC(*p++); while (--len && (long)p & 3);\<close> with the new \<open>crc\<close>, \<open>p\<close> and \<open>len\<close>.\<close>

function crc_align :: "memory \<Rightarrow> u32 \<Rightarrow> u32 \<Rightarrow> u32 \<Rightarrow> u32 \<times> u32 \<times> u32" where
  "crc_align mem crc p len =
     (let crc' = DO_CRC crc (ucast (mem p)); p' = p + 1; len' = len - 1
      in if len' \<noteq> 0 \<and> p' AND 3 \<noteq> 0 then crc_align mem crc' p' len' else (crc', p', len'))"
  by pat_completeness auto
termination
proof (relation "measure (\<lambda>(mem, crc, p, len). unat (len - 1))")
  fix mem :: memory and crc p len crc' p' len' :: u32
  assume "len' = len - 1" and "len' \<noteq> 0 \<and> p' AND 3 \<noteq> 0"
  then have "unat (len' - 1) < unat (len - 1)"
    using unat_minus_one [of len'] by (simp only: unat_gt_0 [symmetric] diff_less zero_less_one)
  then show "((mem, crc', p', len'), mem, crc, p, len) \<in> measure (\<lambda>(mem, crc, p, len). unat (len - 1))" by simp
qed simp

declare crc_align.simps [simp del]

primrec crc_words :: "memory \<Rightarrow> nat \<Rightarrow> u32 \<Rightarrow> u32 \<Rightarrow> u32" where
  "crc_words mem 0 crc b = crc"
| "crc_words mem (Suc n) crc b =
     crc_words mem n (DO_CRC (DO_CRC (DO_CRC (DO_CRC (crc XOR load32 mem b) 0) 0) 0) 0) (b + 4)"

primrec crc_bytes :: "memory \<Rightarrow> nat \<Rightarrow> u32 \<Rightarrow> u32 \<Rightarrow> u32" where
  "crc_bytes mem 0 crc p = crc"
| "crc_bytes mem (Suc n) crc p = crc_bytes mem n (DO_CRC crc (ucast (mem p))) (p + 1)"

definition crc32_no_comp :: "u32 \<Rightarrow> memory \<Rightarrow> u32 \<Rightarrow> u32 \<Rightarrow> u32" where
  "crc32_no_comp crc mem buf len =
     (let (crc, b, len) = (if buf AND 3 \<noteq> 0 \<and> len \<noteq> 0 then crc_align mem crc buf len else (crc, buf, len));
          words = unat (drop_bit 2 len);
          rem_len = unat (len AND 3)
      in crc_bytes mem rem_len (crc_words mem words crc b) (b + 4 * of_nat words))"

definition crc32 :: "u32 \<Rightarrow> memory \<Rightarrow> u32 \<Rightarrow> u32 \<Rightarrow> u32" where
  "crc32 crc mem p len = crc32_no_comp (crc XOR 0xffffffff) mem p len XOR 0xffffffff"

text \<open>Without a watchdog, the chunk size is not used.\<close>

definition crc32_wd :: "u32 \<Rightarrow> memory \<Rightarrow> u32 \<Rightarrow> u32 \<Rightarrow> u32 \<Rightarrow> u32" where
  "crc32_wd crc mem buf len chunk_sz = crc32 crc mem buf len"

section \<open>The shift register\<close>

lemma poly_value: "poly = 0xedb88320"
  by (simp add: poly_def)

lemma crc_shift_numeral: "crc_shift c = (if odd c then 0xedb88320 XOR drop_bit 1 c else drop_bit 1 c)"
  by (simp add: crc_shift_def poly_value bit_0)

definition crc8 :: "u32 \<Rightarrow> u32" where
  "crc8 c = crc_shift (crc_shift (crc_shift (crc_shift (crc_shift (crc_shift (crc_shift (crc_shift c)))))))"

lemma crc8_pow: "(crc_shift ^^ 8) c = crc8 c"
  by (simp add: crc8_def eval_nat_numeral)

lemma crc_table_made: "crc_table = make_crc_table"
proof -
  have "make_crc_table = map crc8 (map of_nat (upt 0 256))"
    by (simp add: make_crc_table_def crc8_pow)
  also have "map of_nat (upt 0 256) = [0, 1, 2, 3, 4, 5, 6, 7, 8, 9, 10, 11, 12, 13, 14, 15, 16, 17, 18, 19, 20, 21, 22, 23, 24, 25, 26, 27, 28, 29, 30, 31, 32, 33, 34, 35, 36, 37, 38, 39, 40, 41, 42, 43, 44, 45, 46, 47, 48, 49, 50, 51, 52, 53, 54, 55, 56, 57, 58, 59, 60, 61, 62, 63, 64, 65, 66, 67, 68, 69, 70, 71, 72, 73, 74, 75, 76, 77, 78, 79, 80, 81, 82, 83, 84, 85, 86, 87, 88, 89, 90, 91, 92, 93, 94, 95, 96, 97, 98, 99, 100, 101, 102, 103, 104, 105, 106, 107, 108, 109, 110, 111, 112, 113, 114, 115, 116, 117, 118, 119, 120, 121, 122, 123, 124, 125, 126, 127, 128, 129, 130, 131, 132, 133, 134, 135, 136, 137, 138, 139, 140, 141, 142, 143, 144, 145, 146, 147, 148, 149, 150, 151, 152, 153, 154, 155, 156, 157, 158, 159, 160, 161, 162, 163, 164, 165, 166, 167, 168, 169, 170, 171, 172, 173, 174, 175, 176, 177, 178, 179, 180, 181, 182, 183, 184, 185, 186, 187, 188, 189, 190, 191, 192, 193, 194, 195, 196, 197, 198, 199, 200, 201, 202, 203, 204, 205, 206, 207, 208, 209, 210, 211, 212, 213, 214, 215, 216, 217, 218, 219, 220, 221, 222, 223, 224, 225, 226, 227, 228, 229, 230, 231, 232, 233, 234, 235, 236, 237, 238, 239, 240, 241, 242, 243, 244, 245, 246, 247, 248, 249, 250, 251, 252, 253, 254, 255 :: u32]"
    by (simp add: upt_rec)
  also have "map crc8 \<dots> = crc_table"
    by (simp add: crc8_def crc_shift_numeral crc_table_def)
  finally show ?thesis by (rule sym)
qed

section \<open>Linearity\<close>

lemma shift_xor: "crc_shift (a XOR b) = crc_shift a XOR crc_shift b"
  by (rule bit_word_eqI) (auto simp: crc_shift_def bit_simps)

lemma crc8_xor: "crc8 (a XOR b) = crc8 a XOR crc8 b"
  by (simp add: crc8_def shift_xor)

lemma shift_even: "\<not> bit c 0 \<Longrightarrow> crc_shift c = drop_bit 1 c"
  by (simp add: crc_shift_def)

lemma crc8_high: "take_bit 8 c = 0 \<Longrightarrow> crc8 c = drop_bit 8 c"
proof -
  assume "take_bit 8 c = 0"
  then have "\<not> bit c n" if "n < 8" for n
    using that by (metis bit_take_bit_iff bit_0_eq bot_apply bot_bool_def)
  then have "\<not> bit (drop_bit n c) 0" if "n < 8" for n using that by (simp add: bit_simps)
  then have step: "crc_shift (drop_bit n c) = drop_bit (Suc n) c" if "n < 8" for n
    using that by (simp add: shift_even add.commute)
  have "crc_shift c = drop_bit 1 c" using step [of 0] by simp
  then show ?thesis unfolding crc8_def using step [of 1] step [of 2] step [of 3] step [of 4] step [of 5] step [of 6] step [of 7]
    by (simp add: numeral_eq_Suc)
qed

lemma table_entry: "crc_table ! unat (c AND 255) = crc8 (c AND 255)"
proof -
  have "unat (c AND 255) < 256"
    using word_and_le1 [of c 255] by (simp add: word_le_nat_alt)
  then show ?thesis
    by (simp only: crc_table_made make_crc_table_def crc8_pow nth_map nth_upt length_upt diff_zero add_0) simp
qed

lemma DO_CRC_low:
  assumes "drop_bit 8 x = 0"
  shows "DO_CRC c x = crc8 (c XOR x)"
proof -
  have split: "c XOR x = ((c XOR x) AND 255) XOR push_bit 8 (drop_bit 8 c)"
  proof (rule bit_word_eqI)
    fix n assume "n < LENGTH(32)"
    have x: "\<not> bit x n" if "8 \<le> n"
    proof -
      have "bit (drop_bit 8 x) (n - 8) = bit x n" using that by (simp add: bit_drop_bit_eq)
      with assms show ?thesis by simp
    qed
    have "bit (255 :: u32) n \<longleftrightarrow> n < 8"
    proof -
      have "(255 :: u32) = mask 8" by (simp add: mask_eq_exp_minus_1)
      then show ?thesis by (simp only: bit_mask_iff) auto
    qed
    then show "bit (c XOR x) n = bit (((c XOR x) AND 255) XOR push_bit 8 (drop_bit 8 c)) n"
      using x by (auto simp: bit_simps dest: bit_imp_le_length)
  qed
  have "crc8 (push_bit 8 (drop_bit 8 c)) = drop_bit 8 c"
  proof -
    have "take_bit 8 (push_bit 8 (drop_bit 8 c)) = 0" by (rule bit_word_eqI) (auto simp: bit_simps)
    moreover have "drop_bit 8 (push_bit 8 (drop_bit 8 c)) = drop_bit 8 c"
      by (rule bit_word_eqI) (auto simp: bit_simps dest: bit_imp_le_length)
    ultimately show ?thesis by (simp add: crc8_high)
  qed
  then show ?thesis unfolding DO_CRC_def table_entry by (subst split) (simp only: crc8_xor)
qed

lemma DO_CRC_zero: "DO_CRC c 0 = crc8 c"
  by (simp add: DO_CRC_low)

section \<open>The reference\<close>

definition crc_byte :: "u32 \<Rightarrow> u8 \<Rightarrow> u32" where
  "crc_byte c b = (crc_shift ^^ 8) (c XOR ucast b)"

definition mem_bytes :: "memory \<Rightarrow> u32 \<Rightarrow> nat \<Rightarrow> u8 list" where
  "mem_bytes mem a n = map (\<lambda>i. mem (a + of_nat i)) [0..<n]"

lemma mem_bytes_0 [simp]: "mem_bytes mem a 0 = []"
  by (simp add: mem_bytes_def)

lemma mem_bytes_append: "mem_bytes mem a (m + n) = mem_bytes mem a m @ mem_bytes mem (a + of_nat m) n"
proof -
  have "map (\<lambda>i. mem (a + of_nat i)) [m..<m + n] = map (\<lambda>i. mem (a + of_nat m + of_nat i)) [0..<n]"
    by (rule nth_equalityI) (simp_all add: algebra_simps)
  then show ?thesis by (simp add: mem_bytes_def upt_add_eq_append [of 0 m n])
qed

lemma mem_bytes_Suc: "mem_bytes mem a (Suc n) = mem a # mem_bytes mem (a + 1) n"
  using mem_bytes_append [of mem a 1 n] by (simp add: mem_bytes_def)

lemma DO_CRC_byte: "DO_CRC c (ucast (b :: u8)) = crc_byte c b"
proof -
  have "drop_bit 8 (ucast b :: u32) = 0"
    by (rule bit_word_eqI) (auto simp: bit_simps dest: bit_imp_le_length)
  then show ?thesis by (simp add: DO_CRC_low crc_byte_def crc8_pow)
qed

lemma crc_bytes_ref: "crc_bytes mem n c p = foldl crc_byte c (mem_bytes mem p n)"
  by (induction n arbitrary: c p) (simp_all add: mem_bytes_Suc DO_CRC_byte)

text \<open>Four bytes at once: the higher bytes of the word only meet the register when they are shifted down.\<close>

lemma crc8_word: "crc8 (c XOR (ucast (b :: u8) OR push_bit 8 w)) = crc_byte c b XOR take_bit 24 w"
proof -
  have "(ucast b :: u32) OR push_bit 8 w = ucast b XOR push_bit 8 w"
    by (rule bit_word_eqI) (auto simp: bit_simps dest: bit_imp_le_length)
  moreover have "crc8 (push_bit 8 w) = take_bit 24 w"
  proof -
    have "take_bit 8 (push_bit 8 w) = 0" by (rule bit_word_eqI) (auto simp: bit_simps)
    moreover have "drop_bit 8 (push_bit 8 w) = take_bit 24 w"
      by (rule bit_word_eqI) (auto simp: bit_simps dest: bit_imp_le_length)
    ultimately show ?thesis by (simp add: crc8_high)
  qed
  ultimately show ?thesis by (simp add: crc8_xor crc_byte_def crc8_pow xor.assoc)
qed


lemma word_steps:
  "DO_CRC (DO_CRC (DO_CRC (DO_CRC (c XOR load32 mem b) 0) 0) 0) 0 = foldl crc_byte c (mem_bytes mem b 4)"
proof -
  let ?b0 = "mem b" and ?b1 = "mem (b + 1)" and ?b2 = "mem (b + 2)" and ?b3 = "mem (b + 3)"
  let ?w3 = "ucast ?b3 OR push_bit 8 (0 :: u32)"
  let ?w2 = "ucast ?b2 OR push_bit 8 ?w3"
  let ?w1 = "ucast ?b1 OR push_bit 8 ?w2"
  have w: "load32 mem b = ucast ?b0 OR push_bit 8 ?w1"
    by (rule bit_word_eqI) (auto simp: load32_def bit_simps dest: bit_imp_le_length)
  have t: "take_bit 24 ?w1 = ?w1" "take_bit 24 ?w2 = ?w2" "take_bit 24 ?w3 = ?w3"
    by (rule bit_word_eqI, force simp: bit_simps dest: bit_imp_le_length)+
  have "crc8 (crc8 (crc8 (crc8 (c XOR load32 mem b)))) =
      crc_byte (crc_byte (crc_byte (crc_byte c ?b0) ?b1) ?b2) ?b3"
    unfolding w crc8_word t by simp
  moreover have "mem_bytes mem b 4 = [?b0, ?b1, ?b2, ?b3]"
    by (simp add: mem_bytes_Suc numeral_eq_Suc add.assoc)
  ultimately show ?thesis by (simp add: DO_CRC_zero)
qed

lemma crc_words_ref: "crc_words mem n c b = foldl crc_byte c (mem_bytes mem b (4 * n))"
  by (induction n arbitrary: c b) (simp_all add: word_steps mem_bytes_append [of mem _ 4])

lemma crc_align_ref:
  assumes "len \<noteq> 0"
  shows "\<exists>k. k \<le> unat len \<and> crc_align mem c p len = (foldl crc_byte c (mem_bytes mem p k), p + of_nat k, len - of_nat k)"
  using assms
proof (induction mem c p len rule: crc_align.induct)
  case (1 mem c p len)
  have len: "unat (len - 1) = unat len - 1" "0 < unat len" using 1(2) by (simp_all add: unat_minus_one unat_gt_0)
  show ?case
  proof (cases "len - 1 \<noteq> 0 \<and> (p + 1) AND 3 \<noteq> 0")
    case True
    from 1(1) [OF refl refl refl True] True obtain k where k: "k \<le> unat (len - 1)"
      "crc_align mem (DO_CRC c (ucast (mem p))) (p + 1) (len - 1) =
        (foldl crc_byte (DO_CRC c (ucast (mem p))) (mem_bytes mem (p + 1) k), p + 1 + of_nat k, len - 1 - of_nat k)"
      by blast
    then show ?thesis
      using True len
      by (intro exI [of _ "Suc k"]) (simp add: crc_align.simps [of mem c p len] Let_def DO_CRC_byte mem_bytes_Suc algebra_simps)
  next
    case False
    then have "crc_align mem c p len = (DO_CRC c (ucast (mem p)), p + 1, len - 1)"
      by (subst crc_align.simps) (simp only: Let_def if_False)
    then show ?thesis
      using len by (intro exI [of _ 1]) (simp add: DO_CRC_byte mem_bytes_Suc)
  qed
qed

lemma split_length: "4 * unat (drop_bit 2 (len :: u32)) + unat (len AND 3) = unat len"
proof -
  have "len AND 3 = take_bit 2 len" by (simp add: take_bit_eq_mask mask_eq_exp_minus_1)
  then show ?thesis
    by (simp add: drop_bit_eq_div take_bit_eq_mod unat_div unat_mod)
qed

lemma crc32_no_comp_ref: "crc32_no_comp c mem buf len = foldl crc_byte c (mem_bytes mem buf (unat len))"
proof -
  have tail: "crc_bytes mem (unat (l AND 3)) (crc_words mem (unat (drop_bit 2 l)) d b) (b + 4 * of_nat (unat (drop_bit 2 l)))
      = foldl crc_byte d (mem_bytes mem b (unat l))" for d b and l :: u32
    unfolding split_length [of l, symmetric]
    by (simp add: crc_bytes_ref crc_words_ref mem_bytes_append)
  show ?thesis
  proof (cases "buf AND 3 \<noteq> 0 \<and> len \<noteq> 0")
    case True
    then obtain k where k: "k \<le> unat len"
      "crc_align mem c buf len = (foldl crc_byte c (mem_bytes mem buf k), buf + of_nat k, len - of_nat k)"
      using crc_align_ref by blast
    have "unat (len - of_nat k) = unat len - k"
    proof -
      have "unat (of_nat k :: u32) = k"
        using k(1) unsigned_less [of len, where 'a = nat] by (simp add: unat_of_nat take_bit_nat_eq_self)
      with k(1) show ?thesis by (simp add: unat_sub word_le_nat_alt)
    qed
    with k True show ?thesis
      using mem_bytes_append [of mem buf k "unat len - k"]
        tail [of "len - of_nat k" "foldl crc_byte c (mem_bytes mem buf k)" "buf + of_nat k"]
      by (simp add: crc32_no_comp_def Let_def)
  next
    case False
    then show ?thesis by (simp only: crc32_no_comp_def if_False Let_def case_prod_conv tail)
  qed
qed


lemma xor_ones: "(x :: u32) XOR 0xffffffff = NOT x"
proof -
  have "(0xffffffff :: u32) = - 1" by simp
  then show ?thesis by (simp only:) (rule bit_word_eqI, simp add: bit_simps)
qed

lemma xor_cancel: "a XOR b = a XOR c \<longleftrightarrow> b = (c :: 'a::len word)"
proof
  assume "a XOR b = a XOR c"
  then have "a XOR (a XOR b) = a XOR (a XOR c)" by (simp only:)
  then show "b = c" by (simp add: xor.assoc [symmetric])
qed simp

lemma ucast_u8_inj: "(ucast (a :: u8) :: u32) = ucast b \<Longrightarrow> a = b"
proof (rule bit_word_eqI)
  fix n assume eq: "(ucast a :: u32) = ucast b" and n: "n < LENGTH(8)"
  have "bit (ucast a :: u32) n = bit (ucast b :: u32) n" by (simp only: eq)
  with n show "bit a n = bit b n" by (simp add: bit_simps)
qed

lemma crc32_foldl: "crc32 crc mem p len = NOT (foldl crc_byte (NOT crc) (mem_bytes mem p (unat len)))"
  by (simp only: crc32_def crc32_no_comp_ref xor_ones)

text \<open>
  C4: The table-driven, word-at-a-time checksum is the textbook one, for every start value, address
  (aligned or not) and length: the shift register of \<open>make_crc_table\<close>, eight shifts per
  byte, fed with the bytes in order, inverted before and after.
\<close>

theorem crc32_is_reference:
  "crc32 crc mem p len = NOT (foldl (\<lambda>c b. (crc_shift ^^ 8) (c XOR ucast b)) (NOT crc) (mem_bytes mem p (unat len)))"
  by (simp only: crc32_foldl crc_byte_def [abs_def])

section \<open>Errors that are detected\<close>

lemma shift_inj: "crc_shift a = crc_shift b \<Longrightarrow> a = b"
proof -
  assume eq: "crc_shift a = crc_shift b"
  have top: "bit (crc_shift c) 31 = bit c 0" for c
    by (simp add: crc_shift_def poly_value bit_simps) (auto dest: bit_imp_le_length)
  have "drop_bit 1 a = drop_bit 1 b"
    using eq top [of a] top [of b] unfolding crc_shift_def by (simp add: xor_cancel split: if_splits)
  then have "bit a (Suc n) = bit b (Suc n)" for n
    by (metis bit_drop_bit_eq comp_apply plus_1_eq_Suc)
  moreover have "bit a 0 = bit b 0" using eq top by metis
  ultimately show "a = b" by (metis bit_word_eqI not0_implies_Suc)
qed

lemma crc_byte_inj: "crc_byte c a = crc_byte d b \<Longrightarrow> c XOR ucast a = d XOR ucast b"
proof -
  have "inj (crc_shift ^^ 8)" by (rule inj_fn) (auto intro: injI shift_inj)
  then show "crc_byte c a = crc_byte d b \<Longrightarrow> c XOR ucast a = d XOR ucast b"
    by (simp add: crc_byte_def inj_eq)
qed

lemma foldl_crc_inj: "foldl crc_byte c bs = foldl crc_byte d bs \<Longrightarrow> c = d"
proof (induction bs arbitrary: c d)
  case (Cons b bs)
  then have "crc_byte c b = crc_byte d b" by simp
  from crc_byte_inj [OF this] show ?case by (simp add: xor.commute [of _ "ucast b"] xor_cancel)
qed simp

text \<open>
  C37: One damaged byte is always detected: if two images of the same length differ in exactly
  one byte, however long they are, their checksums differ.
\<close>

theorem crc32_detects_byte:
  assumes "k < unat len" and "mem (p + of_nat k) \<noteq> mem' (p + of_nat k)"
    and "\<And>i. i < unat len \<Longrightarrow> i \<noteq> k \<Longrightarrow> mem (p + of_nat i) = mem' (p + of_nat i)"
  shows "crc32 crc mem p len \<noteq> crc32 crc mem' p len"
proof
  assume "crc32 crc mem p len = crc32 crc mem' p len"
  then have eq: "foldl crc_byte (NOT crc) (mem_bytes mem p (unat len)) = foldl crc_byte (NOT crc) (mem_bytes mem' p (unat len))"
    by (simp add: crc32_foldl)
  obtain n where n: "unat len = k + Suc n" using assms(1) less_imp_Suc_add by fastforce
  have split: "mem_bytes m p (unat len) = mem_bytes m p k @ m (p + of_nat k) # mem_bytes m (p + of_nat k + 1) n" for m
    unfolding n mem_bytes_append mem_bytes_Suc ..
  have before: "mem_bytes mem p k = mem_bytes mem' p k"
    unfolding mem_bytes_def using assms by (intro map_cong) auto
  have "mem_bytes mem (p + of_nat k + 1) n = mem_bytes mem' (p + of_nat k + 1) n"
    unfolding mem_bytes_def
  proof (rule map_cong)
    fix i assume "i \<in> set [0..<n]"
    then show "mem (p + of_nat k + 1 + of_nat i) = mem' (p + of_nat k + 1 + of_nat i)"
      using assms(3) [of "k + 1 + i"] n by (simp add: algebra_simps)
  qed simp
  with eq have "crc_byte (foldl crc_byte (NOT crc) (mem_bytes mem' p k)) (mem (p + of_nat k)) =
      crc_byte (foldl crc_byte (NOT crc) (mem_bytes mem' p k)) (mem' (p + of_nat k))"
    unfolding split before by (simp add: foldl_crc_inj)
  from crc_byte_inj [OF this] have "mem (p + of_nat k) = mem' (p + of_nat k)"
    by (simp add: xor_cancel ucast_u8_inj)
  with assms(2) show False by simp
qed

lemma of_nat_u32_inj: "i < 2 ^ 32 \<Longrightarrow> j < 2 ^ 32 \<Longrightarrow> (of_nat i :: u32) = of_nat j \<longleftrightarrow> i = j"
  by (simp add: word_of_nat_eq_iff take_bit_nat_eq_self)

theorem crc32_detects_byte_witness:
  "crc32 0 (\<lambda>a. ucast a) 0x1001 600 \<noteq> crc32 0 (\<lambda>a. if a = 0x1101 then 7 else ucast a) 0x1001 600"
  by (rule crc32_detects_byte [where k = 256]) (auto simp: of_nat_u32_inj [of _ 256, simplified])

end
