(* ===== verification/ImageLoader.thy ===== *)
theory ImageLoader imports SplBoot Crc32 begin

text \<open>
  The rest of the preloader: common/spl/spl.c reads the header of the next image, loads the image
  from the SD card (drivers/mmc/spl_mmc.c), checks it and jumps to it. image.h gives the
  header its layout.
\<close>

section \<open>Image headers\<close>

text \<open>\<open>be32_to_cpu\<close> and \<open>cpu_to_be32\<close> on a little-endian processor.\<close>

definition swab32 :: "u32 \<Rightarrow> u32" where
  "swab32 x = push_bit 24 (x AND 0x000000ff) OR push_bit 8 (x AND 0x0000ff00) OR
     drop_bit 8 (x AND 0x00ff0000) OR drop_bit 24 (x AND 0xff000000)"

text \<open>The 32-bit fields of \<open>image_header_t\<close> in the order of the structure, then the bytes.\<close>

datatype hdr_l = ih_magic | ih_hcrc | ih_time | ih_size | ih_load | ih_ep | ih_dcrc

datatype hdr_b = ih_os | ih_arch | ih_type | ih_comp

primrec l_offset :: "hdr_l \<Rightarrow> u32" where
  "l_offset ih_magic = 0"
| "l_offset ih_hcrc = 4"
| "l_offset ih_time = 8"
| "l_offset ih_size = 12"
| "l_offset ih_load = 16"
| "l_offset ih_ep = 20"
| "l_offset ih_dcrc = 24"

primrec b_offset :: "hdr_b \<Rightarrow> u32" where
  "b_offset ih_os = 28"
| "b_offset ih_arch = 29"
| "b_offset ih_type = 30"
| "b_offset ih_comp = 31"

definition ih_name_offset :: u32 where "ih_name_offset = 32"

definition sizeof_header :: u32 where "sizeof_header = 64"

definition image_get_hdr_l :: "hdr_l \<Rightarrow> memory \<Rightarrow> u32 \<Rightarrow> u32" where
  "image_get_hdr_l f mem hdr = swab32 (load32 mem (hdr + l_offset f))"

definition image_get_hdr_b :: "hdr_b \<Rightarrow> memory \<Rightarrow> u32 \<Rightarrow> u8" where
  "image_get_hdr_b f mem hdr = mem (hdr + b_offset f)"

definition image_get_name :: "u32 \<Rightarrow> u32" where
  "image_get_name hdr = hdr + ih_name_offset"

definition image_get_data_size :: "memory \<Rightarrow> u32 \<Rightarrow> u32" where
  "image_get_data_size mem hdr = image_get_hdr_l ih_size mem hdr"

definition store32 :: "memory \<Rightarrow> u32 \<Rightarrow> u32 \<Rightarrow> memory" where
  "store32 mem a v = mem(a := ucast v, a + 1 := ucast (drop_bit 8 v), a + 2 := ucast (drop_bit 16 v),
     a + 3 := ucast (drop_bit 24 v))"

definition image_set_hdr_l :: "hdr_l \<Rightarrow> u32 \<Rightarrow> u32 \<Rightarrow> memory \<Rightarrow> memory" where
  "image_set_hdr_l f val hdr mem = store32 mem (hdr + l_offset f) (swab32 val)"

definition image_set_hdr_b :: "hdr_b \<Rightarrow> u8 \<Rightarrow> u32 \<Rightarrow> memory \<Rightarrow> memory" where
  "image_set_hdr_b f val hdr mem = mem(hdr + b_offset f := val)"

section \<open>Loading\<close>

definition IH_MAGIC :: u32 where "IH_MAGIC = 0x27051956"

definition IH_OS_U_BOOT :: u8 where "IH_OS_U_BOOT = 17"

definition SPL_COPY_PAYLOAD_ONLY :: u32 where "SPL_COPY_PAYLOAD_ONLY = 1"

definition CONFIG_SYS_UBOOT_START :: u32 where "CONFIG_SYS_UBOOT_START = CONFIG_SYS_TEXT_BASE"

definition CONFIG_SYS_MONITOR_LEN :: u32 where "CONFIG_SYS_MONITOR_LEN = 200 * 1024"

text \<open>\<open>spl_parse_image_header\<close>: the new contents of \<open>spl_image\<close>.\<close>

definition parse_header :: "memory \<Rightarrow> u32 \<Rightarrow> spl_image_info \<Rightarrow> spl_image_info" where
  "parse_header mem hdr img =
     (if image_get_hdr_l ih_magic mem hdr = IH_MAGIC then
        (if image_flags img AND SPL_COPY_PAYLOAD_ONLY \<noteq> 0 then img\<lparr>
           load_addr := image_get_hdr_l ih_load mem hdr,
           entry_point := image_get_hdr_l ih_ep mem hdr,
           image_size := image_get_data_size mem hdr\<rparr>
         else img\<lparr>
           entry_point := image_get_hdr_l ih_load mem hdr,
           load_addr := image_get_hdr_l ih_load mem hdr - sizeof_header,
           image_size := image_get_data_size mem hdr + sizeof_header\<rparr>)
        \<lparr>os := image_get_hdr_b ih_os mem hdr,
         name := At (image_get_name hdr),
         image_crc := image_get_hdr_l ih_dcrc mem hdr,
         crc_size := image_get_data_size mem hdr\<rparr>
      else img\<lparr>
        image_size := CONFIG_SYS_MONITOR_LEN,
        entry_point := CONFIG_SYS_UBOOT_START,
        load_addr := CONFIG_SYS_TEXT_BASE,
        os := IH_OS_U_BOOT,
        name := Constant ''U-Boot'',
        crc_size := 0\<rparr>)"

definition spl_parse_image_header :: "u32 \<Rightarrow> unit io" where
  "spl_parse_image_header hdr = modify_io (\<lambda>s. s\<lparr>spl_image := parse_header (ram s) hdr (spl_image s)\<rparr>)"

text \<open>
  The card: \<open>block_read(0, start, count, dst)\<close> returns the number of blocks read, and the bytes it
  stores at \<open>dst\<close>; the initialisation of the MMC layer is outside the model.
\<close>

record mmc =
  block_read :: "u32 \<Rightarrow> u32 \<Rightarrow> u32 \<times> u8 list"
  read_bl_len :: u32

record mmc_layer =
  mmc_initialize :: "unit io"
  find_mmc_device :: "mmc option io"
  mmc_init :: "u32 io"

definition store_bytes :: "memory \<Rightarrow> u32 \<Rightarrow> u8 list \<Rightarrow> memory" where
  "store_bytes mem dst bs = (\<lambda>a. if unat (a - dst) < length bs then bs ! unat (a - dst) else mem a)"

definition read_blocks :: "mmc \<Rightarrow> u32 \<Rightarrow> u32 \<Rightarrow> u32 \<Rightarrow> u32 io" where
  "read_blocks dev start count dst =
     (let (n, bs) = block_read dev start count
      in seq_io (modify_io (\<lambda>s. s\<lparr>ram := store_bytes (ram s) dst bs\<rparr>)) (ret n))"

definition read_failed :: "u32 \<Rightarrow> unit io" where
  "read_failed err = seq_io (msg ''spl: mmc blk read err - %d'' [err]) hang"

text \<open>The two reads of an image whose header is in block \<open>sector\<close>.\<close>

definition header_buffer :: u32 where
  "header_buffer = CONFIG_SYS_TEXT_BASE - sizeof_header"

definition load_image_at :: "mmc \<Rightarrow> u32 \<Rightarrow> unit io" where
  "load_image_at dev sector =
     bind_io (read_blocks dev sector 1 header_buffer) (\<lambda>err.
     if err = 0 then read_failed err else
     seq_io (spl_parse_image_header header_buffer)
     (bind_io (get_io spl_image) (\<lambda>img.
      if read_bl_len dev = 0 then fault_io else
      let image_size_sectors = (image_size img + read_bl_len dev - 1) div read_bl_len dev in
      bind_io (read_blocks dev sector image_size_sectors (load_addr img)) (\<lambda>err.
      if err = 0 then read_failed err else ret ()))))"

definition CONFIG_SYS_MMCSD_RAW_MODE_U_BOOT_SECTOR :: u32 where
  "CONFIG_SYS_MMCSD_RAW_MODE_U_BOOT_SECTOR = CONFIG_PRELOADER_SDMMC_NEXT_BOOT_IMAGE div 512"

definition mmc_load_image_raw :: "mmc \<Rightarrow> unit io" where
  "mmc_load_image_raw dev = load_image_at dev CONFIG_SYS_MMCSD_RAW_MODE_U_BOOT_SECTOR"

text \<open>
  The search for the boot partition, \<open>n\<close> entries left. \<open>offset\<close> is not initialised: without a
  match it keeps what the stack held, \<open>junk\<close>.
\<close>

definition MBR_SIGNATURE :: u16 where "MBR_SIGNATURE = 0xAA55"

definition CONFIG_SYS_MMCSD_MBR_MODE_U_BOOT_PARTITION_ID :: u8 where
  "CONFIG_SYS_MMCSD_MBR_MODE_U_BOOT_PARTITION_ID = 0xA2"

definition load16 :: "memory \<Rightarrow> u32 \<Rightarrow> u16" where
  "load16 mem a = ucast (mem a) OR push_bit 8 (ucast (mem (a + 1)))"

primrec find_partition :: "memory \<Rightarrow> nat \<Rightarrow> u32 \<Rightarrow> u32 \<Rightarrow> u32" where
  "find_partition mem 0 p_entry offset = offset"
| "find_partition mem (Suc n) p_entry offset =
     (if mem (p_entry + 4) = CONFIG_SYS_MMCSD_MBR_MODE_U_BOOT_PARTITION_ID then load32 mem (p_entry + 8)
      else find_partition mem n (p_entry + 16) offset)"

definition mmc_load_image_mbr :: "mmc \<Rightarrow> u32 \<Rightarrow> unit io" where
  "mmc_load_image_mbr dev junk =
     bind_io (read_blocks dev 0 1 header_buffer) (\<lambda>err.
     if err = 0 then read_failed err else
     bind_io (get_io ram) (\<lambda>mem.
     if load16 mem (header_buffer + 0x1FE) \<noteq> MBR_SIGNATURE
     then seq_io (msg ''spl: No MBR signature is found'' []) hang else
     load_image_at dev (find_partition mem 4 (header_buffer + 0x1BE) junk +
       CONFIG_SYS_MMCSD_RAW_MODE_U_BOOT_SECTOR)))"

definition MMCSD_MODE_RAW :: u32 where "MMCSD_MODE_RAW = 1"

definition spl_mmc_load_image :: "mmc_layer \<Rightarrow> u32 \<Rightarrow> unit io" where
  "spl_mmc_load_image sdcard junk =
     seq_io (mmc_initialize sdcard)
     (bind_io (find_mmc_device sdcard) (\<lambda>found. case found of
        None \<Rightarrow> seq_io (msg ''spl: mmc device not found!!'' []) hang
      | Some dev \<Rightarrow> bind_io (mmc_init sdcard) (\<lambda>err.
          if err \<noteq> 0 then seq_io (msg ''spl: mmc init failed: err - %d'' [err]) hang
          else if spl_boot_mode = MMCSD_MODE_RAW then mmc_load_image_raw dev
          else if spl_boot_mode = MMCSD_MODE_MBR then mmc_load_image_mbr dev junk
          else seq_io (msg ''spl: wrong MMC boot mode'' []) hang)))"

section \<open>Handing over\<close>

definition CHUNKSZ_CRC32 :: u32 where "CHUNKSZ_CRC32 = 1 * 1024"

text \<open>\<open>image_entry(boot_params_ptr)\<close> does not return.\<close>

definition enter_image :: "u32 \<Rightarrow> 'a io" where
  "enter_image ep = seq_io (modify_io (\<lambda>s. s\<lparr>entered := Some (ep, boot_params_ptr s)\<rparr>)) halt_io"

definition jump_to_image_no_args :: "unit io" where
  "jump_to_image_no_args =
     bind_io (get_io spl_image) (\<lambda>img. bind_io (get_io ram) (\<lambda>mem. seqs [
       when_io (crc_size img \<noteq> 0)
         (when_io (crc32_wd 0 mem (entry_point img) (crc_size img) CHUNKSZ_CRC32 \<noteq> image_crc img)
           (seq_io (msg ''Bad image with mismatched CRC'' []) hang)),
       writel CONFIG_PRELOADER_STATE_VALID CONFIG_PRELOADER_STATE_REG,
       enter_image (entry_point img)]))"

definition board_init_r :: "spl_ext \<Rightarrow> mmc_layer \<Rightarrow> u32 \<Rightarrow> unit io" where
  "board_init_r ext sdcard junk = seqs [
     ignore timer_init,
     spl_board_init ext,
     if spl_boot_device = BOOT_DEVICE_MMC1 then spl_mmc_load_image sdcard junk else hang,
     jump_to_image_no_args]"

end
