(* ===== verification/ImageBoot.thy ===== *)
theory ImageBoot imports ImageLoader begin

text \<open>
  What the second half of the preloader guarantees: headers are read as they are written, only a
  checked image is started, and a well-formed card boots.
\<close>

section \<open>Headers\<close>

lemma byte_masks: "(0x000000ff :: u32) = mask 8" "(0x0000ff00 :: u32) = push_bit 8 (mask 8)"
    "(0x00ff0000 :: u32) = push_bit 16 (mask 8)" "(0xff000000 :: u32) = push_bit 24 (mask 8)"
  by (simp_all add: mask_eq_exp_minus_1)

lemma bit_swab32:
  "n < 8 \<Longrightarrow> bit (swab32 x) n = bit x (n + 24)"
  "8 \<le> n \<Longrightarrow> n < 16 \<Longrightarrow> bit (swab32 x) n = bit x (n + 8)"
  "16 \<le> n \<Longrightarrow> n < 24 \<Longrightarrow> bit (swab32 x) n = bit x (n - 8)"
  "24 \<le> n \<Longrightarrow> n < 32 \<Longrightarrow> bit (swab32 x) n = bit x (n - 24)"
  unfolding swab32_def byte_masks by (auto simp: bit_simps add.commute dest: bit_imp_le_length)

lemma swab32_swab32 [simp]: "swab32 (swab32 x) = x"
proof (rule bit_word_eqI)
  fix n assume "n < LENGTH(32)"
  then consider "n < 8" | "8 \<le> n" "n < 16" | "16 \<le> n" "n < 24" | "24 \<le> n" "n < 32" by fastforce
  then show "bit (swab32 (swab32 x)) n = bit x n"
    by cases (simp_all add: bit_swab32)
qed

lemma load_store32 [simp]: "load32 (store32 mem a v) a = v"
proof (rule bit_word_eqI)
  fix n assume n: "n < LENGTH(32)"
  consider "n < 8" | "8 \<le> n" "n < 16" | "16 \<le> n" "n < 24" | "24 \<le> n" by linarith
  then show "bit (load32 (store32 mem a v) a) n = bit v n"
    using n by cases (auto simp: load32_def store32_def bit_simps)
qed

text \<open>
  Reading a header field returns what was written to it and writing one field, of four bytes or of
  one, leaves all others alone, at every address.
\<close>

theorem header_roundtrip:
  "image_get_hdr_l f (image_set_hdr_l g v hdr mem) hdr = (if f = g then v else image_get_hdr_l f mem hdr) \<and>
   image_get_hdr_b b (image_set_hdr_l g v hdr mem) hdr = image_get_hdr_b b mem hdr \<and>
   image_get_hdr_l f (image_set_hdr_b b w hdr mem) hdr = image_get_hdr_l f mem hdr \<and>
   image_get_hdr_b b (image_set_hdr_b c w hdr mem) hdr = (if b = c then w else image_get_hdr_b b mem hdr)"
proof -
  have ll: "image_get_hdr_l f (image_set_hdr_l g v hdr mem) hdr = image_get_hdr_l f mem hdr" if "f \<noteq> g" for f g
    using that by (cases f; cases g) (simp_all add: image_get_hdr_l_def image_set_hdr_l_def load32_def store32_def add.assoc)
  have bl: "image_get_hdr_b b (image_set_hdr_l g v hdr mem) hdr = image_get_hdr_b b mem hdr" for b g
    by (cases b; cases g) (simp_all add: image_get_hdr_b_def image_set_hdr_l_def store32_def add.assoc)
  have lb: "image_get_hdr_l f (image_set_hdr_b b w hdr mem) hdr = image_get_hdr_l f mem hdr" for f b
    by (cases f; cases b) (simp_all add: image_get_hdr_l_def image_set_hdr_b_def load32_def add.assoc)
  have bb: "image_get_hdr_b b (image_set_hdr_b c w hdr mem) hdr = (if b = c then w else image_get_hdr_b b mem hdr)" for b c
    by (cases b; cases c) (simp_all add: image_get_hdr_b_def image_set_hdr_b_def)
  show ?thesis using ll [of f g] bl lb bb by (cases "f = g") (simp_all add: image_get_hdr_l_def image_set_hdr_l_def)
qed


section \<open>What the loader leaves alone\<close>

locale boot_var = plain_view f for f :: "mach \<Rightarrow> 'b" +
  assumes view_frz: "f (s\<lparr>frz := fl\<rparr>) = f s"
begin

lemma keeps_set_channel: "keeps f (set_channel_freeze c v)"
  unfolding set_channel_freeze_def by (intro keeps_io keeps_modify view_frz)

lemma keeps_delay: "keeps f (delay_count n)"
  unfolding delay_count_def
proof (intro keeps_seq keeps_bind)
  show "keeps f reset_timer_count"
    by (rule keeps_timer_only) (auto simp: count.reset_run timer_seen_only)
  show "keeps f (get_timer_count 0)"
    by (rule keeps_timer_only) (auto simp: get_timer_count_def bind_io_def count.stamp_run Let_def ret_def timer_seen_only)
  show "keeps f (wait_count start n)" for start
    by (rule keeps_timer_only) (auto dest: wait_count_only)
qed

lemma keeps_freeze: "keeps f spl_freeze" and keeps_thaw: "keeps f spl_thaw"
  unfolding spl_freeze_def spl_thaw_def sys_mgr_frzctrl_freeze_req_def sys_mgr_frzctrl_thaw_req_def freeze_vio_def
    freeze_hio_def thaw_vio_def thaw_hio_def FreezeControllerFSMSelect.case FreezeChannelSelect.case
  by (intro keeps_io keeps_ignore keeps_set_channel keeps_delay; simp)+

lemma keeps_board_init:
  assumes "keeps f (preloader_console_init ext)" "keeps f (enable_interrupts ext)"
  shows "keeps f (spl_board_init ext)"
  unfolding spl_board_init_def spl_phases_def
  using keeps_configuration keeps_rest [OF assms] keeps_freeze keeps_thaw by (intro keeps_seqs) simp

end

interpretation image: boot_var entered
  by unfold_locales simp_all

text \<open>\<open>when_halted m Q s\<close>: if \<open>m\<close> stops for ever, then in a state that satisfies \<open>Q\<close>; \<open>halts\<close>: it does stop.\<close>

definition when_halted :: "'a io \<Rightarrow> (mach \<Rightarrow> bool) \<Rightarrow> mach \<Rightarrow> bool" where
  "when_halted m Q s = (case m s of Some (Halt t) \<Rightarrow> Q t | _ \<Rightarrow> True)"

definition halts :: "'a io \<Rightarrow> (mach \<Rightarrow> bool) \<Rightarrow> mach \<Rightarrow> bool" where
  "halts m Q s = (case m s of Some (Halt t) \<Rightarrow> Q t | _ \<Rightarrow> False)"

lemma jump_cases:
  "jump_to_image_no_args s = Some (Halt t) \<Longrightarrow> entered t = entered s \<or>
     (entered t = Some (entry_point (spl_image s), boot_params_ptr s) \<and> ram t = ram s \<and> spl_image t = spl_image s \<and>
      (crc_size (spl_image s) = 0 \<or>
       crc32 0 (ram s) (entry_point (spl_image s)) (crc_size (spl_image s)) = image_crc (spl_image s)))"
  unfolding jump_to_image_no_args_def enter_image_def hang_def crc32_wd_def
  by (auto simp: bind_io_def seq_io_def get_io_def when_io_def ret_def msg_def halt_io_def modify_io_def writel_def
    split: if_splits)

lemma keeps_load_image:
  assumes "\<And>s m. f (s\<lparr>ram := m\<rparr>) = f s" "\<And>s i. f (s\<lparr>spl_image := i\<rparr>) = f s" "\<And>s h. f (s\<lparr>trace := h\<rparr>) = f s"
    and "keeps f (mmc_initialize sdcard)" "keeps f (find_mmc_device sdcard)" "keeps f (mmc_init sdcard)"
  shows "keeps f (spl_mmc_load_image sdcard junk)"
proof -
  have msg: "keeps f (msg g xs)" for g xs by (simp add: keeps_def msg_def assms(3))
  have hang: "keeps f hang" unfolding hang_def by (intro keeps_seq keeps_stop msg)
  have read: "keeps f (read_blocks dev a n dst)" for dev a n dst
    by (auto simp: read_blocks_def split: prod.splits intro!: keeps_seq keeps_modify keeps_ret assms(1))
  have fail: "keeps f (read_failed e)" for e unfolding read_failed_def by (intro keeps_seq msg hang)
  have load: "keeps f (load_image_at dev n)" for dev n
    unfolding load_image_at_def spl_parse_image_header_def Let_def
    by (intro keeps_bind keeps_seq keeps_if keeps_get keeps_modify keeps_ret keeps_stop read fail assms(2))
  show ?thesis
    unfolding spl_mmc_load_image_def mmc_load_image_raw_def mmc_load_image_mbr_def
    by (intro keeps_bind keeps_seq keeps_if keeps_get keeps_case_option load read fail msg hang assms(4-6))
qed

text \<open>
  What the hand-over guarantees: \<open>offers\<close> are the cards the MMC layer may find; the header is read
  from some block of such a card, the image it describes from the same block on, and an image that
  is started under a header with the magic number has no data or the checksum of that header.
  Without the magic number it is the 200 KiB at \<open>CONFIG_SYS_TEXT_BASE\<close>, which nothing checks.
\<close>

definition offers :: "mmc_layer \<Rightarrow> mmc \<Rightarrow> bool" where
  "offers sdcard dev \<longleftrightarrow> (\<exists>s t. find_mmc_device sdcard s = Some (Val (Some dev) t))"

definition with_header :: "mmc \<Rightarrow> u32 \<Rightarrow> memory \<Rightarrow> memory" where
  "with_header dev sector mem = store_bytes mem header_buffer (snd (block_read dev sector 1))"

definition with_image :: "mmc \<Rightarrow> u32 \<Rightarrow> spl_image_info \<Rightarrow> memory \<Rightarrow> memory" where
  "with_image dev sector img mem = store_bytes mem (load_addr img)
     (snd (block_read dev sector ((image_size img + read_bl_len dev - 1) div read_bl_len dev)))"

definition loaded_from :: "mmc \<Rightarrow> u32 \<Rightarrow> memory \<Rightarrow> mach \<Rightarrow> bool" where
  "loaded_from dev sector mem t \<longleftrightarrow> (\<exists>before img. mem = with_header dev sector before \<and>
     spl_image t = parse_header mem header_buffer img \<and> ram t = with_image dev sector (spl_image t) mem)"

definition image_ok :: "memory \<Rightarrow> mach \<Rightarrow> bool" where
  "image_ok mem t = (let ep = entry_point (spl_image t); len = image_get_hdr_l ih_size mem header_buffer in
     if image_get_hdr_l ih_magic mem header_buffer = IH_MAGIC
     then len = 0 \<or> crc32 0 (ram t) ep len = image_get_hdr_l ih_dcrc mem header_buffer
     else ep = CONFIG_SYS_UBOOT_START \<and> load_addr (spl_image t) = CONFIG_SYS_TEXT_BASE \<and>
       image_size (spl_image t) = CONFIG_SYS_MONITOR_LEN)"

definition checked_start :: "mmc_layer \<Rightarrow> mach \<Rightarrow> bool" where
  "checked_start sdcard t \<longleftrightarrow> (\<forall>ep p. entered t = Some (ep, p) \<longrightarrow> ep = entry_point (spl_image t) \<and> p = 0 \<and>
     (\<exists>dev sector mem. offers sdcard dev \<and> loaded_from dev sector mem t \<and> image_ok mem t))"

lemma gives_if: "(b \<Longrightarrow> gives m Q s) \<Longrightarrow> (\<not> b \<Longrightarrow> gives n Q s) \<Longrightarrow> gives (if b then m else n) Q s"
  by simp

lemma load_gives:
  "gives (load_image_at dev sector) (\<lambda>_ t. \<exists>mem. loaded_from dev sector mem t) s"
proof -
  obtain n bs where 1: "block_read dev sector 1 = (n, bs)" by fastforce
  let ?mem = "with_header dev sector (ram s)"
  let ?img = "parse_header ?mem header_buffer (spl_image s)"
  obtain k cs where 2: "block_read dev sector ((image_size ?img + read_bl_len dev - 1) div read_bl_len dev) = (k, cs)"
    by fastforce
  have mem: "?mem = store_bytes (ram s) header_buffer bs" using 1 by (simp add: with_header_def)
  have "loaded_from dev sector ?mem (s\<lparr>spl_image := ?img, ram := store_bytes ?mem (load_addr ?img) cs\<rparr>)"
    using 2 by (auto simp: loaded_from_def with_image_def)
  then show ?thesis
    using 2 unfolding mem
    by (auto simp: gives_def load_image_at_def read_blocks_def 1 seq_io_def bind_io_def modify_io_def get_io_def ret_def
      spl_parse_image_header_def read_failed_def hang_def msg_def halt_io_def fault_io_def Let_def)
qed

lemma mmc_gives:
  "gives (spl_mmc_load_image sdcard junk) (\<lambda>_ t. \<exists>dev sector mem. offers sdcard dev \<and> loaded_from dev sector mem t) s"
proof -
  let ?Q = "\<lambda>_ t. \<exists>dev sector mem. offers sdcard dev \<and> loaded_from dev sector mem t"
  have load: "gives (load_image_at dev sector) ?Q t" if "offers sdcard dev" for dev sector t
    using load_gives [of dev sector t] that by (fastforce simp: gives_def split: option.splits res.splits)
  have stop: "gives (seq_io (msg g xs) hang) ?Q t" for g xs t by (rule gives_seq [OF gives_any gives_hang])
  have failed: "gives (read_failed e) ?Q t" for e t
    unfolding read_failed_def by (rule stop)
  have found: "gives (find_mmc_device sdcard) (\<lambda>found _. \<forall>dev. found = Some dev \<longrightarrow> offers sdcard dev) t" for t
    by (auto simp: gives_def offers_def split: option.splits res.splits)
  have mbr: "gives (mmc_load_image_mbr dev junk) ?Q t" if "offers sdcard dev" for dev t
    unfolding mmc_load_image_mbr_def
    by (rule gives_bind [OF gives_any], rule gives_if, rule failed, rule gives_bind [OF gives_any], rule gives_if,
      rule stop, rule load [OF that])
  have rest: "gives (bind_io (mmc_init sdcard) (\<lambda>err.
          if err \<noteq> 0 then seq_io (msg ''spl: mmc init failed: err - %d'' [err]) hang
          else if spl_boot_mode = MMCSD_MODE_RAW then mmc_load_image_raw dev
          else if spl_boot_mode = MMCSD_MODE_MBR then mmc_load_image_mbr dev junk
          else seq_io (msg ''spl: wrong MMC boot mode'' []) hang)) ?Q t" if "offers sdcard dev" for dev t
    unfolding mmc_load_image_raw_def
    by (rule gives_bind [OF gives_any], rule gives_if, rule stop, rule gives_if, rule load [OF that], rule gives_if,
      rule mbr [OF that], rule stop)
  show ?thesis
    unfolding spl_mmc_load_image_def
  proof (rule gives_seq [OF gives_any], rule gives_bind [OF found], goal_cases)
    case (1 t x u)
    then show ?case by (cases x) (simp_all only: option.case option.inject simp_thms all_simps stop rest)
  qed
qed

lemma image_checked:
  assumes "loaded_from dev sector mem s"
    and "crc_size (spl_image s) = 0 \<or>
      crc32 0 (ram s) (entry_point (spl_image s)) (crc_size (spl_image s)) = image_crc (spl_image s)"
  shows "image_ok mem s"
proof -
  obtain img where img: "spl_image s = parse_header mem header_buffer img"
    using assms(1) by (auto simp: loaded_from_def)
  show ?thesis
    using assms(2) unfolding image_ok_def img Let_def
    by (auto simp: parse_header_def image_get_data_size_def)
qed

lemma hand_over:
  assumes "keeps entered m" and "entered s = None"
    and "gives m (\<lambda>_ t. boot_params_ptr t = 0 \<and> (\<exists>dev sector mem. offers sdcard dev \<and> loaded_from dev sector mem t)) s"
  shows "when_halted (seq_io m jump_to_image_no_args) (checked_start sdcard) s"
proof -
  have jump: "when_halted jump_to_image_no_args (checked_start sdcard) u"
    if u: "entered u = None" "boot_params_ptr u = 0" and dev: "offers sdcard dev" "loaded_from dev sector mem u"
    for u dev sector mem
  proof -
    have "checked_start sdcard t" if t: "jump_to_image_no_args u = Some (Halt t)" for t
      using jump_cases [OF t]
    proof
      assume "entered t = entered u"
      then show ?thesis using u by (simp add: checked_start_def)
    next
      assume r: "entered t = Some (entry_point (spl_image u), boot_params_ptr u) \<and> ram t = ram u \<and>
        spl_image t = spl_image u \<and> (crc_size (spl_image u) = 0 \<or>
         crc32 0 (ram u) (entry_point (spl_image u)) (crc_size (spl_image u)) = image_crc (spl_image u))"
      then have "loaded_from dev sector mem t" using dev(2) by (simp add: loaded_from_def)
      moreover from this r have "image_ok mem t" by (intro image_checked) auto
      ultimately show ?thesis using r u dev(1) by (auto simp: checked_start_def)
    qed
    then show ?thesis by (simp add: when_halted_def split: option.splits res.splits)
  qed
  show ?thesis
  proof (cases "m s")
    case (Some r)
    then show ?thesis
    proof (cases r)
      case (Val x u)
      with Some assms have "entered u = None" "boot_params_ptr u = 0"
          "\<exists>dev sector mem. offers sdcard dev \<and> loaded_from dev sector mem u"
        by (auto simp: gives_def dest: keepsD)
      with Some Val show ?thesis by (auto simp: when_halted_def seq_io_def bind_io_def jump [unfolded when_halted_def])
    next
      case (Halt u)
      with Some assms(1,2) have "entered u = None" by (auto simp: keeps_def)
      with Some Halt show ?thesis by (simp add: when_halted_def checked_start_def seq_io_def bind_io_def)
    qed (simp add: when_halted_def seq_io_def bind_io_def)
  qed (simp add: when_halted_def seq_io_def bind_io_def)
qed

section \<open>Cards\<close>

text \<open>A card of 512-byte blocks that always answers with what it stores, and a block of it seen as memory.\<close>

definition disk_card :: "(nat \<Rightarrow> u8) \<Rightarrow> mmc" where
  "disk_card disk = \<lparr>block_read = (\<lambda>start count.
     (count, map (\<lambda>i. disk (512 * unat start + i)) [0..<512 * unat count])), read_bl_len = 512\<rparr>"

definition block :: "(nat \<Rightarrow> u8) \<Rightarrow> u32 \<Rightarrow> memory" where
  "block disk n = (\<lambda>a. disk (512 * unat n + unat a))"

lemma store_bytes_map:
  "store_bytes mem dst (map g [0..<n]) a = (if unat (a - dst) < n then g (unat (a - dst)) else mem a)"
  by (simp add: store_bytes_def)

lemma run_read_disk:
  "read_blocks (disk_card disk) start count dst s = Some (Val count (s\<lparr>ram := store_bytes (ram s) dst
     (map (\<lambda>i. disk (512 * unat start + i)) [0..<512 * unat count])\<rparr>))"
  by (simp add: read_blocks_def disk_card_def seq_io_def bind_io_def modify_io_def ret_def)

definition buffered :: "memory \<Rightarrow> (nat \<Rightarrow> u8) \<Rightarrow> u32 \<Rightarrow> memory" where
  "buffered mem disk n = store_bytes mem header_buffer (map (\<lambda>i. disk (512 * unat n + i)) [0..<512])"

lemma card_block [simp]: "read_bl_len (disk_card disk) = 512"
  by (simp add: disk_card_def)

lemma run_read_block:
  "read_blocks (disk_card disk) n 1 header_buffer s = Some (Val 1 (s\<lparr>ram := buffered (ram s) disk n\<rparr>))"
  by (simp add: run_read_disk buffered_def)

lemma buffered_at: "unat c < 512 \<Longrightarrow> buffered mem disk n (header_buffer + c) = block disk n c"
  by (simp add: buffered_def store_bytes_map block_def)

lemma buffered_0: "buffered mem disk n header_buffer = block disk n 0"
  using buffered_at [of 0] by simp

lemma buffered_fields:
  "image_get_hdr_l f (buffered mem disk n) header_buffer = image_get_hdr_l f (block disk n) 0"
  "image_get_hdr_b b (buffered mem disk n) header_buffer = image_get_hdr_b b (block disk n) 0"
  "load16 (buffered mem disk n) (header_buffer + 0x1FE) = load16 (block disk n) 0x1FE"
  "find_partition (buffered mem disk n) 4 (header_buffer + 0x1BE) junk = find_partition (block disk n) 4 0x1BE junk"
proof -
  show "image_get_hdr_l f (buffered mem disk n) header_buffer = image_get_hdr_l f (block disk n) 0"
    by (cases f) (simp_all add: image_get_hdr_l_def load32_def buffered_at buffered_0 add.assoc)
  show "image_get_hdr_b b (buffered mem disk n) header_buffer = image_get_hdr_b b (block disk n) 0"
    by (cases b) (simp_all add: image_get_hdr_b_def buffered_at)
  show "load16 (buffered mem disk n) (header_buffer + 0x1FE) = load16 (block disk n) 0x1FE"
    by (simp add: load16_def buffered_at add.assoc)
  show "find_partition (buffered mem disk n) 4 (header_buffer + 0x1BE) junk = find_partition (block disk n) 4 0x1BE junk"
  proof -
    have four: "4 = Suc (Suc (Suc (Suc 0)))" by simp
    show ?thesis unfolding four by (simp add: load32_def buffered_at add.assoc del: One_nat_def)
  qed
qed

definition crc_of :: "u8 list \<Rightarrow> u32" where
  "crc_of bs = NOT (foldl (\<lambda>c b. (crc_shift ^^ 8) (c XOR ucast b)) (NOT 0) bs)"

lemma crc32_of: "crc32 0 mem p len = crc_of (mem_bytes mem p (unat len))"
  by (simp only: crc32_foldl crc_of_def crc_byte_def [abs_def])

lemma blocks_for:
  assumes "unat sz + 575 < 2 ^ 32"
  shows "unat ((sz + sizeof_header + 512 - 1) div 512) = (unat sz + 575) div 512"
proof -
  have "unat (sz + 575) = unat sz + 575"
    using assms by (simp add: unat_word_ariths)
  then show ?thesis by (simp add: sizeof_header_def unat_div add.commute [of sz])
qed

lemma stored_payload:
  assumes "m + 64 \<le> n" and "m + 64 < 2 ^ 32"
  shows "mem_bytes (store_bytes mem (ld - sizeof_header) (map g [0..<n])) ld m = map (\<lambda>i. g (64 + i)) [0..<m]"
  unfolding mem_bytes_def
proof (rule map_cong [OF refl])
  fix i assume "i \<in> set [0..<m]"
  then have i: "i < m" by simp
  have "ld + of_nat i - (ld - sizeof_header) = of_nat (64 + i)" by (simp add: sizeof_header_def)
  moreover have "unat (of_nat (64 + i) :: u32) = 64 + i"
    using i assms(2) by (simp only: unat_of_nat) (simp add: take_bit_nat_eq_self)
  ultimately show "store_bytes mem (ld - sizeof_header) (map g [0..<n]) (ld + of_nat i) = g (64 + i)"
    using i assms(1) by (simp only: store_bytes_map) simp
qed

definition boot_sector :: "(nat \<Rightarrow> u8) \<Rightarrow> u32 \<Rightarrow> u32" where
  "boot_sector disk junk = find_partition (block disk 0) 4 0x1BE junk + CONFIG_SYS_MMCSD_RAW_MODE_U_BOOT_SECTOR"

text \<open>Loading from a card with a boot record and a header with the magic number.\<close>

lemma card_loads:
  assumes "load16 (block disk 0) 0x1FE = MBR_SIGNATURE"
    and "image_get_hdr_l ih_magic (block disk (boot_sector disk junk)) 0 = IH_MAGIC"
    and "image_get_hdr_l ih_size (block disk (boot_sector disk junk)) 0 = sz" and "unat sz + 575 < 2 ^ 32"
    and "image_get_hdr_l ih_load (block disk (boot_sector disk junk)) 0 = ld"
    and "map (\<lambda>i. disk (512 * unat (boot_sector disk junk) + 64 + i)) [0..<unat sz] = payload"
    and "image_flags (spl_image s) = 0"
  obtains t where "mmc_load_image_mbr (disk_card disk) junk s = Some (Val () t)"
    and "mem_bytes (ram t) ld (unat sz) = payload" and "crc32 0 (ram t) ld sz = crc_of payload"
    and "entry_point (spl_image t) = ld" and "crc_size (spl_image t) = sz"
    and "image_crc (spl_image t) = image_get_hdr_l ih_dcrc (block disk (boot_sector disk junk)) 0"
    and "entered t = entered s" and "boot_params_ptr t = boot_params_ptr s"
proof -
  let ?n = "boot_sector disk junk" and ?B = "block disk (boot_sector disk junk)"
  let ?s1 = "s\<lparr>ram := buffered (ram s) disk 0\<rparr>"
  let ?s2 = "?s1\<lparr>ram := buffered (ram ?s1) disk ?n\<rparr>"
  let ?img = "parse_header (buffered (buffered (ram s) disk 0) disk ?n) header_buffer (spl_image s)"
  have img: "load_addr ?img = ld - sizeof_header" "entry_point ?img = ld" "image_size ?img = sz + sizeof_header"
      "crc_size ?img = sz" "image_crc ?img = image_get_hdr_l ih_dcrc ?B 0"
    using assms(2,3,5,7) by (simp_all add: parse_header_def buffered_fields image_get_data_size_def)
  define count where "count = (sz + sizeof_header + 512 - 1) div 512"
  have count: "unat count = (unat sz + 575) div 512" unfolding count_def by (rule blocks_for [OF assms(4)])
  have "unat count \<noteq> 0" unfolding count by simp
  then have "count \<noteq> 0" by auto
  have sectors: "(511 + (sz + sizeof_header)) div 512 = count" by (simp add: count_def)
  let ?s3 = "?s2\<lparr>spl_image := ?img, ram := store_bytes (ram ?s2) (ld - sizeof_header)
     (map (\<lambda>i. disk (512 * unat ?n + i)) [0..<512 * unat count])\<rparr>"
  have "mmc_load_image_mbr (disk_card disk) junk s = load_image_at (disk_card disk) ?n ?s1"
    using assms(1) by (simp add: mmc_load_image_mbr_def bind_io_def get_io_def run_read_block buffered_fields boot_sector_def)
  also have "\<dots> = Some (Val () ?s3)"
    using \<open>count \<noteq> 0\<close>
    by (simp add: load_image_at_def bind_io_def get_io_def run_read_block seq_io_def spl_parse_image_header_def
      modify_io_def run_read_disk [where count = count] img ret_def sectors Let_def)
  finally have load: "mmc_load_image_mbr (disk_card disk) junk s = Some (Val () ?s3)" .
  have payload: "mem_bytes (ram ?s3) ld (unat sz) = payload"
    using count assms(4) by (simp add: stored_payload assms(6) [symmetric] add.assoc)
  then have crc: "crc32 0 (ram ?s3) ld sz = crc_of payload" by (simp add: crc32_of)
  show ?thesis
    by (rule that [OF load payload crc]) (simp_all add: img)
qed

lemma jump_from:
  assumes "entry_point (spl_image t) = ld" and "crc_size (spl_image t) = sz" and "crc32 0 (ram t) ld sz = c"
  shows "halts jump_to_image_no_args (\<lambda>u. ram u = ram t \<and>
    entered u = (if sz = 0 \<or> c = image_crc (spl_image t) then Some (ld, boot_params_ptr t) else entered t)) t"
  using assms by (cases "sz = 0") (simp_all add: halts_def seq_io_def bind_io_def jump_to_image_no_args_def get_io_def
    crc32_wd_def when_io_def enter_image_def hang_def msg_def halt_io_def modify_io_def writel_def ret_def)

lemma halts_seq: "m s = Some (Val x t) \<Longrightarrow> halts n Q t \<Longrightarrow> halts (seq_io m n) Q s"
  by (simp add: halts_def seq_io_def bind_io_def)

lemma halts_mono: "halts m Q s \<Longrightarrow> (\<And>t. Q t \<Longrightarrow> Q' t) \<Longrightarrow> halts m Q' s"
  by (auto simp: halts_def split: option.splits res.splits)

lemma halts_when: "halts m Q s \<Longrightarrow> when_halted m P s \<Longrightarrow> halts m (\<lambda>t. Q t \<and> P t) s"
  by (auto simp: halts_def when_halted_def split: option.splits res.splits)

text \<open>A card with one boot partition at block 1 and an image of one byte.\<close>

definition small_disk :: "nat \<Rightarrow> u8" where
  "small_disk = (\<lambda>_. 0)(510 := 0x55, 511 := 0xAA, 450 := 0xA2, 454 := 1,
     262656 := 0x27, 262657 := 0x05, 262658 := 0x19, 262659 := 0x56, 262671 := 1, 262672 := 1, 262675 := 0x40,
     262680 := 0xD2, 262681 := 0x02, 262682 := 0xEF, 262683 := 0x8D)"

lemma small_disk_sector: "boot_sector small_disk junk = 513"
proof -
  have four: "4 = Suc (Suc (Suc (Suc 0)))" by simp
  have "find_partition (block small_disk 0) 4 0x1BE junk = 1"
    unfolding four by (simp add: block_def small_disk_def load32_def CONFIG_SYS_MMCSD_MBR_MODE_U_BOOT_PARTITION_ID_def)
  then show ?thesis by (simp add: boot_sector_def CONFIG_SYS_MMCSD_RAW_MODE_U_BOOT_SECTOR_def reg_defs)
qed

lemma small_disk_crc: "crc_of [0] = 0xD202EF8D"
proof -
  have "crc8 0xffffffff = 0x2dfd1072" by (simp add: crc8_def crc_shift_numeral)
  moreover have "crc_of [0] = NOT (crc8 (- 1))" by (simp add: crc_of_def crc8_pow)
  moreover have "(- 1 :: u32) = 0xffffffff" by simp
  ultimately have "crc_of [0] = NOT 0x2dfd1072" by (simp only:)
  then show ?thesis by simp
qed

lemmas small_disk_simps = small_disk_crc block_def small_disk_def load16_def MBR_SIGNATURE_def image_get_hdr_l_def
  load32_def swab32_def IH_MAGIC_def storage_machine_def no_image_def

definition small_layer :: mmc_layer where
  "small_layer = \<lparr>mmc_initialize = ret (), find_mmc_device = ret (Some (disk_card small_disk)), mmc_init = ret 0\<rparr>"

lemma small_disk_starts:
  "halts (seq_io (spl_mmc_load_image small_layer junk) jump_to_image_no_args)
     (\<lambda>t. entered t = Some (0x01000040, 0)) (storage_machine (\<lambda>_. 0))"
proof -
  obtain t where t: "mmc_load_image_mbr (disk_card small_disk) junk (storage_machine (\<lambda>_. 0)) = Some (Val () t)"
      "crc32 0 (ram t) 0x01000040 1 = crc_of [0]"
      "entry_point (spl_image t) = 0x01000040" "crc_size (spl_image t) = 1"
      "image_crc (spl_image t) = image_get_hdr_l ih_dcrc (block small_disk (boot_sector small_disk junk)) 0"
      "boot_params_ptr t = 0"
    by (rule card_loads [where disk = small_disk and junk = junk and sz = 1 and ld = "0x01000040" and payload = "[0]"
          and s = "storage_machine (\<lambda>_. 0)"], unfold small_disk_sector) (simp_all add: small_disk_simps)
  have "image_crc (spl_image t) = crc_of [0]"
    unfolding t(5) small_disk_sector by (simp add: small_disk_simps)
  then have "halts jump_to_image_no_args (\<lambda>t. entered t = Some (0x01000040, 0)) t"
    by (intro halts_mono [OF jump_from [OF t(3,4,2)]]) (simp add: t(6))
  moreover have "spl_mmc_load_image small_layer junk (storage_machine (\<lambda>_. 0)) = Some (Val () t)"
    using t(1) by (simp add: spl_mmc_load_image_def small_layer_def seq_io_def bind_io_def ret_def spl_boot_mode_def
      MMCSD_MODE_MBR_def MMCSD_MODE_RAW_def)
  ultimately show ?thesis by (rule halts_seq [rotated])
qed

section \<open>Only checked images\<close>

text \<open>
  C1: What the preloader starts, on every hardware and every card: when it hands over, it jumps to
  the entry point of the image it has loaded, with a null parameter; the header it parsed is what
  it read from a block of the card, and the memory holds, over that header, what it read from the
  same block on. If that header has the magic number, then its size is zero or the checksum of the
  image in memory is the one the header gives. If it has not, nothing is checked: the image is then
  the 200 KiB loaded to and started at the fixed address of U-Boot. Both for the preloader from its
  entry and for its part behind the board initialisation, which leaves a null parameter. The code
  outside the model is assumed to start nothing itself and to leave the boot parameter alone.
\<close>

theorem started_image_checked:
  assumes "keeps entered (preloader_console_init ext)"
      "keeps entered (enable_interrupts ext)"
    and "keeps entered (mmc_initialize sdcard)" "keeps entered (find_mmc_device sdcard)" "keeps entered (mmc_init sdcard)"
    and "keeps boot_params_ptr (mmc_initialize sdcard)" "keeps boot_params_ptr (find_mmc_device sdcard)"
      "keeps boot_params_ptr (mmc_init sdcard)"
    and "entered s = None"
  shows "when_halted (board_init_r ext sdcard junk) (checked_start sdcard) s \<and>
    (boot_params_ptr s = 0 \<longrightarrow>
      when_halted (seq_io (spl_mmc_load_image sdcard junk) jump_to_image_no_args) (checked_start sdcard) s)"
proof
  let ?load = "if spl_boot_device = BOOT_DEVICE_MMC1 then spl_mmc_load_image sdcard junk else hang"
  let ?from = "\<lambda>t. \<exists>dev sector mem. offers sdcard dev \<and> loaded_from dev sector mem t"
  have hang: "keeps f hang" if "\<And>s h. f (s\<lparr>trace := h\<rparr>) = f s" for f :: "mach \<Rightarrow> 'z"
    unfolding hang_def by (intro keeps_seq keeps_stop) (simp add: keeps_def msg_def that)
  have start: "keeps entered (spl_mmc_load_image sdcard junk)" and ptr: "keeps boot_params_ptr (spl_mmc_load_image sdcard junk)"
    by (intro keeps_load_image assms; simp)+
  have load: "gives (spl_mmc_load_image sdcard junk) (\<lambda>_ t. boot_params_ptr t = 0 \<and> ?from t) u" if "boot_params_ptr u = 0" for u
    using keeps_gives [OF ptr, of u] mmc_gives [of sdcard junk u] that
    by (auto simp: gives_def split: option.splits res.splits)
  have board: "gives (spl_board_init ext) (\<lambda>_ t. boot_params_ptr t = 0) u" for u
  proof -
    have "spl_phases ext = butlast (spl_phases ext) @ [init_boot_params]" by (simp add: spl_phases_def)
    then have "spl_board_init ext = seq_io (seqs (butlast (spl_phases ext))) (seqs [init_boot_params])"
      by (metis spl_board_init_def seqs_append)
    then show ?thesis
      by (simp only:) (rule gives_seq [OF gives_any], simp add: init_boot_params_def gives_def modify_io_def seq_io_def bind_io_def ret_def)
  qed
  have "board_init_r ext sdcard junk = seq_io (seqs [ignore timer_init, spl_board_init ext, ?load]) jump_to_image_no_args"
    by (simp add: board_init_r_def seq_io_def bind_assoc)
  moreover have "keeps entered (seqs [ignore timer_init, spl_board_init ext, ?load])"
    by (intro keeps_seqs_Cons keeps_if keeps_ignore hang image.keeps_board_init assms(1,2) start)
      (simp_all add: timer_init_def image.keeps_io)
  moreover have "gives (seqs [ignore timer_init, spl_board_init ext, ?load]) (\<lambda>_ t. boot_params_ptr t = 0 \<and> ?from t) s"
    unfolding seqs.simps
    by (rule gives_seq [OF gives_any], rule gives_seq [OF board], rule gives_seq, rule gives_if, erule load, rule gives_hang,
      rule gives_ret)
  ultimately show "when_halted (board_init_r ext sdcard junk) (checked_start sdcard) s"
    using assms(9) by (simp only: hand_over)
  show "boot_params_ptr s = 0 \<longrightarrow>
      when_halted (seq_io (spl_mmc_load_image sdcard junk) jump_to_image_no_args) (checked_start sdcard) s"
    using hand_over [OF start assms(9) load] by blast
qed

text \<open>The card of one byte is started after the check, the same code behind every board initialisation.\<close>

theorem started_image_checked_witness:
  "\<forall>junk. when_halted (board_init_r
     \<lparr>preloader_console_init = ret (), enable_interrupts = ret (),
      irq_cnt_ecc_ocram_corrected = 0, irq_cnt_ecc_ocram_uncorrected = 4\<rparr> small_layer junk)
     (checked_start small_layer) ready_clocks \<and>
   halts (seq_io (spl_mmc_load_image small_layer junk) jump_to_image_no_args)
     (\<lambda>t. entered t = Some (0x01000040, 0) \<and> checked_start small_layer t) (storage_machine (\<lambda>_. 0))"
proof (intro allI conjI)
  let ?ext = "\<lparr>preloader_console_init = ret (), enable_interrupts = ret (),
      irq_cnt_ecc_ocram_corrected = 0, irq_cnt_ecc_ocram_uncorrected = 4\<rparr> :: spl_ext"
  fix junk
  have checked: "when_halted (board_init_r ?ext small_layer junk) (checked_start small_layer) s \<and>
    (boot_params_ptr s = 0 \<longrightarrow>
      when_halted (seq_io (spl_mmc_load_image small_layer junk) jump_to_image_no_args) (checked_start small_layer) s)"
    if "entered s = None" for s
    using that by (intro started_image_checked) (simp_all add: small_layer_def keeps_ret)
  show "when_halted (board_init_r ?ext small_layer junk) (checked_start small_layer) ready_clocks"
    using checked [of ready_clocks] by (simp add: ready_clocks_def storage_machine_def)
  show "halts (seq_io (spl_mmc_load_image small_layer junk) jump_to_image_no_args)
     (\<lambda>t. entered t = Some (0x01000040, 0) \<and> checked_start small_layer t) (storage_machine (\<lambda>_. 0))"
    using checked [of "storage_machine (\<lambda>_. 0)"]
    by (intro halts_when small_disk_starts) (simp add: storage_machine_def)
qed

section \<open>A well-formed card boots\<close>

text \<open>
  C10: From a card with a boot record and an image header at the start of the boot partition, the
  preloader loads the image and starts it exactly if it is empty or its checksum is right: afterwards the memory
  at the load address of the header holds the payload from the card, all of it, and the preloader
  has jumped there, or, if there is a payload whose checksum is not that of the header, it hangs
  without having started anything.
\<close>

theorem card_boots:
  assumes "load16 (block disk 0) 0x1FE = MBR_SIGNATURE"
    and "image_get_hdr_l ih_magic (block disk (boot_sector disk junk)) 0 = IH_MAGIC"
    and "image_get_hdr_l ih_size (block disk (boot_sector disk junk)) 0 = sz" and "unat sz + 575 < 2 ^ 32"
    and "image_get_hdr_l ih_load (block disk (boot_sector disk junk)) 0 = ld"
    and "map (\<lambda>i. disk (512 * unat (boot_sector disk junk) + 64 + i)) [0..<unat sz] = payload"
    and "image_flags (spl_image s) = 0"
  shows "halts (seq_io (mmc_load_image_mbr (disk_card disk) junk) jump_to_image_no_args) (\<lambda>t.
    mem_bytes (ram t) ld (unat sz) = payload \<and>
    entered t = (if sz = 0 \<or> crc_of payload = image_get_hdr_l ih_dcrc (block disk (boot_sector disk junk)) 0
      then Some (ld, boot_params_ptr s) else entered s)) s"
proof -
  obtain t where t: "mmc_load_image_mbr (disk_card disk) junk s = Some (Val () t)"
      "mem_bytes (ram t) ld (unat sz) = payload" "crc32 0 (ram t) ld sz = crc_of payload"
      "entry_point (spl_image t) = ld" "crc_size (spl_image t) = sz"
      "image_crc (spl_image t) = image_get_hdr_l ih_dcrc (block disk (boot_sector disk junk)) 0"
      "entered t = entered s" "boot_params_ptr t = boot_params_ptr s"
    by (rule card_loads [OF assms])
  show ?thesis
    by (rule halts_seq [where m = "mmc_load_image_mbr (disk_card disk) junk", OF t(1)], rule halts_mono [OF jump_from [OF t(4,5,3)]]) (simp add: t(2,6-8))
qed

theorem card_boots_witness:
  "\<forall>junk. halts (seq_io (mmc_load_image_mbr (disk_card small_disk) junk) jump_to_image_no_args)
     (\<lambda>t. mem_bytes (ram t) 0x01000040 1 = [0] \<and> entered t = Some (0x01000040, 0)) (storage_machine (\<lambda>_. 0))"
proof
  fix junk
  show "halts (seq_io (mmc_load_image_mbr (disk_card small_disk) junk) jump_to_image_no_args)
     (\<lambda>t. mem_bytes (ram t) 0x01000040 1 = [0] \<and> entered t = Some (0x01000040, 0)) (storage_machine (\<lambda>_. 0))"
    by (rule halts_mono [OF card_boots [where sz = 1 and ld = "0x01000040" and payload = "[0]"]], unfold small_disk_sector)
      (simp_all add: small_disk_simps)
qed

text \<open>
  Without a boot partition the sector is undefined: if none of the four entries of a
  valid boot record has the type of the boot partition, the preloader goes on with whatever
  the uninitialised variable holds.
\<close>

theorem no_boot_partition:
  assumes "load16 (block disk 0) 0x1FE = MBR_SIGNATURE"
    and "\<And>i. i < 4 \<Longrightarrow> block disk 0 (0x1BE + 16 * of_nat i + 4) \<noteq> CONFIG_SYS_MMCSD_MBR_MODE_U_BOOT_PARTITION_ID"
  shows "mmc_load_image_mbr (disk_card disk) junk s = load_image_at (disk_card disk)
    (junk + CONFIG_SYS_MMCSD_RAW_MODE_U_BOOT_SECTOR) (s\<lparr>ram := buffered (ram s) disk 0\<rparr>)"
proof -
  have four: "4 = Suc (Suc (Suc (Suc 0)))" by simp
  have "find_partition (block disk 0) 4 0x1BE junk = junk"
    unfolding four using assms(2) [of 0] assms(2) [of 1] assms(2) [of 2] assms(2) [of 3] by simp
  then show ?thesis
    using assms(1) by (simp add: mmc_load_image_mbr_def bind_io_def get_io_def run_read_block buffered_fields)
qed

theorem no_boot_partition_witness:
  "\<forall>junk s. mmc_load_image_mbr (disk_card (small_disk(450 := 0x0B))) junk s =
    load_image_at (disk_card (small_disk(450 := 0x0B))) (junk + 512)
      (s\<lparr>ram := buffered (ram s) (small_disk(450 := 0x0B)) 0\<rparr>)"
proof (intro allI)
  fix junk s
  have sector: "CONFIG_SYS_MMCSD_RAW_MODE_U_BOOT_SECTOR = 512"
    by (simp add: CONFIG_SYS_MMCSD_RAW_MODE_U_BOOT_SECTOR_def reg_defs)
  show "mmc_load_image_mbr (disk_card (small_disk(450 := 0x0B))) junk s =
    load_image_at (disk_card (small_disk(450 := 0x0B))) (junk + 512)
      (s\<lparr>ram := buffered (ram s) (small_disk(450 := 0x0B)) 0\<rparr>)"
  proof (rule no_boot_partition [unfolded sector])
    fix i :: nat assume "i < 4"
    then consider "i = 0" | "i = 1" | "i = 2" | "i = 3" by linarith
    then show "block (small_disk(450 := 0x0B)) 0 (0x1BE + 16 * of_nat i + 4) \<noteq> CONFIG_SYS_MMCSD_MBR_MODE_U_BOOT_PARTITION_ID"
      by cases (simp_all add: block_def small_disk_def CONFIG_SYS_MMCSD_MBR_MODE_U_BOOT_PARTITION_ID_def)
  qed (simp add: block_def small_disk_def load16_def MBR_SIGNATURE_def)
qed

end
