(* ===== verification/Chains.thy ===== *)
theory Chains imports Calibration begin

text \<open>
  The delay and phase chains behind the registers of the scan chain manager, how far each can be
  set, and which registers are none of them.
\<close>

text \<open>The largest setting behind an address: the registers of a kind have 256 bytes.\<close>

definition chain_max :: "u32 \<Rightarrow> u32" where
  "chain_max a = (let kind = shr (a - apb BASE_SCC_MGR 0) 8 in
     if kind = 1 then IO_DQS_IN_DELAY_MAX
     else if kind = 2 then IO_DQS_EN_PHASE_MAX
     else if kind = 3 then IO_DQS_EN_DELAY_MAX
     else if kind = 4 then IO_DQDQS_OUT_PHASE_MAX
     else if kind = 5 \<or> kind = 7 then IO_IO_OUT1_DELAY_MAX
     else if kind = 9 then IO_IO_IN_DELAY_MAX
     else - 1)"

text \<open>\<open>p - 1\<close> for a window around 0 is the one exception.\<close>

fun in_range :: "event \<Rightarrow> bool" where
  "in_range (Wr a v) \<longleftrightarrow> v \<le> chain_max a \<or> chain_max a = IO_DQS_EN_PHASE_MAX \<and> v = - 1"
| "in_range (Rd a v) \<longleftrightarrow> True"
| "in_range (Msg f xs) \<longleftrightarrow> True"

lemmas chain_simps = chain_max_def apb_def AVL_TO_APB_def reg_defs

lemma free_registers [simp]:
  "chain_max (apb PHY_MGR_MUX_SEL 0) = - 1" "chain_max (apb PHY_MGR_RESET_MEM_STBL 0) = - 1"
  "chain_max (apb PHY_MGR_CAL_STATUS 0) = - 1" "chain_max (apb PHY_MGR_CAL_DEBUG_INFO 0) = - 1"
  "chain_max (apb PHY_MGR_CMD_FIFO_RESET 0) = - 1" "chain_max (apb PHY_MGR_CMD_INC_VFIFO_HARD_PHY 0) = - 1"
  "chain_max (apb PHY_MGR_PHY_RLAT 0) = - 1" "chain_max (apb PHY_MGR_AFI_WLAT 0) = - 1"
  "chain_max (apb REG_FILE_CUR_STAGE 0) = - 1" "chain_max (apb REG_FILE_FOM 0) = - 1"
  "chain_max (apb REG_FILE_FAILING_STAGE 0) = - 1" "chain_max (apb REG_FILE_DTAPS_PER_PTAP 0) = - 1"
  "chain_max (apb SCC_MGR_GROUP_COUNTER 0) = - 1" "chain_max (apb SCC_MGR_DQS_ENA 0) = - 1"
  "chain_max (apb SCC_MGR_DQS_IO_ENA 0) = - 1" "chain_max (apb SCC_MGR_DQ_ENA 0) = - 1"
  "chain_max (apb SCC_MGR_DM_ENA 0) = - 1" "chain_max (apb SCC_MGR_UPD 0) = - 1"
  "chain_max (apb SCC_MGR_HHP_GLOBALS SCC_MGR_HHP_EXTRAS_OFFSET) = - 1"
  "chain_max (apb RW_MGR_SET_CS_AND_ODT_MASK 0) = - 1" "chain_max (apb RW_MGR_RESET_READ_DATAPATH 0) = - 1"
  "chain_max (apb RW_MGR_LOAD_CNTR_0 0) = - 1" "chain_max (apb RW_MGR_LOAD_CNTR_1 0) = - 1"
  "chain_max (apb RW_MGR_LOAD_CNTR_2 0) = - 1" "chain_max (apb RW_MGR_LOAD_CNTR_3 0) = - 1"
  "chain_max (apb RW_MGR_LOAD_JUMP_ADD_0 0) = - 1" "chain_max (apb RW_MGR_LOAD_JUMP_ADD_1 0) = - 1"
  "chain_max (apb RW_MGR_LOAD_JUMP_ADD_2 0) = - 1" "chain_max (apb RW_MGR_LOAD_JUMP_ADD_3 0) = - 1"
  "chain_max (apb REG_FILE_SIGNATURE 0) = - 1" "chain_max (apb REG_FILE_DEBUG_DATA_ADDR 0) = - 1"
  "chain_max (apb REG_FILE_DEBUG1 0) = - 1" "chain_max (apb REG_FILE_DEBUG2 0) = - 1"
  "chain_max (apb REG_FILE_TRK_SAMPLE_COUNT 0) = - 1" "chain_max (apb REG_FILE_TRK_LONGIDLE 0) = - 1"
  "chain_max (apb REG_FILE_DELAYS 0) = - 1" "chain_max (apb REG_FILE_TRK_RW_MGR_ADDR 0) = - 1"
  "chain_max (apb REG_FILE_TRK_READ_DQS_WIDTH 0) = - 1" "chain_max (apb REG_FILE_TRK_RFSH 0) = - 1"
  "chain_max (apb BASE_MMR SDR_CTRLGRP_PHYCTRL_PHYCTRL_0_OFFSET) = - 1"
  "chain_max (apb BASE_MMR SDR_CTRLGRP_PHYCTRL_PHYCTRL_1_OFFSET) = - 1"
  "chain_max (apb BASE_MMR SDR_CTRLGRP_PHYCTRL_PHYCTRL_2_OFFSET) = - 1"
  "chain_max (apb RW_MGR_RUN_SINGLE_GROUP 0) = - 1" "chain_max (apb CTRL_CONFIG_REG 0) = - 1"
  by (simp_all add: chain_simps)

lemma below_16: "n < 16 \<Longrightarrow> P 0 \<Longrightarrow> P 1 \<Longrightarrow> P 2 \<Longrightarrow> P 3 \<Longrightarrow> P 4 \<Longrightarrow> P 5 \<Longrightarrow> P 6 \<Longrightarrow> P 7 \<Longrightarrow> P 8 \<Longrightarrow> P 9 \<Longrightarrow>
    P 10 \<Longrightarrow> P 11 \<Longrightarrow> P 12 \<Longrightarrow> P 13 \<Longrightarrow> P 14 \<Longrightarrow> P 15 \<Longrightarrow> P (n :: nat)"
  by (auto simp: less_Suc_eq numeral_eq_Suc)

lemma chain_registers [simp]:
  assumes "n < 16"
  shows "chain_max (apb SCC_MGR_DQS_IN_DELAY (shl (of_nat n) 2)) = 31"
    "chain_max (apb SCC_MGR_DQS_EN_PHASE (shl (of_nat n) 2)) = 7"
    "chain_max (apb SCC_MGR_DQS_EN_DELAY (shl (of_nat n) 2)) = 31"
    "chain_max (apb SCC_MGR_DQDQS_OUT_PHASE (shl (of_nat n) 2)) = 0"
    "chain_max (apb SCC_MGR_OCT_OUT1_DELAY (shl (of_nat n) 2)) = 31"
    "chain_max (apb SCC_MGR_IO_OUT1_DELAY (shl (of_nat n) 2)) = 31"
    "chain_max (apb SCC_MGR_IO_IN_DELAY (shl (of_nat n) 2)) = 31"
    "chain_max (apb SCC_MGR_HHP_RFILE (shl (of_nat n) 2)) = - 1"
    "chain_max (apb RW_MGR_RUN_SINGLE_GROUP (shl (of_nat n) 2)) = - 1"
    "chain_max (apb RW_MGR_RUN_ALL_GROUPS (shl (of_nat n) 2)) = - 1"
  by (rule below_16 [OF assms]; simp add: chain_simps)+

text \<open>The instruction memory of the read/write manager.\<close>

lemma chain_max_RW:
  assumes "(base + off) AND MGR_SELECT_MASK = BASE_RW_MGR"
  shows "chain_max (apb base off) = - 1"
proof -
  let ?a = "0x2000 OR ((base + off) AND 0x1fff) :: u32"
  have "apb base off - apb BASE_SCC_MGR 0 = ?a"
    using assms by (simp add: apb_def AVL_TO_APB_def reg_defs)
  moreover have "bit (shr ?a 8) 5" by (simp add: shr_def bit_simps)
  then have "shr ?a 8 \<notin> {1, 2, 3, 4, 5, 7, 9}" by auto
  ultimately show ?thesis by (simp add: chain_max_def Let_def)
qed

lemma chain_max_rom:
  assumes "i < 256" and "base \<in> {RW_MGR_INST_ROM_WRITE, RW_MGR_AC_ROM_WRITE}"
  shows "chain_max (apb base (shl (of_nat i) 2)) = - 1"
proof (rule chain_max_RW)
  have off: "unat (shl (of_nat i) 2) = 4 * i"
    using assms(1) by (simp add: shl_def push_bit_eq_mult unat_word_ariths unat_of_nat)
  obtain k where k: "base = 0x90000 + k" "unat k + 4 * i < 2 ^ 13"
    using assms by (auto simp: reg_defs intro: that [of "0x1800"] that [of "0x1c00"])
  let ?z = "k + shl (of_nat i) 2"
  have "unat ?z < 2 ^ 13" using k(2) off by (simp add: unat_word_ariths)
  then have z: "take_bit 13 ?z = ?z"
    by (simp only: word_unat_eq_iff unsigned_take_bit_eq take_bit_nat_eq_self)
  have low: "?z AND w = 0" if "take_bit 13 w = 0" for w
  proof -
    have "take_bit 13 ?z AND w = ?z AND take_bit 13 w" by (rule bit_eqI) (auto simp: bit_simps)
    then show ?thesis by (simp only: z that bit.conj_zero_right)
  qed
  have "0x90000 + ?z = 0x90000 OR ?z"
    by (rule disjunctive_add_eq_or) (simp only: and.commute [of "0x90000"], rule low, simp)
  moreover have "?z AND 0xf8000 = 0" by (rule low) simp
  ultimately have "(0x90000 + ?z) AND 0xf8000 = 0x90000" by (simp only: bit.conj_disj_distrib2) simp
  then show "(base + shl (of_nat i) 2) AND MGR_SELECT_MASK = BASE_RW_MGR"
    by (simp add: k(1) reg_defs add.assoc)
qed

end
