(* ===== verification/Settling.thy ===== *)
theory Settling imports Chains Frames begin

text \<open>
  Total correctness for the calibration: that an operation comes to an end, and that every
  setting it writes to a delay or phase register is one the chain has. The rules of the
  structure, of loops that count, and the settings and tests of the lower layers.
\<close>

section \<open>Calculus\<close>

text \<open>\<open>settles hw m Q\<close>: on the hardware \<open>hw\<close>, \<open>m\<close> returns a value that satisfies \<open>Q\<close>, and has only written settings in range.\<close>

definition settled :: "mach \<Rightarrow> mach \<Rightarrow> bool" where
  "settled s t \<longleftrightarrow> env t = env s \<and> (\<exists>es. trace t = es @ trace s \<and> list_all in_range es)"

definition settles :: "(event list \<Rightarrow> u32 \<Rightarrow> u32) \<Rightarrow> 'a io \<Rightarrow> ('a \<Rightarrow> bool) \<Rightarrow> bool" where
  "settles hw m Q \<longleftrightarrow> (\<forall>s. env s = hw \<longrightarrow> runs m (\<lambda>x t. settled s t \<and> Q x) s)"

named_theorems settles_rules "the structural rules of settling, and the operations already done"

lemma settled_refl: "settled s s"
  by (simp add: settled_def)

lemma settled_trans: "settled s t \<Longrightarrow> settled t u \<Longrightarrow> settled s u"
  by (auto simp: settled_def)

lemma settled_event: "in_range e \<Longrightarrow> settled s (s\<lparr>trace := e # trace s\<rparr>)"
  by (simp add: settled_def)

lemma settles_mono: "settles hw m P \<Longrightarrow> (\<And>x. P x \<Longrightarrow> Q x) \<Longrightarrow> settles hw m Q"
  by (auto simp: settles_def intro: runs_mono)

lemma settles_ret: "Q x \<Longrightarrow> settles hw (ret x) Q"
  by (simp add: settles_def runs_ret settled_refl)

lemma settles_bind:
  assumes "settles hw m P" and "\<And>x. P x \<Longrightarrow> settles hw (f x) Q"
  shows "settles hw (bind_io m f) Q"
  unfolding settles_def runs_bind
proof (intro allI impI)
  fix s :: mach assume env: "env s = hw"
  show "runs m (\<lambda>x. runs (f x) (\<lambda>y t. settled s t \<and> Q y)) s"
  proof (rule runs_mono)
    show "runs m (\<lambda>x t. settled s t \<and> P x) s" using assms(1) env by (simp add: settles_def)
    fix x and t :: mach assume t: "settled s t \<and> P x"
    then have "env t = hw" using env by (simp add: settled_def)
    with assms(2) t have "runs (f x) (\<lambda>y u. settled t u \<and> Q y) t" by (simp add: settles_def)
    then show "runs (f x) (\<lambda>y u. settled s u \<and> Q y) t"
      by (rule runs_mono) (use t settled_trans in blast)
  qed
qed

lemma settles_seq: "settles hw m (\<lambda>_. True) \<Longrightarrow> settles hw n Q \<Longrightarrow> settles hw (seq_io m n) Q"
  unfolding seq_io_def by (rule settles_bind)

lemma settles_seqs [settles_rules]:
  "settles hw (seqs []) (\<lambda>_. True)"
  "settles hw m (\<lambda>_. True) \<Longrightarrow> settles hw (seqs ms) (\<lambda>_. True) \<Longrightarrow> settles hw (seqs (m # ms)) (\<lambda>_. True)"
  by (simp_all add: settles_ret settles_seq)

lemma settles_when [settles_rules]: "(b \<Longrightarrow> settles hw m (\<lambda>_. True)) \<Longrightarrow> settles hw (when_io b m) (\<lambda>_. True)"
  by (simp add: when_io_def settles_ret)

lemma settles_if: "(b \<Longrightarrow> settles hw m Q) \<Longrightarrow> (\<not> b \<Longrightarrow> settles hw n Q) \<Longrightarrow> settles hw (if b then m else n) Q"
  by simp

lemma settles_for [settles_rules]:
  "(\<And>i. lo \<le> i \<Longrightarrow> i < hi \<Longrightarrow> settles hw (f i) (\<lambda>_. True)) \<Longrightarrow> settles hw (for_io lo hi f) (\<lambda>_. True)"
proof (induction lo hi f rule: for_io.induct)
  case (1 lo hi f)
  then show ?case by (subst for_io.simps) (auto intro: settles_ret settles_seq)
qed

lemma settles_fold:
  "I x \<Longrightarrow> (\<And>i x. i \<in> set is \<Longrightarrow> I x \<Longrightarrow> settles hw (f i x) I) \<Longrightarrow> settles hw (fold_io f is x) I"
  by (induction "is" arbitrary: x) (auto intro: settles_ret settles_bind)

text \<open>A loop with an invariant, what holds after a \<open>break\<close>, and a measure.\<close>

lemma settles_while:
  assumes "I x"
    and "\<And>x. I x \<Longrightarrow> c x \<Longrightarrow> settles hw (body x) (\<lambda>r. if fst r then Out (snd r) else I (snd r) \<and> m (snd r) < (m x :: nat))"
  shows "settles hw (while_io c body x) (\<lambda>r. if fst r then Out (snd r) else I (snd r) \<and> \<not> c (snd r))"
  unfolding settles_def
proof (intro allI impI)
  fix s :: mach assume env: "env s = hw"
  show "runs (while_io c body x) (\<lambda>r t. settled s t \<and> (if fst r then Out (snd r) else I (snd r) \<and> \<not> c (snd r))) s"
  proof (rule runs_mono [OF runs_while [where I = "\<lambda>x t. settled s t \<and> I x" and Out = "\<lambda>x t. settled s t \<and> Out x" and m = m]])
    fix x and t :: mach assume I: "settled s t \<and> I x" "c x"
    then have "env t = hw" using env by (simp add: settled_def)
    with assms(2) I have "runs (body x) (\<lambda>r u. settled t u \<and> (if fst r then Out (snd r) else I (snd r) \<and> m (snd r) < m x)) t"
      by (simp add: settles_def)
    then show "runs (body x) (\<lambda>r u. if fst r then settled s u \<and> Out (snd r) else (settled s u \<and> I (snd r)) \<and> m (snd r) < m x) t"
      by (rule runs_mono) (use I settled_trans in \<open>auto split: if_splits\<close>)
  qed (use assms(1) settled_refl in \<open>auto split: if_splits\<close>)
qed

lemma settles_while_any:
  assumes "\<And>x. c x \<Longrightarrow> settles hw (body x) (\<lambda>r. \<not> fst r \<longrightarrow> m (snd r) < (m x :: nat))"
  shows "settles hw (while_io c body x) (\<lambda>_. True)"
  by (rule settles_mono [OF settles_while [where I = "\<lambda>_. True" and Out = "\<lambda>_. True" and m = m]])
    (auto intro: settles_mono [OF assms])

lemma settles_get [settles_rules]: "settles hw (get_io f) (\<lambda>_. True)"
  by (simp add: settles_def runs_get settled_refl)

lemma settles_modify [settles_rules]:
  "settles hw (modify_gbl g) (\<lambda>_. True)" "settles hw (modify_param p) (\<lambda>_. True)"
  "settles hw (modify_io (\<lambda>s. s\<lparr>dyn_calib_steps := d s\<rparr>)) (\<lambda>_. True)"
  "settles hw (modify_io (\<lambda>s. s\<lparr>skip_delay_mask := k s\<rparr>)) (\<lambda>_. True)"
  by (simp_all add: settles_def modify_gbl_def modify_param_def runs_modify settled_def)

lemma settles_IOWR [settles_rules]:
  "in_range (Wr (apb base off) d) \<Longrightarrow> settles hw (IOWR_32DIRECT base off d) (\<lambda>_. True)"
  by (simp add: settles_def IOWR_32DIRECT_def runs_writel settled_event del: in_range.simps)

lemma settles_IORD: "(\<And>h. Q (hw h (apb base off))) \<Longrightarrow> settles hw (IORD_32DIRECT base off) Q"
  by (auto simp: settles_def IORD_32DIRECT_def runs_readl settled_event)

lemma settles_IPRINT [settles_rules]: "settles hw (IPRINT f) (\<lambda>_. True)"
  by (simp add: settles_def IPRINT_def runs_msg settled_event)

lemma settles_step [settles_rules]:
  "settles hw m (\<lambda>_. True) \<Longrightarrow> (\<And>x. settles hw (f x) Q) \<Longrightarrow> settles hw (bind_io m f) Q"
  "settles hw m (\<lambda>_. True) \<Longrightarrow> settles hw n Q \<Longrightarrow> settles hw (seq_io m n) Q"
  by (auto intro: settles_bind settles_seq)

lemma settles_any [settles_rules]: "settles hw (IORD_32DIRECT base off) (\<lambda>_. True)" "settles hw (ret x) (\<lambda>_. True)"
  by (auto intro: settles_IORD settles_ret)

lemma settles_branch [settles_rules]:
  "(b \<Longrightarrow> settles hw m Q) \<Longrightarrow> (\<not> b \<Longrightarrow> settles hw n Q) \<Longrightarrow> settles hw (if b then m else n) Q"
  by simp

lemma settles_prod [settles_rules]: "(\<And>x y. r = (x, y) \<Longrightarrow> settles hw (f x y) Q) \<Longrightarrow> settles hw (case r of (x, y) \<Rightarrow> f x y) Q"
  by (cases r) simp

section \<open>Settings\<close>

lemma settles_scc [settles_rules]:
  "settles hw (set_failing_group_stage x y z) (\<lambda>_. True)"
  "settles hw (reg_file_set_group x) (\<lambda>_. True)" "settles hw (reg_file_set_stage x) (\<lambda>_. True)"
  "settles hw (reg_file_set_sub_stage x) (\<lambda>_. True)"
  "settles hw (select_shadow_regs_for_update r g b) (\<lambda>_. True)" "settles hw scc_mgr_initialize (\<lambda>_. True)"
  unfolding scc_defs set_failing_group_stage_def by (intro settles_rules; simp)+

lemma settles_ranks [settles_rules]:
  "settles hw (body 0) (\<lambda>_. True) \<Longrightarrow> settles hw (seqs (map body shadow_ranks)) (\<lambda>_. True)"
  by (auto simp: shadow_ranks_def reg_defs intro: settles_seq settles_ret)

lemmas strobe_registers [simp] = chain_registers [of 8, simplified] chain_registers [of 9, simplified]

lemma settles_Let [settles_rules]: "settles hw (f v) Q \<Longrightarrow> settles hw (let x = v in f x) Q"
  by simp

lemmas widths = RW_MGR_MEM_DQ_PER_READ_DQS_def RW_MGR_MEM_DQ_PER_WRITE_DQS_def RW_MGR_MEM_IF_READ_DQS_WIDTH_def
  RW_MGR_MEM_IF_WRITE_DQS_WIDTH_def RW_MGR_NUM_DM_PER_WRITE_GROUP_def IO_DQS_EN_DELAY_OFFSET_def IO_DQS_EN_PHASE_MAX_def
  IO_DQS_IN_RESERVE_def IO_DQS_OUT_RESERVE_def IO_IO_OUT2_DELAY_MAX_def RW_MGR_MEM_DATA_MASK_WIDTH_def READ_SCC_OUT2_DELAY_def

lemma first_read_group [simp]: "first_read_group g = g"
  by (simp add: first_read_group_def reg_defs)

lemma settles_set [settles_rules]:
  "g < 4 \<Longrightarrow> d \<le> 31 \<Longrightarrow> settles hw (scc_mgr_set_dqs_bus_in_delay g d) (\<lambda>_. True)"
  "g < 4 \<Longrightarrow> d \<le> 7 \<or> d = - 1 \<Longrightarrow> settles hw (scc_mgr_set_dqs_en_phase_all_ranks g d) (\<lambda>_. True)"
  "g < 4 \<Longrightarrow> d \<le> 0 \<Longrightarrow> settles hw (scc_mgr_set_dqdqs_output_phase_all_ranks g d) (\<lambda>_. True)"
  "g < 4 \<Longrightarrow> d \<le> 31 \<Longrightarrow> settles hw (scc_mgr_set_dqs_en_delay_all_ranks g d) (\<lambda>_. True)"
  "p < 8 \<Longrightarrow> d \<le> 31 \<Longrightarrow> settles hw (scc_mgr_set_dq_out1_delay g p d) (\<lambda>_. True)"
  "p < 8 \<Longrightarrow> d \<le> 31 \<Longrightarrow> settles hw (scc_mgr_set_dq_in_delay g p d) (\<lambda>_. True)"
  "settles hw (scc_mgr_load_dqs g) (\<lambda>_. True)" "settles hw (scc_mgr_load_dq p) (\<lambda>_. True)"
  unfolding scc_defs by (intro settles_rules; simp add: widths)+


lemma settles_groups [settles_rules]:
  "settles hw scc_mgr_zero_all (\<lambda>_. True)"
  "g < 4 \<Longrightarrow> settles hw (scc_set_bypass_mode g d) (\<lambda>_. True)"
  "g < 4 \<Longrightarrow> settles hw (scc_mgr_zero_group g t b) (\<lambda>_. True)"
  "d \<le> 31 \<Longrightarrow> settles hw (scc_mgr_apply_group_dq_in_delay g 0 d) (\<lambda>_. True)"
  "d \<le> 31 \<Longrightarrow> settles hw (scc_mgr_apply_group_dq_out1_delay g t d) (\<lambda>_. True)"
  "d \<le> 31 \<Longrightarrow> settles hw (scc_mgr_apply_group_dm_out1_delay g d) (\<lambda>_. True)"
  "g < 4 \<Longrightarrow> d \<le> 31 \<Longrightarrow> settles hw (scc_mgr_apply_group_dqs_io_and_oct_out1 g d) (\<lambda>_. True)"
  "g < 4 \<Longrightarrow> d \<le> 31 \<Longrightarrow> settles hw (scc_mgr_apply_group_all_out_delay_add_all_ranks g t d) (\<lambda>_. True)"
  unfolding scc_defs by (intro settles_rules; simp add: widths)+

section \<open>Tests\<close>

lemma settles_fold_any [settles_rules]:
  "(\<And>i x. i \<in> set is \<Longrightarrow> settles hw (f i x) (\<lambda>_. True)) \<Longrightarrow> settles hw (fold_io f is x) (\<lambda>_. True)"
  by (rule settles_fold) simp_all

lemmas rw_widths = RW_MGR_MEM_VIRTUAL_GROUPS_PER_READ_DQS_def RW_MGR_MEM_VIRTUAL_GROUPS_PER_WRITE_DQS_def

lemma settles_start [settles_rules]:
  "settles hw initialize (\<lambda>_. True)" "settles hw rw_mgr_mem_initialize (\<lambda>_. True)"
  "settles hw rw_mgr_mem_handoff (\<lambda>_. True)" "settles hw mem_precharge_and_activate (\<lambda>_. True)"
  unfolding rw_defs by (intro settles_rules; simp)+

lemma settles_patterns [settles_rules]:
  "settles hw rw_mgr_mem_calibrate_read_load_patterns_all_ranks (\<lambda>_. True)"
  "g < 4 \<Longrightarrow> settles hw (rw_mgr_mem_calibrate_read_test_patterns_all_ranks g n) (\<lambda>_. True)"
  unfolding rw_defs by (intro settles_rules; simp add: rw_widths)+

lemma settles_read_test [settles_rules]:
  "g < 4 \<Longrightarrow> settles hw (rw_mgr_mem_calibrate_read_test r g n a b c) (\<lambda>_. True)"
  "g < 4 \<Longrightarrow> settles hw (rw_mgr_mem_calibrate_read_test_all_ranks g n a b) (\<lambda>_. True)"
  unfolding rw_defs by (intro settles_rules; simp add: rw_widths)+

lemma settles_write_test [settles_rules]:
  "g < 4 \<Longrightarrow> settles hw (rw_mgr_mem_calibrate_write_test r g m a c) (\<lambda>_. True)"
  unfolding rw_defs by (intro settles_rules; simp add: rw_widths)+

lemma settles_incr: "settles hw (rw_mgr_incr_vfifo g v) (\<lambda>x. x = v + 1)"
  unfolding rw_defs by (intro settles_step settles_IOWR settles_ret; simp)

lemma settles_vfifo [settles_rules]:
  "settles hw (rw_mgr_incr_vfifo g v) (\<lambda>_. True)" "settles hw (rw_mgr_decr_vfifo g v) (\<lambda>_. True)"
  unfolding rw_defs by (intro settles_rules; simp)+


section \<open>Counting loops\<close>

lemma settles_up:
  fixes cnt :: "'a \<Rightarrow> u32"
  assumes "I x" and "\<And>x. I x \<Longrightarrow> c x \<Longrightarrow> cnt x < n"
    and "\<And>x. I x \<Longrightarrow> c x \<Longrightarrow> settles hw (body x) (\<lambda>r. if fst r then Out (snd r) else I (snd r) \<and> cnt (snd r) = cnt x + 1)"
  shows "settles hw (while_io c body x) (\<lambda>r. if fst r then Out (snd r) else I (snd r) \<and> \<not> c (snd r))"
proof (rule settles_while [where m = "\<lambda>x. unat (n - cnt x)"], rule assms(1))
  fix x assume x: "I x" "c x"
  then have less: "cnt x < n" by (rule assms(2))
  then have "unat (cnt x) + 1 \<le> unat n" by (simp add: word_less_nat_alt)
  moreover have "unat n < 2 ^ 32" using unsigned_less [of n] by simp
  ultimately have "unat (cnt x + 1) = unat (cnt x) + 1" by (simp add: unat_word_ariths)
  with less have "unat (n - (cnt x + 1)) < unat (n - cnt x)"
    by (simp add: unat_sub word_le_nat_alt word_less_nat_alt)
  then show "settles hw (body x) (\<lambda>r. if fst r then Out (snd r) else I (snd r) \<and> unat (n - cnt (snd r)) < unat (n - cnt x))"
    by (intro settles_mono [OF assms(3) [OF x]]) (auto split: if_splits)
qed

lemma settles_up_any:
  fixes cnt :: "'a \<Rightarrow> u32"
  assumes "\<And>x. c x \<Longrightarrow> cnt x < n" and "\<And>x. c x \<Longrightarrow> settles hw (body x) (\<lambda>r. \<not> fst r \<longrightarrow> cnt (snd r) = cnt x + 1)"
  shows "settles hw (while_io c body x) (\<lambda>_. True)"
  by (rule settles_mono [OF settles_up [where I = "\<lambda>_. True" and Out = "\<lambda>_. True" and cnt = cnt, OF TrueI assms(1)]])
    (auto intro: settles_mono [OF assms(2)])

end
