(* ===== verification/WindowCentre.thy ===== *)
theory WindowCentre imports Chains begin

text \<open>
  The arithmetic of the centre of a window: where the strobe is put, as a phase and taps of
  the delay chain.
\<close>

lemma taps_per_phase_25: "taps_per_phase IO_DELAY_PER_DQS_EN_DCHAIN_TAP = 12"
  by (simp add: taps_per_phase_def reg_defs while_unfold)

lemma phase_cycle_value: "phase_cycle = 2496"
  by (simp add: phase_cycle_def reg_defs while_unfold)

text \<open>A loop that counts steps up to a goal.\<close>

definition count_to :: "u32 \<Rightarrow> u32 \<Rightarrow> u32 \<Rightarrow> u32 \<Rightarrow> u32 \<times> u32" where
  "count_to n step goal t = while (\<lambda>(i, t). i \<le> n \<and> t < goal) (\<lambda>(i, t). (i + 1, t + step)) (0, t)"

lemma count_to:
  assumes no_wrap: "unat t + unat step * (unat n + 1) < 2 ^ 32" "unat n + 1 < 2 ^ 32"
  obtains i u where "count_to n step goal t = (i, u)" "unat u = unat t + unat step * unat i" "unat i \<le> unat n + 1"
    "i = 0 \<or> unat u < unat goal + unat step" "goal \<le> u \<or> unat i = unat n + 1"
proof -
  define P where "P = (\<lambda>(i :: u32, u :: u32). unat u = unat t + unat step * unat i \<and> unat i \<le> unat n + 1 \<and>
    (i = 0 \<or> unat u < unat goal + unat step))"
  have next_i: "unat (i + 1) = unat i + 1" if "unat i \<le> unat n" for i :: u32
    using that assms(2) by (simp add: unat_word_ariths)
  have next_u: "unat (u + step) = unat u + unat step" if P: "P (i, u)" and i: "unat i \<le> unat n" for i u
  proof -
    have "unat step * (unat i + 1) \<le> unat step * (unat n + 1)" by (rule mult_le_mono2) (use i in simp)
    moreover have "unat u + unat step = unat t + unat step * (unat i + 1)" using P by (simp add: P_def)
    ultimately have "unat u + unat step < 2 ^ 32" using no_wrap(1) by linarith
    then show ?thesis by (simp add: unat_word_ariths)
  qed
  let ?r = "count_to n step goal t"
  have "P ?r \<and> \<not> (case ?r of (i, u) \<Rightarrow> i \<le> n \<and> u < goal)"
    unfolding count_to_def
  proof (rule while_rule [where P = P and r = "measure (\<lambda>(i, u). unat n + 1 - unat i)"])
    fix x assume x: "P x" "case x of (i, u) \<Rightarrow> i \<le> n \<and> u < goal"
    obtain i u where iu: "x = (i, u)" by (cases x)
    have le: "unat i \<le> unat n" using x iu by (simp add: word_le_nat_alt)
    note steps = next_u [OF _ le, of u] next_i [OF le]
    show "P (case x of (i, u) \<Rightarrow> (i + 1, u + step))"
      using x iu le steps by (simp add: P_def word_less_nat_alt distrib_left)
    show "(case x of (i, u) \<Rightarrow> (i + 1, u + step), x) \<in> measure (\<lambda>(i, u). unat n + 1 - unat i)"
      using iu le steps by simp
  qed (auto simp: P_def)
  moreover obtain i u where r: "?r = (i, u)" by (cases ?r)
  ultimately have P: "P (i, u)" and stop: "\<not> (i \<le> n \<and> u < goal)" by simp_all
  have "goal \<le> u \<or> unat i = unat n + 1"
    using stop P by (auto simp: P_def not_le not_less word_le_nat_alt)
  then show thesis by (intro that [OF r]) (use P in \<open>auto simp: P_def\<close>)
qed

definition reduced :: "u32 \<Rightarrow> u32" where
  "reduced m = while (\<lambda>m. phase_cycle < m) (\<lambda>m. m - phase_cycle) m"

lemma reduced:
  "unat (reduced m) \<le> 2496 \<and> (reduced m = 0 \<longleftrightarrow> m = 0) \<and> (\<exists>k. unat m = unat (reduced m) + 2496 * k)"
proof -
  define Q where "Q = (\<lambda>r :: u32. (r = 0 \<longleftrightarrow> m = 0) \<and> (\<exists>k. unat m = unat r + 2496 * k))"
  have "Q (reduced m) \<and> \<not> 2496 < reduced m"
    unfolding reduced_def phase_cycle_value
  proof (rule while_rule [where P = Q and r = "measure unat"])
    fix r :: u32 assume r: "Q r" "2496 < r"
    then have less: "2496 < unat r" by (simp add: word_less_nat_alt)
    have diff: "unat (r - 2496) = unat r - 2496" using less by (simp add: unat_sub word_le_nat_alt)
    from r(1) obtain k where k: "unat m = unat r + 2496 * k" by (auto simp: Q_def)
    then have "unat m = unat (r - 2496) + 2496 * (k + 1)" using less diff by simp
    moreover have "r - 2496 \<noteq> 0" "m \<noteq> 0" using less k diff by (auto simp: word_unat_eq_iff)
    ultimately show "Q (r - 2496)" unfolding Q_def by blast
    show "(r - 2496, r) \<in> measure unat" using less diff by simp
  qed (auto simp: Q_def intro: exI [of _ 0])
  then show ?thesis by (simp add: Q_def word_le_nat_alt not_less)
qed

lemma window_centre_counts:
  "window_centre b e = (let m = reduced ((b + e) div 2); (p, t) = count_to 7 312 m 0
     in (p, fst (count_to 31 25 m (t - 312))))"
proof -
  have k: "IO_DQS_EN_PHASE_MAX = 7" "IO_DELAY_PER_OPA_TAP = 312" "IO_DQS_EN_DELAY_MAX = 31" "IO_DELAY_PER_DQS_EN_DCHAIN_TAP = 25"
    by (simp_all add: reg_defs)
  show ?thesis by (simp add: window_centre_def count_to_def reduced_def k Let_def split_beta)
qed

lemma window_centre_position:
  assumes m: "unat (reduced ((b + e) div 2)) = r" "r \<noteq> 0" and w: "window_centre b e = (p, d)"
  shows "1 \<le> unat p \<and> unat p \<le> 8 \<and> unat d \<le> 13 \<and> r \<le> 312 * (unat p - 1) + 25 * unat d \<and> 312 * (unat p - 1) + 25 * unat d < r + 25"
proof -
  let ?m = "reduced ((b + e) div 2)"
  have r: "r \<le> 2496" using reduced m by blast
  obtain i u where iu: "count_to 7 312 ?m 0 = (i, u)" "unat u = 312 * unat i" "unat i \<le> 8"
    "i = 0 \<or> unat u < r + 312" "?m \<le> u \<or> unat i = 8"
    by (rule count_to [of 0 312 7 ?m]) (auto simp: m)
  have le: "r \<le> 312 * unat i" using iu(2,5) m r by (auto simp: word_le_nat_alt)
  have i: "1 \<le> unat i" using le m by (cases "unat i") auto
  then have less: "312 * unat i < r + 312" using iu(2,4) by auto
  have u: "unat (u - 312) = 312 * (unat i - 1)"
    using iu(2) i by (simp add: unat_sub word_le_nat_alt diff_mult_distrib2)
  have bound: "312 * (unat i - 1) < r" using less i by (simp add: diff_mult_distrib2)
  obtain j v where jv: "count_to 31 25 ?m (u - 312) = (j, v)" "unat v = 312 * (unat i - 1) + 25 * unat j" "unat j \<le> 32"
    "j = 0 \<or> unat v < r + 25" "?m \<le> v \<or> unat j = 32"
    by (rule count_to [of "u - 312" 25 31 ?m]) (use u bound r in \<open>auto simp: m\<close>)
  have "p = i" "d = j" using w iu(1) jv(1) by (simp_all add: window_centre_counts)
  moreover have "r \<le> unat v" using jv(2,5) bound le m by (auto simp: word_le_nat_alt diff_mult_distrib2)
  moreover have "j \<noteq> 0" using calculation(3) jv(2) bound by auto
  moreover have "unat j \<le> 13" using jv(2,4) calculation(4) bound le i by (auto simp: diff_mult_distrib2)
  ultimately show ?thesis using i iu(3) jv(2,4) by auto
qed

lemma window_centre_zero:
  assumes "(b + e) div 2 = 0"
  shows "window_centre b e = (0, 0)"
proof -
  have "reduced 0 = 0" using reduced [of 0] by simp
  moreover have "count_to n step 0 t = (0, t)" for n step t by (simp add: count_to_def while_unfold)
  ultimately show ?thesis using assms by (simp add: window_centre_counts)
qed

text \<open>
  C29: Around every window whose middle is not 0, the strobe is put at a phase from 0 to 7 and
  at most 13 taps, which together are the middle, reduced by whole periods of the clock, and
  less than one tap beyond it. For a window whose middle is 0 the phase is one less than 0.
\<close>

theorem window_is_centred:
  "(case window_centre work_bgn work_end of (p, d) \<Rightarrow> let m = unat ((work_bgn + work_end) div 2); centre = 312 * (unat p - 1) + 25 * unat d in
     if m = 0 then p - 1 = 0xffffffff \<and> d = 0
     else p - 1 \<le> 7 \<and> d \<le> 13 \<and> (\<exists>r periods. m = r + 2496 * periods \<and> 0 < r \<and> r \<le> 2496 \<and> r \<le> centre \<and> centre < r + 25))"
proof (cases "(work_bgn + work_end) div 2 = 0")
  case True
  then show ?thesis by (simp add: window_centre_zero)
next
  case False
  obtain p d where w: "window_centre work_bgn work_end = (p, d)" by fastforce
  let ?r = "reduced ((work_bgn + work_end) div 2)"
  have r: "unat ?r \<noteq> 0" using reduced False by (metis unat_eq_zero)
  note at = window_centre_position [OF refl r w]
  have "p - 1 \<le> 7" "d \<le> 13" using at by (auto simp: word_le_nat_alt unat_sub)
  moreover obtain k where "unat ((work_bgn + work_end) div 2) = unat ?r + 2496 * k" "unat ?r \<le> 2496" using reduced by blast
  ultimately show ?thesis using at False r w by (simp add: Let_def) (metis not_gr_zero)
qed

end
