(* ===== verification/CalibrationBounds.thy ===== *)
theory CalibrationBounds imports Settling WindowCentre CalibrationFrame begin

text \<open>
  The calibration comes to an end, and every setting it writes is one the delay chain or the
  phase has, on hardware whose delay registers hold no more than the chains have taps.
\<close>

section \<open>The strobe\<close>

lemma settles_any_bit [settles_rules]: "g < 4 \<Longrightarrow> settles hw (any_bit_reads g) (\<lambda>_. True)"
  unfolding any_bit_reads_def by (intro settles_rules)

lemmas strobe_widths = VFIFO_SIZE_def IO_DQS_EN_DELAY_MAX_def IO_DQS_EN_PHASE_MAX_def
lemmas settles_body = settles_branch settles_prod settles_Let settles_step settles_ret

lemma settles_push [settles_rules]:
  "g < 4 \<Longrightarrow> settles hw (push_to_failure g) (\<lambda>_. True)" "g < 4 \<Longrightarrow> settles hw (push_to_pass g v) (\<lambda>_. True)"
  unfolding push_to_failure_def push_to_pass_def
  by (rule settles_step, rule settles_up_any [where cnt = fst and n = VFIFO_SIZE];
      auto intro!: settles_rules settles_ret settles_bind [OF settles_incr] simp: Let_def split: if_splits)+

lemma settles_sweep_phases:
  assumes "g < 4"
  shows "settles hw (sweep_phases g w) (\<lambda>(found, p, _). found \<longrightarrow> p \<le> 7)"
  unfolding sweep_phases_def
  by (rule settles_mono [OF settles_up [where cnt = fst and n = 8 and I = "\<lambda>_. True" and Out = "\<lambda>(p, _). p \<le> 7"]])
    (use assms in \<open>auto intro!: settles_rules settles_ret simp: strobe_widths word_le_nat_alt word_less_nat_alt split: if_splits\<close>)

lemma settles_sweep_vfifo:
  assumes "g < 4"
  shows "settles hw (sweep_vfifo g w v) (\<lambda>(found, i, p, _). p \<le> 7 \<or> VFIFO_SIZE \<le> i)"
  unfolding sweep_vfifo_def
  by (rule settles_mono [OF settles_up [where cnt = fst and n = VFIFO_SIZE and I = "\<lambda>_. True" and Out = "\<lambda>(i, p, _). p \<le> 7"]])
    (use assms in \<open>auto intro!: settles_rules settles_ret settles_bind [OF settles_sweep_phases] split: if_splits\<close>)

lemma settles_first_working:
  assumes "g < 4" and "n \<le> 12"
  shows "settles hw (first_working g n v) (\<lambda>(d, i, p, _). p \<le> 7 \<or> VFIFO_SIZE \<le> i)"
  unfolding first_working_def
  by (rule settles_bind [OF settles_up [where cnt = fst and n = 13 and
      I = "\<lambda>(d, _, i, p, _). p \<le> 7 \<or> VFIFO_SIZE \<le> i" and Out = "\<lambda>(d, _, i, p, _). p \<le> 7 \<or> VFIFO_SIZE \<le> i"]])
    (use assms in \<open>auto intro!: settles_rules settles_ret settles_bind [OF settles_sweep_vfifo]
      simp: word_le_nat_alt word_less_nat_alt split: if_splits\<close>)

lemma settles_back_up: "p \<le> 7 \<Longrightarrow> settles hw (back_up g p v) (\<lambda>(p, _). p \<le> 7)"
  unfolding back_up_def by (auto intro!: settles_rules settles_ret simp: strobe_widths word_le_nat_alt unat_minus_one)

lemma settles_go_forward: "settles hw (go_forward g p v) (\<lambda>(p, _). p \<le> 7)"
  unfolding go_forward_def by (auto intro!: settles_rules settles_ret simp: strobe_widths)

lemma settles_taps_before [settles_rules]: "g < 4 \<Longrightarrow> settles hw (taps_before g w) (\<lambda>_. True)"
  unfolding taps_before_def
  by (rule settles_step, rule settles_up_any [where cnt = fst and n = 32])
    (auto intro!: settles_rules settles_ret simp: strobe_widths word_le_nat_alt word_less_nat_alt)

lemma settles_sweep_to_end:
  assumes "g < 4"
  shows "settles hw (sweep_to_end g p w) (\<lambda>(found, p, _). found \<longrightarrow> p \<le> 7)"
  unfolding sweep_to_end_def
  by (rule settles_mono [OF settles_up [where cnt = fst and n = 8 and I = "\<lambda>_. True" and Out = "\<lambda>(p, _). p \<le> 7"]])
    (use assms in \<open>auto intro!: settles_rules settles_ret simp: strobe_widths word_le_nat_alt word_less_nat_alt split: if_splits\<close>)

lemma settles_first_failing:
  assumes "g < 4" and "p \<le> 7"
  shows "settles hw (first_failing g i p v w) (\<lambda>(_, i, p, _). p \<le> 7)"
  unfolding first_failing_def
  by (rule settles_mono [OF settles_up [where cnt = fst and n = "VFIFO_SIZE + 1" and
      I = "\<lambda>(i, p, _). p \<le> 7" and Out = "\<lambda>(i, p, _). p \<le> 7"]])
    (use assms in \<open>auto intro!: settles_rules settles_ret settles_bind [OF settles_sweep_to_end]
      simp: strobe_widths not_less split: if_splits\<close>)

lemma settles_phase_window:
  assumes "g < 4" and "p \<le> 7"
  shows "settles hw (phase_window g i p v w) (\<lambda>r. \<forall>b e p v. r = Some (b, e, p, v) \<longrightarrow> p \<le> 7)"
  unfolding phase_window_def
  by (intro settles_bind [OF settles_back_up] settles_bind [OF settles_go_forward] settles_bind [OF settles_first_failing]
    settles_rules settles_body; use assms in auto)

lemma settles_taps [settles_rules]:
  assumes "g < 4"
  shows "settles hw (last_tap g d w) (\<lambda>_. True)" "settles hw (find_tap g b d) (\<lambda>_. True)"
proof -
  show "settles hw (last_tap g d w) (\<lambda>_. True)"
    unfolding last_tap_def
    by (rule settles_step, rule settles_up_any [where cnt = fst and n = 32])
      (use assms in \<open>auto intro!: settles_rules settles_ret simp: strobe_widths word_le_nat_alt word_less_nat_alt split: if_splits\<close>)
  show "settles hw (find_tap g b d) (\<lambda>_. True)"
    unfolding find_tap_def
    by (rule settles_up_any [where cnt = "\<lambda>d. d" and n = 32])
      (use assms in \<open>auto intro!: settles_rules settles_ret simp: strobe_widths word_le_nat_alt word_less_nat_alt split: if_splits\<close>)
qed

lemma settles_measured_taps [settles_rules]:
  "g < 4 \<Longrightarrow> p \<le> 7 \<Longrightarrow> settles hw (measured_taps g n d p v) (\<lambda>_. True)"
  unfolding measured_taps_def by (auto intro!: settles_rules settles_bind [OF settles_back_up])

lemma window_centre_in_range:
  assumes "window_centre b e = (p, d)"
  shows "p - 1 \<le> 7 \<or> p - 1 = - 1" "d \<le> 31"
proof -
  have "p = 0 \<and> d = 0 \<or> 1 \<le> unat p \<and> unat p \<le> 8 \<and> unat d \<le> 13"
  proof (cases "(b + e) div 2 = 0")
    case True
    then show ?thesis using window_centre_zero assms by simp
  next
    case False
    then have "unat (reduced ((b + e) div 2)) \<noteq> 0" using reduced [of "(b + e) div 2"] by (metis unat_eq_zero)
    from window_centre_position [OF refl this assms] show ?thesis by blast
  qed
  then show "p - 1 \<le> 7 \<or> p - 1 = - 1" "d \<le> 31" by (auto simp: word_le_nat_alt unat_sub)
qed

lemma settles_centre_dqs_en [settles_rules]:
  "g < 4 \<Longrightarrow> p \<le> 7 \<Longrightarrow> settles hw (centre_dqs_en g n d p v b e) (\<lambda>_. True)"
  unfolding centre_dqs_en_def
  by (intro settles_rules settles_body; (drule window_centre_in_range)?; simp)

lemma settles_find_dqs_en [settles_rules]:
  "g < 4 \<Longrightarrow> settles hw (rw_mgr_mem_calibrate_vfifo_find_dqs_en_phase g) (\<lambda>_. True)"
  unfolding rw_mgr_mem_calibrate_vfifo_find_dqs_en_phase_def Let_def taps_per_phase_25
  by (intro settles_bind [OF settles_first_working] settles_bind [OF settles_phase_window] settles_rules settles_body;
    auto intro!: settles_rules settles_ret simp: not_le split: option.splits)

lemma delay_step_4: "delay_step = 4"
  by (simp add: delay_step_def reg_defs)

lemma settles_sweep_dq [settles_rules]:
  "w < 4 \<Longrightarrow> g < 4 \<Longrightarrow> settles hw (rw_mgr_mem_calibrate_vfifo_find_dqs_en_phase_sweep_dq_in_delay w g 0) (\<lambda>_. True)"
  unfolding rw_mgr_mem_calibrate_vfifo_find_dqs_en_phase_sweep_dq_in_delay_def delay_step_4 for_ranks_def
  by (intro settles_rules; simp add: widths word_le_nat_alt unat_word_ariths unat_of_nat)

section \<open>Delay chains\<close>

lemma sint_taps:
  assumes "v \<le> (31 :: u32)"
  shows "sint v = uint v"
proof -
  have "uint v \<le> 31" "0 \<le> uint v" using assms by (simp_all add: word_le_def)
  moreover have "- (2 ^ 31) \<le> uint v" by (rule order_trans [of _ 0]) simp_all
  ultimately have "signed_take_bit 31 (uint v) = uint v" by (intro signed_take_bit_int_eq_self) simp_all
  then show ?thesis by (simp add: sint_uint)
qed

lemma of_int_taps: "0 \<le> k \<Longrightarrow> k \<le> 31 \<Longrightarrow> of_int k \<le> (31 :: u32)"
  by (simp add: word_le_def unsigned_of_int take_bit_int_eq_self)

lemma settles_runs:
  assumes "settles hw m (\<lambda>_. True)" and "env t = hw" and "settled s t"
  shows "runs m (\<lambda>_ u. settled s u) t"
proof -
  have "runs m (\<lambda>x u. settled t u \<and> True) t" using assms(1,2) by (simp add: settles_def)
  then show ?thesis by (rule runs_mono) (use assms(3) settled_trans in blast)
qed

lemma settled_Rd:
  "settled s (s\<lparr>trace := Rd a v # trace s\<rparr>)"
  "settled s (s\<lparr>trace := h\<rparr>) \<Longrightarrow> settled s (s\<lparr>trace := Rd a v # h\<rparr>)"
  by (auto simp: settled_def intro: exI [of _ "Rd a v # _"])

text \<open>
  What the bounds rest on: a delay register holds at most the number of its last tap, and
  reading a register does not change it.
\<close>

locale delay_chains =
  fixes hw :: "event list \<Rightarrow> u32 \<Rightarrow> u32"
  assumes within: "chain_max a = 31 \<Longrightarrow> hw h a \<le> 31"
    and reading: "chain_max a = 31 \<Longrightarrow> hw (Rd b v # h) a = hw h a"
begin

lemma settles_taps_read:
  "g < 4 \<Longrightarrow> settles hw (READ_SCC_DQS_IN_DELAY g) (\<lambda>v. v \<le> 31)"
  "settles hw READ_SCC_DQS_IO_OUT1_DELAY (\<lambda>v. v \<le> 31)"
  unfolding scc_defs by (rule settles_IORD, rule within; simp add: widths)+

text \<open>The shift of a pin, computed from several reads of its register, leaves the pin in range.\<close>

lemma runs_shift:
  fixes read :: "u32 io" and s :: mach
  assumes read: "read = IORD_32DIRECT base off" "chain_max (apb base off) = 31" and env: "env s = hw"
    and top: "mx = 31" and wr: "\<And>v. v \<le> 31 \<Longrightarrow> settles hw (put v) (\<lambda>_. True)"
  shows "runs (bind_io (bind_io read (\<lambda>v1. if sint mx < sh + sint v1 then bind_io read (\<lambda>v2. ret (sint (mx - v2)))
       else bind_io read (\<lambda>v3. if sh + sint v3 < 0 then bind_io read (\<lambda>v4. ret (- sint v4)) else ret sh)))
     (\<lambda>x. bind_io read (\<lambda>v5. seq_io (put (v5 + of_int x)) (ret x)))) (\<lambda>_ t. settled s t) s"
proof -
  let ?v = "hw (trace s) (apb base off)"
  have wr': "runs (put v) (\<lambda>_ t. settled s t) t" if "settled s t" "v \<le> 31" for v t
    by (rule settles_runs [OF wr]) (use env that in \<open>auto simp: settled_def\<close>)
  have v: "?v \<le> 31" by (rule within [OF read(2)])
  have inside: "?v + of_int sh \<le> 31" if "\<not> 31 < sh + sint ?v" "\<not> sh + sint ?v < 0"
  proof -
    have "of_int (sint ?v + sh) \<le> (31 :: u32)" by (rule of_int_taps) (use that in auto)
    then show ?thesis by simp
  qed
  show ?thesis
    unfolding read(1) top IORD_32DIRECT_def
    by (auto simp: runs_rules runs_readl env reading read(2) inside split: if_splits intro!: wr' settled_Rd)
qed

lemma settles_shift_dq_in [settles_rules]:
  assumes "g < 4" and "i < 8"
  shows "settles hw (shift_dq_in g i i sh) (\<lambda>_. True)"
  unfolding settles_def simp_thms shift_dq_in_def READ_SCC_DQ_IN_DELAY_def
proof (intro allI impI, rule runs_shift [OF refl])
  show "IO_IO_IN_DELAY_MAX = 31" by (simp add: IO_IO_IN_DELAY_MAX_def)
  show "settles hw (seqs [scc_mgr_set_dq_in_delay g i v, scc_mgr_load_dq i]) (\<lambda>_. True)" if "v \<le> 31" for v
    by (intro settles_rules; use assms that in simp)
qed (use assms in simp)

lemma settles_shift_dq_out [settles_rules]:
  assumes "g < 4" and "i < 8"
  shows "settles hw (shift_dq_out g i sh) (\<lambda>_. True)"
  unfolding settles_def simp_thms shift_dq_out_def READ_SCC_DQ_OUT1_DELAY_def
proof (intro allI impI, rule runs_shift [OF refl])
  show "IO_IO_OUT1_DELAY_MAX = 31" by (simp add: IO_IO_OUT1_DELAY_MAX_def)
  show "settles hw (seqs [scc_mgr_set_dq_out1_delay g i v, scc_mgr_load_dq i]) (\<lambda>_. True)" if "v \<le> 31" for v
    by (intro settles_rules; use assms that in simp)
qed (use assms in simp)

end

lemma settles_centre_test [settles_rules]:
  "w < 4 \<Longrightarrow> g < 4 \<Longrightarrow> settles hw (centre_test b r w g) (\<lambda>_. True)"
  "w < 4 \<Longrightarrow> settles hw (data_test r w) (\<lambda>_. True)" "w < 4 \<Longrightarrow> settles hw (mask_test r w) (\<lambda>_. True)"
  unfolding centre_test_def data_test_def mask_test_def by (intro settles_rules settles_body; simp)+

lemma settles_edge_search:
  assumes "\<And>d. d \<le> n \<Longrightarrow> settles hw (setting d) (\<lambda>_. True)" and "settles hw test (\<lambda>_. True)" and "n \<le> 31"
  shows "settles hw (edge_search n setting test bits x e) (\<lambda>_. True)"
  unfolding edge_search_def
  by (rule settles_step, rule settles_up_any [where cnt = fst and n = 32])
    (use assms in \<open>auto intro!: settles_rules settles_ret simp: Let_def word_le_nat_alt word_less_nat_alt split: if_splits\<close>)

lemma settles_write_search:
  assumes "\<And>d. 0 \<le> d \<Longrightarrow> d \<le> n \<Longrightarrow> settles hw (setting d) (\<lambda>_. True)" and "settles hw test (\<lambda>_. True)"
  shows "settles hw (write_search n setting test bits stop x e) (\<lambda>_. True)"
  unfolding write_search_def
  by (rule settles_bind [OF settles_while [where I = "\<lambda>(d, _). 0 \<le> d" and Out = "\<lambda>_. True" and m = "\<lambda>(d, _). nat (n + 1 - d)"]])
    (use assms in \<open>auto intro!: settles_rules settles_ret simp: Let_def split: if_splits\<close>)

section \<open>Deskewing\<close>

lemma sum_taps:
  assumes "0 \<le> st" "st \<le> 31" and "d \<le> (of_int (31 - st) :: u32)"
  shows "d + of_int st \<le> 31"
proof -
  have "uint (of_int (31 - st) :: u32) = 31 - st" using assms by (simp only: uint_word_of_int) (simp add: take_bit_int_eq_self)
  then have le: "uint d + st \<le> 31" using assms(3) by (simp add: word_le_def)
  have "d + of_int st = of_int (uint d + st)" by simp
  also have "\<dots> \<le> 31" by (rule of_int_taps) (use le assms(1) in auto)
  finally show ?thesis .
qed

lemma clipped_in_range: "0 \<le> clipped 31 x \<and> clipped 31 x \<le> 31"
  by (simp add: clipped_def)

text \<open>The edges of the window of the data mask are at most 31 to the left, or the illegal value.\<close>

definition mask_ok :: "mask_window \<Rightarrow> bool" where
  "mask_ok w = (case w of (bgn_curr, end_curr, bgn_best, end_best, _) \<Rightarrow>
     - 31 \<le> bgn_curr \<and> - 31 \<le> end_curr \<and> - 31 \<le> bgn_best \<and> - 31 \<le> end_best)"

lemma out_none_32: "out_none = 32"
  by (simp add: out_none_def reg_defs)

lemma mask_ok_steps:
  "mask_ok (32, 32, 32, 32, x)"
  "- 31 \<le> pos \<Longrightarrow> mask_ok w \<Longrightarrow> mask_ok (passes_at out_none pos w)"
  "mask_ok w \<Longrightarrow> mask_ok (restart_window out_none w)"
  by (auto simp: mask_ok_def passes_at_def restart_window_def out_none_32 Let_def split: prod.splits if_splits)

lemma half_in_range: "x \<le> 62 \<Longrightarrow> x sdiv 2 \<le> (31 :: int)"
  by (auto simp: signed_divide_int_def sgn_if)

context delay_chains begin

lemma settles_read_edges:
  assumes "w < 4" "g < 4" and "0 \<le> st" "st \<le> 31"
  shows "settles hw (read_edges b r w g 0 st) (\<lambda>_. True)"
proof -
  have top: "of_int (31 - st) \<le> (31 :: u32)" using assms by (intro of_int_taps) auto
  show ?thesis
    unfolding read_edges_def
    by (intro settles_rules settles_body settles_edge_search; use assms top in \<open>simp add: strobe_widths sum_taps reg_defs\<close>)
qed

lemma settles_centre_read [settles_rules]:
  "w < 4 \<Longrightarrow> g < 4 \<Longrightarrow> settles hw (centre_read w g 0 u st e) (\<lambda>_. True)"
  unfolding centre_read_def
  by (intro settles_rules settles_body; auto intro!: settles_shift_dq_in simp: widths of_int_taps clipped_in_range IO_DQS_IN_DELAY_MAX_def)

lemma settles_vfifo_center [settles_rules]:
  "w < 4 \<Longrightarrow> g < 4 \<Longrightarrow> settles hw (rw_mgr_mem_calibrate_vfifo_center r w g 0 b u) (\<lambda>_. True)"
  unfolding rw_mgr_mem_calibrate_vfifo_center_def
  by (rule settles_bind [OF settles_taps_read(1)])
    (auto intro!: settles_rules settles_ret settles_read_edges of_int_taps simp: Let_def sint_taps word_le_def split: option.splits)

lemma settles_write_edges:
  assumes "w < 4" and "0 \<le> st" "st \<le> 31"
  shows "settles hw (write_edges r w t st) (\<lambda>_. True)"
  unfolding write_edges_def
  by (intro settles_rules settles_body settles_write_search; use assms in \<open>simp add: of_int_taps reg_defs del: of_int_add\<close>)

lemma settles_mask_left:
  assumes "w < 4"
  shows "settles hw (mask_left r w) mask_ok"
  unfolding mask_left_def
  by (rule settles_bind [OF settles_while [where I = "\<lambda>x. fst x \<le> 31 \<and> mask_ok (snd x)" and Out = "\<lambda>x. mask_ok (snd x)" and
      m = "\<lambda>(d, _). nat (d + 1)"]])
    (use assms in \<open>auto intro!: settles_rules settles_ret of_int_taps mask_ok_steps [unfolded out_none_32]
      simp: out_none_32 DELTA_D_def IO_IO_OUT1_DELAY_MAX_def split: if_splits\<close>)

lemma settles_mask_right:
  assumes "g < 4" and "mask_ok w" and "0 \<le> st" "st \<le> 31"
  shows "settles hw (mask_right r g st w) mask_ok"
  unfolding mask_right_def
  by (rule settles_bind [OF settles_while [where I = "\<lambda>x. 0 \<le> fst x \<and> mask_ok (snd x)" and Out = "\<lambda>x. mask_ok (snd x)" and
      m = "\<lambda>(d, _). nat (32 - d)"]])
    (use assms in \<open>auto intro!: settles_rules settles_ret of_int_taps mask_ok_steps [unfolded out_none_32]
      simp: out_none_32 DELTA_D_def IO_IO_OUT1_DELAY_MAX_def Let_def split: if_splits simp del: of_int_add\<close>,
      (metis mask_ok_steps(3) out_none_32)+)

lemma settles_centre_mask [settles_rules]:
  assumes "g < 4" and "0 \<le> st" "st \<le> 31"
  shows "settles hw (centre_mask r g st) (\<lambda>_. True)"
proof -
  have last: "settles hw (let left_edge = - 1 * bgn_best; right_edge = end_best; mid = (left_edge - right_edge) sdiv 2;
         mid = (if mid < 0 then 0 else mid) in
       seq_io (seqs [scc_mgr_apply_group_dqs_io_and_oct_out1 g (of_int st), scc_mgr_apply_group_dm_out1_delay g (of_int mid),
         IOWR_32DIRECT SCC_MGR_UPD 0 0]) (ret (if win_best = 0 then - 1 else left_edge - mid))) (\<lambda>_. True)"
    if "mask_ok (bgn_curr, end_curr, bgn_best, end_best, win_best)" for bgn_curr end_curr bgn_best end_best win_best :: int
  proof -
    have "(- 1 * bgn_best - end_best) sdiv 2 \<le> 31" by (rule half_in_range) (use that in \<open>simp add: mask_ok_def\<close>)
    then show ?thesis unfolding Let_def by (intro settles_rules settles_body of_int_taps; use assms in simp)
  qed
  have start: "mask_ok (case w of (_, end_curr, _) \<Rightarrow> if end_curr \<noteq> 0 then restart_window out_none w else w)" if "mask_ok w" for w
    using that by (auto intro: mask_ok_steps split: prod.split)
  show ?thesis
    unfolding centre_mask_def
    by (rule settles_bind [OF settles_mask_left], rule assms, rule settles_step, rule settles_groups, simp, subst Let_def,
      rule settles_bind [OF settles_mask_right], rule assms, erule start, rule assms, rule assms)
      (intro settles_prod, hypsubst, erule last)
qed

lemma settles_centre_data [settles_rules]:
  assumes "g < 4" and "0 \<le> st" "st \<le> 31"
  shows "settles hw (centre_data g st e) (\<lambda>_. True)"
  unfolding centre_data_def
  by (intro settles_rules settles_body; use assms in \<open>simp add: widths of_int_taps\<close>)

lemma settles_writes_center [settles_rules]:
  assumes "g < 4"
  shows "settles hw (rw_mgr_mem_calibrate_writes_center r g t) (\<lambda>_. True)"
  unfolding rw_mgr_mem_calibrate_writes_center_def
  by (rule settles_bind [OF settles_taps_read(2)])
    (use assms in \<open>auto intro!: settles_rules settles_ret settles_write_edges simp: Let_def sint_taps word_le_def split: option.splits\<close>)

end

section \<open>The stages\<close>

lemma read_groups_one: "read_groups g = [g]"
  by (simp add: read_groups_def)

context delay_chains begin

lemma settles_try_read [settles_rules]:
  "w < 4 \<Longrightarrow> g < 4 \<Longrightarrow> settles hw (try_read_group w g 0 f) (\<lambda>_. True)"
  unfolding try_read_group_def by (intro settles_rules settles_body; simp)

lemma settles_sweep_output [settles_rules]:
  "w < 4 \<Longrightarrow> g < 4 \<Longrightarrow> settles hw (sweep_output_phase w g 0 f) (\<lambda>_. True)"
  unfolding sweep_output_phase_def
  by (rule settles_step, rule settles_up_any [where cnt = fst and n = 1])
    (auto intro!: settles_rules settles_ret simp: IO_DQDQS_OUT_PHASE_MAX_def split: if_splits)

lemma settles_vfifo_stage [settles_rules]:
  assumes "g < 4"
  shows "settles hw (rw_mgr_mem_calibrate_vfifo g 0) (\<lambda>_. True)"
proof -
  have less: "unat (12 - d) < unat (14 - d)" if "d \<le> 12" for d :: u32
    using that by (simp add: unat_sub word_le_nat_alt)
  show ?thesis
    unfolding rw_mgr_mem_calibrate_vfifo_def Let_def taps_per_phase_25
    by (rule settles_step(2), intro settles_rules, rule settles_step(1),
      rule settles_while_any [where m = "\<lambda>(d, _). unat (14 - d)"])
      (use assms in \<open>auto intro!: settles_rules settles_ret intro: order_trans simp: less\<close>)
qed

lemma settles_vfifo_end [settles_rules]:
  "g < 4 \<Longrightarrow> settles hw (rw_mgr_mem_calibrate_vfifo_end g 0) (\<lambda>_. True)"
  unfolding rw_mgr_mem_calibrate_vfifo_end_def by (intro settles_rules settles_body; simp)

lemma settles_writes [settles_rules]:
  "g < 4 \<Longrightarrow> settles hw (rw_mgr_mem_calibrate_writes r g t) (\<lambda>_. True)"
  unfolding rw_mgr_mem_calibrate_writes_def by (intro settles_rules settles_body; simp)

lemma settles_calibrate_group [settles_rules]:
  "g < 4 \<Longrightarrow> settles hw (calibrate_group g t) (\<lambda>_. True)"
  unfolding calibrate_group_def read_groups_one unless_failed_def failed_group_def
    enumerate_simps fold_io.simps prod.case mult_0
  by (intro settles_rules settles_body; simp)

lemma settles_calibrate_groups [settles_rules]: "settles hw calibrate_groups (\<lambda>_. True)"
  unfolding calibrate_groups_def
  by (rule settles_step, rule settles_rules, rule settles_step,
      rule settles_while_any [where m = "\<lambda>(g, _). 4 - g"])
    (auto intro!: settles_rules settles_ret simp: widths Let_def split: option.splits)

end

section \<open>The read latency\<close>

lemma keeps_fold: "(\<And>i x. keeps f (g i x)) \<Longrightarrow> keeps f (fold_io g is x)"
  by (induction "is" arbitrary: x) (auto intro: keeps_ret keeps_bind)

lemma keeps_prod: "(\<And>x y. keeps f (g x y)) \<Longrightarrow> keeps f (case r of (x, y) \<Rightarrow> g x y)"
  by (cases r) simp

lemma keeps_Let: "keeps f (g v) \<Longrightarrow> keeps f (let x = v in g x)"
  by simp

interpretation globals: view gbl "{}"
  by unfold_locales simp_all

lemma runs_IOWR: "runs (IOWR_32DIRECT base off d) Q s = Q () (s\<lparr>trace := Wr (apb base off) d # trace s\<rparr>)"
  by (simp add: IOWR_32DIRECT_def runs_writel)

lemma keeps_read_test: "keeps gbl (rw_mgr_mem_calibrate_read_test_all_ranks g n a b)"
  unfolding rw_defs IOWR_32DIRECT_def IORD_32DIRECT_def
  by (intro globals.keeps_io keeps_fold keeps_prod keeps_Let; simp)

text \<open>The latency falls by one in every round; from 0 it wraps around, and still gets to 0 again.\<close>

context delay_chains begin

lemma runs_lower_latency:
  assumes "env s = hw"
  shows "runs (while_io (\<lambda>(go, found_one). go) (\<lambda>(go, found_one).
        bind_io (get_io (\<lambda>s. curr_read_lat (gbl s))) (\<lambda>lat.
        seq_io (IOWR_32DIRECT PHY_MGR_PHY_RLAT 0 lat)
        (bind_io (rw_mgr_mem_calibrate_read_test_all_ranks 0 NUM_READ_TESTS PASS_ALL_BITS True) (\<lambda>(ok, _).
         if \<not> ok then ret (True, (go, found_one))
         else seq_io (modify_gbl (\<lambda>g. g\<lparr>curr_read_lat := curr_read_lat g - 1\<rparr>))
           (bind_io (get_io (\<lambda>s. curr_read_lat (gbl s))) (\<lambda>lat. ret (False, (0 < lat, True))))))))
     (True, found)) (\<lambda>_ t. settled s t) s"
    (is "runs (while_io ?c ?body _) _ _")
  using assms
proof (induction "unat (curr_read_lat (gbl s) - 1)" arbitrary: s found rule: less_induct)
  case less
  let ?l = "curr_read_lat (gbl s)" and ?s1 = "s\<lparr>trace := Wr (apb PHY_MGR_PHY_RLAT 0) (curr_read_lat (gbl s)) # trace s\<rparr>"
  have s1: "settled s ?s1" "env ?s1 = hw" using less.prems by (simp_all add: settled_event)
  have test: "runs (rw_mgr_mem_calibrate_read_test_all_ranks 0 NUM_READ_TESTS PASS_ALL_BITS True)
      (\<lambda>_ t. settled s t \<and> gbl t = gbl ?s1) ?s1"
    by (rule runs_keeps [OF settles_runs [OF settles_read_test(2)] keeps_read_test]) (use s1 in simp_all)
  have after: "runs (if \<not> ok then ret (True, (True, found))
         else seq_io (modify_gbl (\<lambda>g. g\<lparr>curr_read_lat := curr_read_lat g - 1\<rparr>))
           (bind_io (get_io (\<lambda>s. curr_read_lat (gbl s))) (\<lambda>lat. ret (False, (0 < lat, True)))))
        (\<lambda>r. runs (if fst r then ret r else while_io ?c ?body (snd r)) (\<lambda>_ t. settled s t)) t"
    if t: "settled s t \<and> gbl t = gbl ?s1" for ok t
  proof -
    let ?u = "t\<lparr>gbl := gbl s\<lparr>curr_read_lat := ?l - 1\<rparr>\<rparr>"
    have u: "settled s ?u" "env ?u = hw" using t less.prems by (auto simp: settled_def)
    have again: "runs (while_io ?c ?body (True, True)) (\<lambda>_ t'. settled s t') ?u" if "0 < ?l - 1"
    proof -
      have "unat (x - 1) < unat x" if "0 < x" for x :: u32
        using that by (simp add: unat_minus_one word_gt_0 unat_gt_0)
      then have "unat (?l - 1 - 1) < unat (?l - 1)" using that by blast
      then have "runs (while_io ?c ?body (True, True)) (\<lambda>_ t'. settled ?u t') ?u"
        by (intro less.hyps) (use u in simp_all)
      then show ?thesis by (rule runs_mono) (use u settled_trans in blast)
    qed
    have stop: "runs (while_io ?c ?body (False, True)) (\<lambda>_ t'. settled s t') ?u"
      using u by (simp add: while_done runs_ret)
    show ?thesis
      using t again stop by (cases ok; cases "0 < ?l - 1") (simp_all add: runs_ret runs_seq runs_bind runs_get modify_gbl_def runs_modify)
  qed
  have "runs (?body (True, found)) (\<lambda>r. runs (if fst r then ret r else while_io ?c ?body (snd r)) (\<lambda>_ t. settled s t)) s"
    unfolding prod.case runs_bind runs_seq runs_get runs_IOWR
    by (rule runs_mono [OF test]) (clarsimp split del: if_split, rule after, simp)
  then show ?case by (simp add: while_step runs_bind)
qed

lemma settles_lfifo [settles_rules]: "settles hw rw_mgr_mem_calibrate_lfifo (\<lambda>_. True)"
proof -
  have "settles hw lower_latency (\<lambda>_. True)"
    unfolding lower_latency_def
    by (rule settles_step, simp add: settles_def runs_lower_latency, intro settles_rules)
  then show ?thesis
    unfolding rw_mgr_mem_calibrate_lfifo_def by (intro settles_rules settles_body; simp)
qed

end

section \<open>The whole calibration\<close>

text \<open>What the stages leave alone: the steps chosen at the start.\<close>

interpretation steps: calibration_frame "\<lambda>s t. dyn_calib_steps t = dyn_calib_steps s"
  by unfold_locales simp_all

lemma not_skipped: "ucast (ucast STATIC_CALIB_STEPS :: u16) AND CALIB_SKIP_ALL \<noteq> CALIB_SKIP_ALL"
  by (simp add: reg_defs)

lemma rom_lengths: "length inst_rom_init \<le> 256" "length ac_rom_init \<le> 256"
  by (simp_all add: inst_rom_init_def ac_rom_init_def)

lemma settles_rom [settles_rules]: "settles hw hc_initialize_rom_data (\<lambda>_. True)"
  unfolding hc_initialize_rom_data_def write_rom_def
  by (intro settles_rules; use rom_lengths in \<open>simp add: chain_max_rom\<close>)

lemma settles_initialize [settles_rules]:
  "settles hw initialize_reg_file (\<lambda>_. True)" "settles hw initialize_hps_phy (\<lambda>_. True)"
  "settles hw initialize_tracking (\<lambda>_. True)" "settles hw mem_config (\<lambda>_. True)"
  "settles hw report_pass (\<lambda>_. True)" "settles hw report_failure (\<lambda>_. True)"
  unfolding initialize_reg_file_def initialize_hps_phy_def initialize_tracking_def mem_config_def report_pass_def report_failure_def
  by (intro settles_rules; simp)+

lemma runs_confined: "runs m P s \<Longrightarrow> confined R m \<Longrightarrow> runs m (\<lambda>x t. P x t \<and> R s t) s"
  by (auto simp: runs_iff confined_def wp_def split: option.splits res.splits)

lemma settles_then:
  assumes "settles hw m (\<lambda>_. True)" and "confined (\<lambda>s t. dyn_calib_steps t = dyn_calib_steps s) m"
    and "env s = hw" "settled r s"
    and "\<And>x t. settled r t \<Longrightarrow> env t = hw \<Longrightarrow> dyn_calib_steps t = dyn_calib_steps s \<Longrightarrow> runs (f x) Q t"
  shows "runs (bind_io m f) Q s"
  unfolding runs_bind
  by (rule runs_mono [OF runs_confined [OF settles_runs [OF assms(1,3) settled_refl] assms(2)]], rule assms(5))
    (use assms(3,4) in \<open>auto simp: settled_def\<close>)

lemma steps_modify: "confined (\<lambda>s t. dyn_calib_steps t = dyn_calib_steps s) (modify_gbl f)"
  by (simp add: confined_def modify_gbl_def wp_modify)

context delay_chains begin

lemma settles_once [settles_rules]: "settles hw calibrate_once (\<lambda>_. True)"
  unfolding calibrate_once_def by (intro settles_rules settles_body; simp)

lemma runs_mem_calibrate:
  assumes env: "env s = hw" and steps: "dyn_calib_steps s = ucast STATIC_CALIB_STEPS" and r: "settled r s"
  shows "runs mem_calibrate (\<lambda>_ t. settled r t) s"
  unfolding mem_calibrate_def seq_io_def [of "seqs _"]
proof (rule settles_then [OF _ _ env r])
  fix x and t :: mach assume t: "settled r t" "env t = hw" "dyn_calib_steps t = dyn_calib_steps s"
  have rest: "settles hw (bind_io (fold_io (\<lambda>_ ok. if ok then calibrate_once else ret False) [0..<unat NUM_CALIB_REPEAT] True)
      (\<lambda>ok. if \<not> ok then ret False else seq_io (IOWR_32DIRECT SCC_MGR_UPD 0 0) (ret True))) (\<lambda>_. True)"
    by (intro settles_rules; simp)
  show "runs (bind_io (get_io dyn_calib_steps) (\<lambda>steps.
      bind_io (if ucast steps AND CALIB_SKIP_ALL = CALIB_SKIP_ALL then seq_io mem_skip_calibrate (ret True)
        else fold_io (\<lambda>_ ok. if ok then calibrate_once else ret False) [0..<unat NUM_CALIB_REPEAT] True) (\<lambda>ok.
      if \<not> ok then ret False else seq_io (IOWR_32DIRECT SCC_MGR_UPD 0 0) (ret True)))) (\<lambda>_ t. settled r t) t"
    unfolding runs_bind [of "get_io _"] runs_get t(3) steps if_not_P [OF not_skipped]
    by (rule settles_runs [OF rest t(2,1)])
qed (intro settles_rules steps_modify confined_rules; simp add: widths)+

lemma runs_run_mem_calibrate:
  assumes env: "env s = hw" and steps: "dyn_calib_steps s = ucast STATIC_CALIB_STEPS" and r: "settled r s"
  shows "runs run_mem_calibrate (\<lambda>_ t. settled r t) s"
  unfolding run_mem_calibrate_def seq_io_def [of "IOWR_32DIRECT _ _ _" "bind_io _ _"]
proof (rule settles_then [OF _ _ env r])
  fix t :: mach assume t: "settled r t" "env t = hw" "dyn_calib_steps t = dyn_calib_steps s"
  show "runs (bind_io (IORD_32DIRECT CTRL_CONFIG_REG 0) (\<lambda>ctrlcfg.
     seq_io (seqs [IOWR_32DIRECT CTRL_CONFIG_REG 0 (ctrlcfg AND 0xFFBFFFFF), initialize, rw_mgr_mem_initialize])
     (bind_io mem_calibrate (\<lambda>pass.
     seq_io (seqs [
       mem_precharge_and_activate,
       IOWR_32DIRECT PHY_MGR_CMD_FIFO_RESET 0 0,
       bind_io (get_io (\<lambda>s. phy_debug_mode_flags (gbl s))) (\<lambda>flags.
         when_io (flags AND PHY_DEBUG_IN_DEBUG_MODE = 0) (seqs [
           rw_mgr_mem_handoff,
           IOWR_32DIRECT PHY_MGR_MUX_SEL 0 0x2])),
       IOWR_32DIRECT CTRL_CONFIG_REG 0 ctrlcfg,
       if pass then report_pass else report_failure])
     (ret pass))))) (\<lambda>_ t. settled r t) t"
    unfolding seq_io_def [of "seqs _" "bind_io _ _"]
  proof (rule settles_then [OF _ _ t(2,1)], goal_cases)
    case (3 c u)
    have start: "settles hw (seqs [IOWR_32DIRECT CTRL_CONFIG_REG 0 (c AND 0xFFBFFFFF), initialize, rw_mgr_mem_initialize]) (\<lambda>_. True)"
      by (intro settles_rules; simp)
    show ?case
    proof (rule settles_then [OF start _ 3(2,1)], goal_cases)
      case (2 x v)
      have last: "settles hw (seq_io (seqs [mem_precharge_and_activate, IOWR_32DIRECT PHY_MGR_CMD_FIFO_RESET 0 0,
           bind_io (get_io (\<lambda>s. phy_debug_mode_flags (gbl s))) (\<lambda>flags.
             when_io (flags AND PHY_DEBUG_IN_DEBUG_MODE = 0) (seqs [rw_mgr_mem_handoff, IOWR_32DIRECT PHY_MGR_MUX_SEL 0 0x2])),
           IOWR_32DIRECT CTRL_CONFIG_REG 0 c, if pass then report_pass else report_failure]) (ret pass)) (\<lambda>_. True)" for pass
        by (intro settles_rules; simp)
      show ?case
        unfolding runs_bind
        by (rule runs_mono [OF runs_mem_calibrate [OF 2(2) _ 2(1)]], use 2 3 t steps in simp, rule settles_runs [OF last])
          (use env r in \<open>simp_all add: settled_def\<close>)
    qed (intro confined_rules)
  qed (intro settles_rules confined_rules)+
qed (intro settles_rules confined_rules; simp)+

lemma runs_seqs_append: "runs (seqs (ms @ ns)) Q = runs (seqs ms) (\<lambda>_. runs (seqs ns) Q)"
proof (induction ms)
  case (Cons m ms)
  show ?case by (rule ext) (simp only: append_Cons runs_seqs_Cons Cons.IH)
qed (simp add: fun_eq_iff runs_seqs_Nil del: seqs.simps)

lemma runs_calibration:
  assumes env: "env s = hw"
  shows "runs sdram_calibration_full (\<lambda>r t. (r = 0 \<or> r = 1) \<and> settled s t) s"
proof -
  let ?pre = "[modify_gbl (\<lambda>g. g\<lparr>phy_debug_mode_flags := 0 OR PHY_DEBUG_ENABLE_CAL_RPT\<rparr>), initialize_reg_file, initialize_hps_phy,
    scc_mgr_initialize, initialize_tracking, IPRINT ''Preparing to start memory calibration'', hc_initialize_rom_data,
    reg_file_set_stage CAL_STAGE_NIL, reg_file_set_group 0]"
  have pre: "settles hw (seqs ?pre) (\<lambda>_. True)" by (intro settles_rules)
  have go: "runs run_mem_calibrate (\<lambda>pass u. ((of_bool pass :: u32) = 0 \<or> (of_bool pass :: u32) = 1) \<and> settled s u)
      (t\<lparr>dyn_calib_steps := ucast STATIC_CALIB_STEPS, skip_delay_mask := k\<rparr>)" if "settled s t" for t k
    by (rule runs_mono [OF runs_run_mem_calibrate [where r = s]]) (use that env in \<open>auto simp: settled_def\<close>)
  have "runs (seqs (?pre @ [modify_io (\<lambda>s. s\<lparr>dyn_calib_steps := ucast STATIC_CALIB_STEPS\<rparr>),
      modify_io (\<lambda>s. s\<lparr>skip_delay_mask := if ucast (dyn_calib_steps s) AND CALIB_SKIP_DELAY_LOOPS = 0 then 0xff else 0x0\<rparr>)]))
      (\<lambda>_. runs run_mem_calibrate (\<lambda>pass u. ((of_bool pass :: u32) = 0 \<or> (of_bool pass :: u32) = 1) \<and> settled s u)) s"
    unfolding runs_seqs_append
    by (rule runs_mono [OF settles_runs [OF pre env settled_refl]])
      (simp only: runs_seqs_Cons runs_seqs_Nil runs_modify, use go in simp)
  then show ?thesis
    unfolding sdram_calibration_full_def sdram_calibration_def runs_seq runs_bind runs_ret append_Cons append_Nil .
qed

end

section \<open>On the device\<close>

text \<open>Registers that keep what was written; a delay register has five bits.\<close>

definition chain_device :: "(u32 \<Rightarrow> u32) \<Rightarrow> event list \<Rightarrow> u32 \<Rightarrow> u32" where
  "chain_device r0 h a = (if chain_max a = 31 then reg_val r0 h a AND 0x1f else reg_val r0 h a)"

interpretation chains: delay_chains "chain_device r0"
  by unfold_locales (simp_all add: chain_device_def word_and_le1)

text \<open>
  C7: On hardware whose delay registers hold at most the number of their last tap, and do not
  change when they are read, the calibration ends and returns 0 or 1; and whatever it wrote to
  a delay or a phase register was a setting the chain has, but for the phase of a window
  around 0, which is one less than 0.
\<close>

theorem calibration_in_range:
  assumes "delay_chains (env s)"
  shows "runs sdram_calibration_full
     (\<lambda>r t. (r = 0 \<or> r = 1) \<and> (\<exists>es. trace t = es @ trace s \<and> list_all in_range es)) s"
  by (rule runs_mono [OF delay_chains.runs_calibration [OF assms refl]]) (auto simp: settled_def)

text \<open>The witness is the device of registers, whatever they hold at first.\<close>

theorem calibration_in_range_witness:
  "\<forall>r0 (s :: mach). runs sdram_calibration_full
     (\<lambda>r t. (r = 0 \<or> r = 1) \<and> (\<exists>es. trace t = es @ trace s \<and> list_all in_range es)) (s\<lparr>env := chain_device r0\<rparr>)"
proof (intro allI)
  fix r0 and s :: mach
  have "delay_chains (env (s\<lparr>env := chain_device r0\<rparr>))" by (simp add: chains.delay_chains_axioms)
  from calibration_in_range [OF this]
  show "runs sdram_calibration_full (\<lambda>r t. (r = 0 \<or> r = 1) \<and> (\<exists>es. trace t = es @ trace s \<and> list_all in_range es))
    (s\<lparr>env := chain_device r0\<rparr>)" by simp
qed

end
