(* ===== verification/EyeSearch.thy ===== *)
theory EyeSearch imports CalibrationBounds begin

text \<open>
  The edge searches of the deskew on pins that pass exactly within a window: what they have
  recorded after each test, and that both of them together find both edges of every window.
\<close>

section \<open>Going through the bits\<close>

text \<open>A change of the edges bit by bit.\<close>

definition bitwise :: "(nat \<Rightarrow> bool \<Rightarrow> edges \<Rightarrow> edges) \<Rightarrow> (bool \<Rightarrow> int \<times> int \<Rightarrow> int \<times> int) \<Rightarrow> bool" where
  "bitwise f g \<longleftrightarrow> (\<forall>i b l r. i < length l \<longrightarrow> i < length r \<longrightarrow>
     f i b (l, r) = (l[i := fst (g b (l ! i, r ! i))], r[i := snd (g b (l ! i, r ! i))]))"

lemma each_bit_fold: "each_bit f n w e = fold (\<lambda>i. f i (bit w i)) [0..<n] e"
proof -
  have "fold (\<lambda>i (w, e). (shr w 1, f i (w AND 1 \<noteq> 0) e)) [0..<n] (w, e) = (drop_bit n w, fold (\<lambda>i. f i (bit w i)) [0..<n] e)"
  proof (induction n)
    case (Suc n)
    have "drop_bit n w AND 1 \<noteq> 0 \<longleftrightarrow> bit w n"
      by (simp add: and_one_eq odd_iff_mod_2_eq_one bit_iff_odd_drop_bit)
    then show ?case using Suc.IH by (simp add: shr_def)
  qed simp
  then show ?thesis by (simp add: each_bit_def)
qed

lemma each_bitwise:
  assumes "bitwise f g"
  shows "each_bit f n w (map L [0..<n], map R [0..<n]) =
    (map (\<lambda>i. fst (g (bit w i) (L i, R i))) [0..<n], map (\<lambda>i. snd (g (bit w i) (L i, R i))) [0..<n])"
proof -
  have "fold (\<lambda>i. f i (bit w i)) [0..<k] (map L [0..<n], map R [0..<n]) =
      (map (\<lambda>i. if i < k then fst (g (bit w i) (L i, R i)) else L i) [0..<n],
       map (\<lambda>i. if i < k then snd (g (bit w i) (L i, R i)) else R i) [0..<n])" if "k \<le> n" for k
    using that
  proof (induction k)
    case (Suc k)
    then show ?case using assms
      by (auto simp: bitwise_def list_eq_iff_nth_eq nth_list_update less_Suc_eq)
  qed simp
  from this [of n] show ?thesis by (simp add: each_bit_fold cong: map_cong)
qed

definition left_step :: "int \<Rightarrow> int \<Rightarrow> bool \<Rightarrow> int \<times> int \<Rightarrow> int \<times> int" where
  "left_step none d b e = (if b then (d, snd e) else if fst e = none then (fst e, - (d + 1)) else e)"

definition right_step :: "int \<Rightarrow> int \<Rightarrow> bool \<Rightarrow> int \<times> int \<Rightarrow> int \<times> int" where
  "right_step none d b e = (if b then (fst e, d)
     else if d \<noteq> 0 then (if snd e = none then (- (d + 1), snd e) else e)
     else if snd e = none \<and> fst e \<noteq> none then (fst e, - 1)
     else if snd e = none then (- (d + 1), snd e) else e)"

lemma bitwise_left: "bitwise (left_bit none d) (left_step none d)"
  by (auto simp: bitwise_def left_bit_def left_step_def)

lemma bitwise_right: "bitwise (right_bit none d) (right_step none d)"
  by (auto simp: bitwise_def right_bit_def right_step_def)

section \<open>Windows\<close>

text \<open>
  A pin passes at the distances from \<open>a\<close> to \<open>b\<close> of the left search, and from \<open>- b\<close> to \<open>- a\<close> of
  the right search. The edges after \<open>d\<close> tests:
\<close>

definition left_after :: "int \<Rightarrow> int \<Rightarrow> int \<Rightarrow> int \<times> int" where
  "left_after a b d = (if 0 \<le> b \<and> a < d \<and> 0 < d then min (d - 1) b else 32,
     if d \<le> 0 then 32 else if b < 0 then - d else if 0 < a then - (min d a) else 32)"

definition right_after :: "int \<Rightarrow> int \<Rightarrow> int \<Rightarrow> int \<times> int" where
  "right_after a b d = (if 0 \<le> b then b else if d \<le> 0 then 32 else - (min d (- b)),
     if 0 \<le> b \<and> 0 < a then - a else if 0 < d \<and> - b < d then min (d - 1) (- a) else 32)"

lemma left_after_step:
  "a \<le> b \<Longrightarrow> 0 \<le> d \<Longrightarrow> d \<le> 31 \<Longrightarrow> left_step 32 d (a \<le> d \<and> d \<le> b) (left_after a b d) = left_after a b (d + 1)"
  by (auto simp: left_step_def left_after_def)

lemma right_after_step:
  "a \<le> b \<Longrightarrow> 0 \<le> d \<Longrightarrow> d \<le> 31 \<Longrightarrow> right_step 32 d (- b \<le> d \<and> d \<le> - a) (right_after a b d) = right_after a b (d + 1)"
  by (auto simp: right_step_def right_after_def)

section \<open>The search loop\<close>

text \<open>
  One search on pins that pass at distance \<open>d\<close> as \<open>P d\<close> says: \<open>E\<close> are the edges and \<open>S\<close> the
  sticky bits after each test, \<open>F\<close> the edges at the end, whether it stops early or not.
\<close>

lemma runs_edge_search:
  fixes n :: u32 and P S :: "int \<Rightarrow> nat \<Rightarrow> bool"
  assumes n: "n \<le> 31" and start: "J s" "e = E 0" "\<And>i. bit x i \<longleftrightarrow> i < 8 \<and> S 0 i"
    and tested: "\<And>d t. J t \<Longrightarrow> d \<le> n \<Longrightarrow> runs (seq_io (setting d) (seq_io (IOWR_32DIRECT SCC_MGR_UPD 0 0) test))
      (\<lambda>(stop, w) u. J u \<and> (\<forall>i. bit w i \<longleftrightarrow> i < 8 \<and> P (uint d) i) \<and> stop = (w = 0)) t"
    and mask: "\<And>t. J t \<Longrightarrow> read_correct_mask (param t) = 0xff"
    and sticky: "\<And>d i. 0 \<le> d \<Longrightarrow> i < 8 \<Longrightarrow> S (d + 1) i = (S d i \<or> P d i)"
    and edges: "\<And>d w. 0 \<le> d \<Longrightarrow> d \<le> 31 \<Longrightarrow> (\<forall>i<8. bit w i = P d i) \<Longrightarrow> each_bit (bits d) 8 w (E d) = E (d + 1)"
    and early: "\<And>d. 0 \<le> d \<Longrightarrow> d \<le> uint n \<Longrightarrow> \<forall>i<8. S (d + 1) i \<and> \<not> P d i \<Longrightarrow> E d = F"
    and late: "E (uint n + 1) = F"
  shows "runs (edge_search n setting test bits x e) (\<lambda>r t. J t \<and> r = F) s"
proof -
  let ?I = "\<lambda>y t. J t \<and> fst y \<le> n + 1 \<and> (\<forall>i. bit (fst (snd y)) i \<longleftrightarrow> i < 8 \<and> S (uint (fst y)) i) \<and> snd (snd y) = E (uint (fst y))"
  let ?Out = "\<lambda>y t. J t \<and> snd (snd y) = F"
  let ?body = "\<lambda>(d, sticky_bit_chk, e). seq_io (setting d) (seq_io (IOWR_32DIRECT SCC_MGR_UPD 0 0)
    (bind_io test (\<lambda>(stop, bit_chk). bind_io (get_io (\<lambda>s. read_correct_mask (param s))) (\<lambda>all_bits.
      let sticky_bit_chk = sticky_bit_chk OR bit_chk in
      if stop \<and> sticky_bit_chk = all_bits then ret (True, (d, sticky_bit_chk, e))
      else ret (False, (d + 1, sticky_bit_chk, each_bit (bits (sint d)) RW_MGR_MEM_DQ_PER_READ_DQS bit_chk e))))))"
  have n31: "uint n \<le> 31" using n by (simp add: word_le_def)
  have next_d: "uint (d + 1) = uint d + 1 \<and> d + 1 \<le> n + 1 \<and> unat (n + 1 - (d + 1)) < unat (n + 1 - d)" if "d \<le> n" for d
  proof -
    have le: "unat d \<le> unat n" "unat n \<le> 31" using that n by (simp_all add: word_le_nat_alt)
    then have u: "unat (d + 1) = unat d + 1" "unat (n + 1) = unat n + 1" by (simp_all add: unat_word_ariths)
    have "unat (n + 1 - x) = unat (n + 1) - unat x" if "unat x \<le> unat (n + 1)" for x
      using that by (simp add: unat_sub word_le_nat_alt)
    moreover have "unat (n - d) = unat n - unat d" using le by (simp add: unat_sub word_le_nat_alt)
    ultimately show ?thesis using le u by (simp add: word_le_nat_alt uint_nat del: of_nat_unat)
  qed
  have all_bits: "bit (0xff :: u32) i \<longleftrightarrow> i < 8" for i
  proof -
    have "mask 8 = (0xff :: u32)" by (simp add: mask_eq_exp_minus_1)
    moreover have "bit (mask 8 :: u32) i \<longleftrightarrow> i < 8" by (auto simp: bit_simps)
    ultimately show ?thesis by simp
  qed
  have body: "runs (?body y) (\<lambda>r t. if fst r then ?Out (snd r) t
      else ?I (snd r) t \<and> unat (n + 1 - fst (snd r)) < unat (n + 1 - fst y)) t" if I: "?I y t" and y: "fst y \<le> n" for y t
  proof -
    obtain d x e where yd: "y = (d, x, e)" by (cases y)
    have d: "d \<le> n" "uint d \<le> 31" "sint d = uint d" using y yd n n31 by (auto simp: word_le_def intro: sint_taps)
    have "runs (seq_io (setting d) (seq_io (IOWR_32DIRECT SCC_MGR_UPD 0 0) test)) (\<lambda>r. runs (case r of (stop, bit_chk) \<Rightarrow>
      bind_io (get_io (\<lambda>s. read_correct_mask (param s))) (\<lambda>all_bits.
      let sticky_bit_chk = x OR bit_chk in
      if stop \<and> sticky_bit_chk = all_bits then ret (True, (d, sticky_bit_chk, e))
      else ret (False, (d + 1, sticky_bit_chk, each_bit (bits (sint d)) RW_MGR_MEM_DQ_PER_READ_DQS bit_chk e))))
      (\<lambda>r t. if fst r then ?Out (snd r) t else ?I (snd r) t \<and> unat (n + 1 - fst (snd r)) < unat (n + 1 - fst y))) t"
    proof (rule runs_mono [OF tested])
      show "J t" using I by simp
      show "d \<le> n" by (rule d)
      fix r :: "bool \<times> u32" and u :: mach assume r: "(case r of (stop, w) \<Rightarrow> \<lambda>u. J u \<and> (\<forall>i. bit w i \<longleftrightarrow> i < 8 \<and> P (uint d) i) \<and> stop = (w = 0)) u"
      obtain stop w where rw: "r = (stop, w)" by (cases r)
      have w: "J u" "\<And>i. bit w i \<longleftrightarrow> i < 8 \<and> P (uint d) i" "stop = (w = 0)" using r rw by auto
      have x: "\<And>i. bit x i \<longleftrightarrow> i < 8 \<and> S (uint d) i" and e: "e = E (uint d)" using I yd by auto
      have or: "bit (x OR w) i \<longleftrightarrow> i < 8 \<and> S (uint d + 1) i" for i
        using x w(2) sticky [of "uint d" i] by (auto simp: bit_or_iff)
      have F: "E (uint d) = F" if "w = 0" "x OR w = 0xff"
      proof (rule early)
        show "\<forall>i<8. S (uint d + 1) i \<and> \<not> P (uint d) i" using or w(2) that all_bits by (metis bit_0_eq bot_apply bot_bool_def)
      qed (use d in \<open>simp_all add: word_le_def\<close>)
      have next_e: "each_bit (bits (uint d)) 8 w e = E (uint d + 1)"
        unfolding e by (rule edges) (use d w(2) in auto)
      have "runs (if stop \<and> x OR w = 0xff then ret (True, (d, x OR w, e)) else ret (False, (d + 1, x OR w, E (uint d + 1))))
          (\<lambda>r t. if fst r then ?Out (snd r) t else ?I (snd r) t \<and> unat (n + 1 - fst (snd r)) < unat (n + 1 - fst y)) u"
      proof (cases "stop \<and> x OR w = 0xff")
        case True
        then have "w = 0" "x OR w = 0xff" using w(3) by auto
        then show ?thesis
          unfolding if_P [OF True] runs_ret fst_conv snd_conv if_True e using w(1) F by blast
      next
        case False
        show ?thesis
          unfolding if_not_P [OF False] runs_ret fst_conv snd_conv if_False yd using w(1) or next_d [OF d(1)] by simp
      qed
      then show "runs (case r of (stop, bit_chk) \<Rightarrow>
        bind_io (get_io (\<lambda>s. read_correct_mask (param s))) (\<lambda>all_bits.
        let sticky_bit_chk = x OR bit_chk in
        if stop \<and> sticky_bit_chk = all_bits then ret (True, (d, sticky_bit_chk, e))
        else ret (False, (d + 1, sticky_bit_chk, each_bit (bits (sint d)) RW_MGR_MEM_DQ_PER_READ_DQS bit_chk e))))
        (\<lambda>r t. if fst r then ?Out (snd r) t else ?I (snd r) t \<and> unat (n + 1 - fst (snd r)) < unat (n + 1 - fst y)) u"
        by (simp only: rw prod.case runs_bind runs_get mask [OF w(1)] Let_def d(3) RW_MGR_MEM_DQ_PER_READ_DQS_def next_e)
    qed
    then show ?thesis unfolding yd prod.case runs_seq runs_bind .
  qed
  show ?thesis
    unfolding edge_search_def runs_bind
  proof (rule runs_mono [OF runs_while [where I = ?I and Out = ?Out and m = "\<lambda>y. unat (n + 1 - fst y)"]])
    show "?I (0, x, e) s" using start by simp
  next
    fix y :: "u32 \<times> u32 \<times> edges" and t :: mach assume "?I y t" "case y of (d, _) \<Rightarrow> d \<le> n"
    then show "runs (?body y) (\<lambda>r t. if fst r then ?Out (snd r) t
      else ?I (snd r) t \<and> unat (n + 1 - fst (snd r)) < unat (n + 1 - fst y)) t"
      by (intro body) (auto split: prod.splits)
  next
    fix r :: "bool \<times> u32 \<times> u32 \<times> edges" and t :: mach assume "if fst r then ?Out (snd r) t else ?I (snd r) t \<and> \<not> (case snd r of (d, _) \<Rightarrow> d \<le> n)"
    moreover have "uint d = uint n + 1" if "d \<le> n + 1" "\<not> d \<le> n" for d
    proof -
      have "unat n \<le> 31" using n by (simp add: word_le_nat_alt)
      then have "unat (n + 1) = unat n + 1" by (simp add: unat_word_ariths)
      with that have "unat d = unat n + 1" by (simp add: word_le_nat_alt)
      then show ?thesis by (simp add: uint_nat del: of_nat_unat)
    qed
    ultimately show "runs (case r of (_, _, _, e) \<Rightarrow> ret e) (\<lambda>r t. J t \<and> r = F) t"
      using late by (auto simp: runs_ret split: prod.splits if_splits)
  qed
qed

section \<open>Both searches\<close>

definition edges_of :: "(int \<Rightarrow> int \<Rightarrow> int \<Rightarrow> int \<times> int) \<Rightarrow> (nat \<Rightarrow> int) \<Rightarrow> (nat \<Rightarrow> int) \<Rightarrow> int \<Rightarrow> edges" where
  "edges_of f a b d = (map (\<lambda>i. fst (f (a i) (b i) d)) [0..<8], map (\<lambda>i. snd (f (a i) (b i) d)) [0..<8])"

lemma edges_of_step:
  assumes "bitwise f g" and "\<And>i. i < 8 \<Longrightarrow> g (bit w i) (h (a i) (b i) d) = h (a i) (b i) (d + 1)"
  shows "each_bit f 8 w (edges_of h a b d) = edges_of h a b (d + 1)"
  unfolding edges_of_def each_bitwise [OF assms(1)] using assms(2) by simp

lemma in_none_32: "in_none = 32"
  by (simp add: in_none_def reg_defs)

lemma left_early: "0 \<le> b \<and> a < d + 1 \<and> 0 < d + 1 \<Longrightarrow> \<not> (a \<le> d \<and> d \<le> b) \<Longrightarrow> a \<le> b \<Longrightarrow> b \<le> 31 \<Longrightarrow> left_after a b d = left_after a b 32"
  by (auto simp: left_after_def)

lemma right_early:
  "0 \<le> b \<and> 0 < a \<or> 0 < d + 1 \<and> - b < d + 1 \<Longrightarrow> \<not> (- b \<le> d \<and> d \<le> - a) \<Longrightarrow> a \<le> b \<Longrightarrow> 0 \<le> d \<Longrightarrow> right_after a b d = (b, - a)"
  by (auto simp: right_after_def)

lemma right_late: "a \<le> b \<Longrightarrow> - a \<le> n \<Longrightarrow> right_after a b (n + 1) = (b, - a)"
  by (auto simp: right_after_def)

lemma left_sticky: "a \<le> b \<Longrightarrow> 0 \<le> d \<Longrightarrow>
    (0 \<le> b \<and> a < d + 1 \<and> 0 < d + 1) = ((0 \<le> b \<and> a < d \<and> 0 < d) \<or> (a \<le> d \<and> d \<le> b))" for a b d :: int
  by linarith

lemma right_sticky: "a \<le> b \<Longrightarrow> 0 \<le> d \<Longrightarrow>
    (0 \<le> b \<and> 0 < a \<or> 0 < d + 1 \<and> - b < d + 1) = ((0 \<le> b \<and> 0 < a \<or> 0 < d \<and> - b < d) \<or> (- b \<le> d \<and> d \<le> - a))" for a b d :: int
  by linarith

text \<open>Between the searches.\<close>

lemma bit_shl_1: "bit (shl x 1) i \<longleftrightarrow> 0 < i \<and> i < 32 \<and> bit x (i - 1)"
  by (simp only: shl_def bit_push_bit_iff) auto

lemma reset_right_bits:
  assumes "n \<le> 32" and "\<And>i. R' i = (if L i = none \<and> R i \<noteq> none then none else R i)"
  obtains x where "reset_right none seen n (map L [0..<n], map R [0..<n]) = (x, map L [0..<n], map R' [0..<n])"
    "\<And>i. bit x i \<longleftrightarrow> i < n \<and> seen (L i) (R' i)"
proof -
  let ?f = "\<lambda>i (sticky_bit_chk :: u32, left_edge, right_edge).
     let right_edge = (if left_edge ! i = none \<and> right_edge ! i \<noteq> none then right_edge[i := none] else right_edge);
         sticky_bit_chk = shl sticky_bit_chk 1 in
     (if seen (left_edge ! i) (right_edge ! i) then sticky_bit_chk OR 1 else sticky_bit_chk, left_edge, right_edge)"
  have "\<exists>x. fold ?f (rev [k..<n]) (0, map L [0..<n], map R [0..<n]) =
      (x, map L [0..<n], map (\<lambda>i. if k \<le> i then R' i else R i) [0..<n]) \<and> (\<forall>i. bit x i \<longleftrightarrow> i + k < n \<and> seen (L (i + k)) (R' (i + k)))"
    if "k \<le> n" for k
    using that
  proof (induction rule: inc_induct)
    case base
    show ?case by (simp cong: map_cong)
  next
    case (step k)
    then obtain x where x: "fold ?f (rev [Suc k..<n]) (0, map L [0..<n], map R [0..<n]) =
      (x, map L [0..<n], map (\<lambda>i. if Suc k \<le> i then R' i else R i) [0..<n])"
      "\<And>i. bit x i \<longleftrightarrow> i + Suc k < n \<and> seen (L (i + Suc k)) (R' (i + Suc k))" by blast
    let ?x = "if seen (L k) (R' k) then shl x 1 OR 1 else shl x 1"
    have "fold ?f (rev [k..<n]) (0, map L [0..<n], map R [0..<n]) = ?f k (x, map L [0..<n], map (\<lambda>i. if Suc k \<le> i then R' i else R i) [0..<n])"
      using step.hyps x(1) by (simp add: upt_conv_Cons)
    also have "\<dots> = (?x, map L [0..<n], map (\<lambda>i. if k \<le> i then R' i else R i) [0..<n])"
      using step.hyps assms(2) [of k] by (auto simp: list_eq_iff_nth_eq nth_list_update Let_def) (metis le_antisym not_less_eq_eq)+
    finally have "fold ?f (rev [k..<n]) (0, map L [0..<n], map R [0..<n]) = \<dots>" .
    moreover have "bit ?x i \<longleftrightarrow> i + k < n \<and> seen (L (i + k)) (R' (i + k))" for i
      using x(2) [of "i - 1"] step.hyps assms(1) by (cases i) (auto simp: bit_shl_1 bit_or_iff bit_1_iff)
    ultimately show ?case by blast
  qed
  from this [of 0] that show thesis by (auto simp: reset_right_def)
qed

section \<open>The centre\<close>

lemma least_middle_least:
  assumes "0 < n"
  obtains k where "least_middle n (l, r) = (l ! k - r ! k, k)" "k < n" "\<And>i. i < n \<Longrightarrow> l ! k - r ! k \<le> l ! i - r ! i"
proof -
  let ?f = "\<lambda>i (mid_min, min_index). let mid = l ! i - r ! i in if mid < mid_min then (mid, i) else (mid_min, min_index)"
  have "\<exists>k \<le> m. fold ?f [1..<Suc m] (l ! 0 - r ! 0, 0) = (l ! k - r ! k, k) \<and> (\<forall>i \<le> m. l ! k - r ! k \<le> l ! i - r ! i)" for m
  proof (induction m)
    case (Suc m)
    then obtain k where k: "k \<le> m" "fold ?f [1..<Suc m] (l ! 0 - r ! 0, 0) = (l ! k - r ! k, k)" "\<forall>i \<le> m. l ! k - r ! k \<le> l ! i - r ! i"
      by blast
    show ?case
    proof (cases "l ! Suc m - r ! Suc m < l ! k - r ! k")
      case True
      then show ?thesis using k by (intro exI [of _ "Suc m"]) (force simp: Let_def le_Suc_eq)
    next
      case False
      then show ?thesis using k by (intro exI [of _ k]) (force simp: Let_def le_Suc_eq)
    qed
  qed simp
  from this [of "n - 1"] obtain k where k: "k \<le> n - 1" "fold ?f [1..<Suc (n - 1)] (l ! 0 - r ! 0, 0) = (l ! k - r ! k, k)"
    "\<forall>i \<le> n - 1. l ! k - r ! k \<le> l ! i - r ! i" by blast
  show thesis
    by (rule that [of k]) (use k assms in \<open>auto simp: least_middle_def\<close>)
qed

lemma half_middle_floor: "half_middle (2 * st - c) = st - c div 2"
  by (simp add: half_middle_def signed_divide_int_def sgn_if) presburger

lemma sdiv_2: "0 \<le> x \<Longrightarrow> x sdiv 2 = x div (2 :: int)"
  by (cases "x = 0") (simp_all add: signed_divide_int_def)

lemma centred:
  assumes "lo + hi \<le> c"
  shows "\<bar>2 * (c div 2 - (c - (lo + hi)) div 2) - lo - hi\<bar> \<le> (1 :: int)"
  using assms by presburger

lemma uint_of_int_taps: "0 \<le> k \<Longrightarrow> k \<le> 31 \<Longrightarrow> uint (of_int k :: u32) = k"
  by (simp only: uint_word_of_int) (simp add: take_bit_int_eq_self)

end
