(* ===== verification/ReadEyes.thy ===== *)
theory ReadEyes imports EyeSearch begin

text \<open>
  What the read deskew is for: on hardware on which a bit reads right exactly while the strobe
  falls into the eye of its pin, \<open>vfifo_center\<close> puts every pin into the centre of its eye.
\<close>

section \<open>The hardware\<close>

abbreviation dq_reg :: "nat \<Rightarrow> u32" where
  "dq_reg i \<equiv> apb SCC_MGR_IO_IN_DELAY (shl (of_nat i) 2)"

abbreviation dqs_reg :: "nat \<Rightarrow> u32" where
  "dqs_reg g \<equiv> apb SCC_MGR_DQS_IN_DELAY (shl (of_nat g) 2)"

lemma delay_regs:
  "i < 16 \<Longrightarrow> unat (dq_reg i) = 0xffc20900 + 4 * i" "i < 16 \<Longrightarrow> unat (dqs_reg i) = 0xffc20100 + 4 * i"
  by (rule below_16 [of i], assumption; simp add: chain_simps)+

lemma delay_regs_distinct [simp]:
  assumes "i < 16" "j < 16"
  shows "dq_reg i = dq_reg j \<longleftrightarrow> i = j" "dq_reg i \<noteq> dqs_reg j" "dqs_reg j \<noteq> dq_reg i"
  using assms by (simp_all add: word_unat_eq_iff delay_regs)

text \<open>The accesses that had been made when the settings were last taken over.\<close>

fun latched :: "event list \<Rightarrow> event list" where
  "latched [] = []"
| "latched (Wr a v # h) = (if a = apb SCC_MGR_UPD 0 then h else latched h)"
| "latched (Rd a v # h) = latched h"
| "latched (Msg f xs # h) = latched h"

text \<open>Where the strobe of group \<open>g\<close> samples pin \<open>i\<close>, with the settings of a history.\<close>

definition sampled_at :: "(event list \<Rightarrow> u32 \<Rightarrow> u32) \<Rightarrow> nat \<Rightarrow> event list \<Rightarrow> nat \<Rightarrow> int" where
  "sampled_at hw g h i = uint (hw h (dqs_reg g)) - uint (hw h (dq_reg i))"

text \<open>The masks of the read test as \<open>initialize\<close> sets them, for the one rank there is.\<close>

definition masked :: "param_t \<Rightarrow> bool" where
  "masked p \<longleftrightarrow> read_correct_mask p = 0xff \<and> read_correct_mask_vg p = 0xff \<and> skip_ranks p 0 = 0"

text \<open>
  Delay registers keep what is written to them, and take effect with the next update. Pin \<open>i\<close> of
  group \<open>g\<close> reads right while it is sampled from \<open>lo i\<close> to \<open>hi i\<close>; the register of the test
  shows the bits that were wrong.
\<close>

locale read_eyes = rw_registers hw "{a. chain_max a = 31}" for hw :: "event list \<Rightarrow> u32 \<Rightarrow> u32" +
  fixes g :: nat and lo hi :: "nat \<Rightarrow> int"
  assumes group: "g < 4"
    and eyes: "i < 8 \<Longrightarrow> bit (hw h (apb BASE_RW_MGR 0)) i \<longleftrightarrow>
      \<not> (lo i \<le> sampled_at hw g (latched h) i \<and> sampled_at hw g (latched h) i \<le> hi i)"
begin

definition holds :: "mach \<Rightarrow> u32 \<Rightarrow> (nat \<Rightarrow> u32) \<Rightarrow> bool" where
  "holds s q p \<longleftrightarrow> env s = hw \<and> hw (trace s) (dqs_reg g) = q \<and> (\<forall>i<8. hw (trace s) (dq_reg i) = p i)"

definition latest :: "mach \<Rightarrow> u32 \<Rightarrow> (nat \<Rightarrow> u32) \<Rightarrow> bool" where
  "latest s q p \<longleftrightarrow> hw (latched (trace s)) (dqs_reg g) = q \<and> (\<forall>i<8. hw (latched (trace s)) (dq_reg i) = p i)"

lemma hw_other: "chain_max b = 31 \<Longrightarrow> chain_max a \<noteq> 31 \<Longrightarrow> hw (Wr a v # h) b = hw h b"
  by (rule read_frame) auto

lemma chains_of_group [simp]: "chain_max (dqs_reg g) = 31" "i < 8 \<Longrightarrow> chain_max (dq_reg i) = 31"
  using group by simp_all

text \<open>Most accesses change neither the settings nor what is taken over.\<close>

lemma neutral [simp]:
  "chain_max a \<noteq> 31 \<Longrightarrow> holds (s\<lparr>trace := Wr a v # h\<rparr>) q p \<longleftrightarrow> holds (s\<lparr>trace := h\<rparr>) q p"
  "holds (s\<lparr>trace := Rd b v # h\<rparr>) q p \<longleftrightarrow> holds (s\<lparr>trace := h\<rparr>) q p"
  "a \<noteq> apb SCC_MGR_UPD 0 \<Longrightarrow> latest (s\<lparr>trace := Wr a v # h\<rparr>) q p \<longleftrightarrow> latest (s\<lparr>trace := h\<rparr>) q p"
  "latest (s\<lparr>trace := Rd b v # h\<rparr>) q p \<longleftrightarrow> latest (s\<lparr>trace := h\<rparr>) q p"
  by (simp_all add: holds_def latest_def hw_other hw_Rd cong: conj_cong)

lemma update [simp]: "latest (s\<lparr>trace := Wr (apb SCC_MGR_UPD 0) v # h\<rparr>) q p \<longleftrightarrow>
    hw h (dqs_reg g) = q \<and> (\<forall>i<8. hw h (dq_reg i) = p i)"
  by (simp add: latest_def)

lemma settings:
  "holds (s\<lparr>trace := h\<rparr>) q p \<Longrightarrow> holds (s\<lparr>trace := Wr (dqs_reg g) v # h\<rparr>) v p"
  "holds (s\<lparr>trace := h\<rparr>) q p \<Longrightarrow> i < 8 \<Longrightarrow> holds (s\<lparr>trace := Wr (dq_reg i) v # h\<rparr>) q (p(i := v))"
  using group by (auto simp: holds_def hw_Wr)

section \<open>The operations\<close>

lemma test_regs [simp]:
  "apb RW_MGR_SET_CS_AND_ODT_MASK 0 \<noteq> apb SCC_MGR_UPD 0" "apb RW_MGR_LOAD_CNTR_0 0 \<noteq> apb SCC_MGR_UPD 0"
  "apb RW_MGR_LOAD_CNTR_1 0 \<noteq> apb SCC_MGR_UPD 0" "apb RW_MGR_LOAD_CNTR_2 0 \<noteq> apb SCC_MGR_UPD 0"
  "apb RW_MGR_LOAD_CNTR_3 0 \<noteq> apb SCC_MGR_UPD 0" "apb RW_MGR_LOAD_JUMP_ADD_0 0 \<noteq> apb SCC_MGR_UPD 0"
  "apb RW_MGR_LOAD_JUMP_ADD_1 0 \<noteq> apb SCC_MGR_UPD 0" "apb RW_MGR_LOAD_JUMP_ADD_2 0 \<noteq> apb SCC_MGR_UPD 0"
  "apb RW_MGR_LOAD_JUMP_ADD_3 0 \<noteq> apb SCC_MGR_UPD 0" "apb PHY_MGR_CMD_FIFO_RESET 0 \<noteq> apb SCC_MGR_UPD 0"
  "apb RW_MGR_RESET_READ_DATAPATH 0 \<noteq> apb SCC_MGR_UPD 0" "apb SCC_MGR_DQS_ENA 0 \<noteq> apb SCC_MGR_UPD 0"
  "apb SCC_MGR_DQ_ENA 0 \<noteq> apb SCC_MGR_UPD 0" "n < 16 \<Longrightarrow> apb RW_MGR_RUN_SINGLE_GROUP (shl (of_nat n) 2) \<noteq> apb SCC_MGR_UPD 0"
  by (simp_all add: chain_simps) (rule below_16 [of n], assumption; simp add: chain_simps)

lemma same_trace [simp]: "s\<lparr>trace := trace s\<rparr> = (s :: mach)"
  by simp

lemma bits_of_mask: "bit (0xff AND NOT w :: u32) i \<longleftrightarrow> i < 8 \<and> \<not> bit w i"
proof -
  have "mask 8 = (0xff :: u32)" by (simp add: mask_eq_exp_minus_1)
  moreover have "bit (mask 8 AND NOT w) i \<longleftrightarrow> i < 8 \<and> \<not> bit w i" by (auto simp: bit_simps)
  ultimately show ?thesis by simp
qed

lemma runs_read_test:
  assumes "holds s q p" and "latest s q p" and "masked (param s)"
  shows "runs (rw_mgr_mem_calibrate_read_test 0 g NUM_READ_PB_TESTS PASS_ONE_BIT False False)
    (\<lambda>(ok, bits) t. holds t q p \<and> latest t q p \<and> param t = param s \<and> ok = (bits \<noteq> 0) \<and>
      (\<forall>i. bit bits i \<longleftrightarrow> i < 8 \<and> lo i \<le> uint q - uint (p i) \<and> uint q - uint (p i) \<le> hi i)) s"
proof -
  have env: "env s = hw" using assms(1) by (simp add: holds_def)
  have wrong: "bit (hw h (apb BASE_RW_MGR 0)) i \<longleftrightarrow> \<not> (lo i \<le> uint q - uint (p i) \<and> uint q - uint (p i) \<le> hi i)"
    if "latest (s\<lparr>trace := h\<rparr>) q p" "i < 8" for h i
    using that by (simp add: eyes latest_def sampled_at_def)
  show ?thesis
    using assms group
    by (simp add: rw_defs runs_rules rw_widths runs_IOWR masked_def NUM_RANKS_PER_SHADOW_REG_def IORD_32DIRECT_def runs_readl
      RW_MGR_MEM_NUMBER_OF_RANKS_def NUM_SHADOW_REGS_def RW_MGR_ODT_MODE_OFF_def RW_MGR_ODT_MODE_READ_WRITE_def PASS_ONE_BIT_def env
      shl_def [of 0] bits_of_mask wrong cong: conj_cong)
qed

text \<open>Settings and their taking over.\<close>

lemma runs_update:
  "holds s q p \<Longrightarrow> runs (IOWR_32DIRECT SCC_MGR_UPD 0 v) (\<lambda>_ t. holds t q p \<and> latest t q p \<and> param t = param s) s"
  by (simp add: runs_IOWR) (simp add: holds_def)

lemma runs_set_strobe:
  "holds s q p \<Longrightarrow> runs (seqs [scc_mgr_set_dqs_bus_in_delay g d, scc_mgr_load_dqs g]) (\<lambda>_ t. holds t d p \<and> param t = param s) s"
  by (simp add: scc_defs runs_rules runs_IOWR settings)

lemma runs_set_pin:
  "holds s q p \<Longrightarrow> i < 8 \<Longrightarrow> runs (seqs [scc_mgr_set_dq_in_delay g i d, scc_mgr_load_dq i]) (\<lambda>_ t. holds t q (p(i := d)) \<and> param t = param s) s"
  by (simp add: scc_defs runs_rules runs_IOWR settings)

lemma runs_for_io:
  assumes "I lo' s" and "lo' \<le> hi'" and "\<And>i t. lo' \<le> i \<Longrightarrow> i < hi' \<Longrightarrow> I i t \<Longrightarrow> runs (f i) (\<lambda>_. I (Suc i)) t"
  shows "runs (for_io lo' hi' f) (\<lambda>_. I hi') s"
  using assms
proof (induction lo' hi' f arbitrary: s rule: for_io.induct)
  case (1 lo' hi' f)
  show ?case
  proof (cases "lo' < hi'")
    case True
    have "runs (f lo') (\<lambda>_. runs (for_io (Suc lo') hi' f) (\<lambda>_. I hi')) s"
      by (rule runs_mono [OF 1(4)]) (use 1 True in auto)
    with True show ?thesis by (simp add: for_io.simps [of lo'] runs_seq)
  qed (use 1 in \<open>simp add: for_io.simps [of hi'] runs_ret\<close>)
qed

lemma runs_set_pins:
  assumes "holds s q p"
  shows "runs (scc_mgr_apply_group_dq_in_delay g 0 d) (\<lambda>_ t. holds t q (\<lambda>_. d) \<and> param t = param s) s"
proof -
  have "runs (for_io 0 8 (\<lambda>i. seqs [scc_mgr_set_dq_in_delay g i d, scc_mgr_load_dq i]))
      (\<lambda>_ t. holds t q (\<lambda>j. if j < 8 then d else p j) \<and> param t = param s) s"
  proof (rule runs_for_io [where I = "\<lambda>k t. holds t q (\<lambda>j. if j < k then d else p j) \<and> param t = param s"])
    fix i and t :: mach assume i: "i < 8" and t: "holds t q (\<lambda>j. if j < i then d else p j) \<and> param t = param s"
    show "runs (seqs [scc_mgr_set_dq_in_delay g i d, scc_mgr_load_dq i])
        (\<lambda>_ t. holds t q (\<lambda>j. if j < Suc i then d else p j) \<and> param t = param s) t"
      by (rule runs_mono [OF runs_set_pin [OF conjunct1 [OF t] i]]) (use t in \<open>auto simp: holds_def less_Suc_eq\<close>)
  qed (use assms in simp_all)
  then show ?thesis
    unfolding scc_mgr_apply_group_dq_in_delay_def RW_MGR_MEM_DQ_PER_READ_DQS_def add_0
    by (rule runs_mono) (simp add: holds_def)
qed

section \<open>The edges\<close>

lemma runs_centre_test:
  assumes "holds s q p" and "latest s q p" and "masked (param s)"
  shows "runs (centre_test True 0 g g) (\<lambda>(stop, w) t. holds t q p \<and> param t = param s \<and> stop = (w = 0) \<and>
      (\<forall>i. bit w i \<longleftrightarrow> i < 8 \<and> lo i \<le> uint q - uint (p i) \<and> uint q - uint (p i) \<le> hi i)) s"
  unfolding centre_test_def if_P [OF TrueI] runs_bind
  by (rule runs_mono [OF runs_read_test [OF assms]]) (simp add: runs_ret split: prod.splits)

lemma runs_tested:
  assumes "runs setting (\<lambda>_ t. holds t q p \<and> param t = param s) s" and "masked (param s)"
  shows "runs (seq_io setting (seq_io (IOWR_32DIRECT SCC_MGR_UPD 0 0) (centre_test True 0 g g)))
    (\<lambda>(stop, w) t. holds t q p \<and> param t = param s \<and> stop = (w = 0) \<and>
      (\<forall>i. bit w i \<longleftrightarrow> i < 8 \<and> lo i \<le> uint q - uint (p i) \<and> uint q - uint (p i) \<le> hi i)) s"
  unfolding runs_seq
proof (rule runs_mono [OF assms(1)])
  fix x and t :: mach assume t: "holds t q p \<and> param t = param s"
  show "runs (IOWR_32DIRECT SCC_MGR_UPD 0 0) (\<lambda>_. runs (centre_test True 0 g g)
    (\<lambda>(stop, w) t. holds t q p \<and> param t = param s \<and> stop = (w = 0) \<and>
      (\<forall>i. bit w i \<longleftrightarrow> i < 8 \<and> lo i \<le> uint q - uint (p i) \<and> uint q - uint (p i) \<le> hi i))) t"
  proof (rule runs_mono [OF runs_update [OF conjunct1 [OF t]]])
    fix y and u :: mach assume u: "holds u q p \<and> latest u q p \<and> param u = param t"
    show "runs (centre_test True 0 g g) (\<lambda>(stop, w) t. holds t q p \<and> param t = param s \<and> stop = (w = 0) \<and>
      (\<forall>i. bit w i \<longleftrightarrow> i < 8 \<and> lo i \<le> uint q - uint (p i) \<and> uint q - uint (p i) \<le> hi i)) u"
      using runs_centre_test [of u q p] u t assms(2) by simp
  qed
qed

lemma runs_left_search:
  assumes s: "holds s q p" "masked (param s)"
    and ok: "\<And>i. i < 8 \<Longrightarrow> uint q - 31 \<le> lo i \<and> lo i \<le> hi i"
  shows "runs (edge_search IO_IO_IN_DELAY_MAX (scc_mgr_apply_group_dq_in_delay g 0) (centre_test True 0 g g)
      (left_bit in_none) 0 (no_edges in_none RW_MGR_MEM_DQ_PER_READ_DQS))
    (\<lambda>e t. ((\<exists>p. holds t q p) \<and> param t = param s) \<and>
      e = edges_of left_after (\<lambda>i. uint q - hi i) (\<lambda>i. uint q - lo i) 32) s"
proof (rule runs_edge_search [where P = "\<lambda>d i. uint q - hi i \<le> d \<and> d \<le> uint q - lo i" and
    S = "\<lambda>d i. 0 \<le> uint q - lo i \<and> uint q - hi i < d \<and> 0 < d" and
    E = "edges_of left_after (\<lambda>i. uint q - hi i) (\<lambda>i. uint q - lo i)"])
  fix d :: u32 and t :: mach assume t: "(\<exists>p. holds t q p) \<and> param t = param s"
  then obtain p where p: "holds t q p" by blast
  have "runs (scc_mgr_apply_group_dq_in_delay g 0 d) (\<lambda>_ u. holds u q (\<lambda>_. d) \<and> param u = param t) t"
    by (rule runs_set_pins [OF p])
  from runs_tested [OF this]
  have "runs (seq_io (scc_mgr_apply_group_dq_in_delay g 0 d) (seq_io (IOWR_32DIRECT SCC_MGR_UPD 0 0) (centre_test True 0 g g)))
      (\<lambda>(stop, w) u. holds u q (\<lambda>_. d) \<and> param u = param t \<and> stop = (w = 0) \<and>
        (\<forall>i. bit w i \<longleftrightarrow> i < 8 \<and> lo i \<le> uint q - uint d \<and> uint q - uint d \<le> hi i)) t"
    using t s by simp
  moreover have "lo i \<le> uint q - uint d \<and> uint q - uint d \<le> hi i \<longleftrightarrow> uint q - hi i \<le> uint d \<and> uint d \<le> uint q - lo i" for i
    by linarith
  ultimately show "runs (seq_io (scc_mgr_apply_group_dq_in_delay g 0 d) (seq_io (IOWR_32DIRECT SCC_MGR_UPD 0 0) (centre_test True 0 g g)))
      (\<lambda>(stop, w) u. ((\<exists>p. holds u q p) \<and> param u = param s) \<and>
        (\<forall>i. bit w i \<longleftrightarrow> i < 8 \<and> uint q - hi i \<le> uint d \<and> uint d \<le> uint q - lo i) \<and> stop = (w = 0)) t"
    using t by (elim runs_mono) (simp split: prod.splits, blast)
next
  show "no_edges in_none RW_MGR_MEM_DQ_PER_READ_DQS = edges_of left_after (\<lambda>i. uint q - hi i) (\<lambda>i. uint q - lo i) 0"
    by (simp add: no_edges_def edges_of_def left_after_def in_none_32 RW_MGR_MEM_DQ_PER_READ_DQS_def map_replicate_const)
next
  fix d :: int and w :: u32 assume d: "0 \<le> d" "d \<le> 31" "\<forall>i<8. bit w i = (uint q - hi i \<le> d \<and> d \<le> uint q - lo i)"
  show "each_bit (left_bit in_none d) 8 w (edges_of left_after (\<lambda>i. uint q - hi i) (\<lambda>i. uint q - lo i) d) =
      edges_of left_after (\<lambda>i. uint q - hi i) (\<lambda>i. uint q - lo i) (d + 1)"
    by (rule edges_of_step [OF bitwise_left]) (simp add: d in_none_32 left_after_step ok)
next
  fix d :: int assume d: "\<forall>i<8. (0 \<le> uint q - lo i \<and> uint q - hi i < d + 1 \<and> 0 < d + 1) \<and> \<not> (uint q - hi i \<le> d \<and> d \<le> uint q - lo i)"
  have "left_after (uint q - hi i) (uint q - lo i) d = left_after (uint q - hi i) (uint q - lo i) 32" if "i < 8" for i
    by (rule left_early) (use d ok [OF that] that in auto)
  then show "edges_of left_after (\<lambda>i. uint q - hi i) (\<lambda>i. uint q - lo i) d = edges_of left_after (\<lambda>i. uint q - hi i) (\<lambda>i. uint q - lo i) 32"
    by (simp add: edges_of_def)
next
  fix d :: int and i :: nat assume "0 \<le> d" "i < 8"
  with ok [of i] show "(0 \<le> uint q - lo i \<and> uint q - hi i < d + 1 \<and> 0 < d + 1) =
      ((0 \<le> uint q - lo i \<and> uint q - hi i < d \<and> 0 < d) \<or> (uint q - hi i \<le> d \<and> d \<le> uint q - lo i))"
    by (intro left_sticky) auto
qed (use s in \<open>simp_all add: masked_def IO_IO_IN_DELAY_MAX_def, auto?\<close>)

lemma runs_right_search:
  assumes s: "holds s q (\<lambda>_. 0)" "masked (param s)" and st: "0 \<le> st" "st \<le> 31"
    and ok: "\<And>i. i < 8 \<Longrightarrow> lo i \<le> hi i \<and> hi i \<le> 31"
    and x: "\<And>i. bit x i \<longleftrightarrow> i < 8 \<and> 0 \<le> st - lo i \<and> 0 < st - hi i"
  shows "runs (edge_search (of_int (uint IO_DQS_IN_DELAY_MAX - st))
      (\<lambda>d. seqs [scc_mgr_set_dqs_bus_in_delay g (d + of_int st), scc_mgr_load_dqs g]) (centre_test True 0 g g)
      (right_bit in_none) x (edges_of right_after (\<lambda>i. st - hi i) (\<lambda>i. st - lo i) 0))
    (\<lambda>e t. ((\<exists>q. holds t q (\<lambda>_. 0)) \<and> param t = param s) \<and>
      e = (map (\<lambda>i. st - lo i) [0..<8], map (\<lambda>i. hi i - st) [0..<8])) s"
proof (rule runs_edge_search [where P = "\<lambda>d i. - (st - lo i) \<le> d \<and> d \<le> - (st - hi i)" and
    S = "\<lambda>d i. 0 \<le> st - lo i \<and> 0 < st - hi i \<or> 0 < d \<and> - (st - lo i) < d" and
    E = "edges_of right_after (\<lambda>i. st - hi i) (\<lambda>i. st - lo i)"])
  have top: "uint (of_int (31 - st) :: u32) = 31 - st"
    using st by (simp only: uint_word_of_int) (simp add: take_bit_int_eq_self)
  show "of_int (uint IO_DQS_IN_DELAY_MAX - st) \<le> (31 :: u32)"
    using of_int_taps [of "31 - st"] st by (simp add: IO_DQS_IN_DELAY_MAX_def)
  fix d :: u32 and t :: mach assume t: "(\<exists>q. holds t q (\<lambda>_. 0)) \<and> param t = param s" and d: "d \<le> of_int (uint IO_DQS_IN_DELAY_MAX - st)"
  then obtain q where q: "holds t q (\<lambda>_. 0)" by blast
  have "uint d + st \<le> 31" using d top by (simp add: IO_DQS_IN_DELAY_MAX_def word_le_def)
  moreover have "d + of_int st = of_int (uint d + st)" by simp
  ultimately have sum: "uint (d + of_int st) = uint d + st"
    using st by (simp only: uint_word_of_int) (simp add: take_bit_int_eq_self)
  have "runs (seqs [scc_mgr_set_dqs_bus_in_delay g (d + of_int st), scc_mgr_load_dqs g])
      (\<lambda>_ u. holds u (d + of_int st) (\<lambda>_. 0) \<and> param u = param t) t"
    by (rule runs_set_strobe [OF q])
  from runs_tested [OF this]
  have "runs (seq_io (seqs [scc_mgr_set_dqs_bus_in_delay g (d + of_int st), scc_mgr_load_dqs g])
        (seq_io (IOWR_32DIRECT SCC_MGR_UPD 0 0) (centre_test True 0 g g)))
      (\<lambda>(stop, w) u. holds u (d + of_int st) (\<lambda>_. 0) \<and> param u = param t \<and> stop = (w = 0) \<and>
        (\<forall>i. bit w i \<longleftrightarrow> i < 8 \<and> lo i \<le> uint d + st \<and> uint d + st \<le> hi i)) t"
    using t s by (simp add: sum)
  moreover have "lo i \<le> uint d + st \<and> uint d + st \<le> hi i \<longleftrightarrow> - (st - lo i) \<le> uint d \<and> uint d \<le> - (st - hi i)" for i
    by linarith
  ultimately show "runs (seq_io (seqs [scc_mgr_set_dqs_bus_in_delay g (d + of_int st), scc_mgr_load_dqs g])
        (seq_io (IOWR_32DIRECT SCC_MGR_UPD 0 0) (centre_test True 0 g g)))
      (\<lambda>(stop, w) u. ((\<exists>q. holds u q (\<lambda>_. 0)) \<and> param u = param s) \<and>
        (\<forall>i. bit w i \<longleftrightarrow> i < 8 \<and> - (st - lo i) \<le> uint d \<and> uint d \<le> - (st - hi i)) \<and> stop = (w = 0)) t"
    using t by (elim runs_mono) (simp split: prod.splits, blast)
next
  fix d :: int and w :: u32 assume d: "0 \<le> d" "d \<le> 31" "\<forall>i<8. bit w i = (- (st - lo i) \<le> d \<and> d \<le> - (st - hi i))"
  have "right_step 32 d (bit w i) (right_after (st - hi i) (st - lo i) d) = right_after (st - hi i) (st - lo i) (d + 1)" if "i < 8" for i
    using right_after_step [of "st - hi i" "st - lo i" d] d ok [OF that] that by simp
  then show "each_bit (right_bit in_none d) 8 w (edges_of right_after (\<lambda>i. st - hi i) (\<lambda>i. st - lo i) d) =
      edges_of right_after (\<lambda>i. st - hi i) (\<lambda>i. st - lo i) (d + 1)"
    unfolding in_none_32 by (rule edges_of_step [OF bitwise_right])
next
  fix d :: int assume d: "0 \<le> d" "\<forall>i<8. (0 \<le> st - lo i \<and> 0 < st - hi i \<or> 0 < d + 1 \<and> - (st - lo i) < d + 1) \<and>
    \<not> (- (st - lo i) \<le> d \<and> d \<le> - (st - hi i))"
  have "right_after (st - hi i) (st - lo i) d = (st - lo i, - (st - hi i))" if "i < 8" for i
  proof -
    have c: "(0 \<le> st - lo i \<and> 0 < st - hi i \<or> 0 < d + 1 \<and> - (st - lo i) < d + 1) \<and> \<not> (- (st - lo i) \<le> d \<and> d \<le> - (st - hi i))"
      using d(2) that by blast
    show ?thesis by (rule right_early [OF conjunct1 [OF c] conjunct2 [OF c] _ d(1)]) (use ok [OF that] in simp)
  qed
  then show "edges_of right_after (\<lambda>i. st - hi i) (\<lambda>i. st - lo i) d = (map (\<lambda>i. st - lo i) [0..<8], map (\<lambda>i. hi i - st) [0..<8])"
    by (simp add: edges_of_def)
next
  fix d :: int and i :: nat assume "0 \<le> d" "i < 8"
  with ok [of i] show "(0 \<le> st - lo i \<and> 0 < st - hi i \<or> 0 < d + 1 \<and> - (st - lo i) < d + 1) =
      ((0 \<le> st - lo i \<and> 0 < st - hi i \<or> 0 < d \<and> - (st - lo i) < d) \<or> (- (st - lo i) \<le> d \<and> d \<le> - (st - hi i)))"
    by (intro right_sticky) auto
next
  have top: "uint (of_int (31 - st) :: u32) = 31 - st"
    using st by (simp only: uint_word_of_int) (simp add: take_bit_int_eq_self)
  have "right_after (st - hi i) (st - lo i) (31 - st + 1) = (st - lo i, - (st - hi i))" if "i < 8" for i
    by (rule right_late) (use ok [OF that] in auto)
  moreover have max_31: "uint IO_DQS_IN_DELAY_MAX = 31" by (simp add: IO_DQS_IN_DELAY_MAX_def)
  ultimately show "edges_of right_after (\<lambda>i. st - hi i) (\<lambda>i. st - lo i) (uint (of_int (uint IO_DQS_IN_DELAY_MAX - st) :: u32) + 1) =
      (map (\<lambda>i. st - lo i) [0..<8], map (\<lambda>i. hi i - st) [0..<8])"
    unfolding max_31 top by (simp add: edges_of_def)
qed (use s x in \<open>auto simp: masked_def\<close>)

lemma runs_read_edges:
  assumes s: "holds s q p" "masked (param s)" and q: "uint q \<le> 31"
    and ok: "\<And>i. i < 8 \<Longrightarrow> uint q - 31 \<le> lo i \<and> lo i \<le> hi i \<and> hi i \<le> 31"
  shows "runs (read_edges True 0 g g 0 (uint q)) (\<lambda>e t. ((\<exists>q. holds t q (\<lambda>_. 0)) \<and> param t = param s) \<and>
      e = (map (\<lambda>i. uint q - lo i) [0..<8], map (\<lambda>i. hi i - uint q) [0..<8])) s"
proof -
  let ?a = "\<lambda>i. uint q - hi i" and ?b = "\<lambda>i. uint q - lo i"
  let ?seen = "\<lambda>l r. l \<noteq> in_none \<and> r \<noteq> in_none"
  let ?right = "\<lambda>x e. edge_search (of_int (uint IO_DQS_IN_DELAY_MAX - uint q))
      (\<lambda>d. seqs [scc_mgr_set_dqs_bus_in_delay g (d + of_int (uint q)), scc_mgr_load_dqs g]) (centre_test True 0 g g) (right_bit in_none) x e"
  let ?Q = "\<lambda>e t. ((\<exists>q. holds t q (\<lambda>_. 0)) \<and> param t = param s) \<and> e = (map ?b [0..<8], map (\<lambda>i. hi i - uint q) [0..<8])"
  obtain x where reset: "reset_right in_none ?seen 8 (edges_of left_after ?a ?b 32) = (x, edges_of right_after ?a ?b 0)"
    and x: "\<And>i. bit x i \<longleftrightarrow> i < 8 \<and> 0 \<le> ?b i \<and> 0 < ?a i"
  proof -
    define L R where "L = (\<lambda>i. fst (left_after (?a i) (?b i) 32))" and "R = (\<lambda>i. snd (left_after (?a i) (?b i) 32))"
    define R' where "R' = (\<lambda>i. if L i = in_none \<and> R i \<noteq> in_none then in_none else R i)"
    obtain x where x: "reset_right in_none ?seen 8 (map L [0..<8], map R [0..<8]) = (x, map L [0..<8], map R' [0..<8])"
      "\<And>i. bit x i \<longleftrightarrow> i < 8 \<and> ?seen (L i) (R' i)"
      by (rule reset_right_bits [of 8 R' L in_none R ?seen]) (auto simp: R'_def)
    have sides: "L i = fst (right_after (?a i) (?b i) 0)" "R' i = snd (right_after (?a i) (?b i) 0)"
      "?seen (L i) (R' i) \<longleftrightarrow> 0 \<le> ?b i \<and> 0 < ?a i" if "i < 8" for i
      using ok [OF that] by (auto simp: L_def R_def R'_def left_after_def right_after_def in_none_32)
    have "edges_of left_after ?a ?b 32 = (map L [0..<8], map R [0..<8])"
      "edges_of right_after ?a ?b 0 = (map L [0..<8], map R' [0..<8])"
      using sides(1,2) by (simp_all add: edges_of_def L_def R_def)
    moreover have "bit x i \<longleftrightarrow> i < 8 \<and> 0 \<le> ?b i \<and> 0 < ?a i" for i
      using x(2) sides(3) by blast
    ultimately show thesis using x(1) that [of x] by simp
  qed
  show ?thesis
    unfolding read_edges_def Let_def runs_bind
  proof (rule runs_mono [OF runs_left_search [OF s]], goal_cases)
    case (1 i)
    then show ?case using ok by blast
  next
    case (2 e t)
    then obtain p where p: "holds t q p" by blast
    show ?case
      unfolding runs_seq
    proof (rule runs_mono [OF runs_set_pins [OF p]])
      fix y and u :: mach assume u: "holds u q (\<lambda>_. 0) \<and> param u = param t"
      have "runs (?right x (edges_of right_after ?a ?b 0)) ?Q u"
        using runs_right_search [of u q "uint q" x] u 2 s ok q x by simp
      then show "runs (case reset_right in_none ?seen RW_MGR_MEM_DQ_PER_READ_DQS e of (x, e) \<Rightarrow> ?right x e) ?Q u"
        using 2 reset by (simp add: RW_MGR_MEM_DQ_PER_READ_DQS_def)
    qed
  qed
qed

section \<open>The centre\<close>

lemma runs_shift_exact:
  assumes s: "holds s q p" and i: "i < 8" "p i = 0" and sh: "0 \<le> sh" "sh \<le> 31"
  shows "runs (shift_dq_in g i i sh) (\<lambda>x t. x = sh \<and> holds t q (p(i := of_int sh)) \<and> param t = param s) s"
proof -
  have rd: "runs (READ_SCC_DQ_IN_DELAY i) (\<lambda>v t. v = 0 \<and> holds t q p \<and> param t = param s') s'" if "holds s' q p" for s'
    using that i by (simp add: READ_SCC_DQ_IN_DELAY_def IORD_32DIRECT_def runs_readl) (simp add: holds_def)
  have top: "\<not> sint IO_IO_IN_DELAY_MAX < sh + sint (0 :: u32)" "\<not> sh + sint (0 :: u32) < 0"
    using sh by (simp_all add: IO_IO_IN_DELAY_MAX_def)
  let ?last = "bind_io (READ_SCC_DQ_IN_DELAY i) (\<lambda>v5. seq_io (seqs [scc_mgr_set_dq_in_delay g i (v5 + of_int sh), scc_mgr_load_dq i]) (ret sh))"
  have last: "runs ?last (\<lambda>x t. x = sh \<and> holds t q (p(i := of_int sh)) \<and> param t = param s) t"
    if "holds t q p \<and> param t = param s" for t
    unfolding runs_bind
  proof (rule runs_mono [OF rd [OF conjunct1 [OF that]]])
    fix v :: u32 and u :: mach assume u: "v = 0 \<and> holds u q p \<and> param u = param t"
    then have "holds u q p" by blast
    from runs_set_pin [OF this i(1)]
    show "runs (seq_io (seqs [scc_mgr_set_dq_in_delay g i (v + of_int sh), scc_mgr_load_dq i]) (ret sh))
      (\<lambda>x t. x = sh \<and> holds t q (p(i := of_int sh)) \<and> param t = param s) u"
      unfolding runs_seq by (rule runs_mono) (use u that in \<open>simp add: runs_ret\<close>)
  qed
  show ?thesis
    unfolding shift_dq_in_def runs_bind
  proof (rule runs_mono [OF rd [OF s]])
    fix v1 :: u32 and t :: mach assume t: "v1 = 0 \<and> holds t q p \<and> param t = param s"
    then have t': "holds t q p" "v1 = 0" by auto
    show "runs (if sint IO_IO_IN_DELAY_MAX < sh + sint v1 then
         bind_io (READ_SCC_DQ_IN_DELAY i) (\<lambda>v2. ret (sint (IO_IO_IN_DELAY_MAX - v2)))
       else bind_io (READ_SCC_DQ_IN_DELAY i) (\<lambda>v3.
         if sh + sint v3 < 0 then bind_io (READ_SCC_DQ_IN_DELAY i) (\<lambda>v4. ret (- sint v4)) else ret sh))
      (\<lambda>x. runs (READ_SCC_DQ_IN_DELAY i) (\<lambda>v5. runs (seq_io (seqs [scc_mgr_set_dq_in_delay g i (v5 + of_int x), scc_mgr_load_dq i]) (ret x))
        (\<lambda>x t. x = sh \<and> holds t q (p(i := of_int sh)) \<and> param t = param s))) t"
      unfolding t'(2) if_not_P [OF top(1)] runs_bind
    proof (rule runs_mono [OF rd [OF t'(1)]])
      fix v3 :: u32 and u :: mach assume u: "v3 = 0 \<and> holds u q p \<and> param u = param t"
      then have v3: "v3 = 0" by blast
      have "runs ?last (\<lambda>x t. x = sh \<and> holds t q (p(i := of_int sh)) \<and> param t = param s) u"
        by (rule last) (use u t in simp)
      then show "runs (if sh + sint v3 < 0 then bind_io (READ_SCC_DQ_IN_DELAY i) (\<lambda>v4. ret (- sint v4)) else ret sh)
        (\<lambda>x. runs (READ_SCC_DQ_IN_DELAY i) (\<lambda>v5. runs (seq_io (seqs [scc_mgr_set_dq_in_delay g i (v5 + of_int x), scc_mgr_load_dq i]) (ret x))
          (\<lambda>x t. x = sh \<and> holds t q (p(i := of_int sh)) \<and> param t = param s))) u"
        unfolding v3 if_not_P [OF top(2)] runs_bind runs_ret .
    qed
  qed
qed

lemma runs_centre_read:
  assumes s: "holds s q (\<lambda>_. 0)" and ok: "\<And>i. i < 8 \<Longrightarrow> lo i \<le> hi i \<and> hi i \<le> 31 \<and> 0 \<le> lo i + hi i"
    and e: "e = (map (\<lambda>i. st - lo i) [0..<8], map (\<lambda>i. hi i - st) [0..<8])"
  shows "runs (centre_read g g 0 u st e) (\<lambda>b t. b \<and>
    (\<forall>i<8. let x = sampled_at hw g (latched (trace t)) i in lo i \<le> x \<and> x \<le> hi i \<and> \<bar>2 * x - lo i - hi i\<bar> \<le> 1)) s"
proof -
  let ?l = "map (\<lambda>i. st - lo i) [0..<8]" and ?r = "map (\<lambda>i. hi i - st) [0..<8]"
  obtain k where k: "least_middle 8 (?l, ?r) = (?l ! k - ?r ! k, k)" "k < 8" "\<And>i. i < 8 \<Longrightarrow> ?l ! k - ?r ! k \<le> ?l ! i - ?r ! i"
    by (rule least_middle_least [of 8 ?l ?r]) auto
  define c where "c = lo k + hi k"
  have middle: "least_middle 8 e = (2 * st - c, k)" using k(1,2) by (simp add: e c_def)
  have c: "lo i + hi i \<le> c" if "i < 8" for i using k(2) k(3) [OF that] that by (simp add: c_def)
  have c_range: "0 \<le> c" "c \<le> 62" using ok [OF k(2)] by (auto simp: c_def)
  have new: "clipped (uint IO_DQS_IN_DELAY_MAX) (st - half_middle (2 * st - c)) = c div 2"
    using c_range by (simp add: half_middle_floor clipped_def IO_DQS_IN_DELAY_MAX_def)
  define sh where "sh i = (c - (lo i + hi i)) div 2" for i
  have excess: "half_middle (2 * st - c) - (st - c div 2) = 0" by (simp add: half_middle_floor)
  have shift: "shift_of e k 0 i = sh i" if "i < 8" for i
  proof -
    have "st - lo i - (hi i - st) - (st - lo k - (hi k - st)) = c - (lo i + hi i)" by (simp add: c_def)
    then show ?thesis using c [OF that] that k(2) by (simp add: e shift_of_def sh_def sdiv_2)
  qed
  have sh: "0 \<le> sh i" "sh i \<le> 31" if "i < 8" for i
    using c [OF that] ok [OF that] c_range by (auto simp: sh_def)
  have inside: "lo i \<le> c div 2 - sh i" "c div 2 - sh i \<le> hi i" "\<bar>2 * (c div 2 - sh i) - lo i - hi i\<bar> \<le> 1" if "i < 8" for i
    using centred [OF c [OF that]] ok [OF that] by (auto simp: sh_def)
  have margin: "0 \<le> fst (margins e (st - c div 2) i (sh i) m) \<and> 0 \<le> snd (margins e (st - c div 2) i (sh i) m)"
    if "i < 8" "0 \<le> fst m \<and> 0 \<le> snd m" for i m
    using inside [OF that(1)] that by (auto simp: e margins_def Let_def split: prod.splits)
  let ?I = "\<lambda>done m t. holds t q (\<lambda>j. if j \<in> set done then of_int (sh j) else 0) \<and> 0 \<le> fst m \<and> 0 \<le> snd m"
  have pins: "runs (fold_io (\<lambda>i m. bind_io (shift_dq_in g i (0 + i) (shift_of e k 0 i))
      (\<lambda>shift_dq. ret (margins e (st - c div 2) i shift_dq m))) [0..<8] (in_none, in_none)) (?I [0..<8]) s"
  proof (rule runs_fold)
    show "?I [] (in_none, in_none) s" using s by (simp add: in_none_32)
  next
    fix "done" i rest and m :: "int \<times> int" and t :: mach
    assume split: "[0..<8] = done @ i # rest" and I: "?I done m t"
    have i: "i < 8" "i \<notin> set done"
    proof -
      have "i \<in> set [0..<8]" "distinct (done @ i # rest)" by (metis split in_set_conv_decomp, metis split distinct_upt)
      then show "i < 8" "i \<notin> set done" by auto
    qed
    let ?p = "\<lambda>j. if j \<in> set done then of_int (sh j) else (0 :: u32)"
    have "runs (shift_dq_in g i i (sh i)) (\<lambda>x u. x = sh i \<and> holds u q (?p(i := of_int (sh i))) \<and> param u = param t) t"
      by (rule runs_shift_exact) (use I i sh in auto)
    moreover have "?p(i := of_int (sh i)) = (\<lambda>j. if j \<in> set (done @ [i]) then of_int (sh j) else 0)" by auto
    ultimately show "runs (bind_io (shift_dq_in g i (0 + i) (shift_of e k 0 i)) (\<lambda>shift_dq. ret (margins e (st - c div 2) i shift_dq m)))
        (?I (done @ [i])) t"
      unfolding shift [OF i(1)] add_0 runs_bind
      by (elim runs_mono) (use margin [OF i(1)] I in \<open>simp add: runs_ret\<close>)
  qed
  let ?final = "\<lambda>m. case m of (dq_margin, dqs_margin) \<Rightarrow> seq_io (seqs [
        scc_mgr_set_dqs_bus_in_delay g (of_int (c div 2)),
        scc_mgr_load_dqs g,
        when_io u (modify_gbl (\<lambda>g. g\<lparr>fom_in := fom_in g + of_int ((dq_margin + dqs_margin) sdiv
          int (RW_MGR_MEM_IF_READ_DQS_WIDTH div RW_MGR_MEM_IF_WRITE_DQS_WIDTH))\<rparr>)),
        IOWR_32DIRECT SCC_MGR_UPD 0 0]) (ret (0 \<le> dq_margin \<and> 0 \<le> dqs_margin))"
  let ?Q = "\<lambda>b t. b \<and> (\<forall>i<8. let x = sampled_at hw g (latched (trace t)) i in lo i \<le> x \<and> x \<le> hi i \<and> \<bar>2 * x - lo i - hi i\<bar> \<le> 1)"
  have last: "runs (?final m) ?Q t" if I: "?I [0..<8] m t" for m t
  proof -
    let ?h = "Wr (apb SCC_MGR_DQS_ENA 0) (of_nat g) # Wr (dqs_reg g) (of_int (c div 2)) # trace t"
    have x: "sampled_at hw g ?h i = c div 2 - sh i" if "i < 8" for i
      using I that group sh [OF that] c_range by (simp add: sampled_at_def hw_other hw_Wr holds_def uint_of_int_taps)
    have "\<forall>i<8. let x = sampled_at hw g ?h i in lo i \<le> x \<and> x \<le> hi i \<and> \<bar>2 * x - lo i - hi i\<bar> \<le> 1"
      using inside by (simp add: x Let_def)
    then show ?thesis
      using I by (cases m) (simp add: scc_defs runs_rules runs_IOWR modify_gbl_def runs_modify)
  qed
  show ?thesis
    unfolding centre_read_def RW_MGR_MEM_DQ_PER_READ_DQS_def middle prod.case Let_def new excess runs_bind [of "fold_io _ _ _"]
    by (rule runs_mono [OF pins]) (rule last [unfolded Let_def])
qed

theorem runs_vfifo_center:
  assumes env: "env s = hw" and "masked (param s)" and q: "uint (hw (trace s) (dqs_reg g)) = st" "st \<le> 31"
    and ok: "\<And>i. i < 8 \<Longrightarrow> st - 31 \<le> lo i \<and> lo i \<le> hi i \<and> hi i \<le> 31 \<and> 0 \<le> lo i + hi i"
  shows "runs (rw_mgr_mem_calibrate_vfifo_center 0 g g 0 True u) (\<lambda>b t. b \<and>
    (\<forall>i<8. let x = sampled_at hw g (latched (trace t)) i in lo i \<le> x \<and> x \<le> hi i \<and> \<bar>2 * x - lo i - hi i\<bar> \<le> 1)) s"
proof -
  let ?q = "hw (trace s) (dqs_reg g)" and ?s = "s\<lparr>trace := Rd (dqs_reg g) (hw (trace s) (dqs_reg g)) # trace s\<rparr>"
  have q': "sint ?q = st" using q by (simp add: sint_taps word_le_def)
  have s: "holds ?s ?q (\<lambda>i. hw (trace s) (dq_reg i))" "masked (param ?s)"
    using assms(1,2) by (simp_all add: holds_def hw_Rd)
  have none: "first_missing in_none 8 (map (\<lambda>i. st - lo i) [0..<8], map (\<lambda>i. hi i - st) [0..<8]) = None"
  proof -
    have "st - lo i \<noteq> 32 \<and> hi i - st \<noteq> 32" if "i < 8" for i
      using ok [OF that] q uint_ge_0 [of ?q] by auto
    then show ?thesis by (auto simp: first_missing_def find_None_iff in_none_32)
  qed
  have "runs (read_edges True 0 g g 0 st) (\<lambda>e t. ((\<exists>q. holds t q (\<lambda>_. 0)) \<and> param t = param ?s) \<and>
      e = (map (\<lambda>i. st - lo i) [0..<8], map (\<lambda>i. hi i - st) [0..<8])) ?s"
    using runs_read_edges [OF s] q ok by simp
  then show ?thesis
    unfolding rw_mgr_mem_calibrate_vfifo_center_def READ_SCC_DQS_IN_DELAY_def IORD_32DIRECT_def runs_bind runs_readl
      env q' Let_def [of "st"] RW_MGR_MEM_DQ_PER_READ_DQS_def
    by (elim runs_mono) (use ok in \<open>auto simp: none intro!: runs_centre_read\<close>)
qed

end

section \<open>A device with eyes\<close>

definition eye_device :: "nat \<Rightarrow> (nat \<Rightarrow> int) \<Rightarrow> (nat \<Rightarrow> int) \<Rightarrow> (u32 \<Rightarrow> u32) \<Rightarrow> event list \<Rightarrow> u32 \<Rightarrow> u32" where
  "eye_device g lo hi r0 h a = (if a = apb BASE_RW_MGR 0
     then horner_sum of_bool 2 (map (\<lambda>i. \<not> (lo i \<le> sampled_at (reg_val r0) g (latched h) i \<and> sampled_at (reg_val r0) g (latched h) i \<le> hi i)) [0..<8])
     else reg_val r0 h a)"

lemma eye_device_regs:
  "chain_max a = 31 \<Longrightarrow> eye_device g lo hi r0 h a = reg_val r0 h a"
  by (auto simp: eye_device_def chain_simps)

interpretation eye: read_eyes "eye_device (g mod 4) lo hi r0" "g mod 4" lo hi
proof unfold_locales
  show "a \<in> {a. chain_max a = 31} \<Longrightarrow> eye_device (g mod 4) lo hi r0 (Wr a v # h) a = v" for a v h
    by (simp add: eye_device_regs)
  show "a \<in> {a. chain_max a = 31} \<Longrightarrow> \<not> hits e a \<Longrightarrow> eye_device (g mod 4) lo hi r0 (e # h) a = eye_device (g mod 4) lo hi r0 h a" for a e h
    by (simp add: eye_device_regs) (rule storage.read_frame, auto)
  have "sampled_at (eye_device (g mod 4) lo hi r0) (g mod 4) h i = sampled_at (reg_val r0) (g mod 4) h i" if "i < 8" for h i
    using that by (simp add: sampled_at_def eye_device_regs)
  then show "bit (eye_device (g mod 4) lo hi r0 h (apb BASE_RW_MGR 0)) i \<longleftrightarrow>
    \<not> (lo i \<le> sampled_at (eye_device (g mod 4) lo hi r0) (g mod 4) (latched h) i \<and>
      sampled_at (eye_device (g mod 4) lo hi r0) (g mod 4) (latched h) i \<le> hi i)" if "i < 8" for h i
    using that by (simp add: eye_device_def [of _ _ _ _ _ "apb BASE_RW_MGR 0"] bit_horner_sum_bit_word_iff)
qed simp

text \<open>
  C5: On hardware on which every pin of a group reads right exactly while the strobe samples it
  within its eye, and whose eyes lie in the range of the delays, the read deskew succeeds
  and leaves every pin sampled within its eye, at the centre up to half a tap.
\<close>

theorem read_deskew_centres:
  assumes "read_eyes (env s) g lo hi" and "masked (param s)" and "uint (env s (trace s) (dqs_reg g)) \<le> 31"
    and "\<forall>i<8. uint (env s (trace s) (dqs_reg g)) - 31 \<le> lo i \<and> lo i \<le> hi i \<and> hi i \<le> 31 \<and> 0 \<le> lo i + hi i"
  shows "runs (rw_mgr_mem_calibrate_vfifo_center 0 g g 0 True u) (\<lambda>ok t. ok \<and>
    (\<forall>i<8. let x = sampled_at (env s) g (latched (trace t)) i in lo i \<le> x \<and> x \<le> hi i \<and> \<bar>2 * x - lo i - hi i\<bar> \<le> 1)) s"
  by (rule read_eyes.runs_vfifo_center [OF assms(1) refl assms(2) refl assms(3)]) (use assms(4) in blast)

text \<open>The witness has a strobe that starts at 7, and eight different eyes.\<close>

theorem read_deskew_centres_witness:
  "\<forall>s :: mach. let lo = (\<lambda>i. - 4 - int i); hi = (\<lambda>i. 9 + 2 * int i); hw = eye_device 2 lo hi (\<lambda>_. 7) in
     runs (rw_mgr_mem_calibrate_vfifo_center 0 2 2 0 True False) (\<lambda>ok t. ok \<and>
       (\<forall>i<8. let x = sampled_at hw 2 (latched (trace t)) i in lo i \<le> x \<and> x \<le> hi i \<and> \<bar>2 * x - lo i - hi i\<bar> \<le> 1))
     (s\<lparr>env := hw, trace := [], param := no_param\<lparr>read_correct_mask := 0xff, read_correct_mask_vg := 0xff\<rparr>\<rparr>)"
proof (intro allI)
  fix s :: mach
  let ?lo = "\<lambda>i. - 4 - int i" and ?hi = "\<lambda>i. 9 + 2 * int i"
  let ?hw = "eye_device 2 ?lo ?hi (\<lambda>_. 7)"
  let ?s = "s\<lparr>env := ?hw, trace := [], param := no_param\<lparr>read_correct_mask := 0xff, read_correct_mask_vg := 0xff\<rparr>\<rparr>"
  have eye: "read_eyes (env ?s) 2 ?lo ?hi" using eye.read_eyes_axioms [of 2 ?lo ?hi "\<lambda>_. 7"] by simp
  have start: "env ?s (trace ?s) (dqs_reg 2) = 7" by (simp add: eye_device_def chain_simps)
  have masks: "masked (param ?s)" by (simp add: masked_def no_param_def)
  have "runs (rw_mgr_mem_calibrate_vfifo_center 0 2 2 0 True False) (\<lambda>ok t. ok \<and>
       (\<forall>i<8. let x = sampled_at (env ?s) 2 (latched (trace t)) i in ?lo i \<le> x \<and> x \<le> ?hi i \<and> \<bar>2 * x - ?lo i - ?hi i\<bar> \<le> 1)) ?s"
    by (rule read_deskew_centres [OF eye masks]) (simp_all only: start, auto)
  then show "let lo = ?lo; hi = ?hi; hw = eye_device 2 lo hi (\<lambda>_. 7) in
     runs (rw_mgr_mem_calibrate_vfifo_center 0 2 2 0 True False) (\<lambda>ok t. ok \<and>
       (\<forall>i<8. let x = sampled_at hw 2 (latched (trace t)) i in lo i \<le> x \<and> x \<le> hi i \<and> \<bar>2 * x - lo i - hi i\<bar> \<le> 1))
     (s\<lparr>env := hw, trace := [], param := no_param\<lparr>read_correct_mask := 0xff, read_correct_mask_vg := 0xff\<rparr>\<rparr>)"
    unfolding Let_def by simp
qed

end
