(* ===== verification/Arrays.thy ===== *)
theory Arrays imports Prelude "HOL-Library.Monad_Syntax" begin

text \<open>
  C arrays of fixed length as lists, with checked accesses: code that reads or writes
  outside its array has no result (\<open>None\<close>), since C leaves its effect undefined.
\<close>

definition aget :: "'a list \<Rightarrow> nat \<Rightarrow> 'a option" where
  "aget xs i = (if i < length xs then Some (xs ! i) else None)"

definition aput :: "'a list \<Rightarrow> nat \<Rightarrow> 'a \<Rightarrow> 'a list option" where
  "aput xs i x = (if i < length xs then Some (xs[i := x]) else None)"

lemma aget_in [simp]: "i < length xs \<Longrightarrow> aget xs i = Some (xs ! i)"
  by (simp add: aget_def)

lemma aput_in [simp]: "i < length xs \<Longrightarrow> aput xs i x = Some (xs[i := x])"
  by (simp add: aput_def)

lemma aget_Some_iff: "aget xs i = Some x \<longleftrightarrow> i < length xs \<and> x = xs ! i"
  by (auto simp: aget_def)

lemma aput_Some_iff: "aput xs i x = Some ys \<longleftrightarrow> i < length xs \<and> ys = xs[i := x]"
  by (auto simp: aput_def)

end
