(* ===== verification/MemSize.thy ===== *)
theory MemSize imports Loops Arrays begin

text \<open>
  The size of the memory: \<open>get_ram_size\<close> of \<open>common/memsize.c\<close> and \<open>dram_init\<close> of
  \<open>P/sdram.c\<close>. The probe writes to the powers of two from the top down and to the base, and finds
  by reading where the memory wraps around. Accesses through the volatile pointer are accesses
  of the machine; the array \<open>save\<close> is checked, with \<open>None\<close> for a word not written yet.
\<close>

section \<open>Operations\<close>

definition PHYS_SDRAM_1 :: u32 where
  "PHYS_SDRAM_1 = 0x00000000"

definition PHYS_SDRAM_1_SIZE :: u32 where
  "PHYS_SDRAM_1_SIZE = 0x40000000"

text \<open>\<open>save[i] = v\<close>, \<open>save[i]\<close>, and \<open>save[--i]\<close> with the new \<open>i\<close>\<close>

definition save_word :: "u32 option list \<Rightarrow> nat \<Rightarrow> u32 \<Rightarrow> u32 option list io" where
  "save_word save i v = (case aput save i (Some v) of None \<Rightarrow> fault_io | Some save \<Rightarrow> ret save)"

definition saved_at :: "u32 option list \<Rightarrow> nat \<Rightarrow> u32 io" where
  "saved_at save i = (case aget save i of Some (Some v) \<Rightarrow> ret v | _ \<Rightarrow> fault_io)"

definition saved_before :: "u32 option list \<Rightarrow> nat \<Rightarrow> (u32 \<times> nat) io" where
  "saved_before save i = (case i of 0 \<Rightarrow> fault_io | Suc j \<Rightarrow> bind_io (saved_at save j) (\<lambda>v. ret (v, j)))"

text \<open>From the top down: saving the old words and writing the marks.\<close>

definition probe_down :: "u32 \<Rightarrow> u32 \<Rightarrow> (nat \<times> u32 option list) io" where
  "probe_down base maxsize =
     bind_io (while_io (\<lambda>(cnt, i, save). 0 <s cnt)
       (\<lambda>(cnt, i, save). bind_io (readl (base + 4 * cnt)) (\<lambda>v. bind_io (save_word save i v) (\<lambda>save.
          seq_io (writel (NOT cnt) (base + 4 * cnt)) (ret (False, (signed_drop_bit 1 cnt, i + 1, save))))))
       (shr (maxsize div 4) 1, 0, replicate 32 None))
     (\<lambda>(_, _, i, save). ret (i, save))"

text \<open>Putting the old words back, from \<open>cnt\<close> up.\<close>

definition restore_up :: "u32 \<Rightarrow> u32 \<Rightarrow> u32 \<Rightarrow> nat \<Rightarrow> u32 option list \<Rightarrow> unit io" where
  "restore_up base maxsize cnt i save =
     bind_io (while_io (\<lambda>(cnt, i). cnt < maxsize div 4)
       (\<lambda>(cnt, i). bind_io (saved_before save i) (\<lambda>(v, i). seq_io (writel v (base + 4 * cnt)) (ret (False, (shl cnt 1, i)))))
       (cnt, i))
     (\<lambda>_. ret ())"

text \<open>The same with a look at the marks, up to the first that is gone.\<close>

definition check_up :: "u32 \<Rightarrow> u32 \<Rightarrow> nat \<Rightarrow> u32 option list \<Rightarrow> (bool \<times> u32 \<times> nat) io" where
  "check_up base maxsize i save = while_io (\<lambda>(cnt, i). cnt < maxsize div 4)
     (\<lambda>(cnt, i). bind_io (readl (base + 4 * cnt)) (\<lambda>val. bind_io (saved_before save i) (\<lambda>(v, i).
        seq_io (writel v (base + 4 * cnt))
          (ret (if val \<noteq> NOT cnt then (True, (cnt, i)) else (False, (shl cnt 1, i)))))))
     (1, i)"

definition get_ram_size :: "u32 \<Rightarrow> u32 \<Rightarrow> u32 io" where
  "get_ram_size base maxsize =
     bind_io (probe_down base maxsize) (\<lambda>(i, save).
     bind_io (readl base) (\<lambda>v. bind_io (save_word save i v) (\<lambda>save.
     seq_io (writel 0 base)
     (bind_io (readl base) (\<lambda>val.
      if val \<noteq> 0 then
        bind_io (saved_at save i) (\<lambda>v. seq_io (writel v base)
          (seq_io (restore_up base maxsize 1 i save) (ret 0)))
      else bind_io (check_up base maxsize i save) (\<lambda>(found, cnt, i).
        if found then seq_io (restore_up base maxsize (shl cnt 1) i save) (ret (cnt * 4))
        else ret maxsize))))))"

text \<open>The result and the new \<open>gd->ram_size\<close>\<close>

definition dram_init :: "(u32 \<times> u32) io" where
  "dram_init = bind_io (get_ram_size PHYS_SDRAM_1 PHYS_SDRAM_1_SIZE) (\<lambda>ram_size. ret (0, ram_size))"

section \<open>Memory that wraps around\<close>

lemma powers:
  assumes "p < 30"
  shows "unat (2 ^ p :: u32) = 2 ^ p" "0 <s (2 ^ p :: u32)" "signed_drop_bit 1 (2 ^ p :: u32) = (if p = 0 then 0 else 2 ^ (p - 1))"
proof -
  have "p \<in> set [0..<30]" using assms by simp
  then have "unat (2 ^ p :: u32) = 2 ^ p \<and> 0 <s (2 ^ p :: u32) \<and>
      signed_drop_bit 1 (2 ^ p :: u32) = (if p = 0 then 0 else 2 ^ (p - 1))"
    by (simp add: upt_rec) (elim disjE; simp add: word_sless_alt)
  then show "unat (2 ^ p :: u32) = 2 ^ p" "0 <s (2 ^ p :: u32)"
    "signed_drop_bit 1 (2 ^ p :: u32) = (if p = 0 then 0 else 2 ^ (p - 1))" by blast+
qed

lemma mark_nonzero:
  assumes "p < 30"
  shows "NOT (2 ^ p :: u32) \<noteq> 0"
proof -
  have "p \<in> set [0..<30]" using assms by simp
  then show ?thesis by (simp add: upt_rec) (elim disjE; simp)
qed

lemma word_ranges:
  assumes "p < 29"
  shows "(2 ^ (p + 2) :: u32) div 4 = 2 ^ p" "shr (2 ^ p) 1 = (if p = 0 then 0 else 2 ^ (p - 1))"
proof -
  have "p \<in> set [0..<29]" using assms by simp
  then have "(2 ^ (p + 2) :: u32) div 4 = 2 ^ p \<and> shr (2 ^ p) 1 = (if p = 0 then 0 else 2 ^ (p - 1))"
    by (simp add: upt_rec) (elim disjE; simp add: shr_def)
  then show "(2 ^ (p + 2) :: u32) div 4 = 2 ^ p" "shr (2 ^ p) 1 = (if p = 0 then 0 else 2 ^ (p - 1))" by blast+
qed

lemma shl_power: "shl (2 ^ p) 1 = 2 ^ Suc p"
  by (simp add: shl_def push_bit_eq_mult)

lemma traces:
  "env (t\<lparr>trace := h\<rparr>) = env t" "trace (t\<lparr>trace := h\<rparr>) = h" "t\<lparr>trace := h, trace := h'\<rparr> = (t :: mach)\<lparr>trace := h'\<rparr>"
  by simp_all

definition word_at :: "u32 \<Rightarrow> nat \<Rightarrow> u32" where
  "word_at base j = base + of_nat (4 * j)"

text \<open>
  Memory of \<open>2 ^ k\<close> words that repeats itself over a range of \<open>2 ^ m\<close> words.
\<close>

locale wrapping_ram =
  fixes hw :: "event list \<Rightarrow> u32 \<Rightarrow> u32" and base :: u32 and m k :: nat
  assumes sizes: "k \<le> m" "m \<le> 28"
    and stored: "i < 2 ^ m \<Longrightarrow> j < 2 ^ m \<Longrightarrow>
      hw (Wr (word_at base i) v # h) (word_at base j) = (if i mod 2 ^ k = j mod 2 ^ k then v else hw h (word_at base j))"
    and kept: "i < 2 ^ m \<Longrightarrow> j < 2 ^ m \<Longrightarrow> hw (Rd (word_at base i) v # h) (word_at base j) = hw h (word_at base j)"
    and repeated: "i < 2 ^ m \<Longrightarrow> hw h (word_at base i) = hw h (word_at base (i mod 2 ^ k))"
begin

definition content :: "event list \<Rightarrow> nat \<Rightarrow> u32" where
  "content h j = hw h (word_at base j)"

lemma content_simps:
  "i < 2 ^ m \<Longrightarrow> j < 2 ^ m \<Longrightarrow> content (Wr (word_at base i) v # h) j = (if i mod 2 ^ k = j mod 2 ^ k then v else content h j)"
  "i < 2 ^ m \<Longrightarrow> j < 2 ^ m \<Longrightarrow> content (Rd (word_at base i) v # h) j = content h j"
  by (simp_all add: content_def stored kept)

lemma at_power: "base + 4 * 2 ^ p = word_at base (2 ^ p)"
  by (simp add: word_at_def)

lemma power_mod: "(2 ^ p :: nat) mod 2 ^ k = (if p < k then 2 ^ p else 0)"
  by (simp add: mod_eq_0_iff_dvd le_imp_power_dvd)

lemma powers_below: "p < m \<Longrightarrow> (2 ^ p :: nat) < 2 ^ m" "(0 :: nat) < 2 ^ m"
  by simp_all

lemma index_less: "p \<le> m \<Longrightarrow> (2 ^ p :: u32) < 2 ^ m \<longleftrightarrow> p < m"
  using sizes powers(1) [of p] powers(1) [of m] by (simp add: word_less_nat_alt)

text \<open>The words after the marks from \<open>q\<close> up have been written, and what has been saved.\<close>

definition marked :: "(nat \<Rightarrow> u32) \<Rightarrow> nat \<Rightarrow> nat \<Rightarrow> u32" where
  "marked c q r = (if r = 0 then (if max q k < m then NOT (2 ^ max q k) else c 0)
     else if \<exists>p. q \<le> p \<and> p < k \<and> r = 2 ^ p then NOT (of_nat r) else c r)"

definition saves :: "(nat \<Rightarrow> u32) \<Rightarrow> nat \<Rightarrow> u32 option list \<Rightarrow> bool" where
  "saves c q save \<longleftrightarrow> length save = 32 \<and> (\<forall>p. q \<le> p \<longrightarrow> p < m \<longrightarrow> save ! (m - 1 - p) =
     Some (if p < k then c (2 ^ p) else if Suc p = m then c 0 else NOT (2 ^ Suc p)))"

lemma marked_step:
  assumes "p < m"
  shows "marked c p (j mod 2 ^ k) = (if 2 ^ p mod 2 ^ k = j mod 2 ^ k then NOT (2 ^ p) else marked c (Suc p) (j mod 2 ^ k))"
proof (cases "p < k")
  case True
  then show ?thesis
    using assms by (auto simp: marked_def power_mod max_def le_Suc_eq Suc_le_eq)
next
  case False
  then show ?thesis
    using assms by (auto simp: marked_def power_mod max_def)
qed

lemma marked_old: "p < m \<Longrightarrow> marked c (Suc p) (2 ^ p mod 2 ^ k) = (if p < k then c (2 ^ p) else if Suc p = m then c 0 else NOT (2 ^ Suc p))"
  by (auto simp: marked_def power_mod max_def)

section \<open>The loops\<close>

lemma runs_save_word: "i < length save \<Longrightarrow> runs (save_word save i v) Q s = Q (save[i := Some v]) s"
  by (simp add: save_word_def runs_ret)

lemma runs_saved_before:
  "i < length save \<Longrightarrow> save ! i = Some v \<Longrightarrow> runs (saved_before save (Suc i)) Q s = Q (v, i) s"
  by (simp add: saved_before_def saved_at_def runs_bind runs_ret)

text \<open>The invariant of the loop down: the marks from \<open>q\<close> up are there, and the next is that of \<open>q - 1\<close>.\<close>

definition probing :: "(nat \<Rightarrow> u32) \<Rightarrow> u32 \<times> nat \<times> u32 option list \<Rightarrow> mach \<Rightarrow> bool" where
  "probing c = (\<lambda>(cnt, i, save) t. \<exists>q\<le>m. cnt = (if q = 0 then 0 else 2 ^ (q - 1)) \<and> i = m - q \<and> saves c q save \<and>
     env t = hw \<and> (\<forall>j<2 ^ m. content (trace t) j = marked c q (j mod 2 ^ k)))"

lemma probing_starts:
  assumes "env s = hw" "c = content (trace s)"
  shows "probing c (shr (2 ^ (m + 2) div 4) 1, 0, replicate 32 None) s"
proof -
  have start: "shr (2 ^ (m + 2) div 4) 1 = (if m = 0 then 0 else 2 ^ (m - 1) :: u32)"
    using sizes word_ranges [of m] by simp
  have "c j = marked c m (j mod 2 ^ k)" if "j < 2 ^ m" for j
    using that repeated [of j "trace s"] sizes by (auto simp: assms(2) content_def marked_def)
  then show ?thesis
    unfolding start probing_def using assms by (auto simp: saves_def intro!: exI [of _ m])
qed

lemma saves_one_more:
  assumes "saves c (Suc p) save" "p < m"
  shows "saves c p (save[m - Suc p := Some (marked c (Suc p) (2 ^ p mod 2 ^ k))])"
  unfolding saves_def
proof (intro conjI allI impI)
  fix p' assume p': "p \<le> p'" "p' < m"
  let ?saved = "Some (if p' < k then c (2 ^ p') else if Suc p' = m then c 0 else NOT (2 ^ Suc p'))"
  show "save[m - Suc p := Some (marked c (Suc p) (2 ^ p mod 2 ^ k))] ! (m - 1 - p') = ?saved"
  proof (cases "p' = p")
    case True
    then show ?thesis using assms sizes by (simp add: marked_old saves_def)
  next
    case False
    then have "save ! (m - 1 - p') = ?saved"
      using assms p' by (auto simp: saves_def)
    moreover have "m - Suc p \<noteq> m - 1 - p'" using False p' assms by auto
    ultimately show ?thesis by simp
  qed
qed (use assms in \<open>simp add: saves_def\<close>)

lemma probing_step:
  assumes at: "probing c (cnt, i, save) t" and pos: "0 <s cnt"
  shows "runs (bind_io (readl (base + 4 * cnt)) (\<lambda>v. bind_io (save_word save i v) (\<lambda>save.
        seq_io (writel (NOT cnt) (base + 4 * cnt)) (ret (False, (signed_drop_bit 1 cnt, i + 1, save))))))
      (\<lambda>r t. if fst r then False else probing c (snd r) t \<and> unat (fst (snd r)) < unat (fst (cnt, i, save))) t"
proof -
  from at obtain q where q: "q \<le> m" "cnt = (if q = 0 then 0 else 2 ^ (q - 1))" "i = m - q" "saves c q save" "env t = hw"
    "\<forall>j<2 ^ m. content (trace t) j = marked c q (j mod 2 ^ k)" by (auto simp: probing_def)
  from pos q(2) obtain p where p: "q = Suc p" by (cases q) auto
  then have p_less: "p < m" "p < 30" and cnt: "cnt = 2 ^ p" and i: "i = m - Suc p" using q sizes by auto
  have less: "(2 :: nat) ^ p < 2 ^ m" using p_less by simp
  have half: "signed_drop_bit 1 cnt = (if p = 0 then 0 else 2 ^ (p - 1))"
    unfolding cnt by (rule powers(3) [OF p_less(2)])
  let ?v = "content (trace t) (2 ^ p)"
  let ?t = "t\<lparr>trace := Wr (word_at base (2 ^ p)) (NOT (2 ^ p)) # Rd (word_at base (2 ^ p)) ?v # trace t\<rparr>"
  have v: "?v = marked c (Suc p) (2 ^ p mod 2 ^ k)" using q(6) less p by simp
  have "\<forall>j<2 ^ m. content (trace ?t) j = marked c p (j mod 2 ^ k)"
    using q(6) less p by (simp add: content_simps marked_step [OF p_less(1)])
  moreover have "saves c p (save[i := Some ?v])"
    unfolding v i using saves_one_more q(4) p p_less(1) by blast
  moreover have "i + 1 = m - p" using i p_less by simp
  ultimately have "probing c (signed_drop_bit 1 cnt, i + 1, save[i := Some ?v]) ?t"
    using q(5) p_less(1) half unfolding probing_def prod.case by (intro exI [of _ p]) simp
  moreover have "unat (signed_drop_bit 1 cnt) < unat cnt"
    unfolding half unfolding cnt using p_less powers(1) [of p] powers(1) [of "p - 1"] by simp
  moreover have "i < length save" using q(4) i sizes by (auto simp: saves_def)
  ultimately show ?thesis
    unfolding cnt at_power
    by (simp only: runs_bind runs_readl runs_save_word runs_seq runs_writel runs_ret fst_conv snd_conv
      q(5) content_def [symmetric]) simp
qed

lemma probing_ends: "probing c (cnt, i, save) t \<Longrightarrow> \<not> 0 <s cnt \<Longrightarrow>
    i = m \<and> saves c 0 save \<and> env t = hw \<and> (\<forall>j<2 ^ m. content (trace t) j = marked c 0 (j mod 2 ^ k))"
proof -
  assume at: "probing c (cnt, i, save) t" and stop: "\<not> 0 <s cnt"
  from at obtain q where q: "q \<le> m" "cnt = (if q = 0 then 0 else 2 ^ (q - 1))" "i = m - q" "saves c q save" "env t = hw"
    "\<forall>j<2 ^ m. content (trace t) j = marked c q (j mod 2 ^ k)" by (auto simp: probing_def)
  have "q = 0"
  proof (rule ccontr)
    assume "q \<noteq> 0"
    then have "0 <s cnt" using q(1,2) sizes powers(2) [of "q - 1"] by simp
    with stop show False by blast
  qed
  with q show ?thesis by simp
qed

lemma runs_probe_down:
  assumes "env s = hw" "c = content (trace s)"
  shows "runs (probe_down base (2 ^ (m + 2))) (\<lambda>(i, save) t. i = m \<and> saves c 0 save \<and> env t = hw \<and>
    (\<forall>j<2 ^ m. content (trace t) j = marked c 0 (j mod 2 ^ k))) s"
  unfolding probe_down_def runs_bind
proof (rule runs_mono [OF runs_while [where I = "probing c" and Out = "\<lambda>_ _. False" and m = "\<lambda>x. unat (fst x)"]])
  show "probing c (shr (2 ^ (m + 2) div 4) 1, 0, replicate 32 None) s" by (rule probing_starts [OF assms])
next
  fix x :: "u32 \<times> nat \<times> u32 option list" and t :: mach
  assume x: "probing c x t" "case x of (cnt, i, save) \<Rightarrow> 0 <s cnt"
  obtain cnt i save where c: "x = (cnt, i, save)" by (cases x)
  show "runs (case x of (cnt, i, save) \<Rightarrow> bind_io (readl (base + 4 * cnt)) (\<lambda>v. bind_io (save_word save i v) (\<lambda>save.
      seq_io (writel (NOT cnt) (base + 4 * cnt)) (ret (False, (signed_drop_bit 1 cnt, i + 1, save))))))
    (\<lambda>r t. if fst r then False else probing c (snd r) t \<and> unat (fst (snd r)) < unat (fst x)) t"
    using x unfolding c prod.case by (rule probing_step)
next
  fix r :: "bool \<times> u32 \<times> nat \<times> u32 option list" and t :: mach
  assume r: "if fst r then False else probing c (snd r) t \<and> \<not> (case snd r of (cnt, i, save) \<Rightarrow> 0 <s cnt)"
  obtain b cnt i save where c: "r = (b, cnt, i, save)" by (cases r)
  from r c have "probing c (cnt, i, save) t" "\<not> 0 <s cnt" by (auto split: if_splits)
  from probing_ends [OF this] show "runs (case r of (_, _, i, save) \<Rightarrow> ret (i, save)) (\<lambda>(i, save) t. i = m \<and> saves c 0 save \<and> env t = hw \<and>
      (\<forall>j<2 ^ m. content (trace t) j = marked c 0 (j mod 2 ^ k))) t"
    unfolding c prod.case runs_ret by simp
qed

text \<open>The way up below the size of the memory: the marks from \<open>p\<close> up are still there, and 0 at the base.\<close>

definition unmarked :: "(nat \<Rightarrow> u32) \<Rightarrow> nat \<Rightarrow> nat \<Rightarrow> u32" where
  "unmarked c p r = (if r = 0 then 0 else if \<exists>p'. p \<le> p' \<and> p' < k \<and> r = 2 ^ p' then NOT (of_nat r) else c r)"

definition looking :: "(nat \<Rightarrow> u32) \<Rightarrow> u32 \<times> nat \<Rightarrow> mach \<Rightarrow> bool" where
  "looking c = (\<lambda>(cnt, i) t. \<exists>p\<le>k. cnt = 2 ^ p \<and> i = m - p \<and> env t = hw \<and>
     (\<forall>j<2 ^ m. content (trace t) j = unmarked c p (j mod 2 ^ k)))"

text \<open>The way up above it: every write goes to the base.\<close>

definition base_word :: "(nat \<Rightarrow> u32) \<Rightarrow> nat \<Rightarrow> u32" where
  "base_word c p = (if p = m then c 0 else NOT (2 ^ p))"

definition restoring :: "(nat \<Rightarrow> u32) \<Rightarrow> u32 \<times> nat \<Rightarrow> mach \<Rightarrow> bool" where
  "restoring c = (\<lambda>(cnt, i) t. \<exists>p. k < p \<and> p \<le> m \<and> cnt = 2 ^ p \<and> i = m - p \<and> env t = hw \<and>
     (\<forall>j<2 ^ m. content (trace t) j = (if j mod 2 ^ k = 0 then base_word c p else c (j mod 2 ^ k))))"

lemma saved_word: "saves c 0 save \<Longrightarrow> p < m \<Longrightarrow> save ! (m - 1 - p) = Some (if p < k then c (2 ^ p) else base_word c (Suc p))"
  by (auto simp: saves_def base_word_def)

lemma runs_saved_word:
  assumes "saves c 0 save" "p < m"
  shows "runs (saved_before save (m - p)) Q s = Q (if p < k then c (2 ^ p) else base_word c (Suc p), m - Suc p) s"
proof -
  have "m - p = Suc (m - 1 - p)" "m - Suc p = m - 1 - p" using assms(2) by simp_all
  moreover have "m - 1 - p < length save" using assms sizes by (simp add: saves_def)
  ultimately show ?thesis
    using runs_saved_before [of "m - 1 - p" save] saved_word [OF assms] by (simp only:)
qed

lemma unmarked_step:
  assumes "p < k"
  shows "unmarked c (Suc p) r = (if r = 2 ^ p then c (2 ^ p) else unmarked c p r)"
  using assms by (auto simp: unmarked_def Suc_le_eq le_less)

lemma restoring_step:
  assumes at: "restoring c (cnt, i) t" and go: "cnt < 2 ^ m" and saved: "saves c 0 save"
  shows "runs (bind_io (saved_before save i) (\<lambda>(v, i). seq_io (writel v (base + 4 * cnt)) (ret (False, (shl cnt 1, i)))))
      (\<lambda>r t. if fst r then False else restoring c (snd r) t \<and> snd (snd r) < snd (cnt, i)) t"
proof -
  from at obtain p where p: "k < p" "p \<le> m" "cnt = 2 ^ p" "i = m - p" "env t = hw"
    "\<forall>j<2 ^ m. content (trace t) j = (if j mod 2 ^ k = 0 then base_word c p else c (j mod 2 ^ k))" by (auto simp: restoring_def)
  then have less: "p < m" using go index_less [of p] by simp
  then have inside: "(2 :: nat) ^ p < 2 ^ m" by simp
  let ?t = "t\<lparr>trace := Wr (word_at base (2 ^ p)) (base_word c (Suc p)) # trace t\<rparr>"
  have "\<forall>j<2 ^ m. content (trace ?t) j = (if j mod 2 ^ k = 0 then base_word c (Suc p) else c (j mod 2 ^ k))"
    using p(1,6) inside by (simp add: content_simps power_mod)
  then have "restoring c (shl cnt 1, m - Suc p) ?t"
    unfolding restoring_def prod.case p(3) shl_power using p(1,5) less by (intro exI [of _ "Suc p"]) simp
  then show ?thesis
    using p(1) less unfolding p(3,4) at_power
    by (simp add: runs_bind runs_saved_word [OF saved less] runs_seq runs_writel runs_ret)
qed

lemma runs_restore_up:
  assumes at: "restoring c (cnt, i) t" and saved: "saves c 0 save"
  shows "runs (restore_up base (2 ^ (m + 2)) cnt i save) (\<lambda>_ t. env t = hw \<and> (\<forall>j<2 ^ m. content (trace t) j = c (j mod 2 ^ k))) t"
  unfolding restore_up_def runs_bind word_ranges(1) [OF le_less_trans [OF sizes(2), of 29, simplified]]
proof (rule runs_mono [OF runs_while [where I = "restoring c" and Out = "\<lambda>_ _. False" and m = snd]])
  show "restoring c (cnt, i) t" by (rule at)
next
  fix x :: "u32 \<times> nat" and t :: mach
  assume x: "restoring c x t" "case x of (cnt, i) \<Rightarrow> cnt < 2 ^ m"
  obtain cnt i where c: "x = (cnt, i)" by (cases x)
  show "runs (case x of (cnt, i) \<Rightarrow> bind_io (saved_before save i) (\<lambda>(v, i). seq_io (writel v (base + 4 * cnt)) (ret (False, (shl cnt 1, i)))))
    (\<lambda>r t. if fst r then False else restoring c (snd r) t \<and> snd (snd r) < snd x) t"
    using x saved unfolding c prod.case by (rule restoring_step)
next
  fix r :: "bool \<times> u32 \<times> nat" and t :: mach
  assume r: "if fst r then False else restoring c (snd r) t \<and> \<not> (case snd r of (cnt, i) \<Rightarrow> cnt < 2 ^ m)"
  obtain b cnt i where c: "r = (b, cnt, i)" by (cases r)
  from r c have "restoring c (cnt, i) t" and stop: "\<not> cnt < 2 ^ m" by (simp_all split: if_splits)
  then obtain p where p: "k < p" "p \<le> m" "cnt = 2 ^ p" "env t = hw"
    "\<forall>j<2 ^ m. content (trace t) j = (if j mod 2 ^ k = 0 then base_word c p else c (j mod 2 ^ k))"
    by (auto simp: restoring_def)
  with stop have "p = m" using index_less [of p] by simp
  with p show "runs (ret ()) (\<lambda>_ t. env t = hw \<and> (\<forall>j<2 ^ m. content (trace t) j = c (j mod 2 ^ k))) t"
    by (simp add: runs_ret base_word_def)
qed

lemma looking_step:
  assumes at: "looking c (cnt, i) t" and go: "cnt < 2 ^ m" and saved: "saves c 0 save"
  shows "runs (bind_io (readl (base + 4 * cnt)) (\<lambda>val. bind_io (saved_before save i) (\<lambda>(v, i).
        seq_io (writel v (base + 4 * cnt))
          (ret (if val \<noteq> NOT cnt then (True, (cnt, i)) else (False, (shl cnt 1, i)))))))
      (\<lambda>r t. if fst r then fst (snd r) = 2 ^ k \<and> restoring c (shl (fst (snd r)) 1, snd (snd r)) t
        else looking c (snd r) t \<and> snd (snd r) < snd (cnt, i)) t"
proof -
  from at obtain p where p: "p \<le> k" "cnt = 2 ^ p" "i = m - p" "env t = hw"
    "\<forall>j<2 ^ m. content (trace t) j = unmarked c p (j mod 2 ^ k)" by (auto simp: looking_def)
  then have less: "p < m" using go index_less [of p] sizes by simp
  then have inside: "(2 :: nat) ^ p < 2 ^ m" by simp
  let ?val = "content (trace t) (2 ^ p)"
  let ?v = "if p < k then c (2 ^ p) else base_word c (Suc p)"
  let ?t = "t\<lparr>trace := Wr (word_at base (2 ^ p)) ?v # Rd (word_at base (2 ^ p)) ?val # trace t\<rparr>"
  have val: "?val = (if p < k then NOT (2 ^ p) else 0)"
    using p(5) inside by (auto simp: power_mod unmarked_def)
  have new: "content (trace ?t) j = (if 2 ^ p mod 2 ^ k = j mod 2 ^ k then ?v else unmarked c p (j mod 2 ^ k))" if "j < 2 ^ m" for j
    using p(5) inside that by (simp add: content_simps)
  have run: "runs (bind_io (readl (base + 4 * cnt)) (\<lambda>val. bind_io (saved_before save i) (\<lambda>(v, i).
        seq_io (writel v (base + 4 * cnt))
          (ret (if val \<noteq> NOT cnt then (True, (cnt, i)) else (False, (shl cnt 1, i))))))) Q t =
      Q (if ?val \<noteq> NOT (2 ^ p) then (True, (2 ^ p, m - Suc p)) else (False, (2 ^ Suc p, m - Suc p))) ?t" for Q
    unfolding p(2,3) at_power
    by (simp only: runs_bind runs_readl runs_saved_word [OF saved less] prod.case runs_seq runs_writel runs_ret shl_power
      p(4) content_def [symmetric]) simp
  show ?thesis
  proof (cases "p < k")
    case True
    have "\<forall>j<2 ^ m. content (trace ?t) j = unmarked c (Suc p) (j mod 2 ^ k)"
      using new True by (auto simp: power_mod unmarked_step)
    then have "looking c (2 ^ Suc p, m - Suc p) ?t"
      unfolding looking_def prod.case using True p(4) by (intro exI [of _ "Suc p"]) simp
    then show ?thesis
      unfolding run using val True p(3) less by simp
  next
    case False
    then have k: "p = k" using p(1) by simp
    have "\<forall>j<2 ^ m. content (trace ?t) j = (if j mod 2 ^ k = 0 then base_word c (Suc k) else c (j mod 2 ^ k))"
      using new by (auto simp: k power_mod unmarked_def)
    then have "restoring c (2 ^ Suc k, m - Suc k) ?t"
      unfolding restoring_def prod.case
      using p(4) less k by (intro exI [of _ "Suc k"]) simp
    moreover have "?val \<noteq> NOT (2 ^ p)"
      using val sizes mark_nonzero [of k] by (simp add: k)
    ultimately show ?thesis
      unfolding run using k by (simp add: shl_power [of k, simplified])
  qed
qed

lemma runs_check_up:
  assumes at: "looking c (1, m) t" and saved: "saves c 0 save"
  shows "runs (check_up base (2 ^ (m + 2)) m save) (\<lambda>r t. if fst r then fst (snd r) = 2 ^ k \<and> restoring c (shl (fst (snd r)) 1, snd (snd r)) t
    else k = m \<and> env t = hw \<and> (\<forall>j<2 ^ m. content (trace t) j = unmarked c k (j mod 2 ^ k))) t"
  unfolding check_up_def word_ranges(1) [OF le_less_trans [OF sizes(2), of 29, simplified]]
proof (rule runs_mono [OF runs_while [where I = "looking c" and m = snd
    and Out = "\<lambda>x t. fst x = 2 ^ k \<and> restoring c (shl (fst x) 1, snd x) t"]])
  show "looking c (1, m) t" by (rule at)
next
  fix x :: "u32 \<times> nat" and t :: mach
  assume x: "looking c x t" "case x of (cnt, i) \<Rightarrow> cnt < 2 ^ m"
  obtain cnt i where c: "x = (cnt, i)" by (cases x)
  show "runs (case x of (cnt, i) \<Rightarrow> bind_io (readl (base + 4 * cnt)) (\<lambda>val. bind_io (saved_before save i) (\<lambda>(v, i).
        seq_io (writel v (base + 4 * cnt))
          (ret (if val \<noteq> NOT cnt then (True, (cnt, i)) else (False, (shl cnt 1, i)))))))
    (\<lambda>r t. if fst r then fst (snd r) = 2 ^ k \<and> restoring c (shl (fst (snd r)) 1, snd (snd r)) t
        else looking c (snd r) t \<and> snd (snd r) < snd x) t"
    using x saved unfolding c prod.case by (rule looking_step)
next
  fix r :: "bool \<times> u32 \<times> nat" and t :: mach
  assume r: "if fst r then fst (snd r) = 2 ^ k \<and> restoring c (shl (fst (snd r)) 1, snd (snd r)) t
    else looking c (snd r) t \<and> \<not> (case snd r of (cnt, i) \<Rightarrow> cnt < 2 ^ m)"
  show "if fst r then fst (snd r) = 2 ^ k \<and> restoring c (shl (fst (snd r)) 1, snd (snd r)) t
    else k = m \<and> env t = hw \<and> (\<forall>j<2 ^ m. content (trace t) j = unmarked c k (j mod 2 ^ k))"
  proof (cases "fst r")
    case False
    obtain cnt i where c: "snd r = (cnt, i)" by (cases "snd r")
    from r False have "looking c (cnt, i) t" "\<not> cnt < 2 ^ m" by (simp_all add: c)
    then obtain p where p: "p \<le> k" "env t = hw" "\<not> (2 ^ p :: u32) < 2 ^ m"
      "\<forall>j<2 ^ m. content (trace t) j = unmarked c p (j mod 2 ^ k)" unfolding looking_def by blast
    then have "p = m" using index_less [of p] sizes by simp
    with p False sizes show ?thesis by simp
  next
    case True
    then show ?thesis using r unfolding if_P [OF True] by blast
  qed
qed

lemma runs_get_ram_size:
  assumes env: "env s = hw" and c: "c = content (trace s)"
  shows "runs (get_ram_size base (2 ^ (m + 2))) (\<lambda>size t. size = 4 * 2 ^ k \<and> env t = hw \<and>
    (\<forall>j<2 ^ m. content (trace t) j = (if j = 0 \<and> k = m then 0 else c j))) s"
proof -
  have old: "c j = c (j mod 2 ^ k)" if "j < 2 ^ m" for j
    using that repeated [of j "trace s"] by (simp add: c content_def)
  have base: "base = word_at base 0" by (simp add: word_at_def)
  show ?thesis
    unfolding get_ram_size_def runs_bind
  proof (rule runs_mono [OF runs_probe_down [OF assms]])
    fix x :: "nat \<times> u32 option list" and t :: mach
    assume x: "(case x of (i, save) \<Rightarrow> \<lambda>t. i = m \<and> saves c 0 save \<and> env t = hw \<and> (\<forall>j<2 ^ m. content (trace t) j = marked c 0 (j mod 2 ^ k))) t"
    obtain i save where p: "x = (i, save)" by (cases x)
    have at: "i = m" "saves c 0 save" "env t = hw" "\<forall>j<2 ^ m. content (trace t) j = marked c 0 (j mod 2 ^ k)"
      using x unfolding p by simp_all
    let ?v = "content (trace t) 0"
    let ?save = "save[m := Some ?v]"
    let ?t = "t\<lparr>trace := Rd base 0 # Wr base 0 # Rd base ?v # trace t\<rparr>"
    have saved: "saves c 0 ?save" "m < length save"
      using at(2) sizes by (auto simp: saves_def)
    have first: "content (Wr base 0 # Rd base ?v # trace t) 0 = 0"
      using content_simps(1) [of 0 0] base by simp
    have "\<forall>j<2 ^ m. content (trace ?t) j = unmarked c 0 (j mod 2 ^ k)"
      using at(4) content_simps [of 0, folded base] by (auto simp: unmarked_def marked_def)
    then have "looking c (1, m) ?t"
      unfolding looking_def prod.case using at(3) by (intro exI [of _ 0]) simp
    from runs_check_up [OF this saved(1)]
    have check: "runs (check_up base (2 ^ (m + 2)) m ?save) (\<lambda>x.
        runs (case x of (found, cnt, i) \<Rightarrow> if found then seq_io (restore_up base (2 ^ (m + 2)) (shl cnt 1) i ?save) (ret (cnt * 4)) else ret (2 ^ (m + 2)))
          (\<lambda>size t. size = 4 * 2 ^ k \<and> env t = hw \<and> (\<forall>j<2 ^ m. content (trace t) j = (if j = 0 \<and> k = m then 0 else c j)))) ?t"
    proof (rule runs_mono)
      fix r :: "bool \<times> u32 \<times> nat" and u :: mach
      assume r: "if fst r then fst (snd r) = 2 ^ k \<and> restoring c (shl (fst (snd r)) 1, snd (snd r)) u
        else k = m \<and> env u = hw \<and> (\<forall>j<2 ^ m. content (trace u) j = unmarked c k (j mod 2 ^ k))"
      obtain found cnt i where c3: "r = (found, cnt, i)" by (cases r)
      show "runs (case r of (found, cnt, i) \<Rightarrow>
        if found then seq_io (restore_up base (2 ^ (m + 2)) (shl cnt 1) i ?save) (ret (cnt * 4)) else ret (2 ^ (m + 2)))
          (\<lambda>size t. size = 4 * 2 ^ k \<and> env t = hw \<and> (\<forall>j<2 ^ m. content (trace t) j = (if j = 0 \<and> k = m then 0 else c j))) u"
      proof (cases found)
        case True
        then have cnt: "cnt = 2 ^ k" and up: "restoring c (shl cnt 1, i) u" using r by (auto simp: c3)
        from up have "k < m" by (auto simp: restoring_def)
        then show ?thesis
          unfolding c3 prod.case runs_if runs_seq runs_ret if_P [OF True]
          by (intro runs_mono [OF runs_restore_up [OF up saved(1)]]) (simp add: cnt old [symmetric])
      next
        case False
        then show ?thesis
          using r c3 old by (auto simp: runs_ret unmarked_def power_add)
      qed
    qed
    show "runs (case x of (i, save) \<Rightarrow> bind_io (readl base) (\<lambda>v. bind_io (save_word save i v) (\<lambda>save. seq_io (writel 0 base)
       (bind_io (readl base) (\<lambda>val. if val \<noteq> 0 then bind_io (saved_at save i) (\<lambda>v. seq_io (writel v base)
          (seq_io (restore_up base (2 ^ (m + 2)) 1 i save) (ret 0)))
        else bind_io (check_up base (2 ^ (m + 2)) i save) (\<lambda>(found, cnt, i).
          if found then seq_io (restore_up base (2 ^ (m + 2)) (shl cnt 1) i save) (ret (cnt * 4)) else ret (2 ^ (m + 2))))))))
      (\<lambda>size t. size = 4 * 2 ^ k \<and> env t = hw \<and> (\<forall>j<2 ^ m. content (trace t) j = (if j = 0 \<and> k = m then 0 else c j))) t"
    proof -
      have zero: "hw (Wr base 0 # Rd base ?v # trace t) base = 0" "hw (trace t) base = ?v"
        using first base by (simp_all add: content_def)
      show ?thesis
        using check unfolding p prod.case at(1) runs_bind runs_readl at(3) zero runs_save_word [OF saved(2)] runs_seq runs_writel
        by (simp only: traces at(3) zero runs_bind simp_thms if_False)
    qed
  qed
qed

end

section \<open>On the device\<close>

text \<open>A memory of \<open>2 ^ k\<close> words, whose addresses repeat, filled with \<open>f\<close>.\<close>

definition ram_index :: "nat \<Rightarrow> u32 \<Rightarrow> nat" where
  "ram_index k a = unat a div 4 mod 2 ^ k"

fun ram_device :: "nat \<Rightarrow> (nat \<Rightarrow> u32) \<Rightarrow> event list \<Rightarrow> u32 \<Rightarrow> u32" where
  "ram_device k f [] a = f (ram_index k a)"
| "ram_device k f (Wr b v # h) a = (if ram_index k a = ram_index k b then v else ram_device k f h a)"
| "ram_device k f (Rd b v # h) a = ram_device k f h a"
| "ram_device k f (Msg g xs # h) a = ram_device k f h a"

lemma ram_index_word:
  assumes "j < 2 ^ 28"
  shows "ram_index k (word_at PHYS_SDRAM_1 j) = j mod 2 ^ k"
proof -
  have "4 * j < 2 ^ 32" using assms by simp
  then have "unat (of_nat (4 * j) :: u32) = 4 * j" by (simp add: unat_of_nat del: of_nat_mult)
  then show ?thesis by (simp add: ram_index_def word_at_def PHYS_SDRAM_1_def)
qed

lemma ram_device_repeated: "ram_index k a = ram_index k b \<Longrightarrow> ram_device k f h a = ram_device k f h b"
  by (induction k f h a rule: ram_device.induct) auto

lemma ram_device_wraps:
  assumes "k \<le> 28"
  shows "wrapping_ram (ram_device k f) PHYS_SDRAM_1 28 k"
proof
  show "ram_device k f h (word_at PHYS_SDRAM_1 i) = ram_device k f h (word_at PHYS_SDRAM_1 (i mod 2 ^ k))"
    if "i < 2 ^ 28" for i h
  proof -
    have "i mod 2 ^ k < 2 ^ 28" using that by (meson le_less_trans mod_less_eq_dividend)
    then show ?thesis using that by (intro ram_device_repeated) (simp add: ram_index_word)
  qed
qed (use assms in \<open>auto simp: ram_index_word\<close>)

interpretation gigabyte: wrapping_ram "ram_device 28 f" PHYS_SDRAM_1 28 28
  by (rule ram_device_wraps) simp

interpretation half_gigabyte: wrapping_ram "ram_device 27 f" PHYS_SDRAM_1 28 27
  by (rule ram_device_wraps) simp

text \<open>
  C8: On a memory of \<open>2 ^ k\<close> words, up to a gigabyte, whose addresses repeat, \<open>dram_init\<close>
  succeeds, finds the size and leaves every word as it was. The exception is a memory of
  exactly the size that is looked for, the gigabyte of this board: its first word is lost.
\<close>

theorem dram_size_found:
  assumes "wrapping_ram (env s) PHYS_SDRAM_1 28 k"
  shows "runs dram_init (\<lambda>(r, ram_size) t. r = 0 \<and> ram_size = 4 * 2 ^ k \<and> env t = env s \<and>
    (\<forall>j<2 ^ 28. env t (trace t) (word_at PHYS_SDRAM_1 j) =
      (if j = 0 \<and> k = 28 then 0 else env s (trace s) (word_at PHYS_SDRAM_1 j)))) s"
proof -
  have "PHYS_SDRAM_1_SIZE = 2 ^ (28 + 2)" by (simp add: PHYS_SDRAM_1_SIZE_def)
  then show ?thesis
    unfolding dram_init_def runs_bind runs_ret
    using runs_mono [OF wrapping_ram.runs_get_ram_size [OF assms refl refl]]
    by (simp add: wrapping_ram.content_def [OF assms])
qed

text \<open>The witness is the board, and the same board with half of the memory, filled with sevens.\<close>

theorem dram_size_found_witness:
  "\<forall>s :: mach. runs dram_init (\<lambda>(r, ram_size) t. r = 0 \<and> ram_size = 0x40000000 \<and> env t (trace t) 0 = 0 \<and> env t (trace t) 4 = 7)
      (s\<lparr>env := ram_device 28 (\<lambda>_. 7), trace := []\<rparr>) \<and>
    runs dram_init (\<lambda>(r, ram_size) t. r = 0 \<and> ram_size = 0x20000000 \<and> env t (trace t) 0 = 7 \<and> env t (trace t) 4 = 7)
      (s\<lparr>env := ram_device 27 (\<lambda>_. 7), trace := []\<rparr>)"
proof
  fix s :: mach
  let ?full = "s\<lparr>env := ram_device 28 (\<lambda>_. 7), trace := []\<rparr>" and ?half = "s\<lparr>env := ram_device 27 (\<lambda>_. 7), trace := []\<rparr>"
  have words: "word_at PHYS_SDRAM_1 0 = 0" "word_at PHYS_SDRAM_1 (Suc 0) = 4" by (simp_all add: word_at_def PHYS_SDRAM_1_def)
  have "wrapping_ram (env ?full) PHYS_SDRAM_1 28 28" "wrapping_ram (env ?half) PHYS_SDRAM_1 28 27"
    by (simp_all add: gigabyte.wrapping_ram_axioms half_gigabyte.wrapping_ram_axioms)
  note found = this [THEN dram_size_found]
  have "runs dram_init (\<lambda>(r, ram_size) t. r = 0 \<and> ram_size = 0x40000000 \<and> env t (trace t) 0 = 0 \<and> env t (trace t) 4 = 7) ?full"
    by (rule runs_mono [OF found(1)]) (clarsimp, frule spec [of _ 0], drule spec [of _ 1], simp add: words)
  moreover have "runs dram_init (\<lambda>(r, ram_size) t. r = 0 \<and> ram_size = 0x20000000 \<and> env t (trace t) 0 = 7 \<and> env t (trace t) 4 = 7) ?half"
    by (rule runs_mono [OF found(2)]) (clarsimp, frule spec [of _ 0], drule spec [of _ 1], simp add: words)
  ultimately show "runs dram_init (\<lambda>(r, ram_size) t. r = 0 \<and> ram_size = 0x40000000 \<and> env t (trace t) 0 = 0 \<and> env t (trace t) 4 = 7) ?full \<and>
    runs dram_init (\<lambda>(r, ram_size) t. r = 0 \<and> ram_size = 0x20000000 \<and> env t (trace t) 0 = 7 \<and> env t (trace t) 4 = 7) ?half" by blast
qed

end
