(* ===== verification/Lmb.thy ===== *)
theory Lmb imports Arrays begin

text \<open>
  lib/lmb.c: logical memory blocks, the book-keeping of which memory exists and which of
  it is reserved, as two tables of regions. Addresses and sizes are 32-bit and wrap.
\<close>

section \<open>Data\<close>

record lmb_property =
  base :: u32
  bytes :: u32

record lmb_region =
  cnt :: u32
  total :: u32
  region :: "lmb_property list"

record lmb =
  memory :: lmb_region
  reserved :: lmb_region

definition MAX_LMB_REGIONS :: nat where
  "MAX_LMB_REGIONS = 8"

definition LMB_ALLOC_ANYWHERE :: u32 where
  "LMB_ALLOC_ANYWHERE = 0"

section \<open>Operations\<close>

definition lmb_addrs_overlap :: "u32 \<Rightarrow> u32 \<Rightarrow> u32 \<Rightarrow> u32 \<Rightarrow> bool" where
  "lmb_addrs_overlap base1 size1 base2 size2 \<longleftrightarrow> base1 < base2 + size2 \<and> base2 < base1 + size1"

definition lmb_addrs_adjacent :: "u32 \<Rightarrow> u32 \<Rightarrow> u32 \<Rightarrow> u32 \<Rightarrow> int" where
  "lmb_addrs_adjacent base1 size1 base2 size2 =
     (if base2 = base1 + size1 then 1 else if base1 = base2 + size2 then - 1 else 0)"

definition lmb_regions_adjacent :: "lmb_region \<Rightarrow> nat \<Rightarrow> nat \<Rightarrow> int option" where
  "lmb_regions_adjacent rgn r1 r2 = do {
     p \<leftarrow> aget (region rgn) r1;
     q \<leftarrow> aget (region rgn) r2;
     Some (lmb_addrs_adjacent (base p) (bytes p) (base q) (bytes q))}"

text \<open>The loop of \<open>lmb_remove_region\<close>: entries \<open>i + 1\<close> to \<open>n\<close> move down.\<close>

function move_down :: "nat \<Rightarrow> nat \<Rightarrow> lmb_property list \<Rightarrow> lmb_property list option" where
  "move_down i n ps = (if i < n then do {
       p \<leftarrow> aget ps (Suc i);
       qs \<leftarrow> aput ps i p;
       move_down (Suc i) n qs} else Some ps)"
  by pat_completeness auto
termination by (relation "measure (\<lambda>(i, n, ps). n - i)") auto

declare move_down.simps [simp del]

definition lmb_remove_region :: "lmb_region \<Rightarrow> nat \<Rightarrow> lmb_region option" where
  "lmb_remove_region rgn r = do {
     ps \<leftarrow> move_down r (unat (cnt rgn - 1)) (region rgn);
     Some (rgn\<lparr>region := ps, cnt := cnt rgn - 1\<rparr>)}"

definition lmb_coalesce_regions :: "lmb_region \<Rightarrow> nat \<Rightarrow> nat \<Rightarrow> lmb_region option" where
  "lmb_coalesce_regions rgn r1 r2 = do {
     p \<leftarrow> aget (region rgn) r1;
     q \<leftarrow> aget (region rgn) r2;
     ps \<leftarrow> aput (region rgn) r1 (p\<lparr>bytes := bytes p + bytes q\<rparr>);
     lmb_remove_region (rgn\<lparr>region := ps\<rparr>) r2}"

definition init_region :: "lmb_region \<Rightarrow> lmb_region option" where
  "init_region rgn = do {
     ps \<leftarrow> aput (region rgn) 0 \<lparr>base = 0, bytes = 0\<rparr>;
     Some (rgn\<lparr>region := ps, cnt := 1, total := 0\<rparr>)}"

definition lmb_init :: "lmb \<Rightarrow> lmb option" where
  "lmb_init l = do {
     m \<leftarrow> init_region (memory l);
     r \<leftarrow> init_region (reserved l);
     Some (l\<lparr>memory := m, reserved := r\<rparr>)}"

text \<open>
  The first loop of \<open>lmb_add_region\<close>: \<open>Present\<close> is its early return, \<open>Scanned i c ps\<close> the
  counter and \<open>coalesced\<close> when it ends or breaks.
\<close>

datatype scan = Present | Scanned nat int "lmb_property list"

function add_scan :: "nat \<Rightarrow> nat \<Rightarrow> u32 \<Rightarrow> u32 \<Rightarrow> lmb_property list \<Rightarrow> scan option" where
  "add_scan i n b sz ps = (if i < n then do {
       p \<leftarrow> aget ps i;
       if base p = b \<and> bytes p = sz then Some Present
       else if lmb_addrs_adjacent b sz (base p) (bytes p) > 0 then do {
         qs \<leftarrow> aput ps i (p\<lparr>base := base p - sz, bytes := bytes p + sz\<rparr>);
         Some (Scanned i 1 qs)}
       else if lmb_addrs_adjacent b sz (base p) (bytes p) < 0 then do {
         qs \<leftarrow> aput ps i (p\<lparr>bytes := bytes p + sz\<rparr>);
         Some (Scanned i 1 qs)}
       else add_scan (Suc i) n b sz ps}
     else Some (Scanned i 0 ps))"
  by pat_completeness auto
termination by (relation "measure (\<lambda>(i, n, _). n - i)") auto

declare add_scan.simps [simp del]

text \<open>The second loop, from entry \<open>k - 1\<close> down to 0: make room and put the region in.\<close>

primrec add_shift :: "nat \<Rightarrow> u32 \<Rightarrow> u32 \<Rightarrow> lmb_property list \<Rightarrow> lmb_property list option" where
  "add_shift 0 b sz ps = Some ps"
| "add_shift (Suc i) b sz ps = do {
     p \<leftarrow> aget ps i;
     if b < base p then do {
       qs \<leftarrow> aput ps (Suc i) p;
       add_shift i b sz qs}
     else aput ps (Suc i) \<lparr>base = b, bytes = sz\<rparr>}"

text \<open>Results are pairs of the table and the C return value.\<close>

definition lmb_add_region :: "lmb_region \<Rightarrow> u32 \<Rightarrow> u32 \<Rightarrow> (lmb_region \<times> int) option" where
  "lmb_add_region rgn b sz = do {
     p \<leftarrow> aget (region rgn) 0;
     if cnt rgn = 1 \<and> bytes p = 0 then do {
       ps \<leftarrow> aput (region rgn) 0 \<lparr>base = b, bytes = sz\<rparr>;
       Some (rgn\<lparr>region := ps\<rparr>, 0)}
     else do {
       sc \<leftarrow> add_scan 0 (unat (cnt rgn)) b sz (region rgn);
       case sc of Present \<Rightarrow> Some (rgn, 0)
       | Scanned i c ps \<Rightarrow> do {
           let rgn1 = rgn\<lparr>region := ps\<rparr>;
           adj \<leftarrow> (if i < unat (cnt rgn1 - 1) then lmb_regions_adjacent rgn1 i (Suc i) else Some 0);
           rgn2 \<leftarrow> (if adj \<noteq> 0 then lmb_coalesce_regions rgn1 i (Suc i) else Some rgn1);
           let c2 = (if adj \<noteq> 0 then c + 1 else c);
           if c2 \<noteq> 0 then Some (rgn2, c2)
           else if unat (cnt rgn2) \<ge> MAX_LMB_REGIONS then Some (rgn2, - 1)
           else do {
             qs \<leftarrow> add_shift (unat (cnt rgn2)) b sz (region rgn2);
             q \<leftarrow> aget qs 0;
             qs' \<leftarrow> (if b < base q then aput qs 0 \<lparr>base = b, bytes = sz\<rparr> else Some qs);
             Some (rgn2\<lparr>region := qs', cnt := cnt rgn2 + 1\<rparr>, 0)}}}}"

definition lmb_add :: "lmb \<Rightarrow> u32 \<Rightarrow> u32 \<Rightarrow> (lmb \<times> int) option" where
  "lmb_add l b sz = do {
     (r, x) \<leftarrow> lmb_add_region (memory l) b sz;
     Some (l\<lparr>memory := r\<rparr>, x)}"

definition lmb_reserve :: "lmb \<Rightarrow> u32 \<Rightarrow> u32 \<Rightarrow> (lmb \<times> int) option" where
  "lmb_reserve l b sz = do {
     (r, x) \<leftarrow> lmb_add_region (reserved l) b sz;
     Some (l\<lparr>reserved := r\<rparr>, x)}"

text \<open>The region that holds \<open>b\<close> to \<open>e\<close>, from entry \<open>i\<close> on; \<open>n\<close> if there is none.\<close>

function find_holder :: "nat \<Rightarrow> nat \<Rightarrow> u32 \<Rightarrow> u32 \<Rightarrow> lmb_property list \<Rightarrow> nat option" where
  "find_holder i n b e ps = (if i < n then do {
       p \<leftarrow> aget ps i;
       if base p \<le> b \<and> e \<le> base p + bytes p then Some i else find_holder (Suc i) n b e ps}
     else Some i)"
  by pat_completeness auto
termination by (relation "measure (\<lambda>(i, n, _). n - i)") auto

declare find_holder.simps [simp del]

definition free_region :: "lmb_region \<Rightarrow> u32 \<Rightarrow> u32 \<Rightarrow> (lmb_region \<times> int) option" where
  "free_region rgn b sz = do {
     let e = b + sz;
     i \<leftarrow> find_holder 0 (unat (cnt rgn)) b e (region rgn);
     if i = unat (cnt rgn) then Some (rgn, - 1)
     else do {
       p \<leftarrow> aget (region rgn) i;
       let rgnbegin = base p;
       let rgnend = base p + bytes p;
       if rgnbegin = b \<and> rgnend = e then do {
         r \<leftarrow> lmb_remove_region rgn i;
         Some (r, 0)}
       else if rgnbegin = b then do {
         ps \<leftarrow> aput (region rgn) i \<lparr>base = e, bytes = bytes p - sz\<rparr>;
         Some (rgn\<lparr>region := ps\<rparr>, 0)}
       else if rgnend = e then do {
         ps \<leftarrow> aput (region rgn) i (p\<lparr>bytes := bytes p - sz\<rparr>);
         Some (rgn\<lparr>region := ps\<rparr>, 0)}
       else do {
         ps \<leftarrow> aput (region rgn) i (p\<lparr>bytes := b - base p\<rparr>);
         lmb_add_region (rgn\<lparr>region := ps\<rparr>) e (rgnend - e)}}}"

definition lmb_free :: "lmb \<Rightarrow> u32 \<Rightarrow> u32 \<Rightarrow> (lmb \<times> int) option" where
  "lmb_free l b sz = do {
     (r, x) \<leftarrow> free_region (reserved l) b sz;
     Some (l\<lparr>reserved := r\<rparr>, x)}"

function find_overlap :: "nat \<Rightarrow> nat \<Rightarrow> u32 \<Rightarrow> u32 \<Rightarrow> lmb_property list \<Rightarrow> nat option" where
  "find_overlap i n b sz ps = (if i < n then do {
       p \<leftarrow> aget ps i;
       if lmb_addrs_overlap b sz (base p) (bytes p) then Some i else find_overlap (Suc i) n b sz ps}
     else Some i)"
  by pat_completeness auto
termination by (relation "measure (\<lambda>(i, n, _). n - i)") auto

declare find_overlap.simps [simp del]

definition lmb_overlaps_region :: "lmb_region \<Rightarrow> u32 \<Rightarrow> u32 \<Rightarrow> int option" where
  "lmb_overlaps_region rgn b sz = do {
     i \<leftarrow> find_overlap 0 (unat (cnt rgn)) b sz (region rgn);
     Some (if i < unat (cnt rgn) then int i else - 1)}"

definition lmb_align_down :: "u32 \<Rightarrow> u32 \<Rightarrow> u32" where
  "lmb_align_down addr sz = addr AND NOT (sz - 1)"

definition lmb_align_up :: "u32 \<Rightarrow> u32 \<Rightarrow> u32" where
  "lmb_align_up addr sz = (addr + (sz - 1)) AND NOT (sz - 1)"

lemma find_overlap_Some:
  "find_overlap i n b sz ps = Some j \<Longrightarrow> j < n \<Longrightarrow>
    i \<le> j \<and> j < length ps \<and> lmb_addrs_overlap b sz (base (ps ! j)) (bytes (ps ! j))"
proof (induction i n b sz ps rule: find_overlap.induct)
  case (1 i n b sz ps)
  from "1.prems" show ?case
    by (subst (asm) find_overlap.simps)
      (auto simp: bind_eq_Some_conv aget_Some_iff split: if_splits dest!: "1.IH")
qed

lemma align_down_le: "lmb_align_down addr sz \<le> addr"
  by (simp add: lmb_align_down_def word_and_le2)

lemma overlap_below:
  assumes "lmb_addrs_overlap b sz rb rs" and "sz \<le> rb"
  shows "rb - sz < b"
proof -
  have o: "rb < b + sz" using assms(1) by (simp add: lmb_addrs_overlap_def)
  have "unat rb - unat sz < unat b"
  proof (cases "unat b + unat sz < 2 ^ 32")
    case True
    then have "unat (b + sz) = unat b + unat sz" by (simp add: unat_word_ariths)
    with o assms(2) show ?thesis by (simp add: word_less_nat_alt word_le_nat_alt)
  next
    case False
    have "unat b < 2 ^ 32" using unsigned_less [of b, where 'a = nat] by simp
    with False have "(unat b + unat sz) mod 2 ^ 32 \<le> unat b + unat sz - 2 ^ 32"
      by (simp add: le_mod_geq)
    then have "unat (b + sz) \<le> unat sz"
      using False \<open>unat b < 2 ^ 32\<close> by (simp add: unat_word_ariths)
    with o assms(2) show ?thesis by (simp add: word_less_nat_alt word_le_nat_alt)
  qed
  then show ?thesis using assms(2) by (simp add: word_less_nat_alt unat_sub)
qed

text \<open>
  The inner loop of \<open>__lmb_alloc_base\<close>: below each reserved region in the way, until the area is
  free (\<open>Some b\<close>) or the region of memory is exhausted (\<open>None\<close>).
\<close>

function alloc_fit :: "lmb_region \<Rightarrow> u32 \<Rightarrow> u32 \<Rightarrow> u32 \<Rightarrow> u32 \<Rightarrow> u32 option option" where
  "alloc_fit res lmbbase b sz align = (if b \<noteq> 0 \<and> lmbbase \<le> b then do {
       j \<leftarrow> lmb_overlaps_region res b sz;
       if j < 0 then Some (Some b)
       else do {
         p \<leftarrow> aget (region res) (nat j);
         if base p < sz then Some None
         else alloc_fit res lmbbase (lmb_align_down (base p - sz) align) sz align}}
     else Some None)"
  by pat_completeness auto
termination
proof (relation "measure (\<lambda>(res, lmbbase, b, sz, align). unat b)", goal_cases)
  case (2 res lmbbase b sz align j p)
  then have "lmb_addrs_overlap b sz (base p) (bytes p)"
    by (auto simp: lmb_overlaps_region_def bind_eq_Some_conv aget_Some_iff split: if_splits dest!: find_overlap_Some)
  from overlap_below [OF this] 2 have "base p - sz < b" by (simp add: not_less)
  then have "lmb_align_down (base p - sz) align < b" using align_down_le order.strict_trans1 by blast
  then show ?case by (simp add: word_less_nat_alt)
qed simp

declare alloc_fit.simps [simp del]

text \<open>The outer loop, from entry \<open>k - 1\<close> down to 0.\<close>

primrec alloc_search :: "nat \<Rightarrow> lmb \<Rightarrow> u32 \<Rightarrow> u32 \<Rightarrow> u32 \<Rightarrow> (lmb \<times> u32) option" where
  "alloc_search 0 l sz align max_addr = Some (l, 0)"
| "alloc_search (Suc i) l sz align max_addr = do {
     p \<leftarrow> aget (region (memory l)) i;
     if bytes p < sz then alloc_search i l sz align max_addr
     else if max_addr \<noteq> LMB_ALLOC_ANYWHERE \<and> \<not> base p < max_addr then alloc_search i l sz align max_addr
     else do {
       let b = (if max_addr = LMB_ALLOC_ANYWHERE then lmb_align_down (base p + bytes p - sz) align
         else lmb_align_down (min (base p + bytes p) max_addr - sz) align);
       found \<leftarrow> alloc_fit (reserved l) (base p) b sz align;
       case found of None \<Rightarrow> alloc_search i l sz align max_addr
       | Some b' \<Rightarrow> do {
           (r, x) \<leftarrow> lmb_add_region (reserved l) b' (lmb_align_up sz align);
           Some (l\<lparr>reserved := r\<rparr>, if x < 0 then 0 else b')}}}"

text \<open>\<open>long i = cnt - 1; i >= 0\<close>: the loop is skipped when the difference is negative as a \<open>long\<close>.\<close>

definition alloc_base_search :: "lmb \<Rightarrow> u32 \<Rightarrow> u32 \<Rightarrow> u32 \<Rightarrow> (lmb \<times> u32) option" where
  "alloc_base_search l sz align max_addr =
     alloc_search (if 0 \<le>s cnt (memory l) - 1 then unat (cnt (memory l)) else 0) l sz align max_addr"

text \<open>The third component is the error message: size and bound it prints.\<close>

definition lmb_alloc_base :: "lmb \<Rightarrow> u32 \<Rightarrow> u32 \<Rightarrow> u32 \<Rightarrow> (lmb \<times> u32 \<times> (u32 \<times> u32) option) option" where
  "lmb_alloc_base l sz align max_addr = do {
     (l', a) \<leftarrow> alloc_base_search l sz align max_addr;
     Some (l', a, if a = 0 then Some (sz, max_addr) else None)}"

definition lmb_alloc :: "lmb \<Rightarrow> u32 \<Rightarrow> u32 \<Rightarrow> (lmb \<times> u32 \<times> (u32 \<times> u32) option) option" where
  "lmb_alloc l sz align = lmb_alloc_base l sz align LMB_ALLOC_ANYWHERE"

primrec any_holds :: "nat \<Rightarrow> u32 \<Rightarrow> lmb_property list \<Rightarrow> bool option" where
  "any_holds 0 addr ps = Some False"
| "any_holds (Suc k) addr ps = (case ps of [] \<Rightarrow> None
   | p # qs \<Rightarrow> if base p \<le> addr \<and> addr \<le> base p + bytes p - 1 then Some True else any_holds k addr qs)"

definition lmb_is_reserved :: "lmb \<Rightarrow> u32 \<Rightarrow> bool option" where
  "lmb_is_reserved l addr = any_holds (unat (cnt (reserved l))) addr (region (reserved l))"

end
