(* ===== verification/LmbSpec.thy ===== *)
theory LmbSpec imports Lmb begin

text \<open>
  What the tables of lmb.c mean: the set of addresses a table covers. Adding a region is
  union, freeing one is difference, and an allocation is the highest free place.
\<close>

section \<open>Abstraction\<close>

text \<open>The address past the end, and the addresses of a region, as numbers without wrap.\<close>

definition past :: "lmb_property \<Rightarrow> nat" where
  "past p = unat (base p) + unat (bytes p)"

definition addrs :: "lmb_property \<Rightarrow> nat set" where
  "addrs p = {unat (base p)..<past p}"

abbreviation area :: "u32 \<Rightarrow> u32 \<Rightarrow> nat set" where
  "area b sz \<equiv> {unat b..<unat b + unat sz}"

definition live :: "lmb_region \<Rightarrow> lmb_property list" where
  "live r = take (unat (cnt r)) (region r)"

definition covered :: "lmb_region \<Rightarrow> nat set" where
  "covered r = \<Union> (addrs ` set (live r))"

text \<open>
  Regions that are not empty, do not wrap, in order and with a gap between any two; a table
  holds such regions, or the dummy of \<open>lmb_init\<close>.
\<close>

definition proper :: "lmb_property \<Rightarrow> bool" where
  "proper p \<longleftrightarrow> bytes p \<noteq> 0 \<and> past p < 2 ^ 32"

definition tidy :: "lmb_property list \<Rightarrow> bool" where
  "tidy ps \<longleftrightarrow> list_all proper ps \<and> sorted_wrt (\<lambda>p q. past p < unat (base q)) ps"

definition empty_table :: "lmb_region \<Rightarrow> bool" where
  "empty_table r \<longleftrightarrow> cnt r = 1 \<and> region r ! 0 = \<lparr>base = 0, bytes = 0\<rparr>"

definition wf_table :: "lmb_region \<Rightarrow> bool" where
  "wf_table r \<longleftrightarrow> length (region r) = Suc MAX_LMB_REGIONS \<and>
     (empty_table r \<or> cnt r \<noteq> 0 \<and> unat (cnt r) \<le> MAX_LMB_REGIONS \<and> tidy (live r))"

section \<open>Regions as intervals\<close>

lemma unat_le_past: "unat (base p) \<le> past p"
  by (simp add: past_def)

lemma unat_pos_iff: "0 < unat w \<longleftrightarrow> w \<noteq> (0 :: u32)"
  by (simp add: unat_gt_0)

lemma unat_add_no_wrap: "unat x + unat y < 2 ^ 32 \<Longrightarrow> unat (x + y) = unat x + unat (y :: u32)"
  by (simp add: unat_word_ariths)

lemma proper_end: "proper p \<Longrightarrow> unat (base p + bytes p) = past p"
  by (simp add: proper_def past_def unat_add_no_wrap)

lemma adjacent_iff:
  assumes "proper p" and "sz \<noteq> 0" and "unat b + unat sz < 2 ^ 32"
  shows "lmb_addrs_adjacent b sz (base p) (bytes p) =
    (if unat (base p) = unat b + unat sz then 1 else if unat b = past p then - 1 else 0)"
  using proper_end [OF assms(1)] unat_add_no_wrap [OF assms(3)]
  by (simp add: lmb_addrs_adjacent_def word_unat_eq_iff)

lemma overlap_iff:
  assumes "proper p" and "unat b + unat sz < 2 ^ 32"
  shows "lmb_addrs_overlap b sz (base p) (bytes p) \<longleftrightarrow> unat b < past p \<and> unat (base p) < unat b + unat sz"
  using proper_end [OF assms(1)] unat_add_no_wrap [OF assms(2)]
  by (simp add: lmb_addrs_overlap_def word_less_nat_alt)

lemma disjoint_iff:
  assumes "proper p" and "sz \<noteq> 0"
  shows "area b sz \<inter> addrs p = {} \<longleftrightarrow> past p \<le> unat b \<or> unat b + unat sz \<le> unat (base p)"
proof -
  have "unat (base p) < past p" using assms(1) by (simp add: proper_def past_def unat_pos_iff)
  moreover have "unat b < unat b + unat sz" using assms(2) by (simp add: unat_pos_iff)
  ultimately show ?thesis by (auto simp: addrs_def disjoint_iff_not_equal)
qed

lemma tidy_simps:
  "tidy []"
  "tidy (p # ps) \<longleftrightarrow> proper p \<and> (\<forall>q\<in>set ps. past p < unat (base q)) \<and> tidy ps"
  "tidy (ps @ qs) \<longleftrightarrow> tidy ps \<and> tidy qs \<and> (\<forall>p\<in>set ps. \<forall>q\<in>set qs. past p < unat (base q))"
  by (auto simp: tidy_def sorted_wrt_append)

section \<open>Loops on the tables\<close>

lemma add_scan_result:
  assumes "n \<le> length ps" and "i \<le> n" and "list_all proper (take n ps)" and "sz \<noteq> 0" and "unat b + unat sz < 2 ^ 32"
    and "\<forall>p\<in>set (take n ps). base p \<noteq> b"
  shows "\<exists>j c qs. add_scan i n b sz ps = Some (Scanned j c qs) \<and> i \<le> j \<and> j \<le> n \<and>
    (\<forall>k. i \<le> k \<and> k < j \<longrightarrow> unat (base (ps ! k)) \<noteq> unat b + unat sz \<and> unat b \<noteq> past (ps ! k)) \<and>
    (j = n \<and> c = 0 \<and> qs = ps \<or>
     j < n \<and> c = 1 \<and> (unat (base (ps ! j)) = unat b + unat sz \<and>
         qs = ps[j := (ps ! j)\<lparr>base := b, bytes := bytes (ps ! j) + sz\<rparr>] \<or>
       unat b = past (ps ! j) \<and> qs = ps[j := (ps ! j)\<lparr>bytes := bytes (ps ! j) + sz\<rparr>]))"
  using assms
proof (induction i n b sz ps rule: add_scan.induct)
  case (1 i n b sz ps)
  show ?case
  proof (cases "i < n")
    case False
    then show ?thesis using "1.prems" by (subst add_scan.simps) auto
  next
    case True
    let ?p = "ps ! i"
    have len: "i < length ps" using True "1.prems"(1) by simp
    have mem: "?p \<in> set (take n ps)" using True "1.prems"(1) by (auto simp: in_set_conv_nth)
    then have p: "proper ?p" "base ?p \<noteq> b" using "1.prems"(3,6) by (auto simp: list_all_iff)
    note adj = adjacent_iff [OF p(1) "1.prems"(4,5)]
    consider (front) "unat (base ?p) = unat b + unat sz" | (rear) "unat b = past ?p" "unat (base ?p) \<noteq> unat b + unat sz"
      | (apart) "unat (base ?p) \<noteq> unat b + unat sz" "unat b \<noteq> past ?p" by blast
    then show ?thesis
    proof cases
      case front
      then have "base ?p - sz = b"
        using unat_add_no_wrap [OF "1.prems"(5)] by (metis add_diff_cancel word_unat_eq_iff)
      with front True len p show ?thesis
        by (intro exI [of _ i]) (subst add_scan.simps, simp add: adj)
    next
      case rear
      with True len p show ?thesis
        by (intro exI [of _ i]) (subst add_scan.simps, simp add: adj)
    next
      case apart
      have IH: "\<exists>j c qs. add_scan (Suc i) n b sz ps = Some (Scanned j c qs) \<and> Suc i \<le> j \<and> j \<le> n \<and>
        (\<forall>k. Suc i \<le> k \<and> k < j \<longrightarrow> unat (base (ps ! k)) \<noteq> unat b + unat sz \<and> unat b \<noteq> past (ps ! k)) \<and>
        (j = n \<and> c = 0 \<and> qs = ps \<or>
         j < n \<and> c = 1 \<and> (unat (base (ps ! j)) = unat b + unat sz \<and>
             qs = ps[j := (ps ! j)\<lparr>base := b, bytes := bytes (ps ! j) + sz\<rparr>] \<or>
           unat b = past (ps ! j) \<and> qs = ps[j := (ps ! j)\<lparr>bytes := bytes (ps ! j) + sz\<rparr>]))"
        by (rule "1.IH" [of ?p]) (use True len p adj apart "1.prems" in auto)
      have step: "add_scan i n b sz ps = add_scan (Suc i) n b sz ps"
        by (subst add_scan.simps) (use True len p adj apart in simp)
      have split: "(\<forall>k. i \<le> k \<and> k < j \<longrightarrow> P k) \<longleftrightarrow> (i < j \<longrightarrow> P i) \<and> (\<forall>k. Suc i \<le> k \<and> k < j \<longrightarrow> P k)" for j P
        by (metis Suc_leD Suc_leI le_neq_implies_less order_refl)
      from IH show ?thesis
        unfolding step split by (elim ex_forward) (use apart in auto)
    qed
  qed
qed

lemma move_down_result:
  assumes "i \<le> n" and "n < length ps"
  shows "\<exists>qs. move_down i n ps = Some qs \<and> length qs = length ps \<and>
    (\<forall>k < length ps. qs ! k = (if i \<le> k \<and> k < n then ps ! Suc k else ps ! k))"
  using assms
proof (induction i n ps rule: move_down.induct)
  case (1 i n ps)
  show ?case
  proof (cases "i < n")
    case False
    then show ?thesis by (subst move_down.simps) auto
  next
    case True
    then obtain qs where "move_down (Suc i) n (ps[i := ps ! Suc i]) = Some qs" "length qs = length ps"
      "\<forall>k < length ps. qs ! k = (if Suc i \<le> k \<and> k < n then ps[i := ps ! Suc i] ! Suc k else ps[i := ps ! Suc i] ! k)"
      using "1.IH" [of "ps ! Suc i" "ps[i := ps ! Suc i]"] "1.prems" by auto
    with True "1.prems" show ?thesis
      by (subst move_down.simps) (auto simp: nth_list_update)
  qed
qed

lemma add_shift_result:
  assumes "k < length ps" and "m \<le> k" and "\<forall>i. m \<le> i \<and> i < k \<longrightarrow> b < base (ps ! i)"
    and "0 < m \<Longrightarrow> base (ps ! (m - 1)) \<le> b"
  shows "\<exists>qs. add_shift k b sz ps = Some qs \<and> length qs = length ps \<and>
    (\<forall>i < length ps. qs ! i = (if m < i \<and> i \<le> k then ps ! (i - 1)
       else if i = m \<and> 0 < m then \<lparr>base = b, bytes = sz\<rparr> else ps ! i))"
  using assms
proof (induction k arbitrary: ps)
  case (Suc k)
  show ?case
  proof (cases "m = Suc k")
    case True
    then show ?thesis using Suc.prems by (auto simp: nth_list_update not_less)
  next
    case False
    with Suc.prems have less: "b < base (ps ! k)" "m \<le> k" by auto
    have "\<exists>qs. add_shift k b sz (ps[Suc k := ps ! k]) = Some qs \<and> length qs = length (ps[Suc k := ps ! k]) \<and>
      (\<forall>i < length (ps[Suc k := ps ! k]). qs ! i = (if m < i \<and> i \<le> k then ps[Suc k := ps ! k] ! (i - 1)
       else if i = m \<and> 0 < m then \<lparr>base = b, bytes = sz\<rparr> else ps[Suc k := ps ! k] ! i))"
      by (rule Suc.IH) (use Suc.prems less in \<open>auto simp: nth_list_update\<close>)
    then obtain qs where "add_shift k b sz (ps[Suc k := ps ! k]) = Some qs" "length qs = length ps"
      "\<forall>i < length ps. qs ! i = (if m < i \<and> i \<le> k then ps[Suc k := ps ! k] ! (i - 1)
       else if i = m \<and> 0 < m then \<lparr>base = b, bytes = sz\<rparr> else ps[Suc k := ps ! k] ! i)" by auto
    with less Suc.prems(1) show ?thesis by (auto simp: nth_list_update le_Suc_eq)
  qed
qed (auto split: if_splits)

section \<open>Tables as lists of regions\<close>

lemma live_upd:
  assumes "live r = us @ p # vs" and "length us = j"
  shows "live (r\<lparr>region := (region r)[j := q]\<rparr>) = us @ q # vs"
proof -
  have "live (r\<lparr>region := (region r)[j := q]\<rparr>) = (live r)[j := q]"
    by (simp add: live_def take_update_swap)
  with assms show ?thesis by (simp add: list_update_append)
qed

lemma cnt_pred: "cnt r \<noteq> 0 \<Longrightarrow> unat (cnt r - 1) = unat (cnt r) - 1"
  by (rule unat_minus_one)

lemma remove_region_live:
  assumes "live r = us @ p # vs" and "unat (cnt r) \<le> length (region r)"
  shows "\<exists>r'. lmb_remove_region r (length us) = Some r' \<and> length (region r') = length (region r) \<and>
    cnt r' = cnt r - 1 \<and> live r' = us @ vs"
proof -
  let ?n = "unat (cnt r)" and ?j = "length us"
  have len: "length (us @ p # vs) = ?n" using assms by (metis length_take live_def min.absorb2)
  then have n: "?j < ?n" and "cnt r \<noteq> 0" by auto
  then have c: "unat (cnt r - 1) = ?n - 1" by (intro cnt_pred)
  have "?j \<le> ?n - 1" "?n - 1 < length (region r)" using n assms(2) by auto
  from move_down_result [OF this] obtain qs where
    qs: "move_down ?j (?n - 1) (region r) = Some qs" "length qs = length (region r)"
    "\<forall>k < length (region r). qs ! k = (if ?j \<le> k \<and> k < ?n - 1 then region r ! Suc k else region r ! k)" by blast
  have nth: "region r ! k = (us @ p # vs) ! k" if "k < ?n" for k
    using that assms(1) unfolding live_def by (metis nth_take)
  have "take (?n - 1) qs = us @ vs"
  proof (rule nth_equalityI)
    show "length (take (?n - 1) qs) = length (us @ vs)" using len qs(2) assms(2) by auto
    fix k assume "k < length (take (?n - 1) qs)"
    then have k: "k < ?n - 1" "k < length (region r)" using qs(2) by auto
    then have "take (?n - 1) qs ! k = (if ?j \<le> k then (us @ p # vs) ! Suc k else (us @ p # vs) ! k)"
      using qs(3) nth [of k] nth [of "Suc k"] by auto
    then show "take (?n - 1) qs ! k = (us @ vs) ! k" by (auto simp: nth_append Suc_diff_le)
  qed
  with qs c show ?thesis by (simp add: lmb_remove_region_def live_def)
qed

text \<open>The end of \<open>lmb_add_region\<close>: a new entry in its place.\<close>

definition insert_entry :: "lmb_region \<Rightarrow> u32 \<Rightarrow> u32 \<Rightarrow> (lmb_region \<times> int) option" where
  "insert_entry r b sz = do {
     qs \<leftarrow> add_shift (unat (cnt r)) b sz (region r);
     q \<leftarrow> aget qs 0;
     qs' \<leftarrow> (if b < base q then aput qs 0 \<lparr>base = b, bytes = sz\<rparr> else Some qs);
     Some (r\<lparr>region := qs', cnt := cnt r + 1\<rparr>, 0)}"

lemma insert_entry_live:
  assumes xs: "live r = us @ vs" and n: "unat (cnt r) < length (region r)"
    and "length (region r) < 2 ^ 32"
    and us: "\<forall>p\<in>set us. base p \<le> b" and vs: "\<forall>p\<in>set vs. b < base p" and ne: "live r \<noteq> []"
  shows "\<exists>r'. insert_entry r b sz = Some (r', 0) \<and> length (region r') = length (region r) \<and>
    unat (cnt r') = Suc (unat (cnt r)) \<and> live r' = us @ \<lparr>base = b, bytes = sz\<rparr> # vs"
proof -
  let ?n = "unat (cnt r)" and ?m = "length us" and ?new = "\<lparr>base = b, bytes = sz\<rparr>"
  have len: "?m + length vs = ?n" using xs n by (metis length_append length_take live_def less_imp_le min.absorb2)
  have nth: "region r ! k = (us @ vs) ! k" if "k < ?n" for k
    using that xs unfolding live_def by (metis nth_take)
  have "0 < ?m + length vs" using ne xs by auto
  with len have pos: "0 < ?n" by (simp only:)
  have above: "\<forall>i. ?m \<le> i \<and> i < ?n \<longrightarrow> b < base (region r ! i)"
    using nth vs len by (auto simp: nth_append)
  have below: "0 < ?m \<Longrightarrow> base (region r ! (?m - 1)) \<le> b"
  proof -
    assume m: "0 < ?m"
    then have "?m - 1 < ?n" using len by linarith
    from nth [OF this] m us show ?thesis by (simp add: nth_append)
  qed
  have "?m \<le> ?n" using len by simp
  from add_shift_result [OF n this above below] obtain qs where
    qs: "add_shift ?n b sz (region r) = Some qs" "length qs = length (region r)" and
    at: "\<forall>i < length (region r). qs ! i = (if ?m < i \<and> i \<le> ?n then region r ! (i - 1)
       else if i = ?m \<and> 0 < ?m then ?new else region r ! i)" by blast
  have q0: "0 < length qs" unfolding qs(2) using n by linarith
  define qs' where "qs' = (if b < base (qs ! 0) then qs[0 := ?new] else qs)"
  have head: "b < base (qs ! 0) \<longleftrightarrow> ?m = 0"
  proof (cases "?m = 0")
    case True
    then show ?thesis using at q0 qs(2) above pos by auto
  next
    case False
    then have "qs ! 0 = us ! 0" using at q0 qs(2) nth [of 0] pos by (auto simp: nth_append)
    with False us show ?thesis by (auto simp: not_less)
  qed
  have at': "qs' ! i = (us @ ?new # vs) ! i" if "i \<le> ?n" for i
  proof (cases i ?m rule: linorder_cases)
    case less
    then show ?thesis using that n at nth [of i] qs(2) len by (auto simp: qs'_def head nth_append)
  next
    case equal
    then show ?thesis using that n at q0 qs(2) unfolding qs'_def head by (cases us) (auto simp: nth_append)
  next
    case greater
    then obtain d where i: "i = ?m + Suc d" by (metis less_iff_Suc_add add_Suc_right)
    have "qs' ! i = region r ! (?m + d)" using that n at qs(2) by (auto simp: qs'_def i)
    also have "\<dots> = (us @ vs) ! (?m + d)" by (rule nth) (use that i in simp)
    finally show ?thesis by (simp add: i nth_append)
  qed
  have "take (Suc ?n) qs' = us @ ?new # vs"
    by (rule nth_equalityI) (use n qs(2) len at' in \<open>auto simp: qs'_def\<close>)
  moreover have "unat (cnt r + 1) = Suc ?n" using n assms(3) by (simp add: unat_word_ariths)
  moreover have "insert_entry r b sz = Some (r\<lparr>region := qs', cnt := cnt r + 1\<rparr>, 0)"
    using qs q0 by (auto simp: insert_entry_def qs'_def)
  moreover have "length qs' = length (region r)" by (simp add: qs'_def qs(2))
  ultimately show ?thesis by (auto simp: live_def)
qed

section \<open>Adding a region\<close>

lemma covered_simps:
  "live r = us @ vs \<Longrightarrow> covered r = \<Union> (addrs ` set us) \<union> \<Union> (addrs ` set vs)"
  by (simp add: covered_def)

lemma apart_cases:
  assumes "tidy ps" and "sz \<noteq> 0" and "area b sz \<inter> \<Union> (addrs ` set ps) = {}" and "p \<in> set ps"
  shows "proper p" and "past p \<le> unat b \<or> unat b + unat sz \<le> unat (base p)" and "base p \<noteq> b"
proof -
  show p: "proper p" using assms(1,4) by (auto simp: tidy_def list_all_iff)
  have "area b sz \<inter> addrs p = {}" using assms(3,4) by auto
  then show d: "past p \<le> unat b \<or> unat b + unat sz \<le> unat (base p)" using disjoint_iff [OF p assms(2)] by simp
  have "unat (base p) < past p" "0 < unat sz" using p assms(2) by (auto simp: proper_def past_def unat_pos_iff)
  with d show "base p \<noteq> b" by auto
qed

text \<open>A region that grows at its front or at its rear.\<close>

definition grown_front :: "u32 \<Rightarrow> u32 \<Rightarrow> lmb_property \<Rightarrow> lmb_property" where
  "grown_front b sz p = p\<lparr>base := b, bytes := bytes p + sz\<rparr>"

definition grown_rear :: "u32 \<Rightarrow> lmb_property \<Rightarrow> lmb_property" where
  "grown_rear sz p = p\<lparr>bytes := bytes p + sz\<rparr>"

lemma grown_front:
  assumes "proper p" and "unat (base p) = unat b + unat sz"
  shows "proper (grown_front b sz p)" and "past (grown_front b sz p) = past p"
    and "base (grown_front b sz p) = b" and "addrs (grown_front b sz p) = area b sz \<union> addrs p"
proof -
  have lt: "unat (bytes p) + unat sz < 2 ^ 32" using assms by (simp add: proper_def past_def)
  note u = unat_add_no_wrap [OF lt]
  show pa: "past (grown_front b sz p) = past p" using assms u by (simp add: grown_front_def past_def)
  show b: "base (grown_front b sz p) = b" by (simp add: grown_front_def)
  have "0 < unat (bytes p + sz)" using assms(1) u by (simp add: proper_def unat_pos_iff)
  then show "proper (grown_front b sz p)" using assms(1) pa by (simp add: proper_def unat_pos_iff grown_front_def)
  show "addrs (grown_front b sz p) = area b sz \<union> addrs p"
    unfolding addrs_def pa b using assms(2) unat_le_past [of p] by auto
qed

lemma grown_rear:
  assumes "proper p" and "past p + unat sz < 2 ^ 32"
  shows "proper (grown_rear sz p)" and "past (grown_rear sz p) = past p + unat sz"
    and "base (grown_rear sz p) = base p" and "addrs (grown_rear sz p) = addrs p \<union> {past p..<past p + unat sz}"
proof -
  have lt: "unat (bytes p) + unat sz < 2 ^ 32" using assms by (simp add: past_def)
  note u = unat_add_no_wrap [OF lt]
  show pa: "past (grown_rear sz p) = past p + unat sz" using u by (simp add: grown_rear_def past_def)
  show b: "base (grown_rear sz p) = base p" by (simp add: grown_rear_def)
  have "0 < unat (bytes p + sz)" using assms(1) u by (simp add: proper_def unat_pos_iff)
  then show "proper (grown_rear sz p)" using assms(2) pa by (simp add: proper_def unat_pos_iff grown_rear_def)
  show "addrs (grown_rear sz p) = addrs p \<union> {past p..<past p + unat sz}"
    unfolding addrs_def pa b using unat_le_past [of p] by auto
qed

text \<open>What the scan of a tidy table finds, over the list of its regions.\<close>

lemma add_scan_table:
  assumes "wf_table r" and "tidy (live r)" and "sz \<noteq> 0" and "unat b + unat sz < 2 ^ 32"
    and "area b sz \<inter> covered r = {}"
  obtains (front) us p vs where "live r = us @ p # vs" "unat (base p) = unat b + unat sz"
      "\<forall>q\<in>set us. past q < unat b"
      "add_scan 0 (unat (cnt r)) b sz (region r) = Some (Scanned (length us) 1 ((region r)[length us := grown_front b sz p]))"
    | (rear) us p vs where "live r = us @ p # vs" "past p = unat b" "\<forall>q\<in>set vs. unat b + unat sz \<le> unat (base q)"
      "add_scan 0 (unat (cnt r)) b sz (region r) = Some (Scanned (length us) 1 ((region r)[length us := grown_rear sz p]))"
    | (new) us vs where "live r = us @ vs" "\<forall>q\<in>set us. past q < unat b" "\<forall>q\<in>set vs. unat b + unat sz < unat (base q)"
      "add_scan 0 (unat (cnt r)) b sz (region r) = Some (Scanned (unat (cnt r)) 0 (region r))"
proof -
  let ?n = "unat (cnt r)" and ?ps = "region r"
  have n: "?n \<le> length ?ps" using assms(1) by (auto simp: wf_table_def MAX_LMB_REGIONS_def empty_table_def)
  have all: "list_all proper (take ?n ?ps)" using assms(2) by (simp add: tidy_def live_def)
  note apart = apart_cases [OF assms(2,3) assms(5) [unfolded covered_def]]
  have ne: "\<forall>p\<in>set (take ?n ?ps). base p \<noteq> b" using apart(3) by (simp add: live_def)
  from add_scan_result [OF n _ all assms(3,4) ne, of 0] obtain j c qs where
    sc: "add_scan 0 ?n b sz ?ps = Some (Scanned j c qs)" and j: "j \<le> ?n" and
    no: "\<forall>k < j. unat (base (?ps ! k)) \<noteq> unat b + unat sz \<and> unat b \<noteq> past (?ps ! k)" and
    res: "j = ?n \<and> c = 0 \<and> qs = ?ps \<or> j < ?n \<and> c = 1 \<and>
      (unat (base (?ps ! j)) = unat b + unat sz \<and> qs = ?ps[j := grown_front b sz (?ps ! j)] \<or>
       unat b = past (?ps ! j) \<and> qs = ?ps[j := grown_rear sz (?ps ! j)])"
    unfolding grown_front_def grown_rear_def by auto
  define us where "us = take j (live r)"
  have lus: "length us = j" using j n by (simp add: us_def live_def)
  have before: "unat (base q) \<noteq> unat b + unat sz \<and> unat b \<noteq> past q" if "q \<in> set us" for q
    using that no j n by (auto simp: us_def live_def in_set_conv_nth)
  show thesis
  proof (cases "j < ?n")
    case False
    with j res have j: "j = ?n" "c = 0" "qs = ?ps" by auto
    have us_all: "us = live r" using j by (simp add: us_def live_def)
    have split: "past q < unat b \<or> unat b + unat sz < unat (base q)" if "q \<in> set (live r)" for q
      using before [of q] apart(2) [OF that] that us_all by auto
    define P where "P = (\<lambda>q. past q < unat b)"
    have "\<forall>q\<in>set (dropWhile P (live r)). unat b + unat sz < unat (base q)"
    proof (cases "dropWhile P (live r)")
      case (Cons q qs')
      then have nq: "\<not> P q" using hd_dropWhile [of P "live r"] by simp
      have app: "live r = takeWhile P (live r) @ q # qs'" using Cons by (metis takeWhile_dropWhile_id)
      then have "q \<in> set (live r)" by (metis in_set_conv_decomp)
      with nq split have q: "unat b + unat sz < unat (base q)" by (auto simp: P_def)
      have "tidy (takeWhile P (live r) @ q # qs')" using assms(2) app by simp
      then have "\<forall>p\<in>set qs'. past q < unat (base p)" by (simp add: tidy_simps)
      with q Cons show ?thesis using unat_le_past [of q] by fastforce
    next
      case Nil
      show ?thesis unfolding Nil by simp
    qed
    moreover have "\<forall>q\<in>set (takeWhile P (live r)). past q < unat b" by (auto simp: P_def dest: set_takeWhileD)
    ultimately show thesis using new [of "takeWhile P (live r)" "dropWhile P (live r)"] sc j by simp
  next
    case True
    define p vs where "p = ?ps ! j" and "vs = drop (Suc j) (live r)"
    have "j < length (live r)" and p: "live r ! j = p" using True n by (simp_all add: p_def live_def)
    from id_take_nth_drop [OF this(1)] have app: "live r = us @ p # vs"
      unfolding p by (simp add: us_def vs_def)
    have t: "proper p" "\<forall>q\<in>set us. past q < unat (base p)" "\<forall>q\<in>set vs. past p < unat (base q)"
      using assms(2) by (auto simp: app tidy_simps)
    from True res consider "unat (base p) = unat b + unat sz" "qs = ?ps[j := grown_front b sz p]" "c = 1"
      | "unat b = past p" "qs = ?ps[j := grown_rear sz p]" "c = 1" by (auto simp: p_def)
    then show thesis
    proof cases
      case 1
      have "past q < unat b" if "q \<in> set us" for q
        using before [OF that] apart(2) [of q] t(2) that 1(1) app unat_le_past [of q] by fastforce
      with front [of us p vs] app 1 sc lus show thesis by simp
    next
      case 2
      have "unat b + unat sz \<le> unat (base q)" if "q \<in> set vs" for q
        using apart(2) [of q] t(3) that 2(1) app unat_le_past [of q] by fastforce
      with rear [of us p vs] app 2 sc lus show thesis by simp
    qed
  qed
qed

lemma wf_live:
  assumes "wf_table r" and "\<not> empty_table r"
  shows "tidy (live r)" and "live r \<noteq> []" and "length (live r) = unat (cnt r)"
    and "unat (cnt r) \<le> MAX_LMB_REGIONS" and "length (region r) = Suc MAX_LMB_REGIONS"
  using assms by (auto simp: wf_table_def live_def MAX_LMB_REGIONS_def unat_eq_0)

lemma wf_tableI:
  assumes "length (region r) = Suc MAX_LMB_REGIONS" and "tidy (live r)" and "live r \<noteq> []"
    and "unat (cnt r) \<le> MAX_LMB_REGIONS"
  shows "wf_table r"
proof -
  have "cnt r \<noteq> 0" using assms(3) by (auto simp: live_def)
  with assms show ?thesis by (simp add: wf_table_def)
qed

lemma tidy_not_empty: "tidy (live r) \<Longrightarrow> live r \<noteq> [] \<Longrightarrow> \<not> empty_table r"
  by (cases "region r") (auto simp: empty_table_def live_def tidy_def proper_def list_all_iff)

lemma empty_covered: "empty_table r \<Longrightarrow> covered r = {}"
  by (cases "region r") (simp_all add: empty_table_def covered_def live_def addrs_def past_def)

text \<open>What \<open>lmb_add_region\<close> promises.\<close>

definition adds :: "lmb_region \<Rightarrow> u32 \<Rightarrow> u32 \<Rightarrow> lmb_region \<times> int \<Rightarrow> bool" where
  "adds r b sz out = (case out of (r', x) \<Rightarrow>
     if x < 0 then x = - 1 \<and> r' = r \<and> unat (cnt r) = MAX_LMB_REGIONS
     else wf_table r' \<and> \<not> empty_table r' \<and> covered r' = covered r \<union> area b sz)"

lemma next_region:
  assumes "live r = us @ p # vs" and "length (live r) = unat (cnt r)" and "cnt r \<noteq> 0"
  shows "length us < unat (cnt r - 1) \<longleftrightarrow> vs \<noteq> []"
    and "vs \<noteq> [] \<Longrightarrow> length us < length (region r) \<and> Suc (length us) < length (region r) \<and>
      region r ! length us = p \<and> region r ! Suc (length us) = hd vs"
proof -
  have len: "Suc (length us + length vs) = unat (cnt r)" using assms(1,2) by simp
  with cnt_pred [OF assms(3)] show "length us < unat (cnt r - 1) \<longleftrightarrow> vs \<noteq> []" by (cases vs) auto
  have le: "unat (cnt r) \<le> length (region r)" using assms(2) by (simp add: live_def)
  have nth: "region r ! k = (us @ p # vs) ! k" if "k < unat (cnt r)" for k
    using that assms(1) unfolding live_def by (metis nth_take)
  assume "vs \<noteq> []"
  then show "length us < length (region r) \<and> Suc (length us) < length (region r) \<and>
      region r ! length us = p \<and> region r ! Suc (length us) = hd vs"
    using nth [of "length us"] nth [of "Suc (length us)"] len le
    by (cases vs) (simp_all add: nth_append)
qed

text \<open>The rest of \<open>lmb_add_region\<close> after its scan.\<close>

lemma add_region_scanned:
  assumes "wf_table r" and "\<not> empty_table r" and "region r \<noteq> []"
  shows "add_scan 0 (unat (cnt r)) b sz (region r) = Some (Scanned i 1 ps) \<Longrightarrow>
      (if i < unat (cnt r - 1) then lmb_regions_adjacent (r\<lparr>region := ps\<rparr>) i (Suc i) else Some 0) = Some 0 \<Longrightarrow>
      lmb_add_region r b sz = Some (r\<lparr>region := ps\<rparr>, 1)"
    and "add_scan 0 (unat (cnt r)) b sz (region r) = Some (Scanned i 1 ps) \<Longrightarrow>
      (if i < unat (cnt r - 1) then lmb_regions_adjacent (r\<lparr>region := ps\<rparr>) i (Suc i) else Some 0) = Some a \<Longrightarrow>
      a \<noteq> 0 \<Longrightarrow> lmb_coalesce_regions (r\<lparr>region := ps\<rparr>) i (Suc i) = Some r2 \<Longrightarrow>
      lmb_add_region r b sz = Some (r2, 2)"
    and "add_scan 0 (unat (cnt r)) b sz (region r) = Some (Scanned (unat (cnt r)) 0 (region r)) \<Longrightarrow> cnt r \<noteq> 0 \<Longrightarrow>
      lmb_add_region r b sz =
        (if unat (cnt r) \<ge> MAX_LMB_REGIONS then Some (r, - 1) else insert_entry r b sz)"
proof -
  have guard: "\<not> (cnt r = 1 \<and> bytes (region r ! 0) = 0)"
    using wf_live(1) [OF assms(1,2)] assms(3)
    by (cases "region r") (auto simp: live_def tidy_simps proper_def)
  have z: "aget (region r) 0 = Some (region r ! 0)" using assms(3) by simp
  {
    assume sc: "add_scan 0 (unat (cnt r)) b sz (region r) = Some (Scanned i 1 ps)"
    assume "(if i < unat (cnt r - 1) then lmb_regions_adjacent (r\<lparr>region := ps\<rparr>) i (Suc i) else Some 0) = Some 0"
    with sc show "lmb_add_region r b sz = Some (r\<lparr>region := ps\<rparr>, 1)"
      unfolding lmb_add_region_def z bind.bind_lunit if_not_P [OF guard] by (simp add: Let_def)
  next
    assume sc: "add_scan 0 (unat (cnt r)) b sz (region r) = Some (Scanned i 1 ps)"
    assume "(if i < unat (cnt r - 1) then lmb_regions_adjacent (r\<lparr>region := ps\<rparr>) i (Suc i) else Some 0) = Some a"
      and "a \<noteq> 0" and "lmb_coalesce_regions (r\<lparr>region := ps\<rparr>) i (Suc i) = Some r2"
    with sc show "lmb_add_region r b sz = Some (r2, 2)"
      unfolding lmb_add_region_def z bind.bind_lunit if_not_P [OF guard] by (simp add: Let_def)
  next
    assume sc: "add_scan 0 (unat (cnt r)) b sz (region r) = Some (Scanned (unat (cnt r)) 0 (region r))"
    assume "cnt r \<noteq> 0"
    then have "\<not> unat (cnt r) < unat (cnt r - 1)" by (simp add: cnt_pred)
    with sc show "lmb_add_region r b sz =
        (if unat (cnt r) \<ge> MAX_LMB_REGIONS then Some (r, - 1) else insert_entry r b sz)"
      unfolding lmb_add_region_def z bind.bind_lunit if_not_P [OF guard] by (simp add: Let_def insert_entry_def)
  }
qed

lemma add_at_front:
  assumes wf: "wf_table r" "\<not> empty_table r" and args: "sz \<noteq> 0"
    and app: "live r = us @ p # vs" "unat (base p) = unat b + unat sz" "\<forall>q\<in>set us. past q < unat b"
    and scan: "add_scan 0 (unat (cnt r)) b sz (region r) =
      Some (Scanned (length us) 1 ((region r)[length us := grown_front b sz p]))"
  shows "\<exists>r'. lmb_add_region r b sz = Some (r', 1) \<and> adds r b sz (r', 1)"
proof -
  note live = wf_live [OF wf]
  let ?g = "grown_front b sz p" and ?r = "r\<lparr>region := (region r)[length us := grown_front b sz p]\<rparr>"
  have t: "proper p" "tidy us" "tidy vs" "\<forall>q\<in>set vs. past p < unat (base q)"
    "\<forall>q\<in>set us. \<forall>q'\<in>set vs. past q < unat (base q')"
    using live(1) by (auto simp: app(1) tidy_simps)
  note g = grown_front [OF t(1) app(2)]
  have lr: "live ?r = us @ ?g # vs" by (rule live_upd [OF app(1) refl])
  have tidy: "tidy (live ?r)" using t app(3) g by (simp add: lr tidy_simps)
  have wf': "wf_table ?r" by (rule wf_tableI) (use live tidy lr in \<open>simp_all add: lr\<close>)
  have c0: "cnt r \<noteq> 0" "0 < length (region r)" using live by (auto simp: live_def)
  have no: "lmb_regions_adjacent ?r (length us) (Suc (length us)) = Some 0" if "vs \<noteq> []"
  proof -
    have ll: "length (live ?r) = unat (cnt ?r)" using live(3) by (simp add: lr app(1))
    from next_region(2) [OF lr ll _ that] c0 have nx: "Suc (length us) < length (region ?r)"
      "region ?r ! length us = ?g" "region ?r ! Suc (length us) = hd vs" by auto
    have q: "proper (hd vs)" "past ?g < unat (base (hd vs))" using that t g by (cases vs; auto simp: tidy_simps)+
    have gp: "bytes ?g \<noteq> 0" "unat (base ?g) + unat (bytes ?g) = past ?g" "past ?g < 2 ^ 32"
      using g(1) by (simp_all add: proper_def past_def)
    have "lmb_addrs_adjacent (base ?g) (bytes ?g) (base (hd vs)) (bytes (hd vs)) = 0"
      using adjacent_iff [OF q(1) gp(1), of "base ?g"] gp q(2) unat_le_past [of ?g] unat_le_past [of "hd vs"] by auto
    with nx show ?thesis by (simp add: lmb_regions_adjacent_def)
  qed
  have "lmb_add_region r b sz = Some (?r, 1)"
    by (rule add_region_scanned(1) [OF wf _ scan])
      (use c0 no next_region(1) [OF app(1) live(3) c0(1)] in simp_all)
  moreover have "covered ?r = covered r \<union> area b sz"
    by (auto simp: covered_def lr app(1) g(4))
  ultimately show ?thesis using wf' tidy_not_empty [OF tidy] lr by (simp add: adds_def)
qed

lemma add_at_rear:
  assumes wf: "wf_table r" "\<not> empty_table r" and args: "sz \<noteq> 0" "unat b + unat sz < 2 ^ 32"
    and app: "live r = us @ p # vs" "past p = unat b" "\<forall>q\<in>set vs. unat b + unat sz \<le> unat (base q)"
    and scan: "add_scan 0 (unat (cnt r)) b sz (region r) =
      Some (Scanned (length us) 1 ((region r)[length us := grown_rear sz p]))"
  shows "\<exists>r' x. lmb_add_region r b sz = Some (r', x) \<and> 0 < x \<and> adds r b sz (r', x)"
proof -
  note live = wf_live [OF wf]
  let ?g = "grown_rear sz p" and ?r = "r\<lparr>region := (region r)[length us := grown_rear sz p]\<rparr>"
  have t: "proper p" "tidy us" "tidy vs" "\<forall>q\<in>set vs. past p < unat (base q)"
    "\<forall>q\<in>set us. past q < unat (base p)" "\<forall>q\<in>set us. \<forall>q'\<in>set vs. past q < unat (base q')"
    using live(1) by (auto simp: app(1) tidy_simps)
  note g = grown_rear [OF t(1), of sz, unfolded app(2), OF args(2)]
  have lr: "live ?r = us @ ?g # vs" by (rule live_upd [OF app(1) refl])
  have c0: "cnt r \<noteq> 0" "region r \<noteq> []" using live by (auto simp: live_def)
  have gp: "bytes ?g \<noteq> 0" "unat (base ?g) + unat (bytes ?g) = past ?g" "past ?g < 2 ^ 32"
    using g(1) by (simp_all add: proper_def past_def)
  have cov: "\<Union> (addrs ` set (us @ ?g # vs)) = covered r \<union> area b sz"
    by (auto simp: covered_def app(1) g(4))
  note more = next_region(1) [OF app(1) live(3) c0(1)]
  show ?thesis
  proof (cases "vs \<noteq> [] \<and> unat (base (hd vs)) = unat b + unat sz")
    case False
    have sep: "unat b + unat sz < unat (base q)" if "q \<in> set vs" for q
    proof (cases vs)
      case (Cons v vs')
      with False app(3) have "unat b + unat sz < unat (base v)" by auto
      moreover have "q = v \<or> past v < unat (base q)" using that t(3) Cons by (auto simp: tidy_simps)
      ultimately show ?thesis using unat_le_past [of v] by auto
    qed (use that in simp)
    have tidy: "tidy (live ?r)" using t app g sep by (simp add: lr tidy_simps)
    have wf': "wf_table ?r" by (rule wf_tableI) (use live tidy in \<open>simp_all add: lr\<close>)
    have no: "lmb_regions_adjacent ?r (length us) (Suc (length us)) = Some 0" if "vs \<noteq> []"
    proof -
      have ll: "length (live ?r) = unat (cnt ?r)" using live(3) by (simp add: lr app(1))
      from next_region(2) [OF lr ll _ that] c0 have nx: "Suc (length us) < length (region ?r)"
        "region ?r ! length us = ?g" "region ?r ! Suc (length us) = hd vs" by auto
      have q: "proper (hd vs)" "past ?g < unat (base (hd vs))" using that t(3) g(2) sep by (cases vs; auto simp: tidy_simps)+
      have "lmb_addrs_adjacent (base ?g) (bytes ?g) (base (hd vs)) (bytes (hd vs)) = 0"
        using adjacent_iff [OF q(1) gp(1), of "base ?g"] gp q(2) unat_le_past [of ?g] unat_le_past [of "hd vs"] by auto
      with nx show ?thesis by (simp add: lmb_regions_adjacent_def)
    qed
    have "lmb_add_region r b sz = Some (?r, 1)"
      by (rule add_region_scanned(1) [OF wf _ scan]) (use c0 no more in simp_all)
    moreover have "covered ?r = covered r \<union> area b sz" by (simp only: covered_def [of ?r] lr cov)
    ultimately show ?thesis using wf' tidy_not_empty [OF tidy] lr
      by (intro exI [of _ ?r] exI [of _ "1 :: int"]) (simp add: adds_def)
  next
    case True
    then obtain v vs' where vs: "vs = v # vs'" and v: "unat (base v) = unat b + unat sz" by (cases vs) auto
    let ?h = "grown_rear (bytes v) ?g"
    let ?r1 = "?r\<lparr>region := (region ?r)[length us := ?h]\<rparr>"
    have tv: "proper v" "tidy vs'" "\<forall>q\<in>set vs'. past v < unat (base q)" using t(3) by (auto simp: vs tidy_simps)
    have pv: "past ?g + unat (bytes v) = past v" using g(2) v by (simp add: past_def)
    then have lt: "past ?g + unat (bytes v) < 2 ^ 32" using tv(1) by (simp add: proper_def)
    note h = grown_rear [OF g(1) lt, unfolded pv]
    have lr1: "live ?r1 = us @ ?h # v # vs'" by (rule live_upd) (use lr vs in simp_all)
    have ll: "length (live ?r) = unat (cnt ?r)" using live(3) by (simp add: lr app(1))
    from next_region(2) [OF lr ll] True c0 vs have nx: "length us < length (region ?r)" "Suc (length us) < length (region ?r)"
      "region ?r ! length us = ?g" "region ?r ! Suc (length us) = v" by auto
    have adj: "lmb_regions_adjacent ?r (length us) (Suc (length us)) = Some 1"
      using nx adjacent_iff [OF tv(1) gp(1), of "base ?g"] gp g(2) v by (simp add: lmb_regions_adjacent_def)
    have "unat (cnt ?r1) \<le> length (region ?r1)" using live(4,5) by (simp add: MAX_LMB_REGIONS_def)
    moreover have "live ?r1 = (us @ [?h]) @ v # vs'" using lr1 by simp
    ultimately obtain r2 where r2: "lmb_remove_region ?r1 (Suc (length us)) = Some r2"
      "length (region r2) = length (region r)" "cnt r2 = cnt r - 1" "live r2 = us @ ?h # vs'"
      using remove_region_live [of ?r1 "us @ [?h]" v vs'] by auto
    have co: "lmb_coalesce_regions ?r (length us) (Suc (length us)) = Some r2"
      using nx r2(1) by (simp add: lmb_coalesce_regions_def grown_rear_def)
    have "lmb_add_region r b sz = Some (r2, 2)"
      by (rule add_region_scanned(2) [OF wf c0(2) scan, of 1]) (use adj co more vs in simp_all)
    moreover have tidy: "tidy (live r2)"
      using t tv g h by (auto simp: r2(4) tidy_simps vs)
    moreover have "wf_table r2"
      by (rule wf_tableI) (use live tidy r2 c0 cnt_pred [OF c0(1)] in auto)
    moreover have "covered r2 = covered r \<union> area b sz"
    proof -
      have "addrs ?h = addrs ?g \<union> addrs v" using h(4) g(2) v pv by (simp add: addrs_def)
      then show ?thesis using cov by (simp add: covered_def [of r2] r2(4) vs Un_ac)
    qed
    ultimately show ?thesis using tidy_not_empty [OF tidy] r2(4)
      by (intro exI [of _ r2] exI [of _ "2 :: int"]) (simp add: adds_def)
  qed
qed

lemma add_new:
  assumes wf: "wf_table r" "\<not> empty_table r" and args: "sz \<noteq> 0" "unat b + unat sz < 2 ^ 32"
    and app: "live r = us @ vs" "\<forall>q\<in>set us. past q < unat b" "\<forall>q\<in>set vs. unat b + unat sz < unat (base q)"
    and scan: "add_scan 0 (unat (cnt r)) b sz (region r) = Some (Scanned (unat (cnt r)) 0 (region r))"
  shows "\<exists>r' x. lmb_add_region r b sz = Some (r', x) \<and> (x = 0 \<or> unat (cnt r) = MAX_LMB_REGIONS) \<and> adds r b sz (r', x)"
proof -
  note live = wf_live [OF wf]
  have c0: "cnt r \<noteq> 0" "region r \<noteq> []" using live by (auto simp: live_def)
  note run = add_region_scanned(3) [OF wf c0(2) scan c0(1)]
  show ?thesis
  proof (cases "unat (cnt r) \<ge> MAX_LMB_REGIONS")
    case True
    with run live(4) show ?thesis by (auto simp: adds_def)
  next
    case False
    let ?new = "\<lparr>base = b, bytes = sz\<rparr>"
    have t: "tidy us" "tidy vs" "\<forall>p\<in>set us. \<forall>q\<in>set vs. past p < unat (base q)" using live(1) by (auto simp: app(1) tidy_simps)
    have "base p \<le> b" if "p \<in> set us" for p
      using app(2) that unat_le_past [of p] by (fastforce simp: word_le_nat_alt)
    moreover have "b < base p" if "p \<in> set vs" for p
      using app(3) that by (fastforce simp: word_less_nat_alt)
    ultimately have b: "\<forall>p\<in>set us. base p \<le> b" "\<forall>p\<in>set vs. b < base p" by auto
    obtain r' where r': "insert_entry r b sz = Some (r', 0)" "length (region r') = length (region r)"
      "unat (cnt r') = Suc (unat (cnt r))" "live r' = us @ ?new # vs"
      using insert_entry_live [OF app(1) _ _ b live(2)] live(4,5) by (auto simp: MAX_LMB_REGIONS_def)
    have new: "proper ?new" "past ?new = unat b + unat sz" "addrs ?new = area b sz"
      using args by (simp_all add: proper_def past_def addrs_def)
    have tidy: "tidy (live r')" using t app new by (simp add: r'(4) tidy_simps)
    have "wf_table r'" by (rule wf_tableI) (use live tidy r' False in auto)
    moreover have "covered r' = covered r \<union> area b sz" using new(3) by (auto simp: covered_def app(1) r'(4))
    ultimately show ?thesis using run False r'(1,4) tidy_not_empty [OF tidy] by (auto simp: adds_def)
  qed
qed

lemma add_to_empty:
  assumes "wf_table r" and "empty_table r" and "sz \<noteq> 0" and "unat b + unat sz < 2 ^ 32"
  shows "\<exists>r'. lmb_add_region r b sz = Some (r', 0) \<and> adds r b sz (r', 0)"
proof -
  let ?r = "r\<lparr>region := (region r)[0 := \<lparr>base = b, bytes = sz\<rparr>]\<rparr>"
  have len: "length (region r) = 9" and e: "cnt r = 1" "region r ! 0 = \<lparr>base = 0, bytes = 0\<rparr>"
    using assms(1,2) by (auto simp: wf_table_def empty_table_def MAX_LMB_REGIONS_def)
  have lr: "live ?r = [\<lparr>base = b, bytes = sz\<rparr>]" using len e by (cases "region r") (simp_all add: live_def)
  have tidy: "tidy (live ?r)" using assms(3,4) by (simp add: lr tidy_simps proper_def past_def)
  have "wf_table ?r" by (rule wf_tableI) (use len e tidy in \<open>simp_all add: lr MAX_LMB_REGIONS_def\<close>)
  moreover have "lmb_add_region r b sz = Some (?r, 0)"
  proof -
    have "0 < length (region r)" using len by simp
    then show ?thesis using e by (simp add: lmb_add_region_def)
  qed
  moreover have "covered ?r = covered r \<union> area b sz"
    using empty_covered [OF assms(2)] by (simp add: covered_def lr addrs_def past_def)
  ultimately show ?thesis using tidy_not_empty [OF tidy] by (simp add: adds_def lr)
qed

lemma add_region:
  assumes "wf_table r" and "sz \<noteq> 0" and "unat b + unat sz < 2 ^ 32" and "area b sz \<inter> covered r = {}"
  shows "\<exists>out. lmb_add_region r b sz = Some out \<and> adds r b sz out"
proof (cases "empty_table r")
  case True
  from add_to_empty [OF assms(1) True assms(2,3)] show ?thesis by blast
next
  case False
  note live = wf_live [OF assms(1) False]
  from assms(1) live(1) assms(2-4) show ?thesis
  proof (cases rule: add_scan_table)
    case (front us p vs)
    from add_at_front [OF assms(1) False assms(2) front] show ?thesis by blast
  next
    case (rear us p vs)
    from add_at_rear [OF assms(1) False assms(2,3) rear] show ?thesis by blast
  next
    case (new us vs)
    from add_new [OF assms(1) False assms(2,3) new] show ?thesis by blast
  qed
qed

end
