(* ===== verification/LmbAlloc.thy ===== *)
theory LmbAlloc imports LmbSpec begin

text \<open>
  The operations of lmb.c against the set of addresses its tables cover: reserving, freeing,
  asking and allocating, with the cases in which they miss it.
\<close>

section \<open>Freeing a region\<close>

lemma find_holder_result:
  assumes "n \<le> length ps" and "i \<le> n"
  shows "\<exists>j. find_holder i n b e ps = Some j \<and> i \<le> j \<and> j \<le> n \<and>
    (\<forall>k. i \<le> k \<and> k < j \<longrightarrow> \<not> (base (ps ! k) \<le> b \<and> e \<le> base (ps ! k) + bytes (ps ! k))) \<and>
    (j < n \<longrightarrow> base (ps ! j) \<le> b \<and> e \<le> base (ps ! j) + bytes (ps ! j))"
  using assms
proof (induction i n b e ps rule: find_holder.induct)
  case (1 i n b e ps)
  show ?case
  proof (cases "i < n \<and> \<not> (base (ps ! i) \<le> b \<and> e \<le> base (ps ! i) + bytes (ps ! i))")
    case True
    with "1.prems" have step: "find_holder i n b e ps = find_holder (Suc i) n b e ps"
      by (subst find_holder.simps) auto
    from True "1.prems" obtain j where j: "find_holder (Suc i) n b e ps = Some j" "Suc i \<le> j" "j \<le> n"
      "\<forall>k. Suc i \<le> k \<and> k < j \<longrightarrow> \<not> (base (ps ! k) \<le> b \<and> e \<le> base (ps ! k) + bytes (ps ! k))"
      "j < n \<longrightarrow> base (ps ! j) \<le> b \<and> e \<le> base (ps ! j) + bytes (ps ! j)"
      using "1.IH" [of "ps ! i"] by auto
    have "\<not> (base (ps ! k) \<le> b \<and> e \<le> base (ps ! k) + bytes (ps ! k))" if "i \<le> k" "k < j" for k
      using that True j(4) by (cases "k = i") auto
    with j show ?thesis unfolding step by (intro exI [of _ j]) auto
  next
    case False
    with "1.prems" show ?thesis by (intro exI [of _ i]) (subst find_holder.simps, auto)
  qed
qed

text \<open>In a tidy table the holder of a region that is not empty is the region that contains it.\<close>

lemma holder_iff:
  assumes "proper p" and "sz \<noteq> 0" and "unat b + unat sz < 2 ^ 32"
  shows "base p \<le> b \<and> b + sz \<le> base p + bytes p \<longleftrightarrow> area b sz \<subseteq> addrs p"
proof -
  have "0 < unat sz" using assms(2) by (simp add: unat_pos_iff)
  moreover have "unat (b + sz) = unat b + unat sz" "unat (base p + bytes p) = past p"
    by (rule unat_add_no_wrap [OF assms(3)], rule proper_end [OF assms(1)])
  ultimately show ?thesis by (auto simp: word_le_nat_alt addrs_def)
qed

lemma tidy_disjoint: "tidy (us @ p # vs) \<Longrightarrow> q \<in> set us \<union> set vs \<Longrightarrow> addrs p \<inter> addrs q = {}"
  using unat_le_past by (fastforce simp: tidy_simps addrs_def)

lemma holder_found:
  assumes "wf_table r" and "\<not> empty_table r" and "live r = us @ p # vs" and "sz \<noteq> 0"
    and "unat b + unat sz < 2 ^ 32" and "area b sz \<subseteq> addrs p"
  shows "find_holder 0 (unat (cnt r)) b (b + sz) (region r) = Some (length us)"
proof -
  note live = wf_live [OF assms(1,2)]
  have n: "unat (cnt r) \<le> length (region r)" using live by simp
  have len: "length us < unat (cnt r)" using live(3) assms(3) by simp
  have nth: "region r ! k = (us @ p # vs) ! k" if "k < unat (cnt r)" for k
    using that assms(3) unfolding live_def by (metis nth_take)
  have proper: "proper ((us @ p # vs) ! k)" if "k < unat (cnt r)" for k
    using that live(1,3) assms(3) by (metis list_all_length tidy_def)
  have iff: "base (region r ! k) \<le> b \<and> b + sz \<le> base (region r ! k) + bytes (region r ! k) \<longleftrightarrow> k = length us"
    if k: "k < unat (cnt r)" for k
  proof -
    have "area b sz \<subseteq> addrs ((us @ p # vs) ! k) \<longleftrightarrow> k = length us"
    proof
      assume sub: "area b sz \<subseteq> addrs ((us @ p # vs) ! k)"
      have "unat b \<in> area b sz" using assms(4) by (simp add: unat_pos_iff)
      then have "unat b \<in> addrs p \<inter> addrs ((us @ p # vs) ! k)" using sub assms(6) by blast
      then have "addrs p \<inter> addrs ((us @ p # vs) ! k) \<noteq> {}" by blast
      then have "(us @ p # vs) ! k \<notin> set us \<union> set vs"
        using tidy_disjoint live(1) assms(3) by metis
      then show "k = length us"
        using k live(3) assms(3) by (auto simp: nth_append nth_Cons split: if_splits nat.splits)
    qed (use assms(6) in simp)
    then show ?thesis using holder_iff [OF proper [OF k] assms(4,5)] nth [OF k] by simp
  qed
  from find_holder_result [OF n, of 0 b "b + sz"] obtain j where
    j: "find_holder 0 (unat (cnt r)) b (b + sz) (region r) = Some j" "j \<le> unat (cnt r)"
      "\<forall>k < j. \<not> (base (region r ! k) \<le> b \<and> b + sz \<le> base (region r ! k) + bytes (region r ! k))"
      "j < unat (cnt r) \<Longrightarrow> base (region r ! j) \<le> b \<and> b + sz \<le> base (region r ! j) + bytes (region r ! j)"
    by auto
  have "j = length us"
  proof (cases j "length us" rule: linorder_cases)
    case less
    with len have "j < unat (cnt r)" by simp
    with j(4) iff [OF this] show ?thesis by simp
  next
    case greater
    then show ?thesis using j(3) iff [OF len] by blast
  qed
  with j(1) show ?thesis by simp
qed

text \<open>What \<open>lmb_free\<close> promises for a region inside the entry \<open>p\<close>.\<close>

definition frees :: "lmb_region \<Rightarrow> lmb_property \<Rightarrow> u32 \<Rightarrow> u32 \<Rightarrow> lmb_region \<times> int \<Rightarrow> bool" where
  "frees r p b sz out = (case out of (r', x) \<Rightarrow> wf_table r' \<and>
     (if x < 0 then unat (cnt r) = MAX_LMB_REGIONS \<and> covered r' = covered r - {unat b..<past p}
      else covered r' = covered r - area b sz))"

lemma covered_split: "live r = us @ p # vs \<Longrightarrow> covered r = \<Union> (addrs ` set us) \<union> addrs p \<union> \<Union> (addrs ` set vs)"
  by (auto simp: covered_def)

lemma covered_minus:
  assumes "tidy (us @ p # vs)" and "live r = us @ p # vs" and "A \<subseteq> addrs p"
  shows "covered r - A = \<Union> (addrs ` set us) \<union> (addrs p - A) \<union> \<Union> (addrs ` set vs)"
  using tidy_disjoint [OF assms(1)] assms(3) unfolding covered_split [OF assms(2)] by blast

lemma shrunk:
  assumes "wf_table r" and "\<not> empty_table r" and "live r = us @ p # vs"
    and "proper q" and "addrs q = addrs p - A" and "A \<subseteq> addrs p" and "unat (base p) \<le> unat (base q)" and "past q \<le> past p"
  shows "wf_table (r\<lparr>region := (region r)[length us := q]\<rparr>)" and
    "covered (r\<lparr>region := (region r)[length us := q]\<rparr>) = covered r - A" and
    "\<not> empty_table (r\<lparr>region := (region r)[length us := q]\<rparr>)" and
    "live (r\<lparr>region := (region r)[length us := q]\<rparr>) = us @ q # vs"
proof -
  note live = wf_live [OF assms(1,2)]
  let ?r = "r\<lparr>region := (region r)[length us := q]\<rparr>"
  show lr: "live ?r = us @ q # vs" by (rule live_upd [OF assms(3) refl])
  have tidy: "tidy (live ?r)"
    using live(1) assms(4,7,8) unfolding lr assms(3) by (fastforce simp: tidy_simps)
  show "wf_table ?r" by (rule wf_tableI) (use live tidy in \<open>simp_all add: lr\<close>)
  show "\<not> empty_table ?r" by (rule tidy_not_empty [OF tidy]) (simp add: lr)
  show "covered ?r = covered r - A"
    unfolding covered_minus [OF live(1) [unfolded assms(3)] assms(3,6)] covered_split [OF lr] assms(5) ..
qed

lemma free_region:
  assumes wf: "wf_table r" "\<not> empty_table r" and app: "live r = us @ p # vs" and sz: "sz \<noteq> 0"
    and sub: "area b sz \<subseteq> addrs p" and rest: "us @ vs \<noteq> [] \<or> area b sz \<noteq> addrs p"
  shows "\<exists>out. free_region r b sz = Some out \<and> frees r p b sz out"
proof -
  note live = wf_live [OF wf]
  have tidy: "tidy (us @ p # vs)" using live(1) app by simp
  then have p: "proper p" by (simp add: tidy_simps)
  have pos: "0 < unat sz" "0 < unat (bytes p)" using sz p by (auto simp: proper_def unat_pos_iff)
  have ends: "unat (base p) \<le> unat b" "unat b + unat sz \<le> past p" using sub pos by (auto simp: addrs_def)
  have pl: "past p < 2 ^ 32" using p by (simp add: proper_def)
  then have nw: "unat b + unat sz < 2 ^ 32" using ends by simp
  note e = unat_add_no_wrap [OF nw] proper_end [OF p]
  note found = holder_found [OF wf app sz nw sub]
  have i: "length us < unat (cnt r)" using live(3) app by simp
  have at: "aget (region r) (length us) = Some p"
  proof -
    have "length us < length (region r)" using i live(4,5) by simp
    moreover have "region r ! length us = p" using app i unfolding live_def by (metis nth_append_length nth_take)
    ultimately show ?thesis by simp
  qed
  have put: "aput (region r) (length us) q = Some ((region r)[length us := q])" for q
    using i live(4,5) by simp
  have front: "base p = b \<longleftrightarrow> unat (base p) = unat b" and rear: "base p + bytes p = b + sz \<longleftrightarrow> past p = unat b + unat sz"
    using e by (simp_all add: word_unat_eq_iff)
  have bytes: "unat (bytes p - sz) = unat (bytes p) - unat sz"
    using ends by (intro unat_sub) (simp add: word_le_nat_alt past_def)
  note run = free_region_def [of r b sz] Let_def found at
  show ?thesis
  proof (cases "base p = b"; cases "base p + bytes p = b + sz")
    assume f: "base p = b" "base p + bytes p = b + sz"
    have whole: "area b sz = addrs p" using f front rear by (simp add: addrs_def)
    have "unat (cnt r) \<le> length (region r)" using live(4,5) by simp
    from remove_region_live [OF app this] obtain r' where r': "lmb_remove_region r (length us) = Some r'"
      "length (region r') = length (region r)" "cnt r' = cnt r - 1" "live r' = us @ vs" by blast
    have t: "tidy (live r')" using tidy by (auto simp: r'(4) tidy_simps)
    have "unat (cnt r') \<le> MAX_LMB_REGIONS" using r'(3) live(4) cnt_pred [of r] i by fastforce
    then have "wf_table r'" by (intro wf_tableI) (use rest whole t r' live(5) in auto)
    moreover have "covered r' = covered r - area b sz"
      using covered_minus [OF tidy app sub] unfolding covered_simps [OF r'(4)] whole by simp
    ultimately show ?thesis using f i r'(1) by (simp add: run frees_def)
  next
    assume f: "base p = b" "base p + bytes p \<noteq> b + sz"
    let ?q = "\<lparr>base = b + sz, bytes = bytes p - sz\<rparr>"
    have lt: "unat b + unat sz < past p" using f ends rear by simp
    have q: "past ?q = past p" using e bytes ends front f by (simp add: past_def)
    have pq: "proper ?q" using lt bytes pl f q by (simp add: proper_def past_def word_unat_eq_iff)
    have a: "addrs ?q = addrs p - area b sz" unfolding addrs_def q using e f by auto
    have "frees r p b sz (r\<lparr>region := (region r)[length us := ?q]\<rparr>, 0)"
      using shrunk(1,2) [OF wf app pq a sub] ends e q by (simp add: frees_def)
    then show ?thesis using f i put by (simp add: run)
  next
    assume f: "base p \<noteq> b" "base p + bytes p = b + sz"
    let ?q = "p\<lparr>bytes := bytes p - sz\<rparr>"
    have lt: "unat (base p) < unat b" using f ends front by simp
    have q: "past ?q = unat b" using bytes rear f ends by (simp add: past_def)
    have pq: "proper ?q" using lt bytes pl f q ends by (simp add: proper_def past_def word_unat_eq_iff)
    have a: "addrs ?q = addrs p - area b sz" unfolding addrs_def q using f rear lt by auto
    have "frees r p b sz (r\<lparr>region := (region r)[length us := ?q]\<rparr>, 0)"
      using shrunk(1,2) [OF wf app pq a sub] ends q by (simp add: frees_def)
    then show ?thesis using f i put by (simp add: run)
  next
    assume f: "base p \<noteq> b" "base p + bytes p \<noteq> b + sz"
    let ?q = "p\<lparr>bytes := b - base p\<rparr>" and ?e = "b + sz" and ?l = "base p + bytes p - (b + sz)"
    let ?r = "r\<lparr>region := (region r)[length us := ?q]\<rparr>" and ?T = "{unat b..<past p}"
    have lt: "unat (base p) < unat b" "unat b + unat sz < past p" using f ends front rear by simp_all
    have ub: "unat (b - base p) = unat b - unat (base p)" using lt by (intro unat_sub) (simp add: word_le_nat_alt)
    have ul: "unat ?l = past p - (unat b + unat sz)"
      using e lt by (subst unat_sub) (simp_all add: word_le_nat_alt)
    have q: "past ?q = unat b" using ub lt by (simp add: past_def)
    have pq: "proper ?q" using lt ub q pl by (simp add: proper_def word_unat_eq_iff)
    have a: "addrs ?q = addrs p - ?T" "?T \<subseteq> addrs p" unfolding addrs_def q using lt by auto
    note s = shrunk [OF wf app pq a(1,2)]
    have s: "wf_table ?r" "covered ?r = covered r - ?T" using s(1,2) lt q ends by simp_all
    have area: "area ?e ?l = {unat b + unat sz..<past p}" using e ul lt by simp
    have "?l \<noteq> 0" using ul lt by (auto simp: word_unat_eq_iff)
    moreover have "area ?e ?l \<inter> covered ?r = {}" unfolding s(2) area by auto
    moreover have "unat ?e + unat ?l < 2 ^ 32" using e ul lt pl by simp
    ultimately obtain out where out: "lmb_add_region ?r ?e ?l = Some out" "adds ?r ?e ?l out"
      using add_region [OF s(1)] by blast
    have cov: "covered r - ?T \<union> {unat b + unat sz..<past p} = covered r - area b sz"
    proof -
      have "addrs p \<subseteq> covered r" using app by (auto simp: covered_def)
      then have "{unat b + unat sz..<past p} \<subseteq> covered r" using lt by (auto simp: addrs_def)
      then show ?thesis using lt by auto
    qed
    have "frees r p b sz out"
      using out(2) s cov unfolding adds_def frees_def area by (auto split: prod.splits if_splits)
    moreover have "free_region r b sz = Some out" using f i put out(1) by (simp add: run)
    ultimately show ?thesis by blast
  qed
qed

section \<open>Finding room\<close>

lemma find_overlap_result:
  assumes "n \<le> length ps" and "i \<le> n"
  shows "\<exists>j. find_overlap i n b sz ps = Some j \<and> i \<le> j \<and> j \<le> n \<and>
    (\<forall>k. i \<le> k \<and> k < j \<longrightarrow> \<not> lmb_addrs_overlap b sz (base (ps ! k)) (bytes (ps ! k))) \<and>
    (j < n \<longrightarrow> lmb_addrs_overlap b sz (base (ps ! j)) (bytes (ps ! j)))"
  using assms
proof (induction i n b sz ps rule: find_overlap.induct)
  case (1 i n b sz ps)
  show ?case
  proof (cases "i < n \<and> \<not> lmb_addrs_overlap b sz (base (ps ! i)) (bytes (ps ! i))")
    case True
    with "1.prems" have step: "find_overlap i n b sz ps = find_overlap (Suc i) n b sz ps"
      by (subst find_overlap.simps) auto
    from True "1.prems" obtain j where j: "find_overlap (Suc i) n b sz ps = Some j" "Suc i \<le> j" "j \<le> n"
      "\<forall>k. Suc i \<le> k \<and> k < j \<longrightarrow> \<not> lmb_addrs_overlap b sz (base (ps ! k)) (bytes (ps ! k))"
      "j < n \<longrightarrow> lmb_addrs_overlap b sz (base (ps ! j)) (bytes (ps ! j))"
      using "1.IH" [of "ps ! i"] by auto
    have "\<not> lmb_addrs_overlap b sz (base (ps ! k)) (bytes (ps ! k))" if "i \<le> k" "k < j" for k
      using that True j(4) by (cases "k = i") auto
    with j show ?thesis unfolding step by (intro exI [of _ j]) auto
  next
    case False
    with "1.prems" show ?thesis by (intro exI [of _ i]) (subst find_overlap.simps, auto)
  qed
qed

lemma wf_proper_or_dummy:
  assumes "wf_table r" and "p \<in> set (live r)"
  shows "proper p \<or> p = \<lparr>base = 0, bytes = 0\<rparr>"
proof (cases "empty_table r")
  case True
  then show ?thesis using assms(2) by (cases "region r") (auto simp: empty_table_def live_def)
next
  case False
  then show ?thesis using wf_live(1) [OF assms(1)] assms(2) by (auto simp: tidy_def list_all_iff)
qed

lemma overlap_addrs:
  assumes "wf_table r" and "p \<in> set (live r)" and "sz \<noteq> 0" and "unat b + unat sz < 2 ^ 32"
  shows "lmb_addrs_overlap b sz (base p) (bytes p) \<longleftrightarrow> area b sz \<inter> addrs p \<noteq> {}"
  using wf_proper_or_dummy [OF assms(1,2)]
proof
  assume p: "proper p"
  show ?thesis using overlap_iff [OF p assms(4)] disjoint_iff [OF p assms(3)] by auto
next
  assume "p = \<lparr>base = 0, bytes = 0\<rparr>"
  then show ?thesis by (simp add: lmb_addrs_overlap_def addrs_def past_def)
qed

lemma table_size: "wf_table r \<Longrightarrow> unat (cnt r) \<le> length (region r)"
  by (auto simp: wf_table_def empty_table_def MAX_LMB_REGIONS_def)

text \<open>\<open>lmb_overlaps_region\<close> gives - 1 exactly for areas that are not covered.\<close>

lemma overlaps_region:
  assumes "wf_table r" and "sz \<noteq> 0" and "unat b + unat sz < 2 ^ 32"
  obtains "lmb_overlaps_region r b sz = Some (- 1)" "area b sz \<inter> covered r = {}"
    | j p where "lmb_overlaps_region r b sz = Some (int j)" "aget (region r) j = Some p"
      "p \<in> set (live r)" "proper p" "area b sz \<inter> addrs p \<noteq> {}"
proof -
  let ?n = "unat (cnt r)"
  have n: "?n \<le> length (region r)" by (rule table_size [OF assms(1)])
  have mem: "region r ! k \<in> set (live r)" if "k < ?n" for k
    using that n by (auto simp: live_def in_set_conv_nth)
  note ov = overlap_addrs [OF assms(1) _ assms(2,3)]
  from find_overlap_result [OF n, of 0 b sz] obtain j where
    j: "find_overlap 0 ?n b sz (region r) = Some j" "j \<le> ?n"
      "\<forall>k < j. \<not> lmb_addrs_overlap b sz (base (region r ! k)) (bytes (region r ! k))"
      "j < ?n \<Longrightarrow> lmb_addrs_overlap b sz (base (region r ! j)) (bytes (region r ! j))" by auto
  show thesis
  proof (cases "j < ?n")
    case True
    have "area b sz \<inter> addrs (region r ! j) \<noteq> {}" using ov [OF mem [OF True]] j(4) [OF True] by simp
    moreover from this have "proper (region r ! j)"
      using wf_proper_or_dummy [OF assms(1) mem [OF True]] by (auto simp: addrs_def past_def)
    ultimately show thesis using that(2) [of j "region r ! j"] True j(1) n mem [OF True]
      by (simp add: lmb_overlaps_region_def)
  next
    case False
    have "area b sz \<inter> addrs q = {}" if "q \<in> set (live r)" for q
    proof -
      from that n obtain k where k: "k < ?n" "q = region r ! k" by (auto simp: live_def in_set_conv_nth)
      then have "\<not> lmb_addrs_overlap b sz (base q) (bytes q)" using j(3) False by simp
      then show ?thesis using ov [OF that] by simp
    qed
    then have "area b sz \<inter> covered r = {}" unfolding covered_def by blast
    then show thesis using that(1) j(1) False by (simp add: lmb_overlaps_region_def)
  qed
qed

text \<open>Alignment to a power of two.\<close>

definition aligned :: "u32 \<Rightarrow> u32 \<Rightarrow> bool" where
  "aligned align b \<longleftrightarrow> lmb_align_down b align = b"

lemma pow2_mask: "k < 32 \<Longrightarrow> (2 ^ k :: u32) - 1 = mask k"
  by (simp add: mask_eq_exp_minus_1)

lemma align_down_unat: "k < 32 \<Longrightarrow> unat (lmb_align_down b (2 ^ k)) = unat b - unat b mod 2 ^ k"
proof -
  assume k: "k < 32"
  have "(b AND NOT (mask k)) + (b AND mask k) = (b AND NOT (mask k)) OR (b AND mask k)"
    by (rule disjunctive_add_eq_or, rule bit_word_eqI) (auto simp: bit_simps)
  also have "\<dots> = b" by (rule bit_word_eqI) (auto simp: bit_simps)
  finally have "b AND NOT (mask k) = b - (b AND mask k)" by (simp add: eq_diff_eq)
  moreover have "b AND mask k \<le> b" by (rule word_and_le2)
  ultimately have "unat (b AND NOT (mask k)) = unat b - unat (b AND mask k)" by (simp add: unat_sub)
  then show ?thesis by (simp add: lmb_align_down_def pow2_mask [OF k] unat_and_mask)
qed

lemma aligned_iff: "k < 32 \<Longrightarrow> aligned (2 ^ k) b \<longleftrightarrow> unat b mod 2 ^ k = 0"
  using mod_less_eq_dividend [of "unat b" "2 ^ k"]
  by (simp only: aligned_def word_unat_eq_iff align_down_unat) linarith

lemma aligned_down: "k < 32 \<Longrightarrow> aligned (2 ^ k) (lmb_align_down b (2 ^ k))"
  by (simp add: aligned_iff align_down_unat minus_mod_eq_mult_div)

lemma aligned_below:
  assumes "k < 32" and "aligned (2 ^ k) a" and "a \<le> b"
  shows "a \<le> lmb_align_down b (2 ^ k)"
proof -
  obtain q where q: "unat a = 2 ^ k * q" using assms(1,2) by (auto simp: aligned_iff)
  moreover have "unat a \<le> unat b" using assms(3) by (simp add: word_le_nat_alt)
  ultimately have "2 ^ k * q \<le> 2 ^ k * (unat b div 2 ^ k)"
    by (metis div_le_mono mult_le_mono2 nonzero_mult_div_cancel_left power_not_zero zero_neq_numeral)
  then show ?thesis using q by (simp add: word_le_nat_alt align_down_unat assms(1) minus_mod_eq_mult_div)
qed

section \<open>Allocation\<close>

text \<open>A place for \<open>sz\<close> bytes in the memory entries \<open>ps\<close>.\<close>

definition place :: "lmb_property list \<Rightarrow> lmb_region \<Rightarrow> u32 \<Rightarrow> u32 \<Rightarrow> u32 \<Rightarrow> u32 \<Rightarrow> bool" where
  "place ps res sz align max_addr b \<longleftrightarrow> b \<noteq> 0 \<and> aligned align b \<and> (\<exists>p\<in>set ps. area b sz \<subseteq> addrs p) \<and>
     area b sz \<inter> covered res = {} \<and> (max_addr = 0 \<or> unat b + unat sz \<le> unat max_addr)"

text \<open>The candidates of the inner loop, and what it answers.\<close>

definition candidate :: "lmb_region \<Rightarrow> u32 \<Rightarrow> u32 \<Rightarrow> u32 \<Rightarrow> u32 \<Rightarrow> u32 \<Rightarrow> bool" where
  "candidate res lo hi sz align b \<longleftrightarrow> b \<noteq> 0 \<and> aligned align b \<and> lo \<le> b \<and> b \<le> hi \<and> area b sz \<inter> covered res = {}"

lemma alloc_fit_result:
  assumes "wf_table res" and "sz \<noteq> 0" and "k < 32" and "aligned (2 ^ k) b" and "unat b + unat sz < 2 ^ 32"
  shows "\<exists>found. alloc_fit res lo b sz (2 ^ k) = Some found \<and>
    (case found of None \<Rightarrow> \<forall>c. \<not> candidate res lo b sz (2 ^ k) c
     | Some a \<Rightarrow> candidate res lo b sz (2 ^ k) a \<and> (\<forall>c. candidate res lo b sz (2 ^ k) c \<longrightarrow> c \<le> a))"
  using assms(4,5)
proof (induction "unat b" arbitrary: b rule: less_induct)
  case less
  show ?case
  proof (cases "b \<noteq> 0 \<and> lo \<le> b")
    case False
    then have "alloc_fit res lo b sz (2 ^ k) = Some None" by (subst alloc_fit.simps) auto
    moreover have "\<not> candidate res lo b sz (2 ^ k) c" for c
      using False by (auto simp: candidate_def word_le_0_iff)
    ultimately show ?thesis by auto
  next
    case True
    from assms(1,2) less.prems(2) show ?thesis
    proof (cases rule: overlaps_region)
      case 1
      with True have "alloc_fit res lo b sz (2 ^ k) = Some (Some b)" by (subst alloc_fit.simps) simp
      moreover have "candidate res lo b sz (2 ^ k) b" using True 1 less.prems by (simp add: candidate_def)
      ultimately show ?thesis by (auto simp: candidate_def)
    next
      case (2 j p)
      define b' where "b' = lmb_align_down (base p - sz) (2 ^ k)"
      have step: "alloc_fit res lo b sz (2 ^ k) = (if base p < sz then Some None else alloc_fit res lo b' sz (2 ^ k))"
        using True 2 by (subst alloc_fit.simps) (simp add: b'_def)
      have b: "unat b < past p" "unat (base p) < unat b + unat sz"
        using 2(5) disjoint_iff [OF 2(4) assms(2)] by auto
      have below: "unat c + unat sz \<le> unat (base p)" if "candidate res lo b sz (2 ^ k) c" for c
      proof -
        have "addrs p \<subseteq> covered res" using 2(3) by (auto simp: covered_def)
        then have "area c sz \<inter> addrs p = {}" using that by (auto simp: candidate_def)
        moreover have "unat c \<le> unat b" using that by (simp add: candidate_def word_le_nat_alt)
        ultimately show ?thesis using disjoint_iff [OF 2(4) assms(2)] b by auto
      qed
      show ?thesis
      proof (cases "base p < sz")
        case True
        then have "\<not> candidate res lo b sz (2 ^ k) c" for c using below [of c] by (auto simp: word_less_nat_alt)
        with True step show ?thesis by auto
      next
        case False
        then have sub: "unat (base p - sz) = unat (base p) - unat sz" "unat sz \<le> unat (base p)"
          by (auto simp: unat_sub not_less word_le_nat_alt)
        have le: "unat b' \<le> unat (base p - sz)" using align_down_le by (simp add: b'_def word_le_nat_alt)
        then have lt: "unat b' < unat b" and nw: "unat b' + unat sz < 2 ^ 32"
          using sub b less.prems(2) by auto
        have same: "candidate res lo b sz (2 ^ k) c \<longleftrightarrow> candidate res lo b' sz (2 ^ k) c" for c
        proof
          assume c: "candidate res lo b sz (2 ^ k) c"
          have "c \<le> base p - sz" using below [OF c] sub by (simp add: word_le_nat_alt)
          with c show "candidate res lo b' sz (2 ^ k) c"
            using aligned_below [OF assms(3)] by (simp add: candidate_def b'_def)
        next
          assume "candidate res lo b' sz (2 ^ k) c"
          then show "candidate res lo b sz (2 ^ k) c" using lt by (auto simp: candidate_def word_le_nat_alt)
        qed
        have "aligned (2 ^ k) b'" unfolding b'_def by (rule aligned_down [OF assms(3)])
        from less.hyps [OF lt this nw] False step show ?thesis unfolding same by simp
      qed
    qed
  qed
qed

text \<open>One region of memory: where the search starts in it, and what is found.\<close>

lemma start_in_region:
  assumes "proper p" and "sz \<noteq> 0" and "sz \<le> bytes p" and "k < 32" and "max_addr = 0 \<or> base p < max_addr"
    and "max_addr = 0 \<or> sz \<le> max_addr"
  defines "b \<equiv> (if max_addr = LMB_ALLOC_ANYWHERE then lmb_align_down (base p + bytes p - sz) (2 ^ k)
         else lmb_align_down (min (base p + bytes p) max_addr - sz) (2 ^ k))"
  shows "aligned (2 ^ k) b" and "unat b + unat sz < 2 ^ 32"
    and "candidate res (base p) b sz (2 ^ k) c \<longleftrightarrow> place [p] res sz (2 ^ k) max_addr c"
proof -
  define top where "top = (if max_addr = 0 then past p else min (past p) (unat max_addr))"
  have pos: "0 < unat sz" using assms(2) by (simp add: unat_pos_iff)
  have e: "unat (base p + bytes p) = past p" by (rule proper_end [OF assms(1)])
  have sp: "unat sz \<le> past p" using assms(3) by (simp add: past_def word_le_nat_alt)
  have um: "unat (min x y) = min (unat x) (unat y)" for x y :: u32 by (simp add: min_def word_le_nat_alt)
  obtain t where b: "b = lmb_align_down t (2 ^ k)" and t: "unat t = top - unat sz" and st: "unat sz \<le> top"
  proof (cases "max_addr = 0")
    case True
    then show thesis using that [of "base p + bytes p - sz"] sp e
      by (simp add: b_def LMB_ALLOC_ANYWHERE_def top_def unat_sub word_le_nat_alt)
  next
    case False
    then have "unat sz \<le> min (past p) (unat max_addr)" using sp assms(6) by (simp add: word_le_nat_alt)
    then show thesis using that [of "min (base p + bytes p) max_addr - sz"] False e
      by (simp add: b_def LMB_ALLOC_ANYWHERE_def top_def unat_sub word_le_nat_alt um)
  qed
  show "aligned (2 ^ k) b" unfolding b by (rule aligned_down [OF assms(4)])
  have bt: "unat b \<le> unat t" using align_down_le by (simp add: b word_le_nat_alt)
  have tp: "top \<le> past p" "past p < 2 ^ 32" using assms(1) by (simp_all add: top_def proper_def)
  then show "unat b + unat sz < 2 ^ 32" using bt t st by linarith
  have in_p: "area c sz \<subseteq> addrs p \<longleftrightarrow> unat (base p) \<le> unat c \<and> unat c + unat sz \<le> past p"
    using pos by (auto simp: addrs_def)
  have "c \<le> b \<longleftrightarrow> unat c + unat sz \<le> top" if "aligned (2 ^ k) c"
  proof
    assume "c \<le> b"
    then show "unat c + unat sz \<le> top" using bt t st by (simp add: word_le_nat_alt)
  next
    assume "unat c + unat sz \<le> top"
    then have "c \<le> t" using t by (simp add: word_le_nat_alt)
    then show "c \<le> b" unfolding b by (rule aligned_below [OF assms(4) that])
  qed
  moreover have "n \<le> top \<longleftrightarrow> n \<le> past p \<and> (max_addr = 0 \<or> n \<le> unat max_addr)" for n by (auto simp: top_def)
  ultimately show "candidate res (base p) b sz (2 ^ k) c \<longleftrightarrow> place [p] res sz (2 ^ k) max_addr c"
    unfolding candidate_def place_def list.set bex_simps in_p word_le_nat_alt [of "base p" c] by blast
qed

lemma place_Cons: "place (ps @ [p]) res sz align m b \<longleftrightarrow> place ps res sz align m b \<or> place [p] res sz align m b"
  by (auto simp: place_def)

lemma no_place:
  assumes "proper p" and "sz \<noteq> 0" and "bytes p < sz \<or> max_addr \<noteq> 0 \<and> \<not> base p < max_addr"
  shows "\<not> place [p] res sz align max_addr b"
proof
  assume pl: "place [p] res sz align max_addr b"
  have pos: "0 < unat sz" using assms(2) by (simp add: unat_pos_iff)
  have "unat (base p) \<le> unat b" "unat b + unat sz \<le> past p"
    using pl pos by (auto simp: place_def addrs_def)
  with pl assms(3) pos show False by (auto simp: place_def past_def word_less_nat_alt)
qed

text \<open>What \<open>__lmb_alloc_base\<close> promises over the first entries of memory.\<close>

definition allocates :: "lmb_property list \<Rightarrow> lmb \<Rightarrow> u32 \<Rightarrow> u32 \<Rightarrow> u32 \<Rightarrow> lmb \<times> u32 \<Rightarrow> bool" where
  "allocates ps l sz align max_addr out = (case out of (l', a) \<Rightarrow>
     if a = 0 then l' = l \<and> ((\<forall>b. \<not> place ps (reserved l) sz align max_addr b) \<or>
       unat (cnt (reserved l)) = MAX_LMB_REGIONS)
     else place ps (reserved l) sz align max_addr a \<and>
       (\<forall>b. place ps (reserved l) sz align max_addr b \<longrightarrow> b \<le> a) \<and>
       (\<exists>r x. l' = l\<lparr>reserved := r\<rparr> \<and> 0 \<le> x \<and> adds (reserved l) a sz (r, x)))"

lemma alloc_search_result:
  assumes "wf_table (reserved l)" and "tidy (take n (region (memory l)))" and "n \<le> length (region (memory l))"
    and "sz \<noteq> 0" and "k < 32" and "lmb_align_up sz (2 ^ k) = sz" and "max_addr = 0 \<or> sz \<le> max_addr"
  shows "\<exists>out. alloc_search n l sz (2 ^ k) max_addr = Some out \<and>
    allocates (take n (region (memory l))) l sz (2 ^ k) max_addr out"
  using assms(2,3)
proof (induction n)
  case 0
  then show ?case by (simp add: allocates_def place_def)
next
  case (Suc n)
  let ?ps = "region (memory l)" and ?p = "region (memory l) ! n"
  have split: "take (Suc n) ?ps = take n ?ps @ [?p]" using Suc.prems(2) by (simp add: take_Suc_conv_app_nth)
  have t: "tidy (take n ?ps)" "proper ?p" "\<forall>q\<in>set (take n ?ps). past q < unat (base ?p)"
    using Suc.prems(1) by (auto simp: split tidy_simps)
  then obtain out where out: "alloc_search n l sz (2 ^ k) max_addr = Some out"
    "allocates (take n ?ps) l sz (2 ^ k) max_addr out" using Suc by auto
  have skip: "allocates (take (Suc n) ?ps) l sz (2 ^ k) max_addr out" if "\<And>b. \<not> place [?p] (reserved l) sz (2 ^ k) max_addr b"
  proof -
    have "place (take (Suc n) ?ps) (reserved l) sz (2 ^ k) max_addr b = place (take n ?ps) (reserved l) sz (2 ^ k) max_addr b"
      for b using that by (simp only: split place_Cons simp_thms)
    then show ?thesis using out(2) unfolding allocates_def by (simp only:)
  qed
  have at: "aget ?ps n = Some ?p" using Suc.prems(2) by simp
  note run = alloc_search.simps(2) at
  show ?case
  proof (cases "bytes ?p < sz \<or> max_addr \<noteq> 0 \<and> \<not> base ?p < max_addr")
    case True
    with no_place [OF t(2) assms(4)] have "\<not> place [?p] (reserved l) sz (2 ^ k) max_addr b" for b by blast
    moreover have "alloc_search (Suc n) l sz (2 ^ k) max_addr = alloc_search n l sz (2 ^ k) max_addr"
      using True by (auto simp: run LMB_ALLOC_ANYWHERE_def)
    ultimately show ?thesis using skip out(1) by auto
  next
    case False
    define b where "b = (if max_addr = LMB_ALLOC_ANYWHERE then lmb_align_down (base ?p + bytes ?p - sz) (2 ^ k)
         else lmb_align_down (min (base ?p + bytes ?p) max_addr - sz) (2 ^ k))"
    have c: "sz \<le> bytes ?p" "max_addr = 0 \<or> base ?p < max_addr" using False by auto
    note start = start_in_region [OF t(2) assms(4) c(1) assms(5) c(2) assms(7), folded b_def]
    from alloc_fit_result [OF assms(1,4,5) start(1,2)] obtain found where
      f: "alloc_fit (reserved l) (base ?p) b sz (2 ^ k) = Some found"
      "case found of None \<Rightarrow> \<forall>c. \<not> candidate (reserved l) (base ?p) b sz (2 ^ k) c
       | Some a \<Rightarrow> candidate (reserved l) (base ?p) b sz (2 ^ k) a \<and>
           (\<forall>c. candidate (reserved l) (base ?p) b sz (2 ^ k) c \<longrightarrow> c \<le> a)" by blast
    have step: "alloc_search (Suc n) l sz (2 ^ k) max_addr = (case found of None \<Rightarrow> alloc_search n l sz (2 ^ k) max_addr
       | Some b' \<Rightarrow> do {
           (r, x) \<leftarrow> lmb_add_region (reserved l) b' sz;
           Some (l\<lparr>reserved := r\<rparr>, if x < 0 then 0 else b')})"
      using False f(1) unfolding b_def by (auto simp: run Let_def LMB_ALLOC_ANYWHERE_def assms(6) split: option.splits)
    show ?thesis
    proof (cases found)
      case None
      then have "\<not> place [?p] (reserved l) sz (2 ^ k) max_addr c" for c using f(2) start(3) by simp
      then show ?thesis using skip out(1) step None by auto
    next
      case (Some a)
      then have a: "place [?p] (reserved l) sz (2 ^ k) max_addr a"
        "\<And>c. place [?p] (reserved l) sz (2 ^ k) max_addr c \<Longrightarrow> c \<le> a" using f(2) start(3) by auto
      have pos: "0 < unat sz" using assms(4) by (simp add: unat_pos_iff)
      have "unat (base ?p) \<le> unat a" "unat a + unat sz \<le> past ?p"
        using a(1) pos by (auto simp: place_def addrs_def)
      then have nw: "unat a + unat sz < 2 ^ 32" using t(2) by (simp add: proper_def)
      have high: "c \<le> a" if "place (take n ?ps) (reserved l) sz (2 ^ k) max_addr c" for c
      proof -
        from that obtain q where q: "q \<in> set (take n ?ps)" "area c sz \<subseteq> addrs q" by (auto simp: place_def)
        have "unat c \<in> area c sz" using pos by simp
        then have "unat c < past q" using q(2) by (auto simp: addrs_def)
        with t(3) q(1) \<open>unat (base ?p) \<le> unat a\<close> show ?thesis by (fastforce simp: word_le_nat_alt)
      qed
      have "area a sz \<inter> covered (reserved l) = {}" using a(1) by (simp add: place_def)
      from add_region [OF assms(1,4) nw this] obtain r x where
        r: "lmb_add_region (reserved l) a sz = Some (r, x)" "adds (reserved l) a sz (r, x)" by auto
      have "a \<noteq> 0" using a(1) by (simp add: place_def)
      have "allocates (take (Suc n) ?ps) l sz (2 ^ k) max_addr (l\<lparr>reserved := r\<rparr>, if x < 0 then 0 else a)"
      proof (cases "x < 0")
        case True
        then show ?thesis using r(2) by (simp add: allocates_def adds_def)
      next
        case False
        with r(2) a high \<open>a \<noteq> 0\<close> show ?thesis
          by (auto simp: allocates_def split place_Cons intro!: exI [of _ r] exI [of _ x])
      qed
      then show ?thesis using step Some r(1) by auto
    qed
  qed
qed

section \<open>Asking\<close>

lemma any_holds_iff:
  "k \<le> length ps \<Longrightarrow>
    any_holds k a ps = Some (\<exists>p\<in>set (take k ps). base p \<le> a \<and> a \<le> base p + bytes p - 1)"
  by (induction k arbitrary: ps) (auto split: list.splits)

lemma proper_holds: "proper p \<Longrightarrow> base p \<le> a \<and> a \<le> base p + bytes p - 1 \<longleftrightarrow> unat a \<in> addrs p"
proof -
  assume p: "proper p"
  then have pos: "0 < past p" by (simp add: proper_def past_def unat_pos_iff)
  with proper_end [OF p] have "base p + bytes p \<noteq> 0" by (metis less_irrefl unat_0)
  then have "unat (base p + bytes p - 1) = past p - 1" using proper_end [OF p] by (simp add: unat_minus_one)
  with pos show ?thesis by (auto simp: word_le_nat_alt addrs_def)
qed

section \<open>The initial tables\<close>

lemma init_region_empty: "init_region r = Some r' \<Longrightarrow> length (region r) = Suc MAX_LMB_REGIONS \<Longrightarrow>
    wf_table r' \<and> empty_table r' \<and> covered r' = {}"
proof -
  assume "init_region r = Some r'" and len: "length (region r) = Suc MAX_LMB_REGIONS"
  then have "wf_table r' \<and> empty_table r'"
    by (auto simp: init_region_def bind_eq_Some_conv aput_Some_iff wf_table_def empty_table_def)
  then show ?thesis by (simp add: empty_covered)
qed

lemma lmb_init_empty:
  assumes "lmb_init l = Some l'" and "length (region (memory l)) = Suc MAX_LMB_REGIONS"
    and "length (region (reserved l)) = Suc MAX_LMB_REGIONS"
  shows "wf_table (memory l')" "wf_table (reserved l')" "covered (memory l') = {}" "covered (reserved l') = {}"
  using assms by (auto simp: lmb_init_def bind_eq_Some_conv dest: init_region_empty)

section \<open>Properties\<close>

text \<open>Concrete tables for the examples.\<close>

definition table :: "lmb_property list \<Rightarrow> lmb_region" where
  "table ps = \<lparr>cnt = of_nat (length ps), total = 0, region = ps @ replicate (9 - length ps) \<lparr>base = 0, bytes = 0\<rparr>\<rparr>"

definition sample_lmb :: lmb where
  "sample_lmb = \<lparr>memory = table [\<lparr>base = 0x1000, bytes = 0xf000\<rparr>],
     reserved = table [\<lparr>base = 0x1000, bytes = 0x1000\<rparr>, \<lparr>base = 0x8000, bytes = 0x1000\<rparr>]\<rparr>"

lemma live_table: "length ps \<le> 9 \<Longrightarrow> live (table ps) = ps"
proof -
  assume l: "length ps \<le> 9"
  then have "unat (of_nat (length ps) :: u32) = length ps" by (simp add: unat_of_nat)
  then show ?thesis by (simp add: live_def table_def)
qed

lemma wf_sample: "wf_table (table ps)" if "tidy ps" "ps \<noteq> []" "length ps \<le> 8"
proof -
  have u: "unat (of_nat (length ps) :: u32) = length ps" using that by (simp add: unat_of_nat)
  show ?thesis by (rule wf_tableI) (use that u in \<open>simp_all add: live_table, simp_all add: table_def MAX_LMB_REGIONS_def\<close>)
qed

lemma sample_lmb:
  "wf_table (memory sample_lmb)" "\<not> empty_table (memory sample_lmb)"
  "wf_table (reserved sample_lmb)" "\<not> empty_table (reserved sample_lmb)"
  "live (memory sample_lmb) = [\<lparr>base = 0x1000, bytes = 0xf000\<rparr>]"
  "live (reserved sample_lmb) = [\<lparr>base = 0x1000, bytes = 0x1000\<rparr>, \<lparr>base = 0x8000, bytes = 0x1000\<rparr>]"
  "covered (reserved sample_lmb) = {0x1000..<0x2000} \<union> {0x8000..<0x9000}"
proof -
  show l: "live (memory sample_lmb) = [\<lparr>base = 0x1000, bytes = 0xf000\<rparr>]"
    "live (reserved sample_lmb) = [\<lparr>base = 0x1000, bytes = 0x1000\<rparr>, \<lparr>base = 0x8000, bytes = 0x1000\<rparr>]"
    by (simp_all add: sample_lmb_def live_table)
  have t: "tidy (live (memory sample_lmb))" "tidy (live (reserved sample_lmb))"
    by (simp_all add: l tidy_simps proper_def past_def)
  show "\<not> empty_table (memory sample_lmb)" "\<not> empty_table (reserved sample_lmb)"
    by (rule tidy_not_empty [OF t(1)], simp add: l, rule tidy_not_empty [OF t(2)], simp add: l)
  show "wf_table (memory sample_lmb)" "wf_table (reserved sample_lmb)"
    unfolding sample_lmb_def lmb.select_convs
    by (rule wf_sample; simp add: tidy_simps proper_def past_def)+
  show "covered (reserved sample_lmb) = {0x1000..<0x2000} \<union> {0x8000..<0x9000}"
    by (simp add: covered_def l addrs_def past_def)
qed

text \<open>
  C13: Reserving memory is set union: for an area that is not empty, does not wrap and is not
  reserved yet, \<open>lmb_reserve\<close> keeps the table sorted, disjoint and coalesced, and the
  addresses it covers grow by exactly the area; the only failure is a full table, which
  is left as it was.
\<close>

theorem reserve_is_union:
  assumes "wf_table (reserved l)" and "sz \<noteq> 0" and "unat b + unat sz < 2 ^ 32"
    and "area b sz \<inter> covered (reserved l) = {}"
  shows "\<exists>r x. lmb_reserve l b sz = Some (l\<lparr>reserved := r\<rparr>, x) \<and>
    (if x < 0 then r = reserved l \<and> unat (cnt r) = MAX_LMB_REGIONS
     else wf_table r \<and> covered r = covered (reserved l) \<union> area b sz)"
proof -
  from add_region [OF assms] obtain r x where "lmb_add_region (reserved l) b sz = Some (r, x)"
    "adds (reserved l) b sz (r, x)" by auto
  then show ?thesis by (intro exI [of _ r] exI [of _ x]) (auto simp: lmb_reserve_def adds_def)
qed

theorem reserve_is_union_witness:
  "\<exists>r x. lmb_reserve sample_lmb 0x2000 0x6000 = Some (sample_lmb\<lparr>reserved := r\<rparr>, x) \<and>
    (0 \<le> x \<longrightarrow> covered r = {0x1000..<0x9000})"
proof -
  have d: "area 0x2000 0x6000 \<inter> covered (reserved sample_lmb) = {}" by (auto simp: sample_lmb(7))
  have u: "{0x1000..<0x2000} \<union> {0x8000..<0x9000} \<union> area 0x2000 0x6000 = {0x1000..<0x9000 :: nat}" by auto
  show ?thesis
    using reserve_is_union [OF sample_lmb(3) _ _ d] u unfolding sample_lmb(7) by (fastforce split: if_splits)
qed

text \<open>An area in no region is not freed; the only region, freed whole, stays in the table behind a count of 0.\<close>

lemma free_none:
  assumes "wf_table r" and "sz \<noteq> 0" and "unat b + unat sz < 2 ^ 32"
    and "\<And>p. p \<in> set (live r) \<Longrightarrow> \<not> area b sz \<subseteq> addrs p"
  shows "free_region r b sz = Some (r, - 1)"
proof -
  let ?n = "unat (cnt r)"
  have n: "?n \<le> length (region r)" by (rule table_size [OF assms(1)])
  have "\<not> (base p \<le> b \<and> b + sz \<le> base p + bytes p)" if p: "p \<in> set (live r)" for p
    using wf_proper_or_dummy [OF assms(1) p]
  proof
    assume "proper p"
    then show ?thesis using holder_iff [OF _ assms(2,3)] assms(4) [OF p] by blast
  next
    assume "p = \<lparr>base = 0, bytes = 0\<rparr>"
    moreover have "unat (b + sz) \<noteq> 0"
      using unat_add_no_wrap [OF assms(3)] assms(2) by (simp add: unat_eq_0)
    ultimately show ?thesis by (auto simp: word_le_nat_alt)
  qed
  moreover have "region r ! k \<in> set (live r)" if "k < ?n" for k
    using that n by (auto simp: live_def in_set_conv_nth)
  ultimately have "find_holder 0 ?n b (b + sz) (region r) = Some ?n"
    using find_holder_result [OF n, of 0 b "b + sz"] by (metis le_neq_implies_less zero_le)
  then show ?thesis by (simp add: free_region_def)
qed

lemma free_only:
  assumes "wf_table r" and "\<not> empty_table r" and "live r = [p]"
  shows "free_region r (base p) (bytes p) = Some (r\<lparr>cnt := 0\<rparr>, 0)"
proof -
  note live = wf_live [OF assms(1,2)]
  have cnt: "cnt r = 1" using live(3) assms(3) by (simp add: word_unat_eq_iff)
  have r0: "region r ! 0 = p" "0 < length (region r)" using assms(3) live(5) cnt
    by (cases "region r"; simp add: live_def MAX_LMB_REGIONS_def)+
  have p: "proper p" using live(1) assms(3) by (simp add: tidy_simps)
  then have "unat (base p) + unat (bytes p) < 2 ^ 32" by (simp add: proper_def past_def)
  from holder_found [OF assms(1,2), of "[]" p "[]" "bytes p" "base p"] this p assms(3)
  have "find_holder 0 1 (base p) (base p + bytes p) (region r) = Some 0"
    by (simp add: cnt addrs_def past_def proper_def)
  then show ?thesis
    using r0 cnt by (simp add: free_region_def lmb_remove_region_def) (subst move_down.simps, simp)
qed

text \<open>
  C22: What freeing does, for every area that is not empty and does not wrap. An area inside one
  reserved region, at its front, its rear, all of it or its middle, is removed from the reserved
  addresses; only the split of a region in a full table fails, and then the rest of the region
  behind the freed part is lost as well although the call reports failure. The table stays well
  formed, but for one case: freeing the only region as a whole just sets the count to 0. An area
  that does not lie in one region is refused with -1 and nothing changes.
\<close>

theorem free_is_difference:
  assumes "wf_table (reserved l)" and "sz \<noteq> 0" and "unat b + unat sz < 2 ^ 32"
  shows "\<exists>r x. lmb_free l b sz = Some (l\<lparr>reserved := r\<rparr>, x) \<and>
    (if \<exists>p\<in>set (live (reserved l)). area b sz \<subseteq> addrs p
     then \<exists>p\<in>set (live (reserved l)). area b sz \<subseteq> addrs p \<and>
       covered r = covered (reserved l) - (if x < 0 then {unat b..<past p} else area b sz) \<and>
       (x < 0 \<longrightarrow> unat (cnt (reserved l)) = MAX_LMB_REGIONS) \<and>
       (if live (reserved l) = [p] \<and> area b sz = addrs p then r = (reserved l)\<lparr>cnt := 0\<rparr> \<and> x = 0 else wf_table r)
     else r = reserved l \<and> x = - 1)"
proof (cases "\<exists>p\<in>set (live (reserved l)). area b sz \<subseteq> addrs p")
  case True
  then obtain us p vs where split: "live (reserved l) = us @ p # vs" and sub: "area b sz \<subseteq> addrs p"
    by (metis split_list)
  then have p: "p \<in> set (live (reserved l))" by simp
  have ne: "\<not> empty_table (reserved l)"
  proof
    assume "empty_table (reserved l)"
    then have "p = \<lparr>base = 0, bytes = 0\<rparr>"
      using p by (cases "region (reserved l)") (auto simp: empty_table_def live_def)
    then show False using sub assms(2) by (simp add: addrs_def past_def unat_eq_0)
  qed
  have "\<exists>r x. free_region (reserved l) b sz = Some (r, x) \<and>
     covered r = covered (reserved l) - (if x < 0 then {unat b..<past p} else area b sz) \<and>
     (x < 0 \<longrightarrow> unat (cnt (reserved l)) = MAX_LMB_REGIONS) \<and>
     (if live (reserved l) = [p] \<and> area b sz = addrs p then r = (reserved l)\<lparr>cnt := 0\<rparr> \<and> x = 0 else wf_table r)"
  proof (cases "live (reserved l) = [p] \<and> area b sz = addrs p")
    case True
    have "0 < unat sz" using assms(2) by (simp add: unat_pos_iff)
    moreover have "unat (base p) < past p"
    proof (rule ccontr)
      assume "\<not> unat (base p) < past p"
      then have "area b sz = {}" using True by (simp add: addrs_def)
      then show False using \<open>0 < unat sz\<close> by simp
    qed
    ultimately have "unat b = unat (base p)" "unat b + unat sz = past p"
      using True atLeastLessThan_eq_iff [of "unat b" "unat b + unat sz" "unat (base p)" "past p"] by (simp_all add: addrs_def)
    then have "b = base p" "sz = bytes p" by (simp_all add: past_def word_unat_eq_iff)
    moreover have "covered ((reserved l)\<lparr>cnt := 0\<rparr>) = covered (reserved l) - addrs p"
      using True by (simp add: covered_def live_def [of "(reserved l)\<lparr>cnt := 0\<rparr>"])
    ultimately show ?thesis using free_only [OF assms(1) ne] True by simp
  next
    case False
    then have "us @ vs \<noteq> [] \<or> area b sz \<noteq> addrs p" using split by auto
    from free_region [OF assms(1) ne split assms(2) sub this] obtain r x
      where "free_region (reserved l) b sz = Some (r, x)" "frees (reserved l) p b sz (r, x)" by auto
    with False show ?thesis by (intro exI [of _ r] exI [of _ x]) (auto simp: frees_def split: if_splits)
  qed
  then obtain r x where r: "free_region (reserved l) b sz = Some (r, x)"
    "covered r = covered (reserved l) - (if x < 0 then {unat b..<past p} else area b sz)"
    "x < 0 \<longrightarrow> unat (cnt (reserved l)) = MAX_LMB_REGIONS"
    "if live (reserved l) = [p] \<and> area b sz = addrs p then r = (reserved l)\<lparr>cnt := 0\<rparr> \<and> x = 0 else wf_table r" by blast
  then have "lmb_free l b sz = Some (l\<lparr>reserved := r\<rparr>, x)" by (simp add: lmb_free_def)
  with r(2-4) p sub show ?thesis unfolding if_P [OF True] by blast
next
  case False
  then have "free_region (reserved l) b sz = Some (reserved l, - 1)"
    by (intro free_none assms) blast
  then show ?thesis using False by (intro exI [of _ "reserved l"] exI [of _ "- 1"]) (simp add: lmb_free_def)
qed

text \<open>A split in the middle of a region, and an area beside it.\<close>

theorem free_is_difference_witness:
  "(\<exists>r x. lmb_free sample_lmb 0x8400 0x100 = Some (sample_lmb\<lparr>reserved := r\<rparr>, x) \<and> wf_table r \<and>
     covered r = covered (reserved sample_lmb) - (if x < 0 then {0x8400..<0x9000} else {0x8400..<0x8500})) \<and>
   lmb_free sample_lmb 0x8f00 0x200 = Some (sample_lmb, - 1)"
proof
  let ?p = "\<lparr>base = 0x8000, bytes = 0x1000\<rparr>"
  have "addrs ?p = {0x8000..<0x9000}" "past ?p = 0x9000" "addrs \<lparr>base = 0x1000, bytes = 0x1000\<rparr> = {0x1000..<0x2000}"
    by (simp_all add: addrs_def past_def)
  note at = this
  have in_p: "\<exists>p\<in>set (live (reserved sample_lmb)). {0x8400..<0x8500} \<subseteq> addrs p" by (auto simp: sample_lmb(6) at)
  have not_in: "\<not> (\<exists>p\<in>set (live (reserved sample_lmb)). {0x8f00..<0x9100} \<subseteq> addrs p)" by (auto simp: sample_lmb(6) at)
  have only: "p = ?p" if "p \<in> set (live (reserved sample_lmb))" "{0x8400..<0x8500} \<subseteq> addrs p" for p
    using that by (auto simp: sample_lmb(6) at)
  show "\<exists>r x. lmb_free sample_lmb 0x8400 0x100 = Some (sample_lmb\<lparr>reserved := r\<rparr>, x) \<and> wf_table r \<and>
     covered r = covered (reserved sample_lmb) - (if x < 0 then {0x8400..<0x9000} else {0x8400..<0x8500})"
  proof -
    have n: "unat (0x8400 :: u32) = 0x8400" "unat (0x100 :: u32) = 0x100" "(0x8400 :: nat) + 0x100 = 0x8500" by simp_all
    note w = free_is_difference [of sample_lmb "0x100" "0x8400", OF sample_lmb(3), unfolded n]
    obtain r x p where f: "lmb_free sample_lmb 0x8400 0x100 = Some (sample_lmb\<lparr>reserved := r\<rparr>, x)"
      and p: "p \<in> set (live (reserved sample_lmb))" "{0x8400..<0x8500} \<subseteq> addrs p"
      and c: "covered r = covered (reserved sample_lmb) - (if x < 0 then {0x8400..<past p} else {0x8400..<0x8500})"
      and t: "if live (reserved sample_lmb) = [p] \<and> {0x8400..<0x8500} = addrs p
        then r = (reserved sample_lmb)\<lparr>cnt := 0\<rparr> \<and> x = 0 else wf_table r"
      using w [unfolded if_P [OF in_p]] by (simp (no_asm_use)) (elim exE conjE bexE, rule that)
    have "p = ?p" by (rule only [OF p])
    moreover from this have "wf_table r" using t by (simp add: sample_lmb(6))
    moreover have "past p = 0x9000" using \<open>p = ?p\<close> at(2) by simp
    ultimately show ?thesis using f c by (intro exI [of _ r] exI [of _ x]) simp
  qed
  show "lmb_free sample_lmb 0x8f00 0x200 = Some (sample_lmb, - 1)"
    using free_is_difference [of sample_lmb "0x200" "0x8f00", OF sample_lmb(3)] not_in by simp
qed

text \<open>
  C11: Allocation is best from the top, for an alignment that is a power of two, a size that is a
  multiple of it and not 0, and no bound (0) or one that is at least the size: \<open>__lmb_alloc_base\<close>
  returns, and what it returns is the highest aligned address at
  which the area lies in one region of memory, below the bound and clear of everything
  reserved, and the area is reserved; it fails only if there is no such place or the table
  of reserved regions is full, and then it changes nothing. With a bound below the size the
  subtraction of the size wraps (lmb.c:291) and the address may lie above the bound.
\<close>

theorem alloc_takes_highest:
  assumes "wf_table (memory l)" and "\<not> empty_table (memory l)" and "wf_table (reserved l)"
    and "sz \<noteq> 0" and "k < 32" and "lmb_align_up sz (2 ^ k) = sz" and "max_addr = 0 \<or> sz \<le> max_addr"
  shows "\<exists>l' a. alloc_base_search l sz (2 ^ k) max_addr = Some (l', a) \<and>
    (if a = 0 then l' = l \<and> ((\<forall>b. \<not> place (live (memory l)) (reserved l) sz (2 ^ k) max_addr b) \<or>
       unat (cnt (reserved l)) = MAX_LMB_REGIONS)
     else place (live (memory l)) (reserved l) sz (2 ^ k) max_addr a \<and>
       (\<forall>b. place (live (memory l)) (reserved l) sz (2 ^ k) max_addr b \<longrightarrow> b \<le> a) \<and>
       (\<exists>r. l' = l\<lparr>reserved := r\<rparr> \<and> wf_table r \<and> covered r = covered (reserved l) \<union> area a sz))"
proof -
  note live = wf_live [OF assms(1,2)]
  let ?n = "unat (cnt (memory l))"
  have "?n \<noteq> 0" using live(2,3) by (metis length_0_conv)
  then have "cnt (memory l) - 1 < 2 ^ 31"
    using live(4) by (simp add: word_less_nat_alt unat_minus_one unat_eq_0 MAX_LMB_REGIONS_def)
  then have "uint (cnt (memory l) - 1) < 2147483648" by (simp add: word_less_def)
  moreover have "- 2147483648 \<le> uint (cnt (memory l) - 1)"
    using uint_ge_0 [of "cnt (memory l) - 1"] by linarith
  ultimately have "sint (cnt (memory l) - 1) = uint (cnt (memory l) - 1)"
    by (simp add: sint_uint signed_take_bit_int_eq_self)
  then have n: "(if 0 \<le>s cnt (memory l) - 1 then ?n else 0) = ?n" by (simp add: word_sle_eq)
  from alloc_search_result [where n = ?n, OF assms(3)] live(1) assms(4-7) table_size [OF assms(1)]
  obtain out where out: "alloc_search ?n l sz (2 ^ k) max_addr = Some out"
    "allocates (live (memory l)) l sz (2 ^ k) max_addr out" unfolding live_def by blast
  then show ?thesis
    unfolding alloc_base_search_def n
    by (cases out) (auto simp: allocates_def adds_def split: if_splits intro: exI [of _ "reserved (fst out)"])
qed

theorem alloc_takes_highest_witness:
  "\<exists>l' a. alloc_base_search sample_lmb 0x1000 (2 ^ 12) 0 = Some (l', a) \<and> a \<noteq> 0 \<and>
    place (live (memory sample_lmb)) (reserved sample_lmb) 0x1000 (2 ^ 12) 0 a"
proof -
  have pl: "place (live (memory sample_lmb)) (reserved sample_lmb) 0x1000 (2 ^ 12) 0 0xf000"
    by (auto simp: place_def sample_lmb aligned_def lmb_align_down_def addrs_def past_def)
  have "unat (cnt (reserved sample_lmb)) \<noteq> MAX_LMB_REGIONS"
    by (simp add: sample_lmb_def table_def MAX_LMB_REGIONS_def)
  with pl show ?thesis
    using alloc_takes_highest [where sz = "0x1000" and k = 12 and max_addr = 0, OF sample_lmb(1,2,3)]
    by (fastforce simp: lmb_align_up_def split: if_splits)
qed

text \<open>
  \<open>lmb_is_reserved\<close> answers whether an address is covered by the reserved regions, except on
  the table \<open>lmb_init\<close> leaves: its dummy region ends at 0 - 1, so every address of an
  empty table counts as reserved.
\<close>

theorem is_reserved_unless_empty:
  assumes "wf_table (reserved l)"
  shows "lmb_is_reserved l a = Some (empty_table (reserved l) \<or> unat a \<in> covered (reserved l))"
proof (cases "empty_table (reserved l)")
  case True
  then have "live (reserved l) = [\<lparr>base = 0, bytes = 0\<rparr>]"
    using assms by (cases "region (reserved l)") (auto simp: wf_table_def empty_table_def live_def)
  then show ?thesis using True any_holds_iff [OF table_size [OF assms], of a]
    by (simp add: lmb_is_reserved_def live_def)
next
  case False
  have "\<And>p. p \<in> set (live (reserved l)) \<Longrightarrow> proper p"
    using wf_live(1) [OF assms False] by (simp add: tidy_def list_all_iff)
  then show ?thesis using False any_holds_iff [OF table_size [OF assms], of a] proper_holds
    by (simp add: lmb_is_reserved_def live_def covered_def)
qed

theorem is_reserved_unless_empty_witness:
  "lmb_is_reserved sample_lmb 0x8fff = Some True \<and> lmb_is_reserved sample_lmb 0x9000 = Some False"
  using is_reserved_unless_empty [OF sample_lmb(3)] sample_lmb(4) by (simp add: sample_lmb(7))

text \<open>
  C36: A table that was emptied by \<open>lmb_free\<close> is not the empty table: \<open>cnt\<close> is 0 but entry 0 keeps
  the freed region, and the next \<open>lmb_reserve\<close> above it returns 0 without recording its
  area: the freed region counts as reserved again, the new one does not. This is so unless the
  unused entry 1 happens to hold a region adjacent to it.
\<close>

theorem reserve_after_last_free_lost:
  assumes "wf_table (reserved l)" and "\<not> empty_table (reserved l)" and "live (reserved l) = [p]"
    and "lmb_regions_adjacent (reserved l) 0 1 = Some 0" and "base p \<le> b"
  shows "\<exists>l1 l2. lmb_free l (base p) (bytes p) = Some (l1, 0) \<and> lmb_reserve l1 b sz = Some (l2, 0) \<and>
    covered (reserved l2) = addrs p"
proof -
  note live = wf_live [OF assms(1,2)]
  let ?r = "reserved l"
  have cnt: "cnt ?r = 1" using live(3) assms(3) by (simp add: word_unat_eq_iff)
  have r0: "region ?r ! 0 = p" "0 < length (region ?r)" using assms(3) live(5) cnt
    by (cases "region ?r"; simp add: live_def MAX_LMB_REGIONS_def)+
  have p: "proper p" using live(1) assms(3) by (simp add: tidy_simps)
  have free: "lmb_free l (base p) (bytes p) = Some (l\<lparr>reserved := ?r\<lparr>cnt := 0\<rparr>\<rparr>, 0)"
    using free_only [OF assms(1-3)] by (simp add: lmb_free_def)
  have adj: "lmb_regions_adjacent (?r\<lparr>cnt := 0\<rparr>) 0 (Suc 0) = Some 0"
    using assms(4) by (simp add: lmb_regions_adjacent_def)
  have scan0: "add_scan 0 0 b sz ps = Some (Scanned 0 0 ps)" for ps by (subst add_scan.simps) simp
  have "lmb_add_region (?r\<lparr>cnt := 0\<rparr>) b sz = Some (?r\<lparr>cnt := 1\<rparr>, 0)"
  proof -
    have at: "aget (region (?r\<lparr>cnt := 0\<rparr>)) 0 = Some p" using r0 by simp
    have big: "0 < unat (cnt (?r\<lparr>cnt := 0\<rparr>) - 1)" by (simp add: unat_pos_iff)
    have "\<not> b < base p" using assms(5) by (simp add: not_less)
    with at show ?thesis
      unfolding lmb_add_region_def at bind.bind_lunit
      by (simp add: scan0 del: One_nat_def) (simp add: Let_def big [simplified] adj MAX_LMB_REGIONS_def at [simplified])
  qed
  then have "lmb_reserve (l\<lparr>reserved := ?r\<lparr>cnt := 0\<rparr>\<rparr>) b sz = Some (l\<lparr>reserved := ?r\<lparr>cnt := 1\<rparr>\<rparr>, 0)"
    by (simp add: lmb_reserve_def)
  moreover have "covered (?r\<lparr>cnt := 1\<rparr>) = addrs p"
    using r0 by (cases "region ?r") (simp_all add: covered_def live_def)
  ultimately show ?thesis using free
    by (intro exI [of _ "l\<lparr>reserved := ?r\<lparr>cnt := 0\<rparr>\<rparr>"] exI [of _ "l\<lparr>reserved := ?r\<lparr>cnt := 1\<rparr>\<rparr>"]) simp
qed

theorem reserve_after_last_free_lost_witness:
  "\<exists>l1 l2. lmb_free (sample_lmb\<lparr>reserved := table [\<lparr>base = 0x1000, bytes = 0x100\<rparr>]\<rparr>) 0x1000 0x100 = Some (l1, 0) \<and>
    lmb_reserve l1 0x2000 0x100 = Some (l2, 0) \<and> covered (reserved l2) = {0x1000..<0x1100}"
proof -
  let ?l = "sample_lmb\<lparr>reserved := table [\<lparr>base = 0x1000, bytes = 0x100\<rparr>]\<rparr>"
  have lv: "live (reserved ?l) = [\<lparr>base = 0x1000, bytes = 0x100\<rparr>]" by (simp add: live_table)
  have t: "tidy [\<lparr>base = 0x1000, bytes = 0x100\<rparr>]" by (simp add: tidy_simps proper_def past_def)
  have w: "wf_table (reserved ?l)" using wf_sample [OF t] by simp
  have e: "\<not> empty_table (reserved ?l)" by (rule tidy_not_empty) (use t in \<open>simp_all add: live_table\<close>)
  have a: "lmb_regions_adjacent (reserved ?l) 0 1 = Some 0"
    by (simp add: table_def lmb_regions_adjacent_def lmb_addrs_adjacent_def)
  show ?thesis using reserve_after_last_free_lost [where b = "0x2000" and sz = "0x100", OF w e lv a] by (simp add: addrs_def past_def)
qed

text \<open>
  A bound below the size is not refused: \<open>base - size\<close> wraps, and on a machine with nothing
  reserved the allocation succeeds at an address above the bound and outside memory.
\<close>

theorem alloc_bound_below_size:
  assumes "empty_table (reserved l)" and "wf_table (reserved l)" and "live (memory l) = [p]" and "proper p"
    and "cnt (memory l) = 1" and "base p < max_addr" and "max_addr < sz" and "sz \<le> bytes p"
  shows "\<exists>l'. alloc_base_search l sz 1 max_addr = Some (l', max_addr - sz) \<and>
    max_addr < max_addr - sz \<and> past p < unat (max_addr - sz) + unat sz"
proof -
  let ?b = "max_addr - sz" and ?r = "reserved l"
  have lt: "unat (base p) < unat max_addr" "unat max_addr < unat sz" "unat sz \<le> unat (bytes p)" "past p < 2 ^ 32"
    using assms(4,6-8) by (simp_all add: word_less_nat_alt word_le_nat_alt proper_def)
  have small: "unat sz < 2 ^ 32" using lt by (simp add: past_def)
  then have ub: "unat ?b = 2 ^ 32 + unat max_addr - unat sz"
    using lt by (simp add: unat_sub_if_size word_size word_le_nat_alt)
  have ne: "max_addr \<noteq> 0" "sz \<noteq> 0" "?b \<noteq> 0" using lt ub small by (auto simp: word_unat_eq_iff)
  have above: "max_addr < ?b" "base p \<le> ?b" "past p < unat ?b + unat sz"
    using lt ub small by (auto simp: word_less_nat_alt word_le_nat_alt past_def)
  have p0: "aget (region (memory l)) 0 = Some p"
    using assms(3,5) by (cases "region (memory l)") (simp_all add: live_def)
  have "unat max_addr \<le> unat (base p + bytes p)" using lt proper_end [OF assms(4)] by (simp add: past_def)
  then have mn: "min (base p + bytes p) max_addr = max_addr"
    by (intro min_absorb2) (simp only: word_le_nat_alt)
  have e: "cnt ?r = 1" "region ?r ! 0 = \<lparr>base = 0, bytes = 0\<rparr>" "0 < length (region ?r)"
    using assms(1,2) by (auto simp: empty_table_def wf_table_def)
  have "lmb_overlaps_region ?r ?b sz = Some (- 1)"
    using e unfolding lmb_overlaps_region_def
    by (subst find_overlap.simps, subst find_overlap.simps) (simp add: lmb_addrs_overlap_def)
  then have "alloc_fit ?r (base p) ?b sz 1 = Some (Some ?b)"
    using ne above by (subst alloc_fit.simps) simp
  moreover obtain r' where "lmb_add_region ?r ?b sz = Some (r', 0)"
    using e by (simp add: lmb_add_region_def)
  moreover have "\<not> bytes p < sz" using assms(8) by (simp add: not_less)
  ultimately have "alloc_base_search l sz 1 max_addr = Some (l\<lparr>reserved := r'\<rparr>, ?b)"
    using assms(5,6) p0 mn ne
    by (simp add: alloc_base_search_def lmb_align_down_def lmb_align_up_def LMB_ALLOC_ANYWHERE_def)
  with above show ?thesis by blast
qed

theorem alloc_bound_below_size_witness:
  "\<exists>l'. alloc_base_search \<lparr>memory = table [\<lparr>base = 0x1000, bytes = 0xf000\<rparr>],
      reserved = \<lparr>cnt = 1, total = 0, region = replicate 9 \<lparr>base = 0, bytes = 0\<rparr>\<rparr>\<rparr> 0x4000 1 0x2000 =
    Some (l', - 0x2000)"
proof -
  let ?l = "\<lparr>memory = table [\<lparr>base = 0x1000, bytes = 0xf000\<rparr>],
      reserved = \<lparr>cnt = 1, total = 0, region = replicate 9 \<lparr>base = 0, bytes = 0\<rparr>\<rparr>\<rparr>"
  have r: "empty_table (reserved ?l)" "wf_table (reserved ?l)"
    by (simp_all add: empty_table_def wf_table_def MAX_LMB_REGIONS_def)
  have m: "live (memory ?l) = [\<lparr>base = 0x1000, bytes = 0xf000\<rparr>]" "proper \<lparr>base = 0x1000, bytes = 0xf000\<rparr>"
    "cnt (memory ?l) = 1" by (simp add: live_table, simp add: proper_def past_def, simp add: table_def)
  show ?thesis using alloc_bound_below_size [OF r m, of "0x2000" "0x4000"] by simp
qed

end
