(* ===== verification/EnvTable.thy ===== *)
theory EnvTable imports Prelude begin

text \<open>
  The table of U-Boot's environment variables, \<open>lib/hashtable.c\<close>: a closed hash table
  with double hashing, whose deleted buckets stay marked. Strings are the characters
  before the terminating NUL. The heap is a parameter: \<open>heap_ok n\<close> tells whether the
  \<open>n\<close>-th allocation since the start succeeds. The permission check \<open>change_ok\<close> and the
  callbacks of the entries are function pointers and so are arbitrary functions here;
  what \<open>env_callback_init\<close> and \<open>env_flags_init\<close> (other files) make of a new entry is
  the argument \<open>env_init\<close>.
\<close>

section \<open>Data\<close>

datatype errno = EPERM | EINVAL | ENOMEM | ESRCH

datatype env_op = env_op_create | env_op_delete | env_op_overwrite

datatype ACTION = FIND | ENTER

type_synonym callback_fn = "string \<Rightarrow> string option \<Rightarrow> env_op \<Rightarrow> int \<Rightarrow> bool"

text \<open>\<open>None\<close> is the null pointer.\<close>

record ENTRY =
  key :: "string option"
  data :: "string option"
  callback :: "callback_fn option"
  flags :: int

record bucket =
  used :: int
  ent :: ENTRY

record hsearch_data =
  table :: "bucket list option"
  htab_size :: nat
  filled :: u32
  change_ok :: "(ENTRY \<Rightarrow> string option \<Rightarrow> env_op \<Rightarrow> int \<Rightarrow> bool) option"
  heap_ok :: "nat \<Rightarrow> bool"
  allocs :: nat

text \<open>
  The result of an operation: the value returned, the bucket \<open>*retval\<close> points to (\<open>None\<close>
  for the null pointer) and what \<open>errno\<close> was set to, if it was. \<open>Crash\<close> is a null pointer
  handed to \<open>strcmp\<close>.
\<close>

datatype answer = Crash | Answer nat "nat option" "errno option"

definition slot :: "hsearch_data \<Rightarrow> nat \<Rightarrow> bucket" where
  "slot h i = the (table h) ! i"

definition set_slot :: "nat \<Rightarrow> bucket \<Rightarrow> hsearch_data \<Rightarrow> hsearch_data" where
  "set_slot i b h = h\<lparr>table := Some ((the (table h))[i := b])\<rparr>"

definition alloc :: "hsearch_data \<Rightarrow> bool \<times> hsearch_data" where
  "alloc h = (heap_ok h (allocs h), h\<lparr>allocs := allocs h + 1\<rparr>)"

definition strdup :: "string option \<Rightarrow> hsearch_data \<Rightarrow> string option \<times> hsearch_data" where
  "strdup s h = (case s of None \<Rightarrow> (None, h)
    | Some _ \<Rightarrow> (case alloc h of (ok, h') \<Rightarrow> (if ok then s else None, h')))"

section \<open>Creation\<close>

function isprime_loop :: "nat \<Rightarrow> nat \<Rightarrow> nat" where
  "isprime_loop number d = (if d * d < number \<and> number mod d \<noteq> 0
     then isprime_loop number (d + 2) else d)"
  by pat_completeness auto
termination
proof (relation "measure (\<lambda>(number, d). number - d)")
  fix number d :: nat
  assume "d * d < number \<and> number mod d \<noteq> 0"
  then have "d < number" by (metis le_square le_less_trans)
  then show "((number, d + 2), number, d) \<in> measure (\<lambda>(number, d). number - d)" by simp
qed simp

declare isprime_loop.simps [simp del]

definition isprime :: "nat \<Rightarrow> bool" where
  "isprime number \<longleftrightarrow> number mod isprime_loop number 3 \<noteq> 0"

partial_function (option) next_size :: "nat \<Rightarrow> nat option" where
  "next_size nel = (if isprime nel then Some nel else next_size (nel + 2))"

definition null_entry :: ENTRY where
  "null_entry = \<lparr>key = None, data = None, callback = None, flags = 0\<rparr>"

definition hcreate_r :: "nat \<Rightarrow> hsearch_data \<Rightarrow> (nat \<times> hsearch_data) option" where
  "hcreate_r nel h = (if table h \<noteq> None then Some (0, h)
     else map_option (\<lambda>n.
       let h = h\<lparr>htab_size := n, filled := 0\<rparr> in
       case alloc h of (ok, h') \<Rightarrow>
         if ok then (1, h'\<lparr>table := Some (replicate (n + 1) \<lparr>used = 0, ent = null_entry\<rparr>)\<rparr>)
         else (0, h')) (next_size (nel OR 1)))"

declare next_size.simps [code]

text \<open>What is left of \<open>hdestroy_r\<close> when the memory given back is not modelled.\<close>

definition hdestroy_r :: "hsearch_data \<Rightarrow> hsearch_data" where
  "hdestroy_r h = h\<lparr>table := None\<rparr>"

section \<open>Search and insertion\<close>

definition rejected :: "ENTRY \<Rightarrow> string option \<Rightarrow> env_op \<Rightarrow> int \<Rightarrow> hsearch_data \<Rightarrow> bool" where
  "rejected e v op flag h = (case change_ok h of None \<Rightarrow> False | Some f \<Rightarrow> f e v op flag)"

definition vetoed :: "ENTRY \<Rightarrow> string \<Rightarrow> string option \<Rightarrow> env_op \<Rightarrow> int \<Rightarrow> bool" where
  "vetoed e k v op flag = (case callback e of None \<Rightarrow> False | Some f \<Rightarrow> f k v op flag)"

text \<open>\<open>None\<close> stands for the result \<open>-1\<close>, keep searching.\<close>

definition compare_and_overwrite_entry ::
  "string \<Rightarrow> string option \<Rightarrow> ACTION \<Rightarrow> int \<Rightarrow> nat \<Rightarrow> nat \<Rightarrow> hsearch_data \<Rightarrow> answer option \<times> hsearch_data" where
  "compare_and_overwrite_entry ikey idata action flag hval idx h =
    (let e = ent (slot h idx) in
     if used (slot h idx) = int hval then
       (case key e of
          None \<Rightarrow> (Some Crash, h)
        | Some k \<Rightarrow>
            if ikey = k then
              (if action = ENTER \<and> idata \<noteq> None then
                 (if rejected e idata env_op_overwrite flag h then (Some (Answer 0 None (Some EPERM)), h)
                  else if vetoed e ikey idata env_op_overwrite flag then (Some (Answer 0 None (Some EINVAL)), h)
                  else (case strdup idata h of (d, h') \<Rightarrow>
                    let h'' = set_slot idx (slot h idx\<lparr>ent := e\<lparr>data := d\<rparr>\<rparr>) h' in
                    if d = None then (Some (Answer 0 None (Some ENOMEM)), h'')
                    else (Some (Answer idx (Some idx) None), h'')))
               else (Some (Answer idx (Some idx) None), h))
            else (None, h))
     else (None, h))"

text \<open>The key as a number: \<open>char\<close> is unsigned on ARM; the last character comes first.\<close>

definition hash :: "string \<Rightarrow> u32" where
  "hash k = foldr (\<lambda>c hval. push_bit 4 hval + of_char c) k (of_nat (length k))"

definition hash1 :: "nat \<Rightarrow> string \<Rightarrow> nat" where
  "hash1 n k = (let hval = unat (hash k) mod n in if hval = 0 then 1 else hval)"

definition hash2 :: "nat \<Rightarrow> nat \<Rightarrow> nat" where
  "hash2 n hval = 1 + hval mod (n - 2)"

definition step_back :: "nat \<Rightarrow> nat \<Rightarrow> nat \<Rightarrow> nat" where
  "step_back n hval2 idx = (if idx \<le> hval2 then n + idx - hval2 else idx - hval2)"

text \<open>The loop over the other buckets; it also gives the bucket it stopped at.\<close>

partial_function (option) probe ::
  "string \<Rightarrow> string option \<Rightarrow> ACTION \<Rightarrow> int \<Rightarrow> nat \<Rightarrow> nat \<Rightarrow> nat \<Rightarrow> hsearch_data
    \<Rightarrow> (answer option \<times> nat \<times> hsearch_data) option" where
  "probe ikey idata action flag hval hval2 idx0 h =
    (let idx = step_back (htab_size h) hval2 idx0 in
     if idx = hval then Some (None, idx, h)
     else (case compare_and_overwrite_entry ikey idata action flag hval idx h of
         (Some r, h') \<Rightarrow> Some (Some r, idx, h')
       | (None, h') \<Rightarrow>
           if used (slot h' idx) \<noteq> 0 then probe ikey idata action flag hval hval2 idx h'
           else Some (None, idx, h')))"

declare probe.simps [code]

definition delete_entry :: "nat \<Rightarrow> hsearch_data \<Rightarrow> hsearch_data" where
  "delete_entry idx h =
    (let h' = set_slot idx (slot h idx\<lparr>used := - 1, ent := ent (slot h idx)\<lparr>callback := None, flags := 0\<rparr>\<rparr>) h
     in h'\<lparr>filled := filled h' - 1\<rparr>)"

definition init_entry :: "(ENTRY \<Rightarrow> ENTRY) \<Rightarrow> ENTRY \<Rightarrow> ENTRY" where
  "init_entry env_init e = e\<lparr>callback := callback (env_init e), flags := flags (env_init e)\<rparr>"

text \<open>The part of \<open>hsearch_r\<close> behind \<open>An empty bucket has been found\<close>.\<close>

definition enter_entry ::
  "(ENTRY \<Rightarrow> ENTRY) \<Rightarrow> string \<Rightarrow> string option \<Rightarrow> ACTION \<Rightarrow> int \<Rightarrow> nat \<Rightarrow> nat \<Rightarrow> nat \<Rightarrow> hsearch_data
    \<Rightarrow> answer \<times> hsearch_data" where
  "enter_entry env_init ikey idata action flag hval idx0 first_deleted h =
    (if action = ENTER then
       (if filled h = of_nat (htab_size h) then (Answer 0 None (Some ENOMEM), h)
        else (let idx = (if first_deleted \<noteq> 0 then first_deleted else idx0) in
          case strdup (Some ikey) h of (k, h1) \<Rightarrow>
          case strdup idata h1 of (d, h2) \<Rightarrow>
          let b = slot h idx\<lparr>used := int hval, ent := ent (slot h idx)\<lparr>key := k, data := d\<rparr>\<rparr>;
              h3 = set_slot idx b h2 in
          if k = None \<or> d = None then (Answer 0 None (Some ENOMEM), h3)
          else (let e = init_entry env_init (ent b);
                    h4 = (set_slot idx (b\<lparr>ent := e\<rparr>) h3)\<lparr>filled := filled h3 + 1\<rparr> in
            if rejected e idata env_op_create flag h4 then (Answer 0 None (Some EPERM), delete_entry idx h4)
            else if vetoed e ikey idata env_op_create flag then (Answer 0 None (Some EINVAL), delete_entry idx h4)
            else (Answer 1 (Some idx) None, h4))))
     else (Answer 0 None (Some ESRCH), h))"

definition hsearch_r ::
  "(ENTRY \<Rightarrow> ENTRY) \<Rightarrow> string \<Rightarrow> string option \<Rightarrow> ACTION \<Rightarrow> int \<Rightarrow> hsearch_data
    \<Rightarrow> (answer \<times> hsearch_data) option" where
  "hsearch_r env_init ikey idata action flag h =
    (let hval = hash1 (htab_size h) ikey in
     if used (slot h hval) \<noteq> 0 then
       (let first_deleted = (if used (slot h hval) = - 1 then hval else 0) in
        case compare_and_overwrite_entry ikey idata action flag hval hval h of
          (Some r, h') \<Rightarrow> Some (r, h')
        | (None, h') \<Rightarrow>
            (case probe ikey idata action flag hval (hash2 (htab_size h) hval) hval h' of
               None \<Rightarrow> None
             | Some (Some r, idx, h'') \<Rightarrow> Some (r, h'')
             | Some (None, idx, h'') \<Rightarrow>
                 Some (enter_entry env_init ikey idata action flag hval idx first_deleted h'')))
     else Some (enter_entry env_init ikey idata action flag hval hval 0 h))"

section \<open>Deletion, matching and walking\<close>

definition hdelete_r :: "string \<Rightarrow> int \<Rightarrow> hsearch_data \<Rightarrow> (answer \<times> hsearch_data) option" where
  "hdelete_r k flag h = map_option (\<lambda>(r, h').
     case r of Crash \<Rightarrow> (Crash, h')
     | Answer idx ep err \<Rightarrow>
         if idx = 0 then (Answer 0 None (Some ESRCH), h')
         else if rejected (ent (slot h' (the ep))) None env_op_delete flag h' then (Answer 0 None (Some EPERM), h')
         else if vetoed (ent (slot h' idx)) k None env_op_delete flag then (Answer 0 None (Some EINVAL), h')
         else (Answer 1 None None, delete_entry idx h'))
     (hsearch_r (\<lambda>e. e) k None FIND 0 h)"

text \<open>\<open>hmatch_r\<close> and \<open>hstrstr_r\<close>: the next entry that passes a test.\<close>

function next_match :: "(ENTRY \<Rightarrow> bool) \<Rightarrow> nat \<Rightarrow> hsearch_data \<Rightarrow> answer" where
  "next_match p idx h = (if idx < htab_size h then
     (if used (slot h idx) \<le> 0 then next_match p (idx + 1) h
      else if p (ent (slot h idx)) then Answer idx (Some idx) None
      else next_match p (idx + 1) h)
   else Answer 0 None (Some ESRCH))"
  by pat_completeness auto
termination by (relation "measure (\<lambda>(p, idx, h). htab_size h - idx)") auto

declare next_match.simps [simp del]

definition hmatch_r :: "string \<Rightarrow> nat \<Rightarrow> hsearch_data \<Rightarrow> answer" where
  "hmatch_r m last_idx h = next_match (\<lambda>e. take (length m) (the (key e)) = m) (last_idx + 1) h"

definition contains :: "string \<Rightarrow> string \<Rightarrow> bool" where
  "contains s m = list_ex (\<lambda>i. take (length m) (drop i s) = m) [0..<length s + 1]"

definition hstrstr_r :: "string \<Rightarrow> nat \<Rightarrow> hsearch_data \<Rightarrow> answer" where
  "hstrstr_r m last_idx h =
     next_match (\<lambda>e. contains (the (key e)) m \<or> contains (the (data e)) m) (last_idx + 1) h"

text \<open>
  \<open>hwalk_r\<close> calls a function, which may change the entry it is given, on the entries
  until one call gives a non-zero result.
\<close>

fun walk :: "(ENTRY \<Rightarrow> int \<times> ENTRY) \<Rightarrow> nat list \<Rightarrow> hsearch_data \<Rightarrow> int \<times> hsearch_data" where
  "walk f [] h = (0, h)"
| "walk f (i # is) h =
    (if used (slot h i) > 0 then
       (case f (ent (slot h i)) of (retval, e) \<Rightarrow>
          let h' = set_slot i (slot h i\<lparr>ent := e\<rparr>) h in
          if retval \<noteq> 0 then (retval, h') else walk f is h')
     else walk f is h)"

definition hwalk_r :: "(ENTRY \<Rightarrow> int \<times> ENTRY) \<Rightarrow> hsearch_data \<Rightarrow> int \<times> hsearch_data" where
  "hwalk_r f h = walk f [1..<htab_size h + 1] h"

end
