(* ===== verification/EnvSpec.thy ===== *)
theory EnvSpec imports EnvTable begin

text \<open>
  What the environment table promises: it is a finite map from names to values. The
  probe sequence of a name visits every bucket once because the size is a prime; the
  invariant says that no empty bucket lies before a stored name on its sequence.
\<close>

section \<open>The probe sequence\<close>

definition prime_number :: "nat \<Rightarrow> bool" where
  "prime_number n \<longleftrightarrow> 1 < n \<and> (\<forall>d. d dvd n \<longrightarrow> d = 1 \<or> d = n)"

lemma prime_number_dvd_mult:
  assumes "prime_number p" "p dvd a * b"
  shows "p dvd a \<or> p dvd b"
proof (cases "p dvd a")
  case False
  have "gcd p a = 1" using assms(1) False gcd_dvd1 [of p a] gcd_dvd2 [of p a]
    unfolding prime_number_def by metis
  then have "coprime p a" by (simp add: coprime_iff_gcd_eq_1)
  with assms(2) show ?thesis by (simp add: coprime_dvd_mult_right_iff)
qed simp

definition probe_pos :: "nat \<Rightarrow> string \<Rightarrow> nat \<Rightarrow> nat" where
  "probe_pos n k j = (step_back n (hash2 n (hash1 n k)) ^^ j) (hash1 n k)"

lemma probe_pos_0 [simp]: "probe_pos n k 0 = hash1 n k"
  by (simp add: probe_pos_def)

lemma probe_pos_Suc: "step_back n (hash2 n (hash1 n k)) (probe_pos n k j) = probe_pos n k (Suc j)"
  by (simp add: probe_pos_def)

lemma hash1_range: "2 < n \<Longrightarrow> 0 < hash1 n k \<and> hash1 n k < n"
  by (simp add: hash1_def Let_def)

lemma hash2_range: "2 < n \<Longrightarrow> 0 < hash2 n v \<and> hash2 n v < n - 1"
  using mod_less_divisor [of "n - 2" v] unfolding hash2_def by linarith

lemma step_back_range: "0 < i \<Longrightarrow> i \<le> n \<Longrightarrow> 0 < v \<Longrightarrow> v < n \<Longrightarrow> 0 < step_back n v i \<and> step_back n v i \<le> n"
  by (auto simp: step_back_def)

lemma probe_pos_range: "2 < n \<Longrightarrow> 0 < probe_pos n k j \<and> probe_pos n k j \<le> n"
proof (induction j)
  case (Suc j)
  then show ?case
    using step_back_range [of "probe_pos n k j" n "hash2 n (hash1 n k)"] hash2_range [of n "hash1 n k"]
    by (metis Suc.IH diff_le_self less_le_trans probe_pos_Suc)
qed (use hash1_range in \<open>auto simp: less_imp_le\<close>)

text \<open>Position \<open>j\<close> is \<open>hval - j * hval2\<close> modulo the size.\<close>

lemma probe_pos_mod:
  assumes "2 < n"
  shows "\<exists>q. probe_pos n k j + j * hash2 n (hash1 n k) = hash1 n k + q * n"
proof (induction j)
  case 0
  show ?case by (simp add: exI [of _ 0])
next
  case (Suc j)
  let ?v = "hash2 n (hash1 n k)"
  obtain q where q: "probe_pos n k j + j * ?v = hash1 n k + q * n" using Suc by blast
  have v: "?v < n" using hash2_range [OF assms, of "hash1 n k"] by linarith
  have "probe_pos n k (Suc j) + ?v = probe_pos n k j + (if probe_pos n k j \<le> ?v then n else 0)"
    using v by (auto simp: probe_pos_Suc [symmetric] step_back_def)
  then have "probe_pos n k (Suc j) + Suc j * ?v
      = hash1 n k + (q + (if probe_pos n k j \<le> ?v then 1 else 0)) * n"
    using q by (auto simp: algebra_simps)
  then show ?case by blast
qed

lemma probe_pos_inj:
  assumes p: "prime_number n" "2 < n" and ij: "i < n" "j < n" "probe_pos n k i = probe_pos n k j"
  shows "i = j"
  using ij
proof (induction i j rule: linorder_wlog)
  case (le i j)
  let ?v = "hash2 n (hash1 n k)"
  obtain q r where "probe_pos n k i + i * ?v = hash1 n k + q * n" "probe_pos n k j + j * ?v = hash1 n k + r * n"
    using probe_pos_mod [OF p(2)] by metis
  with le have "(j - i) * ?v + q * n = r * n"
    by (simp add: diff_mult_distrib)
  then have "n dvd (j - i) * ?v"
    by (metis dvd_add_left_iff dvd_triv_right)
  then have "n dvd j - i \<or> n dvd ?v" by (rule prime_number_dvd_mult [OF p(1)])
  moreover have "\<not> n dvd ?v" using hash2_range [OF p(2), of "hash1 n k"] nat_dvd_not_less by auto
  moreover have "j - i < n" using le by simp
  ultimately have "j - i = 0" using nat_dvd_not_less by blast
  with le show ?case by simp
qed simp

lemma probe_pos_surj:
  assumes "prime_number n" "2 < n" "0 < i" "i \<le> n"
  obtains j where "j < n" "probe_pos n k j = i"
proof -
  have sub: "probe_pos n k ` {..<n} \<subseteq> {1..n}" using probe_pos_range [OF assms(2), of k] by (auto simp: Suc_le_eq)
  have "card (probe_pos n k ` {..<n}) = card {1..n}"
    using card_image [of "probe_pos n k" "{..<n}"] probe_pos_inj [OF assms(1,2)]
    by (auto simp: inj_on_def)
  then have "probe_pos n k ` {..<n} = {1..n}" using card_subset_eq [OF _ sub] by simp
  with assms(3,4) show thesis using that by (metis Suc_eq_plus1 Suc_leI atLeastAtMost_iff imageE lessThan_iff One_nat_def)
qed

lemma probe_pos_full:
  assumes "prime_number n" "2 < n"
  shows "probe_pos n k n = hash1 n k"
proof -
  obtain q where q: "probe_pos n k n + n * hash2 n (hash1 n k) = hash1 n k + q * n"
    using probe_pos_mod [OF assms(2)] by blast
  have "probe_pos n k n mod n = hash1 n k mod n"
    using arg_cong [OF q, of "\<lambda>x. x mod n"] by simp
  moreover have "hash1 n k < n" "0 < hash1 n k" "probe_pos n k n \<le> n" "0 < probe_pos n k n"
    using hash1_range [OF assms(2)] probe_pos_range [OF assms(2)] by blast+
  ultimately show ?thesis by (cases "probe_pos n k n = n") auto
qed

section \<open>The invariant and the map\<close>

definition live :: "hsearch_data \<Rightarrow> nat \<Rightarrow> bool" where
  "live h i \<longleftrightarrow> 0 < i \<and> i \<le> htab_size h \<and> 0 < used (slot h i)"

definition holds :: "hsearch_data \<Rightarrow> string \<Rightarrow> nat \<Rightarrow> bool" where
  "holds h k i \<longleftrightarrow> live h i \<and> key (ent (slot h i)) = Some k"

text \<open>An entry in its place: name and value are there, the stored hash and the chain are right.\<close>

definition placed :: "hsearch_data \<Rightarrow> nat \<Rightarrow> bool" where
  "placed h i \<longleftrightarrow> (\<exists>k d j. key (ent (slot h i)) = Some k \<and> data (ent (slot h i)) = Some d \<and>
     used (slot h i) = int (hash1 (htab_size h) k) \<and> j < htab_size h \<and> probe_pos (htab_size h) k j = i \<and>
     (\<forall>l<j. used (slot h (probe_pos (htab_size h) k l)) \<noteq> 0))"

definition env_wf :: "hsearch_data \<Rightarrow> bool" where
  "env_wf h \<longleftrightarrow> table h \<noteq> None \<and> length (the (table h)) = htab_size h + 1 \<and>
     prime_number (htab_size h) \<and> 2 < htab_size h \<and> htab_size h < 2 ^ 31 \<and>
     (\<forall>i. live h i \<longrightarrow> placed h i) \<and>
     (\<forall>k i j. holds h k i \<longrightarrow> holds h k j \<longrightarrow> i = j) \<and>
     filled h = of_nat (card {i. live h i})"

definition entries :: "hsearch_data \<Rightarrow> (string \<times> string) list" where
  "entries h = map (\<lambda>i. (the (key (ent (slot h i))), the (data (ent (slot h i)))))
     (filter (\<lambda>i. 0 < used (slot h i)) [1..<htab_size h + 1])"

definition env_map :: "hsearch_data \<Rightarrow> string \<Rightarrow> string option" where
  "env_map h = map_of (entries h)"

text \<open>The empty buckets; an insertion uses up at most one.\<close>

definition room :: "hsearch_data \<Rightarrow> nat" where
  "room h = card {i. 0 < i \<and> i \<le> htab_size h \<and> used (slot h i) = 0}"

section \<open>Facts on the invariant\<close>

text \<open>The heap counter is not part of what the table holds.\<close>

lemma slot_simps [simp]:
  "slot (h\<lparr>allocs := a\<rparr>) = slot h" "slot (h\<lparr>filled := f\<rparr>) = slot h"
  "htab_size (set_slot i b h) = htab_size h" "filled (set_slot i b h) = filled h"
  "change_ok (set_slot i b h) = change_ok h" "allocs (set_slot i b h) = allocs h"
  "heap_ok (set_slot i b h) = heap_ok h" "table (set_slot i b h) \<noteq> None"
  "length (the (table (set_slot i b h))) = length (the (table h))"
  by (simp_all add: slot_def set_slot_def fun_eq_iff)

lemma slot_set_slot:
  "i < length (the (table h)) \<Longrightarrow> slot (set_slot i b h) j = (if i = j then b else slot h j)"
  by (simp add: slot_def set_slot_def)

lemma set_slot_allocs: "set_slot i b (h\<lparr>allocs := a\<rparr>) = (set_slot i b h)\<lparr>allocs := a\<rparr>"
  by (simp add: set_slot_def)

lemma env_wf_allocs [simp]: "env_wf (h\<lparr>allocs := a\<rparr>) = env_wf h"
  by (simp add: env_wf_def placed_def holds_def live_def)

lemma env_map_allocs [simp]: "env_map (h\<lparr>allocs := a\<rparr>) = env_map h"
  by (simp add: env_map_def entries_def)

lemma room_allocs [simp]: "room (h\<lparr>allocs := a\<rparr>) = room h"
  by (simp add: room_def)

lemma live_data:
  assumes "env_wf h" "live h i"
  shows "\<exists>k d. key (ent (slot h i)) = Some k \<and> data (ent (slot h i)) = Some d"
  using assms unfolding env_wf_def placed_def by metis

lemma live_iff: "live h i \<longleftrightarrow> i \<in> set (filter (\<lambda>i. 0 < used (slot h i)) [1..<htab_size h + 1])"
  by (auto simp: live_def)

lemma entries_distinct:
  assumes "env_wf h"
  shows "distinct (map fst (entries h))"
proof -
  let ?k = "\<lambda>i. the (key (ent (slot h i)))"
  have own: "holds h (?k i) i" if "live h i" for i
    using live_data [OF assms that] that by (auto simp: holds_def)
  have "inj_on ?k (set (filter (\<lambda>i. 0 < used (slot h i)) [1..<htab_size h + 1]))"
  proof (rule inj_onI)
    fix i j assume "i \<in> set (filter (\<lambda>i. 0 < used (slot h i)) [1..<htab_size h + 1])"
      "j \<in> set (filter (\<lambda>i. 0 < used (slot h i)) [1..<htab_size h + 1])" "?k i = ?k j"
    then have "holds h (?k i) i" "holds h (?k i) j" using own live_iff by metis+
    then show "i = j" using assms unfolding env_wf_def by blast
  qed
  then show ?thesis by (simp add: entries_def comp_def distinct_map)
qed

lemma env_map_iff:
  assumes "env_wf h"
  shows "env_map h k = Some d \<longleftrightarrow> (\<exists>i. holds h k i \<and> data (ent (slot h i)) = Some d)"
proof -
  let ?is = "filter (\<lambda>i. 0 < used (slot h i)) [1..<htab_size h + 1]"
  let ?k = "\<lambda>i. the (key (ent (slot h i)))"
  have "env_map h k = Some d \<longleftrightarrow> (k, d) \<in> set (entries h)"
    using entries_distinct [OF assms] by (simp add: env_map_def)
  also have "\<dots> \<longleftrightarrow> (\<exists>i\<in>set ?is. k = ?k i \<and> d = the (data (ent (slot h i))))"
    by (auto simp: entries_def)
  also have "\<dots> \<longleftrightarrow> (\<exists>i. holds h k i \<and> data (ent (slot h i)) = Some d)"
  proof -
    have "holds h k i \<and> data (ent (slot h i)) = Some d \<longleftrightarrow>
        i \<in> set ?is \<and> k = ?k i \<and> d = the (data (ent (slot h i)))" for i
      unfolding holds_def live_iff [symmetric] using live_data [OF assms, of i] by auto
    then show ?thesis by (simp only: Bex_def)
  qed
  finally show ?thesis .
qed

lemma env_map_None:
  assumes "env_wf h"
  shows "env_map h k = None \<longleftrightarrow> (\<forall>i. \<not> holds h k i)"
proof -
  have "\<exists>d. data (ent (slot h i)) = Some d" if "holds h k i" for i
    using assms that unfolding env_wf_def placed_def holds_def by metis
  then show ?thesis using env_map_iff [OF assms] by (metis option.exhaust option.distinct(1))
qed

lemma option_eqI: "(\<And>d. a = Some d \<longleftrightarrow> b = Some d) \<Longrightarrow> a = b"
  by (cases a; cases b) auto

text \<open>The map after one bucket has changed, and after one has gone.\<close>

lemma env_map_updI:
  assumes wf: "env_wf h" "env_wf h'" and new: "holds h' k i" "data (ent (slot h' i)) = Some d"
    and others: "\<And>k' j. k' \<noteq> k \<Longrightarrow> holds h' k' j \<longleftrightarrow> holds h k' j"
      "\<And>k' j. k' \<noteq> k \<Longrightarrow> holds h k' j \<Longrightarrow> data (ent (slot h' j)) = data (ent (slot h j))"
  shows "env_map h' = (env_map h)(k \<mapsto> d)"
proof
  fix k'
  show "env_map h' k' = ((env_map h)(k \<mapsto> d)) k'"
  proof (cases "k' = k")
    case True
    then show ?thesis using env_map_iff [OF wf(2), of k d] new by auto
  next
    case False
    then have "env_map h' k' = env_map h k'"
      using env_map_iff [OF wf(1), of k'] env_map_iff [OF wf(2), of k'] others [OF False]
      by (intro option_eqI) auto
    with False show ?thesis by simp
  qed
qed

lemma env_map_delI:
  assumes wf: "env_wf h" "env_wf h'" and gone: "\<And>j. \<not> holds h' k j"
    and others: "\<And>k' j. k' \<noteq> k \<Longrightarrow> holds h' k' j \<longleftrightarrow> holds h k' j"
      "\<And>k' j. k' \<noteq> k \<Longrightarrow> holds h k' j \<Longrightarrow> data (ent (slot h' j)) = data (ent (slot h j))"
  shows "env_map h' = (env_map h)(k := None)"
proof
  fix k'
  show "env_map h' k' = ((env_map h)(k := None)) k'"
  proof (cases "k' = k")
    case True
    then show ?thesis using env_map_None [OF wf(2), of k] gone by auto
  next
    case False
    then have "env_map h' k' = env_map h k'"
      using env_map_iff [OF wf(1), of k'] env_map_iff [OF wf(2), of k'] others [OF False]
      by (intro option_eqI) auto
    with False show ?thesis by simp
  qed
qed

lemma env_wf_size: "env_wf h \<Longrightarrow> 2 < htab_size h \<and> prime_number (htab_size h)"
  by (simp add: env_wf_def)

lemma holds_used:
  assumes "env_wf h" "holds h k i"
  shows "used (slot h i) = int (hash1 (htab_size h) k)"
  using assms unfolding env_wf_def holds_def placed_def by (metis option.inject)

section \<open>Searching\<close>

text \<open>A bucket that does not hold the name and is not empty makes the search go on.\<close>

definition passes :: "hsearch_data \<Rightarrow> string \<Rightarrow> nat \<Rightarrow> bool" where
  "passes h k j \<longleftrightarrow> used (slot h (probe_pos (htab_size h) k j)) \<noteq> 0 \<and>
     \<not> holds h k (probe_pos (htab_size h) k j)"

lemma compare_keep:
  assumes "env_wf h" "0 < i" "i \<le> htab_size h" "\<not> holds h k i"
  shows "compare_and_overwrite_entry k idata act flag (hash1 (htab_size h) k) i h = (None, h)"
proof (cases "used (slot h i) = int (hash1 (htab_size h) k)")
  case True
  then have "live h i" using assms env_wf_size [OF assms(1)] hash1_range [of "htab_size h" k] by (simp add: live_def)
  then obtain k' where "key (ent (slot h i)) = Some k'" "k' \<noteq> k"
    using assms unfolding env_wf_def placed_def holds_def by metis
  with True show ?thesis by (simp add: compare_and_overwrite_entry_def Let_def)
qed (simp add: compare_and_overwrite_entry_def Let_def)

lemma compare_some: "holds h k i \<Longrightarrow> env_wf h \<Longrightarrow>
  \<exists>r h'. compare_and_overwrite_entry k idata act flag (hash1 (htab_size h) k) i h = (Some r, h')"
  using holds_used [of h k i]
  by (auto simp: compare_and_overwrite_entry_def Let_def holds_def strdup_def alloc_def split: option.splits prod.splits)

text \<open>Where the loop over the buckets stops: at the name, at an empty bucket, or all around.\<close>

lemma probe_run:
  assumes wf: "env_wf h" and j: "j < htab_size h" and seen: "\<forall>l\<le>j. passes h k l"
  shows "(\<exists>m r h'. m < htab_size h \<and> (\<forall>l<m. passes h k l) \<and> holds h k (probe_pos (htab_size h) k m) \<and>
      compare_and_overwrite_entry k idata act flag (hash1 (htab_size h) k) (probe_pos (htab_size h) k m) h = (Some r, h') \<and>
      probe k idata act flag (hash1 (htab_size h) k) (hash2 (htab_size h) (hash1 (htab_size h) k))
        (probe_pos (htab_size h) k j) h = Some (Some r, probe_pos (htab_size h) k m, h'))
    \<or> (\<exists>m. 0 < m \<and> m < htab_size h \<and> (\<forall>l<m. passes h k l) \<and> used (slot h (probe_pos (htab_size h) k m)) = 0 \<and>
      probe k idata act flag (hash1 (htab_size h) k) (hash2 (htab_size h) (hash1 (htab_size h) k))
        (probe_pos (htab_size h) k j) h = Some (None, probe_pos (htab_size h) k m, h))
    \<or> ((\<forall>l<htab_size h. passes h k l) \<and>
      probe k idata act flag (hash1 (htab_size h) k) (hash2 (htab_size h) (hash1 (htab_size h) k))
        (probe_pos (htab_size h) k j) h = Some (None, hash1 (htab_size h) k, h))"
  using j seen
proof (induction "htab_size h - j" arbitrary: j)
  case (Suc x j)
  let ?n = "htab_size h" and ?p = "probe_pos (htab_size h) k"
  let ?probe = "probe k idata act flag (hash1 ?n k) (hash2 ?n (hash1 ?n k))"
  have n: "2 < ?n" "prime_number ?n" using env_wf_size [OF wf] by auto
  have unfold: "?probe (?p j) h =
      (if ?p (Suc j) = hash1 ?n k then Some (None, ?p (Suc j), h)
       else (case compare_and_overwrite_entry k idata act flag (hash1 ?n k) (?p (Suc j)) h of
           (Some r, h') \<Rightarrow> Some (Some r, ?p (Suc j), h')
         | (None, h') \<Rightarrow> if used (slot h' (?p (Suc j))) \<noteq> 0 then ?probe (?p (Suc j)) h'
             else Some (None, ?p (Suc j), h')))"
    by (subst probe.simps) (simp only: probe_pos_Suc Let_def)
  show ?case
  proof (cases "Suc j = ?n")
    case True
    then have "?p (Suc j) = hash1 ?n k" using probe_pos_full [OF n(2,1)] by simp
    moreover have "\<forall>l<?n. passes h k l" using Suc.prems True by auto
    ultimately show ?thesis using unfold by simp
  next
    case False
    then have less: "Suc j < ?n" using Suc.prems by simp
    have first: "?p (Suc j) \<noteq> hash1 ?n k"
      using probe_pos_inj [OF n(2,1), of "Suc j" 0 k] less n by auto
    have range: "0 < ?p (Suc j)" "?p (Suc j) \<le> ?n" using probe_pos_range [OF n(1)] by auto
    have upto: "\<forall>l<Suc j. passes h k l" using Suc.prems by auto
    show ?thesis
    proof (cases "holds h k (?p (Suc j))")
      case True
      obtain r h' where "compare_and_overwrite_entry k idata act flag (hash1 ?n k) (?p (Suc j)) h = (Some r, h')"
        using compare_some [OF True wf] by metis
      with unfold first True less upto show ?thesis by auto
    next
      case no: False
      note keep = compare_keep [OF wf range no, of idata act flag]
      show ?thesis
      proof (cases "used (slot h (?p (Suc j))) = 0")
        case True
        with keep unfold first less upto show ?thesis by auto
      next
        case False
        have "\<forall>l\<le>Suc j. passes h k l" using upto no False by (auto simp: le_Suc_eq less_Suc_eq_le passes_def)
        moreover have "x = ?n - Suc j" using Suc.hyps(2) by simp
        moreover have "?probe (?p j) h = ?probe (?p (Suc j)) h" using unfold first keep False by simp
        ultimately show ?thesis using Suc.hyps(1) [of "Suc j"] less by simp
      qed
    qed
  qed
qed simp

lemma absent_before:
  assumes "env_wf h" "\<forall>l<m. passes h k l" "m < htab_size h" "used (slot h (probe_pos (htab_size h) k m)) = 0"
  shows "\<not> holds h k i"
proof
  assume i: "holds h k i"
  then obtain j where j: "probe_pos (htab_size h) k j = i"
      "\<forall>l<j. used (slot h (probe_pos (htab_size h) k l)) \<noteq> 0"
    using assms(1) unfolding env_wf_def placed_def holds_def by (metis option.inject)
  have "0 < used (slot h i)" using i by (simp add: holds_def live_def)
  then have "\<not> m < j" "j \<noteq> m" using assms(4) j by auto
  then show False using assms(2) i j(1) by (auto simp: passes_def)
qed

lemma absent_around:
  assumes "env_wf h" "\<forall>l<htab_size h. passes h k l"
  shows "\<not> holds h k i"
proof
  assume i: "holds h k i"
  then have "0 < i" "i \<le> htab_size h" by (simp_all add: holds_def live_def)
  then obtain j where "j < htab_size h" "probe_pos (htab_size h) k j = i"
    using probe_pos_surj env_wf_size [OF assms(1)] by metis
  with assms(2) i show False by (auto simp: passes_def)
qed

text \<open>The outcomes of \<open>hsearch_r\<close>.\<close>

lemma search_cases:
  assumes wf: "env_wf h"
  obtains (found) i r h' where "holds h k i"
      "compare_and_overwrite_entry k idata act flag (hash1 (htab_size h) k) i h = (Some r, h')"
      "hsearch_r env_init k idata act flag h = Some (r, h')"
  | (free) m fd where "m < htab_size h" "\<forall>l<m. passes h k l" "\<forall>i. \<not> holds h k i"
      "used (slot h (probe_pos (htab_size h) k m)) = 0"
      "fd = 0 \<or> fd = hash1 (htab_size h) k \<and> used (slot h (hash1 (htab_size h) k)) = - 1"
      "hsearch_r env_init k idata act flag h = Some (enter_entry env_init k idata act flag
        (hash1 (htab_size h) k) (probe_pos (htab_size h) k m) fd h)"
  | (full) "\<forall>l<htab_size h. passes h k l" "\<forall>i. \<not> holds h k i"
      "hsearch_r env_init k idata act flag h = Some (enter_entry env_init k idata act flag
        (hash1 (htab_size h) k) (hash1 (htab_size h) k)
        (if used (slot h (hash1 (htab_size h) k)) = - 1 then hash1 (htab_size h) k else 0) h)"
proof -
  let ?n = "htab_size h" and ?v = "hash1 (htab_size h) k"
  have n: "2 < ?n" using env_wf_size [OF wf] by simp
  have v: "0 < ?v" "?v \<le> ?n" using hash1_range [OF n, of k] by auto
  consider (empty) "used (slot h ?v) = 0" | (hit) "used (slot h ?v) \<noteq> 0" "holds h k ?v"
    | (miss) "used (slot h ?v) \<noteq> 0" "\<not> holds h k ?v" by blast
  then show thesis
  proof cases
    case empty
    then have "\<forall>i. \<not> holds h k i" using absent_before [OF wf, of 0 k] n by auto
    then show thesis using free [of 0 0] empty n by (simp add: hsearch_r_def Let_def)
  next
    case hit
    obtain r h' where "compare_and_overwrite_entry k idata act flag ?v ?v h = (Some r, h')"
      using compare_some [OF hit(2) wf] by metis
    then show thesis using found [OF hit(2)] hit(1) by (simp add: hsearch_r_def Let_def)
  next
    case miss
    let ?fd = "if used (slot h ?v) = - 1 then ?v else 0"
    note keep = compare_keep [OF wf v miss(2), of idata act flag]
    have run: "hsearch_r env_init k idata act flag h =
        (case probe k idata act flag ?v (hash2 ?n ?v) ?v h of
           None \<Rightarrow> None
         | Some (Some r, idx, h'') \<Rightarrow> Some (r, h'')
         | Some (None, idx, h'') \<Rightarrow> Some (enter_entry env_init k idata act flag ?v idx ?fd h''))"
      using miss(1) keep by (simp add: hsearch_r_def Let_def)
    have zero: "0 < ?n" using n by simp
    have "\<forall>l\<le>0. passes h k l" using miss by (simp add: passes_def)
    from probe_run [OF wf zero this, of idata act flag] show thesis
    proof (elim disjE)
      assume "\<exists>m r h'. m < ?n \<and> (\<forall>l<m. passes h k l) \<and> holds h k (probe_pos ?n k m) \<and>
        compare_and_overwrite_entry k idata act flag ?v (probe_pos ?n k m) h = (Some r, h') \<and>
        probe k idata act flag ?v (hash2 ?n ?v) (probe_pos ?n k 0) h = Some (Some r, probe_pos ?n k m, h')"
      then show thesis using found run by auto
    next
      assume "\<exists>m. 0 < m \<and> m < ?n \<and> (\<forall>l<m. passes h k l) \<and> used (slot h (probe_pos ?n k m)) = 0 \<and>
        probe k idata act flag ?v (hash2 ?n ?v) (probe_pos ?n k 0) h = Some (None, probe_pos ?n k m, h)"
      then obtain m where m: "m < ?n" "\<forall>l<m. passes h k l" "used (slot h (probe_pos ?n k m)) = 0"
        "probe k idata act flag ?v (hash2 ?n ?v) ?v h = Some (None, probe_pos ?n k m, h)" by auto
      show thesis
      proof (rule free [OF m(1,2) _ m(3)])
        show "\<forall>i. \<not> holds h k i" using absent_before [OF wf m(2,1,3)] by blast
        show "?fd = 0 \<or> ?fd = ?v \<and> used (slot h ?v) = - 1" by simp
        show "hsearch_r env_init k idata act flag h =
            Some (enter_entry env_init k idata act flag ?v (probe_pos ?n k m) ?fd h)"
          using run m(4) by simp
      qed
    next
      assume "(\<forall>l<?n. passes h k l) \<and>
        probe k idata act flag ?v (hash2 ?n ?v) (probe_pos ?n k 0) h = Some (None, ?v, h)"
      then show thesis using full absent_around [OF wf] run by auto
    qed
  qed
qed

section \<open>Changing the table\<close>

lemma finite_live [simp]: "finite {i. live h i}"
  by (rule finite_subset [of _ "{..htab_size h}"]) (auto simp: live_def)

lemma live_bound: "env_wf h \<Longrightarrow> live h i \<Longrightarrow> i < length (the (table h))"
  by (simp add: env_wf_def live_def)

lemma put_entry:
  assumes wf: "env_wf h" and new: "\<forall>i. \<not> holds h k i"
    and m: "m < htab_size h" "\<forall>l<m. used (slot h (probe_pos (htab_size h) k l)) \<noteq> 0"
    and i: "i = probe_pos (htab_size h) k m" "used (slot h i) \<le> 0"
    and b: "used b = int (hash1 (htab_size h) k)" "key (ent b) = Some k" "data (ent b) = Some d"
  defines "h' \<equiv> (set_slot i b h)\<lparr>filled := filled h + 1\<rparr>"
  shows "env_wf h'" and "env_map h' = (env_map h)(k \<mapsto> d)" and "holds h' k i" and "room h \<le> room h' + 1"
proof -
  have n: "2 < htab_size h" "prime_number (htab_size h)" using env_wf_size [OF wf] by auto
  have range: "0 < i" "i \<le> htab_size h" using probe_pos_range [OF n(1)] i by auto
  then have idx: "i < length (the (table h))" using wf by (simp add: env_wf_def)
  have pos: "0 < used b" using b(1) hash1_range [OF n(1)] by simp
  have slot: "slot h' j = (if i = j then b else slot h j)" for j
    using idx by (simp add: h'_def slot_set_slot)
  have sz [simp]: "htab_size h' = htab_size h" by (simp add: h'_def)
  have live: "live h' j \<longleftrightarrow> j = i \<or> live h j" for j
    using range pos i(2) by (auto simp: live_def slot)
  have out: "\<not> live h i" using i(2) by (simp add: live_def)
  have holds: "holds h' k' j \<longleftrightarrow> j = i \<and> k' = k \<or> holds h k' j" for k' j
    using out b(2) by (auto simp: holds_def live slot)
  show own: "holds h' k i" by (simp add: holds)
  have placed: "placed h' j" if "live h' j" for j
  proof (cases "j = i")
    case True
    have "\<forall>l<m. used (slot h' (probe_pos (htab_size h) k l)) \<noteq> 0" using m(2) pos by (simp add: slot)
    moreover have "slot h' i = b" by (simp add: slot)
    ultimately show ?thesis unfolding placed_def sz True using b m(1) i(1)
      by (intro exI [of _ k] exI [of _ d] exI [of _ m]) simp
  next
    case False
    then have "placed h j" using that wf live by (simp add: env_wf_def)
    then obtain k' d' l' where "key (ent (slot h j)) = Some k'" "data (ent (slot h j)) = Some d'"
        "used (slot h j) = int (hash1 (htab_size h) k')" "l' < htab_size h" "probe_pos (htab_size h) k' l' = j"
        "\<forall>l<l'. used (slot h (probe_pos (htab_size h) k' l)) \<noteq> 0" unfolding placed_def by blast
    then show ?thesis using False pos by (auto simp: placed_def slot)
  qed
  have "{j. live h' j} = insert i {j. live h j}" using live by blast
  then have "card {j. live h' j} = Suc (card {j. live h j})" using out by simp
  then show wf': "env_wf h'"
    using wf placed new unfolding env_wf_def holds by (auto simp: h'_def)
  show "env_map h' = (env_map h)(k \<mapsto> d)"
  proof (rule env_map_updI [OF wf wf' own])
    show "data (ent (slot h' i)) = Some d" using b(3) by (simp add: slot)
    show "holds h' k' j \<longleftrightarrow> holds h k' j" if "k' \<noteq> k" for k' j using that by (simp add: holds)
    show "data (ent (slot h' j)) = data (ent (slot h j))" if "holds h k' j" for k' j
    proof -
      have "j \<noteq> i" using that out by (auto simp: holds_def)
      then show ?thesis by (simp add: slot)
    qed
  qed
  have eq: "{j. 0 < j \<and> j \<le> htab_size h \<and> used (slot h j) = 0} - {i}
      = {j. 0 < j \<and> j \<le> htab_size h' \<and> used (slot h' j) = 0}"
    using pos by (auto simp: slot)
  show "room h \<le> room h' + 1"
    using diff_card_le_card_Diff [of "{i}" "{j. 0 < j \<and> j \<le> htab_size h \<and> used (slot h j) = 0}"]
    unfolding room_def eq by simp
qed

lemma replace_data:
  assumes wf: "env_wf h" and i: "holds h k i"
    and b: "used b = used (slot h i)" "key (ent b) = Some k" "data (ent b) = Some d"
  shows "env_wf (set_slot i b h)" and "env_map (set_slot i b h) = (env_map h)(k \<mapsto> d)"
    and "holds (set_slot i b h) k i" and "room (set_slot i b h) = room h"
proof -
  let ?h = "set_slot i b h"
  have idx: "i < length (the (table h))" using live_bound [OF wf] i by (simp add: holds_def)
  note slot = slot_set_slot [OF idx]
  have ki: "key (ent (slot h i)) = Some k" using i by (simp add: holds_def)
  have used: "used (slot ?h j) = used (slot h j)" for j using b by (simp add: slot)
  have key: "key (ent (slot ?h j)) = key (ent (slot h j))" for j using b ki by (auto simp: slot)
  have live: "live ?h = live h" by (simp add: live_def used fun_eq_iff)
  have holds: "holds ?h = holds h" by (simp add: holds_def live key fun_eq_iff)
  show "holds ?h k i" using i by (simp add: holds)
  have "placed ?h j" if "live h j" for j
  proof -
    have p: "placed h j" using that wf by (simp add: env_wf_def)
    have "\<exists>d. data (ent (slot ?h j)) = Some d" using p b by (auto simp: slot placed_def)
    then show ?thesis using p unfolding placed_def used key by auto
  qed
  then show wf': "env_wf ?h"
    using wf unfolding env_wf_def holds live by simp
  have only: "k' = k" if "holds h k' i" for k' using that i by (simp add: holds_def)
  show "env_map ?h = (env_map h)(k \<mapsto> d)"
  proof (rule env_map_updI [OF wf wf'])
    show "holds ?h k i" using i by (simp add: holds)
    show "data (ent (slot ?h i)) = Some d" using b(3) by (simp add: slot)
    show "data (ent (slot ?h j)) = data (ent (slot h j))" if "k' \<noteq> k" "holds h k' j" for k' j
      using only that by (auto simp: slot)
  qed (simp add: holds)
  show "room ?h = room h" by (simp add: room_def used)
qed

lemma delete_entry_ok:
  assumes wf: "env_wf h" and i: "holds h k i"
  shows "env_wf (delete_entry i h)" and "env_map (delete_entry i h) = (env_map h)(k := None)"
    and "room (delete_entry i h) = room h"
proof -
  let ?h = "delete_entry i h"
  have li: "live h i" using i by (simp add: holds_def)
  have idx: "i < length (the (table h))" using live_bound [OF wf li] .
  have slot: "slot ?h j = (if i = j then slot h i\<lparr>used := - 1, ent := ent (slot h i)\<lparr>callback := None, flags := 0\<rparr>\<rparr>
      else slot h j)" for j
    using idx by (simp add: delete_entry_def Let_def slot_set_slot)
  have sz [simp]: "htab_size ?h = htab_size h" by (simp add: delete_entry_def Let_def)
  have live: "live ?h j \<longleftrightarrow> live h j \<and> j \<noteq> i" for j by (auto simp: live_def slot)
  have holds: "holds ?h k' j \<longleftrightarrow> holds h k' j \<and> j \<noteq> i" for k' j by (auto simp: holds_def live slot)
  have used: "used (slot h j) \<noteq> 0 \<Longrightarrow> used (slot ?h j) \<noteq> 0" for j by (simp add: slot)
  have "placed ?h j" if "live h j" "j \<noteq> i" for j
  proof -
    have "placed h j" using that wf by (simp add: env_wf_def)
    then show ?thesis using that(2) used unfolding placed_def sz by (simp add: slot) blast
  qed
  moreover have "filled ?h = of_nat (card {j. live ?h j})"
  proof -
    have "{j. live ?h j} = {j. live h j} - {i}" using live by blast
    then have "card {j. live h j} = Suc (card {j. live ?h j})"
      using card_Suc_Diff1 [of "{j. live h j}" i] li by simp
    then have "filled h = of_nat (card {j. live ?h j}) + 1" using wf by (simp add: env_wf_def)
    moreover have "filled ?h = filled h - 1" by (simp add: delete_entry_def Let_def)
    ultimately show ?thesis by simp
  qed
  moreover have "table ?h \<noteq> None" "length (the (table ?h)) = htab_size ?h + 1"
    using wf by (simp_all add: delete_entry_def Let_def env_wf_def)
  moreover have "\<forall>k i j. holds ?h k i \<longrightarrow> holds ?h k j \<longrightarrow> i = j"
    using wf unfolding env_wf_def holds by blast
  ultimately show wf': "env_wf ?h"
    using wf live unfolding env_wf_def sz by blast
  have only: "k' = k" if "holds h k' i" for k' using that i by (simp add: holds_def)
  show "env_map ?h = (env_map h)(k := None)"
  proof (rule env_map_delI [OF wf wf'])
    show "\<not> holds ?h k j" for j using wf i unfolding env_wf_def holds by blast
  qed (use only in \<open>auto simp: holds slot\<close>)
  have "used (slot h i) \<noteq> 0" using li by (simp add: live_def)
  then have "used (slot ?h j) = 0 \<longleftrightarrow> used (slot h j) = 0" for j by (auto simp: slot)
  then show "room ?h = room h" by (simp add: room_def)
qed

section \<open>The operations on the map\<close>

lemma live_less: "env_wf h \<Longrightarrow> 0 < i \<Longrightarrow> i \<le> htab_size h \<Longrightarrow> \<not> live h i \<Longrightarrow> filled h \<noteq> of_nat (htab_size h)"
proof -
  assume wf: "env_wf h" and i: "0 < i" "i \<le> htab_size h" "\<not> live h i"
  have "{j. live h j} \<subseteq> {1..htab_size h} - {i}" using i(3) by (auto simp: live_def)
  then have "card {j. live h j} \<le> card ({1..htab_size h} - {i})" by (rule card_mono [rotated]) simp
  then have "card {j. live h j} < htab_size h" using i by simp
  moreover have "filled h = of_nat (card {j. live h j})" "htab_size h < 2 ^ 31"
    using wf by (simp_all add: env_wf_def)
  ultimately have "unat (filled h) < unat (of_nat (htab_size h) :: u32)"
    by (simp add: unat_of_nat)
  then show "filled h \<noteq> of_nat (htab_size h)" by auto
qed

text \<open>No function stands in the way of a change.\<close>

definition unguarded :: "(ENTRY \<Rightarrow> ENTRY) \<Rightarrow> hsearch_data \<Rightarrow> bool" where
  "unguarded env_init h \<longleftrightarrow> change_ok h = None \<and> (\<forall>e. callback (env_init e) = None) \<and>
     (\<forall>i. live h i \<longrightarrow> callback (ent (slot h i)) = None)"

text \<open>
  The functions of the table: \<open>denied\<close> is what they say to an entry \<open>e\<close> and a new value, \<open>judged\<close> the
  entry and operation they are shown (the entry there is, or the new one as \<open>env_init\<close> has set it up),
  and \<open>guarded_by\<close> says that the permission check is \<open>c\<close> and all entries have the callbacks and flags
  that \<open>env_init\<close> gives to their names.
\<close>

definition denied :: "hsearch_data \<Rightarrow> ENTRY \<Rightarrow> string \<Rightarrow> string \<Rightarrow> env_op \<Rightarrow> int \<Rightarrow> bool" where
  "denied h e k d op flag \<longleftrightarrow> rejected e (Some d) op flag h \<or> vetoed e k (Some d) op flag"

definition judged :: "(ENTRY \<Rightarrow> ENTRY) \<Rightarrow> hsearch_data \<Rightarrow> string \<Rightarrow> string \<Rightarrow> ENTRY \<Rightarrow> env_op \<Rightarrow> bool" where
  "judged env_init h k d e op \<longleftrightarrow>
     (op = env_op_overwrite \<and> (\<exists>i. holds h k i \<and> e = ent (slot h i)) \<or>
      op = env_op_create \<and> (\<forall>i. \<not> holds h k i) \<and>
        (\<exists>e0. key e0 = Some k \<and> data e0 = Some d \<and> e = init_entry env_init e0))"

definition set_up :: "(ENTRY \<Rightarrow> ENTRY) \<Rightarrow> ENTRY \<Rightarrow> bool" where
  "set_up env_init e \<longleftrightarrow> (\<exists>e0. key e0 = key e \<and> callback e = callback (env_init e0) \<and> flags e = flags (env_init e0))"

definition guarded_by :: "(ENTRY \<Rightarrow> ENTRY) \<Rightarrow> (ENTRY \<Rightarrow> string option \<Rightarrow> env_op \<Rightarrow> int \<Rightarrow> bool) option
    \<Rightarrow> hsearch_data \<Rightarrow> bool" where
  "guarded_by env_init c h \<longleftrightarrow> change_ok h = c \<and> (\<forall>i. live h i \<longrightarrow> set_up env_init (ent (slot h i)))"

definition permits :: "(ENTRY \<Rightarrow> ENTRY) \<Rightarrow> (ENTRY \<Rightarrow> string option \<Rightarrow> env_op \<Rightarrow> int \<Rightarrow> bool) option
    \<Rightarrow> int \<Rightarrow> string \<Rightarrow> string \<Rightarrow> bool" where
  "permits env_init c flag k d \<longleftrightarrow> (\<forall>e op. key e = Some k \<longrightarrow> set_up env_init e \<longrightarrow> op \<noteq> env_op_delete \<longrightarrow>
     (case c of None \<Rightarrow> True | Some f \<Rightarrow> \<not> f e (Some d) op flag) \<and> \<not> vetoed e k (Some d) op flag)"

lemma permits_denied:
  assumes "permits env_init c flag k d" and "guarded_by env_init c h" and "judged env_init h k d e op"
  shows "\<not> denied h e k d op flag"
proof -
  have e: "key e = Some k" "set_up env_init e" "op \<noteq> env_op_delete"
    using assms(2,3) by (auto simp: judged_def guarded_by_def holds_def init_entry_def set_up_def)
  have "change_ok h = c" using assms(2) by (simp add: guarded_by_def)
  then show ?thesis
    using assms(1) e by (auto simp: permits_def denied_def rejected_def split: option.splits)
qed

lemma unguarded_denied:
  "unguarded env_init h \<Longrightarrow> judged env_init h k d e op \<Longrightarrow> \<not> denied h e k d op flag"
  by (auto simp: unguarded_def judged_def denied_def rejected_def vetoed_def holds_def init_entry_def)

definition refused :: "answer \<Rightarrow> bool" where
  "refused r \<longleftrightarrow> r = Answer 0 None (Some EPERM) \<or> r = Answer 0 None (Some EINVAL)"

lemma strdup_ok: "heap_ok h (allocs h) \<Longrightarrow> strdup (Some s) h = (Some s, h\<lparr>allocs := allocs h + 1\<rparr>)"
  by (simp add: strdup_def alloc_def)

lemma enter_new:
  assumes wf: "env_wf h" and new: "\<forall>i. \<not> holds h k i"
    and heap: "heap_ok h (allocs h)" "heap_ok h (allocs h + 1)"
    and m: "m < htab_size h" "\<forall>l<m. used (slot h (probe_pos (htab_size h) k l)) \<noteq> 0"
    and i: "i = probe_pos (htab_size h) k m" "used (slot h i) \<le> 0" "i = (if fd \<noteq> 0 then fd else idx)"
  obtains r h' where
    "enter_entry env_init k (Some d) ENTER flag (hash1 (htab_size h) k) idx fd h = (r, h')"
    "env_wf h'" "room h \<le> room h' + 1" "heap_ok h' = heap_ok h" "htab_size h' = htab_size h"
    "\<exists>e op. judged env_init h k d e op \<and>
      (if denied h e k d op flag then refused r \<and> env_map h' = env_map h
       else r = Answer 1 (Some i) None \<and> holds h' k i \<and> env_map h' = (env_map h)(k \<mapsto> d))"
    "\<And>c. guarded_by env_init c h \<Longrightarrow> guarded_by env_init c h'"
proof -
  let ?n = "htab_size h"
  have n: "2 < ?n" using env_wf_size [OF wf] by simp
  have range: "0 < i" "i \<le> ?n" using probe_pos_range [OF n] i(1) by auto
  have dead: "\<not> live h i" using i(2) by (simp add: live_def)
  have idx: "i < length (the (table h))" using wf range by (simp add: env_wf_def)
  define b where "b = slot h i\<lparr>used := int (hash1 ?n k), ent := ent (slot h i)\<lparr>key := Some k, data := Some d\<rparr>\<rparr>"
  define e where "e = init_entry env_init (ent b)"
  let ?b = "b\<lparr>ent := e\<rparr>"
  define g where "g = (set_slot i ?b h)\<lparr>filled := filled h + 1\<rparr>"
  define h4 where "h4 = g\<lparr>allocs := allocs h + 1 + 1\<rparr>"
  have e: "key e = Some k" "data e = Some d" "callback e = callback (env_init (ent b))"
    by (simp_all add: e_def b_def init_entry_def)
  have b: "used ?b = int (hash1 ?n k)" "key (ent ?b) = Some k" "data (ent ?b) = Some d"
    by (simp_all add: b_def e)
  note put = put_entry [OF wf new m i(1,2) b, folded g_def]
  have wf4: "env_wf h4" "env_map h4 = (env_map h)(k \<mapsto> d)" "holds h4 k i" "room h \<le> room h4 + 1"
      "heap_ok h4 = heap_ok h" "htab_size h4 = ?n" "change_ok h4 = change_ok h"
    using put by (simp_all add: h4_def holds_def live_def g_def)
  have comm: "h\<lparr>table := t, filled := f, allocs := a\<rparr> = h\<lparr>allocs := a, table := t, filled := f\<rparr>" for t f a
    by simp
  have run: "enter_entry env_init k (Some d) ENTER flag (hash1 ?n k) idx fd h =
      (if rejected e (Some d) env_op_create flag h4 then (Answer 0 None (Some EPERM), delete_entry i h4)
       else if vetoed e k (Some d) env_op_create flag then (Answer 0 None (Some EINVAL), delete_entry i h4)
       else (Answer 1 (Some i) None, h4))"
    unfolding enter_entry_def i(3) [symmetric] h4_def g_def e_def b_def
    using live_less [OF wf range dead] heap by (simp add: Let_def strdup_ok set_slot_def comm)
  have slot4: "slot h4 j = (if i = j then ?b else slot h j)" for j
    using idx by (simp add: h4_def g_def slot_set_slot)
  have judged: "judged env_init h k d e env_op_create"
    using new unfolding judged_def by (intro disjI2 conjI exI [of _ "ent b"]) (simp_all add: e_def b_def)
  have set: "set_up env_init e" unfolding set_up_def by (rule exI [of _ "ent b"]) (simp add: e_def init_entry_def)
  have g4: "guarded_by env_init c h4" if "guarded_by env_init c h" for c
    using that set wf4 unfolding guarded_by_def live_def by (auto simp: slot4)
  have gd: "guarded_by env_init c (delete_entry i h4)" if "guarded_by env_init c h" for c
  proof -
    have "i < length (the (table h4))" using idx by (simp add: h4_def g_def)
    then have "live (delete_entry i h4) j \<Longrightarrow> live h4 j \<and> slot (delete_entry i h4) j = slot h4 j" for j
      by (auto simp: live_def delete_entry_def Let_def slot_set_slot split: if_splits)
    moreover have "change_ok (delete_entry i h4) = change_ok h4" by (simp add: delete_entry_def Let_def)
    ultimately show ?thesis using g4 [OF that] by (auto simp: guarded_by_def)
  qed
  have del: "env_wf (delete_entry i h4)" "env_map (delete_entry i h4) = env_map h" "room h \<le> room (delete_entry i h4) + 1"
      "heap_ok (delete_entry i h4) = heap_ok h" "htab_size (delete_entry i h4) = ?n"
  proof -
    have "env_map h k = None" using env_map_None [OF wf] new by simp
    then show "env_map (delete_entry i h4) = env_map h"
      using delete_entry_ok(2) [OF wf4(1,3)] wf4(2) by auto
  qed (use delete_entry_ok [OF wf4(1,3)] wf4 in \<open>auto simp: delete_entry_def Let_def\<close>)
  have denied: "denied h e k d env_op_create flag \<longleftrightarrow>
      rejected e (Some d) env_op_create flag h4 \<or> vetoed e k (Some d) env_op_create flag"
    using wf4(7) by (simp add: denied_def rejected_def)
  show thesis
  proof (cases "rejected e (Some d) env_op_create flag h4 \<or> vetoed e k (Some d) env_op_create flag")
    case True
    let ?r = "Answer 0 None (Some (if rejected e (Some d) env_op_create flag h4 then EPERM else EINVAL))"
    show thesis
    proof (rule that [OF _ del(1,3,4,5)])
      show "enter_entry env_init k (Some d) ENTER flag (hash1 ?n k) idx fd h = (?r, delete_entry i h4)"
        using True run by auto
    qed (use del(2) True judged gd in \<open>auto simp: refused_def denied intro!: exI [of _ e] exI [of _ env_op_create]\<close>)
  next
    case False
    show thesis
    proof (rule that [OF _ wf4(1,4,5,6)])
      show "enter_entry env_init k (Some d) ENTER flag (hash1 ?n k) idx fd h = (Answer 1 (Some i) None, h4)"
        using False run by simp
    qed (use wf4(2,3) False judged g4 in \<open>auto simp: denied intro!: exI [of _ e] exI [of _ env_op_create]\<close>)
  qed
qed

text \<open>A name that is there: what the comparison makes of it.\<close>

lemma compare_find:
  assumes "env_wf h" "holds h k i"
  shows "compare_and_overwrite_entry k idata FIND flag (hash1 (htab_size h) k) i h = (Some (Answer i (Some i) None), h)"
  using assms holds_used [OF assms] by (simp add: compare_and_overwrite_entry_def Let_def holds_def)

lemma compare_enter:
  assumes wf: "env_wf h" and i: "holds h k i" and heap: "heap_ok h (allocs h)"
  obtains r h' where
    "compare_and_overwrite_entry k (Some d) ENTER flag (hash1 (htab_size h) k) i h = (Some r, h')"
    "env_wf h'" "room h' = room h" "heap_ok h' = heap_ok h" "htab_size h' = htab_size h"
    "\<exists>e op. judged env_init h k d e op \<and>
      (if denied h e k d op flag then refused r \<and> env_map h' = env_map h
       else r = Answer i (Some i) None \<and> holds h' k i \<and> env_map h' = (env_map h)(k \<mapsto> d))"
    "\<And>c. guarded_by env_init c h \<Longrightarrow> guarded_by env_init c h'"
proof -
  let ?e = "ent (slot h i)"
  let ?rej = "rejected ?e (Some d) env_op_overwrite flag h" and ?veto = "vetoed ?e k (Some d) env_op_overwrite flag"
  have k: "key ?e = Some k" and live: "live h i" using i by (simp_all add: holds_def)
  have run: "compare_and_overwrite_entry k (Some d) ENTER flag (hash1 (htab_size h) k) i h =
      (if ?rej then (Some (Answer 0 None (Some EPERM)), h)
       else if ?veto then (Some (Answer 0 None (Some EINVAL)), h)
       else (Some (Answer i (Some i) None),
         (set_slot i (slot h i\<lparr>ent := ?e\<lparr>data := Some d\<rparr>\<rparr>) h)\<lparr>allocs := allocs h + 1\<rparr>))"
    using holds_used [OF wf i] k heap
    by (simp add: compare_and_overwrite_entry_def Let_def strdup_ok set_slot_allocs)
  have judged: "judged env_init h k d ?e env_op_overwrite" using i by (auto simp: judged_def)
  have denied: "denied h ?e k d env_op_overwrite flag \<longleftrightarrow> ?rej \<or> ?veto" by (simp add: denied_def)
  show thesis
  proof (cases "?rej \<or> ?veto")
    case True
    let ?r = "Answer 0 None (Some (if ?rej then EPERM else EINVAL))"
    have "compare_and_overwrite_entry k (Some d) ENTER flag (hash1 (htab_size h) k) i h = (Some ?r, h)"
      using True run by auto
    then show thesis
      by (rule that [OF _ wf refl refl refl])
        (use True judged in \<open>auto simp: refused_def denied intro!: exI [of _ ?e] exI [of _ env_op_overwrite]\<close>)
  next
    case False
    let ?b = "slot h i\<lparr>ent := ?e\<lparr>data := Some d\<rparr>\<rparr>"
    let ?h = "(set_slot i ?b h)\<lparr>allocs := allocs h + 1\<rparr>"
    have b: "used ?b = used (slot h i)" "key (ent ?b) = Some k" "data (ent ?b) = Some d" using k by simp_all
    note new = replace_data [OF wf i b]
    have idx: "i < length (the (table h))" using live_bound [OF wf live] .
    have h: "holds ?h k i" using new(3) by (simp add: holds_def live_def)
    have g: "guarded_by env_init c ?h" if "guarded_by env_init c h" for c
    proof -
      have "set_up env_init (?e\<lparr>data := Some d\<rparr>)" using that live by (auto simp: guarded_by_def set_up_def)
      then show ?thesis
        using that by (auto simp: guarded_by_def live_def slot_set_slot [OF idx] split: if_splits)
    qed
    have "\<exists>e op. judged env_init h k d e op \<and>
      (if denied h e k d op flag then refused (Answer i (Some i) None) \<and> env_map ?h = env_map h
       else Answer i (Some i) None = Answer i (Some i) None \<and> holds ?h k i \<and> env_map ?h = (env_map h)(k \<mapsto> d))"
      using False judged h new by (intro exI [of _ ?e] exI [of _ env_op_overwrite]) (simp add: denied)
    from that [OF _ _ _ _ _ this g] new False run show thesis by simp
  qed
qed

lemma room_passes:
  assumes "env_wf h" "0 < room h"
  shows "\<not> (\<forall>l<htab_size h. passes h k l)"
proof
  assume all: "\<forall>l<htab_size h. passes h k l"
  have "{i. 0 < i \<and> i \<le> htab_size h \<and> used (slot h i) = 0} \<noteq> {}"
    using assms(2) unfolding room_def card_gt_0_iff by blast
  then obtain i where i: "0 < i" "i \<le> htab_size h" "used (slot h i) = 0" by blast
  then obtain j where "j < htab_size h" "probe_pos (htab_size h) k j = i"
    using probe_pos_surj env_wf_size [OF assms(1)] by metis
  with all i show False by (auto simp: passes_def)
qed

lemma env_find:
  assumes wf: "env_wf h"
  shows "hsearch_r env_init k v FIND flag h = Some (case env_map h k of
      None \<Rightarrow> (Answer 0 None (Some ESRCH), h)
    | Some d \<Rightarrow> (let i = (THE i. holds h k i) in (Answer i (Some i) None, h)))"
    (is ?run)
    and "env_map h k = Some d \<Longrightarrow> holds h k (THE i. holds h k i)"
proof -
  have the: "(THE i. holds h k i) = i" if "holds h k i" for i
    using that wf unfolding env_wf_def by (intro the_equality) blast+
  have none: "env_map h k = None" if "\<forall>i. \<not> holds h k i" using that env_map_None [OF wf] by blast
  show ?run
  proof (rule search_cases [OF wf, of k v FIND flag env_init])
    fix i r h' assume i: "holds h k i"
      and c: "compare_and_overwrite_entry k v FIND flag (hash1 (htab_size h) k) i h = (Some r, h')"
      and run: "hsearch_r env_init k v FIND flag h = Some (r, h')"
    obtain d where "env_map h k = Some d" using i env_map_None [OF wf, of k] by auto
    with run c compare_find [OF wf i, of v flag] the [OF i] show ?run by simp
  qed (use none in \<open>simp_all add: enter_entry_def\<close>)
  show "env_map h k = Some d \<Longrightarrow> holds h k (THE i. holds h k i)"
    using env_map_iff [OF wf, of k d] the by auto
qed

lemma env_set:
  assumes wf: "env_wf h" and room: "0 < room h" 
    and heap: "heap_ok h (allocs h)" "heap_ok h (allocs h + 1)"
  obtains r h' where "hsearch_r env_init k (Some d) ENTER flag h = Some (r, h')"
    "env_wf h'" "room h \<le> room h' + 1" "heap_ok h' = heap_ok h" "htab_size h' = htab_size h"
    "\<exists>e op. judged env_init h k d e op \<and>
      (if denied h e k d op flag then refused r \<and> env_map h' = env_map h
       else \<exists>n i. r = Answer n (Some i) None \<and> 0 < n \<and> holds h' k i \<and> env_map h' = (env_map h)(k \<mapsto> d))"
    "\<And>c. guarded_by env_init c h \<Longrightarrow> guarded_by env_init c h'"
proof (rule search_cases [OF wf, of k "Some d" ENTER flag env_init])
  fix i r h' assume i: "holds h k i"
    and c: "compare_and_overwrite_entry k (Some d) ENTER flag (hash1 (htab_size h) k) i h = (Some r, h')"
    and run: "hsearch_r env_init k (Some d) ENTER flag h = Some (r, h')"
  have "0 < i" using i by (simp add: holds_def live_def)
  show thesis
  proof (rule compare_enter [OF wf i heap(1), where env_init = env_init and d = d and flag = flag])
    fix r2 h2 assume c2: "compare_and_overwrite_entry k (Some d) ENTER flag (hash1 (htab_size h) k) i h = (Some r2, h2)"
      and h2: "env_wf h2" "room h2 = room h" "heap_ok h2 = heap_ok h" "htab_size h2 = htab_size h"
      and out: "\<exists>e op. judged env_init h k d e op \<and>
        (if denied h e k d op flag then refused r2 \<and> env_map h2 = env_map h
         else r2 = Answer i (Some i) None \<and> holds h2 k i \<and> env_map h2 = (env_map h)(k \<mapsto> d))"
      and g: "\<And>c. guarded_by env_init c h \<Longrightarrow> guarded_by env_init c h2"
    have "hsearch_r env_init k (Some d) ENTER flag h = Some (r2, h2)" "room h \<le> room h2 + 1"
      using c c2 run h2(2) by simp_all
    moreover have "\<exists>e op. judged env_init h k d e op \<and>
      (if denied h e k d op flag then refused r2 \<and> env_map h2 = env_map h
       else \<exists>n i. r2 = Answer n (Some i) None \<and> 0 < n \<and> holds h2 k i \<and> env_map h2 = (env_map h)(k \<mapsto> d))"
      using out \<open>0 < i\<close> by (elim ex_forward conj_forward) (auto split: if_splits)
    ultimately show thesis using h2 g by (intro that)
  qed
next
  fix m fd assume m: "m < htab_size h" "\<forall>l<m. passes h k l" and new: "\<forall>i. \<not> holds h k i"
    and free: "used (slot h (probe_pos (htab_size h) k m)) = 0"
    and fd: "fd = 0 \<or> fd = hash1 (htab_size h) k \<and> used (slot h (hash1 (htab_size h) k)) = - 1"
    and run: "hsearch_r env_init k (Some d) ENTER flag h = Some (enter_entry env_init k (Some d) ENTER flag
        (hash1 (htab_size h) k) (probe_pos (htab_size h) k m) fd h)"
  have chain: "\<forall>l<m. used (slot h (probe_pos (htab_size h) k l)) \<noteq> 0" using m(2) by (simp add: passes_def)
  have n: "2 < htab_size h" using env_wf_size [OF wf] by simp
  obtain i l where i: "l < htab_size h" "\<forall>x<l. used (slot h (probe_pos (htab_size h) k x)) \<noteq> 0"
    "i = probe_pos (htab_size h) k l" "used (slot h i) \<le> 0"
    "i = (if fd \<noteq> 0 then fd else probe_pos (htab_size h) k m)"
  proof (cases "fd = 0")
    case True
    then show thesis using that [of m "probe_pos (htab_size h) k m"] m chain free by simp
  next
    case False
    then have "fd = hash1 (htab_size h) k" "used (slot h (hash1 (htab_size h) k)) = - 1" using fd by blast+
    then show thesis using False n by (intro that [of 0 fd]) auto
  qed
  show thesis
  proof (rule enter_new [OF wf new heap i, where env_init = env_init and d = d and flag = flag])
    fix r h' assume e: "enter_entry env_init k (Some d) ENTER flag (hash1 (htab_size h) k)
        (probe_pos (htab_size h) k m) fd h = (r, h')"
      and h': "env_wf h'" "room h \<le> room h' + 1" "heap_ok h' = heap_ok h" "htab_size h' = htab_size h"
      and out: "\<exists>e op. judged env_init h k d e op \<and>
        (if denied h e k d op flag then refused r \<and> env_map h' = env_map h
         else r = Answer 1 (Some i) None \<and> holds h' k i \<and> env_map h' = (env_map h)(k \<mapsto> d))"
      and g: "\<And>c. guarded_by env_init c h \<Longrightarrow> guarded_by env_init c h'"
    have "hsearch_r env_init k (Some d) ENTER flag h = Some (r, h')" using run e by simp
    moreover have "\<exists>e op. judged env_init h k d e op \<and>
      (if denied h e k d op flag then refused r \<and> env_map h' = env_map h
       else \<exists>n i. r = Answer n (Some i) None \<and> 0 < n \<and> holds h' k i \<and> env_map h' = (env_map h)(k \<mapsto> d))"
      using out by (elim ex_forward conj_forward) (auto split: if_splits)
    ultimately show thesis using h' g by (intro that)
  qed
next
  assume "\<forall>l<htab_size h. passes h k l"
  with room_passes [OF wf room] show thesis by blast
qed

lemma env_unset:
  assumes wf: "env_wf h"
  shows "env_map h k = None \<Longrightarrow> hdelete_r k flag h = Some (Answer 0 None (Some ESRCH), h)"
    and "env_map h k = Some d \<Longrightarrow> \<exists>r h'. hdelete_r k flag h = Some (r, h') \<and>
      env_wf h' \<and> room h' = room h \<and> heap_ok h' = heap_ok h \<and>
      (r = Answer 1 None None \<and> env_map h' = (env_map h)(k := None) \<or>
       refused r \<and> h' = h \<and> \<not> unguarded (\<lambda>e. e) h \<and> (change_ok h \<noteq> None \<or> (\<exists>i. live h i \<and> callback (ent (slot h i)) \<noteq> None)))"
proof -
  let ?i = "THE i. holds h k i"
  show "hdelete_r k flag h = Some (Answer 0 None (Some ESRCH), h)" if "env_map h k = None"
    using that by (simp add: hdelete_r_def env_find(1) [OF wf])
  assume d: "env_map h k = Some d"
  note i = env_find(2) [OF wf d]
  then have live: "live h ?i" by (simp add: holds_def)
  then have pos: "0 < ?i" by (simp add: live_def)
  let ?rej = "rejected (ent (slot h ?i)) None env_op_delete flag h"
    and ?veto = "vetoed (ent (slot h ?i)) k None env_op_delete flag"
  have run: "hdelete_r k flag h = Some (
      if ?rej then (Answer 0 None (Some EPERM), h)
      else if ?veto then (Answer 0 None (Some EINVAL), h)
      else (Answer 1 None None, delete_entry ?i h))"
    using pos by (simp add: hdelete_r_def env_find(1) [OF wf] d Let_def)
  show "\<exists>r h'. hdelete_r k flag h = Some (r, h') \<and> env_wf h' \<and> room h' = room h \<and> heap_ok h' = heap_ok h \<and>
      (r = Answer 1 None None \<and> env_map h' = (env_map h)(k := None) \<or>
       refused r \<and> h' = h \<and> \<not> unguarded (\<lambda>e. e) h \<and> (change_ok h \<noteq> None \<or> (\<exists>i. live h i \<and> callback (ent (slot h i)) \<noteq> None)))"
  proof (cases "?rej \<or> ?veto")
    case True
    have "change_ok h \<noteq> None \<or> (\<exists>i. live h i \<and> callback (ent (slot h i)) \<noteq> None)"
      using True live by (auto simp: rejected_def vetoed_def split: option.splits)
    then show ?thesis using True wf run by (auto simp: refused_def unguarded_def split: if_splits)
  next
    case False
    have "heap_ok (delete_entry ?i h) = heap_ok h" by (simp add: delete_entry_def Let_def)
    with False run delete_entry_ok [OF wf i] show ?thesis by simp
  qed
qed

end
