(* ===== verification/EnvCreate.thy ===== *)
theory EnvCreate imports EnvSpec begin

text \<open>
  The environment table from its creation: \<open>hcreate_r\<close> finds a prime size and gives the
  empty map, and the operations of \<open>hashtable.c\<close> act on the map as their comments
  promise, as long as an empty bucket is left; without one an insertion may destroy
  another variable.
\<close>

section \<open>The prime test\<close>

lemma isprime_loop_spec:
  assumes "odd n" "odd d" "3 \<le> d" "d < n" "\<And>e. 1 < e \<Longrightarrow> e < d \<Longrightarrow> \<not> e dvd n"
  shows "let e = isprime_loop n d in 3 \<le> e \<and> e < n \<and> (n \<le> e * e \<or> e dvd n) \<and> (\<forall>f. 1 < f \<longrightarrow> f < e \<longrightarrow> \<not> f dvd n)"
  using assms
proof (induction n d rule: isprime_loop.induct)
  case (1 n d)
  show ?case
  proof (cases "d * d < n \<and> n mod d \<noteq> 0")
    case True
    then have nd: "\<not> d dvd n" by (simp add: dvd_eq_mod_eq_0)
    have "d + 2 \<le> d * d" using \<open>3 \<le> d\<close> mult_le_mono1 [of 3 d d] by linarith
    then have less: "d + 2 < n" using True by simp
    have "\<not> e dvd n" if e: "1 < e" "e < d + 2" for e
    proof -
      consider (less) "e < d" | (eq) "e = d" | (next_one) "e = d + 1" using e(2) by fastforce
      then show ?thesis
      proof cases
        case next_one
        then have "even e" using \<open>odd d\<close> by simp
        then show ?thesis using \<open>odd n\<close> by (meson dvd_trans)
      qed (use 1 e nd in auto)
    qed
    then show ?thesis
      using "1.IH" [OF True] 1 less True by (subst isprime_loop.simps) simp
  next
    case False
    then have "isprime_loop n d = d" by (subst isprime_loop.simps) (simp only: if_False)
    then show ?thesis using False "1.prems" by (auto simp: Let_def dvd_eq_mod_eq_0)
  qed
qed

lemma isprime_iff:
  assumes "odd n" "3 < n"
  shows "isprime n \<longleftrightarrow> prime_number n"
proof -
  define e where "e = isprime_loop n 3"
  have "\<not> f dvd n" if "1 < f" "f < 3" for f
    using that assms(1) by (auto simp: less_Suc_eq numeral_3_eq_3)
  then have e: "3 \<le> e" "e < n" "n \<le> e * e \<or> e dvd n" "\<And>f. 1 < f \<Longrightarrow> f < e \<Longrightarrow> \<not> f dvd n"
    using isprime_loop_spec [of n 3] assms by (auto simp: e_def Let_def)
  have test: "isprime n \<longleftrightarrow> \<not> e dvd n" by (simp add: isprime_def e_def dvd_eq_mod_eq_0)
  show ?thesis
  proof (cases "e dvd n")
    case True
    then have "\<not> prime_number n" using e(1,2) by (auto simp: prime_number_def)
    with True test show ?thesis by simp
  next
    case False
    then have sq: "n \<le> e * e" using e(3) by simp
    have "d = 1 \<or> d = n" if d: "d dvd n" for d
    proof (rule ccontr)
      assume not: "\<not> (d = 1 \<or> d = n)"
      obtain c where c: "n = d * c" using d by blast
      have "d \<noteq> 0" "c \<noteq> 1" using c assms(2) not by auto
      moreover have "c \<noteq> 0" using c assms(2) by (cases c) auto
      ultimately have "1 < d" "1 < c" using not by auto
      then have "e \<le> d" "e \<le> c" using e(4) [of d] e(4) [of c] c by (auto simp: not_le [symmetric])
      moreover have "d \<noteq> e" "c \<noteq> e" using False c by auto
      ultimately have "e * e < d * c" by (intro mult_strict_mono) auto
      with sq c show False by simp
    qed
    with False test assms(2) show ?thesis by (simp add: prime_number_def)
  qed
qed

text \<open>The sizes of the environment end at the prime 521 at the latest.\<close>

lemma isprime_521: "isprime 521"
  by (simp add: isprime_def isprime_loop.simps)

lemma next_size_ends:
  assumes "odd n" "n \<le> 521"
  shows "\<exists>m. next_size n = Some m \<and> n \<le> m \<and> m \<le> 521 \<and> odd m \<and> isprime m \<and>
    (\<forall>p. odd p \<longrightarrow> n \<le> p \<longrightarrow> isprime p \<longrightarrow> m \<le> p)"
  using assms
proof (induction "521 - n" arbitrary: n rule: less_induct)
  case (less n)
  show ?case
  proof (cases "isprime n")
    case True
    then show ?thesis using less.prems by (simp add: next_size.simps)
  next
    case False
    then have "n \<noteq> 521" using isprime_521 by auto
    moreover have "n \<noteq> 520" using less.prems by auto
    ultimately have "n + 2 \<le> 521" using less.prems by linarith
    then obtain m where m: "next_size (n + 2) = Some m" "n + 2 \<le> m" "m \<le> 521" "odd m" "isprime m"
        "\<forall>p. odd p \<longrightarrow> n + 2 \<le> p \<longrightarrow> isprime p \<longrightarrow> m \<le> p"
      using less.hyps [of "n + 2"] less.prems by (simp only: even_add) fastforce
    have "m \<le> p" if "odd p" "n \<le> p" "isprime p" for p
    proof -
      have "p \<noteq> n" "p \<noteq> n + 1" using that False less.prems by auto
      then show ?thesis using m(6) that by simp
    qed
    moreover have "next_size n = next_size (n + 2)" using False by (subst next_size.simps) simp
    ultimately show ?thesis using m by (intro exI [of _ m]) simp
  qed
qed

lemma or_one: "n OR Suc 0 = (if odd n then n else n + 1)" for n :: nat
  by (simp add: or_Suc_0_eq)

lemma fresh_table:
  assumes n: "prime_number n" "2 < n" "n < 2 ^ 31" "htab_size h = n" "filled h = 0"
    and t: "table h = Some (replicate (n + 1) \<lparr>used = 0, ent = null_entry\<rparr>)"
  shows "env_wf h" and "env_map h = Map.empty" and "room h = n"
proof -
  have slot: "used (slot h i) = 0" if "i \<le> n" for i using that t by (simp add: slot_def nth_Cons split: nat.splits)
  have live: "\<not> live h i" for i using slot n by (auto simp: live_def)
  show wf: "env_wf h" using n t live by (simp add: env_wf_def holds_def)
  show "env_map h = Map.empty" using env_map_None [OF wf] live by (auto simp: holds_def)
  have "{i. 0 < i \<and> i \<le> htab_size h \<and> used (slot h i) = 0} = {1..n}" using slot n by auto
  then show "room h = n" by (simp add: room_def)
qed

lemma hcreate_ok:
  assumes "table h = None" "3 < nel" "nel \<le> 521" "heap_ok h (allocs h)"
  obtains h' where "hcreate_r nel h = Some (1, h')" "env_wf h'" "env_map h' = Map.empty"
    "nel \<le> room h'" "htab_size h' \<le> 521" "heap_ok h' = heap_ok h" "change_ok h' = change_ok h" "\<And>i. \<not> live h' i"
    "nel \<le> htab_size h'" "\<And>p. prime_number p \<Longrightarrow> nel \<le> p \<Longrightarrow> htab_size h' \<le> p"
proof -
  have "odd (nel OR 1)" "nel OR 1 \<le> 521" "nel \<le> nel OR 1" using assms(3) by (auto simp: or_one)
  then obtain m where m: "next_size (nel OR 1) = Some m" "nel \<le> m" "m \<le> 521" "odd m" "isprime m"
      and least: "\<And>p. odd p \<Longrightarrow> nel OR 1 \<le> p \<Longrightarrow> isprime p \<Longrightarrow> m \<le> p"
    using next_size_ends [of "nel OR 1"] by (metis order_trans)
  then have p: "prime_number m" "2 < m" "m < 2 ^ 31" using isprime_iff [of m] assms(2) by auto
  let ?h = "h\<lparr>htab_size := m, filled := 0, allocs := allocs h + 1,
      table := Some (replicate (m + 1) \<lparr>used = 0, ent = null_entry\<rparr>)\<rparr>"
  have "hcreate_r nel h = Some (1, ?h)"
    using assms m(1) by (simp add: hcreate_r_def alloc_def Let_def)
  moreover have "env_wf ?h" "env_map ?h = Map.empty" "room ?h = m"
    by (rule fresh_table [of m]; use p in simp)+
  moreover have "\<not> live ?h i" for i by (auto simp: live_def slot_def nth_Cons split: nat.splits)
  moreover have "m \<le> q" if q: "prime_number q" "nel \<le> q" for q
  proof -
    have "odd q"
    proof
      assume "even q"
      then have "2 = q" using q(1) unfolding prime_number_def by (metis numeral_eq_one_iff semiring_norm(85))
      then show False using q(2) assms(2) by simp
    qed
    moreover from this have "nel OR 1 \<le> q" using q(2) by (auto simp: or_one Suc_le_eq le_less)
    ultimately show ?thesis using least isprime_iff [of q] q assms(2) by simp
  qed
  ultimately show thesis using that [of ?h] m by simp
qed

section \<open>Sequences of changes\<close>

text \<open>\<open>setenv\<close> of a name to a value, or of a name alone, which deletes it.\<close>

fun env_ops :: "(string \<times> string option) list \<Rightarrow> hsearch_data \<Rightarrow> hsearch_data option" where
  "env_ops [] h = Some h"
| "env_ops ((k, d) # ops) h =
     (case (case d of None \<Rightarrow> hdelete_r k 0 h | Some _ \<Rightarrow> hsearch_r (\<lambda>e. e) k d ENTER 0 h) of
        None \<Rightarrow> None | Some (_, h') \<Rightarrow> env_ops ops h')"

lemma env_ops_wf:
  assumes "env_wf h" "length (filter (\<lambda>(k, d). d \<noteq> None) ops) \<le> room h" "\<And>n. heap_ok h n"
  shows "\<exists>h'. env_ops ops h = Some h' \<and> env_wf h' \<and> heap_ok h' = heap_ok h"
  using assms
proof (induction ops arbitrary: h)
  case (Cons op ops)
  obtain k d where op: "op = (k, d)" by (cases op)
  show ?case
  proof (cases d)
    case None
    obtain r h1 where "hdelete_r k 0 h = Some (r, h1)" "env_wf h1" "room h1 = room h" "heap_ok h1 = heap_ok h"
      using env_unset [OF Cons.prems(1), where k = k and flag = 0] Cons.prems(1) by (cases "env_map h k") auto
    with Cons op None show ?thesis by auto
  next
    case (Some v)
    have "0 < room h" using Cons.prems op Some by simp
    from env_set [OF Cons.prems(1) this Cons.prems(3,3), of "\<lambda>e. e" k v 0]
    obtain r h1 where "hsearch_r (\<lambda>e. e) k (Some v) ENTER 0 h = Some (r, h1)" "env_wf h1"
      "room h \<le> room h1 + 1" "heap_ok h1 = heap_ok h" by metis
    with Cons op Some show ?thesis by auto
  qed
qed simp

definition no_env :: hsearch_data where
  "no_env = \<lparr>table = None, htab_size = 0, filled = 0, change_ok = None, heap_ok = (\<lambda>_. True), allocs = 0\<rparr>"

definition small_env :: hsearch_data where
  "small_env = no_env\<lparr>htab_size := 5, allocs := 1, table := Some
     (let b = \<lparr>used = 0, ent = null_entry\<rparr> in [b, b, b, b, b, b])\<rparr>"

lemma small_env_created: "hcreate_r 5 no_env = Some (1, small_env)"
proof -
  have "isprime_loop 5 3 = 3" by (subst isprime_loop.simps) simp
  then have "next_size 5 = Some 5" by (subst next_size.simps) (simp add: isprime_def)
  moreover have "replicate 5 b = [b, b, b, b, b]" for b :: bucket by (simp add: numeral_eq_Suc)
  ultimately show ?thesis by (simp add: hcreate_r_def no_env_def small_env_def alloc_def Let_def)
qed

text \<open>Five variables fill the table of five buckets; four of them are deleted again.\<close>

definition worn_env :: hsearch_data where
  "worn_env = the (env_ops ([(''A'', Some ''1''), (''B'', Some ''2''), (''C'', Some ''3''), (''D'', Some ''4''),
     (''E'', Some ''5'')] @ [(''B'', None), (''C'', None), (''D'', None), (''E'', None)]) small_env)"

lemma small_env_ok:
  "env_wf small_env" "env_map small_env = Map.empty" "5 \<le> room small_env" "\<not> live small_env i"
  "heap_ok small_env = (\<lambda>_. True)" "change_ok small_env = None"
proof -
  obtain h where h: "hcreate_r 5 no_env = Some (1, h)" "env_wf h" "env_map h = Map.empty" "5 \<le> room h"
    "heap_ok h = heap_ok no_env" "change_ok h = change_ok no_env" "\<And>i. \<not> live h i"
    by (rule hcreate_ok [of no_env 5]) (simp_all add: no_env_def)
  then have "h = small_env" using small_env_created by simp
  with h show "env_wf small_env" "env_map small_env = Map.empty" "5 \<le> room small_env" "\<not> live small_env i"
    "heap_ok small_env = (\<lambda>_. True)" "change_ok small_env = None"
    by (simp_all add: no_env_def)
qed

lemma worn_env_wf: "env_wf worn_env" "heap_ok worn_env = (\<lambda>_. True)"
proof -
  let ?ops = "[(''A'', Some ''1''), (''B'', Some ''2''), (''C'', Some ''3''), (''D'', Some ''4''),
     (''E'', Some ''5'')] @ [(''B'', None), (''C'', None), (''D'', None), (''E'', None)]"
  have "\<exists>h'. env_ops ?ops small_env = Some h' \<and> env_wf h' \<and> heap_ok h' = heap_ok small_env"
    by (rule env_ops_wf [OF small_env_ok(1)]) (use small_env_ok(3) in \<open>simp_all add: small_env_ok(5)\<close>)
  then obtain h' where "env_ops ?ops small_env = Some h'" "env_wf h'" "heap_ok h' = heap_ok small_env" by blast
  then show "env_wf worn_env" "heap_ok worn_env = (\<lambda>_. True)"
    unfolding worn_env_def small_env_ok(5) by (simp_all only: option.sel)
qed

lemma worn_env_values:
  "map used (the (table worn_env)) = [0, 1, - 1, - 1, - 1, - 1]"
  "htab_size worn_env = 5" "filled worn_env = 1" "key (ent (slot worn_env 1)) = Some ''A''"
  "env_map worn_env ''F'' = None" "hash1 5 ''F'' = 1"
  "Option.is_none (change_ok worn_env) \<and> Option.is_none (callback (ent (slot worn_env 1)))"
  by code_simp+

lemma worn_env_entries: "entries worn_env = [(''A'', ''1'')]"
  by code_simp

lemma worn_env_used: "i < 6 \<Longrightarrow> used (slot worn_env i) = [0, 1, - 1, - 1, - 1, - 1] ! i"
proof -
  assume "i < 6"
  moreover have "length (the (table worn_env)) = 6" using arg_cong [OF worn_env_values(1), of length] by simp
  ultimately have "used (slot worn_env i) = map used (the (table worn_env)) ! i" by (simp add: slot_def)
  then show ?thesis by (simp only: worn_env_values(1))
qed

lemma worn_env_live: "live worn_env i \<Longrightarrow> i = 1"
proof (rule ccontr)
  assume i: "live worn_env i" "i \<noteq> 1"
  then have "i \<in> {2, 3, 4, 5}" by (auto simp: live_def worn_env_values(2))
  with i worn_env_used [of i] show False by (auto simp: live_def)
qed

lemma worn_env_full: "room worn_env = 0"
proof -
  have "used (slot worn_env i) \<noteq> 0" if "0 < i" "i \<le> 5" for i
  proof -
    have "i \<in> {1, 2, 3, 4, 5}" using that by auto
    with worn_env_used [of i] show ?thesis by auto
  qed
  then show ?thesis by (auto simp: room_def worn_env_values(2))
qed

lemma worn_env_unguarded: "unguarded (\<lambda>e. e\<lparr>callback := None\<rparr>) worn_env"
  using worn_env_values(7) worn_env_live by (auto simp: unguarded_def Option.is_none_def)

section \<open>Properties\<close>

text \<open>
  C12: Setting a variable of the environment, with an empty bucket left and memory for the at most
  two strings the call copies. The call ends and the table stays well-formed. The functions of the
  table are shown one entry: the one that holds the name, or a new one as the callbacks and flags of
  the name are set up. If they deny it the answer is a refusal and the map is the old one. If not,
  the call succeeds, the map is the old one with exactly this variable changed, and looking the name
  up afterwards gives the new value. This covers the table of the environment, whose permission
  check is \<open>env_flags_validate\<close>, an arbitrary function here.
\<close>

theorem env_set_refines:
  assumes "env_wf h" and "0 < room h" and "heap_ok h (allocs h)" and "heap_ok h (allocs h + 1)"
  shows "\<exists>e op r h'. judged env_init h k d e op \<and>
    hsearch_r env_init k (Some d) ENTER flag h = Some (r, h') \<and> env_wf h' \<and>
    (if denied h e k d op flag then refused r \<and> env_map h' = env_map h
     else env_map h' = (env_map h)(k \<mapsto> d) \<and> (\<exists>n i. r = Answer n (Some i) None \<and> 0 < n) \<and>
       (\<exists>j. hsearch_r env_init k None FIND flag h' = Some (Answer j (Some j) None, h') \<and> data (ent (slot h' j)) = Some d))"
proof (rule env_set [OF assms, of env_init k d flag])
  fix r h' assume run: "hsearch_r env_init k (Some d) ENTER flag h = Some (r, h')" and wf: "env_wf h'"
    and out: "\<exists>e op. judged env_init h k d e op \<and> (if denied h e k d op flag then refused r \<and> env_map h' = env_map h
      else \<exists>n i. r = Answer n (Some i) None \<and> 0 < n \<and> holds h' k i \<and> env_map h' = (env_map h)(k \<mapsto> d))"
  have look: "\<exists>j. hsearch_r env_init k None FIND flag h' = Some (Answer j (Some j) None, h') \<and> data (ent (slot h' j)) = Some d"
    if "env_map h' = (env_map h)(k \<mapsto> d)"
  proof -
    have d: "env_map h' k = Some d" using that by simp
    define j where "j = (THE i. holds h' k i)"
    have j: "holds h' k j" using env_find(2) [OF wf d] by (simp add: j_def)
    moreover obtain i where "holds h' k i" "data (ent (slot h' i)) = Some d" using env_map_iff [OF wf] d by blast
    ultimately have "data (ent (slot h' j)) = Some d" using wf unfolding env_wf_def by metis
    moreover have "hsearch_r env_init k None FIND flag h' = Some (Answer j (Some j) None, h')"
      using env_find(1) [OF wf, of env_init k None flag] d by (simp add: j_def Let_def)
    ultimately show ?thesis by blast
  qed
  obtain e op where "judged env_init h k d e op" "if denied h e k d op flag then refused r \<and> env_map h' = env_map h
      else \<exists>n i. r = Answer n (Some i) None \<and> 0 < n \<and> holds h' k i \<and> env_map h' = (env_map h)(k \<mapsto> d)"
    using out by blast
  then show ?thesis using run wf look by (intro exI [of _ e] exI [of _ op] exI [of _ r] exI [of _ h']) (auto split: if_splits)
qed

text \<open>A table whose check lets \<open>ethaddr\<close> alone.\<close>

definition guarded_env :: hsearch_data where
  "guarded_env = small_env\<lparr>change_ok := Some (\<lambda>e v op flag. key e = Some ''ethaddr'')\<rparr>"

lemma guarded_env: "env_wf guarded_env" "env_map guarded_env = Map.empty" "0 < room guarded_env" "heap_ok guarded_env = (\<lambda>_. True)"
proof -
  have "env_wf guarded_env = env_wf small_env" "env_map guarded_env = env_map small_env" "room guarded_env = room small_env"
    by (simp_all add: guarded_env_def env_wf_def placed_def holds_def live_def slot_def env_map_def entries_def room_def)
  then show "env_wf guarded_env" "env_map guarded_env = Map.empty" "0 < room guarded_env" "heap_ok guarded_env = (\<lambda>_. True)"
    using small_env_ok(1-3) by (simp_all add: guarded_env_def small_env_ok(5))
qed

theorem env_set_refines_witness:
  "(\<exists>n i h'. hsearch_r (\<lambda>e. e\<lparr>callback := None\<rparr>) ''bootdelay'' (Some ''5'') ENTER 0 guarded_env = Some (Answer n (Some i) None, h') \<and>
     env_map h' = [''bootdelay'' \<mapsto> ''5'']) \<and>
   (\<exists>r h'. hsearch_r (\<lambda>e. e\<lparr>callback := None\<rparr>) ''ethaddr'' (Some ''0'') ENTER 0 guarded_env = Some (r, h') \<and>
     refused r \<and> env_map h' = Map.empty)"
proof
  have free: "denied guarded_env e k d op 0 \<longleftrightarrow> k = ''ethaddr''"
    if "judged (\<lambda>e. e\<lparr>callback := None\<rparr>) guarded_env k d e op" for e k d op
    using that env_map_None [OF guarded_env(1), of k] guarded_env(2)
    by (auto simp: judged_def denied_def rejected_def vetoed_def init_entry_def guarded_env_def)
  note set = env_set_refines [OF guarded_env(1,3), of "\<lambda>e. e\<lparr>callback := None\<rparr>" _ _ 0]
  show "\<exists>n i h'. hsearch_r (\<lambda>e. e\<lparr>callback := None\<rparr>) ''bootdelay'' (Some ''5'') ENTER 0 guarded_env = Some (Answer n (Some i) None, h') \<and>
     env_map h' = [''bootdelay'' \<mapsto> ''5'']"
    using set [of "''bootdelay''" "''5''"] free by (auto simp: guarded_env(2,4))
  show "\<exists>r h'. hsearch_r (\<lambda>e. e\<lparr>callback := None\<rparr>) ''ethaddr'' (Some ''0'') ENTER 0 guarded_env = Some (r, h') \<and>
     refused r \<and> env_map h' = Map.empty"
    using set [of "''ethaddr''" "''0''"] free by (auto simp: guarded_env(2,4))
qed

text \<open>
  C28: Deleting a variable: a name that is not there gives ESRCH and changes nothing; one that is
  there is removed from the map and from nothing else, unless a function of the table refuses.
\<close>

theorem env_unset_refines:
  assumes "env_wf h"
  shows "\<exists>r h'. hdelete_r k flag h = Some (r, h') \<and> env_wf h' \<and>
    (if env_map h k = None then r = Answer 0 None (Some ESRCH) \<and> h' = h
     else r = Answer 1 None None \<and> env_map h' = (env_map h)(k := None)
       \<or> refused r \<and> h' = h \<and> (change_ok h \<noteq> None \<or> (\<exists>i. live h i \<and> callback (ent (slot h i)) \<noteq> None)))"
  using env_unset [OF assms, where k = k and flag = flag] assms by (cases "env_map h k") auto

theorem env_unset_refines_witness:
  "\<exists>h'. hdelete_r ''A'' 0 worn_env = Some (Answer 1 None None, h') \<and> env_map h' = Map.empty"
proof -
  have map: "env_map worn_env = [''A'' \<mapsto> ''1'']"
    unfolding env_map_def using worn_env_entries by simp
  have "\<not> (change_ok worn_env \<noteq> None \<or> (\<exists>i. live worn_env i \<and> callback (ent (slot worn_env i)) \<noteq> None))"
    using worn_env_values(7) worn_env_live by (auto simp: Option.is_none_def)
  then show ?thesis using env_unset_refines [OF worn_env_wf(1), of "''A''" 0] by (auto simp: map)
qed

text \<open>
  C24: A table none of whose buckets is empty, because the deleted ones stay marked, still accepts
  a new variable when it is not full. If the first bucket of the name holds another variable the
  new one replaces it: the call reports success and the other variable is gone. Shown for a table
  without check and callbacks, which could only refuse the new variable.
\<close>

theorem env_insert_destroys:
  assumes "env_wf h" and "room h = 0" and "env_map h k = None"
    and "filled h \<noteq> of_nat (htab_size h)" and "holds h other (hash1 (htab_size h) k)"
    and "unguarded env_init h" and "\<And>n. heap_ok h n"
  shows "\<exists>h'. hsearch_r env_init k (Some d) ENTER flag h = Some (Answer 1 (Some (hash1 (htab_size h) k)) None, h') \<and>
    env_map h other \<noteq> None \<and> other \<noteq> k \<and> (\<forall>i. \<not> holds h' other i)"
proof -
  let ?v = "hash1 (htab_size h) k"
  have new: "\<not> holds h k i" for i using env_map_None [OF assms(1)] assms(3) by blast
  have other: "other \<noteq> k" "env_map h other \<noteq> None"
    using assms(5) new env_map_None [OF assms(1), of other] by auto
  have live: "live h ?v" and v: "?v < length (the (table h))"
    using assms(5) live_bound [OF assms(1)] by (auto simp: holds_def)
  have run: "hsearch_r env_init k (Some d) ENTER flag h = Some (enter_entry env_init k (Some d) ENTER flag ?v ?v 0 h)"
  proof (rule search_cases [OF assms(1), of k "Some d" ENTER flag env_init])
    fix m fd assume m: "m < htab_size h" "used (slot h (probe_pos (htab_size h) k m)) = 0"
    have "probe_pos (htab_size h) k m \<in> {i. 0 < i \<and> i \<le> htab_size h \<and> used (slot h i) = 0}"
      using m probe_pos_range env_wf_size [OF assms(1)] by simp
    moreover have "{i. 0 < i \<and> i \<le> htab_size h \<and> used (slot h i) = 0} = {}"
      using assms(2) by (simp add: room_def card_eq_0_iff)
    ultimately show ?thesis by blast
  next
    assume "hsearch_r env_init k (Some d) ENTER flag h = Some (enter_entry env_init k (Some d) ENTER flag ?v ?v
        (if used (slot h ?v) = - 1 then ?v else 0) h)"
    with live show ?thesis by (simp add: live_def)
  qed (use new in blast)
  have free: "change_ok h = None" "callback (env_init e) = None" for e
    using assms(6) by (simp_all add: unguarded_def)
  obtain h' where h': "enter_entry env_init k (Some d) ENTER flag ?v ?v 0 h = (Answer 1 (Some ?v) None, h')"
    "\<And>j. j \<noteq> ?v \<Longrightarrow> slot h' j = slot h j" "key (ent (slot h' ?v)) = Some k" "htab_size h' = htab_size h"
  proof
    let ?b = "slot h ?v\<lparr>used := int ?v, ent := ent (slot h ?v)\<lparr>key := Some k, data := Some d\<rparr>\<rparr>"
    let ?h' = "(set_slot ?v (?b\<lparr>ent := init_entry env_init (ent ?b)\<rparr>) (h\<lparr>allocs := allocs h + 1 + 1\<rparr>))\<lparr>filled := filled h + 1\<rparr>"
    show "enter_entry env_init k (Some d) ENTER flag ?v ?v 0 h = (Answer 1 (Some ?v) None, ?h')"
      using assms(4,7) by (simp add: enter_entry_def Let_def strdup_ok rejected_def vetoed_def init_entry_def free set_slot_def)
    show "slot ?h' j = slot h j" if "j \<noteq> ?v" for j using that v by (simp add: slot_set_slot)
    show "key (ent (slot ?h' ?v)) = Some k" using v by (simp add: slot_set_slot init_entry_def)
    show "htab_size ?h' = htab_size h" by simp
  qed
  have "\<not> holds h' other i" for i
  proof
    assume i: "holds h' other i"
    then have "i \<noteq> ?v" using h'(3) other(1) by (auto simp: holds_def)
    moreover from this have "holds h other i" using i h'(2,4) by (simp add: holds_def live_def)
    ultimately show False using assms(1,5) unfolding env_wf_def by blast
  qed
  with run h'(1) other show ?thesis by auto
qed

theorem env_insert_destroys_witness:
  "\<exists>h'. hsearch_r (\<lambda>e. e\<lparr>callback := None\<rparr>) ''F'' (Some ''6'') ENTER 0 worn_env = Some (Answer 1 (Some 1) None, h') \<and>
    env_map worn_env ''A'' \<noteq> None \<and> (\<forall>i. \<not> holds h' ''A'' i)"
proof -
  have "holds worn_env ''A'' (hash1 (htab_size worn_env) ''F'')"
    using worn_env_values worn_env_used [of 1] by (simp add: holds_def live_def)
  moreover have "filled worn_env \<noteq> of_nat (htab_size worn_env)" by (simp add: worn_env_values)
  ultimately show ?thesis
    using env_insert_destroys [OF worn_env_wf(1) worn_env_full worn_env_values(5) _ _ worn_env_unguarded,
      of "''A''" "''6''" 0] by (simp add: worn_env_wf(2) worn_env_values(2,6))
qed

text \<open>
  C40: Creating the table ends for every size the environment asks for, more than 3 and at most 521,
  and gives, when the table can be allocated, the empty map with
  at least that many empty buckets; the number of buckets is the least odd prime that is not smaller.
\<close>

theorem env_creation:
  assumes "table h = None" and "3 < nel" and "nel \<le> 521" and "heap_ok h (allocs h)"
  shows "\<exists>h'. hcreate_r nel h = Some (1, h') \<and> env_wf h' \<and> env_map h' = Map.empty \<and> nel \<le> room h' \<and>
    prime_number (htab_size h') \<and> nel \<le> htab_size h' \<and> (\<forall>p. prime_number p \<longrightarrow> nel \<le> p \<longrightarrow> htab_size h' \<le> p)"
proof (rule hcreate_ok [OF assms])
  fix h' assume "hcreate_r nel h = Some (1, h')" "env_wf h'" "env_map h' = Map.empty" "nel \<le> room h'"
    "nel \<le> htab_size h'" "\<And>p. prime_number p \<Longrightarrow> nel \<le> p \<Longrightarrow> htab_size h' \<le> p"
  then show ?thesis using env_wf_size [of h'] by blast
qed

theorem env_creation_witness:
  "\<exists>h'. hcreate_r 512 no_env = Some (1, h') \<and> env_wf h' \<and> env_map h' = Map.empty \<and> 512 \<le> room h'"
  using env_creation [of no_env 512] by (auto simp: no_env_def)

end
