(* ===== verification/Qsort.thy ===== *)
theory Qsort imports Prelude "HOL-Library.Multiset" "HOL-Library.List_Lexorder" begin

text \<open>
  \<open>qsort\<close> of \<open>lib/qsort.c\<close>, a shell sort, and the \<open>strcmp\<close> of \<open>lib/string.c\<close> that orders
  the names of the environment. Offsets are counted in elements: the C code counts in
  bytes, the element size times ours. The result is a permutation for every comparison
  function and sorted for one that is total and transitive on the elements.
\<close>

section \<open>The sort\<close>

definition swap :: "nat \<Rightarrow> nat \<Rightarrow> 'a list \<Rightarrow> 'a list" where
  "swap a b xs = xs[a := xs ! b, b := xs ! a]"

text \<open>The innermost loops, from \<open>j = i\<close> on.\<close>

function sift :: "('a \<Rightarrow> 'a \<Rightarrow> int) \<Rightarrow> nat \<Rightarrow> nat \<Rightarrow> 'a list \<Rightarrow> 'a list" where
  "sift cmp wgap j xs = (if wgap = 0 \<or> j < wgap then xs
     else (let a = j - wgap; b = a + wgap in
       if cmp (xs ! a) (xs ! b) \<le> 0 then xs else sift cmp wgap a (swap a b xs)))"
  by pat_completeness auto
termination by (relation "measure (\<lambda>(cmp, wgap, j, xs). j)") auto

function gap_pass :: "('a \<Rightarrow> 'a \<Rightarrow> int) \<Rightarrow> nat \<Rightarrow> nat \<Rightarrow> nat \<Rightarrow> 'a list \<Rightarrow> 'a list" where
  "gap_pass cmp nel wgap i xs =
     (let ys = sift cmp wgap i xs in if i + 1 < nel then gap_pass cmp nel wgap (i + 1) ys else ys)"
  by pat_completeness auto
termination by (relation "measure (\<lambda>(cmp, nel, wgap, i, xs). nel - i)") auto

function gaps :: "('a \<Rightarrow> 'a \<Rightarrow> int) \<Rightarrow> nat \<Rightarrow> nat \<Rightarrow> 'a list \<Rightarrow> 'a list" where
  "gaps cmp nel wgap xs =
     (let ys = gap_pass cmp nel wgap wgap xs; w = (wgap - 1) div 3 in if w \<noteq> 0 then gaps cmp nel w ys else ys)"
  by pat_completeness auto
termination by (relation "measure (\<lambda>(cmp, nel, wgap, xs). wgap)") auto

function first_gap :: "nat \<Rightarrow> nat \<Rightarrow> nat" where
  "first_gap nel wgap = (let w = 3 * wgap + 1 in if w < (nel - 1) div 3 then first_gap nel w else w)"
  by pat_completeness auto
termination by (relation "measure (\<lambda>(nel, wgap). nel - wgap)") auto

declare sift.simps [simp del] gap_pass.simps [simp del] gaps.simps [simp del] first_gap.simps [simp del]

definition qsort :: "('a \<Rightarrow> 'a \<Rightarrow> int) \<Rightarrow> 'a list \<Rightarrow> 'a list" where
  "qsort cmp xs = (let nel = length xs in if nel > 1 then gaps cmp nel (first_gap nel 0) xs else xs)"

section \<open>A permutation\<close>

lemma mset_sift: "j < length xs \<Longrightarrow> mset (sift cmp wgap j xs) = mset xs"
proof (induction cmp wgap j xs rule: sift.induct)
  case (1 cmp wgap j xs)
  show ?case
  proof (cases "wgap = 0 \<or> j < wgap")
    case True
    then show ?thesis by (simp add: sift.simps)
  next
    case False
    let ?a = "j - wgap"
    have len: "length (swap ?a (?a + wgap) xs) = length xs" by (simp add: swap_def)
    have perm: "mset (swap ?a (?a + wgap) xs) = mset xs"
      using mset_swap [of "?a + wgap" xs ?a] 1 False by (simp add: swap_def)
    show ?thesis
    proof (cases "cmp (xs ! ?a) (xs ! (?a + wgap)) \<le> 0")
      case True
      then have "sift cmp wgap j xs = xs" using False by (subst sift.simps) (simp add: Let_def)
      then show ?thesis by simp
    next
      case gt: False
      have "mset (sift cmp wgap ?a (swap ?a (?a + wgap) xs)) = mset (swap ?a (?a + wgap) xs)"
        using "1.IH" [OF False refl refl gt] len 1 by simp
      moreover have "sift cmp wgap j xs = sift cmp wgap ?a (swap ?a (?a + wgap) xs)"
        using False gt by (subst sift.simps) (simp only: Let_def if_False)
      ultimately show ?thesis using perm by simp
    qed
  qed
qed

lemma length_sift: "j < length xs \<Longrightarrow> length (sift cmp wgap j xs) = length xs"
  using mset_sift [of j xs cmp wgap] by (metis size_mset)

lemma mset_gap_pass: "i < nel \<Longrightarrow> nel = length xs \<Longrightarrow> mset (gap_pass cmp nel wgap i xs) = mset xs"
proof (induction cmp nel wgap i xs rule: gap_pass.induct)
  case (1 cmp nel wgap i xs)
  then show ?case
    using mset_sift [of i xs cmp wgap] length_sift [of i xs cmp wgap]
    by (subst gap_pass.simps) (auto simp: Let_def)
qed

lemma length_gap_pass: "i < length xs \<Longrightarrow> length (gap_pass cmp (length xs) wgap i xs) = length xs"
  using mset_gap_pass [of i "length xs" xs cmp wgap] by (metis size_mset)

lemma mset_gaps: "wgap < nel \<Longrightarrow> nel = length xs \<Longrightarrow> mset (gaps cmp nel wgap xs) = mset xs"
proof (induction cmp nel wgap xs rule: gaps.induct)
  case (1 cmp nel wgap xs)
  then show ?case
    using mset_gap_pass [of wgap nel xs cmp wgap] length_gap_pass [of wgap xs cmp wgap]
    by (subst gaps.simps) (auto simp: Let_def)
qed

text \<open>The first gap is one of 1, 4, 13, 40, ... and less than the number of elements.\<close>

inductive gap_value :: "nat \<Rightarrow> bool" where
  one: "gap_value 1"
| more: "gap_value w \<Longrightarrow> gap_value (3 * w + 1)"

lemma first_gap_value: "wgap = 0 \<or> gap_value wgap \<Longrightarrow> gap_value (first_gap nel wgap)"
proof (induction nel wgap rule: first_gap.induct)
  case (1 nel wgap)
  then have "gap_value (3 * wgap + 1)" using gap_value.intros by auto
  with 1 show ?case by (subst first_gap.simps) (simp add: Let_def)
qed

lemma first_gap_less: "1 < nel \<Longrightarrow> wgap = 0 \<or> wgap < (nel - 1) div 3 \<Longrightarrow> first_gap nel wgap < nel"
proof (induction nel wgap rule: first_gap.induct)
  case (1 nel wgap)
  have "3 * wgap + 1 < nel" using "1.prems" by auto
  with 1 show ?case by (subst first_gap.simps) (simp add: Let_def)
qed

section \<open>Sorted\<close>

text \<open>A comparison function that orders the elements of a set.\<close>

locale comparison =
  fixes cmp :: "'a \<Rightarrow> 'a \<Rightarrow> int" and elems :: "'a set"
  assumes total: "a \<in> elems \<Longrightarrow> b \<in> elems \<Longrightarrow> cmp a b \<le> 0 \<or> cmp b a \<le> 0"
    and trans: "a \<in> elems \<Longrightarrow> b \<in> elems \<Longrightarrow> c \<in> elems \<Longrightarrow> cmp a b \<le> 0 \<Longrightarrow> cmp b c \<le> 0 \<Longrightarrow> cmp a c \<le> 0"
begin

abbreviation ordered :: "'a list \<Rightarrow> bool" where
  "ordered xs \<equiv> sorted_wrt (\<lambda>a b. cmp a b \<le> 0) xs"

text \<open>With gap 1 the element at \<open>j\<close> sinks into the sorted elements before it.\<close>

lemma sift_one:
  assumes "ordered (xs @ ys)" "\<forall>y\<in>set ys. cmp x y \<le> 0" "set xs \<union> {x} \<union> set ys \<subseteq> elems"
  shows "\<exists>zs. sift cmp 1 (length xs) (xs @ x # ys @ rest) = zs @ rest \<and> ordered zs"
  using assms
proof (induction xs arbitrary: ys rule: rev_induct)
  case Nil
  then show ?case by (subst sift.simps) (intro exI [of _ "x # ys"], simp)
next
  case (snoc a xs)
  show ?case
  proof (cases "cmp a x \<le> 0")
    case True
    have "sift cmp 1 (length (xs @ [a])) ((xs @ [a]) @ x # ys @ rest) = (xs @ [a]) @ x # ys @ rest"
      using True by (subst sift.simps) (simp add: Let_def nth_append)
    moreover have "cmp b x \<le> 0" if "b \<in> set xs" for b
      using trans [of b a x] snoc.prems that True by (auto simp: sorted_wrt_append)
    ultimately show ?thesis using snoc.prems True
      by (intro exI [of _ "xs @ [a] @ x # ys"]) (auto simp: sorted_wrt_append)
  next
    case False
    then have xa: "cmp x a \<le> 0" using total [of a x] snoc.prems by auto
    have "sift cmp 1 (length (xs @ [a])) ((xs @ [a]) @ x # ys @ rest) = sift cmp 1 (length xs) (xs @ x # (a # ys) @ rest)"
      using False by (subst sift.simps) (simp add: Let_def nth_append swap_def list_update_append)
    then show ?thesis
      using snoc.IH [of "a # ys"] snoc.prems xa by (auto simp: sorted_wrt_append)
  qed
qed

lemma sift_sorts:
  assumes "0 < i" "i < length xs" "set xs \<subseteq> elems" "ordered (take i xs)"
  shows "ordered (take (i + 1) (sift cmp 1 i xs))"
proof -
  have xs: "xs = take i xs @ xs ! i # [] @ drop (i + 1) xs" using assms(2) by (simp add: id_take_nth_drop)
  have "set (take i xs) \<union> {xs ! i} \<union> set [] \<subseteq> elems"
    using assms(2,3) nth_mem [of i xs] set_take_subset [of i xs] by auto
  then obtain zs where zs: "sift cmp 1 (length (take i xs)) (take i xs @ xs ! i # [] @ drop (i + 1) xs)
      = zs @ drop (i + 1) xs" "ordered zs"
    using sift_one [of "take i xs" "[]" "xs ! i" "drop (i + 1) xs"] assms(4) by auto
  then have eq: "sift cmp 1 i xs = zs @ drop (i + 1) xs" using xs assms(2) by simp
  then have "length xs = length zs + length (drop (i + 1) xs)"
    using length_sift [OF assms(2), of cmp 1] by simp
  then have "length zs = i + 1" using assms(2) by simp
  with eq zs(2) show ?thesis by simp
qed

lemma gap_pass_sorts:
  assumes "0 < i" "i < length xs" "set xs \<subseteq> elems" "ordered (take i xs)"
  shows "ordered (gap_pass cmp (length xs) 1 i xs)"
  using assms
proof (induction "length xs - i" arbitrary: i xs rule: less_induct)
  case less
  let ?ys = "sift cmp 1 i xs"
  have len: "length ?ys = length xs" and set: "set ?ys = set xs"
    using length_sift [OF less.prems(2)] mset_sift [OF less.prems(2), of cmp 1] by (auto dest: mset_eq_setD)
  have sorted: "ordered (take (i + 1) ?ys)" using sift_sorts less.prems by blast
  show ?case
  proof (cases "i + 1 < length xs")
    case True
    have "ordered (gap_pass cmp (length ?ys) 1 (i + 1) ?ys)"
      using less.hyps [of ?ys "i + 1"] True less.prems len set sorted by simp
    then show ?thesis using True len by (subst gap_pass.simps) simp
  next
    case False
    then have "ordered ?ys" using sorted len less.prems(2) by simp
    then show ?thesis using False by (subst gap_pass.simps) simp
  qed
qed

lemma gaps_sorts:
  assumes "gap_value wgap" "wgap < length xs" "set xs \<subseteq> elems"
  shows "ordered (gaps cmp (length xs) wgap xs)"
  using assms
proof (induction arbitrary: xs rule: gap_value.induct)
  case one
  have "ordered (take 1 xs)" by (cases xs) auto
  then have "ordered (gap_pass cmp (length xs) 1 1 xs)" using gap_pass_sorts [of 1 xs] one by simp
  then show ?case by (subst gaps.simps) simp
next
  case (more w)
  let ?ys = "gap_pass cmp (length xs) (3 * w + 1) (3 * w + 1) xs"
  have len: "length ?ys = length xs" using length_gap_pass more.prems(1) by blast
  have "set ?ys = set xs" using mset_gap_pass [OF more.prems(1) refl] by (auto dest: mset_eq_setD)
  then have "ordered (gaps cmp (length ?ys) w ?ys)"
    by (intro more.IH) (use more.prems len in simp_all)
  moreover have "w \<noteq> 0" using more.hyps by (cases rule: gap_value.cases) auto
  then have "gaps cmp (length xs) (3 * w + 1) xs = gaps cmp (length xs) w ?ys"
    by (subst gaps.simps) (simp add: Let_def)
  ultimately show ?case using len by (simp only:)
qed

lemma qsort_sorts: "set xs \<subseteq> elems \<Longrightarrow> ordered (qsort cmp xs)"
proof (cases "1 < length xs")
  case True
  assume "set xs \<subseteq> elems"
  with True show ?thesis
    using gaps_sorts first_gap_value [of 0 "length xs"] first_gap_less [of "length xs" 0] by (simp add: qsort_def Let_def)
next
  case False
  then show ?thesis by (cases xs) (auto simp: qsort_def)
qed

end

lemma mset_qsort: "mset (qsort cmp xs) = mset xs"
  using mset_gaps [of "first_gap (length xs) 0" "length xs" xs cmp] first_gap_less [of "length xs" 0]
  by (simp add: qsort_def Let_def)

section \<open>The order of the names\<close>

text \<open>\<open>register signed char __res = *cs - *ct\<close>\<close>

definition char_diff :: "char \<Rightarrow> char \<Rightarrow> int" where
  "char_diff a b = sint (of_char a - of_char b :: u8)"

fun strcmp :: "string \<Rightarrow> string \<Rightarrow> int" where
  "strcmp [] [] = 0"
| "strcmp (a # as) [] = char_diff a (CHR 0x00)"
| "strcmp [] (b # bs) = char_diff (CHR 0x00) b"
| "strcmp (a # as) (b # bs) = (let res = char_diff a b in if res \<noteq> 0 then res else strcmp as bs)"

text \<open>On 7-bit characters other than NUL the difference does not wrap around.\<close>

definition ascii_strings :: "string set" where
  "ascii_strings = {s. \<forall>c\<in>set s. of_char c < (128 :: int) \<and> of_char c \<noteq> (0 :: int)}"

lemma char_diff_ascii:
  assumes "of_char a < (128 :: int)" "of_char b < (128 :: int)"
  shows "char_diff a b = of_char a - of_char b"
proof -
  have "(of_char a - of_char b :: u8) = word_of_int (of_char a - of_char b)"
    by (simp add: of_int_of_char)
  then have "char_diff a b = (of_char a - of_char b + 2 ^ 7) mod 2 ^ 8 - 2 ^ 7"
    by (simp only: char_diff_def int_word_sint) simp
  moreover have "0 \<le> (of_char a :: int)" "0 \<le> (of_char b :: int)" by (simp_all add: of_char_def)
  ultimately show ?thesis using assms by (simp add: mod_pos_pos_trivial)
qed

lemma of_char_int_eq: "(of_char a :: int) = of_char b \<longleftrightarrow> a = b"
  by (metis char_of_char of_int_eq_iff)

text \<open>On such strings \<open>strcmp\<close> orders like the lists of the character codes.\<close>

definition codes :: "string \<Rightarrow> int list" where
  "codes s = map of_char s"

lemma strcmp_ascii:
  assumes "s \<in> ascii_strings" "t \<in> ascii_strings"
  shows "strcmp s t \<le> 0 \<longleftrightarrow> codes s \<le> codes t"
  using assms
proof (induction s t rule: strcmp.induct)
  case (2 a as)
  then have "char_diff a (CHR 0x00) = of_char a" "(of_char a :: int) \<noteq> 0"
    using char_diff_ascii [of a "CHR 0x00"] by (simp_all add: ascii_strings_def)
  moreover have "0 \<le> (of_char a :: int)" by (simp add: of_char_def)
  ultimately show ?case by (simp add: codes_def)
next
  case (3 b bs)
  then have "char_diff (CHR 0x00) b = - of_char b"
    using char_diff_ascii [of "CHR 0x00" b] by (simp add: ascii_strings_def)
  moreover have "0 \<le> (of_char b :: int)" by (simp add: of_char_def)
  ultimately show ?case by (simp add: codes_def)
next
  case (4 a as b bs)
  then have d: "char_diff a b = of_char a - of_char b" and tl: "as \<in> ascii_strings" "bs \<in> ascii_strings"
    using char_diff_ascii [of a b] by (simp_all add: ascii_strings_def)
  show ?case
  proof (cases "char_diff a b = 0")
    case True
    then have "(of_char a :: int) = of_char b" using d by simp
    then show ?thesis using True 4 tl by (simp add: codes_def)
  next
    case False
    then have "(of_char a :: int) \<noteq> of_char b" using d by simp
    then have "(of_char a :: int) < of_char b \<or> (of_char b :: int) < of_char a" by linarith
    then show ?thesis using False d by (auto simp: codes_def)
  qed
qed (simp add: codes_def)

interpretation names: comparison strcmp ascii_strings
  by unfold_locales (auto simp: strcmp_ascii)

text \<open>Beyond 7 bits the order is not even transitive.\<close>

lemma strcmp_cycle:
  "strcmp [CHR 0x10] [CHR 0x70] < 0 \<and> strcmp [CHR 0x70] [CHR 0xE0] < 0 \<and> strcmp [CHR 0xE0] [CHR 0x10] < 0"
  by (simp add: char_diff_def)

definition strcmp_compar :: "string \<Rightarrow> string \<Rightarrow> int" where
  "strcmp_compar p1 p2 = strcmp p1 p2"

text \<open>
  C27: Sorting 7-bit strings with \<open>qsort\<close> and \<open>strcmp\<close> ends and gives the same strings, as often,
  in ascending order of their character codes.
\<close>

theorem qsort_names:
  assumes "set xs \<subseteq> ascii_strings"
  shows "mset (qsort strcmp_compar xs) = mset xs \<and> sorted (map codes (qsort strcmp_compar xs))"
proof -
  have cmp: "strcmp_compar = strcmp" by (simp add: strcmp_compar_def fun_eq_iff)
  have set: "set (qsort strcmp xs) \<subseteq> ascii_strings"
    using mset_qsort [of strcmp xs] assms by (auto dest: mset_eq_setD)
  have "sorted_wrt (\<lambda>a b. codes a \<le> codes b) (qsort strcmp xs)"
    by (rule sorted_wrt_mono_rel [OF _ names.qsort_sorts [OF assms]]) (use set strcmp_ascii in blast)
  then show ?thesis unfolding cmp by (simp add: mset_qsort sorted_wrt_map)
qed

theorem qsort_names_witness:
  "sorted (map codes (qsort strcmp_compar [''ver'', ''bootcmd'', ''baudrate'', ''bootdelay'', ''fdt'']))"
  using qsort_names [of "[''ver'', ''bootcmd'', ''baudrate'', ''bootdelay'', ''fdt'']"]
  by (simp add: ascii_strings_def)

end
