(* ===== verification/EnvText.thy ===== *)
theory EnvText imports EnvCreate Qsort begin

text \<open>
  The text form of the environment: \<open>hexport_r\<close> and \<open>himport_r\<close> of
  \<open>lib/hashtable.c\<close>. The buffer read by the import has exactly \<open>size\<close> bytes; reading
  behind it is \<open>None\<close>. The in-place terminators the C parser writes are behind its
  read position and never read again, so the parser here only consumes.
\<close>

definition NUL :: char where "NUL = CHR 0x00"
definition BS :: char where "BS = CHR 0x5C"

section \<open>Export\<close>

definition H_NOCLEAR :: nat where "H_NOCLEAR = 0"
definition H_HIDE_DOT :: nat where "H_HIDE_DOT = 3"

definition cmpkey :: "ENTRY \<Rightarrow> ENTRY \<Rightarrow> int" where
  "cmpkey e1 e2 = strcmp (the (key e1)) (the (key e2))"

text \<open>The entries to export; the flags are named by their bit numbers.\<close>

definition exported :: "int \<Rightarrow> string list \<Rightarrow> ENTRY \<Rightarrow> bool" where
  "exported flag argv e \<longleftrightarrow> (argv = [] \<or> the (key e) \<in> set argv) \<and>
     \<not> (bit flag H_HIDE_DOT \<and> take 1 (the (key e)) = ''.'')"

definition export_list :: "int \<Rightarrow> string list \<Rightarrow> hsearch_data \<Rightarrow> ENTRY list" where
  "export_list flag argv h = filter (exported flag argv)
     (map (\<lambda>i. ent (slot h i)) (filter (\<lambda>i. used (slot h i) > 0) [1..<htab_size h + 1]))"

text \<open>The room pass 1 counts for an entry, and what pass 2 writes for it.\<close>

definition counted :: "char \<Rightarrow> ENTRY \<Rightarrow> nat" where
  "counted sep e = length (the (key e)) + 2
     + (if sep = NUL then length (the (data e))
        else sum_list (map (\<lambda>c. if c = sep \<or> c = BS then 2 else 1) (the (data e)))) + 2"

definition escape :: "char \<Rightarrow> string \<Rightarrow> string" where
  "escape sep s = concat (map (\<lambda>c. if c = sep \<or> c = BS then [BS, c] else [c]) s)"

definition export_entry :: "char \<Rightarrow> ENTRY \<Rightarrow> string" where
  "export_entry sep e = the (key e) @ ''='' @ escape sep (the (data e)) @ [sep]"

definition export_text :: "char \<Rightarrow> ENTRY list \<Rightarrow> string" where
  "export_text sep es = concat (map (export_entry sep) es) @ [NUL]"

text \<open>
  The result: the size returned and the bytes written at the start of the buffer of that size,
  the rest of which is zero; or the error, with \<open>errno\<close>. \<open>Overrun\<close> is a text that goes on behind
  the size: behind the end of a buffer of that size the writes are undefined. \<open>provided\<close> says
  whether the caller passed a buffer.
\<close>

datatype export = Export_Error errno | Exported nat string | Overrun nat string

definition written :: "nat \<Rightarrow> string \<Rightarrow> export" where
  "written n text = (if length text \<le> n then Exported n text else Overrun n text)"

definition hexport_r ::
  "hsearch_data \<Rightarrow> char \<Rightarrow> int \<Rightarrow> bool \<Rightarrow> nat \<Rightarrow> string list \<Rightarrow> export \<times> hsearch_data" where
  "hexport_r h sep flag provided bufsize argv =
    (let es = export_list flag argv h;
         totlen = sum_list (map (counted sep) es);
         listed = qsort cmpkey es in
     if bufsize \<noteq> 0 \<and> bufsize < totlen + 1 then (Export_Error ENOMEM, h)
     else (let n = (if bufsize \<noteq> 0 then bufsize else totlen + 1) in
       if provided then (written n (export_text sep listed), h)
       else (case alloc h of (ok, h') \<Rightarrow>
         if ok then (written n (export_text sep listed), h') else (Export_Error ENOMEM, h'))))"

definition padded :: "nat \<Rightarrow> string \<Rightarrow> string" where
  "padded n s = s @ replicate (n - length s) NUL"

section \<open>Import: the parser\<close>

datatype command = Remove string | Define string string

definition isblank :: "char \<Rightarrow> bool" where
  "isblank c \<longleftrightarrow> c = CHR '' '' \<or> c = CHR 0x09"

text \<open>The value up to the separator, with the escapes undone, and what follows the separator.\<close>

fun parse_value :: "char \<Rightarrow> string \<Rightarrow> (string \<times> string) option" where
  "parse_value sep [] = None"
| "parse_value sep (c # cs) =
    (if c = NUL \<or> c = sep then Some ([], cs)
     else if c = BS then
       (case cs of [] \<Rightarrow> None
        | d # ds \<Rightarrow> if d \<noteq> NUL then map_option (\<lambda>(v, r). (d # v, r)) (parse_value sep ds)
                  else map_option (\<lambda>(v, r). (c # v, r)) (parse_value sep cs))
     else map_option (\<lambda>(v, r). (c # v, r)) (parse_value sep cs))"

definition parse_line :: "char \<Rightarrow> string \<Rightarrow> (command option \<times> string) option" where
  "parse_line sep dp0 =
    (let dp = dropWhile isblank dp0 in
     case dp of [] \<Rightarrow> None
     | c # _ \<Rightarrow>
       if c = CHR ''#'' then
         (case dropWhile (\<lambda>c. c \<noteq> NUL \<and> c \<noteq> sep) dp of [] \<Rightarrow> None | _ # r \<Rightarrow> Some (None, r))
       else
         (let in_name = (\<lambda>c. c \<noteq> CHR ''='' \<and> c \<noteq> NUL \<and> c \<noteq> sep); name = takeWhile in_name dp in
          case dropWhile in_name dp of
            [] \<Rightarrow> None
          | c # r1 \<Rightarrow>
              if c = NUL then Some (Some (Remove name), r1)
              else (case r1 of [] \<Rightarrow> None
                | c1 # r2 \<Rightarrow>
                    if c1 = NUL \<or> c = sep \<or> c1 = sep then
                      Some (Some (Remove name), if c = CHR ''='' then r2 else r1)
                    else map_option (\<lambda>(v, r). (Some (Define name v), r)) (parse_value sep r1))))"

lemma parse_value_less: "parse_value sep s = Some (v, r) \<Longrightarrow> length r < length s"
proof (induction sep s arbitrary: v r rule: parse_value.induct)
  case (2 sep c cs)
  then show ?case by (cases cs) (auto split: if_splits, fastforce+)
qed simp

lemma dropWhile_less: "dropWhile p xs = y # ys \<Longrightarrow> length ys < length xs"
  using length_dropWhile_le [of p xs] by simp

lemma parse_line_less:
  assumes "parse_line sep s = Some (c, r)"
  shows "length r < length s"
proof -
  let ?in_name = "\<lambda>c. c \<noteq> CHR ''='' \<and> c \<noteq> NUL \<and> c \<noteq> sep"
  obtain x xs where dp: "dropWhile isblank s = x # xs"
    using assms by (cases "dropWhile isblank s") (auto simp: parse_line_def)
  have le: "length (x # xs) \<le> length s" using length_dropWhile_le [of isblank s] by (simp add: dp)
  have "length r < length (x # xs)"
  proof (cases "x = CHR ''#''")
    case True
    then show ?thesis
      using assms dropWhile_less [of "\<lambda>c. c \<noteq> NUL \<and> c \<noteq> sep" "x # xs"]
      by (auto simp: parse_line_def dp split: list.splits)
  next
    case False
    obtain y ys where name: "dropWhile ?in_name (x # xs) = y # ys"
      using assms False by (cases "dropWhile ?in_name (x # xs)") (auto simp: parse_line_def dp Let_def)
    note less = dropWhile_less [OF name]
    show ?thesis
      using assms False less unfolding parse_line_def dp Let_def
      by (simp only: list.case if_False name) (auto split: if_splits list.splits dest!: parse_value_less)
  qed
  with le show ?thesis by simp
qed

text \<open>The loop over the lines.\<close>

function parse_env :: "char \<Rightarrow> string \<Rightarrow> command list option" where
  "parse_env sep dp = (case parse_line sep dp of
       None \<Rightarrow> None
     | Some (c, r) \<Rightarrow>
         map_option (\<lambda>cs. (case c of None \<Rightarrow> cs | Some x \<Rightarrow> x # cs))
           (if r \<noteq> [] \<and> hd r \<noteq> NUL then parse_env sep r else Some []))"
  by pat_completeness auto
termination by (relation "measure (\<lambda>(sep, dp). length dp)") (auto dest: parse_line_less)

declare parse_env.simps [simp del]

section \<open>Import: the execution\<close>

text \<open>The variables still to be processed; \<open>None\<close> is a pointer set to null.\<close>

definition drop_var_from_set :: "string \<Rightarrow> string option list \<Rightarrow> bool \<times> string option list" where
  "drop_var_from_set name vars = (if vars = [] then (True, vars)
     else (Some name \<in> set vars, map (\<lambda>v. if v = Some name then None else v) vars))"

fun import_command ::
  "(ENTRY \<Rightarrow> ENTRY) \<Rightarrow> int \<Rightarrow> command \<Rightarrow> string option list \<times> hsearch_data
    \<Rightarrow> (string option list \<times> hsearch_data) option" where
  "import_command env_init flag (Remove name) (vars, h) =
    (case drop_var_from_set name vars of (res, vars') \<Rightarrow>
       if \<not> res then Some (vars', h)
       else (case hdelete_r name flag h of None \<Rightarrow> None
         | Some (r, h') \<Rightarrow> if r = Crash then None else Some (vars', h')))"
| "import_command env_init flag (Define name value) (vars, h) =
    (case drop_var_from_set name vars of (res, vars') \<Rightarrow>
       if \<not> res then Some (vars', h)
       else (case hsearch_r env_init name (Some value) ENTER flag h of None \<Rightarrow> None
         | Some (r, h') \<Rightarrow> if r = Crash then None else Some (vars', h')))"

fun import_commands ::
  "(ENTRY \<Rightarrow> ENTRY) \<Rightarrow> int \<Rightarrow> command list \<Rightarrow> string option list \<times> hsearch_data
    \<Rightarrow> (string option list \<times> hsearch_data) option" where
  "import_commands env_init flag [] s = Some s"
| "import_commands env_init flag (c # cs) s =
    (case import_command env_init flag c s of None \<Rightarrow> None | Some t \<Rightarrow> import_commands env_init flag cs t)"

text \<open>The listed variables the text did not mention are deleted.\<close>

fun delete_unmentioned :: "int \<Rightarrow> string option list \<Rightarrow> hsearch_data \<Rightarrow> hsearch_data option" where
  "delete_unmentioned flag [] h = Some h"
| "delete_unmentioned flag (None # vs) h = delete_unmentioned flag vs h"
| "delete_unmentioned flag (Some v # vs) h =
    (case hdelete_r v flag h of None \<Rightarrow> None
     | Some (r, h') \<Rightarrow> if r = Crash then None else delete_unmentioned flag vs h')"

definition CONFIG_ENV_MIN_ENTRIES :: nat where "CONFIG_ENV_MIN_ENTRIES = 64"
definition CONFIG_ENV_MAX_ENTRIES :: nat where "CONFIG_ENV_MAX_ENTRIES = 512"

definition import_size :: "nat \<Rightarrow> nat" where
  "import_size len = min (CONFIG_ENV_MIN_ENTRIES + len div 8) CONFIG_ENV_MAX_ENTRIES"

definition himport_r ::
  "(ENTRY \<Rightarrow> ENTRY) \<Rightarrow> hsearch_data \<Rightarrow> string \<Rightarrow> char \<Rightarrow> int \<Rightarrow> string list \<Rightarrow> (nat \<times> hsearch_data) option" where
  "himport_r env_init h env sep flag vars =
    (case alloc h of (ok, h1) \<Rightarrow>
     if \<not> ok then Some (0, h1)
     else (let h2 = (if \<not> bit flag H_NOCLEAR \<and> table h1 \<noteq> None then hdestroy_r h1 else h1) in
       case (if table h2 = None then hcreate_r (import_size (length env)) h2 else Some (1, h2)) of
         None \<Rightarrow> None
       | Some (r, h3) \<Rightarrow>
           if r = 0 then Some (0, h3)
           else (case parse_env sep env of None \<Rightarrow> None
             | Some cs \<Rightarrow> (case import_commands env_init flag cs (map Some vars, h3) of None \<Rightarrow> None
                 | Some (vs, h4) \<Rightarrow> map_option (Pair 1) (delete_unmentioned flag vs h4)))))"

section \<open>What the parser makes of an exported text\<close>

definition name_ok :: "char \<Rightarrow> string \<Rightarrow> bool" where
  "name_ok sep k \<longleftrightarrow> k \<noteq> [] \<and> \<not> isblank (hd k) \<and> hd k \<noteq> CHR ''#'' \<and>
     (\<forall>c\<in>set k. c \<noteq> CHR ''='' \<and> c \<noteq> NUL \<and> c \<noteq> sep)"

definition value_ok :: "string \<Rightarrow> bool" where
  "value_ok v \<longleftrightarrow> v \<noteq> [] \<and> NUL \<notin> set v"

definition sep_ok :: "char \<Rightarrow> bool" where
  "sep_ok sep \<longleftrightarrow> sep \<noteq> CHR ''='' \<and> sep \<noteq> BS"

lemma BS_NUL: "BS \<noteq> NUL" by (simp add: BS_def NUL_def)

lemma parse_escape:
  assumes "sep_ok sep" "NUL \<notin> set v"
  shows "parse_value sep (escape sep v @ sep # rest) = Some (v, rest)"
  using assms(2) by (induction v) (use assms(1) BS_NUL in \<open>auto simp: escape_def sep_ok_def\<close>)

lemma parse_entry:
  assumes "sep_ok sep" "name_ok sep k" "value_ok v"
  shows "parse_line sep (k @ ''='' @ escape sep v @ [sep] @ rest) = Some (Some (Define k v), rest)"
proof -
  let ?in_name = "\<lambda>c. c \<noteq> CHR ''='' \<and> c \<noteq> NUL \<and> c \<noteq> sep"
  let ?dp = "k @ CHR ''='' # escape sep v @ sep # rest"
  obtain a k' where k: "k = a # k'" using assms(2) by (cases k) (auto simp: name_ok_def)
  have blank: "dropWhile isblank ?dp = ?dp" and hash: "a \<noteq> CHR ''#''"
    using assms(2) by (simp_all add: name_ok_def k)
  have all: "?in_name c" if "c \<in> set k" for c using assms(2) that by (simp add: name_ok_def)
  then have name: "takeWhile ?in_name ?dp = k" "dropWhile ?in_name ?dp = CHR ''='' # escape sep v @ sep # rest"
    by (subst takeWhile_append2 dropWhile_append2; simp)+
  obtain b v' where v: "v = b # v'" "b \<noteq> NUL" using assms(3) by (cases v) (auto simp: value_ok_def)
  then obtain c1 r where e: "escape sep v = c1 # r" "c1 \<noteq> NUL" "c1 \<noteq> sep"
    using assms(1) BS_NUL by (cases "b = sep \<or> b = BS") (auto simp: escape_def sep_ok_def)
  have "parse_value sep (escape sep v @ sep # rest) = Some (v, rest)"
    using parse_escape assms(1,3) by (simp add: value_ok_def)
  moreover have "CHR ''='' \<noteq> NUL" "CHR ''='' \<noteq> sep" using assms(1) by (auto simp: NUL_def sep_ok_def)
  ultimately show ?thesis
    using hash e name blank unfolding parse_line_def Let_def by (simp add: k)
qed

lemma parse_entries:
  assumes "sep_ok sep" "\<forall>(k, v)\<in>set kvs. name_ok sep k \<and> value_ok v" "kvs \<noteq> []"
  shows "parse_env sep (concat (map (\<lambda>(k, v). k @ ''='' @ escape sep v @ [sep]) kvs) @ NUL # rest)
    = Some (map (\<lambda>(k, v). Define k v) kvs)"
  using assms(2,3)
proof (induction kvs)
  case (Cons kv kvs)
  obtain k v where kv: "kv = (k, v)" by (cases kv)
  let ?tail = "concat (map (\<lambda>(k, v). k @ ''='' @ escape sep v @ [sep]) kvs) @ NUL # rest"
  have line: "parse_line sep (k @ ''='' @ escape sep v @ [sep] @ ?tail) = Some (Some (Define k v), ?tail)"
    using parse_entry [OF assms(1)] Cons.prems kv by auto
  show ?case
  proof (cases kvs)
    case Nil
    with line kv show ?thesis by (subst parse_env.simps) simp
  next
    case (Cons kv' kvs')
    then obtain k' v' where "kv' = (k', v')" "name_ok sep k'" using \<open>\<forall>(k, v)\<in>set (kv # kvs). _\<close> by (cases kv') auto
    then have "?tail \<noteq> []" "hd ?tail \<noteq> NUL" using Cons by (auto simp: name_ok_def neq_Nil_conv)
    moreover have "parse_env sep ?tail = Some (map (\<lambda>(k, v). Define k v) kvs)"
      using Cons.IH Cons Cons.prems by auto
    ultimately show ?thesis using line kv by (subst parse_env.simps) simp
  qed
qed simp

lemma parse_nothing: "parse_env sep (NUL # replicate m NUL) = Some [Remove []]"
  by (subst parse_env.simps) (cases m; simp add: parse_line_def isblank_def NUL_def)

section \<open>Storing a list of variables\<close>

text \<open>A store of names and values in which setting a name that is accepted works while there is space.\<close>

locale map_store =
  fixes enter :: "string \<Rightarrow> string \<Rightarrow> 's \<Rightarrow> 's" and content :: "'s \<Rightarrow> string \<Rightarrow> string option"
    and good :: "'s \<Rightarrow> bool" and space :: "'s \<Rightarrow> nat" and accepts :: "string \<Rightarrow> string \<Rightarrow> bool"
  assumes enter_good: "good s \<Longrightarrow> 0 < space s \<Longrightarrow> accepts k v \<Longrightarrow> good (enter k v s)"
    and enter_content: "good s \<Longrightarrow> 0 < space s \<Longrightarrow> accepts k v \<Longrightarrow> content (enter k v s) = (content s)(k \<mapsto> v)"
    and enter_space: "good s \<Longrightarrow> 0 < space s \<Longrightarrow> accepts k v \<Longrightarrow> space s \<le> space (enter k v s) + 1"
begin

lemma enter_all:
  assumes "good s" "length kvs \<le> space s" "\<forall>(k, v)\<in>set kvs. accepts k v"
  shows "good (fold (\<lambda>(k, v). enter k v) kvs s) \<and>
    content (fold (\<lambda>(k, v). enter k v) kvs s) = content s ++ map_of (rev kvs)"
  using assms
proof (induction kvs arbitrary: s)
  case (Cons kv kvs)
  obtain k v where kv: "kv = (k, v)" by (cases kv)
  have s: "good (enter k v s)" "content (enter k v s) = (content s)(k \<mapsto> v)" "length kvs \<le> space (enter k v s)"
    using enter_good enter_content enter_space [of s k v] Cons.prems kv by auto
  have acc: "\<forall>(k, v)\<in>set kvs. accepts k v" using Cons.prems(3) by simp
  have "(content s)(k \<mapsto> v) ++ map_of (rev kvs) = content s ++ map_of (rev kvs @ [(k, v)])"
    by simp
  moreover have "fold (\<lambda>(k, v). enter k v) (kv # kvs) s = fold (\<lambda>(k, v). enter k v) kvs (enter k v s)"
    by (simp add: kv)
  ultimately show ?case using Cons.IH [OF s(1,3) acc] unfolding s(2) kv rev.simps by (simp only: simp_thms)
qed simp

end

text \<open>The hash table is such a store for what its functions permit, when the heap lasts.\<close>

definition env_good :: "(ENTRY \<Rightarrow> ENTRY) \<Rightarrow> (ENTRY \<Rightarrow> string option \<Rightarrow> env_op \<Rightarrow> int \<Rightarrow> bool) option
    \<Rightarrow> hsearch_data \<Rightarrow> bool" where
  "env_good env_init c h \<longleftrightarrow> env_wf h \<and> (\<forall>n. heap_ok h n) \<and> guarded_by env_init c h"

definition env_enter :: "(ENTRY \<Rightarrow> ENTRY) \<Rightarrow> int \<Rightarrow> string \<Rightarrow> string \<Rightarrow> hsearch_data \<Rightarrow> hsearch_data" where
  "env_enter env_init flag k v h = snd (the (hsearch_r env_init k (Some v) ENTER flag h))"

lemma env_enter:
  assumes "env_good env_init c h" "0 < room h" "permits env_init c flag k v"
  shows "\<exists>n i. hsearch_r env_init k (Some v) ENTER flag h = Some (Answer n (Some i) None, env_enter env_init flag k v h)"
    and "env_good env_init c (env_enter env_init flag k v h)"
    and "env_map (env_enter env_init flag k v h) = (env_map h)(k \<mapsto> v)"
    and "room h \<le> room (env_enter env_init flag k v h) + 1"
proof -
  have g: "env_wf h" "\<And>n. heap_ok h n" "guarded_by env_init c h" using assms(1) by (auto simp: env_good_def)
  obtain r h' where h': "hsearch_r env_init k (Some v) ENTER flag h = Some (r, h')"
    "env_wf h'" "room h \<le> room h' + 1" "heap_ok h' = heap_ok h" "guarded_by env_init c h'"
    and out: "\<exists>e op. judged env_init h k v e op \<and> (if denied h e k v op flag then refused r \<and> env_map h' = env_map h
      else \<exists>n i. r = Answer n (Some i) None \<and> 0 < n \<and> holds h' k i \<and> env_map h' = (env_map h)(k \<mapsto> v))"
    by (rule env_set [OF g(1) assms(2) g(2,2), of env_init k v flag]) (use g(3) in blast)
  have "\<exists>n i. r = Answer n (Some i) None \<and> env_map h' = (env_map h)(k \<mapsto> v)"
    using out permits_denied [OF assms(3) g(3)] by auto
  moreover have eq: "env_enter env_init flag k v h = h'" by (simp add: env_enter_def h'(1))
  ultimately show "\<exists>n i. hsearch_r env_init k (Some v) ENTER flag h = Some (Answer n (Some i) None, env_enter env_init flag k v h)"
    and "env_good env_init c (env_enter env_init flag k v h)"
    and "env_map (env_enter env_init flag k v h) = (env_map h)(k \<mapsto> v)"
    and "room h \<le> room (env_enter env_init flag k v h) + 1"
    using h' g unfolding eq env_good_def by auto
qed

interpretation env_store: map_store "env_enter env_init flag" env_map "env_good env_init c" room "permits env_init c flag"
  for env_init flag c
  by unfold_locales (use env_enter in auto)

lemma import_defines:
  assumes "env_good env_init c h" "length kvs \<le> room h" "\<forall>(k, v)\<in>set kvs. permits env_init c flag k v"
  shows "import_commands env_init flag (map (\<lambda>(k, v). Define k v) kvs) ([], h)
    = Some ([], fold (\<lambda>(k, v). env_enter env_init flag k v) kvs h)"
  using assms
proof (induction kvs arbitrary: h)
  case (Cons kv kvs)
  obtain k v where kv: "kv = (k, v)" by (cases kv)
  have room: "0 < room h" using Cons.prems by simp
  have permit: "permits env_init c flag k v" using Cons.prems(3) kv by simp
  note e = env_enter [OF Cons.prems(1) room permit]
  have "import_command env_init flag (Define k v) ([], h) = Some ([], env_enter env_init flag k v h)"
    using e(1) by (auto simp: drop_var_from_set_def)
  then show ?case using Cons.IH [OF e(2)] e(4) Cons.prems kv by simp
qed simp

section \<open>What is exported\<close>

definition pairs :: "ENTRY list \<Rightarrow> (string \<times> string) list" where
  "pairs es = map (\<lambda>e. (the (key e), the (data e))) es"

lemma pairs_exported: "pairs (export_list 0 [] h) = entries h"
  by (simp add: pairs_def export_list_def exported_def entries_def comp_def)

lemma export_text_pairs:
  "export_text sep es = concat (map (\<lambda>(k, v). k @ ''='' @ escape sep v @ [sep]) (pairs es)) @ [NUL]"
  by (simp add: export_text_def export_entry_def [abs_def] pairs_def comp_def)

lemma mset_pairs_sorted: "mset (pairs (qsort cmpkey es)) = mset (pairs es)"
  by (simp add: pairs_def mset_qsort)

lemma escape_length:
  "sep \<noteq> NUL \<Longrightarrow> length (escape sep s) = sum_list (map (\<lambda>c. if c = sep \<or> c = BS then 2 else 1) s)"
  by (induction s) (auto simp: escape_def)

lemma counted_enough: "sep \<noteq> NUL \<Longrightarrow> length (export_entry sep e) + 2 = counted sep e"
  by (simp add: export_entry_def counted_def escape_length)

lemma text_length:
  "length (export_text sep es) = sum_list (map (\<lambda>e. length (export_entry sep e)) es) + 1"
  by (simp add: export_text_def length_concat comp_def)

lemma text_length_qsort: "length (export_text sep (qsort cmpkey es)) = length (export_text sep es)"
proof -
  have "mset (map (\<lambda>e. length (export_entry sep e)) (qsort cmpkey es)) = mset (map (\<lambda>e. length (export_entry sep e)) es)"
    by (simp add: mset_qsort)
  then have "sum_list (map (\<lambda>e. length (export_entry sep e)) (qsort cmpkey es))
      = sum_list (map (\<lambda>e. length (export_entry sep e)) es)"
    by (metis sum_mset_sum_list)
  then show ?thesis by (simp only: text_length)
qed

lemma text_fits: "sep \<noteq> NUL \<Longrightarrow> length (export_text sep es) \<le> sum_list (map (counted sep) es) + 1"
proof -
  assume "sep \<noteq> NUL"
  then have "length (export_entry sep e) \<le> counted sep e" for e using counted_enough [of sep e] by simp
  then have "sum_list (map (\<lambda>e. length (export_entry sep e)) es) \<le> sum_list (map (counted sep) es)"
    by (intro sum_list_mono) simp
  then show ?thesis by (simp add: text_length)
qed

definition backslashes :: "ENTRY list \<Rightarrow> nat" where
  "backslashes es = sum_list (map (\<lambda>e. count_list (the (data e)) BS) es)"

lemma escape_NUL_length: "NUL \<notin> set s \<Longrightarrow> length (escape NUL s) = length s + count_list s BS"
  by (induction s) (auto simp: escape_def)

lemma text_NUL_length:
  assumes "\<forall>e\<in>set es. NUL \<notin> set (the (data e))"
  shows "length (export_text NUL es) + 2 * length es = sum_list (map (counted NUL) es) + 1 + backslashes es"
  using assms
proof (induction es)
  case (Cons e es)
  then show ?case
    using escape_NUL_length [of "the (data e)"]
    by (simp add: text_length counted_def backslashes_def export_entry_def)
qed (simp add: text_length backslashes_def)

lemma exported_parts:
  assumes "hexport_r h sep flag provided bufsize argv = (Exported n text, h')"
  shows "text = export_text sep (qsort cmpkey (export_list flag argv h))" and "length text \<le> n"
  using assms by (auto simp: hexport_r_def Let_def written_def split: if_splits prod.splits)

section \<open>Properties\<close>

text \<open>
  C14: Exporting the environment and importing the text into a cleared table gives the same
  environment, for every separator the code uses, whenever the export fitted its buffer. Names and
  values must be ones that can be written at all: names without separator, equals sign, leading
  blank or hash mark, values that are not empty. The importing side must permit them: its permission
  check, which is \<open>env_flags_validate\<close> for the environment, and the callbacks its set-up gives to
  the names accept the values. And there must be no more variables than the size of the table the
  import creates: 64 and one for every eight bytes of the buffer, at most 512. The heap lasts.
\<close>

theorem env_text_roundtrip:
  assumes wf: "env_wf h" and sep: "sep_ok sep"
    and ok: "\<And>k v. env_map h k = Some v \<Longrightarrow> name_ok sep k \<and> value_ok v"
    and few: "length (entries h) \<le> import_size n"
    and run: "hexport_r h sep 0 provided bufsize [] = (Exported n text, h1)"
    and target: "\<And>n. heap_ok h2 n" "\<And>k v. env_map h k = Some v \<Longrightarrow> permits env_init (change_ok h2) 0 k v"
  shows "\<exists>h'. himport_r env_init h2 (padded n text) sep 0 [] = Some (1, h') \<and> env_wf h' \<and> env_map h' = env_map h"
proof -
  let ?es = "qsort cmpkey (export_list 0 [] h)" and ?env = "padded n text"
  let ?kvs = "pairs ?es"
  have perm: "mset ?kvs = mset (entries h)" by (simp only: mset_pairs_sorted pairs_exported)
  then have set: "set ?kvs = set (entries h)" and len: "length ?kvs = length (entries h)"
    by (auto dest: mset_eq_setD mset_eq_length)
  have "mset (map fst ?kvs) = mset (map fst (entries h))" using perm by (metis mset_map)
  then have dist: "distinct (map fst ?kvs)" using entries_distinct [OF wf] by (metis mset_eq_imp_distinct_iff)
  then have map: "map_of (rev ?kvs) = env_map h"
  proof (intro ext option_eqI)
    fix k v
    have "distinct (map fst (rev ?kvs))" using dist by (simp add: rev_map [symmetric])
    then show "map_of (rev ?kvs) k = Some v \<longleftrightarrow> env_map h k = Some v"
      using entries_distinct [OF wf] set by (simp add: env_map_def)
  qed
  have kvs: "\<forall>(k, v)\<in>set ?kvs. name_ok sep k \<and> value_ok v"
    and permit: "\<forall>(k, v)\<in>set ?kvs. permits env_init (change_ok h2) 0 k v"
    using ok target(2) entries_distinct [OF wf] unfolding set by (auto simp: env_map_def)
  have size: "length ?env = n" using exported_parts(2) [OF run] by (simp add: padded_def)
  have form: "text = concat (map (\<lambda>(k, v). k @ ''='' @ escape sep v @ [sep]) ?kvs) @ [NUL]"
    using exported_parts(1) [OF run] export_text_pairs by simp
  let ?nel = "import_size (length ?env)"
  have nel: "64 \<le> ?nel" "?nel \<le> 521"
    by (auto simp: import_size_def CONFIG_ENV_MIN_ENTRIES_def CONFIG_ENV_MAX_ENTRIES_def)
  define g where "g = h2\<lparr>allocs := allocs h2 + 1\<rparr>"
  define h3 where "h3 = (if \<not> bit (0 :: int) H_NOCLEAR \<and> table g \<noteq> None then hdestroy_r g else g)"
  have h3: "table h3 = None" "heap_ok h3 = heap_ok h2" "change_ok h3 = change_ok h2"
    by (auto simp: h3_def g_def hdestroy_r_def)
  obtain h4 where h4: "hcreate_r ?nel h3 = Some (1, h4)" "env_wf h4" "env_map h4 = Map.empty" "?nel \<le> room h4"
      "heap_ok h4 = heap_ok h3" "change_ok h4 = change_ok h3" "\<And>i. \<not> live h4 i"
    by (rule hcreate_ok [OF h3(1) _ nel(2)]) (use nel(1) h3(2) target(1) in auto)
  have good: "env_good env_init (change_ok h2) h4"
    using h4 h3 target(1) by (auto simp: env_good_def guarded_by_def)
  have import: "himport_r env_init h2 ?env sep 0 [] = (case parse_env sep ?env of None \<Rightarrow> None
     | Some cs \<Rightarrow> (case import_commands env_init 0 cs ([], h4) of None \<Rightarrow> None
       | Some (vs, h4) \<Rightarrow> map_option (Pair 1) (delete_unmentioned 0 vs h4)))"
  proof -
    have "alloc h2 = (True, g)" using target(1) by (simp add: alloc_def g_def)
    then show ?thesis unfolding himport_r_def Let_def
      by (simp only: prod.case h3_def [symmetric] h3(1) h4(1) option.case if_True if_False simp_thms list.map) simp
  qed
  show ?thesis
  proof (cases "?kvs = []")
    case True
    then have "parse_env sep ?env = Some [Remove []]" using form parse_nothing by (simp add: padded_def)
    moreover have "hdelete_r [] 0 h4 = Some (Answer 0 None (Some ESRCH), h4)"
      using env_unset(1) [OF h4(2)] h4(3) by simp
    moreover have "env_map h = Map.empty" using map True by simp
    ultimately show ?thesis using import h4(2,3) by (simp add: drop_var_from_set_def)
  next
    case False
    have "parse_env sep ?env = Some (map (\<lambda>(k, v). Define k v) ?kvs)"
      using parse_entries [OF sep kvs False] form by (simp add: padded_def)
    moreover have room: "length ?kvs \<le> room h4" using len few h4(4) by (simp add: size)
    moreover note import_defines [OF good room permit] env_store.enter_all [OF good room permit]
    ultimately show ?thesis using import map h4(3) by (auto simp: env_good_def)
  qed
qed

text \<open>The target refuses every change of \<open>ethaddr\<close>; the buffer has 100 bytes.\<close>

definition fussy_env :: hsearch_data where
  "fussy_env = no_env\<lparr>change_ok := Some (\<lambda>e v op flag. key e = Some ''ethaddr'')\<rparr>"

theorem env_text_roundtrip_witness:
  "\<exists>bytes h'. hexport_r worn_env NUL 0 True 100 [] = (Exported 100 bytes, worn_env) \<and>
    himport_r (\<lambda>e. e\<lparr>callback := None\<rparr>) fussy_env (padded 100 bytes) NUL 0 [] = Some (1, h') \<and>
    env_map h' = [''A'' \<mapsto> ''1'']"
proof -
  have small: "sum_list (map (counted NUL) (export_list 0 [] worn_env)) = 6"
    "length (export_text NUL (export_list 0 [] worn_env)) = 5" by code_simp+
  then obtain bytes where run: "hexport_r worn_env NUL 0 True 100 [] = (Exported 100 bytes, worn_env)"
    by (auto simp: hexport_r_def Let_def written_def text_length_qsort)
  have map: "env_map worn_env = [''A'' \<mapsto> ''1'']"
    by (simp add: env_map_def worn_env_entries)
  have ok: "name_ok NUL ''A''" "value_ok ''1''"
    by (simp_all add: name_ok_def value_ok_def isblank_def NUL_def)
  have "\<exists>h'. himport_r (\<lambda>e. e\<lparr>callback := None\<rparr>) fussy_env (padded 100 bytes) NUL 0 [] = Some (1, h') \<and>
      env_wf h' \<and> env_map h' = env_map worn_env"
  proof (rule env_text_roundtrip [OF worn_env_wf(1) _ _ _ run])
    show "sep_ok NUL" by (simp add: sep_ok_def BS_def NUL_def)
    show "name_ok NUL k \<and> value_ok v" if "env_map worn_env k = Some v" for k v
      using that ok by (simp add: map split: if_splits)
    show "permits (\<lambda>e. e\<lparr>callback := None\<rparr>) (change_ok fussy_env) 0 k v" if "env_map worn_env k = Some v" for k v
      using that by (auto simp: map permits_def set_up_def vetoed_def fussy_env_def split: if_splits)
  qed (simp_all add: worn_env_entries fussy_env_def no_env_def import_size_def CONFIG_ENV_MIN_ENTRIES_def CONFIG_ENV_MAX_ENTRIES_def)
  with run map show ?thesis by auto
qed

text \<open>
  C25: Whether the exported text fits, for every size of the buffer: the size given, or without one
  the size counted. The call fails with ENOMEM only if the counted size is larger than the given one
  or a buffer cannot be allocated. Otherwise the text fits with every printed separator. With the
  separator NUL, as the environment is saved, it fits exactly if the backslashes of all values
  together, which are escaped but not counted, are at most two per variable, which are
  counted too much, plus what the buffer is larger than counted.
\<close>

theorem export_bounds:
  assumes "\<forall>e\<in>set (export_list flag argv h). NUL \<notin> set (the (data e))"
  shows "let es = export_list flag argv h; need = sum_list (map (counted sep) es) + 1;
      size = (if bufsize = 0 then need else bufsize);
      memory = (provided \<or> heap_ok h (allocs h)) in
    case fst (hexport_r h sep flag provided bufsize argv) of
      Export_Error e \<Rightarrow> e = ENOMEM \<and> (size < need \<or> \<not> memory)
    | Exported n bytes \<Rightarrow> n = size \<and> need \<le> size \<and> memory \<and> length bytes \<le> n \<and>
        (sep = NUL \<longrightarrow> need + backslashes es \<le> size + 2 * length es)
    | Overrun n bytes \<Rightarrow> n = size \<and> need \<le> size \<and> memory \<and> n < length bytes \<and>
        sep = NUL \<and> size + 2 * length es < need + backslashes es"
proof -
  let ?es = "export_list flag argv h"
  let ?need = "sum_list (map (counted sep) ?es) + 1"
  let ?size = "if bufsize = 0 then ?need else bufsize"
  let ?text = "export_text sep (qsort cmpkey ?es)"
  have fit: "if sep = NUL then length ?text + 2 * length ?es = ?need + backslashes ?es else length ?text \<le> ?need"
    using text_NUL_length [OF assms] text_fits [of sep ?es] by (simp add: text_length_qsort)
  have run: "fst (hexport_r h sep flag provided bufsize argv) =
      (if ?size < ?need \<or> \<not> (provided \<or> heap_ok h (allocs h)) then Export_Error ENOMEM else written ?size ?text)"
    by (auto simp: hexport_r_def Let_def alloc_def)
  show ?thesis
    unfolding Let_def run
    by (rule iffD2 [OF export.split], use fit in \<open>auto simp: written_def split: if_splits\<close>)
qed

text \<open>One variable of three backslashes: the size counted is 9, the text takes 10 bytes.\<close>

definition path_env :: hsearch_data where
  "path_env = the (env_ops [(''A'', Some [BS, BS, BS])] small_env)"

theorem export_bounds_witness:
  "(\<exists>bytes. fst (hexport_r path_env NUL 0 True 9 []) = Overrun 9 bytes \<and> 9 < length bytes) \<and>
   (\<exists>bytes. fst (hexport_r path_env NUL 0 True 10 []) = Exported 10 bytes)"
proof -
  have one: "length (export_list 0 [] path_env) = 1" "backslashes (export_list 0 [] path_env) = 3"
    "sum_list (map (counted NUL) (export_list 0 [] path_env)) = 8"
    "list_all (\<lambda>e. NUL \<notin> set (the (data e))) (export_list 0 [] path_env)"
    by code_simp+
  then have "\<forall>e\<in>set (export_list 0 [] path_env). NUL \<notin> set (the (data e))" by (simp add: list_all_iff)
  note bounds = export_bounds [OF this, of NUL _ True]
  show ?thesis
    using bounds [of 9] bounds [of 10] by (auto simp: one Let_def split: export.splits)
qed

end
