(* ===== verification/LedPattern.thy ===== *)
theory LedPattern imports Prelude begin

text \<open>
  The Linux tool of \<open>src/sw/hps/plasma-soc-test/led_pattern_mgr.c\<close>: it maps the two
  FPGA bridges into its address space, prints the system id and then copies the
  switches and the keys into the memory of the Plasma soft core for ever, until
  SIGINT runs \<open>on_close\<close>. The program is a step function over its program points;
  \<open>inductive\<close> relation \<open>tool_step\<close> lets the signal interrupt it between any two statements, and
  between a call of \<open>open\<close> or \<open>mmap\<close> and the assignment of its result.
  The answers of the kernel and of the devices are inputs of the steps; the
  offsets \<open>AVALON_*\<close> come from a header of a git submodule and are parameters.
\<close>

section \<open>State\<close>

record avalon =
  AVALON_SDRAM_BASE :: u32
  AVALON_SWITCHES :: u32
  AVALON_BUTTONS :: u32

definition HPS2FPGASLAVES_BASE :: u32 where "HPS2FPGASLAVES_BASE = 0xC0000000"
definition HPS2FPGASLAVES_SPAN :: u32 where "HPS2FPGASLAVES_SPAN = 0x40000000"
definition LWFPGASLAVES_BASE :: u32 where "LWFPGASLAVES_BASE = 0xFF200000"
definition LWFPGASLAVES_SPAN :: u32 where "LWFPGASLAVES_SPAN = 0x00200000"
definition SYSID_QSYS_0_BASE :: u32 where "SYSID_QSYS_0_BASE = 0x0"
definition MAP_FAILED :: u32 where "MAP_FAILED = 0xFFFFFFFF"
definition EXIT_SUCCESS :: u32 where "EXIT_SUCCESS = 0"
definition EXIT_FAILURE :: u32 where "EXIT_FAILURE = 1"

lemmas tool_consts = HPS2FPGASLAVES_BASE_def HPS2FPGASLAVES_SPAN_def LWFPGASLAVES_BASE_def
  LWFPGASLAVES_SPAN_def SYSID_QSYS_0_BASE_def MAP_FAILED_def EXIT_SUCCESS_def EXIT_FAILURE_def

text \<open>What the tool does to the outside, with the answers it got. \<open>Mmap len off addr\<close>.\<close>

datatype call =
    Signal_SIGINT
  | Open u32
  | Mmap u32 u32 u32
  | Munmap u32 u32
  | Close u32
  | Load u32 u32
  | Store u32 u32
  | Perror string
  | Puts string
  | Printf string u32
  | Nanosleep u32 u32
  | Exit u32

text \<open>
  The program points of \<open>main\<close>, in the order of its statements; \<open>Done\<close> is the ended process.
  At \<open>Opened\<close>, \<open>Mapped_Lwfpga\<close> and \<open>Mapped_Hps2fpga\<close> the call has returned and \<open>temp\<close> is its result,
  not yet assigned; in the loop \<open>temp\<close> is the value of a load that a store will use.
\<close>

datatype point =
    Install
  | Open_Mem
  | Opened
  | Map_Lwfpga
  | Mapped_Lwfpga
  | Read_Id
  | Read_Stamp
  | Print_Id
  | Print_Stamp
  | Map_Hps2fpga
  | Mapped_Hps2fpga
  | Read_Switches
  | Write_Switches
  | Read_Buttons
  | Test_Left
  | Test_Right
  | Test_Faster
  | Write_Faster
  | Test_Slower
  | Write_Slower
  | Sleep
  | After_Loop
  | Error_Map_Hps2fpga_Failed
  | Error_Map_Lwfpga_Failed
  | Error_Open_Mem_Failed
  | Done

record tool =
  pc :: point
  fd :: u32
  vlwfpga_base :: u32
  vhps2pga_base :: u32
  sysid_regs :: u32
  system_id :: u32
  timestamp :: u32
  buttons :: u32
  temp :: u32
  result :: u32
  calls :: "call list"

definition start :: tool where
  "start = \<lparr>pc = Install, fd = - 1, vlwfpga_base = 0, vhps2pga_base = 0, sysid_regs = 0,
     system_id = 0, timestamp = 0, buttons = 0, temp = 0, result = EXIT_FAILURE, calls = []\<rparr>"

section \<open>Steps\<close>

definition issue :: "call list \<Rightarrow> point \<Rightarrow> tool \<Rightarrow> tool" where
  "issue cs p t = t\<lparr>pc := p, calls := calls t @ cs\<rparr>"

text \<open>\<open>if(buttons & m)\<close>\<close>

definition pressed :: "u32 \<Rightarrow> tool \<Rightarrow> bool" where
  "pressed m t \<longleftrightarrow> buttons t AND m \<noteq> 0"

definition speed_reg :: "tool \<Rightarrow> u32" where
  "speed_reg t = vhps2pga_base t + 0x530C"

definition pattern_mem :: "avalon \<Rightarrow> u32 \<Rightarrow> tool \<Rightarrow> u32" where
  "pattern_mem A off t = vhps2pga_base t + AVALON_SDRAM_BASE A + off"

text \<open>
  One step of \<open>main\<close>; \<open>v\<close> is the answer of the system call or the value of the load the
  step makes. \<open>sysid_regs[1]\<close> is the word behind the first.
\<close>

definition main_step :: "avalon \<Rightarrow> u32 \<Rightarrow> tool \<Rightarrow> tool" where
  "main_step A v t = (case pc t of
     Install \<Rightarrow> issue [Signal_SIGINT] Open_Mem t
   | Open_Mem \<Rightarrow> issue [Open v] Opened (t\<lparr>temp := v\<rparr>)
   | Opened \<Rightarrow>
       if sint (temp t) < 0 then issue [Perror ''Error opening /dev/mem''] Error_Open_Mem_Failed (t\<lparr>fd := temp t\<rparr>)
       else issue [] Map_Lwfpga (t\<lparr>fd := temp t\<rparr>)
   | Map_Lwfpga \<Rightarrow> issue [Mmap LWFPGASLAVES_SPAN LWFPGASLAVES_BASE v] Mapped_Lwfpga (t\<lparr>temp := v\<rparr>)
   | Mapped_Lwfpga \<Rightarrow>
       if temp t = MAP_FAILED
       then issue [Perror ''Error mapping LWFPGASLAVES''] Error_Map_Lwfpga_Failed (t\<lparr>vlwfpga_base := temp t\<rparr>)
       else issue [] Read_Id (t\<lparr>vlwfpga_base := temp t, sysid_regs := temp t + SYSID_QSYS_0_BASE\<rparr>)
   | Read_Id \<Rightarrow> issue [Load (sysid_regs t) v] Read_Stamp (t\<lparr>system_id := v\<rparr>)
   | Read_Stamp \<Rightarrow> issue [Load (sysid_regs t + 4) v] Print_Id (t\<lparr>timestamp := v\<rparr>)
   | Print_Id \<Rightarrow> issue [Printf ''Your system's ID: {%08X}'' (system_id t)] Print_Stamp t
   | Print_Stamp \<Rightarrow> issue [Printf ''Your system's timestamp: %s'' (timestamp t)] Map_Hps2fpga t
   | Map_Hps2fpga \<Rightarrow> issue [Mmap HPS2FPGASLAVES_SPAN HPS2FPGASLAVES_BASE v] Mapped_Hps2fpga (t\<lparr>temp := v\<rparr>)
   | Mapped_Hps2fpga \<Rightarrow>
       if temp t = MAP_FAILED
       then issue [Perror ''Error mapping HPS2FPGASLAVES''] Error_Map_Hps2fpga_Failed (t\<lparr>vhps2pga_base := temp t\<rparr>)
       else issue [] Read_Switches (t\<lparr>vhps2pga_base := temp t\<rparr>)
   | Read_Switches \<Rightarrow>
       issue [Load (vhps2pga_base t + AVALON_SWITCHES A) v] Write_Switches (t\<lparr>temp := v\<rparr>)
   | Write_Switches \<Rightarrow> issue [Store (pattern_mem A 0x800 t) (temp t)] Read_Buttons t
   | Read_Buttons \<Rightarrow>
       issue [Load (vhps2pga_base t + AVALON_BUTTONS A) v] Test_Left (t\<lparr>buttons := 0xF AND NOT v\<rparr>)
   | Test_Left \<Rightarrow>
       if pressed 0x8 t then issue [Store (pattern_mem A 0x804 t) 1] Test_Right t
       else issue [] Test_Right t
   | Test_Right \<Rightarrow>
       if pressed 0x4 t then issue [Store (pattern_mem A 0x804 t) (- 1)] Test_Faster t
       else issue [] Test_Faster t
   | Test_Faster \<Rightarrow>
       if pressed 0x2 t then issue [Load (speed_reg t) v] Write_Faster (t\<lparr>temp := v\<rparr>)
       else issue [] Test_Slower t
   | Write_Faster \<Rightarrow> issue [Store (speed_reg t) (temp t div 2)] Test_Slower t
   | Test_Slower \<Rightarrow>
       if pressed 0x1 t then issue [Load (speed_reg t) v] Write_Slower (t\<lparr>temp := v\<rparr>)
       else issue [] Sleep t
   | Write_Slower \<Rightarrow> issue [Store (speed_reg t) (temp t * 2)] Sleep t
   | Sleep \<Rightarrow> issue [Nanosleep 0 500000000] Read_Switches t
   | After_Loop \<Rightarrow>
       issue [Munmap (vhps2pga_base t) HPS2FPGASLAVES_SPAN] Error_Map_Hps2fpga_Failed (t\<lparr>result := EXIT_SUCCESS\<rparr>)
   | Error_Map_Hps2fpga_Failed \<Rightarrow>
       issue [Munmap (vlwfpga_base t) LWFPGASLAVES_SPAN] Error_Map_Lwfpga_Failed t
   | Error_Map_Lwfpga_Failed \<Rightarrow> issue [Close (fd t)] Error_Open_Mem_Failed t
   | Error_Open_Mem_Failed \<Rightarrow> issue [Exit (result t)] Done t
   | Done \<Rightarrow> t)"

text \<open>
  The handler of SIGINT: the calls it issues as long as its own code stays mapped. While
  \<open>vhps2pga_base\<close> is still null its first call removes the lowest gigabyte of the address space; if
  the tool lies there the calls behind it are not made any more.
\<close>

definition on_close :: "tool \<Rightarrow> tool" where
  "on_close t = issue
     [Puts ''Cleaning up...'', Munmap (vhps2pga_base t) HPS2FPGASLAVES_SPAN,
      Munmap (vlwfpga_base t) LWFPGASLAVES_SPAN, Close (fd t), Exit EXIT_SUCCESS] Done t"

text \<open>
  What the manual of \<open>mmap\<close> promises: the answer is \<open>MAP_FAILED\<close> or the address of a range
  of the requested length within the address space.
\<close>

definition kernel_answer :: "tool \<Rightarrow> u32 \<Rightarrow> bool" where
  "kernel_answer t v \<longleftrightarrow> (case pc t of
     Map_Lwfpga \<Rightarrow> v = MAP_FAILED \<or> unat v + unat LWFPGASLAVES_SPAN \<le> 2 ^ 32
   | Map_Hps2fpga \<Rightarrow> v = MAP_FAILED \<or> unat v + unat HPS2FPGASLAVES_SPAN \<le> 2 ^ 32
   | _ \<Rightarrow> True)"

text \<open>Before the handler is installed SIGINT ends the process at once.\<close>

inductive tool_step :: "avalon \<Rightarrow> tool \<Rightarrow> tool \<Rightarrow> bool" for A where
  main: "pc t \<noteq> Done \<Longrightarrow> kernel_answer t v \<Longrightarrow> tool_step A t (main_step A v t)"
| sigint: "pc t \<noteq> Install \<Longrightarrow> pc t \<noteq> Done \<Longrightarrow> tool_step A t (on_close t)"
| killed: "pc t = Install \<Longrightarrow> tool_step A t (t\<lparr>pc := Done\<rparr>)"

inductive tool_reach :: "avalon \<Rightarrow> tool \<Rightarrow> bool" for A where
  init: "tool_reach A start"
| next_step: "tool_reach A t \<Longrightarrow> tool_step A t u \<Longrightarrow> tool_reach A u"

section \<open>What the tool holds\<close>

definition range_of :: "u32 \<Rightarrow> u32 \<Rightarrow> u32 set" where
  "range_of a len = {x. unat a \<le> unat x \<and> unat x < unat a + unat len}"

text \<open>The addresses and descriptors the calls so far have acquired and not given back.\<close>

fun call_map :: "u32 set \<Rightarrow> call \<Rightarrow> u32 set" where
  "call_map M (Mmap len off a) = (if a = MAP_FAILED then M else M \<union> range_of a len)"
| "call_map M (Munmap a len) = M - range_of a len"
| "call_map M _ = M"

fun call_fd :: "u32 set \<Rightarrow> call \<Rightarrow> u32 set" where
  "call_fd D (Open d) = (if sint d < 0 then D else insert d D)"
| "call_fd D (Close d) = D - {d}"
| "call_fd D _ = D"

definition mapped :: "call list \<Rightarrow> u32 set" where
  "mapped cs = foldl call_map {} cs"

definition opened :: "call list \<Rightarrow> u32 set" where
  "opened cs = foldl call_fd {} cs"

text \<open>A word access is in order when the four bytes are mapped at the time.\<close>

fun access_ok :: "u32 set \<Rightarrow> call \<Rightarrow> bool" where
  "access_ok M (Load a v) = (range_of a 4 \<subseteq> M)"
| "access_ok M (Store a v) = (range_of a 4 \<subseteq> M)"
| "access_ok M _ = True"

fun accesses_ok :: "u32 set \<Rightarrow> call list \<Rightarrow> bool" where
  "accesses_ok M [] = True"
| "accesses_ok M (c # cs) = (access_ok M c \<and> accesses_ok (call_map M c) cs)"

lemma mapped_simps [simp]:
  "mapped [] = {}" "mapped (cs @ ds) = foldl call_map (mapped cs) ds"
  by (simp_all add: mapped_def)

lemma opened_simps [simp]:
  "opened [] = {}" "opened (cs @ ds) = foldl call_fd (opened cs) ds"
  by (simp_all add: opened_def)

lemma accesses_ok_append:
  "accesses_ok M (cs @ ds) \<longleftrightarrow> accesses_ok M cs \<and> accesses_ok (foldl call_map M cs) ds"
  by (induction cs arbitrary: M) auto

lemma accesses_ok_mapped [simp]:
  "accesses_ok {} (cs @ ds) \<longleftrightarrow> accesses_ok {} cs \<and> accesses_ok (mapped cs) ds"
  by (simp add: accesses_ok_append mapped_def)

section \<open>The invariant\<close>

text \<open>The points between the first mapping and its removal, and those of the loop.\<close>

definition lw_points :: "point set" where
  "lw_points = {Read_Id, Read_Stamp, Print_Id, Print_Stamp, Map_Hps2fpga, Error_Map_Hps2fpga_Failed}"

definition loop_points :: "point set" where
  "loop_points = {Read_Switches, Write_Switches, Read_Buttons, Test_Left, Test_Right, Test_Faster,
     Write_Faster, Test_Slower, Write_Slower, Sleep}"

text \<open>
  Well-formed states: what is mapped and open is what the two pointers, the descriptor and the
  result not yet assigned say at that point, every access was to mapped memory, and the exit code is
  still the initial one. At the end at most the descriptor or the mapping is left whose number or
  address was not assigned yet when the signal came.
\<close>

definition tool_wf :: "tool \<Rightarrow> bool" where
  "tool_wf t \<longleftrightarrow> accesses_ok {} (calls t) \<and> result t = EXIT_FAILURE \<and>
     (if pc t \<in> loop_points then
        vhps2pga_base t \<noteq> MAP_FAILED \<and> vlwfpga_base t \<noteq> MAP_FAILED \<and>
        unat (vhps2pga_base t) + unat HPS2FPGASLAVES_SPAN \<le> 2 ^ 32 \<and>
        mapped (calls t) = range_of (vlwfpga_base t) LWFPGASLAVES_SPAN
          \<union> range_of (vhps2pga_base t) HPS2FPGASLAVES_SPAN \<and>
        opened (calls t) = {fd t}
      else if pc t \<in> lw_points then
        vlwfpga_base t \<noteq> MAP_FAILED \<and> sysid_regs t = vlwfpga_base t + SYSID_QSYS_0_BASE \<and>
        unat (vlwfpga_base t) + unat LWFPGASLAVES_SPAN \<le> 2 ^ 32 \<and>
        mapped (calls t) = range_of (vlwfpga_base t) LWFPGASLAVES_SPAN \<and>
        opened (calls t) = {fd t}
      else if pc t = Opened then
        mapped (calls t) = {} \<and> opened (calls t) = (if sint (temp t) < 0 then {} else {temp t})
      else if pc t = Mapped_Lwfpga then
        (temp t = MAP_FAILED \<or> unat (temp t) + unat LWFPGASLAVES_SPAN \<le> 2 ^ 32) \<and>
        mapped (calls t) = (if temp t = MAP_FAILED then {} else range_of (temp t) LWFPGASLAVES_SPAN) \<and>
        opened (calls t) = {fd t}
      else if pc t = Mapped_Hps2fpga then
        vlwfpga_base t \<noteq> MAP_FAILED \<and> sysid_regs t = vlwfpga_base t + SYSID_QSYS_0_BASE \<and>
        unat (vlwfpga_base t) + unat LWFPGASLAVES_SPAN \<le> 2 ^ 32 \<and>
        (temp t = MAP_FAILED \<or> unat (temp t) + unat HPS2FPGASLAVES_SPAN \<le> 2 ^ 32) \<and>
        mapped (calls t) = range_of (vlwfpga_base t) LWFPGASLAVES_SPAN
          \<union> (if temp t = MAP_FAILED then {} else range_of (temp t) HPS2FPGASLAVES_SPAN) \<and>
        opened (calls t) = {fd t}
      else if pc t = Done then
        mapped (calls t) = {} \<and> opened (calls t) \<subseteq> {temp t} \<or>
        mapped (calls t) \<subseteq> range_of (temp t) HPS2FPGASLAVES_SPAN \<and> opened (calls t) = {}
      else pc t \<noteq> After_Loop \<and> mapped (calls t) = {} \<and>
        opened (calls t) = (if pc t \<in> {Map_Lwfpga, Error_Map_Lwfpga_Failed} then {fd t} else {}))"

text \<open>The offsets of the devices lie inside the bridge.\<close>

definition avalon_ok :: "avalon \<Rightarrow> bool" where
  "avalon_ok A \<longleftrightarrow> unat (AVALON_SDRAM_BASE A) + 0x808 \<le> unat HPS2FPGASLAVES_SPAN \<and>
     unat (AVALON_SWITCHES A) + 4 \<le> unat HPS2FPGASLAVES_SPAN \<and>
     unat (AVALON_BUTTONS A) + 4 \<le> unat HPS2FPGASLAVES_SPAN"

lemma range_of_offset:
  assumes "unat a + unat len \<le> 2 ^ 32" and "unat off + unat n \<le> unat len"
  shows "range_of (a + off) n \<subseteq> range_of a len"
proof (cases "n = 0")
  case False
  then have "0 < unat n" by (simp add: unat_gt_0)
  with assms have "unat (a + off) = unat a + unat off"
    by (simp add: unat_word_ariths)
  with assms show ?thesis by (auto simp: range_of_def)
qed (auto simp: range_of_def)

lemma range_of_diff [simp]: "range_of a len - range_of a len = {}"
  by simp

lemmas tool_wf_defs = tool_wf_def lw_points_def loop_points_def issue_def

lemma wf_accesses: "tool_wf t \<Longrightarrow> accesses_ok {} (calls t)"
  unfolding tool_wf_def by (rule conjunct1)

lemma wf_start: "tool_wf start"
  by (simp add: tool_wf_defs start_def)

lemma range_of_mono: "range_of a LWFPGASLAVES_SPAN \<subseteq> range_of a HPS2FPGASLAVES_SPAN"
  by (auto simp: range_of_def tool_consts)

text \<open>The handler gives back what it knows of: all of it, but at the three points in between.\<close>

lemma on_close_all:
  assumes "tool_wf t" and "pc t \<notin> {Opened, Mapped_Lwfpga, Mapped_Hps2fpga, Done}"
  shows "mapped (calls (on_close t)) = {} \<and> opened (calls (on_close t)) = {}"
  using assms unfolding on_close_def by (auto simp: tool_wf_defs split: if_splits)

lemma wf_on_close:
  assumes "tool_wf t" and "pc t \<noteq> Done"
  shows "tool_wf (on_close t)"
proof (cases "pc t \<in> {Opened, Mapped_Lwfpga, Mapped_Hps2fpga}")
  case True
  then show ?thesis
    using assms range_of_mono [of "temp t"] unfolding on_close_def by (auto simp: tool_wf_defs split: if_splits)
next
  case False
  have "pc (on_close t) = Done" "result (on_close t) = result t" "accesses_ok {} (calls (on_close t)) = accesses_ok {} (calls t)"
    by (simp_all add: on_close_def issue_def)
  then show ?thesis
    using on_close_all [OF assms(1)] False assms by (simp add: tool_wf_def loop_points_def lw_points_def)
qed

lemma in_bridge:
  assumes "avalon_ok A" "unat b + unat HPS2FPGASLAVES_SPAN \<le> 2 ^ 32"
  shows "range_of (b + AVALON_SWITCHES A) 4 \<subseteq> range_of b HPS2FPGASLAVES_SPAN"
    and "range_of (b + AVALON_BUTTONS A) 4 \<subseteq> range_of b HPS2FPGASLAVES_SPAN"
    and "range_of (b + AVALON_SDRAM_BASE A + 0x800) 4 \<subseteq> range_of b HPS2FPGASLAVES_SPAN"
    and "range_of (b + AVALON_SDRAM_BASE A + 0x804) 4 \<subseteq> range_of b HPS2FPGASLAVES_SPAN"
    and "range_of (b + 0x530C) 4 \<subseteq> range_of b HPS2FPGASLAVES_SPAN"
proof -
  have near: "unat (AVALON_SDRAM_BASE A + k) + unat (4::u32) \<le> unat HPS2FPGASLAVES_SPAN"
    if "unat k \<le> 0x804" for k
    using assms(1) that
    by (simp add: avalon_ok_def tool_consts unat_word_ariths)
  show "range_of (b + AVALON_SWITCHES A) 4 \<subseteq> range_of b HPS2FPGASLAVES_SPAN"
    and "range_of (b + AVALON_BUTTONS A) 4 \<subseteq> range_of b HPS2FPGASLAVES_SPAN"
    by (rule range_of_offset [OF assms(2)], use assms(1) in \<open>simp add: avalon_ok_def\<close>)+
  show "range_of (b + AVALON_SDRAM_BASE A + 0x800) 4 \<subseteq> range_of b HPS2FPGASLAVES_SPAN"
    and "range_of (b + AVALON_SDRAM_BASE A + 0x804) 4 \<subseteq> range_of b HPS2FPGASLAVES_SPAN"
    unfolding add.assoc by (rule range_of_offset [OF assms(2) near], simp)+
  show "range_of (b + 0x530C) 4 \<subseteq> range_of b HPS2FPGASLAVES_SPAN"
    by (rule range_of_offset [OF assms(2)]) (simp add: tool_consts)
qed

lemma in_lwfpga:
  assumes "unat b + unat LWFPGASLAVES_SPAN \<le> 2 ^ 32"
  shows "range_of (b + SYSID_QSYS_0_BASE) 4 \<subseteq> range_of b LWFPGASLAVES_SPAN"
    and "range_of (b + SYSID_QSYS_0_BASE + 4) 4 \<subseteq> range_of b LWFPGASLAVES_SPAN"
  unfolding add.assoc
  by (rule range_of_offset [OF assms], simp add: tool_consts)+

lemma wf_main_step:
  assumes A: "avalon_ok A" and k: "kernel_answer t v" and inv: "tool_wf t"
  shows "tool_wf (main_step A v t)"
proof -
  note bridge = in_bridge [OF A, of "vhps2pga_base t"] and lw = in_lwfpga [of "vlwfpga_base t"]
  show ?thesis
  proof (cases "pc t")
    case Read_Id with inv lw show ?thesis by (auto simp: tool_wf_defs main_step_def)
  next
    case Read_Stamp with inv lw show ?thesis by (auto simp: tool_wf_defs main_step_def)
  next
    case Read_Switches with inv bridge show ?thesis by (auto simp: tool_wf_defs main_step_def)
  next
    case Write_Switches with inv bridge show ?thesis by (auto simp: tool_wf_defs main_step_def pattern_mem_def)
  next
    case Read_Buttons with inv bridge show ?thesis by (auto simp: tool_wf_defs main_step_def)
  next
    case Test_Left with inv bridge show ?thesis by (auto simp: tool_wf_defs main_step_def pattern_mem_def)
  next
    case Test_Right with inv bridge show ?thesis by (auto simp: tool_wf_defs main_step_def pattern_mem_def)
  next
    case Test_Faster with inv bridge show ?thesis by (auto simp: tool_wf_defs main_step_def speed_reg_def)
  next
    case Write_Faster with inv bridge show ?thesis by (auto simp: tool_wf_defs main_step_def speed_reg_def)
  next
    case Test_Slower with inv bridge show ?thesis by (auto simp: tool_wf_defs main_step_def speed_reg_def)
  next
    case Write_Slower with inv bridge show ?thesis by (auto simp: tool_wf_defs main_step_def speed_reg_def)
  qed (use inv k in \<open>auto simp: tool_wf_defs main_step_def kernel_answer_def\<close>)
qed

lemma wf_step:
  assumes "avalon_ok A" "tool_step A t u" "tool_wf t"
  shows "tool_wf u"
  using assms(2)
proof cases
  case (main v)
  then show ?thesis using wf_main_step [OF assms(1)] assms(3) by simp
next
  case sigint
  then show ?thesis using wf_on_close [OF assms(3)] by simp
next
  case killed
  then show ?thesis using assms(3) by (simp add: tool_wf_defs)
qed

lemma wf_reach: "tool_reach A t \<Longrightarrow> avalon_ok A \<Longrightarrow> tool_wf t"
  by (induction rule: tool_reach.induct) (auto intro: wf_start wf_step)

text \<open>Runs of \<open>main\<close> without a signal: the answers of the steps in order.\<close>

definition run_main :: "avalon \<Rightarrow> u32 list \<Rightarrow> tool \<Rightarrow> tool" where
  "run_main A vs t = fold (main_step A) vs t"

lemma run_main_simps [simp]:
  "run_main A [] t = t"
  "run_main A (v # vs) t = run_main A vs (main_step A v t)"
  "run_main A (vs @ ws) t = run_main A ws (run_main A vs t)"
  by (simp_all add: run_main_def)

text \<open>A sensible map and a run up to the loop.\<close>

definition de1_avalon :: avalon where
  "de1_avalon = \<lparr>AVALON_SDRAM_BASE = 0x10000000, AVALON_SWITCHES = 0x5000, AVALON_BUTTONS = 0x5100\<rparr>"

definition started :: tool where
  "started = run_main de1_avalon [0, 3, 0, 0xB6000000, 0, 0xDEADBEEF, 0x5B985CEC, 0, 0, 0x76000000, 0] start"

lemma started_value:
  "started = start\<lparr>pc := Read_Switches, fd := 3, vlwfpga_base := 0xB6000000, vhps2pga_base := 0x76000000,
     sysid_regs := 0xB6000000, system_id := 0xDEADBEEF, timestamp := 0x5B985CEC, temp := 0x76000000,
     calls := [Signal_SIGINT, Open 3, Mmap 0x00200000 0xFF200000 0xB6000000,
       Load 0xB6000000 0xDEADBEEF, Load 0xB6000004 0x5B985CEC,
       Printf ''Your system's ID: {%08X}'' 0xDEADBEEF, Printf ''Your system's timestamp: %s'' 0x5B985CEC,
       Mmap 0x40000000 0xC0000000 0x76000000]\<rparr>"
  by (simp add: started_def start_def main_step_def issue_def tool_consts)

lemma main_reach:
  "tool_reach A t \<Longrightarrow> pc t \<noteq> Done \<Longrightarrow> kernel_answer t v \<Longrightarrow> tool_reach A (main_step A v t)"
  by (blast intro: tool_reach.intros tool_step.intros)

lemma started_reached: "tool_reach de1_avalon started"
  unfolding started_def run_main_simps
  by (intro main_reach tool_reach.init) (simp_all add: kernel_answer_def start_def main_step_def issue_def tool_consts)

lemma de1_avalon_ok: "avalon_ok de1_avalon"
  by (simp add: avalon_ok_def de1_avalon_def tool_consts)

section \<open>The loop\<close>

text \<open>
  The answers of one pass over the loop: the switches, the buttons and the values of the speed
  register when KEY1 and KEY0 make the tool read it; and the calls the pass makes.
\<close>

definition keys_of :: "u32 \<Rightarrow> u32" where
  "keys_of btn = 0xF AND NOT btn"

definition round_answers :: "u32 \<Rightarrow> u32 \<Rightarrow> u32 \<Rightarrow> u32 \<Rightarrow> u32 list" where
  "round_answers sw btn r1 r2 = [sw, 0, btn, 0, 0]
     @ (if keys_of btn AND 2 \<noteq> 0 then [r1, 0] else [0])
     @ (if keys_of btn AND 1 \<noteq> 0 then [r2, 0] else [0]) @ [0]"

definition round_calls :: "avalon \<Rightarrow> u32 \<Rightarrow> u32 \<Rightarrow> u32 \<Rightarrow> u32 \<Rightarrow> tool \<Rightarrow> call list" where
  "round_calls A sw btn r1 r2 t =
     [Load (vhps2pga_base t + AVALON_SWITCHES A) sw, Store (pattern_mem A 0x800 t) sw,
      Load (vhps2pga_base t + AVALON_BUTTONS A) btn]
     @ (if keys_of btn AND 8 \<noteq> 0 then [Store (pattern_mem A 0x804 t) 1] else [])
     @ (if keys_of btn AND 4 \<noteq> 0 then [Store (pattern_mem A 0x804 t) (- 1)] else [])
     @ (if keys_of btn AND 2 \<noteq> 0 then [Load (speed_reg t) r1, Store (speed_reg t) (r1 div 2)] else [])
     @ (if keys_of btn AND 1 \<noteq> 0 then [Load (speed_reg t) r2, Store (speed_reg t) (r2 * 2)] else [])
     @ [Nanosleep 0 500000000]"

lemma run_round:
  assumes "pc t = Read_Switches"
  shows "\<exists>x. run_main A (round_answers sw btn r1 r2) t =
    t\<lparr>buttons := keys_of btn, temp := x, calls := calls t @ round_calls A sw btn r1 r2 t\<rparr>"
proof -
  let ?x = "if keys_of btn AND 1 \<noteq> 0 then r2 else if keys_of btn AND 2 \<noteq> 0 then r1 else sw"
  have "run_main A (round_answers sw btn r1 r2) t =
    t\<lparr>buttons := keys_of btn, temp := ?x, calls := calls t @ round_calls A sw btn r1 r2 t\<rparr>"
    using assms
    by (cases t; cases "keys_of btn AND 8 = 0"; cases "keys_of btn AND 4 = 0";
        cases "keys_of btn AND 2 = 0"; cases "keys_of btn AND 1 = 0")
      (simp_all add: round_answers_def round_calls_def main_step_def issue_def pressed_def
        keys_of_def [symmetric] pattern_mem_def speed_reg_def)
  then show ?thesis ..
qed

text \<open>What a pass makes of the speed register, and the value of a register after some calls.\<close>

definition faster :: "u32 \<Rightarrow> u32 \<Rightarrow> u32" where
  "faster btn r = (if keys_of btn AND 2 \<noteq> 0 then r div 2 else r)"

definition next_speed :: "u32 \<Rightarrow> u32 \<Rightarrow> u32" where
  "next_speed btn r = (if keys_of btn AND 1 \<noteq> 0 then faster btn r * 2 else faster btn r)"

fun stored :: "u32 \<Rightarrow> call \<Rightarrow> u32 \<Rightarrow> u32" where
  "stored a (Store b v) r = (if a = b then v else r)"
| "stored a _ r = r"

definition reg_value :: "u32 \<Rightarrow> call list \<Rightarrow> u32 \<Rightarrow> u32" where
  "reg_value a cs r = fold (stored a) cs r"

text \<open>
  The answers of a sequence of passes (switches, buttons), when the speed register reads back
  what was written to it.
\<close>

fun session_answers :: "(u32 \<times> u32) list \<Rightarrow> u32 \<Rightarrow> u32 list" where
  "session_answers [] r = []"
| "session_answers ((sw, btn) # ss) r =
     round_answers sw btn r (faster btn r) @ session_answers ss (next_speed btn r)"

definition apart :: "avalon \<Rightarrow> bool" where
  "apart A \<longleftrightarrow> AVALON_SDRAM_BASE A + 0x800 \<noteq> 0x530C \<and> AVALON_SDRAM_BASE A + 0x804 \<noteq> 0x530C"

lemma round_reg_value:
  assumes "apart A"
  shows "reg_value (speed_reg t) (round_calls A sw btn r (faster btn r) t) r = next_speed btn r"
  using assms by (auto simp: apart_def reg_value_def round_calls_def pattern_mem_def speed_reg_def
    faster_def next_speed_def add.assoc)

lemma run_session:
  assumes "pc t = Read_Switches" "apart A"
  shows "\<exists>cs. calls (run_main A (session_answers ss r) t) = calls t @ cs \<and>
    reg_value (speed_reg t) cs r = fold (\<lambda>(sw, btn). next_speed btn) ss r"
  using assms(1)
proof (induction ss arbitrary: r t)
  case (Cons s ss)
  obtain sw btn where s: "s = (sw, btn)" by (cases s)
  obtain x where run: "run_main A (round_answers sw btn r (faster btn r)) t =
      t\<lparr>buttons := keys_of btn, temp := x, calls := calls t @ round_calls A sw btn r (faster btn r) t\<rparr>"
    (is "_ = ?u") using run_round [OF Cons.prems] by blast
  have pc: "pc ?u = Read_Switches" and reg: "speed_reg ?u = speed_reg t"
    using Cons.prems by (simp_all add: speed_reg_def)
  obtain cs where cs: "calls (run_main A (session_answers ss (next_speed btn r)) ?u) = calls ?u @ cs"
      "reg_value (speed_reg t) cs (next_speed btn r) = fold (\<lambda>(sw, btn). next_speed btn) ss (next_speed btn r)"
    using Cons.IH [OF pc, of "next_speed btn r"] reg by auto
  have "reg_value (speed_reg t) (round_calls A sw btn r (faster btn r) t @ cs) r
      = reg_value (speed_reg t) cs (next_speed btn r)"
    using round_reg_value [OF assms(2), of t sw btn r] by (simp add: reg_value_def)
  then show ?case using run cs s by auto
qed (simp add: reg_value_def)

lemma fold_fast: "unat (fold (\<lambda>(sw, btn). next_speed btn) (replicate n (sw, 0xD)) r) = unat r div 2 ^ n"
proof (induction n arbitrary: r)
  case (Suc n)
  have "unat (next_speed 0xD r) = unat r div 2"
    by (simp add: next_speed_def faster_def keys_of_def unat_div)
  with Suc show ?case by (simp add: div_mult2_eq)
qed simp

lemma fold_zero: "fold (\<lambda>(sw, btn). next_speed btn) ss 0 = 0"
  by (induction ss) (auto simp: next_speed_def faster_def)

lemma started_pc: "pc started = Read_Switches"
  and started_speed: "speed_reg started = 0x7600530C"
  and de1_apart: "apart de1_avalon"
  by (simp_all add: started_value start_def speed_reg_def apart_def de1_avalon_def)

text \<open>Until the second mapping the pointer has its initial value.\<close>

definition early_points :: "point set" where
  "early_points = {Install, Open_Mem, Opened, Map_Lwfpga, Mapped_Lwfpga, Read_Id, Read_Stamp, Print_Id, Print_Stamp,
     Map_Hps2fpga, Mapped_Hps2fpga}"

lemma early_main_step:
  assumes "pc t \<in> early_points \<Longrightarrow> vhps2pga_base t = 0" "pc (main_step A v t) \<in> early_points"
  shows "vhps2pga_base (main_step A v t) = 0"
  using assms
  by (cases "pc t") (auto simp: main_step_def issue_def early_points_def split: if_splits)

lemma early_base: "tool_reach A t \<Longrightarrow> pc t \<in> early_points \<Longrightarrow> vhps2pga_base t = 0"
proof (induction rule: tool_reach.induct)
  case (next_step t u)
  from next_step.hyps(2) show ?case
  proof cases
    case (main v)
    then show ?thesis using early_main_step next_step by blast
  qed (use next_step.prems in \<open>auto simp: on_close_def issue_def early_points_def\<close>)
qed (simp add: start_def)

section \<open>Properties\<close>

text \<open>
  C15: Every reachable state is well-formed; in particular every load and store of the tool went
  to memory it had mapped at the time, whatever the kernel answers and whenever SIGINT comes.
\<close>

theorem tool_memory_safe:
  assumes "avalon_ok A" and "tool_reach A t"
  shows "tool_wf t \<and> accesses_ok {} (calls t)"
  using wf_reach [OF assms(2,1)] by (simp add: wf_accesses)

theorem tool_memory_safe_witness:
  "tool_wf started \<and> accesses_ok {} (calls started)"
  by (rule tool_memory_safe [OF de1_avalon_ok started_reached])

text \<open>
  C23: A process that ends, by an error path of \<open>main\<close> or by the signal handler once the pointer to
  the second bridge is not null any more, has given back every mapping and every descriptor it got,
  whatever the kernel answered and wherever in the loop or on the error paths the signal came. (While
  the pointer is null the handler unmaps memory that is not the tool's to give back, C38, and a result
  not assigned yet is lost.)
\<close>

theorem tool_returns_resources:
  assumes "avalon_ok A" and "tool_reach A t" and "tool_step A t u" and "pc u = Done"
    and "u = on_close t \<Longrightarrow> vhps2pga_base t \<noteq> 0"
  shows "mapped (calls u) = {} \<and> opened (calls u) = {}"
proof -
  have wf: "tool_wf t" by (rule wf_reach [OF assms(2,1)])
  from assms(3) show ?thesis
  proof cases
    case (main v)
    then have "pc t = Error_Open_Mem_Failed"
      using assms(4) by (cases "pc t") (auto simp: main_step_def issue_def split: if_splits)
    then show ?thesis using main(1) wf by (simp add: main_step_def tool_wf_defs)
  next
    case sigint
    then have "pc t \<notin> early_points" using assms(5) early_base [OF assms(2)] by blast
    then show ?thesis using sigint on_close_all [OF wf] by (auto simp: early_points_def)
  next
    case killed
    then show ?thesis using wf by (simp add: tool_wf_defs)
  qed
qed

text \<open>The signal in the loop, and the end of \<open>main\<close> when the second mapping fails.\<close>

theorem tool_returns_resources_witness:
  "mapped (calls (on_close started)) = {} \<and> opened (calls (on_close started)) = {} \<and>
   (let u = run_main de1_avalon [0, 3, 0, 0xB6000000, 0, 0, 0, 0, 0, MAP_FAILED, 0, 0, 0, 0] start in
     pc u = Done \<and> mapped (calls u) = {} \<and> opened (calls u) = {})"
proof -
  have "mapped (calls (on_close started)) = {} \<and> opened (calls (on_close started)) = {}"
  proof (rule tool_returns_resources [OF de1_avalon_ok started_reached])
    show "tool_step de1_avalon started (on_close started)" by (simp add: tool_step.sigint started_value)
    show "pc (on_close started) = Done" by (simp add: on_close_def issue_def)
  qed (simp add: started_value)
  moreover define t where "t = run_main de1_avalon [0, 3, 0, 0xB6000000, 0, 0, 0, 0, 0, MAP_FAILED, 0, 0, 0] start"
  have t: "tool_reach de1_avalon t" unfolding t_def run_main_simps
    by (intro main_reach tool_reach.init) (simp_all add: kernel_answer_def start_def main_step_def issue_def tool_consts)
  have pc: "pc t = Error_Open_Mem_Failed" "vhps2pga_base t \<noteq> 0"
    by (simp_all add: t_def start_def main_step_def issue_def tool_consts)
  then have step: "tool_step de1_avalon t (main_step de1_avalon 0 t)"
    by (intro tool_step.main) (simp_all add: kernel_answer_def)
  have "pc (main_step de1_avalon 0 t) = Done" using pc by (simp add: main_step_def issue_def)
  from tool_returns_resources [OF de1_avalon_ok t step this] this
  have "pc (main_step de1_avalon 0 t) = Done \<and> mapped (calls (main_step de1_avalon 0 t)) = {} \<and>
      opened (calls (main_step de1_avalon 0 t)) = {}" using pc(2) by blast
  ultimately show ?thesis by (simp add: t_def Let_def)
qed

text \<open>
  C26: One pass over the loop copies the switches to the pattern, acts on exactly the pressed
  keys (they read as zero) in the order KEY3, KEY2, KEY1, KEY0, sleeps and is at its start again.
\<close>

theorem loop_round:
  assumes "pc t = Read_Switches"
  shows "pc (run_main A (round_answers sw btn r1 r2) t) = Read_Switches \<and>
    calls (run_main A (round_answers sw btn r1 r2) t) = calls t @
     [Load (vhps2pga_base t + AVALON_SWITCHES A) sw, Store (pattern_mem A 0x800 t) sw,
      Load (vhps2pga_base t + AVALON_BUTTONS A) btn]
     @ (if bit btn 3 then [] else [Store (pattern_mem A 0x804 t) 1])
     @ (if bit btn 2 then [] else [Store (pattern_mem A 0x804 t) (- 1)])
     @ (if bit btn 1 then [] else [Load (speed_reg t) r1, Store (speed_reg t) (r1 div 2)])
     @ (if bit btn 0 then [] else [Load (speed_reg t) r2, Store (speed_reg t) (r2 * 2)])
     @ [Nanosleep 0 500000000]"
proof -
  have key: "keys_of btn AND 2 ^ n \<noteq> 0 \<longleftrightarrow> \<not> bit btn n" if "n < 4" for n
  proof -
    have "keys_of btn AND 2 ^ n = (if bit (keys_of btn) n then 2 ^ n else 0)"
      by (rule bit_word_eqI) (auto simp: bit_simps)
    moreover have "bit (0xF :: u32) n" using that by (auto simp: less_Suc_eq numeral_eq_Suc)
    ultimately show ?thesis using that by (auto simp: keys_of_def bit_simps)
  qed
  obtain x where run: "run_main A (round_answers sw btn r1 r2) t =
      t\<lparr>buttons := keys_of btn, temp := x, calls := calls t @ round_calls A sw btn r1 r2 t\<rparr>"
    using run_round [OF assms] by blast
  show ?thesis unfolding run
    using assms key [of 3] key [of 2] key [of 1] key [of 0] by (simp add: round_calls_def)
qed

theorem loop_round_witness:
  "calls (run_main de1_avalon (round_answers 0x2AA 0x9 100 50) started) = calls started @
     [Load 0x76005000 0x2AA, Store 0x86000800 0x2AA, Load 0x76005100 0x9,
      Store 0x86000804 (- 1), Load 0x7600530C 100, Store 0x7600530C 50, Nanosleep 0 500000000]"
  using loop_round [of started de1_avalon "0x2AA" "0x9" 100 50]
  by (simp add: started_value de1_avalon_def pattern_mem_def speed_reg_def start_def)

text \<open>
  Holding KEY1 for 32 passes brings the tick register at 0x530C to zero, from any value,
  and no later use of the keys ever changes it again.
\<close>

theorem speed_never_recovers:
  assumes "pc t = Read_Switches" and "apart A"
  shows "\<exists>cs. calls (run_main A (session_answers (replicate 32 (sw, 0xD) @ ss) r) t) = calls t @ cs \<and>
    reg_value (speed_reg t) cs r = 0"
proof -
  have "unat (fold (\<lambda>(sw, btn). next_speed btn) (replicate 32 (sw, 0xD)) r) = 0"
    unfolding fold_fast using unsigned_less [of r, where 'a = nat] by simp
  then have "fold (\<lambda>(sw, btn). next_speed btn) (replicate 32 (sw, 0xD)) r = 0"
    by (simp only: unat_eq_0)
  then have "fold (\<lambda>(sw, btn). next_speed btn) (replicate 32 (sw, 0xD) @ ss) r = 0"
    by (simp only: fold_append comp_apply fold_zero)
  with run_session [OF assms, of "replicate 32 (sw, 0xD) @ ss" r] show ?thesis by (simp only:)
qed

theorem speed_never_recovers_witness:
  "\<exists>cs. calls (run_main de1_avalon (session_answers (replicate 32 (0, 0xD) @ [(0, 0xE)]) 50000000) started)
      = calls started @ cs \<and> reg_value 0x7600530C cs 50000000 = 0"
  using speed_never_recovers [of started de1_avalon 0 "[(0, 0xE)]" 50000000]
  by (simp only: started_pc started_speed de1_apart simp_thms)

text \<open>
  C38: While the second bridge is not mapped yet, SIGINT makes the handler unmap the first
  gigabyte of the address space, which the tool never mapped and where its own code lies.
\<close>

theorem early_interrupt_unmaps:
  assumes "avalon_ok A" and "tool_reach A t"
    and "pc t \<in> {Open_Mem, Opened, Map_Lwfpga, Mapped_Lwfpga, Read_Id, Read_Stamp, Print_Id, Print_Stamp,
      Map_Hps2fpga, Mapped_Hps2fpga}"
  shows "tool_step A t (on_close t) \<and>
    calls (on_close t) = calls t @ [Puts ''Cleaning up...'', Munmap 0 0x40000000,
      Munmap (vlwfpga_base t) 0x00200000, Close (fd t), Exit 0]"
proof -
  have "vhps2pga_base t = 0"
    using early_base [OF assms(2)] assms(3) by (auto simp: early_points_def)
  with assms(3) show ?thesis by (auto simp: on_close_def issue_def tool_consts tool_step.simps)
qed

theorem early_interrupt_unmaps_witness:
  "calls (on_close (run_main de1_avalon [0] start)) = [Signal_SIGINT, Puts ''Cleaning up...'',
     Munmap 0 0x40000000, Munmap 0 0x00200000, Close (- 1), Exit 0]"
proof -
  let ?t = "run_main de1_avalon [0] start"
  have "tool_reach de1_avalon ?t" unfolding run_main_simps
    by (intro main_reach tool_reach.init) (simp_all add: kernel_answer_def start_def)
  moreover have "pc ?t = Open_Mem" "calls ?t = [Signal_SIGINT]" "vlwfpga_base ?t = 0" "fd ?t = - 1"
    by (simp_all add: start_def main_step_def issue_def)
  ultimately show ?thesis using early_interrupt_unmaps [OF de1_avalon_ok, of ?t] by simp
qed

end
