(* ===== verification/SysId.thy ===== *)
theory SysId imports LedPattern begin

text \<open>
  The Linux tool of \<open>src/sw/hps/plasma-soc-test/sysid.c\<close>: it maps the light-weight
  bridge, prints the id and the time stamp of the FPGA system and leaves. The
  arguments are the answers of \<open>open\<close>, \<open>mmap\<close> and the two loads; the result is the
  exit code and the calls made.
\<close>

definition sysid_main :: "u32 \<Rightarrow> u32 \<Rightarrow> u32 \<Rightarrow> u32 \<Rightarrow> u32 \<times> call list" where
  "sysid_main d base sid stamp =
    (if sint d < 0 then (EXIT_FAILURE, [Open d, Perror ''Error opening /dev/mem''])
     else if base = MAP_FAILED then
       (EXIT_FAILURE, [Open d, Mmap LWFPGASLAVES_SPAN LWFPGASLAVES_BASE base,
          Perror ''Error mapping LWFPGASLAVES'', Close d])
     else (let sysid_regs = base + SYSID_QSYS_0_BASE in
       (EXIT_SUCCESS,
         [Open d, Mmap LWFPGASLAVES_SPAN LWFPGASLAVES_BASE base,
          Load sysid_regs sid, Load (sysid_regs + 4) stamp,
          Printf ''Your system's ID: {%08X}'' sid,
          Printf ''Your system's timestamp: %s'' stamp,
          Munmap base LWFPGASLAVES_SPAN, Close d])))"

text \<open>
  The tool succeeds exactly if the device opens and the bridge maps; it then prints the two
  words it read. On every path its accesses are to mapped memory and nothing stays open or mapped.
\<close>

theorem sysid_outcome:
  assumes "base = MAP_FAILED \<or> unat base + unat LWFPGASLAVES_SPAN \<le> 2 ^ 32"
    and run: "sysid_main d base sid stamp = (r, cs)"
  shows "r = (if 0 \<le> sint d \<and> base \<noteq> MAP_FAILED then EXIT_SUCCESS else EXIT_FAILURE) \<and>
    (Printf ''Your system's ID: {%08X}'' x \<in> set cs \<longleftrightarrow> r = EXIT_SUCCESS \<and> x = sid) \<and>
    accesses_ok {} cs \<and> mapped cs = {} \<and> opened cs = {}"
  using run in_lwfpga [of base] assms(1)
  by (auto simp: sysid_main_def Let_def mapped_def opened_def EXIT_FAILURE_def EXIT_SUCCESS_def split: if_splits)

theorem sysid_outcome_witness:
  "\<exists>cs. sysid_main 3 0xB6000000 0xDEADBEEF 1536342590 = (0, cs) \<and>
    Printf ''Your system's ID: {%08X}'' 0xDEADBEEF \<in> set cs \<and> accesses_ok {} cs \<and> mapped cs = {} \<and> opened cs = {}"
proof -
  obtain r cs where run: "sysid_main 3 0xB6000000 0xDEADBEEF 1536342590 = (r, cs)"
    by (cases "sysid_main 3 0xB6000000 0xDEADBEEF 1536342590")
  have "r = 0 \<and> Printf ''Your system's ID: {%08X}'' 0xDEADBEEF \<in> set cs \<and>
      accesses_ok {} cs \<and> mapped cs = {} \<and> opened cs = {}"
    using sysid_outcome [OF _ run, of "0xDEADBEEF"] by (simp add: tool_consts)
  with run show ?thesis by blast
qed

end
