(* ===== verification/PlsocCounter.thy ===== *)
theory PlsocCounter imports Machine begin

text \<open>
  The Linux driver of the Plasma counter, \<open>src/sw/hps/plasma-soc-drv/plsoc_counter.c\<close>:
  the sysfs attribute \<open>reload\<close> and the probe and remove handlers. Functions of the
  kernel are parameters: \<open>kstrtou32\<close> (argument \<open>kstrtou\<close>: string and base to error code and number), the
  text \<open>scnprintf\<close> makes of a number, and the answers of the allocation, resource,
  mapping and sysfs calls of the probe.
\<close>

section \<open>The reload attribute\<close>

definition PLSOC_REG_CONTROL :: u32 where "PLSOC_REG_CONTROL = 0x0"
definition PLSOC_REG_STATUS :: u32 where "PLSOC_REG_STATUS = 0x4"
definition PLSOC_REG_DATA :: u32 where "PLSOC_REG_DATA = 0x8"
definition PLSOC_REG_RELOAD :: u32 where "PLSOC_REG_RELOAD = 0xC"

definition EINVAL :: int where "EINVAL = 22"
definition ENOMEM :: int where "ENOMEM = 12"
definition ENXIO :: int where "ENXIO = 6"
definition MAX_ERRNO :: u32 where "MAX_ERRNO = 4095"

text \<open>\<open>regs\<close> is \<open>counter_priv->regs\<close>.\<close>

definition plsoc_counter_show_reload :: "(string \<Rightarrow> u32 \<Rightarrow> string) \<Rightarrow> u32 \<Rightarrow> string io" where
  "plsoc_counter_show_reload scnprintf regs =
     bind_io (readl (regs + PLSOC_REG_RELOAD)) (\<lambda>v. ret (scnprintf (''%u'' @ [CHR 0x0A]) v))"

definition plsoc_counter_store_reload ::
  "(string \<Rightarrow> nat \<Rightarrow> int \<times> u32) \<Rightarrow> u32 \<Rightarrow> string option \<Rightarrow> int \<Rightarrow> int io" where
  "plsoc_counter_store_reload kstrtou regs buf count =
    (case buf of
       None \<Rightarrow> seq_io (msg ''Error, string must not be NULL'' []) (ret (- EINVAL))
     | Some b \<Rightarrow> (case kstrtou b 10 of (err, reload) \<Rightarrow>
         if err < 0 then seq_io (msg ''Could not convert string to integer'' []) (ret (- EINVAL))
         else seq_io (writel reload (regs + PLSOC_REG_RELOAD)) (ret count)))"

section \<open>Probe and remove\<close>

text \<open>
  \<open>drvdata\<close> is the private record of the device (its only field), if it is set;
  \<open>group\<close> tells whether the attribute group is in sysfs.
\<close>

record plsoc_dev =
  drvdata :: "u32 option"
  group :: bool

definition IS_ERR :: "u32 \<Rightarrow> bool" where
  "IS_ERR p \<longleftrightarrow> - MAX_ERRNO \<le> p"

definition plsoc_counter_probe ::
  "bool \<Rightarrow> u32 option \<Rightarrow> (u32 \<Rightarrow> u32) \<Rightarrow> int \<Rightarrow> plsoc_dev \<Rightarrow> int \<times> plsoc_dev" where
  "plsoc_counter_probe allocated resource devm_ioremap_resource sysfs_result d =
    (if \<not> allocated then (- ENOMEM, d)
     else (case resource of
         None \<Rightarrow> (- ENXIO, d)
       | Some res \<Rightarrow>
           let regs = devm_ioremap_resource res in
           if IS_ERR regs then (sint regs, d)
           else (sysfs_result, d\<lparr>drvdata := Some regs, group := group d \<or> sysfs_result = 0\<rparr>)))"

definition plsoc_counter_remove :: "plsoc_dev \<Rightarrow> int \<times> plsoc_dev" where
  "plsoc_counter_remove d = (0, d\<lparr>group := False, drvdata := None\<rparr>)"

text \<open>The pointers that carry an error are those that are a small negative number.\<close>

lemma IS_ERR_iff: "IS_ERR p \<longleftrightarrow> - 4095 \<le> sint p \<and> sint p < 0"
proof -
  have p: "sint p = (uint p + 2 ^ 31) mod 2 ^ 32 - 2 ^ 31"
    using int_word_sint [of "uint p", where 'a = 32] by simp
  have u: "uint p < 2 ^ 32" "0 \<le> uint p" using unsigned_less [of p, where 'a = int] by simp_all
  have "sint p = (if uint p < 2 ^ 31 then uint p else uint p - 2 ^ 32)"
    unfolding p using u by (cases "uint p < 2 ^ 31") (simp_all add: mod_pos_pos_trivial mod_pos_geq)
  with u show ?thesis by (auto simp: IS_ERR_def MAX_ERRNO_def word_le_def)
qed

text \<open>
  A text that is no number leaves the register alone and is refused; a number is written to
  the reload register, and reading the attribute then gives that number, if the register reads
  back what was written.
\<close>

theorem reload_attribute:
  assumes "kstrtou b 10 = (err, v)"
    and "\<And>h. env s (Wr (regs + 0xC) v # h) (regs + 0xC) = v"
  shows "(if err < 0
    then plsoc_counter_store_reload kstrtou regs (Some b) n s
      = Some (Val (- 22) (s\<lparr>trace := Msg ''Could not convert string to integer'' [] # trace s\<rparr>))
    else \<exists>t u. plsoc_counter_store_reload kstrtou regs (Some b) n s = Some (Val n t) \<and>
      trace t = Wr (regs + 0xC) v # trace s \<and>
      plsoc_counter_show_reload scnprintf regs t = Some (Val (scnprintf (''%u'' @ [CHR 0x0A]) v) u))"
  using assms
  by (simp add: plsoc_counter_store_reload_def plsoc_counter_show_reload_def seq_io_def bind_io_def
    msg_def ret_def writel_def readl_def EINVAL_def PLSOC_REG_RELOAD_def)

theorem reload_attribute_witness:
  "\<forall>s. \<exists>t u. plsoc_counter_store_reload (\<lambda>_ _. (0, 5)) 0x5300 (Some ''5'') 1
      (s\<lparr>env := \<lambda>h a. case h of Wr b w # _ \<Rightarrow> w | _ \<Rightarrow> 0\<rparr>) = Some (Val 1 t) \<and>
    trace t = Wr 0x530C 5 # trace s \<and>
    plsoc_counter_show_reload (\<lambda>_ _. ''5'') 0x5300 t = Some (Val ''5'' u)"
proof
  fix s :: mach
  show "\<exists>t u. plsoc_counter_store_reload (\<lambda>_ _. (0, 5)) 0x5300 (Some ''5'') 1
      (s\<lparr>env := \<lambda>h a. case h of Wr b w # _ \<Rightarrow> w | _ \<Rightarrow> 0\<rparr>) = Some (Val 1 t) \<and>
    trace t = Wr 0x530C 5 # trace s \<and>
    plsoc_counter_show_reload (\<lambda>_ _. ''5'') 0x5300 t = Some (Val ''5'' u)"
    using reload_attribute [where kstrtou = "\<lambda>_ _. (0, 5)" and b = "''5''" and err = 0 and v = 5 and
        regs = "0x5300" and n = 1 and scnprintf = "\<lambda>_ _. ''5''" and
        s = "s\<lparr>env := \<lambda>h a. case h of Wr b w # _ \<Rightarrow> w | _ \<Rightarrow> 0\<rparr>"] by simp
qed

text \<open>
  C39: The probe of a fresh device succeeds exactly if every call it makes does; then the mapped
  registers are the private data and the attributes are visible. Otherwise it returns a negative
  error and no attribute is visible. Removing the device gives the initial state in both cases.
\<close>

theorem probe_outcome:
  assumes "d = \<lparr>drvdata = None, group = False\<rparr>" and "sysfs \<le> 0"
    and "plsoc_counter_probe allocated resource ioremap sysfs d = (err, e)"
  shows "(err = 0 \<longleftrightarrow> allocated \<and> (\<exists>res. resource = Some res \<and> \<not> IS_ERR (ioremap res)) \<and> sysfs = 0) \<and>
    (err = 0 \<and> drvdata e = map_option ioremap resource \<and> group e \<or> err < 0 \<and> \<not> group e) \<and>
    plsoc_counter_remove e = (0, d)"
  using assms
  by (auto simp: plsoc_counter_probe_def plsoc_counter_remove_def Let_def IS_ERR_iff ENOMEM_def ENXIO_def
    split: if_splits option.splits)

theorem probe_outcome_witness:
  "\<exists>e. plsoc_counter_probe True (Some 0xC0005300) (\<lambda>r. r + 0x10000000) 0
      \<lparr>drvdata = None, group = False\<rparr> = (0, e) \<and>
    drvdata e = Some 0xD0005300 \<and> group e \<and> plsoc_counter_remove e = (0, \<lparr>drvdata = None, group = False\<rparr>)"
proof -
  obtain err e where run: "plsoc_counter_probe True (Some 0xC0005300) (\<lambda>r. r + 0x10000000) 0
      \<lparr>drvdata = None, group = False\<rparr> = (err, e)" by fastforce
  have "\<not> IS_ERR 0xD0005300" by (simp add: IS_ERR_def MAX_ERRNO_def)
  then show ?thesis using probe_outcome [OF refl _ run] run by auto
qed

end
