(* ===== verification/Spec2Isabelle.thy ===== *)
theory Spec2Isabelle imports FpgaManager ImageBoot ReadEyes MemSize LmbAlloc EnvText SysId PlsocCounter begin

text \<open>
  The C programs of Plasma-SoC, a MIPS system on the FPGA half of a DE1-SoC board (VHDL, under
  \<open>src/rtl\<close>), which the ARM half, the HPS, starts and talks to. Below, \<open>U\<close> is
  \<open>src/sw/hps/spl_bsp/uboot-socfpga\<close> and \<open>P\<close> is \<open>U/arch/arm/cpu/armv7/socfpga\<close>.

  \<^bold>\<open>The program.\<close> The boot ROM of the HPS starts the preloader. Its \<open>spl_board_init\<close>
  (\<open>P/spl.c\<close>) freezes the I/O banks, resets the modules, programs the clocks, shifts the
  I/O configuration through the scan chains, sets the pin multiplexing, releases the modules
  and thaws the banks, starts the console, sets up and calibrates the SDRAM, and enables
  interrupts; \<open>board_init_r\<close> (\<open>U/common/spl/spl.c\<close>) then reads the next image from the SD
  card, checks it and jumps to it. The next image, U-Boot, keeps its environment in a hash
  table and its memory map in lists of regions, and can program the FPGA. Under Linux two
  tools and a driver reach the FPGA over the light-weight bridge.

  \<^bold>\<open>Ground.\<close>
  \<^item> Prelude: word types, shifts of C, the fact collections (\<open>reg_defs\<close>, \<open>io_simps\<close>,
    \<open>wp_rules\<close>, \<open>runs_rules\<close>) and lemmas on words and lists. Arrays: checked C arrays.
  \<^item> Machine: \<open>mach\<close> is the history of register accesses and console output together with
    the global variables of the preloader; \<open>'a io\<close> is a function from it to a value, to a stop
    (\<open>Halt\<close>, the code's \<open>hang\<close>), to a \<open>Fault\<close> (an access outside an array), or to \<open>None\<close> (the
    code never returns). The hardware is not in the repository: the field \<open>env\<close> is any
    function from the history to the value read. A theorem without hypothesis on \<open>env\<close> holds
    for all hardware. The locale \<open>rw_registers\<close> says what it means that some registers are
    memory (interpreted as \<open>storage\<close> on the hardware made of plain registers), \<open>answers n\<close> that
    one of the next \<open>n\<close> reads of a register gives what the code waits for, and \<open>wp\<close>
    (what holds if the code returns) and \<open>runs\<close> (it does return, and so) are the calculi of
    partial and total correctness.
  \<^item> SocRegs, BoardData: addresses, masks and settings of the headers under
    \<open>U/arch/arm/include/asm/arch-socfpga\<close> and of \<open>U/board/altera/socfpga\<close>, and the tables of
    pins and scan chains, with the names and the values of the sources.

  \<^bold>\<open>The hardware of the preloader.\<close> One theory for each file of \<open>P\<close>, one definition for each
  function:
  \<^item> FpgaStatus and FpgaManager (\<open>fpga_manager.c\<close>): the locale \<open>ready_check\<close> is what others rely
    on when they ask whether the FPGA is ready; \<open>single_shot\<close> and \<open>polled\<close> are the two
    functions that promise it. Programming follows its phases, and every status it returns is
    explained by what was read last (\<open>status_explained\<close>).
  \<^item> ResetManager (\<open>reset_manager.c\<close>): no bridge is released unless the FPGA was just seen
    ready.
  \<^item> Timer (\<open>timer.c\<close>): the locale \<open>time_stamp\<close> is the accounting that the two counters of the
    file (\<open>ms\<close>, \<open>count\<close>) share. \<open>ticking K D\<close> is a counter that counts at most \<open>D\<close> periods from
    one access to the next and at least one in any \<open>K\<close> accesses; without a roll-over delays wait
    long enough, and end in time.
  \<^item> FreezeController, ScanManager (\<open>freeze_controller.c\<close>, \<open>scan_manager.c\<close>): the order of the
    freeze protocol; the JTAG engine is specified as the list of the bits it was sent, and
    programming a chain sends exactly the bits of its table.
  \<^item> SystemManager (\<open>system_manager.c\<close>, \<open>nic301.c\<close>, \<open>ecc_ram.c\<close>), SdramMmr (the register part
    of \<open>sdram.c\<close>): every register ends with its handoff value and what is verified is read
    back.
  \<^item> GicInterrupts (\<open>gic.c\<close>, \<open>interrupts.c\<close>): the locale \<open>gic\<close> is the interrupt controller's
    side of acknowledging and ending an interrupt, interpreted as \<open>device\<close>; a pending
    interrupt runs its registered handler.
  \<^item> ClockManager (\<open>clock_manager.c\<close>): a checker of the rules of the clock tree accepts every
    prefix of every run, and on hardware that locks and settles in a number of polls and whose
    timer counts (\<open>clock_hw\<close>) the set-up ends.

  \<^bold>\<open>Their composition.\<close> Frames has rules for what an operation leaves alone. SplBoard models
  \<open>P/spl.c\<close> and \<open>P/s_init.c\<close>. SplBoot proves facts on the whole sequence of phases through
  the locales \<open>view\<close>, \<open>boot_view\<close> and \<open>plain_view\<close>: a part of the state that the single
  components keep is kept by the sequence; they are interpreted on the hardware, the flags
  of the banks, the reset status and the scan engine. ImageLoader models \<open>U/common/spl/spl.c\<close>,
  \<open>U/drivers/mmc/spl_mmc.c\<close> and the header of \<open>image.h\<close>, and ImageBoot shows that what is started is what was read behind its header, checked if
  the header has the magic number and announces data (an image without it is started
  unchecked), and that a well-formed
  card boots (locale \<open>boot_var\<close>, interpretation \<open>image\<close>). Crc32 (\<open>U/lib/crc32.c\<close>) is
  equal to the textbook checksum at every address and length.

  \<^bold>\<open>The calibration of the SDRAM\<close> (\<open>U/board/altera/socfpga/sdram/sequencer.c\<close>), which the boot
  sequence calls as \<open>sdram_calibration_full\<close>:
  \<^item> SeqRegs has the registers and settings of \<open>sequencer_defines.h\<close> and its companions and the
    tables loaded into the read/write manager, and Loops the loops with local variables (\<open>fold_io\<close>,
    \<open>while_io\<close>). The structures \<open>param\<close> and \<open>gbl\<close> of the code are fields of \<open>mach\<close>.
  \<^item> SccManager (\<open>scc_mgr_*\<close>), RwManager (the start of the memory, read and write tests),
    StrobeCalibration (the search for the strobe enable), EyeEdges and Deskew (\<open>vfifo_center\<close> and
    \<open>writes_center\<close>) and Calibration (the stages, \<open>mem_calibrate\<close>, \<open>run_mem_calibrate\<close>,
    \<open>sdram_calibration\<close>) are the code from the bottom to the top; a function of several hundred
    lines is a definition for each of its loops and steps.
  \<^item> CalibrationFrame: the locale \<open>calibration_frame\<close> is what an operation of the sequencer keeps,
    whatever the relation: interpreted as \<open>touching\<close> (only registers of the controller and the
    sequencer's own variables change), \<open>careful\<close> (a recorded failure stays recorded) and, in
    CalibrationBounds, \<open>steps\<close>. CalibrationReport: a part that fails has recorded a stage, and so
    the report registers and the result say the same.
  \<^item> Chains (the delay and phase chains behind the addresses), WindowCentre (the arithmetic of
    the centre of a window), Settling (the calculus \<open>settles\<close> of ending with all settings in
    range) and CalibrationBounds: the whole calibration ends, on hardware that obeys the
    locale \<open>delay_chains\<close>, interpreted as \<open>chains\<close>.
  \<^item> EyeSearch and ReadEyes: on hardware whose pins read right within an eye (the locale
    \<open>read_eyes\<close>, interpreted as \<open>eye\<close>) the edge searches find the edges of the eyes, and
    \<open>vfifo_center\<close> puts every pin into the centre of its eye.
  \<^item> MemSize (\<open>dram_init\<close> and \<open>U/common/memsize.c\<close>): U-Boot's look for the size of the memory.
    On memory whose addresses repeat (the locale \<open>wrapping_ram\<close>, interpreted on \<open>ram_device\<close>) it
    finds the size, and puts back every word unless the memory has the greatest size.

  \<^bold>\<open>Data structures.\<close>
  \<^item> Lmb, LmbSpec, LmbAlloc (\<open>U/lib/lmb.c\<close>): a table of regions is a set of addresses;
    reserving is union, freeing is difference (but for the last region, which stays behind a count
    of 0), allocating takes the highest place.
  \<^item> EnvTable, EnvSpec, EnvCreate (\<open>U/lib/hashtable.c\<close>): \<open>env_map\<close> is the finite map a hash
    table stands for, \<open>env_wf\<close> its invariant, \<open>room\<close> says that empty buckets are left;
    setting, deleting and finding refine the operations of the map. The permission check and the
    callbacks are arbitrary functions: \<open>denied\<close> is their answer, \<open>judged\<close> what they are shown,
    \<open>permits\<close> that they accept a variable.
  \<^item> Qsort (\<open>U/lib/qsort.c\<close>): the locale \<open>comparison\<close> states what a comparison function must
    promise on the elements; \<open>names\<close> is the interpretation on \<open>strcmp\<close> and 7-bit strings.
  \<^item> EnvText (export and import of \<open>hashtable.c\<close>): the locale \<open>map_store\<close> is what the import
    needs of the store; \<open>env_store\<close> is the hash table. Import after export is the identity
    when the export fitted; a text longer than its buffer is the result \<open>Overrun\<close>.

  \<^bold>\<open>Under Linux.\<close> LedPattern (\<open>src/sw/hps/plasma-soc-test/led_pattern_mgr.c\<close>) is a step
  relation over the points of \<open>main\<close>, into which SIGINT may come at any point, also between a
  call and the assignment of its result; its invariant is preserved by both kinds of steps. SysId is \<open>sysid.c\<close> and PlsocCounter is
  \<open>src/sw/hps/plasma-soc-drv/plsoc_counter.c\<close>.

  \<^bold>\<open>Loops, bounds and fuel.\<close> Loops without bound that poll the hardware (\<open>poll_until\<close>,
  \<open>udelay_loop\<close>, \<open>wait_until\<close>) and the search loops of the hash table (\<open>next_size\<close>,
  \<open>probe\<close>) are fixpoints in the option type, so that not returning is the value \<open>None\<close>; that they
  return is proved separately, from hypotheses on the hardware or, for the hash table, from
  the invariant (a free bucket; a prime among the sizes, searched no further than 521 for
  the sizes in use). The bounded polls of the code (\<open>attempt n\<close>, \<open>for_io\<close>) have the code's
  bounds; no fuel is used elsewhere. The loops of the calibration are fixpoints too (\<open>while_io\<close>);
  their ends follow from counters, and for the loop over the read latency from the latency,
  which is counted down to 0. The round trip of the environment holds for as many
  variables as the importing table is created for (\<open>import_size\<close>: 64 and one for every eight bytes of the
  text, at most 512), because it must keep an empty bucket. Bounds on polls and time are parameters of the
  hypotheses on the hardware (\<open>n\<close>, \<open>K\<close>, \<open>D\<close>), so that no speed is assumed. KEY1 of the LED tool needs 32 passes because the register has 32 bits.

  \<^bold>\<open>Build.\<close> The model is the build of this board: no \<open>CONFIG_SOCFPGA_VIRTUAL_TARGET\<close>, \<open>debug\<close>,
  \<open>DEBUG_MEMORY\<close> and \<open>WATCHDOG_RESET\<close> empty, boot from SD card with boot record, no FAT,
  no FPGA load in the preloader, SDRAM and I/O configuration not skipped.

  \<^bold>\<open>Not modelled.\<close> Of the sequencer, write levelling (\<open>rw_mgr_mem_calibrate_wlevel\<close>) and the entry
  points for debugging, which are compiled for this board but never called, the code for other devices
  and memories, and the counters of its debug report. The console driver and the SD card
  driver are parameters of the boot sequence, records of functions. The look-up of callbacks and flags of a new
  environment variable (\<open>common/env_callback.c\<close>, \<open>env_flags.c\<close>) is the argument
  \<open>env_init\<close>, and giving memory back is not visible. The boot variants of \<open>spl.c\<close> that
  this build does not compile. U-Boot's drivers, shell, network stack and file systems and
  the rest of its library are third-party code that the project only carries. The VHDL and
  the projects of the FPGA tools are not C.
\<close>

end
